(* ===== verification/Prelude.thy ===== *)
theory Prelude
  imports Main "HOL-Library.Word" "HOL-Library.Char_ord" "HOL-Library.List_Lexorder"
begin

text \<open>
  Shared vocabulary of the development: results as sums, byte classes, the string operations of
  the Rust standard library that the modelled code calls, checked and saturating machine
  arithmetic, and the interface of a fallible run over a list of inputs.

  A Rust \<open>String\<close>, \<open>&str\<close> or \<open>[u8]\<close> is a \<open>string\<close>, one \<open>char\<close> per byte; the theory \<open>Utf8\<close> holds
  the view of a string as Unicode scalar values.  A \<open>Result<T, E>\<close> is \<open>'e + 'a\<close> with the
  error on the left, and the operator \<open>?\<close> is \<open>bindE\<close>.
\<close>

section \<open>Collections of facts\<close>

named_theorems result_simps \<open>unfolding of results and their sequencing\<close>
named_theorems text_simps \<open>evaluation of the string operations\<close>

section \<open>Results\<close>

type_synonym ('e, 'a) result = "'e + 'a"

definition bindE :: "'e + 'a \<Rightarrow> ('a \<Rightarrow> 'e + 'b) \<Rightarrow> 'e + 'b" where
  "bindE m f = (case m of Inl e \<Rightarrow> Inl e | Inr x \<Rightarrow> f x)"

definition mapE :: "('a \<Rightarrow> 'b) \<Rightarrow> 'e + 'a \<Rightarrow> 'e + 'b" where
  "mapE f m = (case m of Inl e \<Rightarrow> Inl e | Inr x \<Rightarrow> Inr (f x))"

definition require :: "bool \<Rightarrow> 'e \<Rightarrow> 'e + unit" where
  "require b e = (if b then Inr () else Inl e)"

definition ok_or :: "'e \<Rightarrow> 'a option \<Rightarrow> 'e + 'a" where
  "ok_or e x = (case x of None \<Rightarrow> Inl e | Some y \<Rightarrow> Inr y)"

definition is_ok :: "'e + 'a \<Rightarrow> bool" where
  "is_ok m = (case m of Inl _ \<Rightarrow> False | Inr _ \<Rightarrow> True)"

lemma bindE_simps [simp]:
  "bindE (Inl e) f = Inl e" "bindE (Inr x) f = f x"
  by (simp_all add: bindE_def)

lemma mapE_simps [simp]:
  "mapE g (Inl e) = Inl e" "mapE g (Inr x) = Inr (g x)"
  by (simp_all add: mapE_def)

lemma require_simps [simp]:
  "require True e = Inr ()" "require False e = Inl e"
  by (simp_all add: require_def)

lemma ok_or_simps [simp]:
  "ok_or e None = Inl e" "ok_or e (Some y) = Inr y"
  by (simp_all add: ok_or_def)

lemma is_ok_simps [simp]: "is_ok (Inl e) = False" "is_ok (Inr x) = True"
  by (simp_all add: is_ok_def)

lemma is_ok_iff: "is_ok m \<longleftrightarrow> (\<exists>x. m = Inr x)"
  by (cases m) auto

lemma bindE_eq_Inr [result_simps]: "bindE m f = Inr y \<longleftrightarrow> (\<exists>x. m = Inr x \<and> f x = Inr y)"
  by (cases m) auto

lemma bindE_eq_Inl: "bindE m f = Inl e \<longleftrightarrow> m = Inl e \<or> (\<exists>x. m = Inr x \<and> f x = Inl e)"
  by (cases m) auto

lemma mapE_eq_Inr [result_simps]: "mapE g m = Inr y \<longleftrightarrow> (\<exists>x. m = Inr x \<and> y = g x)"
  by (cases m) auto

lemma require_eq_Inr [result_simps]: "require b e = Inr u \<longleftrightarrow> b"
  by (simp add: require_def)

lemma require_eq_Inl: "require b e = Inl e' \<longleftrightarrow> \<not> b \<and> e' = e"
  by (auto simp: require_def)

lemma ok_or_eq_Inr [result_simps]: "ok_or e x = Inr y \<longleftrightarrow> x = Some y"
  by (cases x) auto

section \<open>Runs that stop at the first error\<close>

fun foldE :: "('s \<Rightarrow> 'i \<Rightarrow> 'e + 's) \<Rightarrow> 's \<Rightarrow> 'i list \<Rightarrow> 'e + 's" where
  "foldE step s [] = Inr s"
| "foldE step s (i # is) = bindE (step s i) (\<lambda>s'. foldE step s' is)"

lemma foldE_append: "foldE step s (xs @ ys) = bindE (foldE step s xs) (\<lambda>s'. foldE step s' ys)"
proof (induction xs arbitrary: s)
  case Nil
  show ?case by simp
next
  case (Cons x xs)
  then show ?case by (cases "step s x") auto
qed

text \<open>A run that fails stops at the first step that fails, in the state the steps before it reached.\<close>

lemma foldE_stops_at:
  "foldE step s is = Inl e \<Longrightarrow>
     \<exists>before i after t. is = before @ i # after \<and> foldE step s before = Inr t \<and> step t i = Inl e"
proof (induction "is" arbitrary: s)
  case Nil
  then show ?case by simp
next
  case (Cons i "is")
  show ?case
  proof (cases "step s i")
    case (Inl x)
    then have "i # is = [] @ i # is \<and> foldE step s [] = Inr s \<and> step s i = Inl e" using Cons.prems by simp
    then show ?thesis by blast
  next
    case (Inr s')
    then have "foldE step s' is = Inl e" using Cons.prems by simp
    then obtain before j after t where "is = before @ j # after" "foldE step s' before = Inr t" "step t j = Inl e"
      using Cons.IH by blast
    then have "i # is = (i # before) @ j # after \<and> foldE step s (i # before) = Inr t \<and> step t j = Inl e"
      using Inr by simp
    then show ?thesis by blast
  qed
qed

fun traverseE :: "('a \<Rightarrow> 'e + 'b) \<Rightarrow> 'a list \<Rightarrow> 'e + 'b list" where
  "traverseE f [] = Inr []"
| "traverseE f (x # xs) = bindE (f x) (\<lambda>y. mapE (Cons y) (traverseE f xs))"

lemma traverseE_length: "traverseE f xs = Inr ys \<Longrightarrow> length ys = length xs"
  by (induction xs arbitrary: ys) (auto simp: result_simps)

lemma traverseE_map:
  "(\<And>x. x \<in> set xs \<Longrightarrow> f x = Inr (g x)) \<Longrightarrow> traverseE f xs = Inr (map g xs)"
  by (induction xs) auto

text \<open>
  The interface of a machine that consumes inputs one by one and may refuse one: what its client
  relies on is an invariant that every accepted input keeps.  The consequences for whole runs are
  proved once.
\<close>

locale fallible_machine =
  fixes step :: "'s \<Rightarrow> 'i \<Rightarrow> 'e + 's"
    and invar :: "'s \<Rightarrow> bool"
  assumes step_invar: "\<lbrakk>invar s; step s i = Inr s'\<rbrakk> \<Longrightarrow> invar s'"
begin

lemma run_invar: "\<lbrakk>invar s; foldE step s is = Inr s'\<rbrakk> \<Longrightarrow> invar s'"
proof (induction "is" arbitrary: s)
  case Nil
  then show ?case by simp
next
  case (Cons i "is")
  then obtain t where "step s i = Inr t" and "foldE step t is = Inr s'"
    by (auto simp: result_simps)
  with Cons.IH Cons.prems(1) show ?case by (blast intro: step_invar)
qed

lemma run_prefix: "foldE step s (xs @ ys) = Inr s' \<Longrightarrow> \<exists>t. foldE step s xs = Inr t"
  by (auto simp: foldE_append result_simps)

lemma run_prefix_invar:
  "\<lbrakk>invar s; foldE step s (xs @ ys) = Inr s'\<rbrakk> \<Longrightarrow> \<exists>t. foldE step s xs = Inr t \<and> invar t"
  using run_prefix run_invar by blast

end

text \<open>
  A machine whose steps only grow an output and never take a terminal input back: the
  extension adds the observations of the client.
\<close>

locale growing_machine = fallible_machine step invar
  for step :: "'s \<Rightarrow> 'i \<Rightarrow> 'e + 's" and invar :: "'s \<Rightarrow> bool" +
  fixes out :: "'s \<Rightarrow> 'o list"
  assumes step_out: "\<lbrakk>invar s; step s i = Inr s'\<rbrakk> \<Longrightarrow> \<exists>zs. out s' = out s @ zs"
begin

lemma run_out: "\<lbrakk>invar s; foldE step s is = Inr s'\<rbrakk> \<Longrightarrow> \<exists>zs. out s' = out s @ zs"
proof (induction "is" arbitrary: s)
  case Nil
  then show ?case by simp
next
  case (Cons i "is")
  then obtain t where t: "step s i = Inr t" "foldE step t is = Inr s'"
    by (auto simp: result_simps)
  obtain zs where "out t = out s @ zs"
    using step_out [OF Cons.prems(1) t(1)] by blast
  moreover obtain zs' where "out s' = out t @ zs'"
    using Cons.IH [OF step_invar [OF Cons.prems(1) t(1)] t(2)] by blast
  ultimately show ?case by simp
qed

lemma run_out_prefix:
  "\<lbrakk>invar s; foldE step s (xs @ ys) = Inr s'\<rbrakk>
    \<Longrightarrow> \<exists>t zs. foldE step s xs = Inr t \<and> out s' = out t @ zs"
  by (auto simp: foldE_append result_simps) (metis run_invar run_out)

end

section \<open>Bytes\<close>

abbreviation code :: "char \<Rightarrow> nat" where
  "code c \<equiv> of_char c"

definition ascii_digit :: "char \<Rightarrow> bool" where
  "ascii_digit c \<longleftrightarrow> 48 \<le> code c \<and> code c \<le> 57"

definition ascii_lower :: "char \<Rightarrow> bool" where
  "ascii_lower c \<longleftrightarrow> 97 \<le> code c \<and> code c \<le> 122"

definition ascii_upper :: "char \<Rightarrow> bool" where
  "ascii_upper c \<longleftrightarrow> 65 \<le> code c \<and> code c \<le> 90"

definition ascii_alphabetic :: "char \<Rightarrow> bool" where
  "ascii_alphabetic c \<longleftrightarrow> ascii_lower c \<or> ascii_upper c"

definition ascii_alphanumeric :: "char \<Rightarrow> bool" where
  "ascii_alphanumeric c \<longleftrightarrow> ascii_alphabetic c \<or> ascii_digit c"

definition to_lower :: "char \<Rightarrow> char" where
  "to_lower c = (if ascii_upper c then char_of (code c + 32) else c)"

definition to_upper :: "char \<Rightarrow> char" where
  "to_upper c = (if ascii_lower c then char_of (code c - 32) else c)"

definition is_ascii :: "string \<Rightarrow> bool" where
  "is_ascii s \<longleftrightarrow> list_all (\<lambda>c. code c < 128) s"

definition eq_ignore_ascii_case :: "string \<Rightarrow> string \<Rightarrow> bool" where
  "eq_ignore_ascii_case a b \<longleftrightarrow> map to_lower a = map to_lower b"

lemmas ascii_defs = ascii_digit_def ascii_lower_def ascii_upper_def ascii_alphabetic_def
  ascii_alphanumeric_def

lemma code_less_256 [simp]: "code c < 256"
  by (cases c) (simp add: of_char_def horner_sum_simps split: bool.splits)

lemma code_inject [simp]: "(code c = code d) = (c = d)"
  using char_of_char by metis

lemma code_char_of [simp]: "n < 256 \<Longrightarrow> code (char_of n) = n"
  by (simp add: of_char_of)

lemma eq_ignore_ascii_case_refl [simp]: "eq_ignore_ascii_case a a"
  by (simp add: eq_ignore_ascii_case_def)

lemma eq_ignore_ascii_case_sym: "eq_ignore_ascii_case a b \<Longrightarrow> eq_ignore_ascii_case b a"
  by (simp add: eq_ignore_ascii_case_def)

lemma eq_ignore_ascii_case_trans:
  "\<lbrakk>eq_ignore_ascii_case a b; eq_ignore_ascii_case b c\<rbrakk> \<Longrightarrow> eq_ignore_ascii_case a c"
  by (simp add: eq_ignore_ascii_case_def)

section \<open>Strings\<close>

text \<open>\<open>str::split_once(c)\<close>: at the first occurrence.\<close>

fun split_once :: "'a \<Rightarrow> 'a list \<Rightarrow> ('a list \<times> 'a list) option" where
  "split_once c [] = None"
| "split_once c (x # xs) =
     (if x = c then Some ([], xs)
      else map_option (\<lambda>(a, b). (x # a, b)) (split_once c xs))"

lemma split_once_None: "split_once c s = None \<longleftrightarrow> c \<notin> set s"
  by (induction s) auto

lemma split_once_Some: "split_once c s = Some (a, b) \<longleftrightarrow> s = a @ c # b \<and> c \<notin> set a"
proof (induction s arbitrary: a)
  case Nil
  show ?case by simp
next
  case (Cons x xs)
  show ?case
  proof (cases "x = c")
    case True
    then show ?thesis by (cases a) auto
  next
    case False
    with Cons.IH show ?thesis by (cases a) auto
  qed
qed

lemma split_once_append [simp]: "c \<notin> set a \<Longrightarrow> split_once c (a @ c # b) = Some (a, b)"
  by (simp add: split_once_Some)

text \<open>\<open>str::split(p)\<close>: the pieces between separators, one more than separators.\<close>

fun split_on :: "('a \<Rightarrow> bool) \<Rightarrow> 'a list \<Rightarrow> 'a list list" where
  "split_on p [] = [[]]"
| "split_on p (x # xs) =
     (if p x then [] # split_on p xs
      else case split_on p xs of [] \<Rightarrow> [[x]] | y # ys \<Rightarrow> (x # y) # ys)"

lemma split_on_nonempty [simp]: "split_on p s \<noteq> []"
  by (cases s) (auto split: list.splits)

lemma split_on_length: "length (split_on p s) = Suc (length (filter p s))"
  by (induction s) (auto split: list.splits)

lemma split_on_pieces: "\<forall>x \<in> set (split_on p s). \<forall>c \<in> set x. \<not> p c"
proof (induction s)
  case Nil
  show ?case by simp
next
  case (Cons a s)
  obtain y ys where "split_on p s = y # ys"
    by (cases "split_on p s") auto
  with Cons show ?case by auto
qed

fun join :: "'a list \<Rightarrow> 'a list list \<Rightarrow> 'a list" where
  "join sep [] = []"
| "join sep [x] = x"
| "join sep (x # y # zs) = x @ sep @ join sep (y # zs)"

lemma split_on_no_sep: "(\<And>c. c \<in> set s \<Longrightarrow> \<not> p c) \<Longrightarrow> split_on p s = [s]"
  by (induction s) auto

lemma split_on_append:
  "(\<And>x. x \<in> set a \<Longrightarrow> \<not> p x) \<Longrightarrow> p c \<Longrightarrow> split_on p (a @ c # b) = a # split_on p b"
  by (induction a) auto

lemma split_on_join:
  assumes "xs \<noteq> []" and "\<And>x. x \<in> set xs \<Longrightarrow> c \<notin> set x"
  shows "split_on (\<lambda>d. d = c) (join [c] xs) = xs"
  using assms
proof (induction xs rule: induct_list012)
  case 1
  then show ?case by simp
next
  case (2 x)
  then show ?case by (auto intro!: split_on_no_sep)
next
  case (3 x y zs)
  then have "split_on (\<lambda>d. d = c) (join [c] (y # zs)) = y # zs" by auto
  moreover have "split_on (\<lambda>d. d = c) (x @ c # join [c] (y # zs))
      = x # split_on (\<lambda>d. d = c) (join [c] (y # zs))"
    using "3.prems"(2) by (intro split_on_append) auto
  ultimately show ?case by simp
qed

lemma join_Cons: "join sep (x # xs) = x @ concat (map (\<lambda>y. sep @ y) xs)"
  by (induction xs arbitrary: x) simp_all

lemma join_split_on: "join [c] (split_on (\<lambda>d. d = c) s) = s"
proof (induction s)
  case Nil
  show ?case by simp
next
  case (Cons x xs)
  then show ?case
    by (cases "split_on (\<lambda>d. d = c) xs") (auto simp: join_Cons)
qed

definition starts_with :: "'a list \<Rightarrow> 'a list \<Rightarrow> bool" where
  "starts_with p s \<longleftrightarrow> take (length p) s = p"

definition ends_with :: "'a list \<Rightarrow> 'a list \<Rightarrow> bool" where
  "ends_with p s \<longleftrightarrow> starts_with (rev p) (rev s)"

definition strip_prefix :: "'a list \<Rightarrow> 'a list \<Rightarrow> 'a list option" where
  "strip_prefix p s = (if starts_with p s then Some (drop (length p) s) else None)"

definition strip_suffix :: "'a list \<Rightarrow> 'a list \<Rightarrow> 'a list option" where
  "strip_suffix p s = map_option rev (strip_prefix (rev p) (rev s))"

fun find_map :: "('a \<Rightarrow> 'b option) \<Rightarrow> 'a list \<Rightarrow> 'b option" where
  "find_map f [] = None"
| "find_map f (x # xs) = (case f x of Some y \<Rightarrow> Some y | None \<Rightarrow> find_map f xs)"

fun contains_str :: "'a list \<Rightarrow> 'a list \<Rightarrow> bool" where
  "contains_str p [] \<longleftrightarrow> p = []"
| "contains_str p (x # xs) \<longleftrightarrow> starts_with p (x # xs) \<or> contains_str p xs"

lemma starts_with_iff: "starts_with p s \<longleftrightarrow> (\<exists>t. s = p @ t)"
  by (metis append_eq_conv_conj append_take_drop_id starts_with_def)

lemma starts_with_append [simp]: "starts_with p (p @ t)"
  by (simp add: starts_with_iff)

lemma ends_with_iff: "ends_with p s \<longleftrightarrow> (\<exists>t. s = t @ p)"
  by (metis ends_with_def rev_append rev_rev_ident starts_with_iff)

lemma strip_prefix_Some: "strip_prefix p s = Some t \<longleftrightarrow> s = p @ t"
  by (auto simp: strip_prefix_def starts_with_def) (metis append_take_drop_id)

lemma strip_suffix_Some: "strip_suffix p s = Some t \<longleftrightarrow> s = t @ p"
proof -
  have "strip_suffix p s = Some t \<longleftrightarrow> rev s = rev p @ rev t"
    by (auto simp: strip_suffix_def strip_prefix_Some)
  also have "\<dots> \<longleftrightarrow> s = t @ p" by (metis rev_append rev_rev_ident)
  finally show ?thesis .
qed

lemma contains_str_iff: "contains_str p s \<longleftrightarrow> (\<exists>a b. s = a @ p @ b)"
proof (induction s)
  case Nil
  show ?case by auto
next
  case (Cons x xs)
  show ?case (is "?l \<longleftrightarrow> ?r")
  proof
    assume ?l
    then consider "starts_with p (x # xs)" | "contains_str p xs" by auto
    then show ?r
    proof cases
      case 1
      then show ?thesis by (metis append_Nil starts_with_iff)
    next
      case 2
      with Cons.IH show ?thesis by (metis append_Cons)
    qed
  next
    assume ?r
    then obtain a b where ab: "x # xs = a @ p @ b" by blast
    show ?l
    proof (cases a)
      case Nil
      with ab have "x # xs = p @ b" by simp
      then have "starts_with p (x # xs)" by simp
      then show ?thesis by simp
    next
      case (Cons a' as)
      with ab Cons.IH show ?thesis by auto
    qed
  qed
qed

text \<open>The decimal rendering of an unsigned integer.\<close>

fun decimal :: "nat \<Rightarrow> string" where
  "decimal n = (if n < 10 then [char_of (48 + n)] else decimal (n div 10) @ [char_of (48 + n mod 10)])"

declare decimal.simps [simp del]

definition digits_value :: "string \<Rightarrow> nat" where
  "digits_value s = fold (\<lambda>c v. 10 * v + (code c - 48)) s 0"

lemma digits_value_snoc: "digits_value (s @ [c]) = 10 * digits_value s + (code c - 48)"
  by (simp add: digits_value_def)

lemma digits_value_decimal: "digits_value (decimal n) = n"
proof (induction n rule: decimal.induct)
  case (1 n)
  show ?case
  proof (cases "n < 10")
    case True
    then show ?thesis by (subst decimal.simps) (simp add: digits_value_def)
  next
    case False
    with 1 have "digits_value (decimal (n div 10)) = n div 10" by simp
    moreover have "48 + n mod 10 < 256" by (rule less_trans [of _ 58]) simp_all
    ultimately show ?thesis using False
      by (subst decimal.simps) (simp add: digits_value_snoc)
  qed
qed

lemma decimal_digits: "c \<in> set (decimal n) \<Longrightarrow> ascii_digit c"
proof (induction n rule: decimal.induct)
  case (1 n)
  have "n mod 10 < 10" by simp
  with 1 show ?case
    by (subst (asm) (2) decimal.simps) (auto simp: ascii_digit_def split: if_splits)
qed

lemma decimal_inject [simp]: "decimal m = decimal n \<longleftrightarrow> m = n"
  by (metis digits_value_decimal)

lemma decimal_Cons: "n > 0 \<Longrightarrow> \<exists>c cs. decimal n = c # cs \<and> c \<noteq> CHR ''0'' \<and> ascii_digit c"
proof (induction n rule: decimal.induct)
  case (1 n)
  show ?case
  proof (cases "n < 10")
    case True
    then have "code (char_of (48 + n) :: char) = 48 + n" by simp
    moreover have "code (CHR ''0'') = 48" by simp
    ultimately have "(char_of (48 + n) :: char) \<noteq> CHR ''0''" using "1.prems" by fastforce
    moreover have "ascii_digit (char_of (48 + n))" using True by (simp add: ascii_digit_def)
    ultimately show ?thesis using True by (subst decimal.simps) simp
  next
    case False
    then have "0 < n div 10" by (simp add: div_greater_zero_iff)
    with 1 False obtain c cs where "decimal (n div 10) = c # cs" "c \<noteq> CHR ''0''" "ascii_digit c"
      by blast
    with False show ?thesis by (subst decimal.simps) simp
  qed
qed

text \<open>\<open>str::parse::<u64>\<close>, which admits a leading plus sign.\<close>

definition parse_u64 :: "string \<Rightarrow> nat option" where
  "parse_u64 s =
     (let ds = (if starts_with ''+'' s then tl s else s) in
      if ds \<noteq> [] \<and> list_all ascii_digit ds \<and> digits_value ds \<le> 18446744073709551615
      then Some (digits_value ds) else None)"

lemma decimal_nonempty [simp]: "decimal n \<noteq> []"
  by (subst decimal.simps) simp

lemma parse_u64_decimal: "parse_u64 (decimal n) = (if n \<le> 18446744073709551615 then Some n else None)"
proof -
  have "\<not> starts_with ''+'' (decimal n)"
    using decimal_digits [of "hd (decimal n)" n]
    by (cases "decimal n") (auto simp: starts_with_def ascii_digit_def)
  moreover have "list_all ascii_digit (decimal n)" using decimal_digits by (auto simp: list_all_iff)
  ultimately show ?thesis by (simp add: parse_u64_def digits_value_decimal)
qed

section \<open>Byte streams\<close>

text \<open>
  \<open>io::Read\<close>: one result per call; an empty chunk is end of file.  Lines end at a line feed, and
  the readers drop one carriage return before it.
\<close>

datatype read_result = ReadOk string | ReadErr

definition LF :: char where "LF = CHR 0x0A"
definition CR :: char where "CR = CHR 0x0D"

definition drop_cr :: "string \<Rightarrow> string" where
  "drop_cr r = (if r \<noteq> [] \<and> last r = CR then butlast r else r)"

text \<open>
  \<open>str::lines\<close>: the pieces between line feeds.  A piece that ends in a line feed loses one carriage return
  before it, an unterminated last piece keeps it, and a last empty piece is no line.
\<close>

definition str_lines :: "string \<Rightarrow> string list" where
  "str_lines s =
     (let pieces = split_on (\<lambda>c. c = LF) s in
      map drop_cr (butlast pieces) @ (if last pieces = [] then [] else [last pieces]))"

lemma drop_cr_subset: "length (drop_cr r) \<le> length r" "set (drop_cr r) \<subseteq> set r"
  by (auto simp: drop_cr_def dest: in_set_butlastD)

section \<open>Machine arithmetic on \<open>usize\<close> and \<open>u64\<close>\<close>

abbreviation (input) u64_max :: nat where
  "u64_max \<equiv> 18446744073709551615"

definition checked_add :: "nat \<Rightarrow> nat \<Rightarrow> nat option" where
  "checked_add a b = (if a + b \<le> u64_max then Some (a + b) else None)"

definition checked_sub :: "nat \<Rightarrow> nat \<Rightarrow> nat option" where
  "checked_sub a b = (if b \<le> a then Some (a - b) else None)"

definition checked_mul :: "nat \<Rightarrow> nat \<Rightarrow> nat option" where
  "checked_mul a b = (if a * b \<le> u64_max then Some (a * b) else None)"

definition saturating_mul :: "nat \<Rightarrow> nat \<Rightarrow> nat" where
  "saturating_mul a b = min (a * b) u64_max"

definition saturating_add :: "nat \<Rightarrow> nat \<Rightarrow> nat" where
  "saturating_add a b = min (a + b) u64_max"

lemma checked_add_Some [simp]: "checked_add a b = Some c \<longleftrightarrow> c = a + b \<and> a + b \<le> u64_max"
  by (auto simp: checked_add_def)

lemma saturating_add_le: "a + b \<le> u64_max \<Longrightarrow> saturating_add a b = a + b"
  by (simp add: saturating_add_def)

end
