(* ===== verification/Utf8.thy ===== *)
theory Utf8
  imports Prelude
begin

text \<open>
  The two views of a Rust string: its bytes (a \<open>string\<close>) and its Unicode scalar values (a list of
  \<open>nat\<close>).  \<open>utf8_decode\<close> is \<open>std::str::from_utf8\<close> followed by \<open>chars()\<close>, \<open>utf8_encode\<close> collects
  scalars into a \<open>String\<close>, and \<open>utf16_encode\<close> is \<open>encode_utf16()\<close>.  The encoding and the decoding
  are an instance of the interface of codecs below.
\<close>

section \<open>The interface of codecs\<close>

locale codec =
  fixes enc :: "'a \<Rightarrow> 'b" and dec :: "'b \<Rightarrow> 'a option" and ok :: "'a \<Rightarrow> bool"
  assumes dec_enc: "ok a \<Longrightarrow> dec (enc a) = Some a"
begin

lemma enc_inject: "\<lbrakk>ok a; ok b\<rbrakk> \<Longrightarrow> enc a = enc b \<longleftrightarrow> a = b"
  by (metis dec_enc option.inject)

lemma dec_range: "ok a \<Longrightarrow> \<exists>b. dec b = Some a"
  using dec_enc by blast

end

text \<open>A canonical codec accepts nothing but what it writes.\<close>

locale canonical_codec = codec enc dec ok
  for enc :: "'a \<Rightarrow> 'b" and dec :: "'b \<Rightarrow> 'a option" and ok :: "'a \<Rightarrow> bool" +
  assumes enc_dec: "dec b = Some a \<Longrightarrow> ok a \<and> enc a = b"
begin

lemma dec_iff: "dec b = Some a \<longleftrightarrow> ok a \<and> enc a = b"
  using dec_enc enc_dec by blast

lemma dec_inject: "\<lbrakk>dec b = Some a; dec c = Some a\<rbrakk> \<Longrightarrow> b = c"
  using enc_dec by blast

end

text \<open>
  The interface of a character-by-character rendering: no rendering of one character is the
  beginning of another one's.  Then the rendering of a whole text determines the text.
\<close>

locale prefix_code =
  fixes f :: "'a \<Rightarrow> 'b list" and ok :: "'a \<Rightarrow> bool"
  assumes prefix_free: "\<lbrakk>ok a; ok b; f a @ x = f b @ y\<rbrakk> \<Longrightarrow> a = b"
    and code_nonempty: "ok a \<Longrightarrow> f a \<noteq> []"
begin

lemma concat_inject:
  "\<lbrakk>list_all ok as; list_all ok bs; concat (map f as) = concat (map f bs)\<rbrakk> \<Longrightarrow> as = bs"
proof (induction as arbitrary: bs)
  case Nil
  then show ?case by (cases bs) (auto simp: code_nonempty)
next
  case (Cons a as)
  then obtain b bs' where bs: "bs = b # bs'"
    by (cases bs) (auto simp: code_nonempty)
  with Cons.prems have "a = b"
    by (auto intro: prefix_free)
  with Cons bs show ?case by simp
qed

end

section \<open>Scalar values\<close>

definition scalar :: "nat \<Rightarrow> bool" where
  "scalar n \<longleftrightarrow> n < 0xD800 \<or> 0xE000 \<le> n \<and> n \<le> 0x10FFFF"

lemma scalar_le: "scalar n \<Longrightarrow> n \<le> 0x10FFFF"
  by (auto simp: scalar_def)

lemma scalar_code [simp]: "scalar (code c)"
  unfolding scalar_def by (rule disjI1, rule less_trans [OF code_less_256]) simp

section \<open>UTF-8\<close>

definition utf8_char :: "nat \<Rightarrow> string" where
  "utf8_char n =
     (if n < 0x80 then [char_of n]
      else if n < 0x800 then [char_of (0xC0 + n div 64), char_of (0x80 + n mod 64)]
      else if n < 0x10000 then
        [char_of (0xE0 + n div 4096), char_of (0x80 + n div 64 mod 64), char_of (0x80 + n mod 64)]
      else [char_of (0xF0 + n div 262144), char_of (0x80 + n div 4096 mod 64),
            char_of (0x80 + n div 64 mod 64), char_of (0x80 + n mod 64)])"

definition utf8_encode :: "nat list \<Rightarrow> string" where
  "utf8_encode ns = concat (map utf8_char ns)"

definition utf8_cont :: "char \<Rightarrow> bool" where
  "utf8_cont c \<longleftrightarrow> 0x80 \<le> code c \<and> code c < 0xC0"

definition utf8_low :: "char \<Rightarrow> nat" where
  "utf8_low c = code c - 0x80"

text \<open>One scalar and what follows it; \<open>None\<close> where \<open>from_utf8\<close> fails.\<close>

fun utf8_next :: "string \<Rightarrow> (nat \<times> string) option" where
  "utf8_next [] = None"
| "utf8_next (a # s) =
    (let x = code a in
     if x < 0x80 then Some (x, s)
     else if x < 0xC2 then None
     else if x < 0xE0 then
       (case s of
          b # s' \<Rightarrow> if utf8_cont b then Some ((x - 0xC0) * 64 + utf8_low b, s') else None
        | _ \<Rightarrow> None)
     else if x < 0xF0 then
       (case s of
          b # c # s' \<Rightarrow>
            (let n = (x - 0xE0) * 4096 + utf8_low b * 64 + utf8_low c in
             if utf8_cont b \<and> utf8_cont c \<and> 0x800 \<le> n \<and> \<not> (0xD800 \<le> n \<and> n < 0xE000)
             then Some (n, s') else None)
        | _ \<Rightarrow> None)
     else if x < 0xF5 then
       (case s of
          b # c # d # s' \<Rightarrow>
            (let n = (x - 0xF0) * 262144 + utf8_low b * 4096 + utf8_low c * 64 + utf8_low d in
             if utf8_cont b \<and> utf8_cont c \<and> utf8_cont d \<and> 0x10000 \<le> n \<and> n \<le> 0x10FFFF
             then Some (n, s') else None)
        | _ \<Rightarrow> None)
     else None)"

lemma utf8_next_shorter: "utf8_next s = Some (n, s') \<Longrightarrow> length s' < length s"
  by (cases s) (auto simp: Let_def split: if_splits list.splits)

function utf8_decode :: "string \<Rightarrow> nat list option" where
  "utf8_decode [] = Some []"
| "utf8_decode (a # s) =
     (case utf8_next (a # s) of
        None \<Rightarrow> None
      | Some (n, s') \<Rightarrow> map_option (Cons n) (utf8_decode s'))"
  by pat_completeness auto
termination
  by (relation "measure length") (use utf8_next_shorter in fastforce)+

definition valid_utf8 :: "string \<Rightarrow> bool" where
  "valid_utf8 s \<longleftrightarrow> utf8_decode s \<noteq> None"

text \<open>\<open>str::chars\<close>: a Rust \<open>str\<close> is always valid UTF-8, so the default is never read there.\<close>

definition chars :: "string \<Rightarrow> nat list" where
  "chars s = (case utf8_decode s of Some ns \<Rightarrow> ns | None \<Rightarrow> [])"

lemma div64_bound: "n < 0x800 \<Longrightarrow> n div 64 < (32::nat)"
  "n < 0x10000 \<Longrightarrow> n div 4096 < (16::nat)"
  "n \<le> 0x10FFFF \<Longrightarrow> n div 262144 < (5::nat)"
  by (simp_all add: less_mult_imp_div_less)

lemma split2: "n div 64 * 64 + n mod 64 = (n::nat)"
  by simp

lemma split3: "n div 4096 * 4096 + n div 64 mod 64 * 64 + n mod 64 = (n::nat)"
proof -
  have "n div 4096 = n div 64 div 64" by (simp add: div_mult2_eq [symmetric])
  then show ?thesis
    using div_mult_mod_eq [of n 64] div_mult_mod_eq [of "n div 64" 64] by linarith
qed

lemma split4: "n div 262144 * 262144 + n div 4096 mod 64 * 4096 + n div 64 mod 64 * 64 + n mod 64
    = (n::nat)"
proof -
  have "n div 262144 = n div 4096 div 64" by (simp add: div_mult2_eq [symmetric])
  then show ?thesis
    using split3 [of n] div_mult_mod_eq [of "n div 4096" 64] by linarith
qed

lemma digit64: "l < 64 \<Longrightarrow> (q * 64 + l) div 64 = (q::nat)" "l < 64 \<Longrightarrow> (q * 64 + l) mod 64 = (l::nat)"
  by simp_all

lemma digits3:
  assumes "n = a * 4096 + b * 64 + (c::nat)" "b < 64" "c < 64"
  shows "n mod 64 = c" "n div 64 mod 64 = b" "n div 4096 = a"
proof -
  have n: "n = (a * 64 + b) * 64 + c" using assms(1) by simp
  show "n mod 64 = c" unfolding n using assms(3) by (rule digit64)
  have q: "n div 64 = a * 64 + b" unfolding n using assms(3) by (rule digit64)
  then show "n div 64 mod 64 = b" using assms(2) by simp
  have "n div 4096 = n div 64 div 64" by (simp add: div_mult2_eq [symmetric])
  then show "n div 4096 = a" unfolding q using assms(2) by simp
qed

lemma digits4:
  assumes "n = a * 262144 + b * 4096 + c * 64 + (d::nat)" "b < 64" "c < 64" "d < 64"
  shows "n mod 64 = d" "n div 64 mod 64 = c" "n div 4096 mod 64 = b" "n div 262144 = a"
proof -
  have n: "n = (a * 64 + b) * 4096 + c * 64 + d" using assms(1) by simp
  note d = digits3 [OF n assms(3,4)]
  show "n mod 64 = d" "n div 64 mod 64 = c" using d by simp_all
  show "n div 4096 mod 64 = b" using d(3) assms(2) by simp
  have "n div 262144 = n div 4096 div 64" by (simp add: div_mult2_eq [symmetric])
  then show "n div 262144 = a" using d(3) assms(2) by simp
qed

lemma utf8_next_char:
  assumes "scalar n"
  shows "utf8_next (utf8_char n @ s) = Some (n, s)"
proof -
  have n: "n \<le> 0x10FFFF" using assms by (rule scalar_le)
  consider "n < 0x80" | "0x80 \<le> n" "n < 0x800" | "0x800 \<le> n" "n < 0x10000" | "0x10000 \<le> n"
    by linarith
  then show ?thesis
  proof cases
    case 1
    then show ?thesis by (simp add: utf8_char_def)
  next
    case 2
    then have "2 \<le> n div 64" "n div 64 < 32" by (simp_all add: div64_bound less_eq_div_iff_mult_less_eq)
    with 2 show ?thesis
      by (simp add: utf8_char_def utf8_cont_def utf8_low_def Let_def)
  next
    case 3
    then have b: "n div 4096 < 16" by (simp add: div64_bound)
    have "n div 64 mod 64 < 64" "n mod 64 < 64" by simp_all
    moreover from assms have "\<not> (0xD800 \<le> n \<and> n < 0xE000)" by (auto simp: scalar_def)
    ultimately show ?thesis
      using 3 b split3 [of n] by (simp add: utf8_char_def utf8_cont_def utf8_low_def Let_def)
  next
    case 4
    with n have b: "n div 262144 < 5" by (simp add: div64_bound)
    have "n div 4096 mod 64 < 64" "n div 64 mod 64 < 64" "n mod 64 < 64" by simp_all
    with 4 b n split4 [of n] show ?thesis
      by (simp add: utf8_char_def utf8_cont_def utf8_low_def Let_def)
  qed
qed

lemma utf8_char_nonempty [simp]: "utf8_char n \<noteq> []"
  by (simp add: utf8_char_def)

lemma utf8_decode_step:
  "s \<noteq> [] \<Longrightarrow> utf8_decode s = (case utf8_next s of
        None \<Rightarrow> None | Some (n, s') \<Rightarrow> map_option (Cons n) (utf8_decode s'))"
  by (cases s) simp_all

lemma utf8_decode_encode: "list_all scalar ns \<Longrightarrow> utf8_decode (utf8_encode ns) = Some ns"
proof (induction ns)
  case Nil
  show ?case by (simp add: utf8_encode_def)
next
  case (Cons n ns)
  then show ?case
    by (simp add: utf8_encode_def utf8_decode_step [of "utf8_char n @ _"] utf8_next_char)
qed

lemma code_eq_char_of: "code c = n \<Longrightarrow> c = char_of n"
  by auto

lemma utf8_next_sound:
  assumes "utf8_next s = Some (n, s')"
  shows "scalar n \<and> s = utf8_char n @ s'"
proof -
  obtain a t where s: "s = a # t" using assms by (cases s) auto
  let ?x = "code a"
  have a: "a = char_of ?x" by simp
  consider "?x < 0x80" | "0xC2 \<le> ?x" "?x < 0xE0" | "0xE0 \<le> ?x" "?x < 0xF0" | "0xF0 \<le> ?x" "?x < 0xF5"
    using assms s by (auto simp: Let_def split: if_splits)
  then show ?thesis
  proof cases
    case 1
    with assms s show ?thesis by (auto simp: utf8_char_def scalar_def)
  next
    case 2
    then obtain b where b: "t = b # s'" "utf8_cont b" "n = (?x - 0xC0) * 64 + utf8_low b"
      using assms s by (auto simp: Let_def split: if_splits list.splits)
    from b have "code b = 0x80 + utf8_low b" "utf8_low b < 64"
      by (auto simp: utf8_cont_def utf8_low_def)
    moreover from this b 2 have "n div 64 = ?x - 0xC0" "n mod 64 = utf8_low b" by auto
    moreover from b 2 \<open>utf8_low b < 64\<close> have "0x80 \<le> n" "n < 0x800" by linarith+
    ultimately show ?thesis using b 2 s a
      by (auto simp: utf8_char_def scalar_def intro: code_eq_char_of)
  next
    case 3
    then obtain b c where b: "t = b # c # s'" "utf8_cont b" "utf8_cont c"
        "n = (?x - 0xE0) * 4096 + utf8_low b * 64 + utf8_low c"
        "0x800 \<le> n" "\<not> (0xD800 \<le> n \<and> n < 0xE000)"
      using assms s by (auto simp: Let_def split: if_splits list.splits)
    have l: "code b = 0x80 + utf8_low b" "utf8_low b < 64" "code c = 0x80 + utf8_low c" "utf8_low c < 64"
      using b(2,3) by (auto simp: utf8_cont_def utf8_low_def)
    have "n < 0x10000" using l b(4) 3 by linarith
    moreover note digits3 [OF b(4) l(2,4)]
    ultimately show ?thesis using b l 3 s a
      by (auto simp: utf8_char_def scalar_def intro: code_eq_char_of)
  next
    case 4
    then obtain b c d where b: "t = b # c # d # s'" "utf8_cont b" "utf8_cont c" "utf8_cont d"
        "n = (?x - 0xF0) * 262144 + utf8_low b * 4096 + utf8_low c * 64 + utf8_low d"
        "0x10000 \<le> n" "n \<le> 0x10FFFF"
      using assms s by (auto simp: Let_def split: if_splits list.splits)
    have l: "code b = 0x80 + utf8_low b" "utf8_low b < 64" "code c = 0x80 + utf8_low c" "utf8_low c < 64"
       "code d = 0x80 + utf8_low d" "utf8_low d < 64"
      using b(2,3,4) by (auto simp: utf8_cont_def utf8_low_def)
    note digits4 [OF b(5) l(2,4,6)]
    then show ?thesis using b l 4 s a
      by (auto simp: utf8_char_def scalar_def intro: code_eq_char_of)
  qed
qed

lemma utf8_decode_sound: "utf8_decode s = Some ns \<Longrightarrow> list_all scalar ns \<and> utf8_encode ns = s"
proof (induction s arbitrary: ns rule: utf8_decode.induct)
  case 1
  then show ?case by (simp add: utf8_encode_def)
next
  case (2 a s)
  then obtain n s' ms where n: "utf8_next (a # s) = Some (n, s')" and "utf8_decode s' = Some ms"
      "ns = n # ms"
    by (auto split: option.splits)
  with "2.IH" have "list_all scalar ms" "utf8_encode ms = s'" by blast+
  with utf8_next_sound [OF n] \<open>ns = n # ms\<close> show ?case
    by (simp add: utf8_encode_def)
qed

interpretation utf8: canonical_codec utf8_encode utf8_decode "list_all scalar"
  by unfold_locales (auto simp: utf8_decode_encode utf8_decode_sound)

interpretation utf8_code: prefix_code utf8_char scalar
proof
  fix a b x y
  assume "scalar a" "scalar b" "utf8_char a @ x = utf8_char b @ y"
  then show "a = b"
    by (metis utf8_next_char option.inject prod.inject)
qed (rule utf8_char_nonempty)

lemma chars_encode [simp]: "list_all scalar ns \<Longrightarrow> chars (utf8_encode ns) = ns"
  by (simp add: chars_def utf8.dec_enc)

lemma valid_utf8_encode [simp]: "list_all scalar ns \<Longrightarrow> valid_utf8 (utf8_encode ns)"
  by (simp add: valid_utf8_def utf8.dec_enc)

lemma chars_scalar [simp]: "list_all scalar (chars s)"
  by (auto simp: chars_def split: option.splits dest: utf8.enc_dec)

lemma encode_chars [simp]: "valid_utf8 s \<Longrightarrow> utf8_encode (chars s) = s"
  by (auto simp: valid_utf8_def chars_def dest: utf8.enc_dec)

lemma chars_inject: "\<lbrakk>valid_utf8 s; valid_utf8 t\<rbrakk> \<Longrightarrow> chars s = chars t \<longleftrightarrow> s = t"
  by (metis encode_chars)

lemma utf8_encode_append [simp]: "utf8_encode (a @ b) = utf8_encode a @ utf8_encode b"
  by (simp add: utf8_encode_def)

lemma valid_utf8_append:
  assumes "valid_utf8 s" "valid_utf8 t"
  shows "valid_utf8 (s @ t)" "chars (s @ t) = chars s @ chars t"
proof -
  have e: "s @ t = utf8_encode (chars s @ chars t)" using assms by simp
  have "list_all scalar (chars s @ chars t)" by simp
  then show "valid_utf8 (s @ t)" "chars (s @ t) = chars s @ chars t"
    by (simp_all only: e valid_utf8_encode chars_encode)
qed

lemma utf8_ascii:
  assumes "is_ascii s"
  shows "utf8_decode s = Some (map of_char s)"
  using assms by (induction s) (simp_all add: is_ascii_def)

lemma valid_utf8_ascii: "is_ascii s \<Longrightarrow> valid_utf8 s"
  by (simp add: valid_utf8_def utf8_ascii)

lemma chars_ascii: "is_ascii s \<Longrightarrow> chars s = map of_char s"
  by (simp add: chars_def utf8_ascii)

section \<open>White space\<close>

text \<open>\<open>char::is_whitespace\<close>: the characters with the Unicode property \<open>White_Space\<close>.\<close>

definition is_whitespace :: "nat \<Rightarrow> bool" where
  "is_whitespace n \<longleftrightarrow>
     9 \<le> n \<and> n \<le> 13 \<or> n = 32 \<or> n = 0x85 \<or> n = 0xA0 \<or> n = 0x1680 \<or> 0x2000 \<le> n \<and> n \<le> 0x200A
     \<or> n = 0x2028 \<or> n = 0x2029 \<or> n = 0x202F \<or> n = 0x205F \<or> n = 0x3000"

text \<open>\<open>str::trim_start\<close> and \<open>str::trim\<close>.\<close>

definition trim_start :: "string \<Rightarrow> string" where
  "trim_start s = utf8_encode (dropWhile is_whitespace (chars s))"

definition trim :: "string \<Rightarrow> string" where
  "trim s = utf8_encode (rev (dropWhile is_whitespace (rev (dropWhile is_whitespace (chars s)))))"

definition all_whitespace :: "string \<Rightarrow> bool" where
  "all_whitespace s \<longleftrightarrow> list_all is_whitespace (chars s)"

lemma dropWhile_Nil_iff: "dropWhile p xs = [] \<longleftrightarrow> list_all p xs"
  by (simp add: list_all_iff)

lemma utf8_encode_Nil_iff [simp]: "utf8_encode ns = [] \<longleftrightarrow> ns = []"
  by (cases ns) (simp_all add: utf8_encode_def)

lemma trim_Nil_iff: "trim s = [] \<longleftrightarrow> all_whitespace s"
proof -
  have "dropWhile p (rev (dropWhile p xs)) = [] \<longleftrightarrow> list_all p xs" for p :: "nat \<Rightarrow> bool" and xs
  proof (cases "dropWhile p xs")
    case Nil
    then have "list_all p xs" by (simp only: dropWhile_Nil_iff)
    then show ?thesis unfolding Nil by simp
  next
    case (Cons y ys)
    then have "\<not> p y" by (simp add: dropWhile_eq_Cons_conv)
    moreover have "\<not> list_all p xs" using Cons by (simp flip: dropWhile_Nil_iff)
    ultimately show ?thesis unfolding Cons by (simp add: list_all_iff)
  qed
  then show ?thesis unfolding trim_def all_whitespace_def utf8_encode_Nil_iff rev_is_Nil_conv by blast
qed

section \<open>UTF-16\<close>

type_synonym u16 = "16 word"

definition utf16_char :: "nat \<Rightarrow> u16 list" where
  "utf16_char n =
     (if n < 0x10000 then [word_of_nat n]
      else [word_of_nat (0xD800 + (n - 0x10000) div 1024), word_of_nat (0xDC00 + (n - 0x10000) mod 1024)])"

definition utf16_encode :: "nat list \<Rightarrow> u16 list" where
  "utf16_encode ns = concat (map utf16_char ns)"

lemma utf16_encode_append [simp]: "utf16_encode (a @ b) = utf16_encode a @ utf16_encode b"
  by (simp add: utf16_encode_def)

lemma utf16_encode_Cons: "utf16_encode (a # b) = utf16_char a @ utf16_encode b"
  by (simp add: utf16_encode_def)

end
