(* ===== verification/Text_Safety.thy ===== *)
theory Text_Safety
  imports Utf8
begin

text \<open>
  The text helpers of \<open>error.rs\<close> that decide what may reach a terminal or a shell: the JSON-style
  quoting of user values, the visible rendering of control characters and the single-quoting of
  the runner's own path.  They work on the scalar values of a string (\<open>value.chars()\<close>); \<open>ustr\<close>
  is such a list.
\<close>

type_synonym ustr = "nat list"

text \<open>A literal of the source, and a literal with printable ASCII characters only.\<close>

definition asc :: "string \<Rightarrow> ustr" where
  "asc s = map of_char s"

definition printable :: "char \<Rightarrow> bool" where
  "printable c \<longleftrightarrow> 32 \<le> code c \<and> code c \<le> 126"

text \<open>A backslash and one more character.\<close>

definition escaped :: "nat \<Rightarrow> ustr" where
  "escaped c = [92, c]"

section \<open>Hexadecimal\<close>

definition hex_lower :: "nat \<Rightarrow> nat" where
  "hex_lower d = (if d < 10 then 48 + d else 87 + d)"

definition hex_upper :: "nat \<Rightarrow> nat" where
  "hex_upper d = (if d < 10 then 48 + d else 55 + d)"

text \<open>\<open>{unit:04x}\<close> of a 16-bit unit, and \<open>{:04X}\<close> of a scalar (four digits, or five or six).\<close>

definition hex4_lower :: "nat \<Rightarrow> ustr" where
  "hex4_lower n = map hex_lower [n div 4096 mod 16, n div 256 mod 16, n div 16 mod 16, n mod 16]"

definition hex_min4_upper :: "nat \<Rightarrow> ustr" where
  "hex_min4_upper n = map hex_upper
     ((if 0x100000 \<le> n then [n div 0x100000 mod 16] else [])
      @ (if 0x10000 \<le> n then [n div 0x10000 mod 16] else [])
      @ [n div 4096 mod 16, n div 256 mod 16, n div 16 mod 16, n mod 16])"

section \<open>Character classes\<close>

text \<open>\<open>char::is_control\<close>: the general category Cc.\<close>

definition is_control :: "nat \<Rightarrow> bool" where
  "is_control c \<longleftrightarrow> c < 0x20 \<or> 0x7f \<le> c \<and> c \<le> 0x9f"

definition line_control :: "nat \<Rightarrow> bool" where
  "line_control c \<longleftrightarrow> is_control c \<or> c = 0x2028 \<or> c = 0x2029"

definition has_terminal_line_control :: "ustr \<Rightarrow> bool" where
  "has_terminal_line_control value = list_ex line_control value"

definition quote_escapes :: "nat \<Rightarrow> bool" where
  "quote_escapes c \<longleftrightarrow>
     c \<le> 0x1f \<or> 0x7f \<le> c \<and> c \<le> 0x9f \<or> c = 0xad \<or> c = 0x61c \<or> c = 0x180e
     \<or> 0x200b \<le> c \<and> c \<le> 0x200f \<or> 0x2028 \<le> c \<and> c \<le> 0x202e \<or> 0x2060 \<le> c \<and> c \<le> 0x206f
     \<or> c = 0xfeff \<or> 0xfff9 \<le> c \<and> c \<le> 0xfffb \<or> 0xe0000 \<le> c \<and> c \<le> 0xe007f"

section \<open>Quoting\<close>

definition quote_char :: "nat \<Rightarrow> ustr" where
  "quote_char c =
     (if c = 34 then escaped 34
      else if c = 92 then escaped 92
      else if c = 8 then escaped 98
      else if c = 12 then escaped 102
      else if c = 10 then escaped 110
      else if c = 13 then escaped 114
      else if c = 9 then escaped 116
      else if quote_escapes c then
        concat (map (\<lambda>u. escaped 117 @ hex4_lower (unat u)) (utf16_char c))
      else [c])"

definition quote :: "ustr \<Rightarrow> ustr" where
  "quote value = 34 # concat (map quote_char value) @ [34]"

section \<open>Visible control characters\<close>

definition human_safe_char :: "bool \<Rightarrow> nat \<Rightarrow> ustr" where
  "human_safe_char preserve_line_feeds c =
     (if c = 92 then escaped 92
      else if c = 8 then escaped 98
      else if c = 9 then escaped 116
      else if c = 10 \<and> preserve_line_feeds then [10]
      else if c = 10 then escaped 110
      else if c = 12 then escaped 102
      else if c = 13 then escaped 114
      else if is_control c \<or> c = 0x2028 \<or> c = 0x2029 then
        escaped 117 @ asc ''{'' @ hex_min4_upper c @ asc ''}''
      else [c])"

definition human_safe :: "ustr \<Rightarrow> bool \<Rightarrow> ustr" where
  "human_safe value preserve_line_feeds = concat (map (human_safe_char preserve_line_feeds) value)"

definition human_safe_scalar :: "ustr \<Rightarrow> ustr" where
  "human_safe_scalar value = human_safe value False"

definition human_safe_multiline :: "ustr \<Rightarrow> ustr" where
  "human_safe_multiline value = human_safe value True"

definition human_safe_detail :: "ustr \<Rightarrow> ustr" where
  "human_safe_detail value =
     concat (map (\<lambda>c. if c = 92 then [c] else human_safe [c] False) value)"

section \<open>Shell words\<close>

definition shell_single_quote :: "ustr \<Rightarrow> ustr" where
  "shell_single_quote value =
     39 # concat (map (\<lambda>c. if c = 39 then [39, 92, 39, 39] else [c]) value) @ [39]"

section \<open>Nothing rendered for a human line carries a control character\<close>

lemma hex_upper_bounds: "d < 16 \<Longrightarrow> 48 \<le> hex_upper d \<and> hex_upper d \<le> 70"
  by (simp add: hex_upper_def)

lemma hex_lower_bounds: "d < 16 \<Longrightarrow> 48 \<le> hex_lower d \<and> hex_lower d \<le> 102"
  by (simp add: hex_lower_def)

lemma hex_min4_upper_safe: "d \<in> set (hex_min4_upper n) \<Longrightarrow> 48 \<le> d \<and> d \<le> 70"
  by (auto simp: hex_min4_upper_def hex_upper_bounds split: if_splits)

lemma hex4_lower_safe: "d \<in> set (hex4_lower n) \<Longrightarrow> 48 \<le> d \<and> d \<le> 102"
  by (auto simp: hex4_lower_def hex_lower_bounds)

lemma code_printable_no_control: "printable c \<Longrightarrow> \<not> line_control (code c)"
  by (auto simp: printable_def line_control_def is_control_def)

lemma printable_no_control: "32 \<le> d \<Longrightarrow> d \<le> 126 \<Longrightarrow> \<not> line_control d"
  by (simp add: line_control_def is_control_def)

lemma human_safe_char_safe:
  assumes "d \<in> set (human_safe_char pf c)"
  shows "\<not> line_control d \<or> pf \<and> d = 10"
proof (cases "line_control c \<or> c = 92")
  case False
  then have "human_safe_char pf c = [c]"
    by (auto simp: human_safe_char_def line_control_def is_control_def)
  with assms False show ?thesis by simp
next
  case True
  have "d = 10 \<and> pf \<or> 32 \<le> d \<and> d \<le> 126"
  proof (cases "c \<in> {8, 9, 10, 12, 13, 92}")
    case True
    then show ?thesis using assms
      by (cases pf) (auto simp: human_safe_char_def escaped_def asc_def)
  next
    case c: False
    then have "human_safe_char pf c = [92, 117, 123] @ hex_min4_upper c @ [125]"
      using True by (auto simp: human_safe_char_def escaped_def asc_def line_control_def)
    with assms show ?thesis by (auto dest: hex_min4_upper_safe)
  qed
  then show ?thesis by (auto simp: printable_no_control)
qed

lemma human_safe_controls:
  "d \<in> set (human_safe v pf) \<Longrightarrow> \<not> line_control d \<or> pf \<and> d = 10"
  by (auto simp: human_safe_def dest: human_safe_char_safe)

lemma human_safe_scalar_safe: "\<not> has_terminal_line_control (human_safe_scalar v)"
  by (auto simp: has_terminal_line_control_def human_safe_scalar_def list_ex_iff
      dest: human_safe_controls)

lemma human_safe_detail_safe: "\<not> has_terminal_line_control (human_safe_detail v)"
  by (auto simp: has_terminal_line_control_def human_safe_detail_def list_ex_iff line_control_def
      is_control_def dest: human_safe_controls split: if_splits)

section \<open>The visible notation is unambiguous\<close>

lemma hex_upper_inject: "\<lbrakk>d < 16; e < 16; hex_upper d = hex_upper e\<rbrakk> \<Longrightarrow> d = e"
  by (simp add: hex_upper_def split: if_splits)

lemma hex4_digits:
  fixes m n :: nat
  assumes "m < 65536" "n < 65536"
    "m div 4096 mod 16 = n div 4096 mod 16" "m div 256 mod 16 = n div 256 mod 16"
    "m div 16 mod 16 = n div 16 mod 16" "m mod 16 = n mod 16"
  shows "m = n"
proof -
  have s: "k = k div 4096 mod 16 * 4096 + k div 256 mod 16 * 256 + k div 16 mod 16 * 16 + k mod 16"
    if "k < 65536" for k :: nat
  proof -
    have "k div 4096 < 16" using that by (simp add: less_mult_imp_div_less)
    moreover have d: "k div 256 = k div 16 div 16" "k div 4096 = k div 16 div 16 div 16"
      by (simp_all add: div_mult2_eq [symmetric])
    ultimately have "k div 16 div 16 div 16 mod 16 = k div 16 div 16 div 16" by simp
    then show ?thesis
      using div_mult_mod_eq [of k 16] div_mult_mod_eq [of "k div 16" 16]
        div_mult_mod_eq [of "k div 16 div 16" 16] unfolding d by linarith
  qed
  show ?thesis using s [OF assms(1)] s [OF assms(2)] assms(3-6) by simp
qed

lemma human_safe_char_control:
  assumes "is_control c \<or> c = 0x2028 \<or> c = 0x2029" "c \<notin> {8, 9, 10, 12, 13}"
  shows "human_safe_char pf c =
    [92, 117, 123] @ map hex_upper [c div 4096 mod 16, c div 256 mod 16, c div 16 mod 16, c mod 16] @ [125]"
proof -
  have "c \<noteq> 92" "c < 0x10000" using assms(1) by (auto simp: is_control_def)
  with assms show ?thesis
    by (auto simp: human_safe_char_def escaped_def asc_def hex_min4_upper_def)
qed

definition escape_letter :: "nat \<Rightarrow> nat" where
  "escape_letter c = (if c = 8 then 98 else if c = 9 then 116 else if c = 10 then 110
     else if c = 12 then 102 else if c = 13 then 114 else 92)"

lemma escape_letter_inject:
  "\<lbrakk>a \<in> {8, 9, 10, 12, 13, 92}; b \<in> {8, 9, 10, 12, 13, 92}; escape_letter a = escape_letter b\<rbrakk> \<Longrightarrow> a = b"
  by (auto simp: escape_letter_def)

lemma escape_letter_not_u: "escape_letter c \<noteq> 117"
  by (simp add: escape_letter_def)

lemma human_safe_char_cases:
  fixes c :: nat
  obtains (esc) "c \<in> {8, 9, 10, 12, 13, 92}" "human_safe_char pf c = [92, escape_letter c]"
  | (control) "is_control c \<or> c = 0x2028 \<or> c = 0x2029" "c \<notin> {8, 9, 10, 12, 13}"
  | (plain) "human_safe_char pf c = [c]" "c \<noteq> 92"
proof (cases "c \<in> {8, 9, 10, 12, 13, 92}")
  case True
  then consider "human_safe_char pf c = [c]" "c = 10" | "human_safe_char pf c = [92, escape_letter c]"
    by (cases pf) (auto simp: human_safe_char_def escaped_def asc_def escape_letter_def)
  then show ?thesis
    by cases (use True in \<open>auto intro: esc plain\<close>)
next
  case False
  show ?thesis
  proof (cases "is_control c \<or> c = 0x2028 \<or> c = 0x2029")
    case True
    then show ?thesis by (rule control) (use False in simp)
  next
    case c: False
    show ?thesis by (rule plain) (use False c in \<open>simp_all add: human_safe_char_def\<close>)
  qed
qed

lemma human_safe_char_prefix_free:
  assumes eq: "human_safe_char pf a @ x = human_safe_char pf b @ y"
  shows "a = b"
proof (cases pf a rule: human_safe_char_cases)
  case esc
  note a = this
  show ?thesis
  proof (cases pf b rule: human_safe_char_cases)
    case esc
    with a(2) eq have "escape_letter a = escape_letter b" by simp
    then show ?thesis by (rule escape_letter_inject [OF a(1) esc(1)])
  next
    case control
    show ?thesis using eq escape_letter_not_u [of a]
      unfolding a(2) human_safe_char_control [OF control] by simp
  next
    case plain
    show ?thesis using eq plain(2) unfolding a(2) plain(1) by simp
  qed
next
  case control
  note a = this
  show ?thesis
  proof (cases pf b rule: human_safe_char_cases)
    case esc
    show ?thesis using eq escape_letter_not_u [of b]
      unfolding esc(2) human_safe_char_control [OF a] by simp
  next
    case control
    have lt: "a < 65536" "b < 65536" using control(1) a(1) by (auto simp: is_control_def)
    from eq have h: "map hex_upper [a div 4096 mod 16, a div 256 mod 16, a div 16 mod 16, a mod 16]
        = map hex_upper [b div 4096 mod 16, b div 256 mod 16, b div 16 mod 16, b mod 16]"
      unfolding human_safe_char_control [OF a] human_safe_char_control [OF control] by simp
    show ?thesis
      by (rule hex4_digits [OF lt]; rule hex_upper_inject) (use h in simp_all)
  next
    case plain
    show ?thesis using eq plain(2) unfolding plain(1) human_safe_char_control [OF a] by simp
  qed
next
  case plain
  note a = this
  show ?thesis
  proof (cases pf b rule: human_safe_char_cases)
    case esc
    show ?thesis using eq a(2) unfolding a(1) esc(2) by simp
  next
    case control
    show ?thesis using eq a(2) unfolding a(1) human_safe_char_control [OF control] by simp
  next
    case plain
    show ?thesis using eq unfolding a(1) plain(1) by simp
  qed
qed

lemma human_safe_char_nonempty: "human_safe_char pf c \<noteq> []"
  by (simp add: human_safe_char_def escaped_def asc_def)

interpretation visible: prefix_code "human_safe_char pf" "\<lambda>c. True"
  by unfold_locales (auto intro: human_safe_char_prefix_free simp: human_safe_char_nonempty)

lemma human_safe_inject: "human_safe v pf = human_safe w pf \<longleftrightarrow> v = w"
  unfolding human_safe_def by (auto intro: visible.concat_inject simp: list_all_iff)

section \<open>Quoted values read back\<close>

text \<open>
  The reader of RFC 8259 string literals is the specification here: one item of a literal whose
  opening quote was consumed, either the closing quote (\<open>None\<close>) or one scalar value.
\<close>

definition hex_value :: "nat \<Rightarrow> nat option" where
  "hex_value d =
     (if 48 \<le> d \<and> d \<le> 57 then Some (d - 48)
      else if 97 \<le> d \<and> d \<le> 102 then Some (d - 87)
      else if 65 \<le> d \<and> d \<le> 70 then Some (d - 55) else None)"

fun json_unit :: "ustr \<Rightarrow> (nat \<times> ustr) option" where
  "json_unit (a # b # c # d # r) =
     (case (hex_value a, hex_value b, hex_value c, hex_value d) of
        (Some w, Some x, Some y, Some z) \<Rightarrow> Some (w * 4096 + x * 256 + y * 16 + z, r)
      | _ \<Rightarrow> None)"
| "json_unit _ = None"

definition json_unescape :: "nat \<Rightarrow> nat option" where
  "json_unescape e =
     (if e \<in> {34, 92, 47} then Some e else if e = 98 then Some 8 else if e = 102 then Some 12
      else if e = 110 then Some 10 else if e = 114 then Some 13 else if e = 116 then Some 9 else None)"

definition json_pair :: "nat \<Rightarrow> ustr \<Rightarrow> (nat \<times> ustr) option" where
  "json_pair u r =
     (if 0xD800 \<le> u \<and> u < 0xDC00 then
        (case r of
           a # b # r' \<Rightarrow>
             (case (if a = 92 \<and> b = 117 then json_unit r' else None) of
                Some (v, r'') \<Rightarrow>
                  (if 0xDC00 \<le> v \<and> v < 0xE000
                   then Some (0x10000 + (u - 0xD800) * 1024 + (v - 0xDC00), r'') else None)
              | None \<Rightarrow> None)
         | _ \<Rightarrow> None)
      else if 0xDC00 \<le> u \<and> u < 0xE000 then None else Some (u, r))"

fun json_item :: "ustr \<Rightarrow> (nat option \<times> ustr) option" where
  "json_item [] = None"
| "json_item (c # r) =
     (if c = 34 then Some (None, r)
      else if c = 92 then
        (case r of
           [] \<Rightarrow> None
         | e # r' \<Rightarrow>
             (if e = 117 then
                (case json_unit r' of
                   None \<Rightarrow> None
                 | Some (u, r'') \<Rightarrow> map_option (\<lambda>(x, t). (Some x, t)) (json_pair u r''))
              else map_option (\<lambda>x. (Some x, r')) (json_unescape e)))
      else if c < 32 then None else Some (Some c, r))"

text \<open>A whole literal: the items up to the closing quote, with fuel for the characters left.\<close>

fun json_items :: "nat \<Rightarrow> ustr \<Rightarrow> (ustr \<times> ustr) option" where
  "json_items 0 s = None"
| "json_items (Suc n) s =
     (case json_item s of
        None \<Rightarrow> None
      | Some (None, r) \<Rightarrow> Some ([], r)
      | Some (Some c, r) \<Rightarrow> map_option (\<lambda>(cs, t). (c # cs, t)) (json_items n r))"

definition json_literal :: "ustr \<Rightarrow> (ustr \<times> ustr) option" where
  "json_literal s = (case s of q # r \<Rightarrow> if q = 34 then json_items (length s) r else None | [] \<Rightarrow> None)"

lemma hex_value_lower: "d < 16 \<Longrightarrow> hex_value (hex_lower d) = Some d"
  by (simp add: hex_value_def hex_lower_def)

lemma hex4_split:
  fixes k :: nat
  assumes "k < 65536"
  shows "k div 4096 mod 16 * 4096 + k div 256 mod 16 * 256 + k div 16 mod 16 * 16 + k mod 16 = k"
proof -
  have "k div 4096 < 16" using assms by (simp add: less_mult_imp_div_less)
  moreover have d: "k div 256 = k div 16 div 16" "k div 4096 = k div 16 div 16 div 16"
    by (simp_all add: div_mult2_eq [symmetric])
  ultimately have "k div 16 div 16 div 16 mod 16 = k div 16 div 16 div 16" by simp
  then show ?thesis
    using div_mult_mod_eq [of k 16] div_mult_mod_eq [of "k div 16" 16]
      div_mult_mod_eq [of "k div 16 div 16" 16] unfolding d by linarith
qed

lemma json_unit_hex4: "k < 65536 \<Longrightarrow> json_unit (hex4_lower k @ r) = Some (k, r)"
  by (simp only: hex4_lower_def list.map append.simps json_unit.simps hex_value_lower mod_less_divisor
      zero_less_numeral prod.case option.case hex4_split)

lemma quote_escapes_scalar: "quote_escapes c \<Longrightarrow> scalar c"
  by (auto simp: quote_escapes_def scalar_def)

lemma unat_u16: "k < 65536 \<Longrightarrow> unat (word_of_nat k :: u16) = k"
  by (simp add: unsigned_of_nat take_bit_nat_eq_self)

lemma json_item_escape:
  assumes "scalar c"
  shows "json_item (concat (map (\<lambda>u. escaped 117 @ hex4_lower (unat u)) (utf16_char c)) @ r)
    = Some (Some c, r)"
proof (cases "c < 0x10000")
  case True
  then have "json_item (concat (map (\<lambda>u. escaped 117 @ hex4_lower (unat u)) (utf16_char c)) @ r)
      = map_option (\<lambda>(x, t). (Some x, t)) (json_pair c r)"
    by (simp add: utf16_char_def unat_u16 escaped_def json_unit_hex4)
  moreover have "json_pair c r = Some (c, r)"
    using assms by (auto simp: json_pair_def scalar_def)
  ultimately show ?thesis by simp
next
  case False
  define h where "h = 0xD800 + (c - 0x10000) div 1024"
  define l where "l = 0xDC00 + (c - 0x10000) mod 1024"
  have c: "c \<le> 0x10FFFF" using assms by (rule scalar_le)
  then have "(c - 0x10000) div 1024 < 1024" by (simp add: less_mult_imp_div_less)
  then have h: "0xD800 \<le> h" "h < 0xDC00" and l: "0xDC00 \<le> l" "l < 0xE000"
    by (simp_all add: h_def l_def)
  have "(h - 0xD800) * 1024 + (l - 0xDC00) = c - 0x10000"
    by (simp add: h_def l_def)
  then have v: "0x10000 + (h - 0xD800) * 1024 + (l - 0xDC00) = c" using False by linarith
  have "json_pair h (92 # 117 # hex4_lower l @ r) = Some (c, r)"
    using h l v by (simp add: json_pair_def json_unit_hex4)
  moreover have "utf16_char c = [word_of_nat h, word_of_nat l]"
    using False by (simp add: utf16_char_def h_def l_def)
  ultimately show ?thesis
    using h l by (simp add: unat_u16 escaped_def json_unit_hex4)
qed

lemma json_item_quote_char:
  assumes "scalar c"
  shows "json_item (quote_char c @ r) = Some (Some c, r)"
proof (cases "c \<in> {34, 92, 8, 12, 10, 13, 9}")
  case True
  then show ?thesis by (auto simp: quote_char_def escaped_def json_unescape_def)
next
  case False
  show ?thesis
  proof (cases "quote_escapes c")
    case True
    then have "quote_char c = concat (map (\<lambda>u. escaped 117 @ hex4_lower (unat u)) (utf16_char c))"
      using False by (simp add: quote_char_def)
    with json_item_escape [OF assms] show ?thesis by simp
  next
    case q: False
    then have "32 \<le> c" by (auto simp: quote_escapes_def)
    with False q show ?thesis by (simp add: quote_char_def)
  qed
qed

interpretation quoting: prefix_code quote_char scalar
proof
  fix a b x y
  assume "scalar a" "scalar b" "quote_char a @ x = quote_char b @ y"
  then show "a = b"
    by (metis json_item_quote_char option.inject prod.inject)
next
  fix a assume "scalar a"
  show "quote_char a \<noteq> []"
    using json_item_quote_char [OF \<open>scalar a\<close>, of "[]"] by auto
qed

lemma json_items_quote:
  "\<lbrakk>list_all scalar cs; length cs < n\<rbrakk>
    \<Longrightarrow> json_items n (concat (map quote_char cs) @ 34 # r) = Some (cs, r)"
proof (induction cs arbitrary: n)
  case Nil
  then show ?case by (cases n) simp_all
next
  case (Cons c cs)
  then show ?case by (cases n) (simp_all add: json_item_quote_char)
qed

lemma length_quote_chars: "list_all scalar cs \<Longrightarrow> length cs \<le> length (concat (map quote_char cs))"
proof (induction cs)
  case Nil
  show ?case by simp
next
  case (Cons c cs)
  then have "quote_char c \<noteq> []" by (simp add: quoting.code_nonempty)
  then have "1 \<le> length (quote_char c)" by (cases "quote_char c") simp_all
  with Cons show ?case by simp
qed

lemma json_literal_quote:
  assumes "list_all scalar v"
  shows "json_literal (quote v @ r) = Some (v, r)"
proof -
  let ?q = "concat (map quote_char v)"
  have "json_items (length (quote v @ r)) (?q @ 34 # r) = Some (v, r)"
    by (rule json_items_quote [OF assms])
      (use length_quote_chars [OF assms] in \<open>simp add: quote_def\<close>)
  then show ?thesis by (simp only: json_literal_def quote_def append.simps append_assoc list.case simp_thms if_True)
qed

lemma printable_not_escaped: "32 \<le> d \<Longrightarrow> d \<le> 126 \<Longrightarrow> \<not> quote_escapes d"
  unfolding quote_escapes_def by linarith

lemma quote_char_visible:
  assumes "d \<in> set (quote_char c)"
  shows "\<not> quote_escapes d"
proof (cases "c \<in> {34, 92, 8, 12, 10, 13, 9}")
  case True
  with assms have "32 \<le> d \<and> d \<le> 126" by (auto simp: quote_char_def escaped_def)
  then show ?thesis by (simp add: printable_not_escaped)
next
  case False
  show ?thesis
  proof (cases "quote_escapes c")
    case True
    with False have "quote_char c = concat (map (\<lambda>u. escaped 117 @ hex4_lower (unat u)) (utf16_char c))"
      by (simp add: quote_char_def)
    with assms have "32 \<le> d \<and> d \<le> 126"
      by (auto simp: escaped_def dest: hex4_lower_safe split: if_splits)
    then show ?thesis by (simp add: printable_not_escaped)
  next
    case q: False
    with False assms show ?thesis by (simp add: quote_char_def)
  qed
qed

lemma quote_visible: "d \<in> set (quote v) \<Longrightarrow> \<not> quote_escapes d"
  by (auto simp: quote_def printable_not_escaped dest: quote_char_visible)

section \<open>Single-quoted shell words read back\<close>

text \<open>
  The specification is the POSIX reading of one word: inside single quotes everything but a
  single quote is literal, outside a backslash makes the next character literal; \<open>None\<close> for a
  word that does not end or that has an unquoted character the shell might interpret.
\<close>

fun sh_word :: "bool \<Rightarrow> ustr \<Rightarrow> ustr option" where
  "sh_word quoted [] = (if quoted then None else Some [])"
| "sh_word True (c # r) = (if c = 39 then sh_word False r else map_option (Cons c) (sh_word True r))"
| "sh_word False (c # r) =
     (if c = 39 then sh_word True r
      else if c = 92 then (case r of [] \<Rightarrow> None | d # r' \<Rightarrow> map_option (Cons d) (sh_word False r'))
      else None)"

lemma sh_word_quoted:
  "sh_word True (concat (map (\<lambda>c. if c = 39 then [39, 92, 39, 39] else [c]) v) @ [39]) = Some v"
  by (induction v) simp_all

lemma sh_word_shell_single_quote: "sh_word False (shell_single_quote v) = Some v"
  using sh_word_quoted [of v] by (simp add: shell_single_quote_def)

end
