(* ===== verification/Ordered_Map.thy ===== *)
theory Ordered_Map
  imports Prelude
begin

text \<open>
  \<open>BTreeMap\<close>: an association list in strictly ascending key order, so that iteration (\<open>keys()\<close>,
  \<open>values()\<close>, \<open>iter()\<close>) is the list itself and equality of maps is equality of lists.  The
  interface the components rely on is the locale \<open>finite_map\<close>.
\<close>

section \<open>The interface\<close>

locale finite_map =
  fixes lookup :: "'m \<Rightarrow> 'k \<Rightarrow> 'v option"
    and insert_kv :: "'k \<Rightarrow> 'v \<Rightarrow> 'm \<Rightarrow> 'm"
    and remove_k :: "'k \<Rightarrow> 'm \<Rightarrow> 'm"
    and invar :: "'m \<Rightarrow> bool"
  assumes lookup_insert: "invar m \<Longrightarrow> lookup (insert_kv k v m) = (lookup m)(k \<mapsto> v)"
    and lookup_remove: "invar m \<Longrightarrow> lookup (remove_k k m) = (lookup m)(k := None)"
    and invar_insert: "invar m \<Longrightarrow> invar (insert_kv k v m)"
    and invar_remove: "invar m \<Longrightarrow> invar (remove_k k m)"
begin

definition insert_all :: "('k \<times> 'v) list \<Rightarrow> 'm \<Rightarrow> 'm" where
  "insert_all kvs m = fold (\<lambda>(k, v). insert_kv k v) kvs m"

lemma invar_insert_all: "invar m \<Longrightarrow> invar (insert_all kvs m)"
  unfolding insert_all_def
  by (induction kvs arbitrary: m) (auto intro: invar_insert)

lemma lookup_insert_all: "invar m \<Longrightarrow> lookup (insert_all kvs m) = lookup m ++ map_of (rev kvs)"
  unfolding insert_all_def
  by (induction kvs arbitrary: m) (auto simp: invar_insert lookup_insert fun_eq_iff map_add_def split: option.splits)

lemma insert_then_remove: "invar m \<Longrightarrow> lookup m k = None \<Longrightarrow> lookup (remove_k k (insert_kv k v m)) = lookup m"
  by (auto simp: lookup_insert lookup_remove invar_insert)

end

section \<open>The model of \<open>BTreeMap\<close>\<close>

type_synonym ('k, 'v) btree = "('k \<times> 'v) list"

abbreviation bt_get :: "('k, 'v) btree \<Rightarrow> 'k \<Rightarrow> 'v option" where
  "bt_get m k \<equiv> map_of m k"

abbreviation bt_keys :: "('k, 'v) btree \<Rightarrow> 'k list" where
  "bt_keys m \<equiv> map fst m"

abbreviation bt_values :: "('k, 'v) btree \<Rightarrow> 'v list" where
  "bt_values m \<equiv> map snd m"

fun bt_insert :: "'k::linorder \<Rightarrow> 'v \<Rightarrow> ('k, 'v) btree \<Rightarrow> ('k, 'v) btree" where
  "bt_insert k v [] = [(k, v)]"
| "bt_insert k v ((k', v') # m) =
     (if k < k' then (k, v) # (k', v') # m
      else if k = k' then (k, v) # m
      else (k', v') # bt_insert k v m)"

definition bt_remove :: "'k \<Rightarrow> ('k, 'v) btree \<Rightarrow> ('k, 'v) btree" where
  "bt_remove k m = filter (\<lambda>(k', v). k' \<noteq> k) m"

definition bt_invar :: "('k::linorder, 'v) btree \<Rightarrow> bool" where
  "bt_invar m \<longleftrightarrow> sorted_wrt (<) (map fst m)"

lemma bt_invar_Nil [simp]: "bt_invar []"
  by (simp add: bt_invar_def)

lemma bt_invar_Cons: "bt_invar (kv # m) \<longleftrightarrow> (\<forall>k \<in> set (map fst m). fst kv < k) \<and> bt_invar m"
  by (auto simp: bt_invar_def)

lemma set_bt_insert: "set (map fst (bt_insert k v m)) = insert k (set (map fst m))"
  by (induction k v m rule: bt_insert.induct) auto

lemma bt_invar_insert: "bt_invar m \<Longrightarrow> bt_invar (bt_insert k v m)"
proof (induction k v m rule: bt_insert.induct)
  case (1 k v)
  show ?case by (simp add: bt_invar_Cons)
next
  case (2 k v k' v' m)
  then show ?case
    using set_bt_insert [of k v m] by (auto simp: bt_invar_Cons)
qed

lemma bt_get_insert: "bt_get (bt_insert k v m) = (bt_get m)(k \<mapsto> v)"
  by (induction k v m rule: bt_insert.induct) (auto simp: fun_eq_iff)

lemma bt_get_remove: "bt_get (bt_remove k m) = (bt_get m)(k := None)"
  by (induction m) (auto simp: bt_remove_def fun_eq_iff)

lemma bt_invar_filter: "bt_invar m \<Longrightarrow> bt_invar (filter p m)"
  unfolding bt_invar_def sorted_wrt_map by (rule sorted_wrt_filter)

lemma bt_invar_remove: "bt_invar m \<Longrightarrow> bt_invar (bt_remove k m)"
  by (simp add: bt_remove_def bt_invar_filter)

lemma bt_invar_distinct: "bt_invar m \<Longrightarrow> distinct (map fst m)"
  unfolding bt_invar_def by (induction m) auto

interpretation bt: finite_map bt_get bt_insert bt_remove bt_invar
  by unfold_locales
    (rule bt_get_insert, rule bt_get_remove, (erule bt_invar_insert bt_invar_remove)+)

lemma bt_ext: "\<lbrakk>bt_invar m; bt_invar m'; bt_get m = bt_get m'\<rbrakk> \<Longrightarrow> m = m'"
proof (induction m arbitrary: m')
  case Nil
  then show ?case by (cases m') (auto simp: fun_eq_iff split: if_splits)
next
  case (Cons kv m)
  obtain k v where kv: "kv = (k, v)" by (cases kv)
  show ?case
  proof (cases m')
    case Nil
    with Cons.prems(3) kv show ?thesis by (auto simp: fun_eq_iff split: if_splits)
  next
    case (Cons kv' n)
    obtain k' v' where kv': "kv' = (k', v')" by (cases kv')
    have dom: "insert k (fst ` set m) = insert k' (fst ` set n)"
      using arg_cong [OF Cons.prems(3), of dom] unfolding kv kv' Cons dom_map_of_conv_image_fst by simp
    have lt: "\<forall>x \<in> fst ` set m. k < x" "\<forall>x \<in> fst ` set n. k' < x"
      using Cons.prems(1,2) Cons kv kv' by (auto simp: bt_invar_Cons)
    have "k = k'"
      using dom lt by (metis insertE insertI1 less_asym)
    moreover have "v = v'"
      using fun_cong [OF Cons.prems(3), of k] kv kv' Cons \<open>k = k'\<close> by simp
    moreover have "m = n"
    proof (rule Cons.IH)
      show "bt_invar m" "bt_invar n" using Cons.prems(1,2) Cons by (auto simp: bt_invar_Cons)
      show "bt_get m = bt_get n"
      proof
        fix x
        have "bt_get m k = None" "bt_get n k = None"
          using lt \<open>k = k'\<close> by (auto simp: map_of_eq_None_iff)
        with fun_cong [OF Cons.prems(3), of x] kv kv' Cons \<open>k = k'\<close>
        show "bt_get m x = bt_get n x" by (cases "x = k") auto
      qed
    qed
    ultimately show ?thesis using kv kv' Cons by simp
  qed
qed

section \<open>The model of \<open>BTreeSet\<close>\<close>

text \<open>Only membership is observed, so a set is enough.\<close>

type_synonym 'k btset = "'k set"

end
