(* ===== verification/Json.thy ===== *)
theory Json
  imports Complex_Main Utf8 Ordered_Map
begin

text \<open>
  The JSON values the code handles: the public data type \<open>Value\<close> of serde_json as this build
  configures it (no \<open>preserve_order\<close>: an object is a \<open>BTreeMap\<close>; no \<open>arbitrary_precision\<close>: a
  number is a \<open>u64\<close>, a negative \<open>i64\<close> or a finite \<open>f64\<close>).  A finite \<open>f64\<close> is its exact rational
  value.  Reading and writing JSON text are parameters where a component uses them.
\<close>

section \<open>Values\<close>

datatype num = PosInt nat | NegInt int | Float rat

datatype json =
    JNull
  | JBool bool
  | JNum num
  | JStr string
  | JArr "json list"
  | JObj "(string \<times> json) list"

type_synonym fields = "(string, json) btree"

fun num_wf :: "num \<Rightarrow> bool" where
  "num_wf (PosInt n) \<longleftrightarrow> n \<le> u64_max"
| "num_wf (NegInt i) \<longleftrightarrow> -9223372036854775808 \<le> i \<and> i < 0"
| "num_wf (Float r) \<longleftrightarrow> True"

fun json_wf :: "json \<Rightarrow> bool" where
  "json_wf (JNum n) \<longleftrightarrow> num_wf n"
| "json_wf (JStr s) \<longleftrightarrow> valid_utf8 s"
| "json_wf (JArr vs) \<longleftrightarrow> list_all json_wf vs"
| "json_wf (JObj m) \<longleftrightarrow> bt_invar m \<and> list_all (\<lambda>(k, v). valid_utf8 k \<and> json_wf v) m"
| "json_wf _ \<longleftrightarrow> True"

section \<open>Accessors\<close>

fun as_str :: "json \<Rightarrow> string option" where
  "as_str (JStr s) = Some s" | "as_str _ = None"

fun as_bool :: "json \<Rightarrow> bool option" where
  "as_bool (JBool b) = Some b" | "as_bool _ = None"

fun as_array :: "json \<Rightarrow> json list option" where
  "as_array (JArr vs) = Some vs" | "as_array _ = None"

fun as_object :: "json \<Rightarrow> fields option" where
  "as_object (JObj m) = Some m" | "as_object _ = None"

fun as_u64 :: "json \<Rightarrow> nat option" where
  "as_u64 (JNum (PosInt n)) = Some n" | "as_u64 _ = None"

fun as_i64 :: "json \<Rightarrow> int option" where
  "as_i64 (JNum (PosInt n)) = (if n \<le> 9223372036854775807 then Some (int n) else None)"
| "as_i64 (JNum (NegInt i)) = Some i"
| "as_i64 _ = None"

fun bit_len :: "nat \<Rightarrow> nat" where
  "bit_len n = (if n = 0 then 0 else Suc (bit_len (n div 2)))"

declare bit_len.simps [simp del]

text \<open>\<open>n as f64\<close>: to the nearest representable value, ties to even.\<close>

definition f64_of_nat :: "nat \<Rightarrow> nat" where
  "f64_of_nat n =
     (if n < 9007199254740992 then n
      else let k = bit_len n - 53; q = n div 2 ^ k; r = n mod 2 ^ k; h = 2 ^ (k - 1)
           in (if h < r \<or> r = h \<and> odd q then q + 1 else q) * 2 ^ k)"

fun as_f64 :: "json \<Rightarrow> rat option" where
  "as_f64 (JNum (PosInt n)) = Some (of_nat (f64_of_nat n))"
| "as_f64 (JNum (NegInt i)) = Some (- of_nat (f64_of_nat (nat (- i))))"
| "as_f64 (JNum (Float r)) = Some r"
| "as_f64 _ = None"

definition is_integral :: "rat \<Rightarrow> bool" where
  "is_integral r \<longleftrightarrow> of_int \<lfloor>r\<rfloor> = r"

text \<open>\<open>Value::get\<close> with a key, and the index expression \<open>v["k"]\<close>, which is \<open>Null\<close> when absent.\<close>

fun jget :: "json \<Rightarrow> string \<Rightarrow> json option" where
  "jget (JObj m) k = bt_get m k" | "jget _ k = None"

definition jidx :: "json \<Rightarrow> string \<Rightarrow> json" where
  "jidx v k = (case jget v k of Some w \<Rightarrow> w | None \<Rightarrow> JNull)"

text \<open>\<open>Value::get\<close> with a \<open>usize\<close> index.\<close>

fun jnth :: "json \<Rightarrow> nat \<Rightarrow> json option" where
  "jnth (JArr vs) i = (if i < length vs then Some (vs ! i) else None)" | "jnth _ i = None"

text \<open>\<open>Value::pointer\<close> for tokens that are not array indices, the only ones the code uses.\<close>

fun pointer :: "json \<Rightarrow> string list \<Rightarrow> json option" where
  "pointer v [] = Some v"
| "pointer v (k # ks) = (case jget v k of None \<Rightarrow> None | Some w \<Rightarrow> pointer w ks)"

text \<open>The object literal of the \<open>json!\<close> macro.\<close>

definition jobj :: "(string \<times> json) list \<Rightarrow> json" where
  "jobj kvs = JObj (fold (\<lambda>(k, v) m. bt_insert k v m) kvs [])"

text \<open>Assignment to the index expression \<open>v["k"]\<close> of an object.\<close>

definition set_field :: "string \<Rightarrow> json \<Rightarrow> json \<Rightarrow> json" where
  "set_field k w v = (case v of JObj m \<Rightarrow> JObj (bt_insert k w m) | _ \<Rightarrow> v)"

definition is_string :: "json \<Rightarrow> bool" where "is_string v \<longleftrightarrow> as_str v \<noteq> None"
definition is_boolean :: "json \<Rightarrow> bool" where "is_boolean v \<longleftrightarrow> as_bool v \<noteq> None"
definition is_array :: "json \<Rightarrow> bool" where "is_array v \<longleftrightarrow> as_array v \<noteq> None"
definition is_object :: "json \<Rightarrow> bool" where "is_object v \<longleftrightarrow> as_object v \<noteq> None"

text \<open>Comparison of a value with an integer literal goes through \<open>as_i64\<close>.\<close>

definition eq_int :: "json \<Rightarrow> int \<Rightarrow> bool" where
  "eq_int v i \<longleftrightarrow> as_i64 v = Some i"

definition opt_all :: "('a \<Rightarrow> bool) \<Rightarrow> 'a option \<Rightarrow> bool" where
  "opt_all p x = (case x of None \<Rightarrow> True | Some y \<Rightarrow> p y)"

definition opt_ex :: "('a \<Rightarrow> bool) \<Rightarrow> 'a option \<Rightarrow> bool" where
  "opt_ex p x = (case x of None \<Rightarrow> False | Some y \<Rightarrow> p y)"

lemma opt_simps [simp]:
  "opt_all p None" "opt_all p (Some y) = p y" "\<not> opt_ex p None" "opt_ex p (Some y) = p y"
  by (simp_all add: opt_all_def opt_ex_def)

lemma opt_ex_iff: "opt_ex p x \<longleftrightarrow> (\<exists>y. x = Some y \<and> p y)"
  by (cases x) simp_all

lemma opt_all_iff: "opt_all p x \<longleftrightarrow> (\<forall>y. x = Some y \<longrightarrow> p y)"
  by (cases x) simp_all

lemma as_str_Some [simp]: "as_str v = Some s \<longleftrightarrow> v = JStr s"
  by (cases v) auto

lemma as_bool_Some [simp]: "as_bool v = Some b \<longleftrightarrow> v = JBool b"
  by (cases v) auto

lemma as_array_Some [simp]: "as_array v = Some s \<longleftrightarrow> v = JArr s"
  by (cases v) auto

lemma as_object_Some [simp]: "as_object v = Some s \<longleftrightarrow> v = JObj s"
  by (cases v) auto

lemma jidx_JNull [simp]: "jidx JNull k = JNull"
  by (simp add: jidx_def)

lemma jidx_obj [simp]: "jidx (JObj m) k = (case bt_get m k of Some w \<Rightarrow> w | None \<Rightarrow> JNull)"
  by (simp add: jidx_def)

lemma jget_object: "jget v k = Some w \<Longrightarrow> \<exists>m. v = JObj m \<and> bt_get m k = Some w"
  by (cases v) auto

lemma jidx_neq_null: "jidx v k \<noteq> JNull \<Longrightarrow> jget v k = Some (jidx v k)"
  by (simp add: jidx_def split: option.splits)

section \<open>Shared shape checks of the adapters\<close>

text \<open>\<open>has_exact_keys\<close> of \<open>installed_adapters.rs\<close>.\<close>

definition has_exact_keys :: "json \<Rightarrow> string list \<Rightarrow> bool" where
  "has_exact_keys v expected =
     opt_ex (\<lambda>m. length m = length expected \<and> list_all (\<lambda>k. bt_get m k \<noteq> None) expected)
       (as_object v)"

text \<open>\<open>record_type\<close> of \<open>installed_adapters.rs\<close>.\<close>

definition record_type :: "json \<Rightarrow> string option" where
  "record_type v = (case jget v ''type'' of None \<Rightarrow> None | Some t \<Rightarrow> as_str t)"

lemma has_exact_keys_set:
  assumes "has_exact_keys v ks" and "distinct ks" and "v = JObj m" and "bt_invar m"
  shows "set (bt_keys m) = set ks"
proof -
  have "length m = length ks" and sub: "set ks \<subseteq> set (bt_keys m)"
    using assms(1,3) by (auto simp: has_exact_keys_def list_all_iff) (metis weak_map_of_SomeI domI dom_map_of_conv_image_fst)
  then have "card (set (bt_keys m)) \<le> card (set ks)"
    using assms(2) by (metis card_length distinct_card length_map)
  then show ?thesis using sub by (metis List.finite_set card_seteq)
qed

end
