(* ===== verification/Errors.thy ===== *)
theory Errors
  imports Text_Safety Json
begin

text \<open>
  The error taxonomy of \<open>error.rs\<close>: the closed set of codes with their identifiers and exit codes,
  the catalogue that fills a \<open>RunnerError\<close>, its constructors, and the human rendering
  (\<open>Display\<close>).  The running executable (\<open>env::current_exe\<close>) is the argument \<open>exe\<close> and UUID parsing
  (the crate \<open>uuid\<close>) the argument \<open>uuid_ok\<close>.
\<close>

section \<open>Codes\<close>

datatype error_code =
    ConfigInvalid
  | InvocationInvalid
  | HarnessUnavailable
  | HarnessIncompatible
  | HarnessNeedsAuth
  | TransportUnsupported
  | PromptChannelUnsupported
  | KernelRetrievalFailed
  | ImageInvalid
  | ImageTooLarge
  | RecursiveInvocation
  | StartupTimeout
  | ProtocolMalformed
  | ProtocolTruncated
  | HarnessFailed
  | SemanticStatusUnknown
  | Cancelled
  | ProcessCleanupFailed
  | ServiceUnavailable
  | ServiceAuthRequired
  | ServiceProtocolInvalid
  | CredentialStoreUnavailable
  | DeviceAuthFailed
  | DeviceAuthExpired
  | HostedUnavailable
  | HostedAuthRequired
  | HostedQuotaExceeded
  | ConfirmationRequired
  | ServiceRequestRejected
  | ServiceResourceNotFound
  | ServiceFeatureDisabled
  | ServiceBalanceInsufficient
  | ServicePremiumModelLocked
  | ServiceAccountSuspended
  | ServiceWriteConflict
  | GithubLinkRequired
  | ServiceResponseTooLarge
  | ServiceWatchDeadline
  | HostedRunFailed
  | RunSubmissionAmbiguous
  | HostedRunDetached
  | HostedRunCancelled
  | ExampleNotViewable
  | InternalRunnerFault

primrec as_code :: "error_code \<Rightarrow> string" where
  "as_code ConfigInvalid = ''CONFIG_INVALID''"
| "as_code InvocationInvalid = ''INVOCATION_INVALID''"
| "as_code HarnessUnavailable = ''HARNESS_UNAVAILABLE''"
| "as_code HarnessIncompatible = ''HARNESS_INCOMPATIBLE''"
| "as_code HarnessNeedsAuth = ''HARNESS_NEEDS_AUTH''"
| "as_code TransportUnsupported = ''TRANSPORT_UNSUPPORTED''"
| "as_code PromptChannelUnsupported = ''PROMPT_CHANNEL_UNSUPPORTED''"
| "as_code KernelRetrievalFailed = ''KERNEL_RETRIEVAL_FAILED''"
| "as_code ImageInvalid = ''IMAGE_INVALID''"
| "as_code ImageTooLarge = ''IMAGE_TOO_LARGE''"
| "as_code RecursiveInvocation = ''RECURSIVE_INVOCATION''"
| "as_code StartupTimeout = ''STARTUP_TIMEOUT''"
| "as_code ProtocolMalformed = ''PROTOCOL_MALFORMED''"
| "as_code ProtocolTruncated = ''PROTOCOL_TRUNCATED''"
| "as_code HarnessFailed = ''HARNESS_FAILED''"
| "as_code SemanticStatusUnknown = ''SEMANTIC_STATUS_UNKNOWN''"
| "as_code Cancelled = ''CANCELLED''"
| "as_code ProcessCleanupFailed = ''PROCESS_CLEANUP_FAILED''"
| "as_code ServiceUnavailable = ''SERVICE_UNAVAILABLE''"
| "as_code ServiceAuthRequired = ''SERVICE_AUTH_REQUIRED''"
| "as_code ServiceProtocolInvalid = ''SERVICE_PROTOCOL_INVALID''"
| "as_code CredentialStoreUnavailable = ''CREDENTIAL_STORE_UNAVAILABLE''"
| "as_code DeviceAuthFailed = ''DEVICE_AUTH_FAILED''"
| "as_code DeviceAuthExpired = ''DEVICE_AUTH_EXPIRED''"
| "as_code HostedUnavailable = ''HOSTED_UNAVAILABLE''"
| "as_code HostedAuthRequired = ''HOSTED_AUTH_REQUIRED''"
| "as_code HostedQuotaExceeded = ''HOSTED_QUOTA_EXCEEDED''"
| "as_code ConfirmationRequired = ''CONFIRMATION_REQUIRED''"
| "as_code ServiceRequestRejected = ''SERVICE_REQUEST_REJECTED''"
| "as_code ServiceResourceNotFound = ''SERVICE_RESOURCE_NOT_FOUND''"
| "as_code ServiceFeatureDisabled = ''SERVICE_FEATURE_DISABLED''"
| "as_code ServiceBalanceInsufficient = ''SERVICE_BALANCE_INSUFFICIENT''"
| "as_code ServicePremiumModelLocked = ''SERVICE_PREMIUM_MODEL_LOCKED''"
| "as_code ServiceAccountSuspended = ''SERVICE_ACCOUNT_SUSPENDED''"
| "as_code ServiceWriteConflict = ''SERVICE_WRITE_CONFLICT''"
| "as_code GithubLinkRequired = ''GITHUB_LINK_REQUIRED''"
| "as_code ServiceResponseTooLarge = ''SERVICE_RESPONSE_TOO_LARGE''"
| "as_code ServiceWatchDeadline = ''SERVICE_WATCH_DEADLINE''"
| "as_code HostedRunFailed = ''HOSTED_RUN_FAILED''"
| "as_code RunSubmissionAmbiguous = ''RUN_SUBMISSION_AMBIGUOUS''"
| "as_code HostedRunDetached = ''HOSTED_RUN_DETACHED''"
| "as_code HostedRunCancelled = ''HOSTED_RUN_CANCELLED''"
| "as_code ExampleNotViewable = ''EXAMPLE_NOT_VIEWABLE''"
| "as_code InternalRunnerFault = ''INTERNAL_ERROR''"

primrec exit_code :: "error_code \<Rightarrow> nat" where
  "exit_code ConfigInvalid = 2"
| "exit_code InvocationInvalid = 2"
| "exit_code ConfirmationRequired = 2"
| "exit_code ExampleNotViewable = 2"
| "exit_code HarnessUnavailable = 10"
| "exit_code HarnessIncompatible = 10"
| "exit_code HarnessNeedsAuth = 10"
| "exit_code ServiceUnavailable = 10"
| "exit_code ServiceAuthRequired = 10"
| "exit_code ServiceProtocolInvalid = 10"
| "exit_code CredentialStoreUnavailable = 10"
| "exit_code DeviceAuthFailed = 10"
| "exit_code DeviceAuthExpired = 10"
| "exit_code HostedUnavailable = 10"
| "exit_code HostedAuthRequired = 10"
| "exit_code HostedQuotaExceeded = 10"
| "exit_code ServiceRequestRejected = 10"
| "exit_code ServiceResourceNotFound = 10"
| "exit_code ServiceFeatureDisabled = 10"
| "exit_code ServiceBalanceInsufficient = 10"
| "exit_code ServicePremiumModelLocked = 10"
| "exit_code ServiceAccountSuspended = 10"
| "exit_code ServiceWriteConflict = 10"
| "exit_code GithubLinkRequired = 10"
| "exit_code ServiceResponseTooLarge = 10"
| "exit_code TransportUnsupported = 20"
| "exit_code PromptChannelUnsupported = 20"
| "exit_code KernelRetrievalFailed = 20"
| "exit_code ImageInvalid = 20"
| "exit_code ImageTooLarge = 20"
| "exit_code RecursiveInvocation = 20"
| "exit_code StartupTimeout = 21"
| "exit_code ServiceWatchDeadline = 21"
| "exit_code HostedRunDetached = 21"
| "exit_code ProtocolMalformed = 22"
| "exit_code ProtocolTruncated = 22"
| "exit_code HarnessFailed = 22"
| "exit_code HostedRunFailed = 22"
| "exit_code RunSubmissionAmbiguous = 22"
| "exit_code SemanticStatusUnknown = 23"
| "exit_code Cancelled = 24"
| "exit_code HostedRunCancelled = 24"
| "exit_code ProcessCleanupFailed = 25"
| "exit_code InternalRunnerFault = 70"

definition all_codes :: "error_code list" where
  "all_codes =
    [ConfigInvalid,
     InvocationInvalid,
     HarnessUnavailable,
     HarnessIncompatible,
     HarnessNeedsAuth,
     TransportUnsupported,
     PromptChannelUnsupported,
     KernelRetrievalFailed,
     ImageInvalid,
     ImageTooLarge,
     RecursiveInvocation,
     StartupTimeout,
     ProtocolMalformed,
     ProtocolTruncated,
     HarnessFailed,
     SemanticStatusUnknown,
     Cancelled,
     ProcessCleanupFailed,
     ServiceUnavailable,
     ServiceAuthRequired,
     ServiceProtocolInvalid,
     CredentialStoreUnavailable,
     DeviceAuthFailed,
     DeviceAuthExpired,
     HostedUnavailable,
     HostedAuthRequired,
     HostedQuotaExceeded,
     ConfirmationRequired,
     ServiceRequestRejected,
     ServiceResourceNotFound,
     ServiceFeatureDisabled,
     ServiceBalanceInsufficient,
     ServicePremiumModelLocked,
     ServiceAccountSuspended,
     ServiceWriteConflict,
     GithubLinkRequired,
     ServiceResponseTooLarge,
     ServiceWatchDeadline,
     HostedRunFailed,
     RunSubmissionAmbiguous,
     HostedRunDetached,
     HostedRunCancelled,
     InternalRunnerFault,
     ExampleNotViewable]"

primrec catalog_entry :: "error_code \<Rightarrow> string \<times> string \<times> string \<times> bool" where
  "catalog_entry ServiceUnavailable =
    (''hosted-service'',
     ''The OpenProse service is unavailable.'',
     ''Check your network connection and retry later.'',
     True)"
| "catalog_entry ServiceAuthRequired =
    (''authentication'',
     ''OpenProse service authentication is required.'',
     ''Run cli auth login, then retry.'',
     False)"
| "catalog_entry ServiceProtocolInvalid =
    (''protocol'',
     ''The OpenProse service returned an invalid response.'',
     ''Retry later and report the sanitized error code if it persists.'',
     False)"
| "catalog_entry CredentialStoreUnavailable =
    (''authentication'',
     ''The operating system credential store is unavailable.'',
     ''Unlock or configure the operating system credential store, then retry.'',
     False)"
| "catalog_entry DeviceAuthFailed =
    (''authentication'',
     ''Device authorization failed.'',
     ''Run login again and authorize the displayed code.'',
     False)"
| "catalog_entry DeviceAuthExpired =
    (''authentication'',
     ''Device authorization expired.'',
     ''Run login again to obtain a new code.'',
     True)"
| "catalog_entry ConfigInvalid =
    (''configuration'',
     ''Runner configuration is invalid.'',
     ''Correct or remove the reported configuration source or setting, then invoke the `cli config explain` runner operation to verify the repair.'',
     False)"
| "catalog_entry InvocationInvalid =
    (''invocation'',
     ''Runner invocation is invalid.'',
     ''Review the runner syntax with the --help option, place global options before cli, and retry the command.'',
     False)"
| "catalog_entry HarnessUnavailable =
    (''adapter'',
     ''The selected harness executable is unavailable.'',
     ''Install the selected harness and ensure its executable is on PATH, then invoke the `cli doctor` runner operation.'',
     False)"
| "catalog_entry HarnessIncompatible =
    (''adapter'',
     ''The selected harness version is incompatible with this adapter.'',
     ''Run the exact Repair command reported with this error, then retry.'',
     False)"
| "catalog_entry HarnessNeedsAuth =
    (''authentication'',
     ''The selected harness is not authenticated.'',
     ''Sign in with the selected harness. For Codex, run `codex login`; for Claude, run `claude auth login`; for Prime or OMP cached login, select its explicit harness-login `--auth-profile`; for API-key routes, configure the selected profile. Then retry.'',
     False)"
| "catalog_entry TransportUnsupported =
    (''adapter'',
     ''The selected harness does not support the requested transport.'',
     ''Choose a transport listed for this harness by the `cli harness list` runner operation.'',
     False)"
| "catalog_entry PromptChannelUnsupported =
    (''adapter'',
     ''The selected adapter cannot use a manifest-permitted instruction placement.'',
     ''Choose a strict adapter reported by the `cli harness list` runner operation.'',
     False)"
| "catalog_entry KernelRetrievalFailed =
    (''image'',
     ''The published OpenProse kernel could not be retrieved.'',
     ''Check your network connection and access to https://pkg.prose.md. Retry when the published kernel is available; no fallback was used.'',
     False)"
| "catalog_entry ImageInvalid =
    (''image'',
     ''The Skill Runtime Image failed structural or digest verification.'',
     ''Reinstall this OpenProse CLI artifact from a verified release.'',
     False)"
| "catalog_entry ImageTooLarge =
    (''image'',
     ''The Skill Runtime Image exceeds the selected transport limit.'',
     ''Choose an adapter whose reported image limit accepts this image version.'',
     False)"
| "catalog_entry RecursiveInvocation =
    (''invocation'',
     ''A prose wrapper invocation attempted to enter itself recursively.'',
     ''Run the harness directly for the interactive skill path, or select a harness executable that is not this wrapper.'',
     False)"
| "catalog_entry StartupTimeout =
    (''process'',
     ''The selected harness did not start before the startup deadline.'',
     ''Check the harness with the `cli doctor` runner operation and retry with an appropriate `--timeout`.'',
     True)"
| "catalog_entry ProtocolMalformed =
    (''protocol'',
     ''The harness emitted a malformed or out-of-order structured record.'',
     ''Invoke the `cli doctor` runner operation and install a harness version supported by the selected adapter.'',
     False)"
| "catalog_entry ProtocolTruncated =
    (''protocol'',
     ''The harness stream ended before its required terminal record.'',
     ''Retry once; if the problem persists, invoke the `cli doctor` runner operation and inspect sanitized diagnostics.'',
     True)"
| "catalog_entry HarnessFailed =
    (''process'',
     ''The harness failed before a valid semantic terminal result was accepted.'',
     ''Inspect the harness diagnostic on stderr and invoke the `cli doctor` runner operation.'',
     False)"
| "catalog_entry SemanticStatusUnknown =
    (''semantic-terminal'',
     ''Transport completed without a trustworthy OpenProse semantic status.'',
     ''Choose a strict adapter that carries the image's terminal envelope.'',
     False)"
| "catalog_entry Cancelled =
    (''process'',
     ''The runner was cancelled before semantic completion.'',
     ''Retry the command when you are ready to let it complete.'',
     True)"
| "catalog_entry ProcessCleanupFailed =
    (''cleanup'',
     ''The runner could not verify cleanup of its direct child, original process group, or owned harness service.'',
     ''Inspect only the reported child, process group, or owned harness service; do not stop unrelated services. Then invoke the `cli doctor` runner operation before retrying.'',
     False)"
| "catalog_entry HostedUnavailable =
    (''hosted-service'',
     ''Programs run here only with a local harness; hosted runs use `prose cli run submit`.'',
     ''To use the hosted service, run `cli run submit FILE --preview`; running programs on this machine needs a local harness (`cli harness list`).'',
     False)"
| "catalog_entry HostedAuthRequired =
    (''authentication'',
     ''An OpenProse account is required for OpenProse-billed execution.'',
     ''Invoke the `cli auth login` runner operation, then retry.'',
     False)"
| "catalog_entry HostedQuotaExceeded =
    (''hosted-service'',
     ''The OpenProse account has no available execution quota.'',
     ''Review OpenProse billing or quota status with the `cli auth status` runner operation.'',
     False)"
| "catalog_entry ConfirmationRequired =
    (''invocation'',
     ''This service operation requires explicit confirmation.'',
     ''Rerun the same command with --yes to confirm, or with --preview to see what it would do without sending anything.'',
     False)"
| "catalog_entry ServiceRequestRejected =
    (''hosted-service'',
     ''The OpenProse service rejected the request.'',
     ''Correct the request using whichever of details.reason, details.serviceMessage and details.serviceCode are present, then retry.'',
     False)"
| "catalog_entry ServiceResourceNotFound =
    (''hosted-service'',
     ''The requested OpenProse service resource was not found.'',
     ''Check the identifier, then retry.'',
     False)"
| "catalog_entry ServiceFeatureDisabled =
    (''hosted-service'',
     ''This capability is not available for this account.'',
     ''Check your plan or organization, or contact OpenProse support.'',
     False)"
| "catalog_entry ServiceBalanceInsufficient =
    (''hosted-service'',
     ''The OpenProse wallet balance is insufficient for this operation.'',
     ''Add credit with the `cli wallet topup` or `cli wallet redeem` runner operation, then retry.'',
     False)"
| "catalog_entry ServicePremiumModelLocked =
    (''hosted-service'',
     ''This model is a premium model that unlocks with any wallet top-up.'',
     ''Top up the wallet with any amount using the `cli wallet topup` runner operation, then retry.'',
     False)"
| "catalog_entry ServiceAccountSuspended =
    (''authentication'',
     ''The OpenProse account is suspended.'',
     ''Contact OpenProse support; retrying will not succeed.'',
     False)"
| "catalog_entry ServiceWriteConflict =
    (''hosted-service'',
     ''The OpenProse service reported a conflicting write.'',
     ''Read the current state of the resource, reconcile the change, then retry.'',
     False)"
| "catalog_entry GithubLinkRequired =
    (''authentication'',
     ''This operation needs a linked GitHub account on the OpenProse account.'',
     ''Link or reconnect GitHub for this account in the OpenProse web app, then retry; the API key itself is valid.'',
     False)"
| "catalog_entry ServiceResponseTooLarge =
    (''protocol'',
     ''The OpenProse service response exceeded the client limit.'',
     ''Narrow the request, for example with --limit or a more specific identifier, then retry.'',
     False)"
| "catalog_entry ServiceWatchDeadline =
    (''hosted-service'',
     ''The watch deadline elapsed before the hosted run finished; the run continues.'',
     ''Resume with the `cli run watch` runner operation using details.resumeArgv (details.runId and details.afterSequence); never submit the run again to resume it.'',
     False)"
| "catalog_entry HostedRunFailed =
    (''hosted-service'',
     ''The hosted run finished without completing successfully.'',
     ''Inspect the run with the `cli run show` runner operation, correct the program or inputs, then submit again.'',
     False)"
| "catalog_entry RunSubmissionAmbiguous =
    (''protocol'',
     ''The run submission could not be confirmed and was not repeated.'',
     ''List recent runs with the `cli run list` runner operation before submitting again; the local run journal keeps details.session.'',
     False)"
| "catalog_entry HostedRunDetached =
    (''hosted-service'',
     ''The client stopped following the hosted run before its outcome arrived; the run was not cancelled.'',
     ''Resume with the `cli run watch` runner operation using details.resumeArgv (details.runId and details.afterSequence); never submit the run again to resume it.'',
     False)"
| "catalog_entry HostedRunCancelled =
    (''hosted-service'',
     ''The hosted run was cancelled on the service and will not continue.'',
     ''Read the cancelled run with the `cli run show` runner operation using details.runId; submit again only to start a new run.'',
     False)"
| "catalog_entry ExampleNotViewable =
    (''invocation'',
     ''This example is published outside the OpenProse service and cannot be shown here.'',
     ''Read the example on the web at details.webUrl when it is present, or pick an example that the `cli example list` runner operation does not mark viewOnWeb.'',
     False)"
| "catalog_entry InternalRunnerFault =
    (''runner'',
     ''The runner encountered an internal fault.'',
     ''Retry with `--verbose` and report the sanitized diagnostic identifier.'',
     False)"

definition from_code :: "string \<Rightarrow> error_code option" where
  "from_code c = List.find (\<lambda>candidate. as_code candidate = c) all_codes"

section \<open>Errors\<close>

record runner_error =
  re_schema :: string
  re_code :: error_code
  re_boundary :: string
  re_message :: string
  re_action :: string
  re_exit_code :: nat
  re_retryable :: bool
  re_details :: "fields option"

definition retryable_by_default :: "error_code \<Rightarrow> bool" where
  "retryable_by_default c \<longleftrightarrow>
     c \<in> {StartupTimeout, HarnessFailed, HostedUnavailable, HostedQuotaExceeded}"

definition new_error :: "error_code \<Rightarrow> string \<Rightarrow> string \<Rightarrow> string \<Rightarrow> runner_error" where
  "new_error c b m a =
     \<lparr>re_schema = ''openprose.runner-error/1'', re_code = c, re_boundary = b, re_message = m,
      re_action = a, re_exit_code = exit_code c, re_retryable = retryable_by_default c,
      re_details = None\<rparr>"

definition catalog :: "error_code \<Rightarrow> runner_error" where
  "catalog c = (case catalog_entry c of
     (b, m, a, r) \<Rightarrow> (new_error c b m a)\<lparr>re_retryable := r\<rparr>)"

definition with_detail :: "runner_error \<Rightarrow> string \<Rightarrow> json \<Rightarrow> runner_error" where
  "with_detail e k v = e\<lparr>re_details :=
     Some (bt_insert k v (case re_details e of None \<Rightarrow> [] | Some m \<Rightarrow> m))\<rparr>"

definition detail :: "runner_error \<Rightarrow> string \<Rightarrow> json option" where
  "detail e k = (case re_details e of None \<Rightarrow> None | Some m \<Rightarrow> bt_get m k)"

definition config_error :: "string \<Rightarrow> runner_error" where
  "config_error m = with_detail (catalog ConfigInvalid) ''reason'' (JStr m)"

definition invocation_error :: "string \<Rightarrow> runner_error" where
  "invocation_error m = with_detail (catalog InvocationInvalid) ''reason'' (JStr m)"

definition run_failure_action :: "string \<Rightarrow> string option" where
  "run_failure_action reason0 =
     (let reason = map to_lower reason0 in
      if contains_str ''budget'' reason then
        Some ''Raise the run budget, choose another environment, or check `cli wallet balance`, then submit again.''
      else if list_ex (\<lambda>cause. contains_str cause reason)
          [''step limit'', ''max steps'', ''maximum steps'', ''max_steps'', ''too many steps''] then
        Some ''Simplify the program or split it into steps, then submit again.''
      else None)"

definition hosted_run_failed :: "string \<Rightarrow> runner_error" where
  "hosted_run_failed reason =
     (let e = catalog HostedRunFailed;
          e' = (case run_failure_action reason of Some a \<Rightarrow> e\<lparr>re_action := a\<rparr> | None \<Rightarrow> e)
      in with_detail e' ''reason'' (JStr reason))"

section \<open>Human rendering\<close>

definition non_copyable_runner_guidance :: string where
  "non_copyable_runner_guidance = ''No copyable runner command is available because its path contains control characters; reinstall OpenProse in a path without control characters.''"

definition human_runner_executable_for :: "ustr \<Rightarrow> ustr" where
  "human_runner_executable_for path =
     (if has_terminal_line_control path then asc non_copyable_runner_guidance
      else shell_single_quote path)"

text \<open>\<open>human_runner_executable\<close> with the path of the running executable, when it has one.\<close>

definition human_runner_executable :: "string option \<Rightarrow> ustr" where
  "human_runner_executable exe =
     (case exe of None \<Rightarrow> asc non_copyable_runner_guidance
      | Some path \<Rightarrow> human_runner_executable_for (chars path))"

definition human_runner_command :: "string option \<Rightarrow> ustr \<Rightarrow> ustr" where
  "human_runner_command exe arguments =
     (let executable = human_runner_executable exe in
      if executable = asc non_copyable_runner_guidance \<or> has_terminal_line_control arguments
      then asc non_copyable_runner_guidance
      else executable @ asc '' '' @ arguments)"

definition valid_recovery_handle :: "(string \<Rightarrow> bool) \<Rightarrow> string \<Rightarrow> bool" where
  "valid_recovery_handle uuid_ok handle =
     (if 160 < length handle \<or> \<not> is_ascii handle \<or> list_ex is_control (chars handle) then False
      else case split_on (\<lambda>c. c = CHR ''.'') handle of
        [version, directory, token] \<Rightarrow>
          (if version \<noteq> ''prime-v1'' then False
           else case strip_prefix ''openprose-prime-'' directory of
             None \<Rightarrow> False
           | Some suffix \<Rightarrow>
               6 \<le> length suffix \<and> length suffix \<le> 64
               \<and> list_all (\<lambda>b. ascii_alphanumeric b \<or> b = CHR ''-'') suffix
               \<and> uuid_ok token)
      | _ \<Rightarrow> False)"

definition obj_str :: "fields \<Rightarrow> string \<Rightarrow> string option" where
  "obj_str m k = Option.bind (bt_get m k) as_str"

definition sdk_setup_action :: "string \<Rightarrow> string option" where
  "sdk_setup_action reason =
     (if reason = ''credential-or-permission'' then
        Some ''Check OPENAI_API_KEY and this account's permission to use the configured model, then retry. No fallback was selected.''
      else if reason = ''model-unavailable'' then
        Some ''Choose a model available to this OpenAI account or restore access to the configured model, then retry. No fallback was selected.''
      else if reason = ''local-input'' then
        Some ''Check the working directory, instruction and credential file paths, file permissions and configured input-byte limit, then retry.''
      else None)"

definition runtime_prerequisite_lines :: "fields \<Rightarrow> ustr list" where
  "runtime_prerequisite_lines details =
     (case Option.bind (bt_get details ''runtimePrerequisite'') as_object of
        None \<Rightarrow> []
      | Some runtime \<Rightarrow>
          if obj_str runtime ''runtime'' = Some ''bun''
             \<and> obj_str runtime ''versionRange'' = Some ''>=1.3.14''
             \<and> opt_ex (\<lambda>v. v = JNull \<or> as_str v \<noteq> None) (bt_get runtime ''detectedVersion'')
             \<and> obj_str runtime ''repairCommand''
                = Some ''npm install --global bun@1.3.14 @oh-my-pi/pi-coding-agent@18.0.9''
          then
            [asc ''Runtime prerequisite: bun'',
             asc ''Detected runtime version: '' @ human_safe_scalar (chars
               (case obj_str runtime ''detectedVersion'' of Some s \<Rightarrow> s | None \<Rightarrow> ''missing'')),
             asc ''Required runtime version: >=1.3.14'',
             asc ''Repair: '' @ human_safe_scalar (chars
               (case obj_str runtime ''repairCommand'' of Some s \<Rightarrow> s | None \<Rightarrow> ''''))]
          else [])"

definition human_version_repair_details :: "runner_error \<Rightarrow> ustr list" where
  "human_version_repair_details e =
     (if re_code e \<noteq> HarnessUnavailable \<and> re_code e \<noteq> HarnessIncompatible then []
      else case re_details e of
        None \<Rightarrow> []
      | Some details \<Rightarrow>
          runtime_prerequisite_lines details
          @ (case obj_str details ''detectedVersion'' of
               None \<Rightarrow> []
             | Some detected \<Rightarrow> [asc ''Detected version: '' @ human_safe_scalar (chars detected)])
          @ (case Option.bind (bt_get details ''admittedVersions'') as_array of
               None \<Rightarrow> []
             | Some admitted \<Rightarrow>
                 (let versions = List.map_filter as_str admitted in
                  if length versions = length admitted
                  then [asc ''Admitted versions: ''
                        @ join (asc '', '') (map (\<lambda>v. human_safe_scalar (chars v)) versions)]
                  else []))
          @ (case obj_str details ''repairCommand'' of
               None \<Rightarrow> []
             | Some repair \<Rightarrow> [asc ''Repair: '' @ human_safe_scalar (chars repair)]))"

definition sdk_action_of :: "runner_error \<Rightarrow> string option" where
  "sdk_action_of e =
     (if re_code e = HarnessFailed \<and> Option.bind (detail e ''adapterId'') as_str = Some ''agents-sdk/jsonl''
      then case detail e ''nativeFailure'' of
        None \<Rightarrow> None
      | Some native \<Rightarrow>
          (if Option.bind (jget native ''kind'') as_str = Some ''setup''
           then Option.bind (Option.bind (jget native ''setupReason'') as_str) sdk_setup_action
           else None)
      else None)"

definition human_action :: "string option \<Rightarrow> runner_error \<Rightarrow> ustr" where
  "human_action exe e =
     (case sdk_action_of e of
        Some action \<Rightarrow> human_safe_scalar (chars action)
      | None \<Rightarrow>
          (let executable = human_runner_executable exe;
               action = human_safe_scalar (chars (re_action e))
           in if executable = asc non_copyable_runner_guidance
              then asc non_copyable_runner_guidance @ asc '' '' @ action
              else asc ''Use the exact runner invocation '' @ executable
                   @ asc '' for runner operations. '' @ action))"

definition source_lines :: "runner_error \<Rightarrow> ustr list" where
  "source_lines e =
     (case Option.bind (detail e ''source'') as_str of
        Some source \<Rightarrow> [asc ''Source: '' @ human_safe_scalar (chars source)]
      | None \<Rightarrow> if re_boundary e = ''configuration'' then [asc ''Source: unavailable''] else [])"

definition reason_lines :: "runner_error \<Rightarrow> ustr list" where
  "reason_lines e =
     (case Option.bind (detail e ''reason'') as_str of
        Some reason \<Rightarrow> [asc ''Detail: '' @ human_safe_detail (chars reason)]
      | None \<Rightarrow> if re_boundary e = ''configuration'' then [asc ''Detail: unavailable''] else [])"

definition recovery_lines :: "(string \<Rightarrow> bool) \<Rightarrow> string option \<Rightarrow> runner_error \<Rightarrow> ustr list" where
  "recovery_lines uuid_ok exe e =
     (case Option.bind (detail e ''cleanupArgv'') as_array of
        Some [a, b, c, d] \<Rightarrow>
          (case (as_str a, as_str b, as_str c, as_str d) of
             (Some a', Some b', Some c', Some handle) \<Rightarrow>
               (if a' = ''cli'' \<and> b' = ''cleanup'' \<and> c' = ''prime'' \<and> valid_recovery_handle uuid_ok handle
                then [asc ''Recovery: preserve the original temporary-root environment, then run: ''
                      @ human_runner_command exe (asc ''cli cleanup prime '' @ chars handle)]
                else [])
           | _ \<Rightarrow> [])
      | _ \<Rightarrow> [])"

text \<open>The lines \<open>Display\<close> writes, each after the first preceded by a line feed.\<close>

definition display_lines :: "(string \<Rightarrow> bool) \<Rightarrow> string option \<Rightarrow> runner_error \<Rightarrow> ustr list" where
  "display_lines uuid_ok exe e =
     [asc (as_code (re_code e)) @ asc '' at '' @ human_safe_scalar (chars (re_boundary e))
        @ asc '': '' @ human_safe_scalar (chars (re_message e))]
     @ source_lines e
     @ reason_lines e
     @ human_version_repair_details e
     @ [asc ''Action: '' @ human_action exe e]
     @ recovery_lines uuid_ok exe e"

definition display :: "(string \<Rightarrow> bool) \<Rightarrow> string option \<Rightarrow> runner_error \<Rightarrow> ustr" where
  "display uuid_ok exe e = join [10] (display_lines uuid_ok exe e)"

section \<open>The taxonomy is closed and its identifiers are unique\<close>

lemma all_codes_complete: "c \<in> set all_codes"
  by (cases c) (simp_all add: all_codes_def)

lemma from_code_as_code: "from_code (as_code c) = Some c"
  by (cases c) (simp_all add: from_code_def all_codes_def)

lemma from_code_sound: "from_code s = Some c \<Longrightarrow> as_code c = s"
  unfolding from_code_def by (auto simp: find_Some_iff)

interpretation code_names: canonical_codec as_code from_code "\<lambda>c. True"
  by unfold_locales (simp_all add: from_code_as_code from_code_sound)

lemma as_code_inj: "inj as_code"
  by (rule injI) (simp add: code_names.enc_inject)

instantiation error_code :: linorder
begin

definition less_eq_error_code :: "error_code \<Rightarrow> error_code \<Rightarrow> bool" where
  "less_eq_error_code c d \<longleftrightarrow> as_code c \<le> as_code d"

definition less_error_code :: "error_code \<Rightarrow> error_code \<Rightarrow> bool" where
  "less_error_code c d \<longleftrightarrow> as_code c < as_code d"

instance
  by intro_classes (auto simp: less_eq_error_code_def less_error_code_def dest: injD [OF as_code_inj])

end

lemma exit_code_range: "exit_code c \<in> {2, 10, 20, 21, 22, 23, 24, 25, 70}"
  by (cases c) simp_all

lemma catalog_simps [simp]:
  "re_code (catalog c) = c" "re_exit_code (catalog c) = exit_code c"
  "re_details (catalog c) = None" "re_schema (catalog c) = ''openprose.runner-error/1''"
  by (simp_all add: catalog_def new_error_def split: prod.splits)

lemma with_detail_simps [simp]:
  "re_code (with_detail e k v) = re_code e" "re_exit_code (with_detail e k v) = re_exit_code e"
  "re_boundary (with_detail e k v) = re_boundary e" "re_message (with_detail e k v) = re_message e"
  "re_action (with_detail e k v) = re_action e" "re_retryable (with_detail e k v) = re_retryable e"
  by (simp_all add: with_detail_def)

lemma detail_with_detail: "detail (with_detail e k v) k' = (if k' = k then Some v else detail e k')"
  by (simp add: detail_def with_detail_def bt.lookup_insert [simplified] bt_get_insert split: option.splits)

lemma detail_catalog [simp]: "detail (catalog c) k = None"
  by (simp add: detail_def)

lemma error_constructors:
  "re_code (config_error m) = ConfigInvalid" "detail (config_error m) ''reason'' = Some (JStr m)"
  "re_code (invocation_error m) = InvocationInvalid" "detail (invocation_error m) ''reason'' = Some (JStr m)"
  by (simp_all add: config_error_def invocation_error_def detail_with_detail)

section \<open>The human rendering keeps its lines\<close>

definition safe_line :: "ustr \<Rightarrow> bool" where
  "safe_line l \<longleftrightarrow> \<not> has_terminal_line_control l"

lemma safe_line_append [simp]: "safe_line (a @ b) \<longleftrightarrow> safe_line a \<and> safe_line b"
  by (simp add: safe_line_def has_terminal_line_control_def)

lemma safe_line_Nil [simp]: "safe_line []"
  by (simp add: safe_line_def has_terminal_line_control_def)

lemma safe_line_Cons: "safe_line (c # l) \<longleftrightarrow> \<not> line_control c \<and> safe_line l"
  by (simp add: safe_line_def has_terminal_line_control_def)

lemma safe_line_scalar [simp]: "safe_line (human_safe_scalar v)" "safe_line (human_safe_detail v)"
  by (simp_all add: safe_line_def human_safe_scalar_safe human_safe_detail_safe)

lemma safe_line_asc: "list_all printable s \<Longrightarrow> safe_line (asc s)"
  by (induction s) (auto simp: asc_def safe_line_Cons code_printable_no_control)

lemma safe_line_join: "safe_line sep \<Longrightarrow> (\<And>l. l \<in> set ls \<Longrightarrow> safe_line l) \<Longrightarrow> safe_line (join sep ls)"
  by (induction sep ls rule: join.induct) auto

lemma safe_line_no_lf: "safe_line l \<Longrightarrow> 10 \<notin> set l"
  by (auto simp: safe_line_def has_terminal_line_control_def list_ex_iff line_control_def is_control_def)

lemma safe_as_code [simp]: "safe_line (asc (as_code c))"
  by (rule safe_line_asc) (cases c; simp add: printable_def)

lemma safe_guidance [simp]: "safe_line (asc non_copyable_runner_guidance)"
  by (rule safe_line_asc) (simp add: non_copyable_runner_guidance_def printable_def)

lemma safe_shell_single_quote: "safe_line v \<Longrightarrow> safe_line (shell_single_quote v)"
proof -
  have q: "\<not> line_control 39" "\<not> line_control 92" by (simp_all add: printable_no_control)
  assume "safe_line v"
  then have "safe_line (concat (map (\<lambda>c. if c = 39 then [39, 92, 39, 39] else [c]) v))"
    by (induction v) (auto simp: safe_line_Cons q)
  then show ?thesis by (simp add: shell_single_quote_def safe_line_Cons q)
qed

lemma safe_executable [simp]: "safe_line (human_runner_executable exe)"
proof (cases exe)
  case None
  then show ?thesis by (simp add: human_runner_executable_def)
next
  case (Some path)
  then show ?thesis
    by (cases "has_terminal_line_control (chars path)")
      (simp_all add: human_runner_executable_def human_runner_executable_for_def
        safe_shell_single_quote safe_line_def [of "chars path"])
qed

lemmas safe_simps = safe_line_asc printable_def

lemma safe_command [simp]: "safe_line (human_runner_command exe args)"
proof (cases "human_runner_executable exe = asc non_copyable_runner_guidance \<or> has_terminal_line_control args")
  case True
  then show ?thesis by (simp add: human_runner_command_def Let_def)
next
  case False
  then show ?thesis
    by (simp add: human_runner_command_def Let_def safe_simps safe_line_def [of args])
qed

lemma safe_human_action [simp]: "safe_line (human_action exe e)"
  by (simp add: human_action_def Let_def safe_simps split: option.splits)

lemma safe_runtime_prerequisite: "\<forall>l \<in> set (runtime_prerequisite_lines m). safe_line l"
  unfolding runtime_prerequisite_lines_def by (auto simp: safe_simps split: option.splits)

lemma safe_repair_details: "\<forall>l \<in> set (human_version_repair_details e). safe_line l"
  unfolding human_version_repair_details_def
  by (auto simp: Let_def safe_simps safe_runtime_prerequisite intro!: safe_line_join split: option.splits)

lemma safe_source: "\<forall>l \<in> set (source_lines e). safe_line l"
  unfolding source_lines_def by (simp add: safe_simps split: option.split)

lemma safe_reason: "\<forall>l \<in> set (reason_lines e). safe_line l"
  unfolding reason_lines_def by (simp add: safe_simps split: option.split)

lemma safe_recovery: "\<forall>l \<in> set (recovery_lines uuid_ok exe e). safe_line l"
  unfolding recovery_lines_def by (auto simp: safe_simps split: option.splits list.splits)

lemma safe_display_lines: "\<forall>l \<in> set (display_lines uuid_ok exe e). safe_line l"
  unfolding display_lines_def
  by (simp add: ball_Un safe_source safe_reason safe_repair_details safe_recovery safe_simps)

section \<open>Properties\<close>

definition terminal_safe :: "ustr \<Rightarrow> bool" where
  "terminal_safe t = list_all (\<lambda>d. d = 10 \<or> \<not> line_control d) t"

definition display_labels :: "string list" where
  "display_labels = [''Source: '', ''Detail: '', ''Runtime prerequisite: '', ''Detected runtime version: '',
     ''Required runtime version: '', ''Repair: '', ''Detected version: '', ''Admitted versions: '',
     ''Action: '', ''Recovery: '']"

definition labelled :: "ustr \<Rightarrow> bool" where
  "labelled l = list_ex (\<lambda>p. starts_with (asc p) l) display_labels"

lemma labelled_append: "labelled l \<Longrightarrow> labelled (l @ m)"
  unfolding labelled_def list_ex_iff starts_with_iff by (metis append_assoc)

lemma labelled_labels:
  "labelled (asc ''Source: '')" "labelled (asc ''Detail: '')" "labelled (asc ''Runtime prerequisite: bun'')"
  "labelled (asc ''Detected runtime version: '')" "labelled (asc ''Required runtime version: >=1.3.14'')"
  "labelled (asc ''Repair: '')" "labelled (asc ''Detected version: '')" "labelled (asc ''Admitted versions: '')"
  "labelled (asc ''Action: '')" "labelled (asc ''Source: unavailable'')" "labelled (asc ''Detail: unavailable'')"
  "labelled (asc ''Recovery: preserve the original temporary-root environment, then run: '')"
  by (simp_all add: labelled_def display_labels_def starts_with_def asc_def)

lemmas labelled_simps = labelled_labels labelled_append [OF labelled_labels(1)]
  labelled_append [OF labelled_labels(2)] labelled_append [OF labelled_labels(4)]
  labelled_append [OF labelled_labels(6)] labelled_append [OF labelled_labels(7)]
  labelled_append [OF labelled_labels(8)] labelled_append [OF labelled_labels(9)]
  labelled_append [OF labelled_labels(12)]

lemma labelled_runtime: "\<forall>l \<in> set (runtime_prerequisite_lines m). labelled l"
  unfolding runtime_prerequisite_lines_def by (auto simp: labelled_simps split: option.splits)

lemma labelled_repair: "\<forall>l \<in> set (human_version_repair_details e). labelled l"
  unfolding human_version_repair_details_def
  by (auto simp: Let_def labelled_simps labelled_runtime split: option.splits)

lemma labelled_rest: "\<forall>l \<in> set (source_lines e @ reason_lines e). labelled l"
  unfolding source_lines_def reason_lines_def by (auto simp: labelled_simps split: option.splits)

lemma labelled_recovery: "\<forall>l \<in> set (recovery_lines uuid_ok exe e). labelled l"
  unfolding recovery_lines_def by (auto simp: labelled_simps split: option.splits list.splits)

lemma labelled_display_lines: "\<forall>l \<in> set (tl (display_lines uuid_ok exe e)). labelled l"
  unfolding display_lines_def using labelled_rest [of e]
  by (auto simp: labelled_simps labelled_repair labelled_recovery)

lemma set_join: "set (join sep ls) \<subseteq> set sep \<union> (\<Union>l \<in> set ls. set l)"
  by (induction sep ls rule: join.induct) auto

text \<open>
  Property C1. However hostile the message, the reason, the source, the version strings or the
  executable's path of an error are, its human rendering contains no control character but its own
  line feeds, splits into exactly the lines the renderer wrote, and every line after the
  first starts with one of the renderer's labels, so no dynamic value can forge a line.
\<close>

theorem display_cannot_be_injected:
  "terminal_safe (display uuid_ok exe e)
   \<and> split_on (\<lambda>d. d = 10) (display uuid_ok exe e) = display_lines uuid_ok exe e
   \<and> list_all labelled (tl (split_on (\<lambda>d. d = 10) (display uuid_ok exe e)))"
proof -
  let ?ls = "display_lines uuid_ok exe e"
  have safe: "\<forall>l \<in> set ?ls. safe_line l" by (rule safe_display_lines)
  have "?ls \<noteq> []" by (simp add: display_lines_def)
  then have split: "split_on (\<lambda>d. d = 10) (display uuid_ok exe e) = ?ls"
    unfolding display_def using safe safe_line_no_lf by (intro split_on_join) auto
  have "d = 10 \<or> \<not> line_control d" if "d \<in> set (display uuid_ok exe e)" for d
    using that set_join [of "[10]" ?ls] safe
    by (auto simp: display_def safe_line_def has_terminal_line_control_def list_ex_iff)
  with split show ?thesis
    by (simp add: terminal_safe_def list_all_iff labelled_display_lines)
qed

text \<open>
  The visible notation of control characters is unambiguous: two values that render
  alike on a human line are the same value.
\<close>

theorem human_safe_unambiguous: "human_safe_scalar v = human_safe_scalar w \<longleftrightarrow> v = w"
  by (simp add: human_safe_scalar_def human_safe_inject)

text \<open>
  A quoted user value is one JSON string literal that reads back as that value
  whatever follows it, and contains none of the characters the quoting is there to escape.
\<close>

theorem quote_reads_back:
  "json_literal (quote (chars value) @ rest) = Some (chars value, rest)
   \<and> \<not> list_ex quote_escapes (quote (chars value))"
  by (auto simp: json_literal_quote list_ex_iff dest: quote_visible)

text \<open>
  The copyable command names the running executable as one shell word that a POSIX
  shell reads back to exactly its path, or is the fixed guidance when the path has controls.
\<close>

theorem executable_is_one_shell_word:
  "human_runner_executable (Some path) =
     (if has_terminal_line_control (chars path) then asc non_copyable_runner_guidance
      else shell_single_quote (chars path))
   \<and> sh_word False (shell_single_quote (chars path)) = Some (chars path)"
  by (simp add: human_runner_executable_def human_runner_executable_for_def sh_word_shell_single_quote)

text \<open>
  The identifiers of the taxonomy are a bijection with its codes: a string parses to
  a code exactly when it is that code's identifier, and the catalogue entry of a code carries
  that code and its exit code.
\<close>

theorem taxonomy_identifiers:
  "(from_code s = Some c) = (as_code c = s)
   \<and> re_code (catalog c) = c \<and> re_exit_code (catalog c) = exit_code c
   \<and> exit_code c \<in> {2, 10, 20, 21, 22, 23, 24, 25, 70}"
  using code_names.dec_iff [of s c] exit_code_range [of c] by simp

end
