(* ===== verification/Sse.thy ===== *)
theory Sse
  imports Errors
begin

text \<open>
  The server-sent events reader of \<open>service/sse.rs\<close>: the chunk sources (the recorded frames of a
  fixture, and the helper thread's channel under an idle timeout), the writer of fixture frames and
  the pull parser.  The cancellation token is \<open>cancelled n\<close>, the answer of the \<open>n\<close>-th query the reader
  makes; a JSON value's text (\<open>serde_json\<close>) is the argument \<open>to_text\<close>.
\<close>

section \<open>Items and chunks\<close>

record sse_event =
  ev_id :: "string option"
  ev_event :: string
  ev_data :: string

datatype stream_end = Closed | Disconnected | Idle

datatype sse_item = Event sse_event | End stream_end

datatype chunk = Data string | ChunkEnd stream_end

text \<open>The characters \<open>b':'\<close> and \<open>' '\<close>.\<close>

definition COLON :: char where "COLON = CHR 0x3A"
definition SPC :: char where "SPC = CHR 0x20"

lemmas sse_chars = LF_def CR_def COLON_def SPC_def

section \<open>The network source\<close>

text \<open>
  One turn of the loop of \<open>ThreadSource::next_chunk\<close>: whether the token was cancelled, whether the
  idle deadline had passed, and what \<open>recv_timeout\<close> returned.
\<close>

datatype received = RecvBytes string | RecvErr bool \<comment> \<open>timed out or would block\<close> | RecvTimeout | RecvGone

record poll =
  p_cancelled :: bool
  p_expired :: bool
  p_received :: received

fun thread_next_chunk :: "poll list \<Rightarrow> (chunk \<times> poll list) option" where
  "thread_next_chunk [] = None"
| "thread_next_chunk (p # ps) =
     (if p_cancelled p then Some (ChunkEnd Disconnected, ps)
      else if p_expired p then Some (ChunkEnd Idle, ps)
      else case p_received p of
          RecvBytes bytes \<Rightarrow> Some (if bytes = [] then ChunkEnd Closed else Data bytes, ps)
        | RecvErr timed_out \<Rightarrow> Some (ChunkEnd (if timed_out then Idle else Disconnected), ps)
        | RecvGone \<Rightarrow> Some (ChunkEnd Disconnected, ps)
        | RecvTimeout \<Rightarrow> thread_next_chunk ps)"

section \<open>The fixture source\<close>

text \<open>Frames, then the recorded end; \<open>hook\<close> is \<open>on_complete\<close> still to run, \<open>hooked\<close> counts its runs.\<close>

record fixture_source =
  frames :: "string list"
  source_end :: stream_end
  hook :: bool
  hooked :: nat

definition new_fixture_source :: "string list \<Rightarrow> stream_end \<Rightarrow> fixture_source" where
  "new_fixture_source fs e = \<lparr>frames = fs, source_end = e, hook = True, hooked = 0\<rparr>"

definition fixture_next_chunk :: "fixture_source \<Rightarrow> chunk \<times> fixture_source" where
  "fixture_next_chunk s =
     (case frames s of
        f # fs \<Rightarrow> (Data f, s\<lparr>frames := fs\<rparr>)
      | [] \<Rightarrow> (ChunkEnd (source_end s),
               if hook s then s\<lparr>hook := False, hooked := Suc (hooked s)\<rparr> else s))"

section \<open>Writing fixture frames\<close>

definition sse_field :: "string \<Rightarrow> string \<Rightarrow> string" where
  "sse_field name value = name @ '': '' @ value @ [LF]"

definition opt_field :: "string \<Rightarrow> json \<Rightarrow> string" where
  "opt_field name v = (case as_str v of Some s \<Rightarrow> sse_field name s | None \<Rightarrow> [])"

definition frame_bytes :: "(json \<Rightarrow> string) \<Rightarrow> json \<Rightarrow> string" where
  "frame_bytes to_text frame =
     (case as_str (jidx frame ''raw'') of
        Some raw \<Rightarrow> raw
      | None \<Rightarrow>
          opt_field [] (jidx frame ''comment'')
          @ opt_field ''id'' (jidx frame ''id'')
          @ opt_field ''event'' (jidx frame ''event'')
          @ (case jget frame ''data'' of
               Some (JStr data) \<Rightarrow> concat (map (sse_field ''data'') (split_on (\<lambda>c. c = LF) data))
             | Some value \<Rightarrow> sse_field ''data'' (to_text value)
             | None \<Rightarrow> [])
          @ [LF])"

definition fixture_bytes :: "(json \<Rightarrow> string) \<Rightarrow> json \<Rightarrow> string list" where
  "fixture_bytes to_text fs = (case as_array fs of Some vs \<Rightarrow> map (frame_bytes to_text) vs | None \<Rightarrow> [])"

section \<open>The pull parser\<close>

record sse_reader =
  source :: fixture_source
  max_event :: nat
  pending :: string
  rd_id :: "string option"
  rd_event :: "string option"
  rd_data :: "string option"
  ended :: "stream_end option"
  queries :: nat \<comment> \<open>how often the cancellation token was read\<close>

definition new_sse_reader :: "fixture_source \<Rightarrow> nat \<Rightarrow> sse_reader" where
  "new_sse_reader src limit =
     \<lparr>source = src, max_event = limit, pending = [], rd_id = None, rd_event = None, rd_data = None,
      ended = None, queries = 0\<rparr>"

definition field_value :: "string \<Rightarrow> string \<times> string" where
  "field_value txt =
     (case split_once COLON txt of
        Some (f, v) \<Rightarrow> (f, case strip_prefix [SPC] v of Some v' \<Rightarrow> v' | None \<Rightarrow> v)
      | None \<Rightarrow> (txt, []))"

definition data_size :: "string option \<Rightarrow> nat" where
  "data_size d = (case d of None \<Rightarrow> 0 | Some s \<Rightarrow> length s + 1)"

definition add_data :: "string option \<Rightarrow> string \<Rightarrow> string" where
  "add_data d v = (case d of Some s \<Rightarrow> s @ [LF] @ v | None \<Rightarrow> v)"

text \<open>\<open>SseReader::line\<close>.\<close>

definition sse_line :: "string \<Rightarrow> sse_reader \<Rightarrow> (runner_error + sse_event option) \<times> sse_reader" where
  "sse_line l r =
     (if l = [] then
        (Inr (map_option (\<lambda>d. \<lparr>ev_id = rd_id r,
              ev_event = (case rd_event r of Some e \<Rightarrow> e | None \<Rightarrow> ''message''), ev_data = d\<rparr>) (rd_data r)),
         r\<lparr>rd_event := None, rd_id := None, rd_data := None\<rparr>)
      else if hd l = COLON then (Inr None, r)
      else if \<not> valid_utf8 l then (Inl (catalog ServiceProtocolInvalid), r)
      else case field_value l of (field, v) \<Rightarrow>
        if field = ''event'' then (Inr None, r\<lparr>rd_event := Some v\<rparr>)
        else if field = ''id'' \<and> CHR 0x00 \<notin> set v then (Inr None, r\<lparr>rd_id := Some v\<rparr>)
        else if field = ''data'' then
          (if max_event r < data_size (rd_data r) + length v
           then (Inl (catalog ServiceResponseTooLarge), r)
           else (Inr None, r\<lparr>rd_data := Some (add_data (rd_data r) v)\<rparr>))
        else (Inr None, r))"

text \<open>Reading the token counts the query.\<close>

definition query :: "sse_reader \<Rightarrow> sse_reader" where
  "query r = r\<lparr>queries := Suc (queries r)\<rparr>"

text \<open>\<open>SseReader::next_item\<close>; the result on the left is the error it returns.\<close>

function (sequential) next_item ::
  "(nat \<Rightarrow> bool) \<Rightarrow> sse_reader \<Rightarrow> (runner_error + sse_item) \<times> sse_reader" where
  "next_item cancelled r =
     (if cancelled (queries r) then (Inl (catalog Cancelled), query r)
      else case split_once LF (pending r) of
        Some (l, rest) \<Rightarrow>
          (case sse_line (drop_cr l) ((query r)\<lparr>pending := rest\<rparr>) of
             (Inl e, r') \<Rightarrow> (Inl e, r')
           | (Inr (Some ev), r') \<Rightarrow> (Inr (Event ev), r')
           | (Inr None, r') \<Rightarrow> next_item cancelled r')
      | None \<Rightarrow>
          if max_event r + 64 < length (pending r) then (Inl (catalog ServiceResponseTooLarge), query r)
          else case ended r of
            Some e \<Rightarrow> (Inr (End e), query r)
          | None \<Rightarrow>
              (case fixture_next_chunk (source r) of
                 (Data bytes, src) \<Rightarrow>
                   next_item cancelled ((query r)\<lparr>source := src, pending := pending r @ bytes\<rparr>)
               | (ChunkEnd e, src) \<Rightarrow>
                   if cancelled (Suc (queries r))
                   then (Inl (catalog Cancelled), (query (query r))\<lparr>source := src\<rparr>)
                   else next_item cancelled
                     ((query (query r))\<lparr>source := src, pending := [], ended := Some e\<rparr>)))"
  by pat_completeness auto

lemma sse_line_frame [simp]:
  "source (snd (sse_line l r)) = source r" "pending (snd (sse_line l r)) = pending r"
  "ended (snd (sse_line l r)) = ended r" "max_event (snd (sse_line l r)) = max_event r"
  "queries (snd (sse_line l r)) = queries r"
  by (auto simp: sse_line_def split: prod.splits)

lemma query_simps [simp]:
  "source (query r) = source r" "pending (query r) = pending r" "ended (query r) = ended r"
  "max_event (query r) = max_event r" "rd_id (query r) = rd_id r" "rd_event (query r) = rd_event r"
  "rd_data (query r) = rd_data r"
  by (simp_all add: query_def)

definition sse_work :: "sse_reader \<Rightarrow> nat" where
  "sse_work r = length (frames (source r)) + (if ended r = None then 1 else 0)"

lemma split_once_shorter: "split_once c s = Some (a, b) \<Longrightarrow> length b < length s"
  by (simp add: split_once_Some)

lemma sse_line_keeps:
  assumes "sse_line l r = (x, r')"
  shows "source r' = source r \<and> pending r' = pending r \<and> ended r' = ended r
    \<and> max_event r' = max_event r \<and> queries r' = queries r"
  using sse_line_frame [of l r] by (simp add: assms)

termination next_item
  by (relation "measures [sse_work \<circ> snd, length \<circ> pending \<circ> snd]")
    (auto simp: sse_work_def fixture_next_chunk_def dest!: sse_line_keeps [OF sym] split_once_shorter
      split: list.splits if_splits)

declare next_item.simps [simp del]

text \<open>Successive calls, each on the state the one before left.\<close>

fun sse_calls :: "(nat \<Rightarrow> bool) \<Rightarrow> nat \<Rightarrow> sse_reader \<Rightarrow> (runner_error + sse_item) list" where
  "sse_calls cancelled 0 r = []"
| "sse_calls cancelled (Suc n) r =
     (case next_item cancelled r of (x, r') \<Rightarrow> x # sse_calls cancelled n r')"

section \<open>Event size\<close>

definition reader_ok :: "sse_reader \<Rightarrow> bool" where
  "reader_ok r = opt_all (\<lambda>d. length d \<le> max_event r) (rd_data r)"

definition item_ok :: "nat \<Rightarrow> runner_error + sse_item \<Rightarrow> bool" where
  "item_ok limit x = (case x of Inr (Event ev) \<Rightarrow> length (ev_data ev) \<le> limit | _ \<Rightarrow> True)"

lemma reader_ok_frame [simp]:
  "reader_ok (query r) = reader_ok r" "reader_ok (r\<lparr>pending := p\<rparr>) = reader_ok r"
  "reader_ok (r\<lparr>source := s\<rparr>) = reader_ok r" "reader_ok (r\<lparr>ended := e\<rparr>) = reader_ok r"
  by (simp_all add: reader_ok_def query_def)

lemma sse_line_ok:
  assumes "reader_ok r" and "sse_line l r = (x, r')"
  shows "reader_ok r'" "x = Inr (Some ev) \<Longrightarrow> length (ev_data ev) \<le> max_event r"
  using assms
  by (auto simp: sse_line_def reader_ok_def data_size_def add_data_def split: if_splits prod.splits option.splits)

lemma next_item_ok:
  "\<lbrakk>reader_ok r; next_item cancelled r = (x, r')\<rbrakk>
    \<Longrightarrow> reader_ok r' \<and> max_event r' = max_event r \<and> item_ok (max_event r) x"
proof (induction cancelled r rule: next_item.induct)
  case (1 cancelled r)
  note step = next_item.simps [of cancelled r]
  show ?case
  proof (cases "cancelled (queries r)")
    case True
    with 1 step show ?thesis by (auto simp: item_ok_def)
  next
    case alive: False
    show ?thesis
    proof (cases "split_once LF (pending r)")
      case some: (Some lr)
      obtain l rest where lr: "lr = (l, rest)" by (cases lr)
      let ?r1 = "(query r)\<lparr>pending := rest\<rparr>"
      obtain y r2 where y: "sse_line (drop_cr l) ?r1 = (y, r2)" by (cases "sse_line (drop_cr l) ?r1")
      have ok: "reader_ok ?r1" using "1.prems" by simp
      note kept = sse_line_keeps [OF y]
      show ?thesis
      proof (cases y)
        case (Inl e)
        with alive some lr y step "1.prems" kept sse_line_ok(1) [OF ok y] show ?thesis
          by (auto simp: item_ok_def)
      next
        case (Inr o1)
        show ?thesis
        proof (cases o1)
          case None
          with Inr alive some lr y step "1.prems" kept sse_line_ok(1) [OF ok y]
            "1.IH"(3) [OF alive some lr [symmetric] y [symmetric] Inr None]
          show ?thesis by auto
        next
          case (Some ev)
          with Inr alive some lr y step "1.prems" kept
            sse_line_ok(1) [OF ok y] sse_line_ok(2) [OF ok y, of ev]
          show ?thesis by (auto simp: item_ok_def)
        qed
      qed
    next
      case None
      with alive step 1 show ?thesis
        by (auto simp: item_ok_def split: if_splits option.splits prod.splits chunk.splits)
    qed
  qed
qed

lemma sse_calls_ok:
  "reader_ok r \<Longrightarrow> list_all (item_ok (max_event r)) (sse_calls cancelled n r)"
proof (induction n arbitrary: r)
  case 0
  show ?case by simp
next
  case (Suc n)
  obtain x r' where x: "next_item cancelled r = (x, r')" by (cases "next_item cancelled r")
  with next_item_ok [OF Suc.prems x] Suc.IH [of r'] show ?case by simp
qed

section \<open>What was written is read back\<close>

text \<open>
  What a reader has still to see: its collected fields, and the bytes pending and to come.
\<close>

abbreviation never :: "nat \<Rightarrow> bool" where "never \<equiv> (\<lambda>_. False)"

type_synonym collected = "string option \<times> string option \<times> string option"

definition sees :: "nat \<Rightarrow> stream_end \<Rightarrow> collected \<Rightarrow> string \<Rightarrow> sse_reader \<Rightarrow> bool" where
  "sees limit e st inp r \<longleftrightarrow>
     max_event r = limit \<and> ended r = None \<and> (rd_id r, rd_event r, rd_data r) = st
     \<and> pending r @ concat (frames (source r)) = inp \<and> source_end (source r) = e"

lemma sees_query [simp]: "sees limit e st inp (query r) = sees limit e st inp r"
  by (simp add: sees_def)

lemma split_once_unique:
  "\<lbrakk>a @ c # b = l @ c # rest; c \<notin> set a; c \<notin> set l\<rbrakk> \<Longrightarrow> a = l \<and> b = rest"
  by (metis option.inject prod.inject split_once_append)

lemma fixture_pull:
  assumes "split_once LF (pending r) = None" "length (pending r) \<le> max_event r + 64" "ended r = None"
    and "frames (source r) = f # fs"
  shows "next_item never r =
    next_item never ((query r)\<lparr>source := (source r)\<lparr>frames := fs\<rparr>, pending := pending r @ f\<rparr>)"
  using assms by (subst next_item.simps) (simp add: fixture_next_chunk_def)

lemma sees_pull:
  assumes "sees limit e st (l @ LF # rest) r" "LF \<notin> set l" "length l \<le> limit + 64"
  shows "\<exists>r1 p. next_item never r = next_item never r1 \<and> sees limit e st (l @ LF # rest) r1
    \<and> pending r1 = l @ LF # p \<and> rest = p @ concat (frames (source r1))"
  using assms
proof (induction "frames (source r)" arbitrary: r)
  case Nil
  then show ?case by (intro exI [of _ r] exI [of _ rest]) (auto simp: sees_def)
next
  case (Cons f fs)
  show ?case
  proof (cases "split_once LF (pending r)")
    case (Some ab)
    obtain a b where ab: "ab = (a, b)" by (cases ab)
    with Some have p: "pending r = a @ LF # b" "LF \<notin> set a" by (auto simp: split_once_Some)
    with Cons.prems have "a @ LF # (b @ concat (frames (source r))) = l @ LF # rest"
      by (simp add: sees_def)
    then have "a = l" "rest = b @ concat (frames (source r))"
      using p(2) Cons.prems(2) by (auto dest: split_once_unique)
    with p Cons.prems show ?thesis by (intro exI [of _ r] exI [of _ b]) simp
  next
    case None
    then have free: "LF \<notin> set (pending r)" by (simp add: split_once_None)
    have "length (pending r) \<le> length l"
    proof (rule ccontr)
      assume long: "\<not> ?thesis"
      have "(pending r @ concat (frames (source r))) ! length l = LF"
        using Cons.prems(1) by (simp add: sees_def)
      with long free show False by (simp add: nth_append) (metis not_le nth_mem)
    qed
    moreover have "max_event r = limit" "ended r = None" using Cons.prems(1) by (auto simp: sees_def)
    ultimately have pull: "next_item never r = next_item never
        ((query r)\<lparr>source := (source r)\<lparr>frames := fs\<rparr>, pending := pending r @ f\<rparr>)" (is "_ = next_item never ?r2")
      using None Cons.prems(3) Cons.hyps(2) by (intro fixture_pull) auto
    have "sees limit e st (l @ LF # rest) ?r2"
      using Cons.prems(1) Cons.hyps(2) [symmetric] by (simp add: sees_def)
    from Cons.hyps(1) [OF _ this Cons.prems(2,3)] pull show ?thesis by simp
  qed
qed

text \<open>A complete line is handed to \<open>sse_line\<close>.\<close>

lemma sees_line:
  assumes "sees limit e st (l @ LF # rest) r" "LF \<notin> set l" "length l \<le> limit + 64"
  shows "\<exists>r1. sees limit e st rest r1 \<and> next_item never r =
    (case sse_line (drop_cr l) r1 of
       (Inl err, r') \<Rightarrow> (Inl err, r')
     | (Inr (Some ev), r') \<Rightarrow> (Inr (Event ev), r')
     | (Inr None, r') \<Rightarrow> next_item never r')"
proof -
  obtain r1 p where r1: "next_item never r = next_item never r1" "sees limit e st (l @ LF # rest) r1"
    "pending r1 = l @ LF # p" "rest = p @ concat (frames (source r1))"
    using sees_pull [OF assms] by blast
  have "sees limit e st rest ((query r1)\<lparr>pending := p\<rparr>)"
    using r1(2,4) by (simp add: sees_def)
  moreover have "split_once LF (pending r1) = Some (l, p)" using r1(3) assms(2) by simp
  ultimately show ?thesis
    by (intro exI [of _ "(query r1)\<lparr>pending := p\<rparr>"]) (simp add: r1(1) next_item.simps [of never r1])
qed

text \<open>The lines a frame consists of.\<close>

lemma field_line:
  assumes "valid_utf8 v" "is_ascii name" "COLON \<notin> set name" "name \<noteq> []" "v = [] \<or> last v \<noteq> CR"
  shows "drop_cr (name @ '': '' @ v) = name @ '': '' @ v" "valid_utf8 (name @ '': '' @ v)"
    "hd (name @ '': '' @ v) \<noteq> COLON" "field_value (name @ '': '' @ v) = (name, v)"
proof -
  show "drop_cr (name @ '': '' @ v) = name @ '': '' @ v"
    using assms(5) by (auto simp: drop_cr_def sse_chars)
  have "is_ascii (name @ '': '')" using assms(2) by (simp add: is_ascii_def)
  from valid_utf8_append(1) [OF valid_utf8_ascii [OF this] assms(1)]
  show "valid_utf8 (name @ '': '' @ v)" by simp
  show "hd (name @ '': '' @ v) \<noteq> COLON" using assms(3,4) by (cases name) auto
  show "field_value (name @ '': '' @ v) = (name, v)"
    using assms(3) split_once_append [of COLON name "CHR 0x20 # v"]
    by (simp add: field_value_def strip_prefix_def starts_with_def sse_chars)
qed

definition line_safe :: "nat \<Rightarrow> string \<Rightarrow> bool" where
  "line_safe limit v \<longleftrightarrow>
     valid_utf8 v \<and> LF \<notin> set v \<and> (v = [] \<or> last v \<noteq> CR) \<and> length v \<le> limit"

lemma read_field:
  assumes "sees limit e (i, t, d) (sse_field name v @ rest) r" "line_safe limit v"
    and "is_ascii name" "COLON \<notin> set name" "name \<noteq> []" "LF \<notin> set name" "length name \<le> 62"
  shows "\<exists>r1. sees limit e (i, t, d) rest r1 \<and> next_item never r =
    (case sse_line (name @ '': '' @ v) r1 of
       (Inl err, r') \<Rightarrow> (Inl err, r')
     | (Inr (Some ev), r') \<Rightarrow> (Inr (Event ev), r')
     | (Inr None, r') \<Rightarrow> next_item never r')"
proof -
  have a: "sees limit e (i, t, d) ((name @ '': '' @ v) @ LF # rest) r"
    using assms(1) by (simp add: sse_field_def)
  have b: "LF \<notin> set (name @ '': '' @ v)" "length (name @ '': '' @ v) \<le> limit + 64"
    using assms(2,6,7) by (auto simp: line_safe_def sse_chars)
  have c: "drop_cr (name @ '': '' @ v) = name @ '': '' @ v"
    using assms(2-5) by (intro field_line) (auto simp: line_safe_def)
  show ?thesis using sees_line [OF a b] unfolding c .
qed

lemma sse_line_field:
  assumes "line_safe limit v"
  shows "CHR 0x00 \<notin> set v \<Longrightarrow> sse_line (''id'' @ '': '' @ v) r = (Inr None, r\<lparr>rd_id := Some v\<rparr>)"
    and "sse_line (''event'' @ '': '' @ v) r = (Inr None, r\<lparr>rd_event := Some v\<rparr>)"
    and "data_size (rd_data r) + length v \<le> max_event r
      \<Longrightarrow> sse_line (''data'' @ '': '' @ v) r = (Inr None, r\<lparr>rd_data := Some (add_data (rd_data r) v)\<rparr>)"
proof -
  have v: "valid_utf8 v" "v = [] \<or> last v \<noteq> CR" using assms by (auto simp: line_safe_def)
  have n: "is_ascii ''id''" "COLON \<notin> set ''id''" "is_ascii ''event''" "COLON \<notin> set ''event''"
    "is_ascii ''data''" "COLON \<notin> set ''data''"
    by (simp_all add: is_ascii_def COLON_def)
  note f = field_line [OF v(1) n(1,2) _ v(2)] field_line [OF v(1) n(3,4) _ v(2)]
    field_line [OF v(1) n(5,6) _ v(2)]
  show "CHR 0x00 \<notin> set v \<Longrightarrow> sse_line (''id'' @ '': '' @ v) r = (Inr None, r\<lparr>rd_id := Some v\<rparr>)"
    using f(1-4) by (simp add: sse_line_def)
  show "sse_line (''event'' @ '': '' @ v) r = (Inr None, r\<lparr>rd_event := Some v\<rparr>)"
    using f(5-8) by (simp add: sse_line_def)
  show "data_size (rd_data r) + length v \<le> max_event r
      \<Longrightarrow> sse_line (''data'' @ '': '' @ v) r = (Inr None, r\<lparr>rd_data := Some (add_data (rd_data r) v)\<rparr>)"
    using f(9-12) by (simp add: sse_line_def)
qed

lemma field_names:
  "is_ascii ''id''" "COLON \<notin> set ''id''" "''id'' \<noteq> []" "LF \<notin> set ''id''" "length ''id'' \<le> 62"
  "is_ascii ''event''" "COLON \<notin> set ''event''" "''event'' \<noteq> []" "LF \<notin> set ''event''" "length ''event'' \<le> 62"
  "is_ascii ''data''" "COLON \<notin> set ''data''" "''data'' \<noteq> []" "LF \<notin> set ''data''" "length ''data'' \<le> 62"
  by (simp_all add: is_ascii_def sse_chars)

lemma read_id:
  assumes "sees limit e (i, t, d) (sse_field ''id'' v @ rest) r" "line_safe limit v" "CHR 0x00 \<notin> set v"
  shows "\<exists>r1. sees limit e (Some v, t, d) rest r1 \<and> next_item never r = next_item never r1"
proof -
  obtain r1 where "sees limit e (i, t, d) rest r1" "next_item never r = next_item never (r1\<lparr>rd_id := Some v\<rparr>)"
    using read_field [OF assms(1,2) field_names(1-5)] unfolding sse_line_field(1) [OF assms(2,3)] by auto
  then show ?thesis by (intro exI [of _ "r1\<lparr>rd_id := Some v\<rparr>"]) (simp add: sees_def)
qed

lemma read_event:
  assumes "sees limit e (i, t, d) (sse_field ''event'' v @ rest) r" "line_safe limit v"
  shows "\<exists>r1. sees limit e (i, Some v, d) rest r1 \<and> next_item never r = next_item never r1"
proof -
  obtain r1 where "sees limit e (i, t, d) rest r1" "next_item never r = next_item never (r1\<lparr>rd_event := Some v\<rparr>)"
    using read_field [OF assms field_names(6-10)] unfolding sse_line_field(2) [OF assms(2)] by auto
  then show ?thesis by (intro exI [of _ "r1\<lparr>rd_event := Some v\<rparr>"]) (simp add: sees_def)
qed

lemma read_data:
  assumes "sees limit e (i, t, d) (sse_field ''data'' v @ rest) r" "line_safe limit v"
    and "data_size d + length v \<le> limit"
  shows "\<exists>r1. sees limit e (i, t, Some (add_data d v)) rest r1 \<and> next_item never r = next_item never r1"
proof -
  obtain r1 where r1: "sees limit e (i, t, d) rest r1" "next_item never r =
    (case sse_line (''data'' @ '': '' @ v) r1 of
       (Inl err, r') \<Rightarrow> (Inl err, r')
     | (Inr (Some ev), r') \<Rightarrow> (Inr (Event ev), r')
     | (Inr None, r') \<Rightarrow> next_item never r')"
    using read_field [OF assms(1,2) field_names(11-15)] by blast
  have "data_size (rd_data r1) + length v \<le> max_event r1"
    using r1(1) assms(3) by (auto simp: sees_def)
  with r1 show ?thesis unfolding sse_line_field(3) [OF assms(2) \<open>data_size (rd_data r1) + length v \<le> max_event r1\<close>]
    by (intro exI [of _ "r1\<lparr>rd_data := Some (add_data d v)\<rparr>"]) (auto simp: sees_def)
qed

lemma read_blank:
  assumes "sees limit e (i, t, Some d) (LF # rest) r"
  shows "\<exists>r1. sees limit e (None, None, None) rest r1 \<and> next_item never r =
    (Inr (Event \<lparr>ev_id = i, ev_event = (case t of Some x \<Rightarrow> x | None \<Rightarrow> ''message''), ev_data = d\<rparr>), r1)"
proof -
  obtain r1 where "sees limit e (i, t, Some d) rest r1" "next_item never r =
    (case sse_line (drop_cr []) r1 of
       (Inl err, r') \<Rightarrow> (Inl err, r')
     | (Inr (Some ev), r') \<Rightarrow> (Inr (Event ev), r')
     | (Inr None, r') \<Rightarrow> next_item never r')"
    using sees_line [of limit e "(i, t, Some d)" "[]" rest r] assms by auto
  then show ?thesis
    by (intro exI [of _ "r1\<lparr>rd_event := None, rd_id := None, rd_data := None\<rparr>"])
      (auto simp: sse_line_def sees_def drop_cr_def)
qed

lemma read_data_lines:
  assumes "sees limit e (i, t, Some s) (concat (map (sse_field ''data'') ps) @ rest) r"
    and "list_all (line_safe limit) ps" "length (s @ concat (map (\<lambda>p. [LF] @ p) ps)) \<le> limit"
  shows "\<exists>r1. sees limit e (i, t, Some (s @ concat (map (\<lambda>p. [LF] @ p) ps))) rest r1
    \<and> next_item never r = next_item never r1"
  using assms
proof (induction ps arbitrary: s r)
  case Nil
  then show ?case by auto
next
  case (Cons p ps)
  obtain r1 where r1: "sees limit e (i, t, Some (add_data (Some s) p)) (concat (map (sse_field ''data'') ps) @ rest) r1"
    "next_item never r = next_item never r1"
    using read_data [of limit e i t "Some s" p "concat (map (sse_field ''data'') ps) @ rest" r] Cons.prems
    by (auto simp: data_size_def)
  moreover have "length ((s @ [LF] @ p) @ concat (map (\<lambda>p. [LF] @ p) ps)) \<le> limit"
    using Cons.prems(3) by simp
  ultimately show ?case
    using Cons.IH [of "s @ [LF] @ p" r1] Cons.prems(2) by (auto simp: add_data_def)
qed

lemma read_data_field:
  assumes "sees limit e (i, t, None) (concat (map (sse_field ''data'') (split_on (\<lambda>c. c = LF) d)) @ rest) r"
    and "list_all (line_safe limit) (split_on (\<lambda>c. c = LF) d)" "length d \<le> limit"
  shows "\<exists>r1. sees limit e (i, t, Some d) rest r1 \<and> next_item never r = next_item never r1"
proof -
  obtain p ps where ps: "split_on (\<lambda>c. c = LF) d = p # ps"
    by (cases "split_on (\<lambda>c. c = LF) d") auto
  have d: "p @ concat (map (\<lambda>y. [LF] @ y) ps) = d"
    using join_split_on [of LF d] by (simp only: ps join_Cons)
  have "data_size None + length p \<le> limit"
    using assms(3) d [symmetric] by (simp add: data_size_def)
  moreover have "line_safe limit p" using assms(2) ps by simp
  moreover have "sees limit e (i, t, None) (sse_field ''data'' p @ concat (map (sse_field ''data'') ps) @ rest) r"
    using assms(1) ps by simp
  ultimately obtain r1 where r1: "sees limit e (i, t, Some p) (concat (map (sse_field ''data'') ps) @ rest) r1"
    "next_item never r = next_item never r1"
    using read_data by (metis add_data_def option.case(1))
  then show ?thesis
    using read_data_lines [OF r1(1)] assms(2,3) ps d by auto
qed

text \<open>The frame a fixture records for an event, and the events such a frame carries faithfully.\<close>

definition event_json :: "sse_event \<Rightarrow> json" where
  "event_json ev = JObj ([(''data'', JStr (ev_data ev)), (''event'', JStr (ev_event ev))]
     @ (case ev_id ev of Some i \<Rightarrow> [(''id'', JStr i)] | None \<Rightarrow> []))"

definition event_safe :: "nat \<Rightarrow> sse_event \<Rightarrow> bool" where
  "event_safe limit ev \<longleftrightarrow>
     line_safe limit (ev_event ev) \<and> length (ev_data ev) \<le> limit
     \<and> list_all (line_safe limit) (split_on (\<lambda>c. c = LF) (ev_data ev))
     \<and> opt_all (\<lambda>i. line_safe limit i \<and> CHR 0x00 \<notin> set i) (ev_id ev)"

lemma frame_bytes_event:
  "frame_bytes to_text (event_json ev) =
     (case ev_id ev of Some i \<Rightarrow> sse_field ''id'' i | None \<Rightarrow> [])
     @ sse_field ''event'' (ev_event ev)
     @ concat (map (sse_field ''data'') (split_on (\<lambda>c. c = LF) (ev_data ev))) @ [LF]"
  by (cases "ev_id ev") (simp_all add: frame_bytes_def event_json_def opt_field_def)

lemma read_frame:
  assumes "sees limit e (None, None, None) (frame_bytes to_text (event_json ev) @ rest) r"
    and "event_safe limit ev"
  shows "\<exists>r1. sees limit e (None, None, None) rest r1 \<and> next_item never r = (Inr (Event ev), r1)"
proof -
  let ?D = "concat (map (sse_field ''data'') (split_on (\<lambda>c. c = LF) (ev_data ev))) @ LF # rest"
  have "\<exists>r1. sees limit e (ev_id ev, None, None) (sse_field ''event'' (ev_event ev) @ ?D) r1
    \<and> next_item never r = next_item never r1"
  proof (cases "ev_id ev")
    case None
    with assms(1) show ?thesis by (auto simp: frame_bytes_event)
  next
    case (Some i)
    with assms read_id [of limit e None None None i _ r] show ?thesis
      by (simp add: frame_bytes_event event_safe_def)
  qed
  then obtain r1 where r1: "sees limit e (ev_id ev, None, None) (sse_field ''event'' (ev_event ev) @ ?D) r1"
    "next_item never r = next_item never r1" by blast
  obtain r2 where r2: "sees limit e (ev_id ev, Some (ev_event ev), None) ?D r2"
    "next_item never r1 = next_item never r2"
    using read_event [OF r1(1)] assms(2) by (auto simp: event_safe_def)
  obtain r3 where r3: "sees limit e (ev_id ev, Some (ev_event ev), Some (ev_data ev)) (LF # rest) r3"
    "next_item never r2 = next_item never r3"
    using read_data_field [OF r2(1)] assms(2) by (auto simp: event_safe_def)
  have "\<lparr>ev_id = ev_id ev, ev_event = ev_event ev, ev_data = ev_data ev\<rparr> = ev" by simp
  with read_blank [OF r3(1)] r1(2) r2(2) r3(2) show ?thesis by (auto simp del: sse_event.surjective)
qed

lemma read_ended:
  "\<lbrakk>ended r = Some e; pending r = []\<rbrakk> \<Longrightarrow> sse_calls never k r = replicate k (Inr (End e))"
proof (induction k arbitrary: r)
  case 0
  show ?case by simp
next
  case (Suc k)
  then have "next_item never r = (Inr (End e), query r)" by (simp add: next_item.simps [of never r])
  with Suc show ?case by simp
qed

lemma read_tail:
  assumes "sees limit e st tail r" "LF \<notin> set tail" "length tail \<le> limit + 64"
  shows "\<exists>r1. ended r1 = Some e \<and> pending r1 = [] \<and> next_item never r = next_item never r1"
  using assms
proof (induction "frames (source r)" arbitrary: r)
  case Nil
  then have "split_once LF (pending r) = None" by (auto simp: split_once_None sees_def)
  with Nil show ?case
    by (intro exI [of _ "(query (query r))\<lparr>source := snd (fixture_next_chunk (source r)), pending := [], ended := Some e\<rparr>"])
      (auto simp: sees_def fixture_next_chunk_def next_item.simps [of never r])
next
  case (Cons f fs)
  let ?r2 = "(query r)\<lparr>source := (source r)\<lparr>frames := fs\<rparr>, pending := pending r @ f\<rparr>"
  have p: "split_once LF (pending r) = None" "length (pending r) \<le> max_event r + 64" "ended r = None"
    using Cons.prems by (auto simp: split_once_None sees_def)
  have "sees limit e st tail ?r2"
    using Cons.prems(1) Cons.hyps(2) [symmetric] by (simp add: sees_def)
  from Cons.hyps(1) [OF _ this Cons.prems(2,3)] fixture_pull [OF p Cons.hyps(2) [symmetric]]
  show ?case by simp
qed

lemma sse_calls_events:
  assumes "sees limit e (None, None, None) (concat (map (\<lambda>ev. frame_bytes to_text (event_json ev)) evs) @ tail) r"
    and "list_all (event_safe limit) evs" "LF \<notin> set tail" "length tail \<le> limit + 64"
  shows "sse_calls never (length evs + k) r = map (\<lambda>ev. Inr (Event ev)) evs @ replicate k (Inr (End e))"
  using assms
proof (induction evs arbitrary: r)
  case Nil
  then obtain r1 where r1: "ended r1 = Some e" "pending r1 = []" "next_item never r = next_item never r1"
    using read_tail [of limit e "(None, None, None)" tail r] by auto
  then have "sse_calls never k r = sse_calls never k r1" by (cases k) auto
  then show ?case using read_ended [OF r1(1,2)] by simp
next
  case (Cons ev evs)
  then obtain r1 where "sees limit e (None, None, None)
      (concat (map (\<lambda>ev. frame_bytes to_text (event_json ev)) evs) @ tail) r1"
    "next_item never r = (Inr (Event ev), r1)"
    using read_frame [of limit e to_text ev _ r] by auto
  with Cons show ?case by simp
qed

section \<open>Properties\<close>

text \<open>
  Property C3. The events a fixture records come back from the reader unchanged and in order,
  wherever the stream is cut into chunks; an unterminated line after them is discarded; and once the
  stream has ended every further call reports that same end.
\<close>

theorem sse_frames_are_read_back:
  assumes "list_all (event_safe limit) evs"
    and "concat chunks = concat (fixture_bytes to_text (JArr (map event_json evs))) @ tail"
    and "LF \<notin> set tail" and "length tail \<le> limit + 64"
  shows "sse_calls (\<lambda>_. False) (length evs + k) (new_sse_reader (new_fixture_source chunks e) limit) =
    map (\<lambda>ev. Inr (Event ev)) evs @ replicate k (Inr (End e))"
  using assms
  by (intro sse_calls_events [of limit e to_text evs tail])
    (simp_all add: sees_def new_sse_reader_def new_fixture_source_def fixture_bytes_def comp_def)

lemma sse_frames_are_read_back_witness:
  "let ev = \<lparr>ev_id = Some ''7'', ev_event = ''progress'', ev_data = ''a'' @ [LF] @ ''b''\<rparr>;
     bytes = frame_bytes (\<lambda>_. []) (event_json ev)
   in sse_calls (\<lambda>_. False) (1 + 2) (new_sse_reader (new_fixture_source [take 5 bytes, drop 5 bytes, ''dat''] Closed) 64)
     = [Inr (Event ev), Inr (End Closed), Inr (End Closed)]"
  using sse_frames_are_read_back [of 64 "[\<lparr>ev_id = Some ''7'', ev_event = ''progress'', ev_data = ''a'' @ [LF] @ ''b''\<rparr>]"
    "let bytes = frame_bytes (\<lambda>_. []) (event_json \<lparr>ev_id = Some ''7'', ev_event = ''progress'', ev_data = ''a'' @ [LF] @ ''b''\<rparr>)
      in [take 5 bytes, drop 5 bytes, ''dat'']" "\<lambda>_. []" "''dat''" 2 Closed]
  by (simp add: Let_def event_safe_def line_safe_def valid_utf8_ascii is_ascii_def sse_chars
      fixture_bytes_def numeral_2_eq_2)

text \<open>
  Whatever the source delivers and whenever the operation is cancelled, no event's
  data is longer than the configured limit.
\<close>

theorem sse_events_are_bounded:
  "list_all (item_ok limit) (sse_calls cancelled n (new_sse_reader src limit))"
  using sse_calls_ok [of "new_sse_reader src limit" cancelled n]
  by (simp add: reader_ok_def new_sse_reader_def)

end
