(* ===== verification/Host_Command.thy ===== *)
theory Host_Command
  imports Text_Safety
begin

text \<open>
  Rendering an argument vector as one Windows command line (\<open>quote_windows_argument\<close>,
  \<open>build_command_line\<close>), and the documented rules by which the C runtime of the child splits that
  line again.  A \<open>&str\<close> is its list of Unicode scalars here; the buffer is UTF-16 code units.
\<close>

section \<open>Validation errors\<close>

record validation_error =
  ve_code :: string
  ve_field :: string
  ve_message :: string

definition verror :: "string \<Rightarrow> string \<Rightarrow> string \<Rightarrow> validation_error" where
  "verror c f m = \<lparr>ve_code = c, ve_field = f, ve_message = m\<rparr>"

definition show_validation_error :: "validation_error \<Rightarrow> string" where
  "show_validation_error e = ve_code e @ '' at '' @ ve_field e @ '': '' @ ve_message e"

definition validate_utf16_input :: "ustr \<Rightarrow> string \<Rightarrow> validation_error + unit" where
  "validate_utf16_input value field =
     require (0 \<notin> set value) (verror ''PROTOCOL_MALFORMED'' field ''NUL is forbidden'')"

section \<open>Quoting\<close>

definition BSLASH :: nat where "BSLASH = 92"
definition DQUOTE :: nat where "DQUOTE = 34"

text \<open>The loop over the characters, with the number of backslashes not yet written.\<close>

fun quote_loop :: "nat \<Rightarrow> ustr \<Rightarrow> ustr" where
  "quote_loop backslashes [] = replicate (backslashes * 2) BSLASH @ [DQUOTE]"
| "quote_loop backslashes (c # cs) =
     (if c = BSLASH then quote_loop (backslashes + 1) cs
      else (if c = DQUOTE then replicate (backslashes * 2 + 1) BSLASH @ [DQUOTE]
            else replicate backslashes BSLASH @ [c])
        @ quote_loop 0 cs)"

definition quote_windows_argument :: "ustr \<Rightarrow> validation_error + ustr" where
  "quote_windows_argument argument =
     bindE (validate_utf16_input argument ''argv'') (\<lambda>_.
       if argument \<noteq> [] \<and> \<not> list_ex (\<lambda>c. is_whitespace c \<or> c = DQUOTE) argument
       then Inr argument
       else Inr (DQUOTE # quote_loop 0 argument))"

fun render_arguments :: "ustr \<Rightarrow> ustr list \<Rightarrow> validation_error + ustr" where
  "render_arguments rendered [] = Inr rendered"
| "render_arguments rendered (a # as) =
     bindE (quote_windows_argument a) (\<lambda>q. render_arguments (rendered @ 32 # q) as)"

definition MAX_COMMAND_LINE_UTF16_UNITS :: nat where "MAX_COMMAND_LINE_UTF16_UNITS = 32766"

definition build_command_line :: "ustr \<Rightarrow> ustr list \<Rightarrow> validation_error + u16 list" where
  "build_command_line executable argv =
     bindE (quote_windows_argument executable) (\<lambda>first.
     bindE (render_arguments first argv) (\<lambda>rendered.
       let wide = utf16_encode rendered in
       if MAX_COMMAND_LINE_UTF16_UNITS < length wide
       then Inl (verror ''REQUEST_LIMIT_EXCEEDED'' ''argv''
         ''rendered Windows command line exceeds 32766 UTF-16 code units'')
       else Inr (wide @ [0])))"

section \<open>How the child's C runtime splits the line\<close>

text \<open>
  The documented rules: blanks (space, tab) outside quotation marks separate arguments; \<open>2n\<close>
  backslashes before a quotation mark are \<open>n\<close> backslashes and the mark opens or closes a quoted
  part; \<open>2n + 1\<close> are \<open>n\<close> backslashes and a literal mark; a doubled mark inside a quoted part is a
  literal mark; other backslashes are literal.  \<open>n\<close> counts the backslashes just read.
\<close>

definition blank :: "nat \<Rightarrow> bool" where "blank c \<longleftrightarrow> c = 32 \<or> c = 9"

fun crt_argument :: "bool \<Rightarrow> nat \<Rightarrow> ustr \<Rightarrow> ustr \<times> ustr" where
  "crt_argument quoted n [] = (replicate n BSLASH, [])"
| "crt_argument quoted n (c # cs) =
     (if c = BSLASH then crt_argument quoted (n + 1) cs
      else if c = DQUOTE then
        (let pre = replicate (n div 2) BSLASH in
         if odd n then (case crt_argument quoted 0 cs of (a, r) \<Rightarrow> (pre @ DQUOTE # a, r))
         else if quoted \<and> cs \<noteq> [] \<and> hd cs = DQUOTE
           then (case crt_argument quoted 0 (tl cs) of (a, r) \<Rightarrow> (pre @ DQUOTE # a, r))
         else (case crt_argument (\<not> quoted) 0 cs of (a, r) \<Rightarrow> (pre @ a, r)))
      else if blank c \<and> \<not> quoted then (replicate n BSLASH, c # cs)
      else (case crt_argument quoted 0 cs of (a, r) \<Rightarrow> (replicate n BSLASH @ c # a, r)))"

lemma crt_argument_rest: "crt_argument quoted n cs = (a, r) \<Longrightarrow> length r \<le> length cs"
  by (induction quoted n cs arbitrary: a r rule: crt_argument.induct)
    (auto simp: Let_def split: if_splits prod.splits, (fastforce simp: le_SucI)+)

function (sequential) crt_arguments :: "ustr \<Rightarrow> ustr list" where
  "crt_arguments [] = []"
| "crt_arguments (c # cs) =
     (if blank c then crt_arguments cs
      else case crt_argument False 0 (c # cs) of (a, r) \<Rightarrow>
        if length r < length (c # cs) then a # crt_arguments r else [a])"
  by pat_completeness auto

termination crt_arguments by (relation "measure length") auto

text \<open>The program name: quotation marks group, backslashes are literal.\<close>

fun crt_program :: "bool \<Rightarrow> ustr \<Rightarrow> ustr \<times> ustr" where
  "crt_program quoted [] = ([], [])"
| "crt_program quoted (c # cs) =
     (if c = DQUOTE then crt_program (\<not> quoted) cs
      else if blank c \<and> \<not> quoted then ([], c # cs)
      else (case crt_program quoted cs of (a, r) \<Rightarrow> (c # a, r)))"

definition crt_command_line :: "ustr \<Rightarrow> ustr list" where
  "crt_command_line line = (case crt_program False line of (p, r) \<Rightarrow> p # crt_arguments r)"

section \<open>Splitting undoes quoting\<close>

lemma backslash_quote [simp]: "BSLASH \<noteq> DQUOTE" "DQUOTE \<noteq> BSLASH"
  by (simp_all add: BSLASH_def DQUOTE_def)

definition separated :: "ustr \<Rightarrow> bool" where
  "separated r \<longleftrightarrow> r = [] \<or> hd r = 32"

lemma crt_argument_backslashes:
  "crt_argument quoted n (replicate m BSLASH @ cs) = crt_argument quoted (n + m) cs"
  by (induction m arbitrary: n) simp_all

lemma crt_argument_separated:
  "separated r \<Longrightarrow> crt_argument False n r = (replicate n BSLASH, r)"
  by (cases r) (auto simp: separated_def blank_def BSLASH_def DQUOTE_def)

lemma crt_argument_quoted:
  "separated r \<Longrightarrow> crt_argument True 0 (quote_loop b cs @ r) = (replicate b BSLASH @ cs, r)"
proof (induction b cs rule: quote_loop.induct)
  case (1 b)
  have "\<not> (r \<noteq> [] \<and> hd r = DQUOTE)" using 1 by (auto simp: separated_def DQUOTE_def)
  with 1 show ?case
    by (auto simp: crt_argument_backslashes crt_argument_separated Let_def)
next
  case (2 b c cs)
  show ?case
  proof (cases "c = BSLASH")
    case True
    with 2 show ?thesis by (simp add: replicate_append_same [symmetric])
  next
    case False
    with 2 show ?thesis
      by (auto simp: crt_argument_backslashes Let_def)
  qed
qed

lemma crt_argument_plain:
  "\<lbrakk>\<not> list_ex (\<lambda>c. is_whitespace c \<or> c = DQUOTE) cs; separated r\<rbrakk>
    \<Longrightarrow> crt_argument False n (cs @ r) = (replicate n BSLASH @ cs, r)"
proof (induction cs arbitrary: n)
  case Nil
  then show ?case by (simp add: crt_argument_separated)
next
  case (Cons c cs)
  then have "\<not> blank c" by (auto simp: is_whitespace_def blank_def)
  with Cons show ?case by (simp add: replicate_append_same [symmetric])
qed

lemma quoted_argument_is_read:
  assumes "quote_windows_argument a = Inr q" "separated r"
  shows "crt_argument False 0 (q @ r) = (a, r)" "q \<noteq> []" "\<not> blank (hd q)" "0 \<notin> set a"
proof -
  have nul: "0 \<notin> set a" using assms(1) by (auto simp: quote_windows_argument_def validate_utf16_input_def result_simps)
  show "0 \<notin> set a" by (rule nul)
  show "crt_argument False 0 (q @ r) = (a, r)" and "q \<noteq> []" and "\<not> blank (hd q)"
  proof (atomize(full), cases "a \<noteq> [] \<and> \<not> list_ex (\<lambda>c. is_whitespace c \<or> c = DQUOTE) a")
    case True
    with assms(1) nul have "q = a" by (simp add: quote_windows_argument_def validate_utf16_input_def)
    moreover have "\<not> blank (hd a)" using True by (cases a) (auto simp: blank_def is_whitespace_def)
    ultimately show "crt_argument False 0 (q @ r) = (a, r) \<and> q \<noteq> [] \<and> \<not> blank (hd q)"
      using True crt_argument_plain [of a r 0] assms(2) by simp
  next
    case False
    with assms(1) nul have "q = DQUOTE # quote_loop 0 a"
      by (simp only: quote_windows_argument_def validate_utf16_input_def) (simp split: if_splits)
    moreover have "crt_argument False 0 (DQUOTE # quote_loop 0 a @ r) = (a, r)"
      using crt_argument_quoted [OF assms(2), of 0 a] by (simp add: BSLASH_def DQUOTE_def Let_def)
    ultimately show "crt_argument False 0 (q @ r) = (a, r) \<and> q \<noteq> [] \<and> \<not> blank (hd q)"
      by (simp add: blank_def DQUOTE_def)
  qed
qed

lemma rendered_arguments_are_read:
  "render_arguments pre as = Inr line \<Longrightarrow>
    \<exists>r. line = pre @ r \<and> separated r \<and> crt_arguments r = as"
proof (induction "as" arbitrary: pre)
  case Nil
  then show ?case by (simp add: separated_def)
next
  case (Cons a "as")
  then obtain q where q: "quote_windows_argument a = Inr q" "render_arguments (pre @ 32 # q) as = Inr line"
    by (auto simp: result_simps)
  from Cons.IH [OF q(2)] obtain r where r: "line = pre @ 32 # q @ r" "separated r" "crt_arguments r = as"
    by auto
  note read = quoted_argument_is_read [OF q(1) r(2)]
  obtain x xs where x: "q = x # xs" using read(2) by (cases q) auto
  have "crt_arguments (q @ r) = a # as"
    using read r(3) x by simp
  then have "crt_arguments (32 # q @ r) = a # as" by (simp add: blank_def)
  with r(1) show ?case by (intro exI [of _ "32 # q @ r"]) (simp add: separated_def)
qed

lemma crt_program_no_quote:
  "DQUOTE \<notin> set p \<Longrightarrow> crt_program True (p @ DQUOTE # r) = (case crt_program False r of (a, s) \<Rightarrow> (p @ a, s))"
  by (induction p) (auto split: prod.splits)

lemma crt_program_plain:
  "\<lbrakk>DQUOTE \<notin> set p; list_all (\<lambda>c. \<not> blank c) p; separated r\<rbrakk> \<Longrightarrow> crt_program False (p @ r) = (p, r)"
proof (induction p)
  case Nil
  then show ?case by (cases r) (auto simp: separated_def blank_def DQUOTE_def)
qed auto

lemma quote_loop_program:
  "\<lbrakk>DQUOTE \<notin> set p; p \<noteq> []; last p \<noteq> BSLASH\<rbrakk> \<Longrightarrow> quote_loop b p = replicate b BSLASH @ p @ [DQUOTE]"
proof (induction p arbitrary: b)
  case (Cons c cs)
  show ?case
  proof (cases "cs = []")
    case True
    with Cons.prems show ?thesis by simp
  next
    case False
    with Cons.prems have "quote_loop n cs = replicate n BSLASH @ cs @ [DQUOTE]" for n
      by (intro Cons.IH) simp_all
    then show ?thesis using Cons.prems(1) replicate_append_same [of b BSLASH] by auto
  qed
qed simp

lemma blank_whitespace: "blank c \<Longrightarrow> is_whitespace c"
  unfolding blank_def is_whitespace_def by (erule disjE) simp_all

lemma quoted_program_is_read:
  assumes "quote_windows_argument p = Inr q" "DQUOTE \<notin> set p" "p \<noteq> []" "last p \<noteq> BSLASH" "separated r"
  shows "crt_program False (q @ r) = (p, r)"
proof (cases "list_ex (\<lambda>c. is_whitespace c \<or> c = DQUOTE) p")
  case False
  then have "list_all (\<lambda>c. \<not> blank c) p"
    unfolding list_ex_iff list_all_iff using blank_whitespace by blast
  moreover have "q = p"
    using assms(1) unfolding quote_windows_argument_def bindE_eq_Inr if_P [OF conjI [OF assms(3) False]]
    by blast
  ultimately show ?thesis using assms(2,5) by (simp add: crt_program_plain)
next
  case True
  then have "q = DQUOTE # p @ [DQUOTE]"
    using assms(1) quote_loop_program [OF assms(2-4), of 0]
    by (simp add: quote_windows_argument_def bindE_eq_Inr split: if_splits)
  then show ?thesis
    using crt_program_no_quote [of p r] crt_program_plain [of "[]" r] assms(2,5) by simp
qed

text \<open>
  Property C4. The command line handed to Windows is at most 32766 UTF-16 units and a terminating
  NUL, and the child's C runtime splits it into exactly the requested program and arguments, whatever
  blanks, quotation marks and backslashes the arguments hold; the program path itself only must not
  hold a quotation mark (no Windows path can) or end in a backslash (an \<open>.exe\<close> path does not).
\<close>

theorem command_line_is_split_back:
  assumes "build_command_line executable argv = Inr wide"
    and "DQUOTE \<notin> set executable" and "executable \<noteq> []" and "last executable \<noteq> BSLASH"
  shows "\<exists>line. wide = utf16_encode line @ [0] \<and> crt_command_line line = executable # argv
    \<and> length wide \<le> 32767"
proof -
  obtain first line where f: "quote_windows_argument executable = Inr first"
    "render_arguments first argv = Inr line" "wide = utf16_encode line @ [0]" "length wide \<le> 32767"
    using assms(1) by (auto simp: build_command_line_def result_simps Let_def MAX_COMMAND_LINE_UTF16_UNITS_def
        split: if_splits)
  obtain r where "line = first @ r" "separated r" "crt_arguments r = argv"
    using rendered_arguments_are_read [OF f(2)] by blast
  moreover from this have "crt_program False line = (executable, r)"
    using quoted_program_is_read [OF f(1) assms(2-4)] by simp
  ultimately have "crt_command_line line = executable # argv" by (simp add: crt_command_line_def)
  with f(3,4) show ?thesis by blast
qed

lemma command_line_is_split_back_witness:
  "\<exists>wide line. build_command_line (asc ''C:/p q'') [asc ''a b'', [], [92, 34]] = Inr wide
    \<and> wide = utf16_encode line @ [0] \<and> crt_command_line line = [asc ''C:/p q'', asc ''a b'', [], [92, 34]]"
proof -
  let ?exe = "asc ''C:/p q''"
  have "is_ok (build_command_line ?exe [asc ''a b'', [], [92, 34]])"
    by (simp add: build_command_line_def quote_windows_argument_def validate_utf16_input_def asc_def
        is_whitespace_def BSLASH_def DQUOTE_def Let_def utf16_encode_def utf16_char_def
        MAX_COMMAND_LINE_UTF16_UNITS_def)
  then obtain wide where wide: "build_command_line ?exe [asc ''a b'', [], [92, 34]] = Inr wide"
    by (auto simp: is_ok_iff)
  have "DQUOTE \<notin> set ?exe" "?exe \<noteq> []" "last ?exe \<noteq> BSLASH"
    by (simp_all add: asc_def DQUOTE_def BSLASH_def)
  from command_line_is_split_back [OF wide this] wide show ?thesis by blast
qed

end
