(* ===== verification/Base64.thy ===== *)
theory Base64
  imports Utf8
begin

text \<open>
  The padded base64 of the Windows process host (\<open>encode_base64\<close>, \<open>decode_base64\<close>), on bytes kept at
  their width.  A byte string is a list of \<open>u8\<close>; the text is a \<open>string\<close>.
\<close>

unbundle bit_operations_syntax

type_synonym u8 = "8 word"

section \<open>Encoding\<close>

definition base64_table :: string where
  "base64_table = ''ABCDEFGHIJKLMNOPQRSTUVWXYZabcdefghijklmnopqrstuvwxyz0123456789+/''"

definition base64_digit :: "u8 \<Rightarrow> char" where
  "base64_digit v = base64_table ! unat v"

definition PAD :: char where "PAD = CHR ''=''"

fun encode_base64 :: "u8 list \<Rightarrow> string" where
  "encode_base64 [] = []"
| "encode_base64 [a] =
     [base64_digit (drop_bit 2 a), base64_digit (push_bit 4 (a AND 3) OR drop_bit 4 0), PAD, PAD]"
| "encode_base64 [a, b] =
     [base64_digit (drop_bit 2 a), base64_digit (push_bit 4 (a AND 3) OR drop_bit 4 b),
      base64_digit (push_bit 2 (b AND 15) OR drop_bit 6 0), PAD]"
| "encode_base64 (a # b # c # rest) =
     base64_digit (drop_bit 2 a) # base64_digit (push_bit 4 (a AND 3) OR drop_bit 4 b)
     # base64_digit (push_bit 2 (b AND 15) OR drop_bit 6 c) # base64_digit (c AND 63)
     # encode_base64 rest"

section \<open>Decoding\<close>

definition base64_value :: "char \<Rightarrow> u8 option" where
  "base64_value c =
     (if ascii_upper c then Some (of_nat (code c - 65))
      else if ascii_lower c then Some (of_nat (code c - 97) + 26)
      else if ascii_digit c then Some (of_nat (code c - 48) + 52)
      else if c = CHR ''+'' then Some 62
      else if c = CHR ''/'' then Some 63
      else None)"

text \<open>One chunk of four characters; \<open>last\<close> says that no chunk follows.\<close>

definition decode_chunk :: "bool \<Rightarrow> char \<Rightarrow> char \<Rightarrow> char \<Rightarrow> char \<Rightarrow> u8 list option" where
  "decode_chunk final x y z w =
     (case base64_value x of None \<Rightarrow> None | Some a \<Rightarrow>
      case base64_value y of None \<Rightarrow> None | Some b \<Rightarrow>
        let c_pad = (z = PAD); d_pad = (w = PAD) in
        if c_pad \<and> \<not> d_pad \<or> d_pad \<and> \<not> final then None
        else case if c_pad then Some 0 else base64_value z of None \<Rightarrow> None | Some c \<Rightarrow>
             case if d_pad then Some 0 else base64_value w of None \<Rightarrow> None | Some d \<Rightarrow>
        if c_pad \<and> b AND 15 \<noteq> 0 \<or> d_pad \<and> \<not> c_pad \<and> c AND 3 \<noteq> 0 then None
        else Some ([push_bit 2 a OR drop_bit 4 b]
          @ (if c_pad then [] else [push_bit 4 b OR drop_bit 2 c])
          @ (if d_pad then [] else [push_bit 6 c OR d])))"

fun decode_chunks :: "string \<Rightarrow> u8 list option" where
  "decode_chunks (x # y # z # w # rest) =
     (case decode_chunk (rest = []) x y z w of None \<Rightarrow> None
      | Some bytes \<Rightarrow> map_option (append bytes) (decode_chunks rest))"
| "decode_chunks _ = Some []"

definition decode_base64 :: "string \<Rightarrow> u8 list option" where
  "decode_base64 coded =
     (if length coded mod 4 \<noteq> 0 \<or> \<not> is_ascii coded then None else decode_chunks coded)"

section \<open>Digits\<close>

lemma base64_table_ranges:
  "map of_char base64_table = [65..<91] @ [97..<123] @ [48..<58] @ [43, 47 :: nat]"
  by (simp add: base64_table_def upt_rec_numeral)

lemma base64_table_nth:
  assumes "i < 64"
  shows "code (base64_table ! i) =
    (if i < 26 then 65 + i else if i < 52 then 71 + i else if i < 62 then i - 4 else if i = 62 then 43 else 47)"
proof -
  have "length base64_table = 64" by (simp add: base64_table_def)
  then have "code (base64_table ! i) = map of_char base64_table ! i" using assms by simp
  also have "\<dots> = (if i < 26 then 65 + i else if i < 52 then 71 + i else if i < 62 then i - 4
      else if i = 62 then 43 else 47)"
    unfolding base64_table_ranges using assms by (auto simp: nth_append nth_Cons')
  finally show ?thesis .
qed

lemma code_eq_iff: "c = d \<longleftrightarrow> code c = code d"
  by simp

lemma word_of_unat: "unat v = n \<Longrightarrow> word_of_nat n = (v :: u8)"
  by auto

lemma base64_value_digit:
  assumes "unat v < 64"
  shows "base64_value (base64_digit v) = Some v" "base64_digit v \<noteq> PAD" "code (base64_digit v) < 128"
proof -
  define i where "i = unat v"
  have v: "v = word_of_nat i" by (simp add: i_def)
  have c: "code (base64_digit v) =
    (if i < 26 then 65 + i else if i < 52 then 71 + i else if i < 62 then i - 4 else if i = 62 then 43 else 47)"
    unfolding base64_digit_def using base64_table_nth [of i] assms by (simp add: i_def)
  have i: "i < 64" using assms by (simp add: i_def)
  consider "i < 26" | "26 \<le> i" "i < 52" | "52 \<le> i" "i < 62" | "i = 62" | "i = 63"
    using i by linarith
  then show "base64_value (base64_digit v) = Some v"
  proof cases
    case 1
    with c show ?thesis by (simp add: base64_value_def ascii_defs v)
  next
    case 2
    then have "word_of_nat (i - 26) + 26 = (word_of_nat i :: u8)"
      by (metis (mono_tags) le_add_diff_inverse2 of_nat_add of_nat_numeral)
    with 2 c show ?thesis by (simp add: base64_value_def ascii_defs v)
  next
    case 3
    then have "word_of_nat (i - 52) + 52 = (word_of_nat i :: u8)"
      by (metis (mono_tags) le_add_diff_inverse2 of_nat_add of_nat_numeral)
    moreover have "48 \<le> i - 4" "i - 4 \<le> 57" "i - 4 < 65" "i - 4 - 48 = i - 52" using 3 by auto
    ultimately show ?thesis using 3 c by (simp add: base64_value_def ascii_defs v)
  next
    case 4
    with c have "base64_digit v = CHR ''+''" by (simp add: code_eq_iff [of "base64_digit v"])
    with 4 show ?thesis by (simp add: base64_value_def ascii_defs v)
  next
    case 5
    with c have "base64_digit v = CHR ''/''" by (simp add: code_eq_iff [of "base64_digit v"])
    with 5 show ?thesis by (simp add: base64_value_def ascii_defs v)
  qed
  show "base64_digit v \<noteq> PAD"
    using c i by (auto simp: PAD_def code_eq_iff [of "base64_digit v"] split: if_splits)
  show "code (base64_digit v) < 128" using c i by (auto split: if_splits)
qed

lemma base64_digit_value:
  assumes "base64_value c = Some v"
  shows "unat v < 64" "base64_digit v = c"
proof -
  have *: "\<exists>i. i < 64 \<and> v = word_of_nat i \<and> code c =
    (if i < 26 then 65 + i else if i < 52 then 71 + i else if i < 62 then i - 4 else if i = 62 then 43 else 47)"
  proof -
    consider "ascii_upper c" | "ascii_lower c" | "ascii_digit c" | "c = CHR ''+''" | "c = CHR ''/''"
      using assms by (auto simp: base64_value_def split: if_splits)
    then show ?thesis
    proof cases
      case 1
      with assms show ?thesis
        by (intro exI [of _ "code c - 65"]) (auto simp: base64_value_def ascii_defs)
    next
      case 2
      with assms show ?thesis
        by (intro exI [of _ "code c - 97 + 26"]) (auto simp: base64_value_def ascii_defs)
    next
      case 3
      with assms show ?thesis
        by (intro exI [of _ "code c - 48 + 52"]) (auto simp: base64_value_def ascii_defs)
    next
      case 4
      with assms show ?thesis by (intro exI [of _ 62]) (auto simp: base64_value_def ascii_defs)
    next
      case 5
      with assms show ?thesis by (intro exI [of _ 63]) (auto simp: base64_value_def ascii_defs)
    qed
  qed
  then obtain i where i: "i < 64" "v = word_of_nat i" "code c =
    (if i < 26 then 65 + i else if i < 52 then 71 + i else if i < 62 then i - 4 else if i = 62 then 43 else 47)"
    by blast
  then have u: "unat v = i" by (simp add: unat_of_nat)
  with i show "unat v < 64" by simp
  have "code (base64_digit v) = code c"
    using base64_table_nth [OF i(1)] i(3) u by (simp add: base64_digit_def)
  then show "base64_digit v = c" by simp
qed

section \<open>Round trips\<close>

lemma byte_eqI:
  fixes a b :: u8
  assumes "bit a 0 = bit b 0" "bit a 1 = bit b 1" "bit a 2 = bit b 2" "bit a 3 = bit b 3"
    "bit a 4 = bit b 4" "bit a 5 = bit b 5" "bit a 6 = bit b 6" "bit a 7 = bit b 7"
  shows "a = b"
proof (rule bit_word_eqI)
  fix n :: nat
  assume "n < LENGTH(8)"
  then consider "n = 0" | "n = 1" | "n = 2" | "n = 3" | "n = 4" | "n = 5" | "n = 6" | "n = 7"
    by (simp, linarith)
  then show "bit a n = bit b n" by cases (use assms in auto)
qed

lemma high_bits [simp]:
  "\<not> bit (v :: u8) 8" "\<not> bit (v :: u8) 9" "\<not> bit (v :: u8) 10" "\<not> bit (v :: u8) 11"
  "\<not> bit (v :: u8) 12" "\<not> bit (v :: u8) 13"
  by (auto dest: bit_imp_le_length)

lemma six_bits: "unat v < 64 \<longleftrightarrow> \<not> bit v 6 \<and> \<not> bit (v :: u8) 7"
proof -
  have "unat v < 64 \<longleftrightarrow> take_bit 6 (unat v) = unat v"
    by (simp add: take_bit_nat_eq_self_iff)
  also have "\<dots> \<longleftrightarrow> unat (take_bit 6 v) = unat v"
    by (simp add: unsigned_take_bit_eq)
  also have "\<dots> \<longleftrightarrow> take_bit 6 v = v"
    by (simp add: word_unat_eq_iff)
  also have "\<dots> \<longleftrightarrow> \<not> bit v 6 \<and> \<not> bit v 7"
  proof
    assume "take_bit 6 v = v"
    then have "bit (take_bit 6 v) n = bit v n" for n by simp
    from this [of 6] this [of 7] show "\<not> bit v 6 \<and> \<not> bit v 7" by (simp add: bit_take_bit_iff)
  next
    assume "\<not> bit v 6 \<and> \<not> bit v 7"
    then show "take_bit 6 v = v" by (intro byte_eqI) (simp_all add: bit_take_bit_iff)
  qed
  finally show ?thesis .
qed

lemmas byte_bits = bit_or_iff bit_and_iff bit_push_bit_iff bit_drop_bit_eq

lemma digit_args [simp]:
  "unat (drop_bit 2 (a :: u8)) < 64"
  "unat (push_bit 4 (a AND 3) OR drop_bit 4 (b :: u8)) < 64"
  "unat (push_bit 2 (b AND 15) OR drop_bit 6 (c :: u8)) < 64"
  "unat (c AND 63 :: u8) < 64"
  "unat (push_bit 4 (a AND 3) :: u8) < 64"
  "unat (push_bit 2 (b AND 15) :: u8) < 64"
  by (simp_all add: six_bits byte_bits)

lemmas digit_simps [simp] = base64_value_digit [OF digit_args(1)] base64_value_digit [OF digit_args(2)]
  base64_value_digit [OF digit_args(3)] base64_value_digit [OF digit_args(4)]
  base64_value_digit [OF digit_args(5)] base64_value_digit [OF digit_args(6)]

lemma decode_encode_chunk:
  "decode_chunk final (base64_digit (drop_bit 2 a)) (base64_digit (push_bit 4 (a AND 3) OR drop_bit 4 b))
     (base64_digit (push_bit 2 (b AND 15) OR drop_bit 6 c)) (base64_digit (c AND 63)) = Some [a, b, c]"
  "decode_chunk True (base64_digit (drop_bit 2 a)) (base64_digit (push_bit 4 (a AND 3) OR drop_bit 4 b))
     (base64_digit (push_bit 2 (b AND 15))) PAD = Some [a, b]"
  "decode_chunk True (base64_digit (drop_bit 2 a)) (base64_digit (push_bit 4 (a AND 3))) PAD PAD = Some [a]"
proof -
  have abc: "push_bit 2 (drop_bit 2 a) OR drop_bit 4 (push_bit 4 (a AND 3) OR drop_bit 4 b) = a"
    "push_bit 4 (push_bit 4 (a AND 3) OR drop_bit 4 b) OR drop_bit 2 (push_bit 2 (b AND 15) OR drop_bit 6 c) = b"
    "push_bit 6 (push_bit 2 (b AND 15) OR drop_bit 6 c) OR (c AND 63) = c"
    "push_bit 4 (push_bit 4 (a AND 3) OR drop_bit 4 b) OR drop_bit 2 (push_bit 2 (b AND 15)) = b"
    "push_bit 2 (drop_bit 2 a) OR drop_bit 4 (push_bit 4 (a AND 3)) = a"
    "push_bit 2 (b AND 15) AND 3 = 0" "push_bit 4 (a AND 3) AND 15 = 0"
    "push_bit 4 (drop_bit 4 b) OR drop_bit 2 (push_bit 2 (b AND 15)) = b"
    "push_bit 6 (drop_bit 6 c) OR c AND 63 = c" for a b c :: u8
    by (rule byte_eqI; simp add: byte_bits)+
  show "decode_chunk final (base64_digit (drop_bit 2 a)) (base64_digit (push_bit 4 (a AND 3) OR drop_bit 4 b))
     (base64_digit (push_bit 2 (b AND 15) OR drop_bit 6 c)) (base64_digit (c AND 63)) = Some [a, b, c]"
    by (simp add: decode_chunk_def abc del: push_bit_and)
  show "decode_chunk True (base64_digit (drop_bit 2 a)) (base64_digit (push_bit 4 (a AND 3) OR drop_bit 4 b))
     (base64_digit (push_bit 2 (b AND 15))) PAD = Some [a, b]"
    by (simp add: decode_chunk_def abc del: push_bit_and)
  show "decode_chunk True (base64_digit (drop_bit 2 a)) (base64_digit (push_bit 4 (a AND 3))) PAD PAD = Some [a]"
    by (simp add: decode_chunk_def abc del: push_bit_and)
qed

lemma encode_base64_shape: "length (encode_base64 bs) mod 4 = 0" "is_ascii (encode_base64 bs)"
  by (induction bs rule: encode_base64.induct) (simp_all add: is_ascii_def PAD_def del: push_bit_and)

lemma encode_base64_nonempty: "encode_base64 bs = [] \<longleftrightarrow> bs = []"
  by (cases bs rule: encode_base64.cases) simp_all

lemma decode_encode: "decode_base64 (encode_base64 bs) = Some bs"
proof -
  have "decode_chunks (encode_base64 bs) = Some bs"
    by (induction bs rule: encode_base64.induct)
      (simp_all add: decode_encode_chunk del: push_bit_and)
  then show ?thesis using encode_base64_shape [of bs] by (simp add: decode_base64_def)
qed

text \<open>A chunk that decodes is the encoding of its bytes: no second spelling is accepted.\<close>

lemma encode_decode_chunk:
  assumes "decode_chunk final x y z w = Some bytes"
  shows "(\<exists>a b c. bytes = [a, b, c]) \<or> final" and "encode_base64 bytes = [x, y, z, w]"
proof -
  obtain a b where ab: "base64_value x = Some a" "base64_value y = Some b"
    using assms by (auto simp: decode_chunk_def split: option.splits)
  have six: "\<not> bit v 6 \<and> \<not> bit v 7" "base64_digit v = q" if "base64_value q = Some v" for q v
    using base64_digit_value [OF that] by (simp_all add: six_bits)
  note a = six [OF ab(1)] and b = six [OF ab(2)]
  have ones: "drop_bit 2 (push_bit 2 a OR drop_bit 4 b) = a"
    by (rule byte_eqI; use a b in \<open>simp add: byte_bits\<close>)
  consider (full) c d where "base64_value z = Some c" "base64_value w = Some d" "z \<noteq> PAD" "w \<noteq> PAD"
      "bytes = [push_bit 2 a OR drop_bit 4 b, push_bit 4 b OR drop_bit 2 c, push_bit 6 c OR d]"
    | (two) c where "base64_value z = Some c" "z \<noteq> PAD" "w = PAD" "c AND 3 = 0" final
      "bytes = [push_bit 2 a OR drop_bit 4 b, push_bit 4 b OR drop_bit 2 c]"
    | (one) "z = PAD" "w = PAD" "b AND 15 = 0" final "bytes = [push_bit 2 a OR drop_bit 4 b]"
    using assms ab by (auto simp: decode_chunk_def Let_def split: if_splits option.splits)
  then have "((\<exists>a b c. bytes = [a, b, c]) \<or> final) \<and> encode_base64 bytes = [x, y, z, w]"
  proof cases
    case full
    note c = six [OF full(1)] and d = six [OF full(2)]
    have "push_bit 4 ((push_bit 2 a OR drop_bit 4 b) AND 3) OR drop_bit 4 (push_bit 4 b OR drop_bit 2 c) = b"
      "push_bit 2 ((push_bit 4 b OR drop_bit 2 c) AND 15) OR drop_bit 6 (push_bit 6 c OR d) = c"
      "(push_bit 6 c OR d) AND 63 = d"
      by (rule byte_eqI; use a b c d in \<open>simp add: byte_bits\<close>)+
    with full ones a b c d show ?thesis by (simp only: encode_base64.simps) simp
  next
    case two
    note c = six [OF two(1)]
    have low: "\<not> bit c 0 \<and> \<not> bit c 1"
    proof -
      have "bit (c AND 3) 0 = False" "bit (c AND 3) 1 = False" unfolding two(4) by simp_all
      then show ?thesis by (simp add: bit_and_iff)
    qed
    have "push_bit 4 ((push_bit 2 a OR drop_bit 4 b) AND 3) OR drop_bit 4 (push_bit 4 b OR drop_bit 2 c) = b"
      "push_bit 2 ((push_bit 4 b OR drop_bit 2 c) AND 15) OR drop_bit 6 0 = c"
      by (rule byte_eqI; use a b c low in \<open>simp add: byte_bits\<close>)+
    with two ones a b c show ?thesis by (simp only: encode_base64.simps) simp
  next
    case one
    have low: "\<not> bit b 0 \<and> \<not> bit b 1 \<and> \<not> bit b 2 \<and> \<not> bit b 3"
    proof -
      have "bit (b AND 15) 0 = False" "bit (b AND 15) 1 = False" "bit (b AND 15) 2 = False" "bit (b AND 15) 3 = False"
        unfolding one(3) by simp_all
      then show ?thesis by (simp add: bit_and_iff)
    qed
    have "push_bit 4 ((push_bit 2 a OR drop_bit 4 b) AND 3) OR drop_bit 4 0 = b"
      by (rule byte_eqI; use a b low in \<open>simp add: byte_bits\<close>)+
    with one ones a b show ?thesis by (simp only: encode_base64.simps) simp
  qed
  then show "(\<exists>a b c. bytes = [a, b, c]) \<or> final" "encode_base64 bytes = [x, y, z, w]" by auto
qed

lemma encode_decode_chunks:
  "\<lbrakk>length coded mod 4 = 0; decode_chunks coded = Some bs\<rbrakk> \<Longrightarrow> encode_base64 bs = coded"
proof (induction coded arbitrary: bs rule: decode_chunks.induct)
  case (1 x y z w rest)
  then obtain bytes bs' where d: "decode_chunk (rest = []) x y z w = Some bytes" "decode_chunks rest = Some bs'"
    "bs = bytes @ bs'" by (auto split: option.splits)
  have "length rest mod 4 = 0" using 1(2) by simp
  with 1(1) [OF d(1) _ d(2)] have "encode_base64 bs' = rest" by simp
  moreover note encode_decode_chunk [OF d(1)]
  ultimately show ?case using d(2,3) by auto
qed simp_all

interpretation base64: canonical_codec encode_base64 decode_base64 "\<lambda>_. True"
proof unfold_locales
  show "decode_base64 coded = Some bs \<Longrightarrow> True \<and> encode_base64 bs = coded" for coded bs
    by (auto simp: decode_base64_def intro: encode_decode_chunks split: if_splits)
qed (rule decode_encode)

text \<open>
  The base64 of the process host is canonical: decoding an encoding gives the bytes
  back, and a text decodes to some bytes exactly when it is the encoding of those bytes, so no two
  texts decode alike.
\<close>

theorem base64_is_canonical: "decode_base64 coded = Some bs \<longleftrightarrow> encode_base64 bs = coded"
  by (simp add: base64.dec_iff)

lemma encode_base64_length: "length (encode_base64 bs) = 4 * ((length bs + 2) div 3)"
proof (induction bs rule: encode_base64.induct)
  case (4 a b c rest)
  have "(length (a # b # c # rest) + 2) div 3 = Suc ((length rest + 2) div 3)"
    using div_add_self1 [of 3 "length rest + 2"] by simp
  with 4 show ?case by simp
qed simp_all

lemma decode_base64_length: "decode_base64 coded = Some bs \<Longrightarrow> 4 * length bs \<le> 3 * length coded"
  using encode_base64_length [of bs] by (auto simp: base64.dec_iff)

end
