(* ===== verification/Host_Protocol.thy ===== *)
theory Host_Protocol
  imports Host_Command Base64 Json "HOL-Library.Multiset"
begin

text \<open>
  The protocol of the Windows process host (\<open>windows-process-host/src/lib.rs\<close>): its closed limits,
  the request and control records, the bounded line reader, the event sequencer, the validation of a
  request and the environment block.  Deserialising a line into a record (\<open>serde\<close>'s derived code) is
  the argument \<open>from_slice\<close>, and \<open>Path::extension\<close>, whose rules are those of the platform the host is
  built for, the argument \<open>extension\<close>.
\<close>

section \<open>Constants\<close>

definition COMPONENT_NAME :: string where "COMPONENT_NAME = ''openprose-windows-process-host''"
definition REQUEST_SCHEMA :: string where "REQUEST_SCHEMA = ''openprose.windows-process-host.request/1''"
definition CONTROL_SCHEMA :: string where "CONTROL_SCHEMA = ''openprose.windows-process-host.control/1''"
definition EVENT_SCHEMA :: string where "EVENT_SCHEMA = ''openprose.windows-process-host.event/1''"
definition ERROR_SCHEMA :: string where "ERROR_SCHEMA = ''openprose.windows-process-host.error/1''"
definition IDENTITY_SCHEMA :: string where "IDENTITY_SCHEMA = ''openprose.windows-process-host.identity/1''"

definition MAX_REQUEST_BYTES :: nat where "MAX_REQUEST_BYTES = 64 * 1048576"
definition MAX_CONTROL_BYTES :: nat where "MAX_CONTROL_BYTES = 4096"
definition MAX_CHILD_STDIN_BYTES :: nat where "MAX_CHILD_STDIN_BYTES = 16 * 1048576 - 1"
definition MAX_STDIN_BASE64_CHARS :: nat where "MAX_STDIN_BASE64_CHARS = 22369620"
definition MAX_ARGV_ITEMS :: nat where "MAX_ARGV_ITEMS = 64"
definition MAX_ARGUMENT_CHARS :: nat where "MAX_ARGUMENT_CHARS = 32766"
definition MAX_ENVIRONMENT_ITEMS :: nat where "MAX_ENVIRONMENT_ITEMS = 64"
definition MAX_ENVIRONMENT_NAME_CHARS :: nat where "MAX_ENVIRONMENT_NAME_CHARS = 128"
definition MAX_ENVIRONMENT_VALUE_CHARS :: nat where "MAX_ENVIRONMENT_VALUE_CHARS = 8192"
definition MAX_PATH_CHARS :: nat where "MAX_PATH_CHARS = 32766"
definition MAX_ENVIRONMENT_BYTES :: nat where "MAX_ENVIRONMENT_BYTES = 4 * 1048576"
definition MAX_JSON_WIRE_BYTES_PER_CHAR :: nat where "MAX_JSON_WIRE_BYTES_PER_CHAR = 12"
definition MAX_JSON_FIXED_OVERHEAD :: nat where "MAX_JSON_FIXED_OVERHEAD = 64 * 1024"

lemmas host_limits = MAX_REQUEST_BYTES_def MAX_CONTROL_BYTES_def MAX_CHILD_STDIN_BYTES_def
  MAX_STDIN_BASE64_CHARS_def MAX_ARGV_ITEMS_def MAX_ARGUMENT_CHARS_def MAX_ENVIRONMENT_ITEMS_def
  MAX_ENVIRONMENT_NAME_CHARS_def MAX_ENVIRONMENT_VALUE_CHARS_def MAX_PATH_CHARS_def
  MAX_ENVIRONMENT_BYTES_def MAX_JSON_WIRE_BYTES_PER_CHAR_def MAX_JSON_FIXED_OVERHEAD_def

definition MAX_SCHEMA_REQUEST_BYTES :: nat where
  "MAX_SCHEMA_REQUEST_BYTES =
     MAX_STDIN_BASE64_CHARS
     + MAX_ARGV_ITEMS * (MAX_ARGUMENT_CHARS * MAX_JSON_WIRE_BYTES_PER_CHAR + 3)
     + MAX_ENVIRONMENT_ITEMS
       * (MAX_ENVIRONMENT_NAME_CHARS + MAX_ENVIRONMENT_VALUE_CHARS * MAX_JSON_WIRE_BYTES_PER_CHAR + 64)
     + 3 * MAX_PATH_CHARS * MAX_JSON_WIRE_BYTES_PER_CHAR
     + 128 + MAX_JSON_FIXED_OVERHEAD"

definition RUNNER_METADATA_NAMES :: "string list" where
  "RUNNER_METADATA_NAMES =
     [''OPENPROSE_INVOCATION_ID'', ''OPENPROSE_RECURSION_TOKEN'', ''OPENPROSE_RUN_NONCE'']"

section \<open>Records\<close>

record environment_entry =
  en_name :: string
  en_value :: string

record host_limits =
  hl_max_stdout_bytes :: nat
  hl_max_stderr_bytes :: nat
  hl_max_queued_chunks :: nat

datatype graceful_control = CtrlBreak | NoGraceful

record cancellation_policy =
  graceful :: graceful_control
  grace_ms :: nat
  hard_kill_after_ms :: nat

record host_request =
  hr_schema :: string
  hr_request_id :: string
  hr_executable :: string
  hr_wrapper_executable :: string
  hr_argv :: "string list"
  hr_cwd :: string
  hr_environment :: "environment_entry list"
  hr_stdin_base64 :: string
  hr_limits :: host_limits
  hr_cancellation :: cancellation_policy
  hr_run_timeout_ms :: nat

record validated_request =
  vr_request :: host_request
  vr_child_stdin :: "u8 list"
  vr_command_line :: "u16 list"
  vr_environment_block :: "u16 list"

datatype host_control = CancelControl string string \<comment> \<open>schema, reason\<close>

datatype protocol_line = Complete string | EndOfStream | Unterminated | LimitExceeded

datatype control_action = CancelRun string | ParentDisconnected | ProtocolFailure

datatype event_queue_error = Backpressure | QueueDisconnected

datatype event_phase = AwaitingStart | Streaming | Exited

record event_sequencer =
  es_request_id :: string
  es_next_sequence :: nat
  es_phase :: event_phase

section \<open>Field checks\<close>

definition identifier_byte :: "char \<Rightarrow> bool" where
  "identifier_byte b \<longleftrightarrow> ascii_alphanumeric b \<or> b \<in> set ''-_.:''"

definition validate_identifier :: "string \<Rightarrow> string \<Rightarrow> validation_error + unit" where
  "validate_identifier value field =
     require (\<not> (value = [] \<or> 128 < length value \<or> \<not> list_all identifier_byte value))
       (verror ''PROTOCOL_MALFORMED'' field
         ''identifier is empty, too long, or contains a forbidden byte'')"

definition path_separator :: "char \<Rightarrow> bool" where
  "path_separator c \<longleftrightarrow> c = CHR 0x5C \<or> c = CHR ''/''"

definition drive_absolute :: "string \<Rightarrow> bool" where
  "drive_absolute bytes \<longleftrightarrow>
     3 \<le> length bytes \<and> ascii_alphabetic (bytes ! 0) \<and> bytes ! 1 = CHR '':'' \<and> path_separator (bytes ! 2)"

definition unc_absolute :: "string \<Rightarrow> bool" where
  "unc_absolute value \<longleftrightarrow>
     starts_with [CHR 0x5C, CHR 0x5C] value
     \<and> 2 \<le> length (filter (\<lambda>part. part \<noteq> []) (split_on path_separator (drop 2 value)))"

definition validate_windows_absolute_path :: "string \<Rightarrow> string \<Rightarrow> validation_error + unit" where
  "validate_windows_absolute_path value field =
     bindE (validate_utf16_input (chars value) field) (\<lambda>_.
     bindE (require (length (chars value) \<le> MAX_PATH_CHARS)
       (verror ''REQUEST_LIMIT_EXCEEDED'' field ''path exceeds the closed character limit'')) (\<lambda>_.
     require (drive_absolute value \<or> unc_absolute value)
       (verror ''PATH_INVALID'' field ''a Windows drive-absolute or UNC path is required'')))"

definition validate_executable_path ::
  "(string \<Rightarrow> string option) \<Rightarrow> string \<Rightarrow> string \<Rightarrow> validation_error + unit" where
  "validate_executable_path extension value field =
     bindE (validate_windows_absolute_path value field) (\<lambda>_.
     require (opt_ex (eq_ignore_ascii_case ''exe'') (extension value))
       (verror ''SHELL_TARGET_REJECTED'' field ''only an explicit .exe application is accepted''))"

definition validate_limits :: "host_limits \<Rightarrow> cancellation_policy \<Rightarrow> nat \<Rightarrow> validation_error + unit" where
  "validate_limits limits cancellation run_timeout_ms =
     (if \<not> (1 \<le> hl_max_stdout_bytes limits \<and> hl_max_stdout_bytes limits \<le> 256 * 1048576)
         \<or> \<not> (1 \<le> hl_max_stderr_bytes limits \<and> hl_max_stderr_bytes limits \<le> 64 * 1048576)
         \<or> \<not> (1 \<le> hl_max_queued_chunks limits \<and> hl_max_queued_chunks limits \<le> 1024)
      then Inl (verror ''REQUEST_LIMIT_EXCEEDED'' ''limits''
        ''stream or queue limit is outside the closed host range'')
      else if run_timeout_ms = 0 \<or> 86400000 < run_timeout_ms \<or> 60000 < grace_ms cancellation
         \<or> hard_kill_after_ms cancellation = 0 \<or> 60000 < hard_kill_after_ms cancellation
      then Inl (verror ''REQUEST_LIMIT_EXCEEDED'' ''timeouts''
        ''timeout is outside the closed host range'')
      else Inr ())"

section \<open>The environment block\<close>

definition environment_name_ok :: "string \<Rightarrow> bool" where
  "environment_name_ok name \<longleftrightarrow>
     \<not> (name = [] \<or> MAX_ENVIRONMENT_NAME_CHARS < length name \<or> \<not> is_ascii name
        \<or> \<not> list_all (\<lambda>b. ascii_alphanumeric b \<or> b = CHR ''_'') name
        \<or> ascii_digit (hd name))"

text \<open>One turn of the loop: the checks of an entry, then its insertion under the upper-cased name.\<close>

definition add_entry ::
  "(string, environment_entry) btree \<Rightarrow> environment_entry
    \<Rightarrow> validation_error + (string, environment_entry) btree" where
  "add_entry entries_by_name entry =
     (if \<not> environment_name_ok (en_name entry) then
        Inl (verror ''ENVIRONMENT_INVALID'' ''environment.name''
          ''environment name is outside the closed ASCII form'')
      else bindE (validate_utf16_input (chars (en_value entry)) ''environment.value'') (\<lambda>_.
        if MAX_ENVIRONMENT_VALUE_CHARS < length (chars (en_value entry)) then
          Inl (verror ''REQUEST_LIMIT_EXCEEDED'' ''environment.value''
            ''environment value exceeds the closed character limit'')
        else let key = map to_upper (en_name entry) in
          if bt_get entries_by_name key \<noteq> None then
            Inl (verror ''ENVIRONMENT_INVALID'' ''environment.name''
              ''environment contains a duplicate case-insensitive name'')
          else Inr (bt_insert key entry entries_by_name)))"

definition require_metadata ::
  "(string, environment_entry) btree \<Rightarrow> string \<Rightarrow> validation_error + unit" where
  "require_metadata entries_by_name required =
     (case bt_get entries_by_name required of
        None \<Rightarrow> Inl (verror ''RECURSION_METADATA_MISSING'' ''environment''
          ''required runner identity metadata is absent'')
      | Some entry \<Rightarrow> require (en_value entry \<noteq> [])
          (verror ''RECURSION_METADATA_MISSING'' ''environment''
            ''required runner identity metadata is empty''))"

definition entry_units :: "environment_entry \<Rightarrow> u16 list" where
  "entry_units entry =
     utf16_encode (chars (en_name entry)) @ [61] @ utf16_encode (chars (en_value entry)) @ [0]"

definition build_environment_block :: "environment_entry list \<Rightarrow> validation_error + u16 list" where
  "build_environment_block entries =
     (if MAX_ENVIRONMENT_ITEMS < length entries then
        Inl (verror ''REQUEST_LIMIT_EXCEEDED'' ''environment'' ''too many environment entries'')
      else bindE (foldE add_entry [] entries) (\<lambda>entries_by_name.
        bindE (traverseE (require_metadata entries_by_name) RUNNER_METADATA_NAMES) (\<lambda>_.
          let block = concat (map entry_units (bt_values entries_by_name)) @ [0] in
          if MAX_ENVIRONMENT_BYTES < 2 * length block then
            Inl (verror ''REQUEST_LIMIT_EXCEEDED'' ''environment''
              ''Unicode environment block exceeds the host limit'')
          else Inr block)))"

section \<open>Validating a request\<close>

definition base64_error :: validation_error where
  "base64_error = verror ''PROTOCOL_MALFORMED'' ''stdinBase64''
     ''base64 is not canonical RFC 4648 encoding''"

definition validate_argument :: "string \<Rightarrow> validation_error + unit" where
  "validate_argument argument =
     bindE (validate_utf16_input (chars argument) ''argv'') (\<lambda>_.
     require (length (chars argument) \<le> MAX_ARGUMENT_CHARS)
       (verror ''REQUEST_LIMIT_EXCEEDED'' ''argv''
         ''one child argument exceeds the closed character limit''))"

definition validate_request ::
  "(string \<Rightarrow> string option) \<Rightarrow> host_request \<Rightarrow> validation_error + validated_request" where
  "validate_request extension r =
     bindE (require (hr_schema r = REQUEST_SCHEMA)
       (verror ''PROTOCOL_VERSION_UNSUPPORTED'' ''schema'' ''request schema is unsupported'')) (\<lambda>_.
     bindE (validate_identifier (hr_request_id r) ''requestId'') (\<lambda>_.
     bindE (validate_executable_path extension (hr_executable r) ''executable'') (\<lambda>_.
     bindE (validate_executable_path extension (hr_wrapper_executable r) ''wrapperExecutable'') (\<lambda>_.
     bindE (require (\<not> eq_ignore_ascii_case (hr_executable r) (hr_wrapper_executable r))
       (verror ''RECURSIVE_INVOCATION'' ''executable'' ''child executable equals the prose wrapper'')) (\<lambda>_.
     bindE (validate_windows_absolute_path (hr_cwd r) ''cwd'') (\<lambda>_.
     bindE (require (length (hr_argv r) \<le> MAX_ARGV_ITEMS)
       (verror ''REQUEST_LIMIT_EXCEEDED'' ''argv'' ''too many child arguments'')) (\<lambda>_.
     bindE (traverseE validate_argument (hr_argv r)) (\<lambda>_.
     bindE (validate_limits (hr_limits r) (hr_cancellation r) (hr_run_timeout_ms r)) (\<lambda>_.
     bindE (require (length (hr_stdin_base64 r) \<le> MAX_STDIN_BASE64_CHARS)
       (verror ''REQUEST_LIMIT_EXCEEDED'' ''stdinBase64''
         ''encoded child stdin exceeds the closed request limit'')) (\<lambda>_.
     bindE (ok_or base64_error (decode_base64 (hr_stdin_base64 r))) (\<lambda>child_stdin.
     bindE (require (length child_stdin \<le> MAX_CHILD_STDIN_BYTES)
       (verror ''REQUEST_LIMIT_EXCEEDED'' ''stdinBase64''
         ''decoded child stdin exceeds the host limit'')) (\<lambda>_.
     bindE (build_environment_block (hr_environment r)) (\<lambda>environment_block.
     bindE (build_command_line (chars (hr_executable r)) (map chars (hr_argv r))) (\<lambda>command_line.
     Inr \<lparr>vr_request = r, vr_child_stdin = child_stdin, vr_command_line = command_line,
          vr_environment_block = environment_block\<rparr>))))))))))))))"

definition parse_request_line ::
  "(string \<Rightarrow> string option) \<Rightarrow> (string \<Rightarrow> host_request option) \<Rightarrow> string
    \<Rightarrow> validation_error + validated_request" where
  "parse_request_line extension from_slice line =
     bindE (require (length line \<le> MAX_REQUEST_BYTES)
       (verror ''REQUEST_LIMIT_EXCEEDED'' ''request'' ''request line exceeds the host limit'')) (\<lambda>_.
     bindE (ok_or (verror ''PROTOCOL_MALFORMED'' ''request''
       ''request is not a closed valid JSON object'') (from_slice line)) (\<lambda>request.
     validate_request extension request))"

definition parse_control_line ::
  "(string \<Rightarrow> host_control option) \<Rightarrow> string \<Rightarrow> validation_error + host_control" where
  "parse_control_line from_slice line =
     bindE (require (length line \<le> MAX_CONTROL_BYTES)
       (verror ''REQUEST_LIMIT_EXCEEDED'' ''control'' ''control line exceeds the host limit'')) (\<lambda>_.
     bindE (ok_or (verror ''PROTOCOL_MALFORMED'' ''control''
       ''control is not a closed valid JSON object'') (from_slice line)) (\<lambda>control.
     case control of CancelControl schema reason \<Rightarrow>
       bindE (require (schema = CONTROL_SCHEMA)
         (verror ''PROTOCOL_VERSION_UNSUPPORTED'' ''control.schema'' ''control schema is unsupported'')) (\<lambda>_.
       bindE (validate_identifier reason ''control.reason'') (\<lambda>_. Inr control))))"

definition classify_control_line ::
  "(string \<Rightarrow> host_control option) \<Rightarrow> protocol_line \<Rightarrow> control_action" where
  "classify_control_line from_slice line =
     (case line of
        Complete encoded \<Rightarrow>
          (case parse_control_line from_slice encoded of
             Inr (CancelControl schema reason) \<Rightarrow> CancelRun reason
           | Inl _ \<Rightarrow> ProtocolFailure)
      | EndOfStream \<Rightarrow> ParentDisconnected
      | Unterminated \<Rightarrow> ProtocolFailure
      | LimitExceeded \<Rightarrow> ProtocolFailure)"

section \<open>Reading one protocol line\<close>

text \<open>
  The buffers \<open>fill_buf\<close> returns, one per refill; what a call leaves unread is the list it returns.
  The left result is the reader's I/O error.
\<close>

definition at_end :: "string \<Rightarrow> protocol_line" where
  "at_end acc = (if acc = [] then EndOfStream else Unterminated)"

definition over_limit :: "nat \<Rightarrow> string \<Rightarrow> bool" where
  "over_limit maximum u \<longleftrightarrow> maximum < length u \<and> \<not> (length u = maximum + 1 \<and> last u = CR)"

fun read_line_loop ::
  "nat \<Rightarrow> string \<Rightarrow> read_result list \<Rightarrow> (unit + protocol_line) \<times> read_result list" where
  "read_line_loop maximum acc [] = (Inr (at_end acc), [])"
| "read_line_loop maximum acc (ReadErr # rs) = (Inl (), rs)"
| "read_line_loop maximum acc (ReadOk available # rs) =
     (if available = [] then (Inr (at_end acc), rs)
      else case split_once LF available of
        Some (before, after) \<Rightarrow>
          (let acc' = (if before = [] \<and> acc \<noteq> [] \<and> last acc = CR then butlast acc else acc);
               content = drop_cr before;
               rest = (if after = [] then rs else ReadOk after # rs)
           in if maximum < length acc' + length content then (Inr LimitExceeded, rest)
              else (Inr (Complete (acc' @ content)), rest))
      | None \<Rightarrow>
          (let combined = length acc + length available;
               pending_crlf = (combined = maximum + 1 \<and> last available = CR)
           in if maximum < combined \<and> \<not> pending_crlf then (Inr LimitExceeded, rs)
              else read_line_loop maximum (acc @ available) rs))"

definition read_protocol_line ::
  "nat \<Rightarrow> read_result list \<Rightarrow> (unit + protocol_line) \<times> read_result list" where
  "read_protocol_line maximum rs = read_line_loop maximum [] rs"

section \<open>Events\<close>

definition new_sequencer :: "string \<Rightarrow> validation_error + event_sequencer" where
  "new_sequencer request_id =
     bindE (validate_identifier request_id ''requestId'') (\<lambda>_.
       Inr \<lparr>es_request_id = request_id, es_next_sequence = 0, es_phase = AwaitingStart\<rparr>)"

definition phase_after :: "event_phase \<Rightarrow> string \<Rightarrow> event_phase option" where
  "phase_after phase kind =
     (if phase = AwaitingStart \<and> kind = ''host.started''
         \<or> phase = Streaming \<and> (kind = ''child.stdout'' \<or> kind = ''child.stderr'')
      then Some Streaming
      else if phase = Streaming \<and> kind = ''host.exited'' then Some Exited
      else None)"

definition event_value :: "event_sequencer \<Rightarrow> string \<Rightarrow> json \<Rightarrow> json" where
  "event_value s kind payload =
     jobj [(''schema'', JStr EVENT_SCHEMA), (''requestId'', JStr (es_request_id s)),
       (''sequence'', JNum (PosInt (es_next_sequence s))), (''type'', JStr kind), (''payload'', payload)]"

definition next_event ::
  "event_sequencer \<Rightarrow> string \<Rightarrow> json \<Rightarrow> validation_error + (json \<times> event_sequencer)" where
  "next_event s kind payload =
     (case phase_after (es_phase s) kind of
        None \<Rightarrow> Inl (verror ''PROTOCOL_SEQUENCE_INVALID'' ''event''
          ''event kind is unknown or outside the closed lifecycle order'')
      | Some next_phase \<Rightarrow>
          (case checked_add (es_next_sequence s) 1 of
             None \<Rightarrow> Inl (verror ''PROTOCOL_SEQUENCE_INVALID'' ''event.sequence''
               ''event sequence overflowed'')
           | Some n \<Rightarrow> Inr (event_value s kind payload, s\<lparr>es_next_sequence := n, es_phase := next_phase\<rparr>)))"

text \<open>The bounded channel to the event writer and the non-blocking send.\<close>

record event_queue =
  capacity :: nat
  queued :: "json list"
  consumer_alive :: bool

definition enqueue_event :: "event_queue \<Rightarrow> json \<Rightarrow> (event_queue_error + unit) \<times> event_queue" where
  "enqueue_event q event =
     (if \<not> consumer_alive q then (Inl QueueDisconnected, q)
      else if capacity q \<le> length (queued q) then (Inl Backpressure, q)
      else (Inr (), q\<lparr>queued := queued q @ [event]\<rparr>))"

section \<open>The identity document\<close>

text \<open>The package version and the build target are arguments.\<close>

definition jnum :: "nat \<Rightarrow> json" where "jnum n = JNum (PosInt n)"

definition host_identity :: "string \<Rightarrow> string \<Rightarrow> string \<Rightarrow> bool \<Rightarrow> json" where
  "host_identity component_version os arch windows =
     jobj [(''schema'', JStr IDENTITY_SCHEMA), (''component'', JStr COMPONENT_NAME),
       (''componentVersion'', JStr component_version),
       (''target'', jobj [(''os'', JStr os), (''architecture'', JStr arch),
          (''nativeWindowsImplementation'', JBool windows)]),
       (''protocol'', jobj [(''request'', JStr REQUEST_SCHEMA), (''control'', JStr CONTROL_SCHEMA),
          (''event'', JStr EVENT_SCHEMA), (''error'', JStr ERROR_SCHEMA),
          (''maxRequestBytes'', jnum MAX_REQUEST_BYTES), (''maxControlBytes'', jnum MAX_CONTROL_BYTES),
          (''limits'', jobj [(''maxDecodedStdinBytes'', jnum MAX_CHILD_STDIN_BYTES),
             (''maxStdinBase64Characters'', jnum MAX_STDIN_BASE64_CHARS),
             (''maxArgvItems'', jnum MAX_ARGV_ITEMS), (''maxArgumentCharacters'', jnum MAX_ARGUMENT_CHARS),
             (''maxEnvironmentItems'', jnum MAX_ENVIRONMENT_ITEMS),
             (''maxEnvironmentNameCharacters'', jnum MAX_ENVIRONMENT_NAME_CHARS),
             (''maxEnvironmentValueCharacters'', jnum MAX_ENVIRONMENT_VALUE_CHARS),
             (''maxPathCharacters'', jnum MAX_PATH_CHARS),
             (''maxEnvironmentBlockBytes'', jnum MAX_ENVIRONMENT_BYTES),
             (''maxRenderedCommandLineUtf16Units'', jnum MAX_COMMAND_LINE_UTF16_UNITS)])]),
       (''claims'', jobj [(''providerCallsMade'', JBool False),
          (''nativeWindowsRuntimeEvidence'', JBool False),
          (''strictWindowsContainmentReady'', JBool False)])]"

section \<open>The line reader and buffer boundaries\<close>

text \<open>What a call promises of the whole stream, without buffers.\<close>

definition line_spec :: "nat \<Rightarrow> string \<Rightarrow> protocol_line" where
  "line_spec maximum bytes =
     (case split_once LF bytes of
        Some (l, _) \<Rightarrow> if maximum < length (drop_cr l) then LimitExceeded else Complete (drop_cr l)
      | None \<Rightarrow> if over_limit maximum bytes then LimitExceeded else at_end bytes)"

lemma drop_cr_length: "length l \<le> Suc (length (drop_cr l))"
  by (simp add: drop_cr_def)

lemma drop_cr_append: "v \<noteq> [] \<Longrightarrow> drop_cr (u @ v) = u @ drop_cr v"
  by (auto simp: drop_cr_def butlast_append)

lemma over_limit_stays:
  assumes "over_limit maximum u" "LF \<notin> set u"
  shows "line_spec maximum (u @ v) = LimitExceeded"
proof -
  have long: "maximum < length (drop_cr (u @ w))" for w
  proof (cases "w = []")
    case True
    with assms(1) show ?thesis by (auto simp: over_limit_def drop_cr_def)
  next
    case False
    with assms(1) show ?thesis by (simp add: drop_cr_append over_limit_def)
  qed
  show ?thesis
  proof (cases "split_once LF v")
    case None
    then have "LF \<notin> set (u @ v)" using assms(2) by (simp add: split_once_None)
    moreover have "over_limit maximum (u @ v)"
      using assms(1) by (cases "v = []") (auto simp: over_limit_def neq_Nil_conv)
    ultimately show ?thesis by (simp add: line_spec_def split_once_None [THEN iffD2])
  next
    case (Some lr)
    obtain l r where "lr = (l, r)" by (cases lr)
    with Some have "v = l @ LF # r" "LF \<notin> set l" by (auto simp: split_once_Some)
    then have "split_once LF (u @ v) = Some (u @ l, r)" using assms(2) by (simp add: split_once_Some)
    with long [of l] show ?thesis by (simp add: line_spec_def)
  qed
qed

lemma read_line_loop_spec:
  assumes "LF \<notin> set acc" "\<not> over_limit maximum acc" "[] \<notin> set chunks"
  shows "fst (read_line_loop maximum acc (map ReadOk chunks)) = Inr (line_spec maximum (acc @ concat chunks))"
  using assms
proof (induction chunks arbitrary: acc)
  case Nil
  then show ?case by (simp add: line_spec_def split_once_None [THEN iffD2])
next
  case (Cons c cs)
  then have c: "c \<noteq> []" by auto
  show ?case
  proof (cases "split_once LF c")
    case None
    then have free: "LF \<notin> set (acc @ c)" using Cons.prems(1) by (simp add: split_once_None)
    have lim: "over_limit maximum (acc @ c) \<longleftrightarrow>
      maximum < length acc + length c \<and> \<not> (length acc + length c = maximum + 1 \<and> last c = CR)"
      using c by (simp add: over_limit_def)
    show ?thesis
    proof (cases "over_limit maximum (acc @ c)")
      case True
      with None c lim over_limit_stays [OF True free, of "concat cs"] show ?thesis by (simp add: Let_def)
    next
      case False
      have "[] \<notin> set cs" using Cons.prems(3) by simp
      from Cons.IH [OF free False this] have IH:
        "fst (read_line_loop maximum (acc @ c) (map ReadOk cs)) = Inr (line_spec maximum (acc @ concat (c # cs)))"
        by simp
      have "read_line_loop maximum acc (map ReadOk (c # cs)) = read_line_loop maximum (acc @ c) (map ReadOk cs)"
        by (simp only: list.map read_line_loop.simps None c option.case Let_def if_False
            if_not_P [OF False [unfolded lim]])
      then show ?thesis by (simp only: IH)
    qed
  next
    case (Some lr)
    obtain l r where lr: "lr = (l, r)" by (cases lr)
    with Some have l: "c = l @ LF # r" "LF \<notin> set l" by (auto simp: split_once_Some)
    then have "split_once LF (acc @ concat (c # cs)) = Some (acc @ l, r @ concat cs)"
      unfolding split_once_Some using l Cons.prems(1) by simp
    moreover have "drop_cr (acc @ l) =
      (if l = [] \<and> acc \<noteq> [] \<and> last acc = CR then butlast acc else acc) @ drop_cr l"
    proof (cases "l = []")
      case True
      then show ?thesis by (simp add: drop_cr_def)
    next
      case False
      then show ?thesis by (simp add: drop_cr_append)
    qed
    ultimately show ?thesis
      using Some lr c by (simp add: line_spec_def Let_def del: concat.simps)
  qed
qed

text \<open>
  What a protocol read returns is a function of the bytes alone: a complete line
  without its line end (LF or CRLF), end of stream, an unterminated rest or a breach of the limit,
  and where the operating system's buffers end never changes it, not even between CR and LF at
  exactly the limit.
\<close>

theorem protocol_line_ignores_buffers:
  assumes "[] \<notin> set chunks"
  shows "fst (read_protocol_line maximum (map ReadOk chunks)) = Inr (line_spec maximum (concat chunks))"
  using read_line_loop_spec [of "[]" maximum chunks] assms
  by (simp add: read_protocol_line_def over_limit_def)

lemma protocol_line_ignores_buffers_witness:
  "fst (read_protocol_line 2 [ReadOk ''ab'', ReadOk [CR], ReadOk [LF]]) = Inr (Complete ''ab'')"
  using protocol_line_ignores_buffers [of "[''ab'', [CR], [LF]]" 2]
  by (simp add: line_spec_def drop_cr_def LF_def CR_def)

section \<open>The event lifecycle\<close>

fun streaming_kinds :: "string list \<Rightarrow> bool" where
  "streaming_kinds [] = True"
| "streaming_kinds (k # ks) =
     (if k = ''child.stdout'' \<or> k = ''child.stderr'' then streaming_kinds ks
      else k = ''host.exited'' \<and> ks = [])"

definition lifecycle :: "string list \<Rightarrow> bool" where
  "lifecycle ks = (case ks of [] \<Rightarrow> True | k # ks' \<Rightarrow> k = ''host.started'' \<and> streaming_kinds ks')"

text \<open>Successive calls of \<open>next\<close>, collecting the events.\<close>

definition sequencer_step ::
  "event_sequencer \<times> json list \<Rightarrow> string \<times> json
    \<Rightarrow> validation_error + (event_sequencer \<times> json list)" where
  "sequencer_step st kp =
     mapE (\<lambda>(event, s'). (s', snd st @ [event])) (next_event (fst st) (fst kp) (snd kp))"

definition kinds_from :: "event_phase \<Rightarrow> string list \<Rightarrow> bool" where
  "kinds_from ph ks =
     (case ph of AwaitingStart \<Rightarrow> lifecycle ks | Streaming \<Rightarrow> streaming_kinds ks | Exited \<Rightarrow> ks = [])"

lemma kinds_from_Cons:
  "kinds_from ph (k # ks) \<longleftrightarrow> (\<exists>ph'. phase_after ph k = Some ph' \<and> kinds_from ph' ks)"
  by (cases ph) (auto simp: kinds_from_def lifecycle_def phase_after_def)

definition event_list :: "string \<Rightarrow> nat \<Rightarrow> (string \<times> json) list \<Rightarrow> json list" where
  "event_list rid n kps = map (\<lambda>(i, k, payload).
     jobj [(''schema'', JStr EVENT_SCHEMA), (''requestId'', JStr rid), (''sequence'', jnum i),
       (''type'', JStr k), (''payload'', payload)]) (List.enumerate n kps)"

lemma event_list_simps:
  "event_list rid n [] = []"
  "event_list rid n ((k, payload) # kps) =
     jobj [(''schema'', JStr EVENT_SCHEMA), (''requestId'', JStr rid), (''sequence'', jnum n),
       (''type'', JStr k), (''payload'', payload)] # event_list rid (Suc n) kps"
  by (simp_all add: event_list_def enumerate_simps)

lemma sequencer_run:
  assumes "es_next_sequence s + length kps \<le> u64_max"
  shows "(case foldE sequencer_step (s, evs) kps of
      Inl _ \<Rightarrow> \<not> kinds_from (es_phase s) (map fst kps)
    | Inr (s', evs') \<Rightarrow> kinds_from (es_phase s) (map fst kps)
        \<and> evs' = evs @ event_list (es_request_id s) (es_next_sequence s) kps)"
  using assms
proof (induction kps arbitrary: s evs)
  case Nil
  show ?case by (cases "es_phase s") (simp_all add: kinds_from_def lifecycle_def event_list_simps)
next
  case (Cons kp kps)
  obtain k payload where kp: "kp = (k, payload)" by (cases kp)
  show ?case
  proof (cases "phase_after (es_phase s) k")
    case None
    then show ?thesis
      by (simp add: kp sequencer_step_def next_event_def kinds_from_Cons)
  next
    case (Some ph)
    let ?s = "s\<lparr>es_next_sequence := Suc (es_next_sequence s), es_phase := ph\<rparr>"
    have "sequencer_step (s, evs) kp = Inr (?s, evs @ [event_value s k payload])"
      using Some Cons.prems by (simp add: kp sequencer_step_def next_event_def checked_add_def)
    then show ?thesis
      using Cons.IH [of ?s "evs @ [event_value s k payload]"] Cons.prems Some
      by (simp add: kp kinds_from_Cons event_list_simps event_value_def jnum_def split: sum.splits prod.splits)
  qed
qed

text \<open>
  The event sequencer accepts exactly the closed lifecycle: one \<open>host.started\<close>, then any
  number of \<open>child.stdout\<close> and \<open>child.stderr\<close>, then at most one \<open>host.exited\<close> and nothing after it;
  and the events it makes carry the request's identity, the given kinds and payloads and the sequence
  numbers 0, 1, 2, and so on without gaps.
\<close>

theorem sequencer_enforces_lifecycle:
  assumes "new_sequencer request_id = Inr s" and "length kps \<le> u64_max"
  shows "case foldE sequencer_step (s, []) kps of
      Inl _ \<Rightarrow> \<not> lifecycle (map fst kps)
    | Inr (s', events) \<Rightarrow> lifecycle (map fst kps) \<and> events = event_list request_id 0 kps"
proof -
  have "es_next_sequence s = 0" "es_phase s = AwaitingStart" "es_request_id s = request_id"
    using assms(1) by (auto simp: new_sequencer_def result_simps)
  then show ?thesis
    using sequencer_run [of s kps "[]"] assms(2)
    by (simp add: kinds_from_def split: sum.splits prod.splits)
qed

lemma sequencer_enforces_lifecycle_witness:
  "\<exists>s. new_sequencer ''r-1'' = Inr s \<and>
    (case foldE sequencer_step (s, []) [(''host.started'', JNull), (''host.exited'', JNull)] of
      Inl _ \<Rightarrow> False
    | Inr (s', events) \<Rightarrow> events = event_list ''r-1'' 0 [(''host.started'', JNull), (''host.exited'', JNull)])"
proof -
  have "is_ok (new_sequencer ''r-1'')"
    by (simp add: new_sequencer_def validate_identifier_def identifier_byte_def ascii_defs)
  then obtain s where s: "new_sequencer ''r-1'' = Inr s" by (auto simp: is_ok_iff)
  from sequencer_enforces_lifecycle [OF s, of "[(''host.started'', JNull), (''host.exited'', JNull)]"] s
  show ?thesis by (auto simp: lifecycle_def split: sum.splits)
qed

section \<open>The environment block is read back\<close>

text \<open>
  The documented format: strings ended by a NUL unit, an empty string ending the block.
\<close>

fun split_block :: "u16 list \<Rightarrow> u16 list \<Rightarrow> u16 list list option" where
  "split_block acc [] = None"
| "split_block acc (u # us) =
     (if u = 0 then (if acc = [] then (if us = [] then Some [] else None)
                     else map_option (Cons acc) (split_block [] us))
      else split_block (acc @ [u]) us)"

definition entry_text :: "environment_entry \<Rightarrow> u16 list" where
  "entry_text e = utf16_encode (chars (en_name e)) @ [61] @ utf16_encode (chars (en_value e))"

lemma utf16_char_nonzero:
  assumes "scalar n" "n \<noteq> 0"
  shows "0 \<notin> set (utf16_char n)"
proof -
  have nz: "word_of_nat m \<noteq> (0 :: u16)" if "0 < m" "m < 65536" for m
    using that by (simp add: word_of_nat_eq_0_iff nat_dvd_not_less)
  show ?thesis
  proof (cases "n < 0x10000")
    case True
    with nz [of n] assms show ?thesis by (auto simp: utf16_char_def dest: sym)
  next
    case False
    have "(n - 0x10000) div 1024 < 1024"
      using scalar_le [OF assms(1)] by (simp add: less_mult_imp_div_less)
    moreover have "(n - 0x10000) mod 1024 < 1024" by simp
    ultimately show ?thesis
      using False nz [of "0xD800 + (n - 0x10000) div 1024"] nz [of "0xDC00 + (n - 0x10000) mod 1024"]
      by (auto simp: utf16_char_def dest: sym)
  qed
qed

lemma utf16_encode_nonzero:
  "\<lbrakk>list_all scalar ns; 0 \<notin> set ns\<rbrakk> \<Longrightarrow> 0 \<notin> set (utf16_encode ns)"
  unfolding utf16_encode_def list_all_iff using utf16_char_nonzero by fastforce

lemma split_block_text:
  "\<lbrakk>0 \<notin> set t; acc @ t \<noteq> []\<rbrakk> \<Longrightarrow> split_block acc (t @ 0 # us) = map_option (Cons (acc @ t)) (split_block [] us)"
  by (induction t arbitrary: acc) auto

lemma split_block_texts:
  "list_all (\<lambda>t. t \<noteq> [] \<and> 0 \<notin> set t) ts \<Longrightarrow> split_block [] (concat (map (\<lambda>t. t @ [0]) ts) @ [0]) = Some ts"
  by (induction ts) (auto simp: split_block_text)

definition entry_ok :: "environment_entry \<Rightarrow> bool" where
  "entry_ok e \<longleftrightarrow> environment_name_ok (en_name e) \<and> 0 \<notin> set (chars (en_value e))
     \<and> length (chars (en_value e)) \<le> MAX_ENVIRONMENT_VALUE_CHARS"

text \<open>The map built from the entries: keyed by upper-cased name, holding exactly the entries.\<close>

definition entries_ok :: "(string, environment_entry) btree \<Rightarrow> bool" where
  "entries_ok m \<longleftrightarrow> bt_invar m \<and> list_all (\<lambda>(k, e). k = map to_upper (en_name e) \<and> entry_ok e) m"

lemma mset_bt_insert: "bt_get m k = None \<Longrightarrow> mset (bt_insert k v m) = add_mset (k, v) (mset m)"
  by (induction k v m rule: bt_insert.induct) (auto split: if_splits)

lemma set_bt_insert_new: "bt_get m k = None \<Longrightarrow> set (bt_insert k v m) = insert (k, v) (set m)"
  by (metis mset_bt_insert set_mset_add_mset_insert set_mset_mset)

lemma add_entry_ok:
  assumes "add_entry m e = Inr m'"
  shows "entries_ok m \<Longrightarrow> entries_ok m'" "mset (bt_values m') = add_mset e (mset (bt_values m))"
proof -
  have e: "entry_ok e" "bt_get m (map to_upper (en_name e)) = None" "m' = bt_insert (map to_upper (en_name e)) e m"
    using assms
    by (auto simp: add_entry_def validate_utf16_input_def entry_ok_def result_simps Let_def split: if_splits)
  show "entries_ok m \<Longrightarrow> entries_ok m'"
    using e by (auto simp: entries_ok_def bt_invar_insert list_all_iff set_bt_insert_new)
  show "mset (bt_values m') = add_mset e (mset (bt_values m))"
    using mset_bt_insert [OF e(2), of e] unfolding e(3) by (simp add: mset_map)
qed

interpretation env_entries: fallible_machine add_entry entries_ok
  by unfold_locales (rule add_entry_ok(1))

lemma add_entries_values: "foldE add_entry m es = Inr m' \<Longrightarrow> mset (bt_values m') = mset (bt_values m) + mset es"
proof (induction es arbitrary: m)
  case Nil
  then show ?case by simp
next
  case (Cons e es)
  then obtain m1 where "add_entry m e = Inr m1" "foldE add_entry m1 es = Inr m'" by (auto simp: result_simps)
  with Cons.IH add_entry_ok(2) [of m e m1] show ?case by simp
qed

lemma entry_text_ok: "entry_ok e \<Longrightarrow> entry_text e \<noteq> [] \<and> 0 \<notin> set (entry_text e)"
proof -
  assume e: "entry_ok e"
  have name: "is_ascii (en_name e)" "list_all (\<lambda>b. ascii_alphanumeric b \<or> b = CHR ''_'') (en_name e)"
    using e by (auto simp: entry_ok_def environment_name_ok_def)
  then have "0 \<notin> set (chars (en_name e))"
    by (auto simp: chars_ascii list_all_iff ascii_defs)
  then have "0 \<notin> set (utf16_encode (chars (en_name e)))" by (intro utf16_encode_nonzero) simp_all
  moreover have "0 \<notin> set (utf16_encode (chars (en_value e)))"
    using e by (intro utf16_encode_nonzero) (simp_all add: entry_ok_def)
  ultimately show ?thesis by (simp add: entry_text_def)
qed

text \<open>
  An environment block that is built lists exactly the requested entries, each once,
  in ascending order of their upper-cased names, which are distinct; splitting the block by the documented rules
  gives those \<open>NAME=value\<close> strings back, whatever the values hold; the three runner metadata names are
  present and not empty; and the block is within its size limit.
\<close>

theorem environment_block_is_read_back:
  assumes "build_environment_block entries = Inr block"
  shows "\<exists>es. mset es = mset entries
    \<and> sorted_wrt (<) (map (\<lambda>e. map to_upper (en_name e)) es)
    \<and> split_block [] block = Some (map entry_text es)
    \<and> list_all (\<lambda>name. list_ex (\<lambda>e. map to_upper (en_name e) = name \<and> en_value e \<noteq> []) es)
        RUNNER_METADATA_NAMES
    \<and> 2 * length block \<le> MAX_ENVIRONMENT_BYTES"
proof -
  obtain m us where m: "foldE add_entry [] entries = Inr m"
    "traverseE (require_metadata m) RUNNER_METADATA_NAMES = Inr us"
    "block = concat (map entry_units (bt_values m)) @ [0]" "2 * length block \<le> MAX_ENVIRONMENT_BYTES"
    using assms by (auto simp: build_environment_block_def result_simps Let_def split: if_splits)
  have ok: "entries_ok m" by (rule env_entries.run_invar [OF _ m(1)]) (simp add: entries_ok_def)
  have keys: "map (\<lambda>e. map to_upper (en_name e)) (bt_values m) = bt_keys m"
    using ok by (auto simp: entries_ok_def list_all_iff)
  have "list_all (\<lambda>t. t \<noteq> [] \<and> 0 \<notin> set t) (map entry_text (bt_values m))"
    using ok entry_text_ok by (auto simp: entries_ok_def list_all_iff)
  moreover have "concat (map entry_units (bt_values m)) = concat (map (\<lambda>t. t @ [0]) (map entry_text (bt_values m)))"
    by (simp add: entry_units_def entry_text_def comp_def)
  ultimately have "split_block [] block = Some (map entry_text (bt_values m))"
    unfolding m(3) by (simp only: split_block_texts)
  moreover have "list_ex (\<lambda>e. map to_upper (en_name e) = name \<and> en_value e \<noteq> []) (bt_values m)"
    if req: "require_metadata m name = Inr u" for name u
  proof -
    obtain e where e: "bt_get m name = Some e" "en_value e \<noteq> []"
      using req by (auto simp: require_metadata_def result_simps split: option.splits)
    have "(name, e) \<in> set m" using e(1) by (rule map_of_SomeD)
    then have "e \<in> set (bt_values m)" by (simp add: rev_image_eqI)
    moreover have "map to_upper (en_name e) = name"
      using ok \<open>(name, e) \<in> set m\<close> unfolding entries_ok_def list_all_iff by auto
    ultimately show ?thesis using e(2) unfolding list_ex_iff by blast
  qed
  then have "list_all (\<lambda>name. list_ex (\<lambda>e. map to_upper (en_name e) = name \<and> en_value e \<noteq> []) (bt_values m))
      RUNNER_METADATA_NAMES"
    using m(2) by (auto simp: RUNNER_METADATA_NAMES_def result_simps)
  moreover have "mset (bt_values m) = mset entries" using add_entries_values [OF m(1)] by simp
  moreover have "sorted_wrt (<) (map (\<lambda>e. map to_upper (en_name e)) (bt_values m))"
    unfolding keys using ok by (simp add: entries_ok_def bt_invar_def)
  ultimately show ?thesis using m(4) by blast
qed

definition example_entries :: "environment_entry list" where
  "example_entries =
     [\<lparr>en_name = ''OPENPROSE_RUN_NONCE'', en_value = ''n''\<rparr>, \<lparr>en_name = ''Path'', en_value = ''p''\<rparr>,
      \<lparr>en_name = ''OPENPROSE_INVOCATION_ID'', en_value = ''i''\<rparr>,
      \<lparr>en_name = ''OPENPROSE_RECURSION_TOKEN'', en_value = ''r''\<rparr>]"

lemma example_entries_build: "is_ok (build_environment_block example_entries)"
proof -
  have c: "chars [c] = [code c]" if "code c < 128" for c
    using that by (simp add: chars_ascii is_ascii_def)
  have l: "length (utf16_encode (chars s)) = length s" if "is_ascii s" for s
  proof -
    have "code c < 65536" for c using code_less_256 [of c] by linarith
    then show ?thesis using that
      by (simp add: chars_ascii utf16_encode_def length_concat utf16_char_def comp_def)
  qed
  show ?thesis
    by (simp add: build_environment_block_def example_entries_def host_limits add_entry_def
        environment_name_ok_def validate_utf16_input_def c is_ascii_def ascii_defs to_upper_def Let_def
        RUNNER_METADATA_NAMES_def require_metadata_def entry_units_def l,
      simp add: utf16_encode_def utf16_char_def)
qed

lemma environment_block_is_read_back_witness:
  "\<exists>block es. build_environment_block example_entries = Inr block \<and> mset es = mset example_entries
    \<and> split_block [] block = Some (map entry_text es)"
proof -
  obtain block where b: "build_environment_block example_entries = Inr block"
    using example_entries_build by (auto simp: is_ok_iff)
  from environment_block_is_read_back [OF b] b show ?thesis by blast
qed

section \<open>What a validated request promises\<close>

lemma traverse_arguments: "traverseE validate_argument as = Inr us \<Longrightarrow>
    list_all (\<lambda>a. 0 \<notin> set (chars a) \<and> length (chars a) \<le> MAX_ARGUMENT_CHARS) as"
  by (induction "as" arbitrary: us) (auto simp: validate_argument_def validate_utf16_input_def result_simps)

definition bounded_request :: "host_request \<Rightarrow> bool" where
  "bounded_request r \<longleftrightarrow>
     hr_schema r = REQUEST_SCHEMA
     \<and> \<not> eq_ignore_ascii_case (hr_executable r) (hr_wrapper_executable r)
     \<and> length (hr_argv r) \<le> MAX_ARGV_ITEMS
     \<and> list_all (\<lambda>a. 0 \<notin> set (chars a) \<and> length (chars a) \<le> MAX_ARGUMENT_CHARS) (hr_argv r)
     \<and> 0 < hr_run_timeout_ms r \<and> hr_run_timeout_ms r \<le> 86400000
     \<and> hard_kill_after_ms (hr_cancellation r) \<in> {1..60000} \<and> grace_ms (hr_cancellation r) \<le> 60000
     \<and> hl_max_stdout_bytes (hr_limits r) \<in> {1..268435456}
     \<and> hl_max_stderr_bytes (hr_limits r) \<in> {1..67108864} \<and> hl_max_queued_chunks (hr_limits r) \<in> {1..1024}"

text \<open>
  A request line that is accepted yields the request it was decoded from, with a
  supported schema, a child other than the wrapper, and every count, size and timeout in its closed
  range; the decoded standard input is exactly the bytes whose canonical base64 the request holds and
  no longer than its limit; and the request line itself was within the request limit, which the
  largest request the schema admits also is.
\<close>

theorem accepted_request_is_bounded:
  assumes "parse_request_line extension from_slice line = Inr v"
  shows "from_slice line = Some (vr_request v) \<and> bounded_request (vr_request v)
    \<and> encode_base64 (vr_child_stdin v) = hr_stdin_base64 (vr_request v)
    \<and> length (vr_child_stdin v) \<le> MAX_CHILD_STDIN_BYTES
    \<and> length line \<le> MAX_REQUEST_BYTES \<and> MAX_SCHEMA_REQUEST_BYTES \<le> MAX_REQUEST_BYTES"
proof -
  obtain r where r: "length line \<le> MAX_REQUEST_BYTES" "from_slice line = Some r"
    "validate_request extension r = Inr v"
    using assms by (auto simp: parse_request_line_def result_simps)
  note v = r(3) [unfolded validate_request_def bindE_eq_Inr require_eq_Inr ok_or_eq_Inr]
  obtain us where us: "traverseE validate_argument (hr_argv r) = Inr us" using v by blast
  obtain w where "validate_limits (hr_limits r) (hr_cancellation r) (hr_run_timeout_ms r) = Inr w"
    using v by blast
  then have lim: "validate_limits (hr_limits r) (hr_cancellation r) (hr_run_timeout_ms r) = Inr ()"
    by simp
  have req: "vr_request v = r" and b64: "decode_base64 (hr_stdin_base64 r) = Some (vr_child_stdin v)"
    and stdin: "length (vr_child_stdin v) \<le> MAX_CHILD_STDIN_BYTES"
    and rest: "hr_schema r = REQUEST_SCHEMA" "length (hr_argv r) \<le> MAX_ARGV_ITEMS"
      "\<not> eq_ignore_ascii_case (hr_executable r) (hr_wrapper_executable r)"
    using v by auto
  have "bounded_request r"
    using rest traverse_arguments [OF us] lim
    by (auto simp: bounded_request_def validate_limits_def split: if_splits)
  moreover have "MAX_SCHEMA_REQUEST_BYTES \<le> MAX_REQUEST_BYTES"
    by (simp add: MAX_SCHEMA_REQUEST_BYTES_def host_limits)
  moreover have "encode_base64 (vr_child_stdin v) = hr_stdin_base64 r"
    using b64 base64.dec_iff by blast
  ultimately show ?thesis using req r(1,2) stdin by simp
qed

definition example_request :: host_request where
  "example_request =
     \<lparr>hr_schema = REQUEST_SCHEMA, hr_request_id = ''r1'', hr_executable = ''C:/a.exe'',
      hr_wrapper_executable = ''C:/prose.exe'', hr_argv = [''x''], hr_cwd = ''C:/w'',
      hr_environment = example_entries, hr_stdin_base64 = [],
      hr_limits = \<lparr>hl_max_stdout_bytes = 1, hl_max_stderr_bytes = 1, hl_max_queued_chunks = 1\<rparr>,
      hr_cancellation = \<lparr>graceful = CtrlBreak, grace_ms = 0, hard_kill_after_ms = 1\<rparr>,
      hr_run_timeout_ms = 1\<rparr>"

lemma example_request_accepted:
  "\<exists>v. parse_request_line (\<lambda>_. Some ''exe'') (\<lambda>_. Some example_request) ''{}'' = Inr v"
proof -
  obtain block where "build_environment_block example_entries = Inr block"
    using example_entries_build by (auto simp: is_ok_iff)
  moreover have "is_ok (build_command_line (chars ''C:/a.exe'') [chars ''x''])"
    by (simp add: build_command_line_def quote_windows_argument_def validate_utf16_input_def
        chars_ascii is_ascii_def is_whitespace_def DQUOTE_def Let_def utf16_encode_def utf16_char_def
        MAX_COMMAND_LINE_UTF16_UNITS_def)
  then obtain cl where "build_command_line (chars ''C:/a.exe'') [chars ''x''] = Inr cl"
    by (auto simp: is_ok_iff)
  moreover have "\<not> eq_ignore_ascii_case ''C:/a.exe'' ''C:/prose.exe''"
    by (simp add: eq_ignore_ascii_case_def)
  ultimately show ?thesis
    by (simp add: parse_request_line_def host_limits validate_request_def example_request_def
        validate_identifier_def identifier_byte_def ascii_defs validate_executable_path_def
        validate_windows_absolute_path_def validate_utf16_input_def chars_ascii is_ascii_def
        drive_absolute_def path_separator_def validate_argument_def validate_limits_def
        decode_base64_def)
qed

lemma accepted_request_is_bounded_witness:
  "\<exists>v. parse_request_line (\<lambda>_. Some ''exe'') (\<lambda>_. Some example_request) ''{}'' = Inr v
    \<and> vr_request v = example_request \<and> bounded_request example_request"
proof -
  obtain v where v: "parse_request_line (\<lambda>_. Some ''exe'') (\<lambda>_. Some example_request) ''{}'' = Inr v"
    using example_request_accepted by blast
  from accepted_request_is_bounded [OF v] v show ?thesis by auto
qed

end
