(* ===== verification/Native_Records.thy ===== *)
theory Native_Records
  imports Errors
begin

text \<open>
  The shape checks of the native tool lifecycle (\<open>installed_adapters/native_tools.rs\<close> and the helpers
  it imports from \<open>installed_adapters.rs\<close>): which records Prime and OMP may send, and when two
  messages or two argument objects count as the same.
\<close>

section \<open>Vocabulary\<close>

text \<open>\<open>o.keys().any(|k| !allowed.contains(k))\<close>, negated.\<close>

definition keys_within :: "fields \<Rightarrow> string list \<Rightarrow> bool" where
  "keys_within m allowed = list_all (\<lambda>k. k \<in> set allowed) (bt_keys m)"

definition is_one_of :: "string list \<Rightarrow> json \<Rightarrow> bool" where
  "is_one_of choices v = opt_ex (\<lambda>s. s \<in> set choices) (as_str v)"

definition opt_field_ok :: "(json \<Rightarrow> bool) \<Rightarrow> fields \<Rightarrow> string \<Rightarrow> bool" where
  "opt_field_ok p m k = opt_all p (bt_get m k)"

definition field_ok :: "(json \<Rightarrow> bool) \<Rightarrow> fields \<Rightarrow> string \<Rightarrow> bool" where
  "field_ok p m k = opt_ex p (bt_get m k)"

definition nonneg_number :: "json \<Rightarrow> bool" where
  "nonneg_number v = opt_ex (\<lambda>n. 0 \<le> n) (as_f64 v)"

definition finite_number :: "json \<Rightarrow> bool" where
  "finite_number v = opt_ex (\<lambda>n. True) (as_f64 v)"

definition count_number :: "json \<Rightarrow> bool" where
  "count_number v = opt_ex (\<lambda>n. 0 \<le> n \<and> is_integral n \<and> n \<le> 9007199254740991) (as_f64 v)"

definition nonempty_str :: "json \<Rightarrow> bool" where
  "nonempty_str v = opt_ex (\<lambda>s. s \<noteq> []) (as_str v)"

definition empty_array :: "json \<Rightarrow> bool" where
  "empty_array v = opt_ex (\<lambda>vs. vs = []) (as_array v)"

lemma empty_array_iff [simp]: "empty_array v \<longleftrightarrow> v = JArr []"
  by (cases v) (auto simp: empty_array_def)

section \<open>Records with native tool state\<close>

definition rich :: "json \<Rightarrow> bool" where
  "rich record \<longleftrightarrow>
     opt_ex (\<lambda>v. opt_ex (list_ex (\<lambda>b. jidx b ''type'' = JStr ''toolCall'' \<or> jget b ''index'' \<noteq> None)) (as_array v))
       (pointer record [''message'', ''content''])
     \<or> opt_ex (\<lambda>v. opt_ex (starts_with ''toolcall_'') (as_str v))
       (pointer record [''assistantMessageEvent'', ''type''])
     \<or> opt_ex (starts_with ''tool_execution_'') (record_type record)
     \<or> opt_ex (\<lambda>v. opt_ex (\<lambda>t. t \<noteq> []) (as_array v)) (pointer record [''data'', ''dumpTools''])"

section \<open>Size limits\<close>

definition PRIME_RPC_COLLECTION_LIMIT :: nat where "PRIME_RPC_COLLECTION_LIMIT = 4096"
definition PRIME_RPC_STRING_BYTES_LIMIT :: nat where "PRIME_RPC_STRING_BYTES_LIMIT = 65536"
definition PRIME_RPC_NESTING_LIMIT :: nat where "PRIME_RPC_NESTING_LIMIT = 32"
definition OMP_TERMINAL_COLLECTION_LIMIT :: nat where "OMP_TERMINAL_COLLECTION_LIMIT = 4096"
definition OMP_TERMINAL_STRING_BYTES_LIMIT :: nat where "OMP_TERMINAL_STRING_BYTES_LIMIT = 65536"

fun prime_bounded_json :: "json \<Rightarrow> nat \<Rightarrow> bool" where
  "prime_bounded_json (JStr s) depth \<longleftrightarrow>
     depth \<le> PRIME_RPC_NESTING_LIMIT \<and> length s \<le> PRIME_RPC_STRING_BYTES_LIMIT"
| "prime_bounded_json (JArr vs) depth \<longleftrightarrow>
     depth \<le> PRIME_RPC_NESTING_LIMIT \<and> length vs \<le> PRIME_RPC_COLLECTION_LIMIT
     \<and> list_all (\<lambda>v. prime_bounded_json v (depth + 1)) vs"
| "prime_bounded_json (JObj m) depth \<longleftrightarrow>
     depth \<le> PRIME_RPC_NESTING_LIMIT \<and> length m \<le> PRIME_RPC_COLLECTION_LIMIT
     \<and> list_all (\<lambda>(k, v). length k \<le> PRIME_RPC_STRING_BYTES_LIMIT \<and> prime_bounded_json v (depth + 1)) m"
| "prime_bounded_json v depth \<longleftrightarrow> depth \<le> PRIME_RPC_NESTING_LIMIT"

definition bounded_string :: "string \<Rightarrow> bool" where
  "bounded_string value \<longleftrightarrow> length value \<le> OMP_TERMINAL_STRING_BYTES_LIMIT"

section \<open>Prime telemetry\<close>

definition queue_keys :: "string list" where
  "queue_keys = [''queuedCount'', ''steering'', ''followUps'', ''active'']"

definition valid_active :: "json \<Rightarrow> bool" where
  "valid_active active =
     opt_ex (\<lambda>x. keys_within x [''kind'', ''phase'', ''label'']
        \<and> field_ok (is_one_of [''turn'', ''session_command'']) x ''kind''
        \<and> field_ok (is_one_of [''preparing'', ''committing'', ''running'']) x ''phase''
        \<and> opt_field_ok is_string x ''label'')
       (as_object active)"

definition valid_prime_queue :: "json \<Rightarrow> bool" where
  "valid_prime_queue record \<longleftrightarrow>
     has_exact_keys record [''type'', ''actions'']
     \<and> opt_ex (\<lambda>a. keys_within a queue_keys \<and> field_ok count_number a ''queuedCount''
          \<and> list_all (field_ok (\<lambda>v. opt_ex (list_all is_string) (as_array v)) a) [''steering'', ''followUps'']
          \<and> opt_field_ok valid_active a ''active'')
       (as_object (jidx record ''actions''))"

definition child_keys :: "string list" where
  "child_keys =
     [''id'', ''label'', ''status'', ''sessionDir'', ''parentId'', ''activeSessionId'', ''sessionName'',
      ''model'', ''answerPreview'', ''recap'', ''error'', ''durationMs'', ''toolUseCount'', ''tokenCount'',
      ''repliedSinceTask'', ''activity'']"

definition valid_activity :: "json \<Rightarrow> bool" where
  "valid_activity activity =
     opt_ex (\<lambda>a. keys_within a [''kind'', ''toolName'']
        \<and> field_ok (is_one_of [''waiting'', ''writing'', ''executing'']) a ''kind''
        \<and> opt_field_ok is_string a ''toolName'')
       (as_object activity)"

definition valid_prime_child_update :: "json \<Rightarrow> bool" where
  "valid_prime_child_update record \<longleftrightarrow>
     has_exact_keys record [''type'', ''child'']
     \<and> opt_ex (\<lambda>child. keys_within child child_keys
          \<and> list_all (field_ok nonempty_str child) [''id'', ''sessionDir'']
          \<and> field_ok is_string child ''label''
          \<and> field_ok (is_one_of [''queued'', ''running'', ''done'', ''error'', ''cancelled'']) child ''status''
          \<and> list_all (opt_field_ok is_string child)
              [''parentId'', ''activeSessionId'', ''sessionName'', ''model'', ''answerPreview'', ''recap'', ''error'']
          \<and> opt_field_ok nonneg_number child ''durationMs''
          \<and> list_all (opt_field_ok count_number child) [''toolUseCount'', ''tokenCount'']
          \<and> opt_field_ok is_boolean child ''repliedSinceTask''
          \<and> opt_field_ok valid_activity child ''activity'')
       (as_object (jidx record ''child''))"

section \<open>Custom messages\<close>

definition valid_provider_file :: "json \<Rightarrow> bool" where
  "valid_provider_file f =
     opt_ex (\<lambda>m. keys_within m [''provider'', ''id'', ''uri'', ''expiresAt'']
        \<and> is_one_of [''openai'', ''anthropic'', ''google''] (jidx f ''provider'')
        \<and> list_all (opt_field_ok is_string m) [''id'', ''uri'']
        \<and> opt_field_ok finite_number m ''expiresAt'')
       (as_object f)"

definition valid_custom_block :: "json \<Rightarrow> bool" where
  "valid_custom_block b =
     opt_ex (\<lambda>m.
        if jidx b ''type'' = JStr ''text'' then
          keys_within m [''type'', ''text'', ''textSignature''] \<and> is_string (jidx b ''text'')
          \<and> opt_field_ok is_string m ''textSignature''
        else
          jidx b ''type'' = JStr ''image''
          \<and> keys_within m [''type'', ''data'', ''mimeType'', ''detail'', ''providerFile'', ''url'']
          \<and> is_string (jidx b ''data'') \<and> is_string (jidx b ''mimeType'')
          \<and> opt_field_ok is_string m ''url''
          \<and> opt_field_ok (is_one_of [''auto'', ''low'', ''high'', ''original'']) m ''detail''
          \<and> opt_field_ok valid_provider_file m ''providerFile'')
       (as_object b)"

definition valid_custom :: "json \<Rightarrow> bool" where
  "valid_custom m =
     opt_ex (\<lambda>fs.
        keys_within fs [''role'', ''customType'', ''content'', ''display'', ''details'', ''attribution'', ''timestamp'']
        \<and> jidx m ''role'' = JStr ''custom'' \<and> is_string (jidx m ''customType'')
        \<and> is_boolean (jidx m ''display'') \<and> nonneg_number (jidx m ''timestamp'')
        \<and> opt_field_ok (is_one_of [''user'', ''agent'']) fs ''attribution''
        \<and> (is_string (jidx m ''content'')
           \<or> opt_ex (list_all valid_custom_block) (as_array (jidx m ''content''))))
       (as_object m)"

section \<open>Equality of messages\<close>

definition without :: "string \<Rightarrow> json \<Rightarrow> json" where
  "without k v = (case v of JObj m \<Rightarrow> JObj (bt_remove k m) | _ \<Rightarrow> v)"

definition text_block :: "string \<Rightarrow> json" where
  "text_block s = JArr [jobj [(''type'', JStr ''text''), (''text'', JStr s)]]"

definition pruned_result :: "json \<Rightarrow> bool" where
  "pruned_result a \<longleftrightarrow>
     jidx a ''role'' = JStr ''toolResult'' \<and> nonneg_number (jidx a ''prunedAt'')
     \<and> jidx a ''content'' \<in> set (map text_block
         [''[Superseded by a newer read of this file]'', ''[Uneventful result elided]''])"

definition same_message :: "json \<Rightarrow> json \<Rightarrow> bool \<Rightarrow> bool" where
  "same_message a b omp \<longleftrightarrow>
     (if \<not> omp \<or> jidx a ''role'' = JStr ''custom'' \<or> jidx b ''role'' = JStr ''custom'' then a = b
      else let a1 = without ''completedAt'' a; b1 = without ''completedAt'' b
        in (if pruned_result a1 then set_field ''content'' (jidx b1 ''content'') (without ''prunedAt'' a1)
            else a1) = b1)"

definition usage_keys :: "string list" where
  "usage_keys = [''input'', ''output'', ''cacheRead'', ''cacheWrite'', ''totalTokens'']"

definition valid_usage :: "json \<Rightarrow> bool" where
  "valid_usage v \<longleftrightarrow>
     has_exact_keys v (usage_keys @ [''cost''])
     \<and> list_all (\<lambda>k. nonneg_number (jidx v k)) usage_keys
     \<and> has_exact_keys (jidx v ''cost'') [''input'', ''output'', ''cacheRead'', ''cacheWrite'', ''total'']
     \<and> opt_ex (\<lambda>m. list_all nonneg_number (bt_values m)) (as_object (jidx v ''cost''))"

definition drain_message_equal :: "json \<Rightarrow> json \<Rightarrow> bool" where
  "drain_message_equal a b \<longleftrightarrow>
     (if jidx a ''role'' \<noteq> JStr ''assistant'' \<or> jidx b ''role'' \<noteq> JStr ''assistant''
         \<or> jget a ''usage'' = None \<and> jget b ''usage'' = None then a = b
      else valid_usage (jidx a ''usage'') \<and> valid_usage (jidx b ''usage'')
        \<and> without ''usage'' a = without ''usage'' b)"

section \<open>OMP records\<close>

datatype ui_disposition = Presentation | Blocked | Malformed

definition ui_allowed_fields :: "string \<Rightarrow> string list" where
  "ui_allowed_fields method =
     (if method = ''notify'' then [''type'', ''id'', ''method'', ''message'', ''notifyType'']
      else if method = ''setStatus'' then [''type'', ''id'', ''method'', ''statusKey'', ''statusText'']
      else if method = ''setWidget'' then
        [''type'', ''id'', ''method'', ''widgetKey'', ''widgetLines'', ''widgetPlacement'']
      else if method = ''setTitle'' then [''type'', ''id'', ''method'', ''title'']
      else [''type'', ''id'', ''method'', ''text''])"

definition ui_required_string :: "string \<Rightarrow> string" where
  "ui_required_string method =
     (if method = ''notify'' then ''message''
      else if method = ''setStatus'' then ''statusKey''
      else if method = ''setWidget'' then ''widgetKey''
      else if method = ''setTitle'' then ''title''
      else ''text'')"

definition bounded_text :: "json \<Rightarrow> bool" where
  "bounded_text v = opt_ex bounded_string (as_str v)"

definition omp_extension_ui_disposition :: "json \<Rightarrow> ui_disposition" where
  "omp_extension_ui_disposition record =
     (case as_object record of None \<Rightarrow> Malformed | Some object \<Rightarrow>
      case Option.bind (jget record ''method'') as_str of None \<Rightarrow> Malformed | Some method \<Rightarrow>
      if method \<notin> set [''notify'', ''setStatus'', ''setWidget'', ''setTitle'', ''set_editor_text''] then
        (if method \<in> set [''select'', ''confirm'', ''input'', ''editor'', ''open_url'', ''cancel'']
         then Blocked else Malformed)
      else if \<not> field_ok (\<lambda>v. nonempty_str v \<and> bounded_text v) object ''id'' then Malformed
      else if \<not> keys_within object (ui_allowed_fields method) then Malformed
      else if \<not> field_ok bounded_text object (ui_required_string method) then Malformed
      else if method = ''notify'' \<and> \<not> opt_field_ok (is_one_of [''info'', ''warning'', ''error'']) object ''notifyType''
        then Malformed
      else if method = ''setStatus'' \<and> \<not> opt_field_ok bounded_text object ''statusText'' then Malformed
      else if method \<noteq> ''setWidget'' then Presentation
      else if \<not> opt_field_ok (\<lambda>v. opt_ex (\<lambda>ls. length ls \<le> OMP_TERMINAL_COLLECTION_LIMIT
          \<and> list_all bounded_text ls) (as_array v)) object ''widgetLines'' then Malformed
      else if \<not> opt_field_ok (is_one_of [''aboveEditor'', ''belowEditor'']) object ''widgetPlacement'' then Malformed
      else Presentation)"

definition valid_omp_ready :: "json \<Rightarrow> bool" where
  "valid_omp_ready record =
     opt_ex (\<lambda>object.
       if length object = 1 then record_type record = Some ''ready''
       else length object = 5 \<and> record_type record = Some ''ready''
         \<and> Option.bind (jget record ''protocolVersion'') as_u64 = Some 1
         \<and> Option.bind (jget record ''supportedProtocolVersions'') as_array
             = Some [JNum (PosInt 1), JNum (PosInt 2)]
         \<and> Option.bind (jget record ''maxFrameBytes'') as_u64 = Some 1048576
         \<and> Option.bind (jget record ''maxReassembledFrameBytes'') as_u64 = Some 67108864)
       (as_object record)"

definition omp_rpc_id :: "string \<Rightarrow> string \<Rightarrow> string" where
  "omp_rpc_id invocation_id suffix = invocation_id @ ''.omp.'' @ suffix"

section \<open>Tool arguments\<close>

definition task_field :: "json \<Rightarrow> bool" where
  "task_field v \<longleftrightarrow> jidx v ''type'' = JStr ''string'' \<and> jidx v ''default'' = JStr ''task''"

definition omp_task_defaults :: "json list \<Rightarrow> bool \<times> bool" where
  "omp_task_defaults tools =
     (case filter (\<lambda>t. jidx t ''name'' = JStr ''task'') tools of
        [task] \<Rightarrow>
          (let p = jidx task ''parameters'';
               props = jidx p ''properties'';
               items = jidx props ''tasks'';
               element = jidx items ''items''
           in if jidx p ''type'' \<noteq> JStr ''object'' then (False, False)
              else (task_field (jidx props ''agent''),
                    jidx items ''type'' = JStr ''array'' \<and> jidx element ''type'' = JStr ''object''
                    \<and> task_field (jidx (jidx element ''properties'') ''agent'')))
      | _ \<Rightarrow> (False, False))"

text \<open>\<open>native_args_match\<close> in OMP mode; otherwise it is equality.\<close>

function (sequential) omp_args_match :: "json \<Rightarrow> json \<Rightarrow> bool" where
  "omp_args_match (JObj a) (JObj d) \<longleftrightarrow>
     list_all (\<lambda>(k, v). case bt_get d k of None \<Rightarrow> False | Some w \<Rightarrow> omp_args_match v w) a
     \<and> list_all (\<lambda>(k, v). bt_get a k \<noteq> None \<or> v = JNull \<or> v = JStr ''null'') d"
| "omp_args_match (JArr a) (JArr d) \<longleftrightarrow>
     length a = length d \<and> list_all (\<lambda>(v, w). omp_args_match v w) (zip a d)"
| "omp_args_match a d \<longleftrightarrow> a = d"
  by pat_completeness auto

lemma size_member: "x \<in> set xs \<Longrightarrow> f x < Suc (size_list f xs)"
  by (simp add: size_list_estimation' less_Suc_eq_le)

lemma size_entry: "(k, v) \<in> set m \<Longrightarrow> size (v :: json) < Suc (size_list (size_prod (\<lambda>_. 0) size) m)"
  using size_member [of "(k, v)" m "size_prod (\<lambda>_. 0) size"] by simp

lemma size_zip: "(v, w) \<in> set (zip xs ys) \<Longrightarrow> size (v :: json) < Suc (size_list size xs)"
  by (rule size_member) (rule set_zip_leftD)

termination omp_args_match
  by (relation "measure (\<lambda>(a, d). size a)") (auto intro: size_entry size_zip)

definition native_args_match :: "json \<Rightarrow> json \<Rightarrow> bool \<Rightarrow> bool" where
  "native_args_match actual declared omp = (if omp then omp_args_match actual declared else actual = declared)"

text \<open>The declared object with the schema default the caller filled in.\<close>

definition apply_default :: "json \<Rightarrow> json \<Rightarrow> json" where
  "apply_default a b =
     (if is_object a \<and> jidx a ''agent'' = JStr ''task'' \<and> is_object b \<and> jget b ''agent'' = None
      then set_field ''agent'' (JStr ''task'') b else b)"

definition apply_defaults :: "json \<Rightarrow> json \<Rightarrow> bool \<times> bool \<Rightarrow> json" where
  "apply_defaults actual declared defaults =
     (let d = (if fst defaults then apply_default actual declared else declared)
      in if snd defaults then
        (case (Option.bind (jget actual ''tasks'') as_array, Option.bind (jget d ''tasks'') as_array) of
           (Some a, Some b) \<Rightarrow>
             if length a = length b then set_field ''tasks'' (JArr (map2 apply_default a b)) d else d
         | _ \<Rightarrow> d)
      else d)"

definition task_args_match :: "json \<Rightarrow> json \<Rightarrow> bool \<Rightarrow> string \<Rightarrow> bool \<times> bool \<Rightarrow> bool" where
  "task_args_match actual declared omp name defaults =
     (if \<not> omp \<or> name \<noteq> ''task'' \<or> defaults = (False, False)
      then native_args_match actual declared omp
      else native_args_match actual (apply_defaults actual declared defaults) True)"

end
