(* ===== verification/Native_Drain.thy ===== *)
theory Native_Drain
  imports Native_Records Host_Command
begin

text \<open>
  The \<open>PrimeDrain\<close> of \<open>native_tools.rs\<close>: what the adapter remembers of Prime's action queue and of its
  child sessions, and when a stopped parent may be resumed by exactly one queued delivery.  A method
  that returns \<open>false\<close> (its caller then rejects the record) is \<open>None\<close> here.  The \<open>unwrap\<close>s of these
  methods are on fields \<open>valid_prime_queue\<close> or \<open>matches_agent_message\<close> has checked
  (lemmas \<open>valid_queue_shape\<close> and \<open>matched_message_shape\<close>).
\<close>

section \<open>State\<close>

datatype continuation_phase =
    Preparing | Committing | AgentStart | Running | TurnStart | CustomStart | CustomEnd

record prime_drain =
  session :: string
  segment_closed :: bool
  resumed :: bool
  queue_empty :: "bool option"
  children :: "(string, string) btree"
  previews :: "string btset"
  used :: "string btset"
  used_previews :: "string btset"
  current_queue :: "json option"
  pending_phase :: "continuation_phase option"
  pending_preview :: "string option"
  continuation_used :: bool

definition default_drain :: prime_drain where
  "default_drain =
     \<lparr>session = [], segment_closed = False, resumed = False, queue_empty = None, children = [],
      previews = {}, used = {}, used_previews = {}, current_queue = None, pending_phase = None,
      pending_preview = None, continuation_used = False\<rparr>"

section \<open>Children and queue snapshots\<close>

definition drain_child :: "json \<Rightarrow> prime_drain \<Rightarrow> prime_drain" where
  "drain_child c d =
     (case (as_str (jidx c ''activeSessionId''), as_str (jidx c ''sessionName'')) of
        (Some i, Some name) \<Rightarrow> d\<lparr>children := bt_insert i name (children d)\<rparr>
      | _ \<Rightarrow> d)"

definition no_deliveries :: "json \<Rightarrow> bool" where
  "no_deliveries a \<longleftrightarrow>
     eq_int (jidx a ''queuedCount'') 0 \<and> empty_array (jidx a ''steering'') \<and> empty_array (jidx a ''followUps'')"

definition queue_idle :: "json \<Rightarrow> bool" where
  "queue_idle a \<longleftrightarrow> no_deliveries a \<and> jget a ''active'' = None"

definition array_items :: "json \<Rightarrow> string \<Rightarrow> json list" where
  "array_items a k = (case as_array (jidx a k) of Some vs \<Rightarrow> vs | None \<Rightarrow> [])"

definition queue_items :: "json \<Rightarrow> json list" where
  "queue_items a = array_items a ''steering'' @ array_items a ''followUps''"

definition queue_previews :: "json \<Rightarrow> string list" where
  "queue_previews a = List.map_filter as_str (queue_items a)"

definition drain_queue :: "json \<Rightarrow> bool \<Rightarrow> prime_drain \<Rightarrow> prime_drain option" where
  "drain_queue a candidate d =
     (if candidate \<and> \<not> queue_idle a then None
      else if continuation_used d \<and> pending_phase d = None
        \<and> (\<not> no_deliveries a
           \<or> opt_ex (\<lambda>active. jidx active ''kind'' \<noteq> JStr ''turn'' \<or> jidx active ''phase'' \<noteq> JStr ''running'')
               (jget a ''active''))
        then None
      else Some (d\<lparr>queue_empty := Some (queue_idle a), current_queue := Some a,
             previews := previews d \<union> (set (queue_previews a) - used_previews d)\<rparr>))"

definition delivery_prefix :: string where "delivery_prefix = ''Agent message received: ''"

text \<open>\<open>prepare_queued_continuation\<close>: on the left its \<open>Err(())\<close>.\<close>

definition prepare_queued_continuation :: "prime_drain \<Rightarrow> unit + (bool \<times> prime_drain)" where
  "prepare_queued_continuation d =
     (case current_queue d of
        None \<Rightarrow> Inr (False, d)
      | Some a \<Rightarrow>
          if continuation_used d then Inr (False, d\<lparr>queue_empty := Some False\<rparr>)
          else if no_deliveries a then Inr (False, d)
          else if jget a ''active'' \<noteq> None \<or> \<not> eq_int (jidx a ''queuedCount'') 1 then Inl ()
          else if as_array (jidx a ''steering'') = None \<or> as_array (jidx a ''followUps'') = None then Inl ()
          else (case queue_items a of
              [item] \<Rightarrow>
                if children d = [] then Inl ()
                else (case as_str item of
                    None \<Rightarrow> Inl ()
                  | Some preview \<Rightarrow>
                      if \<not> starts_with delivery_prefix preview \<or> length preview = length delivery_prefix
                         \<or> preview \<in> used_previews d then Inl ()
                      else Inr (True, d\<lparr>pending_preview := Some preview, pending_phase := Some Preparing,
                             continuation_used := True, queue_empty := Some False\<rparr>))
            | _ \<Rightarrow> Inl ()))"

definition continuation_queue :: "json \<Rightarrow> string \<Rightarrow> prime_drain \<Rightarrow> prime_drain option" where
  "continuation_queue r phase d =
     (let a = jidx r ''actions''; active = jidx a ''active'' in
      if \<not> valid_prime_queue r \<or> \<not> no_deliveries a
         \<or> jidx active ''kind'' \<noteq> JStr ''turn'' \<or> jidx active ''phase'' \<noteq> JStr phase
      then None else drain_queue a False d)"

section \<open>Agent messages\<close>

definition message_separator :: "nat \<Rightarrow> bool" where
  "message_separator c \<longleftrightarrow> is_whitespace c \<or> c = 44 \<or> c = 91 \<or> c = 93"

text \<open>The closure \<open>fmt\<close>: words between separators, joined by one space.\<close>

definition fmt_words :: "string \<Rightarrow> string" where
  "fmt_words s = utf8_encode (join [32] (filter (\<lambda>w. w \<noteq> []) (split_on message_separator (chars s))))"

definition str_of :: "json \<Rightarrow> string" where
  "str_of v = (case as_str v of Some s \<Rightarrow> s | None \<Rightarrow> [])"

definition fmt_field :: "json \<Rightarrow> string \<Rightarrow> string" where
  "fmt_field v k = fmt_words (str_of (jidx v k))"

definition message_sender :: "json \<Rightarrow> string" where
  "message_sender frm =
     join '', '' (filter (\<lambda>s. s \<noteq> [])
       [fmt_field frm ''sessionName'', ''active '' @ fmt_field frm ''activeSessionId'',
        ''session '' @ fmt_field frm ''sessionId'', ''client '' @ fmt_field frm ''clientId''])"

definition message_endpoint :: "json \<Rightarrow> string" where
  "message_endpoint target =
     (case Option.bind (jget target ''sessionName'') as_str of
        Some s \<Rightarrow> if s \<noteq> [] then fmt_words s @ '', '' else []
      | None \<Rightarrow> [])
     @ ''active '' @ fmt_field target ''activeSessionId'' @ '', session '' @ fmt_field target ''sessionId''"

definition message_content :: "json \<Rightarrow> string" where
  "message_content d =
     ''[from child:'' @ fmt_field (jidx d ''from'') ''sessionName'' @ '']'' @ [LF]
     @ ''Agent-to-agent message received.'' @ [LF]
     @ ''Source: agent_message'' @ [LF]
     @ ''From: '' @ message_sender (jidx d ''from'') @ [LF]
     @ ''To: '' @ message_endpoint (jidx d ''target'') @ [LF]
     @ ''Message id: '' @ str_of (jidx d ''id'') @ [LF] @ [LF]
     @ str_of (jidx d ''message'')"

definition message_preview :: "json \<Rightarrow> string" where
  "message_preview m = delivery_prefix @ str_of (jidx (jidx m ''details'') ''message'')"

definition message_id :: "json \<Rightarrow> string" where
  "message_id m = str_of (jidx (jidx m ''details'') ''id'')"

definition message_target_ok :: "string \<Rightarrow> json \<Rightarrow> bool" where
  "message_target_ok sess target \<longleftrightarrow>
     opt_ex (\<lambda>fs. keys_within fs [''activeSessionId'', ''sessionId'', ''sessionName'', ''runtimeKind''])
       (as_object target)
     \<and> jidx target ''runtimeKind'' = JStr ''top-level'' \<and> nonempty_str (jidx target ''activeSessionId'')
     \<and> jidx target ''sessionId'' = JStr sess \<and> opt_all is_string (jget target ''sessionName'')"

definition message_source_ok :: "json \<Rightarrow> bool" where
  "message_source_ok frm \<longleftrightarrow>
     has_exact_keys frm [''activeSessionId'', ''sessionId'', ''sessionName'', ''clientId'', ''runtimeKind'']
     \<and> jidx frm ''runtimeKind'' = JStr ''subagent''
     \<and> list_all (\<lambda>k. nonempty_str (jidx frm k)) [''activeSessionId'', ''sessionId'', ''sessionName'', ''clientId'']"

definition message_shape_ok :: "string \<Rightarrow> json \<Rightarrow> bool" where
  "message_shape_ok sess m \<longleftrightarrow>
     (let d = jidx m ''details'' in
      has_exact_keys m [''role'', ''customType'', ''content'', ''display'', ''details'', ''timestamp'']
      \<and> jidx m ''role'' = JStr ''custom'' \<and> jidx m ''customType'' = JStr ''agent_message''
      \<and> jidx m ''display'' = JBool True \<and> nonneg_number (jidx m ''timestamp'')
      \<and> has_exact_keys d [''id'', ''message'', ''from'', ''fromRelationship'', ''target'']
      \<and> nonempty_str (jidx d ''id'') \<and> nonempty_str (jidx d ''message'')
      \<and> jidx d ''fromRelationship'' = JStr ''child''
      \<and> message_source_ok (jidx d ''from'') \<and> message_target_ok sess (jidx d ''target''))"

definition matches_agent_message :: "json \<Rightarrow> string option \<Rightarrow> prime_drain \<Rightarrow> bool" where
  "matches_agent_message m expected_preview d \<longleftrightarrow>
     (let det = jidx m ''details''; frm = jidx det ''from''; preview = message_preview m in
      message_shape_ok (session d) m
      \<and> message_id m \<notin> used d
      \<and> bt_get (children d) (str_of (jidx frm ''activeSessionId'')) = as_str (jidx frm ''sessionName'')
      \<and> preview \<in> previews d \<and> preview \<notin> used_previews d
      \<and> opt_all (\<lambda>expected. expected = preview) expected_preview
      \<and> jidx m ''content'' = JStr (message_content det))"

definition sole_delivery :: "string \<Rightarrow> json \<Rightarrow> bool" where
  "sole_delivery preview a \<longleftrightarrow>
     eq_int (jidx a ''queuedCount'') 1 \<and> jget a ''active'' = None \<and> queue_items a = [JStr preview]"

definition consume_agent_message :: "json \<Rightarrow> prime_drain \<Rightarrow> prime_drain" where
  "consume_agent_message m d =
     (let preview = message_preview m;
          d' = d\<lparr>used := insert (message_id m) (used d), previews := previews d - {preview},
                 used_previews := insert preview (used_previews d)\<rparr>
      in if opt_ex (sole_delivery preview) (current_queue d') then d'\<lparr>current_queue := None\<rparr> else d')"

definition drain_history :: "json list \<Rightarrow> json list \<Rightarrow> prime_drain \<Rightarrow> prime_drain option" where
  "drain_history observed streamed d =
     (if list_all2 drain_message_equal observed streamed then Some d
      else if \<not> resumed d \<or> length observed \<noteq> length streamed + 1
        \<or> \<not> list_all2 drain_message_equal (tl observed) streamed then None
      else if matches_agent_message (hd observed) None d
        then Some (consume_agent_message (hd observed) d) else None)"

section \<open>The unwraps are guarded\<close>

lemma valid_queue_shape:
  assumes "valid_prime_queue r"
  shows "\<exists>xs ys. jidx (jidx r ''actions'') ''steering'' = JArr (map JStr xs)
    \<and> jidx (jidx r ''actions'') ''followUps'' = JArr (map JStr ys)"
proof -
  obtain a where "jidx r ''actions'' = JObj a"
    "list_all (field_ok (\<lambda>v. opt_ex (list_all is_string) (as_array v)) a) [''steering'', ''followUps'']"
    using assms unfolding valid_prime_queue_def opt_ex_iff by auto
  then have a: "jidx r ''actions'' = JObj a"
    "field_ok (\<lambda>v. opt_ex (list_all is_string) (as_array v)) a ''steering''"
    "field_ok (\<lambda>v. opt_ex (list_all is_string) (as_array v)) a ''followUps''"
    by simp_all
  have strs: "\<exists>xs. vs = map JStr xs" if "list_all is_string vs" for vs
    using that
  proof (induction vs)
    case Nil
    show ?case by simp
  next
    case (Cons v vs)
    then obtain xs where "vs = map JStr xs" by auto
    moreover obtain x where "v = JStr x" using Cons.prems by (auto simp: is_string_def)
    ultimately show ?case by (intro exI [of _ "x # xs"]) simp
  qed
  have "\<exists>xs. jidx (JObj a) k = JArr (map JStr xs)"
    if f: "field_ok (\<lambda>v. opt_ex (list_all is_string) (as_array v)) a k" for k
  proof -
    obtain vs where "bt_get a k = Some (JArr vs)" "list_all is_string vs"
      using f unfolding field_ok_def opt_ex_iff by auto
    then show ?thesis using strs by auto
  qed
  from this [OF a(2)] this [OF a(3)] show ?thesis unfolding a(1) by blast
qed

lemma matched_message_shape:
  assumes "matches_agent_message m e d"
  shows "jidx (jidx m ''details'') ''id'' = JStr (message_id m)" "message_id m \<noteq> []"
    "message_preview m \<in> previews d" "message_preview m \<notin> used_previews d" "message_id m \<notin> used d"
  using assms
  by (auto simp: matches_agent_message_def message_shape_ok_def nonempty_str_def message_id_def str_of_def
      Let_def opt_ex_def split: option.splits)

section \<open>A delivery is used once\<close>

text \<open>The previews still open never include a used one.\<close>

definition drain_ok :: "prime_drain \<Rightarrow> bool" where
  "drain_ok d \<longleftrightarrow> previews d \<inter> used_previews d = {}
     \<and> (pending_phase d \<noteq> None \<longrightarrow> continuation_used d) \<and> (pending_preview d \<noteq> None \<longrightarrow> continuation_used d)"

lemma drain_child_keeps [simp]:
  "used (drain_child c d) = used d" "used_previews (drain_child c d) = used_previews d"
  "previews (drain_child c d) = previews d" "continuation_used (drain_child c d) = continuation_used d"
  "pending_phase (drain_child c d) = pending_phase d" "pending_preview (drain_child c d) = pending_preview d"
  "session (drain_child c d) = session d" "queue_empty (drain_child c d) = queue_empty d"
  "resumed (drain_child c d) = resumed d" "segment_closed (drain_child c d) = segment_closed d"
  by (auto simp: drain_child_def split: option.splits)

lemma drain_ok_child: "drain_ok d \<Longrightarrow> drain_ok (drain_child c d)"
  by (simp add: drain_ok_def)

lemma drain_queue_Some:
  "drain_queue a candidate d = Some d' \<Longrightarrow>
     d' = d\<lparr>queue_empty := Some (queue_idle a), current_queue := Some a,
            previews := previews d \<union> (set (queue_previews a) - used_previews d)\<rparr>
     \<and> (candidate \<longrightarrow> queue_idle a)"
  by (auto simp: drain_queue_def split: if_splits)

lemma drain_ok_queue: "\<lbrakk>drain_ok d; drain_queue a candidate d = Some d'\<rbrakk> \<Longrightarrow> drain_ok d'"
  by (auto dest!: drain_queue_Some simp: drain_ok_def)

lemma drain_ok_continuation_queue: "\<lbrakk>drain_ok d; continuation_queue r phase d = Some d'\<rbrakk> \<Longrightarrow> drain_ok d'"
  by (auto simp: continuation_queue_def Let_def intro: drain_ok_queue split: if_splits)

lemma prepare_cases:
  assumes "prepare_queued_continuation d = Inr (b, d')"
  shows "d' = d \<and> \<not> b \<or> d' = d\<lparr>queue_empty := Some False\<rparr> \<and> \<not> b \<and> continuation_used d
    \<or> b \<and> \<not> continuation_used d \<and> (\<exists>preview. preview \<notin> used_previews d \<and> starts_with delivery_prefix preview
        \<and> d' = d\<lparr>pending_preview := Some preview, pending_phase := Some Preparing,
                 continuation_used := True, queue_empty := Some False\<rparr>)"
  using assms
  by (auto simp: prepare_queued_continuation_def split: option.splits if_splits list.splits)

lemma drain_ok_prepare: "\<lbrakk>drain_ok d; prepare_queued_continuation d = Inr (b, d')\<rbrakk> \<Longrightarrow> drain_ok d'"
  by (drule prepare_cases) (auto simp: drain_ok_def)

lemma consume_fields [simp]:
  "used (consume_agent_message m d) = insert (message_id m) (used d)"
  "used_previews (consume_agent_message m d) = insert (message_preview m) (used_previews d)"
  "previews (consume_agent_message m d) = previews d - {message_preview m}"
  "continuation_used (consume_agent_message m d) = continuation_used d"
  "pending_phase (consume_agent_message m d) = pending_phase d"
  "pending_preview (consume_agent_message m d) = pending_preview d"
  "queue_empty (consume_agent_message m d) = queue_empty d"
  "resumed (consume_agent_message m d) = resumed d"
  "segment_closed (consume_agent_message m d) = segment_closed d"
  "session (consume_agent_message m d) = session d"
  by (auto simp: consume_agent_message_def Let_def)

lemma drain_ok_consume: "drain_ok d \<Longrightarrow> drain_ok (consume_agent_message m d)"
  by (auto simp: drain_ok_def)

lemma drain_history_cases:
  assumes "drain_history observed streamed d = Some d'"
  shows "d' = d \<and> list_all2 drain_message_equal observed streamed
    \<or> resumed d \<and> (\<exists>m rest. observed = m # rest \<and> matches_agent_message m None d
        \<and> list_all2 drain_message_equal rest streamed \<and> d' = consume_agent_message m d)"
  using assms by (cases observed) (auto simp: drain_history_def split: if_splits)

lemma drain_ok_history: "\<lbrakk>drain_ok d; drain_history observed streamed d = Some d'\<rbrakk> \<Longrightarrow> drain_ok d'"
  by (auto dest!: drain_history_cases intro: drain_ok_consume)

end
