(* ===== verification/Native_Tools.thy ===== *)
theory Native_Tools
  imports Native_Drain
begin

text \<open>
  The native tool lifecycle \<open>normalize_mode\<close> of \<open>native_tools.rs\<close>: one step per record over the
  variables of its loop, with every early \<open>return\<close> a value on the left.  \<open>continue\<close> and the end of
  the loop body are the step's result on the right.
\<close>

section \<open>State\<close>

text \<open>A declared call: name, arguments, stage (0 declared, 1 started, 2 ended, 3 settled), result, error flag.\<close>

record tool_call =
  c_name :: string
  c_args :: json
  c_stage :: nat
  c_result :: "json option"
  c_error :: "bool option"

record native =
  n_ready :: bool
  n_commands :: bool
  n_inventory :: bool
  n_ack :: bool
  n_started :: bool
  n_turn :: bool
  n_user :: bool
  n_ended :: bool
  n_open :: "json option"
  n_assistant :: "json option"
  n_last_stop :: "string option"
  n_history :: "json list"
  n_omitted :: "(nat, json) btree"
  n_results :: "json list"
  n_texts :: "string list"
  n_block_types :: "(nat, string) btree"
  n_task_defaults :: "bool \<times> bool"
  n_async :: "(string, json \<times> string) btree"
  n_calls :: "(string, tool_call) btree"
  n_drain :: prime_drain

text \<open>The arguments that stay fixed during the loop.\<close>

record native_mode =
  m_id :: string
  m_omp :: bool
  m_drain :: bool

definition initial_native :: "native_mode \<Rightarrow> native" where
  "initial_native p =
     \<lparr>n_ready = (\<not> m_omp p), n_commands = (\<not> m_omp p), n_inventory = (\<not> m_omp p), n_ack = False,
      n_started = False, n_turn = False, n_user = False, n_ended = False, n_open = None,
      n_assistant = None, n_last_stop = None, n_history = [], n_omitted = [], n_results = [],
      n_texts = [], n_block_types = [], n_task_defaults = (False, False), n_async = [], n_calls = [],
      n_drain = default_drain\<rparr>"

abbreviation all_settled :: "native \<Rightarrow> bool" where
  "all_settled s \<equiv> list_all (\<lambda>c. c_stage c = 3) (bt_values (n_calls s))"

section \<open>The error of a rejected record\<close>

definition phase_name :: "native \<Rightarrow> string" where
  "phase_name s =
     (if n_ended s then ''complete''
      else if \<not> n_started s then ''tool-await-agent-start''
      else if n_open s \<noteq> None then ''tool-message-open''
      else if n_turn s then ''tool-turn-open''
      else if n_last_stop s = Some ''toolUse'' then ''tool-await-next-turn''
      else ''tool-await-agent-end'')"

definition delta_count :: "string \<Rightarrow> json list \<Rightarrow> nat" where
  "delta_count kind records =
     length (filter (\<lambda>v. pointer v [''assistantMessageEvent'', ''type''] = Some (JStr kind)) records)"

definition u32_max :: nat where "u32_max = 4294967295"

definition bad_record :: "native_mode \<Rightarrow> json list \<Rightarrow> native \<Rightarrow> runner_error" where
  "bad_record p past s =
     (let error = catalog ProtocolMalformed; jn = (\<lambda>n. JNum (PosInt n)) in
      if m_omp p then error
      else with_detail error ''adapterDiagnostic''
        (jobj [(''schema'', JStr ''openprose.adapter-diagnostic/1''), (''adapterId'', JStr ''prime/rpc''),
           (''stage'', JStr ''prime-lifecycle''), (''phase'', JStr (phase_name s)),
           (''counters'', jobj [(''acceptedRecords'', jn (min (length past) u32_max)),
              (''thinkingDeltas'', jn (min (delta_count ''thinking_delta'' past) u32_max)),
              (''textDeltas'', jn (min (delta_count ''text_delta'' past) u32_max)),
              (''saturated'', JBool (u32_max < length past))])]))"

type_synonym native_result = "runner_error + native"

section \<open>Start-up records\<close>

definition command_keys :: "string list" where "command_keys = [''id'', ''type'', ''command'', ''success'']"

definition state_response :: "native_mode \<Rightarrow> runner_error \<Rightarrow> native \<Rightarrow> json \<Rightarrow> native_result" where
  "state_response p bad s r =
     (if \<not> has_exact_keys r (command_keys @ [''data'']) \<or> \<not> is_object (jidx r ''data'')
         \<or> jidx r ''id'' \<noteq> JStr (m_id p @ ''.prime.state.1'')
         \<or> jidx r ''command'' \<noteq> JStr ''get_state'' \<or> jidx r ''success'' \<noteq> JBool True
         \<or> jidx (jidx r ''data'') ''isStreaming'' \<noteq> JBool False
         \<or> \<not> eq_int (jidx (jidx r ''data'') ''messageCount'') 0
      then Inl bad
      else case as_str (jidx (jidx r ''data'') ''sessionId'') of
          Some sess \<Rightarrow> if sess = [] then Inl bad else Inr (s\<lparr>n_drain := (n_drain s)\<lparr>session := sess\<rparr>\<rparr>)
        | None \<Rightarrow> Inl bad)"

definition inventory_response :: "native_mode \<Rightarrow> runner_error \<Rightarrow> native \<Rightarrow> json \<Rightarrow> native_result" where
  "inventory_response p bad s r =
     (if jidx r ''id'' \<noteq> JStr (omp_rpc_id (m_id p) ''state.1'') \<or> jidx r ''command'' \<noteq> JStr ''get_state''
         \<or> \<not> has_exact_keys r (command_keys @ [''data'']) then Inl bad
      else if jidx r ''success'' \<noteq> JBool True then Inl (catalog HarnessFailed)
      else case Option.bind (pointer r [''data'', ''dumpTools'']) as_array of
          None \<Rightarrow> Inl bad
        | Some tools \<Rightarrow>
            if list_ex (\<lambda>t. \<not> nonempty_str (jidx t ''name'')) tools then Inl bad
            else Inr (s\<lparr>n_task_defaults := omp_task_defaults tools, n_inventory := True\<rparr>))"

definition response_step :: "native_mode \<Rightarrow> runner_error \<Rightarrow> native \<Rightarrow> json \<Rightarrow> native_result" where
  "response_step p bad s r =
     (if m_drain p \<and> session (n_drain s) = [] then state_response p bad s r
      else if m_omp p \<and> \<not> n_inventory s then inventory_response p bad s r
      else
        let expected = (if m_omp p then omp_rpc_id (m_id p) ''prompt.1'' else m_id p) in
        if n_ack s \<or> jidx r ''id'' \<noteq> JStr expected \<or> jidx r ''command'' \<noteq> JStr ''prompt''
           \<or> \<not> has_exact_keys r command_keys then Inl bad
        else if jidx r ''success'' \<noteq> JBool True then Inl (catalog HarnessFailed)
        else Inr (s\<lparr>n_ack := True\<rparr>))"

section \<open>A pending queued continuation\<close>

definition queue_phase :: "continuation_phase \<Rightarrow> string" where
  "queue_phase ph =
     (case ph of Preparing \<Rightarrow> ''preparing'' | Committing \<Rightarrow> ''committing'' | _ \<Rightarrow> ''running'')"

definition after_queue_phase :: "continuation_phase \<Rightarrow> continuation_phase" where
  "after_queue_phase ph =
     (case ph of Preparing \<Rightarrow> Committing | Committing \<Rightarrow> AgentStart | _ \<Rightarrow> TurnStart)"

definition continuation_action ::
  "runner_error \<Rightarrow> native \<Rightarrow> json \<Rightarrow> string \<Rightarrow> continuation_phase \<Rightarrow> native_result" where
  "continuation_action bad s r kind ph =
     (if kind \<noteq> ''session_action_update'' then Inl bad
      else case continuation_queue r (queue_phase ph) (n_drain s) of
          None \<Rightarrow> Inl bad
        | Some d \<Rightarrow> Inr (s\<lparr>n_drain := d\<lparr>pending_phase := Some (after_queue_phase ph)\<rparr>\<rparr>))"

definition continuation_agent_start :: "runner_error \<Rightarrow> native \<Rightarrow> json \<Rightarrow> string \<Rightarrow> native_result" where
  "continuation_agent_start bad s r kind =
     (if kind \<noteq> ''agent_start'' \<or> \<not> has_exact_keys r [''type''] \<or> n_turn s \<or> n_open s \<noteq> None \<or> \<not> n_started s
      then Inl bad
      else Inr (s\<lparr>n_history := [], n_omitted := [], n_assistant := None, n_calls := [], n_results := [],
             n_last_stop := None, n_user := False,
             n_drain := (n_drain s)\<lparr>segment_closed := False, resumed := True, pending_phase := Some Running\<rparr>\<rparr>))"

definition continuation_turn_start :: "runner_error \<Rightarrow> native \<Rightarrow> json \<Rightarrow> string \<Rightarrow> native_result" where
  "continuation_turn_start bad s r kind =
     (if kind \<noteq> ''turn_start'' \<or> \<not> has_exact_keys r [''type''] \<or> n_turn s \<or> n_open s \<noteq> None then Inl bad
      else Inr (s\<lparr>n_turn := True, n_drain := (n_drain s)\<lparr>pending_phase := Some CustomStart\<rparr>\<rparr>))"

definition continuation_custom_start :: "runner_error \<Rightarrow> native \<Rightarrow> json \<Rightarrow> string \<Rightarrow> native_result" where
  "continuation_custom_start bad s r kind =
     (let m = jidx r ''message''; d = n_drain s in
      if kind \<noteq> ''message_start'' \<or> \<not> has_exact_keys r [''type'', ''message''] \<or> \<not> n_turn s
         \<or> n_open s \<noteq> None \<or> n_user s \<or> n_assistant s \<noteq> None
         \<or> \<not> matches_agent_message m (pending_preview d) d then Inl bad
      else Inr (s\<lparr>n_open := Some m, n_drain := d\<lparr>pending_phase := Some CustomEnd\<rparr>\<rparr>))"

definition continuation_custom_end :: "runner_error \<Rightarrow> native \<Rightarrow> json \<Rightarrow> string \<Rightarrow> native_result" where
  "continuation_custom_end bad s r kind =
     (let m = jidx r ''message''; d = n_drain s in
      if kind \<noteq> ''message_end'' \<or> \<not> has_exact_keys r [''type'', ''message''] \<or> n_open s \<noteq> Some m
         \<or> \<not> matches_agent_message m (pending_preview d) d then Inl bad
      else Inr (s\<lparr>n_history := n_history s @ [m], n_open := None, n_user := True,
             n_drain := (consume_agent_message m d)\<lparr>pending_phase := None, pending_preview := None\<rparr>\<rparr>))"

definition continuation_step ::
  "runner_error \<Rightarrow> native \<Rightarrow> json \<Rightarrow> string \<Rightarrow> continuation_phase \<Rightarrow> native_result" where
  "continuation_step bad s r kind ph =
     (case ph of
        AgentStart \<Rightarrow> continuation_agent_start bad s r kind
      | TurnStart \<Rightarrow> continuation_turn_start bad s r kind
      | CustomStart \<Rightarrow> continuation_custom_start bad s r kind
      | CustomEnd \<Rightarrow> continuation_custom_end bad s r kind
      | _ \<Rightarrow> continuation_action bad s r kind ph)"

section \<open>Telemetry records\<close>

definition async_step :: "runner_error \<Rightarrow> native \<Rightarrow> json \<Rightarrow> json \<times> string \<Rightarrow> native_result" where
  "async_step bad s r task =
     (let a = jidx (jidx (jidx r ''partialResult'') ''details'') ''async'' in
      if \<not> n_started s \<or> jidx r ''toolName'' \<noteq> JStr ''task''
         \<or> \<not> task_args_match (jidx r ''args'') (fst task) True ''task'' (n_task_defaults s)
         \<or> jidx a ''type'' \<noteq> JStr ''task'' \<or> jidx a ''jobId'' \<noteq> JStr (snd task)
         \<or> \<not> is_one_of [''running'', ''completed'', ''failed''] (jidx a ''state'')
      then Inl bad else Inr s)"

definition queue_step :: "native_mode \<Rightarrow> runner_error \<Rightarrow> native \<Rightarrow> json \<Rightarrow> native_result" where
  "queue_step p bad s r =
     (if m_omp p \<or> \<not> n_started s \<or> \<not> valid_prime_queue r then Inl bad
      else if m_drain p then
        (case drain_queue (jidx r ''actions'') (n_ended s) (n_drain s) of
           None \<Rightarrow> Inl bad
         | Some d \<Rightarrow> Inr (s\<lparr>n_drain := d\<rparr>))
      else Inr s)"

definition child_step :: "native_mode \<Rightarrow> runner_error \<Rightarrow> native \<Rightarrow> json \<Rightarrow> native_result" where
  "child_step p bad s r =
     (if m_omp p \<or> \<not> n_started s \<or> \<not> valid_prime_child_update r then Inl bad
      else if m_drain p then Inr (s\<lparr>n_drain := drain_child (jidx r ''child'') (n_drain s)\<rparr>)
      else Inr s)"

text \<open>A new turn or message after a segment was closed by \<open>agent_end\<close> starts the next segment.\<close>

definition reopen_segment :: "native_mode \<Rightarrow> native \<Rightarrow> string \<Rightarrow> native" where
  "reopen_segment p s kind =
     (if m_drain p \<and> segment_closed (n_drain s) \<and> kind \<in> set [''turn_start'', ''message_start''] then
        s\<lparr>n_drain := (n_drain s)\<lparr>segment_closed := False, resumed := True, queue_empty := Some False\<rparr>,
          n_history := [], n_omitted := []\<rparr>
      else s)"

section \<open>Turns and messages\<close>

definition agent_start_step :: "runner_error \<Rightarrow> native \<Rightarrow> native_result" where
  "agent_start_step bad s = (if n_started s then Inl bad else Inr (s\<lparr>n_started := True\<rparr>))"

definition turn_start_step :: "runner_error \<Rightarrow> native \<Rightarrow> native_result" where
  "turn_start_step bad s =
     (if \<not> n_started s \<or> n_turn s \<or> n_open s \<noteq> None \<or> opt_ex (\<lambda>x. x \<noteq> ''toolUse'') (n_last_stop s)
      then Inl bad
      else Inr (s\<lparr>n_turn := True, n_assistant := None, n_calls := [], n_results := []\<rparr>))"

definition stopped_for_tools :: "native \<Rightarrow> bool" where
  "stopped_for_tools s = opt_ex (\<lambda>a. jidx a ''stopReason'' = JStr ''toolUse'') (n_assistant s)"

definition fresh_assistant :: "json \<Rightarrow> bool" where
  "fresh_assistant m \<longleftrightarrow> jidx m ''role'' = JStr ''assistant'' \<and> empty_array (jidx m ''content'')"

definition omitted_entry :: "string \<Rightarrow> tool_call \<Rightarrow> json option \<Rightarrow> json" where
  "omitted_entry tool_id call opened =
     jobj [(''id'', JStr tool_id), (''name'', JStr (c_name call)),
       (''result'', case c_result call of Some v \<Rightarrow> v | None \<Rightarrow> JNull),
       (''isError'', case c_error call of Some b \<Rightarrow> JBool b | None \<Rightarrow> JNull),
       (''started'', case opened of Some v \<Rightarrow> v | None \<Rightarrow> JNull)]"

text \<open>A single completed result whose notification was omitted.\<close>

definition infer_omitted_result :: "native_mode \<Rightarrow> native \<Rightarrow> json \<Rightarrow> native" where
  "infer_omitted_result p s m =
     (if m_drain p \<and> n_started s \<and> n_turn s
         \<and> opt_all (\<lambda>v. jidx v ''role'' = JStr ''toolResult'') (n_open s)
         \<and> stopped_for_tools s \<and> fresh_assistant m \<and> n_results s = []
      then (case n_calls s of
          [(tool_id, call)] \<Rightarrow>
            if c_stage call = 2 \<and> opt_ex (\<lambda>v. is_array (jidx v ''content'')) (c_result call) \<and> c_error call \<noteq> None
            then s\<lparr>n_omitted := bt_insert (length (n_history s) + length (n_omitted s))
                      (omitted_entry tool_id call (n_open s)) (n_omitted s),
                   n_open := None, n_last_stop := Some ''toolUse'', n_turn := True, n_assistant := None,
                   n_calls := [], n_results := []\<rparr>
            else s
        | _ \<Rightarrow> s)
      else s)"

text \<open>Both the turn's end and the next turn's start are missing.\<close>

definition infer_turn_end :: "native_mode \<Rightarrow> native \<Rightarrow> json \<Rightarrow> native" where
  "infer_turn_end p s m =
     (if m_drain p \<and> n_started s \<and> n_turn s \<and> n_open s = None \<and> stopped_for_tools s \<and> fresh_assistant m
         \<and> n_calls s \<noteq> [] \<and> length (n_results s) = length (n_calls s) \<and> all_settled s
      then s\<lparr>n_last_stop := Some ''toolUse'', n_turn := False\<rparr> else s)"

text \<open>Only the next turn's start is missing.\<close>

definition infer_turn_start :: "native_mode \<Rightarrow> native \<Rightarrow> json \<Rightarrow> native" where
  "infer_turn_start p s m =
     (if \<not> m_omp p \<and> n_started s \<and> \<not> n_turn s \<and> n_open s = None \<and> n_last_stop s = Some ''toolUse''
         \<and> fresh_assistant m \<and> n_calls s \<noteq> [] \<and> all_settled s
      then s\<lparr>n_turn := True, n_assistant := None, n_calls := [], n_results := []\<rparr> else s)"

definition find_call :: "native \<Rightarrow> json \<Rightarrow> (string \<times> tool_call) option" where
  "find_call s v =
     (case as_str v of None \<Rightarrow> None
      | Some key \<Rightarrow> map_option (\<lambda>c. (key, c)) (bt_get (n_calls s) key))"

definition set_call :: "string \<Rightarrow> tool_call \<Rightarrow> native \<Rightarrow> native" where
  "set_call key call s = s\<lparr>n_calls := bt_insert key call (n_calls s)\<rparr>"

definition opened :: "json \<Rightarrow> native \<Rightarrow> native_result" where
  "opened m s = Inr (s\<lparr>n_open := Some m\<rparr>)"

definition open_result :: "runner_error \<Rightarrow> native \<Rightarrow> json \<Rightarrow> native_result" where
  "open_result bad s m =
     (case find_call s (jidx m ''toolCallId'') of
        None \<Rightarrow> Inl bad
      | Some (key, call) \<Rightarrow>
          if c_stage call \<noteq> 2 \<or> jidx m ''toolName'' \<noteq> JStr (c_name call) then Inl bad else opened m s)"

definition open_role :: "native_mode \<Rightarrow> runner_error \<Rightarrow> native \<Rightarrow> json \<Rightarrow> string \<Rightarrow> native_result" where
  "open_role p bad s m role =
     (if role = ''user'' \<and> \<not> n_user s \<and> n_assistant s = None then opened m s
      else if role = ''custom'' \<and> m_omp p \<and> n_assistant s = None \<and> valid_custom m then opened m s
      else if role = ''assistant'' \<and> n_user s \<and> n_assistant s = None then opened m (s\<lparr>n_block_types := []\<rparr>)
      else if role = ''toolResult'' then open_result bad s m
      else Inl bad)"

definition open_message :: "native_mode \<Rightarrow> runner_error \<Rightarrow> native \<Rightarrow> json \<Rightarrow> native_result" where
  "open_message p bad s m =
     (if \<not> n_turn s \<or> n_open s \<noteq> None then Inl bad
      else case as_str (jidx m ''role'') of
          None \<Rightarrow> Inl bad
        | Some role \<Rightarrow> open_role p bad s m role)"

definition message_start_step :: "native_mode \<Rightarrow> runner_error \<Rightarrow> native \<Rightarrow> json \<Rightarrow> native_result" where
  "message_start_step p bad s r =
     (case jget r ''message'' of
        None \<Rightarrow> Inl bad
      | Some m \<Rightarrow>
          if \<not> is_object m then Inl bad
          else
            let s1 = infer_omitted_result p s m; s2 = infer_turn_end p s1 m; s3 = infer_turn_start p s2 m
            in open_message p bad s3 m)"

definition update_types :: "string list" where
  "update_types =
     [''text_start'', ''text_delta'', ''text_end'', ''thinking_start'', ''thinking_delta'', ''thinking_end'',
      ''toolcall_start'', ''toolcall_delta'', ''toolcall_end'']"

definition expected_block :: "string \<Rightarrow> string" where
  "expected_block t =
     (if starts_with ''toolcall_'' t then ''toolCall'' else hd (split_on (\<lambda>c. c = CHR ''_'') t))"

definition block_type_at :: "json \<Rightarrow> nat \<Rightarrow> string option" where
  "block_type_at content i = Option.bind (jnth content i) (\<lambda>b. as_str (jidx b ''type''))"

definition message_update_step :: "runner_error \<Rightarrow> native \<Rightarrow> json \<Rightarrow> native_result" where
  "message_update_step bad s r =
     (if opt_all (\<lambda>m. jidx m ''role'' \<noteq> JStr ''assistant'') (n_open s)
         \<or> pointer r [''message'', ''role''] \<noteq> Some (JStr ''assistant'') then Inl bad
      else
        let e = jidx r ''assistantMessageEvent''; content = jidx (jidx r ''message'') ''content'' in
        case (as_str (jidx e ''type''), as_u64 (jidx e ''contentIndex'')) of
          (Some t, Some index) \<Rightarrow>
            if t \<notin> set update_types \<or> \<not> is_array content
               \<or> ends_with ''_delta'' t \<and> \<not> is_string (jidx e ''delta'') then Inl bad
            else if block_type_at content index \<noteq> Some (expected_block t)
               \<or> opt_ex (\<lambda>u. u \<noteq> expected_block t) (bt_get (n_block_types s) index) then Inl bad
            else Inr (s\<lparr>n_block_types := bt_insert index (expected_block t) (n_block_types s)\<rparr>)
        | _ \<Rightarrow> Inl bad)"

section \<open>The end of a message\<close>

text \<open>The declared arguments, without the intent OMP repeats in them.\<close>

definition declared_args :: "native_mode \<Rightarrow> json \<Rightarrow> fields \<Rightarrow> json" where
  "declared_args p b args =
     (if m_omp p \<and> is_string (jidx b ''intent'') \<and> bt_get args ''i'' = jget b ''intent''
      then JObj (bt_remove ''i'' args) else JObj args)"

definition declare_call ::
  "native_mode \<Rightarrow> runner_error \<Rightarrow> json \<Rightarrow> (string, tool_call) btree
    \<Rightarrow> runner_error + (string, tool_call) btree" where
  "declare_call p bad b calls =
     (case (as_str (jidx b ''id''), as_str (jidx b ''name''), as_object (jidx b ''arguments'')) of
        (Some key, Some name, Some args) \<Rightarrow>
          if key = [] \<or> name = [] \<or> bt_get calls key \<noteq> None then Inl bad
          else Inr (bt_insert key \<lparr>c_name = name, c_args = declared_args p b args, c_stage = 0,
                 c_result = None, c_error = None\<rparr> calls)
      | _ \<Rightarrow> Inl bad)"

definition assistant_block ::
  "native_mode \<Rightarrow> runner_error \<Rightarrow> string \<times> (string, tool_call) btree \<Rightarrow> json
    \<Rightarrow> runner_error + (string \<times> (string, tool_call) btree)" where
  "assistant_block p bad st b =
     (case st of (prose, calls) \<Rightarrow>
        if jidx b ''type'' = JStr ''text'' then
          mapE (\<lambda>t. (prose @ t, calls)) (ok_or bad (as_str (jidx b ''text'')))
        else if jidx b ''type'' = JStr ''thinking'' then
          (if is_string (jidx b ''thinking'') then Inr st else Inl bad)
        else if jidx b ''type'' = JStr ''toolCall'' then
          mapE (\<lambda>calls'. (prose, calls')) (declare_call p bad b calls)
        else Inl bad)"

definition end_assistant :: "native_mode \<Rightarrow> runner_error \<Rightarrow> native \<Rightarrow> json \<Rightarrow> native_result" where
  "end_assistant p bad s m =
     (if list_ex (\<lambda>(i, t). block_type_at (jidx m ''content'') i \<noteq> Some t) (n_block_types s) then Inl bad
      else case as_str (jidx m ''stopReason'') of
          None \<Rightarrow> Inl bad
        | Some stop \<Rightarrow>
            if stop \<notin> set [''stop'', ''toolUse''] then Inl (catalog HarnessFailed)
            else bindE (ok_or bad (as_array (jidx m ''content''))) (\<lambda>blocks.
                 bindE (foldE (assistant_block p bad) ([], n_calls s) blocks) (\<lambda>(prose, calls).
                 if (stop = ''toolUse'') = (calls = []) then Inl bad
                 else Inr (s\<lparr>n_calls := calls, n_texts := n_texts s @ [prose], n_assistant := Some m\<rparr>))))"

definition end_tool_result :: "runner_error \<Rightarrow> native \<Rightarrow> json \<Rightarrow> json \<Rightarrow> native_result" where
  "end_tool_result bad s m current =
     (case find_call s (jidx m ''toolCallId'') of
        None \<Rightarrow> Inl bad
      | Some (key, call) \<Rightarrow>
          if m \<noteq> current \<or> c_stage call \<noteq> 2 \<or> jidx m ''toolName'' \<noteq> JStr (c_name call)
             \<or> \<not> is_boolean (jidx m ''isError'') then Inl bad
          else if Option.bind (c_result call) (\<lambda>v. jget v ''content'') \<noteq> jget m ''content''
             \<or> c_error call \<noteq> as_bool (jidx m ''isError'') then Inl bad
          else Inr ((set_call key (call\<lparr>c_stage := 3\<rparr>) s)\<lparr>n_results := n_results s @ [m]\<rparr>))"

text \<open>The match on the role of the finished message; \<open>current\<close> is the message as it was opened.\<close>

definition end_role :: "native_mode \<Rightarrow> runner_error \<Rightarrow> native \<Rightarrow> json \<Rightarrow> json \<Rightarrow> string \<Rightarrow> native_result" where
  "end_role p bad s m current role =
     (if role = ''custom'' then
        (if \<not> m_omp p \<or> \<not> valid_custom m \<or> m \<noteq> current then Inl bad else Inr s)
      else if role = ''user'' then
        (if m \<noteq> current then Inl bad else Inr (s\<lparr>n_user := True\<rparr>))
      else if role = ''assistant'' then end_assistant p bad s m
      else if role = ''toolResult'' then end_tool_result bad s m current
      else Inl bad)"

definition message_end_step :: "native_mode \<Rightarrow> runner_error \<Rightarrow> native \<Rightarrow> json \<Rightarrow> native_result" where
  "message_end_step p bad s r =
     (case (jget r ''message'', n_open s) of
        (Some m, Some current) \<Rightarrow>
          if jidx m ''role'' \<noteq> jidx current ''role''
             \<or> jidx m ''role'' \<noteq> JStr ''custom'' \<and> \<not> is_array (jidx m ''content'') then Inl bad
          else
            bindE (case as_str (jidx m ''role'') of
                None \<Rightarrow> Inl bad
              | Some role \<Rightarrow> end_role p bad s m current role)
              (\<lambda>s'. Inr (s'\<lparr>n_history := n_history s' @ [m], n_open := None\<rparr>))
      | _ \<Rightarrow> Inl bad)"

section \<open>Tool execution\<close>

text \<open>A finished call that left an asynchronous task running is remembered for its later updates.\<close>

definition remember_async :: "native_mode \<Rightarrow> tool_call \<Rightarrow> json \<Rightarrow> string \<Rightarrow> native \<Rightarrow> native" where
  "remember_async p call r key s =
     (let a = jidx (jidx (jidx r ''result'') ''details'') ''async'' in
      if m_omp p \<and> c_name call = ''task'' \<and> jidx r ''isError'' = JBool False
         \<and> jidx a ''type'' = JStr ''task'' \<and> jidx a ''state'' = JStr ''running'' \<and> nonempty_str (jidx a ''jobId'')
      then s\<lparr>n_async := bt_insert key (c_args call, str_of (jidx a ''jobId'')) (n_async s)\<rparr>
      else s)"

definition execute_call ::
  "native_mode \<Rightarrow> runner_error \<Rightarrow> native \<Rightarrow> json \<Rightarrow> string \<Rightarrow> string \<Rightarrow> tool_call \<Rightarrow> native_result" where
  "execute_call p bad s r kind key call =
     (let args_ok = task_args_match (jidx r ''args'') (c_args call) (m_omp p) (c_name call) (n_task_defaults s) in
      if kind = ''tool_execution_start'' then
        (if c_stage call \<noteq> 0 \<or> \<not> args_ok then Inl bad
         else Inr (set_call key (call\<lparr>c_stage := 1\<rparr>) s))
      else if kind = ''tool_execution_update'' then
        (if c_stage call \<noteq> 1 \<or> \<not> args_ok \<or> \<not> is_object (jidx r ''partialResult'') then Inl bad
         else Inr s)
      else
        (if c_stage call \<noteq> 1 \<or> \<not> is_boolean (jidx r ''isError'') \<or> \<not> is_object (jidx r ''result'') then Inl bad
         else Inr (remember_async p call r key
           (set_call key (call\<lparr>c_result := Some (jidx r ''result''), c_error := as_bool (jidx r ''isError''),
              c_stage := 2\<rparr>) s))))"

definition execution_step :: "native_mode \<Rightarrow> runner_error \<Rightarrow> native \<Rightarrow> json \<Rightarrow> string \<Rightarrow> native_result" where
  "execution_step p bad s r kind =
     (if \<not> n_turn s \<or> n_open s \<noteq> None then Inl bad
      else case find_call s (jidx r ''toolCallId'') of
        None \<Rightarrow> Inl bad
      | Some (key, call) \<Rightarrow>
          if jidx r ''toolName'' \<noteq> JStr (c_name call) then Inl bad
          else execute_call p bad s r kind key call)"

section \<open>The end of a turn and of the agent\<close>

definition turn_end_step :: "native_mode \<Rightarrow> runner_error \<Rightarrow> native \<Rightarrow> json \<Rightarrow> native_result" where
  "turn_end_step p bad s r =
     (if \<not> n_turn s \<or> n_open s \<noteq> None
         \<or> opt_all (\<lambda>m. \<not> same_message (jidx r ''message'') m (m_omp p)) (n_assistant s)
         \<or> jidx r ''toolResults'' \<noteq> JArr (n_results s) \<or> \<not> all_settled s then Inl bad
      else Inr (s\<lparr>n_last_stop := Option.bind (n_assistant s) (\<lambda>m. as_str (jidx m ''stopReason'')),
             n_turn := False\<rparr>))"

text \<open>\<open>corroborated_history\<close>: a message of the final history stands in for an omitted result.\<close>

definition corroborates :: "json \<Rightarrow> json \<Rightarrow> bool" where
  "corroborates expected m =
     opt_ex (\<lambda>fields.
        keys_within fields [''role'', ''toolCallId'', ''toolName'', ''content'', ''isError'', ''details'', ''timestamp'']
        \<and> (jidx expected ''started'' = JNull \<or> m = jidx expected ''started'')
        \<and> jidx m ''role'' = JStr ''toolResult''
        \<and> jidx m ''toolCallId'' = jidx expected ''id'' \<and> jidx m ''toolName'' = jidx expected ''name''
        \<and> jidx m ''isError'' = jidx expected ''isError''
        \<and> jget m ''content'' = jget (jidx expected ''result'') ''content''
        \<and> jget m ''details'' = jget (jidx expected ''result'') ''details''
        \<and> opt_all nonneg_number (jget m ''timestamp''))
       (as_object m)"

text \<open>The loop over the positions \<open>is\<close>, with the observed messages not yet placed.\<close>

fun project_history ::
  "json list \<Rightarrow> nat \<Rightarrow> (nat, json) btree \<Rightarrow> nat list \<Rightarrow> json list \<Rightarrow> json list option" where
  "project_history messages offset omitted [] observed = Some []"
| "project_history messages offset omitted (i # is) observed =
     (case bt_get omitted i of
        None \<Rightarrow>
          (case observed of
             [] \<Rightarrow> None
           | v # vs \<Rightarrow> map_option (Cons v) (project_history messages offset omitted is vs))
      | Some expected \<Rightarrow>
          if offset + i < length messages \<and> corroborates expected (messages ! (offset + i))
          then map_option (Cons (messages ! (offset + i))) (project_history messages offset omitted is observed)
          else None)"

definition corroborated_history ::
  "json list \<Rightarrow> json list \<Rightarrow> (nat, json) btree \<Rightarrow> bool \<Rightarrow> json list option" where
  "corroborated_history messages history omitted is_resumed =
     (if omitted = [] then Some history
      else Option.bind (checked_add (length history) (length omitted)) (\<lambda>count.
           Option.bind (checked_sub (length messages) count) (\<lambda>offset.
           if offset \<noteq> 0 \<and> \<not> (offset = 1 \<and> is_resumed) then None
           else project_history messages offset omitted [0..<count] history)))"

definition close_segment :: "runner_error \<Rightarrow> native \<Rightarrow> prime_drain \<Rightarrow> runner_error + (bool \<times> native)" where
  "close_segment bad s d =
     (if n_last_stop s = Some ''toolUse'' then Inr (True, s\<lparr>n_drain := d\<lparr>segment_closed := True\<rparr>\<rparr>)
      else if n_last_stop s \<noteq> Some ''stop'' then Inl bad
      else case prepare_queued_continuation d of
          Inl _ \<Rightarrow> Inl bad
        | Inr (queued, d2) \<Rightarrow>
            let d3 = (if queue_empty d2 \<noteq> None then d2\<lparr>queue_empty := Some False\<rparr> else d2)
            in if queued then Inr (True, s\<lparr>n_drain := d3\<lparr>segment_closed := True\<rparr>\<rparr>)
               else Inr (False, s\<lparr>n_drain := d3\<rparr>))"

definition agent_end_drain :: "runner_error \<Rightarrow> native \<Rightarrow> json list \<Rightarrow> runner_error + (bool \<times> native)" where
  "agent_end_drain bad s msgs =
     bindE (ok_or bad (corroborated_history msgs (n_history s) (n_omitted s) (resumed (n_drain s)))) (\<lambda>corroborated.
     if segment_closed (n_drain s) then Inl bad
     else bindE (ok_or bad (drain_history msgs corroborated (n_drain s))) (close_segment bad s))"

text \<open>The flag says that the loop continues without ending the agent.\<close>

definition agent_end_step :: "native_mode \<Rightarrow> runner_error \<Rightarrow> native \<Rightarrow> json \<Rightarrow> native_result" where
  "agent_end_step p bad s r =
     (case as_array (jidx r ''messages'') of
        None \<Rightarrow> Inl bad
      | Some msgs \<Rightarrow>
          if \<not> n_started s \<or> n_turn s \<or> n_open s \<noteq> None \<or> \<not> all_settled s then Inl bad
          else bindE
            (if m_drain p then agent_end_drain bad s msgs
             else if n_last_stop s \<noteq> Some ''stop''
               \<or> \<not> list_all2 (\<lambda>a b. same_message a b (m_omp p)) msgs (n_history s) then Inl bad
             else Inr (False, s))
            (\<lambda>(continues, s').
               if continues then Inr s'
               else if m_omp p \<and> jidx r ''isTerminal'' \<noteq> JBool True then Inl (catalog HarnessFailed)
               else Inr (s'\<lparr>n_ended := True\<rparr>)))"

section \<open>One record\<close>

definition lifecycle_step :: "native_mode \<Rightarrow> runner_error \<Rightarrow> native \<Rightarrow> json \<Rightarrow> string \<Rightarrow> native_result" where
  "lifecycle_step p bad s r kind =
     (if kind = ''agent_start'' then agent_start_step bad s
      else if kind = ''turn_start'' then turn_start_step bad s
      else if kind = ''message_start'' then message_start_step p bad s r
      else if kind = ''message_update'' then message_update_step bad s r
      else if kind = ''message_end'' then message_end_step p bad s r
      else if kind \<in> set [''tool_execution_start'', ''tool_execution_update'', ''tool_execution_end'']
        then execution_step p bad s r kind
      else if kind = ''turn_end'' then turn_end_step p bad s r
      else if kind = ''agent_end'' then agent_end_step p bad s r
      else Inl bad)"

definition async_task :: "native_mode \<Rightarrow> native \<Rightarrow> json \<Rightarrow> string \<Rightarrow> (json \<times> string) option" where
  "async_task p s r kind =
     (if m_omp p \<and> kind = ''tool_execution_update''
      then Option.bind (as_str (jidx r ''toolCallId'')) (bt_get (n_async s)) else None)"

text \<open>Everything after the start-up records and a pending continuation.\<close>

definition running_step :: "native_mode \<Rightarrow> runner_error \<Rightarrow> native \<Rightarrow> json \<Rightarrow> string \<Rightarrow> native_result" where
  "running_step p bad s r kind =
     (if \<not> n_inventory s \<or> \<not> m_omp p \<and> \<not> n_ack s
         \<or> n_ended s \<and> \<not> (m_drain p \<and> kind = ''session_action_update'') then Inl bad
      else case async_task p s r kind of
        Some task \<Rightarrow> async_step bad s r task
      | None \<Rightarrow>
          if kind = ''session_action_update'' then queue_step p bad s r
          else if kind = ''rlm_child_update'' then child_step p bad s r
          else lifecycle_step p bad (reopen_segment p s kind) r kind)"

definition admitted_step :: "native_mode \<Rightarrow> runner_error \<Rightarrow> native \<Rightarrow> json \<Rightarrow> string \<Rightarrow> native_result" where
  "admitted_step p bad s r kind =
     (if \<not> n_ready s then (if valid_omp_ready r then Inr (s\<lparr>n_ready := True\<rparr>) else Inl bad)
      else if kind = ''available_commands_update'' \<and> m_omp p then
        (if n_commands s \<or> n_started s \<or> \<not> has_exact_keys r [''type'', ''commands'']
            \<or> \<not> is_array (jidx r ''commands'') then Inl bad
         else Inr (s\<lparr>n_commands := True\<rparr>))
      else if \<not> n_commands s then Inl bad
      else if kind = ''response'' then response_step p bad s r
      else if m_drain p \<and> pending_phase (n_drain s) \<noteq> None
        then continuation_step bad s r kind (the (pending_phase (n_drain s)))
      else running_step p bad s r kind)"

definition native_step :: "native_mode \<Rightarrow> json list \<times> native \<Rightarrow> json \<Rightarrow> runner_error + (json list \<times> native)" where
  "native_step p st r =
     (case st of (past, s) \<Rightarrow>
        let bad = bad_record p past s in
        mapE (\<lambda>s'. (past @ [r], s'))
          (if \<not> is_object r \<or> \<not> prime_bounded_json r 0 then Inl bad
           else case record_type r of
             None \<Rightarrow> Inl bad
           | Some kind \<Rightarrow>
               if m_omp p \<and> kind = ''extension_ui_request'' then
                 (case omp_extension_ui_disposition r of
                    Presentation \<Rightarrow> Inr s
                  | Blocked \<Rightarrow> Inl (catalog HarnessFailed)
                  | Malformed \<Rightarrow> Inl bad)
               else admitted_step p bad s r kind))"

section \<open>A whole transport\<close>

record transport_normalization =
  terminal_event :: string
  assistant_messages :: "string list"

definition settled_end :: "native_mode \<Rightarrow> native \<Rightarrow> bool" where
  "settled_end p s \<longleftrightarrow>
     n_ended s \<and> n_ack s
     \<and> \<not> (m_drain p \<and> (pending_phase (n_drain s) \<noteq> None \<or> pending_preview (n_drain s) \<noteq> None
           \<or> (resumed (n_drain s) \<or> queue_empty (n_drain s) \<noteq> None) \<and> queue_empty (n_drain s) \<noteq> Some True))"

definition normalize_mode ::
  "json list \<Rightarrow> string \<Rightarrow> bool \<Rightarrow> bool \<Rightarrow> bool \<Rightarrow> runner_error + transport_normalization" where
  "normalize_mode records rpc_id omp terminal drain =
     (let p = \<lparr>m_id = rpc_id, m_omp = omp, m_drain = drain\<rparr> in
      bindE (foldE (native_step p) ([], initial_native p) records) (\<lambda>(_, s).
        if terminal \<and> \<not> settled_end p s then Inl (catalog ProtocolMalformed)
        else Inr \<lparr>terminal_event = ''agent_end'', assistant_messages = n_texts s\<rparr>))"

definition normalize :: "json list \<Rightarrow> string \<Rightarrow> bool \<Rightarrow> bool \<Rightarrow> runner_error + transport_normalization" where
  "normalize records rpc_id omp terminal = normalize_mode records rpc_id omp terminal False"

text \<open>\<open>validate_prime_native_prefix\<close> of \<open>installed_adapters.rs\<close>.\<close>

definition validate_prime_native_prefix :: "json list \<Rightarrow> string \<Rightarrow> runner_error + unit" where
  "validate_prime_native_prefix records rpc_id = mapE (\<lambda>_. ()) (normalize_mode records rpc_id False False True)"

end
