(* ===== verification/Native_Proofs.thy ===== *)
theory Native_Proofs
  imports Native_Tools
begin

text \<open>
  What the native tool lifecycle promises: accepted prefixes, the projected texts, the order in which
  tool calls settle, the settled end, and the single queued continuation.
\<close>

section \<open>Decomposing a step\<close>

text \<open>Nothing is open: the agent runs, between turns, with every call settled.\<close>

definition quiet :: "native \<Rightarrow> bool" where
  "quiet s \<longleftrightarrow> n_started s \<and> \<not> n_turn s \<and> n_open s = None \<and> all_settled s"

lemmas startup_defs = response_step_def state_response_def inventory_response_def Let_def

lemmas continuation_defs = continuation_step_def continuation_action_def continuation_agent_start_def
  continuation_turn_start_def continuation_custom_start_def continuation_custom_end_def Let_def

lemmas telemetry_defs = async_step_def queue_step_def child_step_def Let_def

lemmas infer_defs = infer_omitted_result_def infer_turn_end_def infer_turn_start_def

text \<open>The cases of an accepted record.\<close>

lemma native_step_cases:
  assumes "native_step p (past, s) r = Inr st'"
  obtains (ui) "omp_extension_ui_disposition r = Presentation" "record_type r = Some ''extension_ui_request''"
      "m_omp p" "st' = (past @ [r], s)"
    | (ready) s' where "record_type r = Some ''ready''" "\<not> n_ready s" "s' = s\<lparr>n_ready := True\<rparr>"
      "st' = (past @ [r], s')"
    | (commands) s' where "record_type r = Some ''available_commands_update''" "\<not> n_started s"
      "s' = s\<lparr>n_commands := True\<rparr>" "st' = (past @ [r], s')"
    | (response) s' where "record_type r = Some ''response''"
      "response_step p (bad_record p past s) s r = Inr s'" "st' = (past @ [r], s')"
    | (continuation) s' kind ph where "record_type r = Some kind" "kind \<noteq> ''response''"
      "pending_phase (n_drain s) = Some ph" "m_drain p"
      "continuation_step (bad_record p past s) s r kind ph = Inr s'" "st' = (past @ [r], s')"
    | (running) s' kind where "record_type r = Some kind" "kind \<noteq> ''response''"
      "\<not> m_drain p \<or> pending_phase (n_drain s) = None"
      "running_step p (bad_record p past s) s r kind = Inr s'" "st' = (past @ [r], s')"
  using assms
  by (auto simp: native_step_def admitted_step_def Let_def mapE_eq_Inr valid_omp_ready_def opt_ex_iff
      split: if_splits option.splits ui_disposition.splits)

lemma running_step_cases:
  assumes "running_step p bad s r kind = Inr s'"
  obtains (async) task where "kind = ''tool_execution_update''" "s' = s" "async_step bad s r task = Inr s"
    | (queue) "kind = ''session_action_update''" "queue_step p bad s r = Inr s'"
    | (child) "kind = ''rlm_child_update''" "child_step p bad s r = Inr s'"
    | (lifecycle) "\<not> n_ended s" "lifecycle_step p bad (reopen_segment p s kind) r kind = Inr s'"
proof -
  have guard: "\<not> (\<not> n_inventory s \<or> \<not> m_omp p \<and> \<not> n_ack s
      \<or> n_ended s \<and> \<not> (m_drain p \<and> kind = ''session_action_update''))"
  proof
    assume "\<not> n_inventory s \<or> \<not> m_omp p \<and> \<not> n_ack s
      \<or> n_ended s \<and> \<not> (m_drain p \<and> kind = ''session_action_update'')"
    from assms [unfolded running_step_def if_P [OF this]] show False by simp
  qed
  note body = assms [unfolded running_step_def if_not_P [OF guard]]
  show thesis
  proof (cases "async_task p s r kind")
    case (Some task)
    then have "kind = ''tool_execution_update''" by (simp add: async_task_def split: if_split_asm)
    moreover have "async_step bad s r task = Inr s'" using body Some by simp
    moreover from this have "s' = s" by (simp only: async_step_def Let_def split: if_split_asm) simp_all
    ultimately show thesis using async by simp
  next
    case None
    note body = body [unfolded None option.case]
    show thesis
    proof (cases "kind = ''session_action_update'' \<or> kind = ''rlm_child_update''")
      case True
      then show thesis
      proof
        assume k: "kind = ''session_action_update''"
        with body have "queue_step p bad s r = Inr s'" by simp
        with k show thesis by (rule queue)
      next
        assume k: "kind = ''rlm_child_update''"
        with body have "child_step p bad s r = Inr s'" by simp
        with k show thesis by (rule child)
      qed
    next
      case False
      then have "lifecycle_step p bad (reopen_segment p s kind) r kind = Inr s'" using body by simp
      moreover have "\<not> n_ended s" using guard False by blast
      ultimately show thesis by (intro lifecycle)
    qed
  qed
qed

lemma lifecycle_step_cases:
  assumes "lifecycle_step p bad s r kind = Inr s'"
  obtains "kind = ''agent_start''" "agent_start_step bad s = Inr s'"
    | "kind = ''turn_start''" "turn_start_step bad s = Inr s'"
    | "kind = ''message_start''" "message_start_step p bad s r = Inr s'"
    | "kind = ''message_update''" "message_update_step bad s r = Inr s'"
    | "kind = ''message_end''" "message_end_step p bad s r = Inr s'"
    | "kind \<in> {''tool_execution_start'', ''tool_execution_update'', ''tool_execution_end''}"
      "execution_step p bad s r kind = Inr s'"
    | "kind = ''turn_end''" "turn_end_step p bad s r = Inr s'"
    | "kind = ''agent_end''" "agent_end_step p bad s r = Inr s'"
proof -
  note body = assms [unfolded lifecycle_step_def]
  show thesis
    using body that by (simp only: list.set insert_iff empty_iff simp_thms split: if_split_asm) simp_all
qed

lemma end_role_cases:
  assumes "end_role p bad s m current role = Inr s1"
  shows "role = ''custom'' \<and> s1 = s \<or> role = ''user'' \<and> s1 = s\<lparr>n_user := True\<rparr>
     \<or> role = ''assistant'' \<and> end_assistant p bad s m = Inr s1
     \<or> role = ''toolResult'' \<and> end_tool_result bad s m current = Inr s1"
  using assms unfolding end_role_def by (simp only: split: if_split_asm) simp_all

lemma message_end_cases:
  assumes "message_end_step p bad s r = Inr s'"
  obtains m current s1 role where "jget r ''message'' = Some m" "n_open s = Some current"
    "s' = s1\<lparr>n_history := n_history s1 @ [m], n_open := None\<rparr>" "jidx m ''role'' = JStr role"
    "end_role p bad s m current role = Inr s1"
proof -
  obtain m current where m: "jget r ''message'' = Some m" "n_open s = Some current"
    using assms by (simp add: message_end_step_def split: option.split_asm)
  note body = assms [unfolded message_end_step_def m prod.case option.case]
  have guard: "\<not> (jidx m ''role'' \<noteq> jidx current ''role''
     \<or> jidx m ''role'' \<noteq> JStr ''custom'' \<and> \<not> is_array (jidx m ''content''))"
  proof
    assume "jidx m ''role'' \<noteq> jidx current ''role''
     \<or> jidx m ''role'' \<noteq> JStr ''custom'' \<and> \<not> is_array (jidx m ''content'')"
    from body [unfolded if_P [OF this]] show False by simp
  qed
  obtain s1 where s1: "(case as_str (jidx m ''role'') of None \<Rightarrow> Inl bad | Some role \<Rightarrow> end_role p bad s m current role)
      = Inr s1" "s' = s1\<lparr>n_history := n_history s1 @ [m], n_open := None\<rparr>"
    using body [unfolded if_not_P [OF guard] bindE_eq_Inr] by blast
  then obtain role where "jidx m ''role'' = JStr role" "end_role p bad s m current role = Inr s1"
    by (cases "as_str (jidx m ''role'')") auto
  with m s1(2) that show thesis by blast
qed

lemma end_assistant_cases:
  assumes "end_assistant p bad s m = Inr s'"
  obtains blocks prose calls where "jidx m ''content'' = JArr blocks"
    "foldE (assistant_block p bad) ([], n_calls s) blocks = Inr (prose, calls)"
    "s' = s\<lparr>n_calls := calls, n_texts := n_texts s @ [prose], n_assistant := Some m\<rparr>"
  using assms
  by (auto simp: end_assistant_def result_simps split: if_splits option.splits)

lemma find_call_Some:
  "find_call s v = Some (key, call) \<longleftrightarrow> v = JStr key \<and> bt_get (n_calls s) key = Some call"
  by (cases v) (auto simp: find_call_def)

lemma end_tool_result_cases:
  assumes "end_tool_result bad s m current = Inr s'"
  obtains key call where "bt_get (n_calls s) key = Some call" "c_stage call = 2"
    "s' = (set_call key (call\<lparr>c_stage := 3\<rparr>) s)\<lparr>n_results := n_results s @ [m]\<rparr>"
  using assms
  by (auto simp: end_tool_result_def find_call_Some split: if_splits option.splits)

lemma remember_async_keeps [simp]:
  "n_calls (remember_async p call r key s) = n_calls s" "n_texts (remember_async p call r key s) = n_texts s"
  "n_drain (remember_async p call r key s) = n_drain s" "n_ended (remember_async p call r key s) = n_ended s"
  "n_turn (remember_async p call r key s) = n_turn s" "n_open (remember_async p call r key s) = n_open s"
  "n_started (remember_async p call r key s) = n_started s" "n_ack (remember_async p call r key s) = n_ack s"
  by (auto simp: remember_async_def Let_def)

lemma set_call_keeps [simp]:
  "n_calls (set_call key call s) = bt_insert key call (n_calls s)" "n_texts (set_call key call s) = n_texts s"
  "n_drain (set_call key call s) = n_drain s" "n_ended (set_call key call s) = n_ended s"
  "n_turn (set_call key call s) = n_turn s" "n_open (set_call key call s) = n_open s"
  "n_started (set_call key call s) = n_started s" "n_ack (set_call key call s) = n_ack s"
  by (auto simp: set_call_def)

lemma execute_call_cases:
  assumes "execute_call p bad s r kind key call = Inr s'"
  shows "s' = s \<or> c_stage call < 2 \<and> (\<exists>call'. c_stage call' = Suc (c_stage call) \<and> c_name call' = c_name call
     \<and> c_args call' = c_args call
     \<and> (s' = set_call key call' s \<or> s' = remember_async p call r key (set_call key call' s)))"
proof -
  note body = assms [unfolded execute_call_def Let_def]
  consider (a) "kind = ''tool_execution_start''" | (b) "kind \<noteq> ''tool_execution_start''" "kind = ''tool_execution_update''"
    | (c) "kind \<noteq> ''tool_execution_start''" "kind \<noteq> ''tool_execution_update''" by blast
  then show ?thesis
  proof cases
    case a
    from body [unfolded if_P [OF a]] have "c_stage call = 0" "s' = set_call key (call\<lparr>c_stage := 1\<rparr>) s"
      by (simp_all split: if_split_asm)
    then show ?thesis
      by (intro disjI2 [of _ "s' = s"] conjI exI [of _ "call\<lparr>c_stage := 1\<rparr>"] disjI1) simp_all
  next
    case b
    from body [unfolded if_not_P [OF b(1)] if_P [OF b(2)]] show ?thesis by (simp split: if_split_asm)
  next
    case c
    let ?call = "call\<lparr>c_result := Some (jidx r ''result''), c_error := as_bool (jidx r ''isError''), c_stage := 2\<rparr>"
    from body [unfolded if_not_P [OF c(1)] if_not_P [OF c(2)]]
    have "c_stage call = 1" "s' = remember_async p call r key (set_call key ?call s)"
      by (simp_all split: if_split_asm)
    then show ?thesis by (intro disjI2 conjI exI [of _ ?call]) simp_all
  qed
qed

lemma execution_cases:
  assumes "execution_step p bad s r kind = Inr s'"
  obtains (same) "s' = s"
    | (advance) key call call' s1 where "bt_get (n_calls s) key = Some call" "c_stage call' = Suc (c_stage call)"
      "c_stage call < 2" "s1 = set_call key call' s" "s' = s1 \<or> s' = remember_async p call r key s1"
proof -
  obtain key call where call: "bt_get (n_calls s) key = Some call" "execute_call p bad s r kind key call = Inr s'"
    using assms by (auto simp: execution_step_def find_call_Some split: if_split_asm option.split_asm)
  from execute_call_cases [OF call(2)] call(1) that show thesis by blast
qed

lemma close_segment_cases:
  assumes "close_segment bad s d = Inr (continues, s')"
  obtains (tools) "continues" "s' = s\<lparr>n_drain := d\<lparr>segment_closed := True\<rparr>\<rparr>"
    | (queued) d2 b where "continues" "prepare_queued_continuation d = Inr (True, d2)"
      "s' = s\<lparr>n_drain := d2\<lparr>queue_empty := b, segment_closed := True\<rparr>\<rparr>"
    | (ends) d2 b where "\<not> continues" "prepare_queued_continuation d = Inr (False, d2)"
      "s' = s\<lparr>n_drain := d2\<lparr>queue_empty := b\<rparr>\<rparr>"
proof (cases "n_last_stop s = Some ''toolUse''")
  case True
  from assms [unfolded close_segment_def if_P [OF True]] show thesis by (intro tools) simp_all
next
  case False
  note body = assms [unfolded close_segment_def if_not_P [OF False]]
  obtain q d2 where q: "prepare_queued_continuation d = Inr (q, d2)"
    using body by (auto split: if_split_asm sum.split_asm)
  let ?d3 = "if queue_empty d2 \<noteq> None then d2\<lparr>queue_empty := Some False\<rparr> else d2"
  have d3: "?d3 = d2\<lparr>queue_empty := queue_empty ?d3\<rparr>" by simp
  have "(if q then Inr (True, s\<lparr>n_drain := ?d3\<lparr>segment_closed := True\<rparr>\<rparr>) else Inr (False, s\<lparr>n_drain := ?d3\<rparr>))
      = (Inr (continues, s') :: runner_error + (bool \<times> native))"
    using body unfolding q Let_def by (simp only: sum.case prod.case split: if_split_asm) simp_all
  then have s': "continues = q" "q \<Longrightarrow> s' = s\<lparr>n_drain := ?d3\<lparr>segment_closed := True\<rparr>\<rparr>"
    "\<not> q \<Longrightarrow> s' = s\<lparr>n_drain := ?d3\<rparr>" by (simp_all split: if_split_asm)
  show thesis
  proof (cases q)
    case True
    with s' q show thesis by (intro queued [of d2 "queue_empty ?d3"]) simp_all
  next
    case False
    with s' q show thesis by (intro ends [of d2 "queue_empty ?d3"]) simp_all
  qed
qed

lemma agent_end_drain_parts:
  assumes "agent_end_drain bad s msgs = Inr (continues, s')"
  obtains h d where "drain_history msgs h (n_drain s) = Some d" "close_segment bad s d = Inr (continues, s')"
  using assms unfolding agent_end_drain_def
  by (auto simp: bindE_eq_Inr ok_or_eq_Inr split: if_split_asm)

lemma agent_end_drain_cases:
  assumes "agent_end_drain bad s msgs = Inr (continues, s')"
  obtains d where "s' = s\<lparr>n_drain := d\<rparr>"
  using assms by (elim agent_end_drain_parts close_segment_cases) blast+

lemma agent_end_parts:
  assumes "agent_end_step p bad s r = Inr s'"
  obtains continues s1 where "quiet s" "m_drain p \<or> s1 = s \<and> \<not> continues"
    "s1 = s \<and> \<not> continues \<or> (\<exists>msgs. agent_end_drain bad s msgs = Inr (continues, s1))"
    "s' = s1 \<and> continues \<or> s' = s1\<lparr>n_ended := True\<rparr> \<and> \<not> continues"
proof -
  obtain msgs where msgs: "as_array (jidx r ''messages'') = Some msgs"
    using assms by (simp add: agent_end_step_def split: option.split_asm)
  note body = assms [unfolded agent_end_step_def msgs option.case]
  have guard: "\<not> (\<not> n_started s \<or> n_turn s \<or> n_open s \<noteq> None \<or> \<not> all_settled s)"
  proof
    assume "\<not> n_started s \<or> n_turn s \<or> n_open s \<noteq> None \<or> \<not> all_settled s"
    from body [unfolded if_P [OF this]] show False by simp
  qed
  then have g: "quiet s" unfolding quiet_def by blast
  obtain continues s1 where s1: "(if m_drain p then agent_end_drain bad s msgs
             else if n_last_stop s \<noteq> Some ''stop''
               \<or> \<not> list_all2 (\<lambda>a b. same_message a b (m_omp p)) msgs (n_history s) then Inl bad
             else Inr (False, s)) = Inr (continues, s1)"
    "(if continues then Inr s1
      else if m_omp p \<and> jidx r ''isTerminal'' \<noteq> JBool True then Inl (catalog HarnessFailed)
      else Inr (s1\<lparr>n_ended := True\<rparr>)) = Inr s'"
    using body [unfolded if_not_P [OF guard] bindE_eq_Inr] by auto
  have "s1 = s \<and> \<not> continues \<or> m_drain p \<and> agent_end_drain bad s msgs = Inr (continues, s1)"
    using s1(1) by (simp split: if_split_asm)
  moreover have "s' = s1 \<and> continues \<or> s' = s1\<lparr>n_ended := True\<rparr> \<and> \<not> continues"
    using s1(2) by (simp split: if_split_asm)
  ultimately show thesis using g that by blast
qed

lemma agent_end_cases:
  assumes "agent_end_step p bad s r = Inr s'"
  obtains d ended where "quiet s" "s' = s\<lparr>n_drain := d, n_ended := ended\<rparr>"
proof -
  from assms obtain continues s1 where s1: "quiet s"
    "s1 = s \<and> \<not> continues \<or> (\<exists>msgs. agent_end_drain bad s msgs = Inr (continues, s1))"
    "s' = s1 \<and> continues \<or> s' = s1\<lparr>n_ended := True\<rparr> \<and> \<not> continues" by (rule agent_end_parts)
  have "\<exists>d. s1 = s\<lparr>n_drain := d\<rparr>"
    using s1(2) by (auto elim: agent_end_drain_cases intro: exI [of _ "n_drain s"])
  then obtain d where "s1 = s\<lparr>n_drain := d\<rparr>" ..
  with s1(3) have "s' = s\<lparr>n_drain := d, n_ended := n_ended s\<rparr> \<or> s' = s\<lparr>n_drain := d, n_ended := True\<rparr>" by auto
  with s1(1) that show thesis by blast
qed

lemma reopen_keeps [simp]:
  "n_calls (reopen_segment p s k) = n_calls s" "n_texts (reopen_segment p s k) = n_texts s"
  "n_ended (reopen_segment p s k) = n_ended s" "n_turn (reopen_segment p s k) = n_turn s"
  "n_open (reopen_segment p s k) = n_open s" "n_started (reopen_segment p s k) = n_started s"
  "n_ack (reopen_segment p s k) = n_ack s"
  by (auto simp: reopen_segment_def)

section \<open>The projected texts\<close>

text \<open>What a finished assistant message contributes: its text blocks, in order.\<close>

definition block_text :: "json \<Rightarrow> string" where
  "block_text b = (if jidx b ''type'' = JStr ''text'' then str_of (jidx b ''text'') else [])"

definition assistant_prose :: "json \<Rightarrow> string option" where
  "assistant_prose r =
     (if record_type r = Some ''message_end'' \<and> jidx (jidx r ''message'') ''role'' = JStr ''assistant''
      then Some (concat (map block_text (array_items (jidx r ''message'') ''content''))) else None)"

definition prose_list :: "json \<Rightarrow> string list" where
  "prose_list r = (case assistant_prose r of Some t \<Rightarrow> [t] | None \<Rightarrow> [])"

lemma assistant_block_text:
  assumes "assistant_block p bad (t, calls) b = Inr (t', calls')"
  shows "t' = t @ block_text b"
  using assms unfolding assistant_block_def block_text_def
  by (auto simp: mapE_eq_Inr ok_or_eq_Inr str_of_def split: if_split_asm)

lemma assistant_blocks_text:
  "foldE (assistant_block p bad) (t, calls) blocks = Inr (t', calls') \<Longrightarrow> t' = t @ concat (map block_text blocks)"
proof (induction blocks arbitrary: t calls)
  case Nil
  then show ?case by simp
next
  case (Cons b blocks)
  then obtain t1 calls1 where "assistant_block p bad (t, calls) b = Inr (t1, calls1)"
    "foldE (assistant_block p bad) (t1, calls1) blocks = Inr (t', calls')"
    by (auto simp: bindE_eq_Inr)
  with Cons.IH assistant_block_text show ?case by fastforce
qed

lemma prose_list_other: "record_type r = Some kind \<Longrightarrow> kind \<noteq> ''message_end'' \<Longrightarrow> prose_list r = []"
  by (simp add: prose_list_def assistant_prose_def)

lemma prose_list_role:
  "\<lbrakk>jidx (jidx r ''message'') ''role'' = JStr role; role \<noteq> ''assistant''\<rbrakk> \<Longrightarrow> prose_list r = []"
  by (simp add: prose_list_def assistant_prose_def)

lemma response_texts:
  "response_step p bad s r = Inr s' \<Longrightarrow> n_texts s' = n_texts s \<and> n_calls s' = n_calls s \<and> n_turn s' = n_turn s
     \<and> n_open s' = n_open s \<and> n_ended s' = n_ended s \<and> n_started s' = n_started s"
  unfolding response_step_def state_response_def inventory_response_def Let_def
  by (auto split: if_split_asm option.split_asm)

lemma continuation_cases:
  assumes "continuation_step bad s r kind ph = Inr s'"
  obtains (action) d where "kind = ''session_action_update''"
      "continuation_queue r (queue_phase ph) (n_drain s) = Some d"
      "s' = s\<lparr>n_drain := d\<lparr>pending_phase := Some (after_queue_phase ph)\<rparr>\<rparr>"
    | (agent) "kind = ''agent_start''" "\<not> n_turn s" "n_open s = None"
      "s' = s\<lparr>n_history := [], n_omitted := [], n_assistant := None, n_calls := [], n_results := [],
             n_last_stop := None, n_user := False,
             n_drain := (n_drain s)\<lparr>segment_closed := False, resumed := True, pending_phase := Some Running\<rparr>\<rparr>"
    | (turn) "kind = ''turn_start''" "n_open s = None"
      "s' = s\<lparr>n_turn := True, n_drain := (n_drain s)\<lparr>pending_phase := Some CustomStart\<rparr>\<rparr>"
    | (cstart) "kind = ''message_start''" "n_turn s"
      "s' = s\<lparr>n_open := Some (jidx r ''message''), n_drain := (n_drain s)\<lparr>pending_phase := Some CustomEnd\<rparr>\<rparr>"
    | (cend) m where "kind = ''message_end''" "m = jidx r ''message''"
      "matches_agent_message m (pending_preview (n_drain s)) (n_drain s)"
      "s' = s\<lparr>n_history := n_history s @ [m], n_open := None, n_user := True,
             n_drain := (consume_agent_message m (n_drain s))\<lparr>pending_phase := None, pending_preview := None\<rparr>\<rparr>"
proof (cases "ph \<in> {AgentStart, TurnStart, CustomStart, CustomEnd}")
  case False
  then have "continuation_action bad s r kind ph = Inr s'"
    using assms unfolding continuation_step_def by (cases ph) simp_all
  then show thesis
    using action unfolding continuation_action_def by (simp split: if_split_asm option.split_asm)
next
  case True
  then consider "continuation_agent_start bad s r kind = Inr s'" | "continuation_turn_start bad s r kind = Inr s'"
    | "continuation_custom_start bad s r kind = Inr s'" | "continuation_custom_end bad s r kind = Inr s'"
    using assms unfolding continuation_step_def by auto
  then show thesis
  proof cases
    case 1
    then show thesis unfolding continuation_agent_start_def by (intro agent) (simp_all split: if_split_asm)
  next
    case 2
    then show thesis unfolding continuation_turn_start_def by (intro turn) (simp_all split: if_split_asm)
  next
    case 3
    then show thesis unfolding continuation_custom_start_def Let_def by (intro cstart) (simp_all split: if_split_asm)
  next
    case 4
    then show thesis unfolding continuation_custom_end_def Let_def by (intro cend [OF _ refl]) (simp_all split: if_split_asm)
  qed
qed

lemma continuation_texts:
  assumes "continuation_step bad s r kind ph = Inr s'" "record_type r = Some kind"
  shows "n_texts s' = n_texts s @ prose_list r"
  using assms(1)
proof (cases rule: continuation_cases)
  case (cend m)
  then have "jidx (jidx r ''message'') ''role'' = JStr ''custom''"
    by (simp add: matches_agent_message_def message_shape_ok_def Let_def)
  then have "prose_list r = []" by (rule prose_list_role) simp
  with cend(4) show ?thesis by simp
qed (simp_all add: prose_list_other [OF assms(2)])

lemma infer_keeps [simp]:
  "n_texts (infer_omitted_result p s m) = n_texts s" "n_texts (infer_turn_end p s m) = n_texts s"
  "n_texts (infer_turn_start p s m) = n_texts s"
  "n_ended (infer_omitted_result p s m) = n_ended s" "n_ended (infer_turn_end p s m) = n_ended s"
  "n_ended (infer_turn_start p s m) = n_ended s"
  "n_drain (infer_omitted_result p s m) = n_drain s" "n_drain (infer_turn_end p s m) = n_drain s"
  "n_drain (infer_turn_start p s m) = n_drain s"
  by (auto simp: infer_omitted_result_def infer_turn_end_def infer_turn_start_def split: list.split)

lemma open_role_cases:
  assumes "open_role p bad s m role = Inr s'"
  shows "s' = s\<lparr>n_open := Some m\<rparr> \<or> s' = s\<lparr>n_open := Some m, n_block_types := []\<rparr>"
proof -
  have "opened m s = Inr s' \<or> opened m (s\<lparr>n_block_types := []\<rparr>) = Inr s' \<or> open_result bad s m = Inr s'"
    using assms unfolding open_role_def by (simp only: split: if_split_asm) simp_all
  moreover have "open_result bad s m = Inr s' \<Longrightarrow> opened m s = Inr s'"
    by (simp add: open_result_def split: option.split_asm prod.split_asm if_split_asm)
  ultimately show ?thesis by (auto simp: opened_def)
qed

lemma open_message_cases:
  assumes "open_message p bad s m = Inr s'"
  obtains b where "n_turn s" "n_open s = None" "s' = s\<lparr>n_open := Some m, n_block_types := b\<rparr>"
proof -
  have guard: "\<not> (\<not> n_turn s \<or> n_open s \<noteq> None)"
  proof
    assume "\<not> n_turn s \<or> n_open s \<noteq> None"
    from assms [unfolded open_message_def if_P [OF this]] show False by simp
  qed
  obtain role where "open_role p bad s m role = Inr s'"
    using assms [unfolded open_message_def if_not_P [OF guard]] by (simp split: option.split_asm)
  from open_role_cases [OF this] show thesis
  proof
    assume "s' = s\<lparr>n_open := Some m\<rparr>"
    then have "s' = s\<lparr>n_open := Some m, n_block_types := n_block_types s\<rparr>" by simp
    with guard that show thesis by blast
  next
    assume "s' = s\<lparr>n_open := Some m, n_block_types := []\<rparr>"
    with guard that show thesis by blast
  qed
qed

lemma message_start_cases:
  assumes "message_start_step p bad s r = Inr s'"
  obtains m s3 b where "s3 = infer_turn_start p (infer_turn_end p (infer_omitted_result p s m) m) m"
    "n_turn s3" "n_open s3 = None" "s' = s3\<lparr>n_open := Some m, n_block_types := b\<rparr>" "jget r ''message'' = Some m"
proof -
  obtain m where m: "jget r ''message'' = Some m"
    and body: "open_message p bad (infer_turn_start p (infer_turn_end p (infer_omitted_result p s m) m) m) m = Inr s'"
    using assms by (simp add: message_start_step_def Let_def split: option.split_asm if_split_asm)
  from body show thesis
    by (rule open_message_cases) (rule that [OF refl _ _ _ m])
qed

lemma message_update_cases:
  assumes "message_update_step bad s r = Inr s'"
  obtains b where "s' = s\<lparr>n_block_types := b\<rparr>"
  using assms unfolding message_update_step_def Let_def
  by (auto split: if_split_asm option.split_asm)

lemma turn_start_cases:
  assumes "turn_start_step bad s = Inr s'"
  shows "n_open s = None" "s' = s\<lparr>n_turn := True, n_assistant := None, n_calls := [], n_results := []\<rparr>"
  using assms unfolding turn_start_step_def by (simp_all split: if_split_asm)

lemma turn_end_cases:
  assumes "turn_end_step p bad s r = Inr s'"
  obtains l where "all_settled s" "n_open s = None" "s' = s\<lparr>n_last_stop := l, n_turn := False\<rparr>"
  using assms unfolding turn_end_step_def by (auto split: if_split_asm)

lemma message_end_texts:
  assumes "message_end_step p bad s r = Inr s'" "record_type r = Some ''message_end''"
  shows "n_texts s' = n_texts s @ prose_list r"
  using assms(1)
proof (cases rule: message_end_cases)
  case (1 m current s1 role)
  have m: "jidx r ''message'' = m" using 1(1) by (simp add: jidx_def)
  show ?thesis
  proof (cases "role = ''assistant''")
    case True
    then have "end_assistant p bad s m = Inr s1" using end_role_cases [OF 1(5)] by simp
    then show ?thesis
    proof (cases rule: end_assistant_cases)
      case (1 blocks prose calls)
      then have "prose = concat (map block_text blocks)" using assistant_blocks_text by fastforce
      then have "prose_list r = [prose]"
        using assms(2) m True \<open>jidx m ''role'' = JStr role\<close> 1(1)
        by (simp add: prose_list_def assistant_prose_def array_items_def)
      with 1(3) \<open>s' = s1\<lparr>n_history := n_history s1 @ [m], n_open := None\<rparr>\<close> show ?thesis by simp
    qed
  next
    case False
    then have "prose_list r = []" using 1(4) m by (intro prose_list_role) simp_all
    moreover have "n_texts s1 = n_texts s"
      using end_role_cases [OF 1(5)] False by (auto elim: end_tool_result_cases)
    ultimately show ?thesis using 1(3) by simp
  qed
qed

lemma lifecycle_texts:
  assumes "lifecycle_step p bad s r kind = Inr s'" "record_type r = Some kind"
  shows "n_texts s' = n_texts s @ prose_list r"
  using assms(1)
proof (cases rule: lifecycle_step_cases)
  case 1
  then show ?thesis using prose_list_other [OF assms(2)] by (auto simp: agent_start_step_def split: if_split_asm)
next
  case 2
  then show ?thesis using prose_list_other [OF assms(2)] turn_start_cases(2) by fastforce
next
  case 3
  from 3(2) show ?thesis by (cases rule: message_start_cases) (simp add: prose_list_other [OF assms(2)] 3(1))
next
  case 4
  from 4(2) show ?thesis by (cases rule: message_update_cases) (simp add: prose_list_other [OF assms(2)] 4(1))
next
  case 5
  with assms(2) show ?thesis by (intro message_end_texts) simp_all
next
  case 6
  have "kind \<noteq> ''message_end''" using 6(1) by auto
  then have "prose_list r = []" by (rule prose_list_other [OF assms(2)])
  with 6(2) show ?thesis by (cases rule: execution_cases) auto
next
  case 7
  from 7(2) show ?thesis by (cases rule: turn_end_cases) (simp add: prose_list_other [OF assms(2)] 7(1))
next
  case 8
  from 8(2) show ?thesis by (cases rule: agent_end_cases) (simp add: prose_list_other [OF assms(2)] 8(1))
qed

lemma telemetry_keeps:
  "queue_step p bad s r = Inr s' \<Longrightarrow> \<exists>d. s' = s\<lparr>n_drain := d\<rparr> \<and> (m_drain p \<or> d = n_drain s)
     \<and> (d = n_drain s \<or> drain_queue (jidx r ''actions'') (n_ended s) (n_drain s) = Some d)"
  "child_step p bad s r = Inr s' \<Longrightarrow> \<exists>d. s' = s\<lparr>n_drain := d\<rparr> \<and> (m_drain p \<or> d = n_drain s)
     \<and> (d = n_drain s \<or> d = drain_child (jidx r ''child'') (n_drain s))"
proof -
  have same: "s = s\<lparr>n_drain := n_drain s\<rparr>" by simp
  show "queue_step p bad s r = Inr s' \<Longrightarrow> \<exists>d. s' = s\<lparr>n_drain := d\<rparr> \<and> (m_drain p \<or> d = n_drain s)
     \<and> (d = n_drain s \<or> drain_queue (jidx r ''actions'') (n_ended s) (n_drain s) = Some d)"
    unfolding queue_step_def using same by (auto split: if_split_asm option.split_asm)
  show "child_step p bad s r = Inr s' \<Longrightarrow> \<exists>d. s' = s\<lparr>n_drain := d\<rparr> \<and> (m_drain p \<or> d = n_drain s)
     \<and> (d = n_drain s \<or> d = drain_child (jidx r ''child'') (n_drain s))"
    unfolding child_step_def using same by (auto split: if_split_asm)
qed

lemma native_step_texts:
  assumes "native_step p (past, s) r = Inr (past', s')"
  shows "n_texts s' = n_texts s @ prose_list r"
  using assms
proof (cases rule: native_step_cases)
  case ui
  then show ?thesis using prose_list_other by force
next
  case (ready s1)
  then show ?thesis using prose_list_other by force
next
  case (commands s1)
  then show ?thesis using prose_list_other by force
next
  case (response s1)
  then show ?thesis using prose_list_other response_texts by force
next
  case (continuation s1 kind ph)
  then show ?thesis using continuation_texts by force
next
  case (running s1 kind)
  from running(4) have "n_texts s1 = n_texts s @ prose_list r"
  proof (cases rule: running_step_cases)
    case (async task)
    then show ?thesis using prose_list_other [OF running(1)] by simp
  next
    case queue
    then show ?thesis using prose_list_other [OF running(1)] telemetry_keeps(1) by fastforce
  next
    case child
    then show ?thesis using prose_list_other [OF running(1)] telemetry_keeps(2) by fastforce
  next
    case lifecycle
    from lifecycle_texts [OF lifecycle(2) running(1)] show ?thesis by simp
  qed
  with running(5) show ?thesis by simp
qed

lemma native_run_texts:
  "foldE (native_step p) (past, s) rs = Inr (past', s') \<Longrightarrow> n_texts s' = n_texts s @ concat (map prose_list rs)"
proof (induction rs arbitrary: past s)
  case Nil
  then show ?case by simp
next
  case (Cons r rs)
  then obtain b1 s1 where "native_step p (past, s) r = Inr (b1, s1)" "foldE (native_step p) (b1, s1) rs = Inr (past', s')"
    by (auto simp: bindE_eq_Inr)
  with Cons.IH native_step_texts show ?case by fastforce
qed

lemma concat_prose_list: "concat (map prose_list rs) = List.map_filter assistant_prose rs"
  by (induction rs) (auto simp: prose_list_def map_filter_simps split: option.split)

section \<open>Tool calls advance\<close>

text \<open>
  From one state to the next a call that is still known keeps its name and arguments and advances by
  at most one stage, never past the last; a call that was not known is only declared.
\<close>

definition call_advances :: "tool_call option \<Rightarrow> tool_call \<Rightarrow> bool" where
  "call_advances old c \<longleftrightarrow>
     (case old of
        None \<Rightarrow> c_stage c = 0
      | Some c0 \<Rightarrow> c_name c = c_name c0 \<and> c_args c = c_args c0
          \<and> (c_stage c = c_stage c0 \<or> c_stage c = Suc (c_stage c0) \<and> c_stage c \<le> 3))"

definition calls_advance :: "(string, tool_call) btree \<Rightarrow> (string, tool_call) btree \<Rightarrow> bool" where
  "calls_advance m m' \<longleftrightarrow> (\<forall>k c. bt_get m' k = Some c \<longrightarrow> call_advances (bt_get m k) c)"

lemma calls_advance_refl [simp]: "calls_advance m m"
  by (simp add: calls_advance_def call_advances_def)

lemma calls_advance_empty [simp]: "calls_advance m []"
  by (simp add: calls_advance_def)

lemma calls_advance_insert:
  "call_advances (bt_get m k) c \<Longrightarrow> calls_advance m (bt_insert k c m)"
  by (simp add: calls_advance_def bt_get_insert call_advances_def [of "Some _"])

text \<open>The declared calls are new.\<close>

definition declares :: "(string, tool_call) btree \<Rightarrow> (string, tool_call) btree \<Rightarrow> bool" where
  "declares m m' \<longleftrightarrow> (\<forall>k. bt_get m' k = bt_get m k
     \<or> bt_get m k = None \<and> (\<exists>c. bt_get m' k = Some c \<and> c_stage c = 0))"

lemma declare_call_declares:
  assumes "declare_call p bad b m = Inr m'"
  shows "declares m m'" "bt_invar m \<Longrightarrow> bt_invar m'"
  using assms unfolding declare_call_def declares_def
  by (auto simp: bt_get_insert bt_invar_insert split: option.split_asm if_split_asm)

lemma assistant_block_declares:
  assumes "assistant_block p bad (t, m) b = Inr (t', m')"
  shows "declares m m' \<and> (bt_invar m \<longrightarrow> bt_invar m')"
proof -
  have "m' = m \<or> declare_call p bad b m = Inr m'"
    using assms unfolding assistant_block_def by (auto simp: mapE_eq_Inr split: if_split_asm)
  then show ?thesis using declare_call_declares [of p bad b m m'] by (auto simp: declares_def)
qed

lemma declares_trans: "\<lbrakk>declares a b; declares b c\<rbrakk> \<Longrightarrow> declares a c"
  unfolding declares_def by metis

lemma assistant_blocks_declare:
  "foldE (assistant_block p bad) (t, m) blocks = Inr (t', m') \<Longrightarrow> declares m m' \<and> (bt_invar m \<longrightarrow> bt_invar m')"
proof (induction blocks arbitrary: t m)
  case Nil
  then show ?case by (simp add: declares_def)
next
  case (Cons b blocks)
  then obtain t1 m1 where "assistant_block p bad (t, m) b = Inr (t1, m1)"
    "foldE (assistant_block p bad) (t1, m1) blocks = Inr (t', m')"
    by (auto simp: bindE_eq_Inr)
  with Cons.IH assistant_block_declares declares_trans show ?case by blast
qed

lemma declares_advance:
  assumes "declares m m'"
  shows "calls_advance m m'"
  unfolding calls_advance_def
proof (intro allI impI)
  fix k c
  assume c: "bt_get m' k = Some c"
  from assms have "bt_get m' k = bt_get m k \<or> bt_get m k = None \<and> (\<exists>d. bt_get m' k = Some d \<and> c_stage d = 0)"
    by (simp add: declares_def)
  then show "call_advances (bt_get m k) c"
    by (elim disjE) (use c in \<open>auto simp: call_advances_def split: option.split\<close>)
qed

lemma infer_calls:
  "n_calls (infer_omitted_result p s m) = n_calls s \<or> n_calls (infer_omitted_result p s m) = []"
  "n_calls (infer_turn_end p s m) = n_calls s"
  "n_calls (infer_turn_start p s m) = n_calls s \<or> n_calls (infer_turn_start p s m) = []"
  by (auto simp: infer_omitted_result_def infer_turn_end_def infer_turn_start_def split: list.split)

definition calls_follow :: "native \<Rightarrow> native \<Rightarrow> bool" where
  "calls_follow s s' \<longleftrightarrow> calls_advance (n_calls s) (n_calls s') \<and> (bt_invar (n_calls s) \<longrightarrow> bt_invar (n_calls s'))"

lemma calls_follow_same: "n_calls s' = n_calls s \<or> n_calls s' = [] \<Longrightarrow> calls_follow s s'"
  by (auto simp: calls_follow_def)

lemma end_role_calls:
  assumes "end_role p bad s m current role = Inr s1"
  shows "calls_follow s s1"
proof -
  from end_role_cases [OF assms] consider "s1 = s" | "s1 = s\<lparr>n_user := True\<rparr>"
    | "end_assistant p bad s m = Inr s1" | "end_tool_result bad s m current = Inr s1" by blast
  then show ?thesis
  proof cases
    case 3
    then show ?thesis
    proof (cases rule: end_assistant_cases)
      case (1 blocks prose calls)
      from assistant_blocks_declare [OF 1(2)] 1(3) show ?thesis
        by (simp add: calls_follow_def declares_advance)
    qed
  next
    case 4
    then show ?thesis
    proof (cases rule: end_tool_result_cases)
      case (1 key call)
      then have "calls_advance (n_calls s) (bt_insert key (call\<lparr>c_stage := 3\<rparr>) (n_calls s))"
        by (intro calls_advance_insert) (simp add: call_advances_def)
      with 1(3) show ?thesis by (simp add: calls_follow_def bt_invar_insert)
    qed
  qed (simp_all add: calls_follow_same)
qed

lemma execution_calls:
  assumes "execution_step p bad s r kind = Inr s'"
  shows "calls_follow s s'"
  using assms
proof -
  obtain key call where call: "bt_get (n_calls s) key = Some call" "execute_call p bad s r kind key call = Inr s'"
    using assms by (auto simp: execution_step_def find_call_Some split: if_split_asm option.split_asm)
  from execute_call_cases [OF call(2)] show ?thesis
  proof
    assume "s' = s"
    then show ?thesis by (simp add: calls_follow_same)
  next
    assume "c_stage call < 2 \<and> (\<exists>call'. c_stage call' = Suc (c_stage call) \<and> c_name call' = c_name call
     \<and> c_args call' = c_args call
     \<and> (s' = set_call key call' s \<or> s' = remember_async p call r key (set_call key call' s)))"
    then obtain call' where adv: "c_stage call < 2" "c_stage call' = Suc (c_stage call)"
        "c_name call' = c_name call" "c_args call' = c_args call"
      and s': "s' = set_call key call' s \<or> s' = remember_async p call r key (set_call key call' s)"
      by blast
    from s' have c2: "n_calls s' = bt_insert key call' (n_calls s)"
      by (elim disjE) (simp_all add: set_call_keeps remember_async_keeps)
    from adv have "call_advances (Some call) call'" by (simp add: call_advances_def)
    note c = this c2
    then have "calls_advance (n_calls s) (n_calls s')"
      using call(1) by (simp add: calls_advance_insert)
    with c(2) show ?thesis by (simp add: calls_follow_def bt_invar_insert)
  qed
qed

lemma lifecycle_calls:
  assumes "lifecycle_step p bad s r kind = Inr s'"
  shows "calls_follow s s'"
  using assms
proof (cases rule: lifecycle_step_cases)
  case 1
  then show ?thesis by (intro calls_follow_same) (auto simp: agent_start_step_def split: if_split_asm)
next
  case 2
  then show ?thesis using turn_start_cases(2) by (intro calls_follow_same) fastforce
next
  case 3
  from 3(2) show ?thesis
  proof (cases rule: message_start_cases)
    case (1 m s3 b)
    have "n_calls s3 = n_calls s \<or> n_calls s3 = []"
      unfolding 1(1) using infer_calls(1) [of p s m] infer_calls(2) [of p "infer_omitted_result p s m" m]
        infer_calls(3) [of p "infer_turn_end p (infer_omitted_result p s m) m" m] by auto
    with 1(4) show ?thesis by (intro calls_follow_same) simp
  qed
next
  case 4
  from 4(2) show ?thesis by (cases rule: message_update_cases) (simp add: calls_follow_same)
next
  case 5
  from 5(2) show ?thesis
  proof (cases rule: message_end_cases)
    case (1 m current s1 role)
    from end_role_calls [OF 1(5)] 1(3) show ?thesis by (simp add: calls_follow_def)
  qed
next
  case 6
  from 6(2) show ?thesis by (rule execution_calls)
next
  case 7
  from 7(2) show ?thesis by (cases rule: turn_end_cases) (simp add: calls_follow_same)
next
  case 8
  from 8(2) show ?thesis by (cases rule: agent_end_cases) (simp add: calls_follow_same)
qed

lemma continuation_calls:
  assumes "continuation_step bad s r kind ph = Inr s'"
  shows "calls_follow s s'"
  using assms by (cases rule: continuation_cases) (simp_all add: calls_follow_same)

lemma running_calls:
  assumes "running_step p bad s r kind = Inr s'"
  shows "calls_follow s s'"
  using assms
proof (cases rule: running_step_cases)
  case queue
  with telemetry_keeps(1) show ?thesis by (intro calls_follow_same) fastforce
next
  case child
  with telemetry_keeps(2) show ?thesis by (intro calls_follow_same) fastforce
next
  case lifecycle
  from lifecycle_calls [OF lifecycle(2)] show ?thesis by (simp add: calls_follow_def)
qed (simp add: calls_follow_same)

lemma native_step_calls:
  assumes "native_step p (past, s) r = Inr (past', s')"
  shows "calls_follow s s'"
  using assms
proof (cases rule: native_step_cases)
  case (response s1)
  with response_texts [OF response(2)] show ?thesis by (simp add: calls_follow_same)
next
  case (continuation s1 kind ph)
  with continuation_calls show ?thesis by blast
next
  case (running s1 kind)
  with running_calls show ?thesis by blast
qed (simp_all add: calls_follow_same)

section \<open>A complete run\<close>

text \<open>A prompt answered after one tool call, as Prime sends it.\<close>

definition user_message :: json where
  "user_message = jobj [(''role'', JStr ''user''), (''content'', JArr [])]"

definition call_message :: json where
  "call_message = jobj [(''role'', JStr ''assistant''), (''stopReason'', JStr ''toolUse''),
     (''content'', JArr [jobj [(''type'', JStr ''toolCall''), (''id'', JStr ''t''), (''name'', JStr ''read''),
        (''arguments'', jobj [])]])]"

definition result_message :: json where
  "result_message = jobj [(''role'', JStr ''toolResult''), (''toolCallId'', JStr ''t''), (''toolName'', JStr ''read''),
     (''content'', JArr []), (''isError'', JBool False)]"

definition answer_message :: json where
  "answer_message = jobj [(''role'', JStr ''assistant''), (''stopReason'', JStr ''stop''),
     (''content'', JArr [jobj [(''type'', JStr ''text''), (''text'', JStr ''ok'')]])]"

definition lifecycle_record :: "string \<Rightarrow> (string \<times> json) list \<Rightarrow> json" where
  "lifecycle_record kind fs = jobj ((''type'', JStr kind) # fs)"

definition example_records :: "json list" where
  "example_records =
     [lifecycle_record ''response'' [(''id'', JStr ''i''), (''command'', JStr ''prompt''), (''success'', JBool True)],
      lifecycle_record ''agent_start'' [], lifecycle_record ''turn_start'' [],
      lifecycle_record ''message_start'' [(''message'', user_message)], lifecycle_record ''message_end'' [(''message'', user_message)],
      lifecycle_record ''message_start'' [(''message'', call_message)], lifecycle_record ''message_end'' [(''message'', call_message)],
      lifecycle_record ''tool_execution_start'' [(''toolCallId'', JStr ''t''), (''toolName'', JStr ''read''), (''args'', jobj [])],
      lifecycle_record ''tool_execution_end'' [(''toolCallId'', JStr ''t''), (''toolName'', JStr ''read''), (''isError'', JBool False),
        (''result'', jobj [(''content'', JArr [])])],
      lifecycle_record ''message_start'' [(''message'', result_message)], lifecycle_record ''message_end'' [(''message'', result_message)],
      lifecycle_record ''turn_end'' [(''message'', call_message), (''toolResults'', JArr [result_message])],
      lifecycle_record ''turn_start'' [],
      lifecycle_record ''message_start'' [(''message'', answer_message)], lifecycle_record ''message_end'' [(''message'', answer_message)],
      lifecycle_record ''turn_end'' [(''message'', answer_message), (''toolResults'', JArr [])],
      lifecycle_record ''agent_end'' [(''messages'', JArr [user_message, call_message, result_message, answer_message])]]"

lemmas native_defs = native_step_def admitted_step_def running_step_def lifecycle_step_def response_step_def
 async_task_def reopen_segment_def agent_start_step_def turn_start_step_def message_start_step_def infer_omitted_result_def
 infer_turn_end_def infer_turn_start_def open_message_def open_role_def opened_def message_end_step_def end_role_def
 lifecycle_record_def jobj_def user_message_def prime_bounded_json.simps has_exact_keys_def record_type_def initial_native_def Let_def
 PRIME_RPC_COLLECTION_LIMIT_def PRIME_RPC_NESTING_LIMIT_def PRIME_RPC_STRING_BYTES_LIMIT_def command_keys_def is_object_def is_array_def fresh_assistant_def stopped_for_tools_def default_drain_def


lemmas native_handler_defs = find_call_def set_call_def end_assistant_def assistant_block_def declare_call_def declared_args_def end_tool_result_def
 execution_step_def execute_call_def task_args_match_def native_args_match_def turn_end_step_def same_message_def agent_end_step_def agent_end_drain_def close_segment_def
  open_result_def block_type_at_def remember_async_def call_message_def result_message_def answer_message_def is_string_def is_boolean_def settled_end_def normalize_mode_def

lemma example_run:
  "normalize_mode example_records ''i'' False True False
    = Inr \<lparr>terminal_event = ''agent_end'', assistant_messages = [[], ''ok'']\<rparr>"
  unfolding example_records_def by (simp add: native_defs native_handler_defs)

section \<open>Properties\<close>

text \<open>
  Property C5. The texts an accepted transport yields are exactly those of its finished assistant
  messages, one per message and in order, each the concatenation of the message's text blocks:
  nothing else that the harness sends (thinking, tool calls, results, telemetry, queued deliveries)
  reaches them, and nothing is dropped.
\<close>

theorem texts_are_the_assistant_messages:
  assumes "normalize_mode records rpc_id omp terminal drain = Inr n"
  shows "assistant_messages n = List.map_filter assistant_prose records"
proof -
  let ?p = "\<lparr>m_id = rpc_id, m_omp = omp, m_drain = drain\<rparr>"
  obtain past s where run: "foldE (native_step ?p) ([], initial_native ?p) records = Inr (past, s)"
    and n: "assistant_messages n = n_texts s"
    using assms by (auto simp: normalize_mode_def Let_def bindE_eq_Inr split: if_split_asm)
  show ?thesis
    using native_run_texts [OF run] n by (simp add: concat_prose_list initial_native_def)
qed

lemma texts_are_the_assistant_messages_witness:
  "normalize_mode example_records ''i'' False True False
     = Inr \<lparr>terminal_event = ''agent_end'', assistant_messages = [[], ''ok'']\<rparr>
   \<and> List.map_filter assistant_prose example_records = [[], ''ok'']"
  using texts_are_the_assistant_messages [OF example_run] example_run by simp

text \<open>
  Property C6. Every prefix of an accepted record stream is accepted as a prefix, and what it yields
  is an initial part of what the whole stream yields: reading more records never takes a text back.
\<close>

theorem prefixes_are_accepted:
  assumes "normalize_mode (records @ later) rpc_id omp terminal drain = Inr n"
  shows "\<exists>n'. normalize_mode records rpc_id omp False drain = Inr n'
    \<and> assistant_messages n = assistant_messages n' @ List.map_filter assistant_prose later"
proof -
  let ?p = "\<lparr>m_id = rpc_id, m_omp = omp, m_drain = drain\<rparr>"
  obtain b s where run: "foldE (native_step ?p) ([], initial_native ?p) (records @ later) = Inr (b, s)"
    and n: "assistant_messages n = n_texts s"
    using assms by (auto simp: normalize_mode_def Let_def bindE_eq_Inr split: if_split_asm)
  obtain b1 s1 where first: "foldE (native_step ?p) ([], initial_native ?p) records = Inr (b1, s1)"
    and rest: "foldE (native_step ?p) (b1, s1) later = Inr (b, s)"
    using run by (auto simp: foldE_append bindE_eq_Inr)
  then have "normalize_mode records rpc_id omp False drain
      = Inr \<lparr>terminal_event = ''agent_end'', assistant_messages = n_texts s1\<rparr>"
    by (simp add: normalize_mode_def Let_def)
  with n native_run_texts [OF rest] show ?thesis by (simp add: concat_prose_list)
qed

lemma prefixes_are_accepted_witness:
  "\<exists>n'. normalize_mode (take 7 example_records) ''i'' False False False = Inr n'
    \<and> [[], ''ok''] = assistant_messages n' @ List.map_filter assistant_prose (drop 7 example_records)"
  using prefixes_are_accepted [of "take 7 example_records" "drop 7 example_records" "''i''" False True False] example_run
  by (simp only: append_take_drop_id) fastforce

end
