(* ===== verification/Native_Settled.thy ===== *)
theory Native_Settled
  imports Native_Proofs
begin

text \<open>
  Invariants over whole runs of the native tool lifecycle: how tool calls advance, what holds once the
  agent has ended, and how often a stopped parent is resumed.
\<close>

section \<open>The drain from one record to the next\<close>

text \<open>The latch never opens again, and only an open latch lets a continuation start.\<close>

definition drain_advances :: "prime_drain \<Rightarrow> prime_drain \<Rightarrow> bool" where
  "drain_advances d d' \<longleftrightarrow> (continuation_used d \<longrightarrow> continuation_used d')
     \<and> (pending_phase d = None \<longrightarrow> pending_phase d' = None \<or> \<not> continuation_used d \<and> continuation_used d')"

lemma drain_advances_same:
  "\<lbrakk>continuation_used d' = continuation_used d; pending_phase d' = pending_phase d\<rbrakk> \<Longrightarrow> drain_advances d d'"
  by (simp add: drain_advances_def)

lemma drain_advances_refl [simp]: "drain_advances d d"
  by (simp add: drain_advances_same)

lemma drain_queue_keeps:
  "drain_queue a candidate d = Some d' \<Longrightarrow>
     continuation_used d' = continuation_used d \<and> pending_phase d' = pending_phase d"
  by (auto dest: drain_queue_Some)

lemma continuation_queue_keeps:
  "continuation_queue r phase d = Some d' \<Longrightarrow> continuation_used d' = continuation_used d"
  by (auto simp: continuation_queue_def Let_def dest: drain_queue_keeps split: if_split_asm)

lemma drain_history_keeps:
  "drain_history observed streamed d = Some d' \<Longrightarrow>
     continuation_used d' = continuation_used d \<and> pending_phase d' = pending_phase d"
  by (auto dest!: drain_history_cases)

lemma close_segment_advances:
  assumes "close_segment bad s d = Inr (continues, s')"
  shows "drain_advances d (n_drain s') \<and> (\<not> continues \<longrightarrow> pending_phase (n_drain s') = pending_phase d)"
  using assms
proof (cases rule: close_segment_cases)
  case (queued d2 b)
  with prepare_cases [OF queued(2)] show ?thesis by (auto simp: drain_advances_def)
next
  case (ends d2 b)
  with prepare_cases [OF ends(2)] show ?thesis by (auto simp: drain_advances_def)
qed (simp add: drain_advances_def)

lemma agent_end_drain_advances:
  assumes "agent_end_drain bad s msgs = Inr (continues, s')"
  shows "drain_advances (n_drain s) (n_drain s')
    \<and> (\<not> continues \<longrightarrow> pending_phase (n_drain s') = pending_phase (n_drain s))"
proof -
  obtain h d where d: "drain_history msgs h (n_drain s) = Some d" "close_segment bad s d = Inr (continues, s')"
    using assms by (rule agent_end_drain_parts)
  with drain_history_keeps [OF d(1)] close_segment_advances [OF d(2)] show ?thesis
    by (simp add: drain_advances_def)
qed

lemma agent_end_advances:
  assumes "agent_end_step p bad s r = Inr s'"
  shows "drain_advances (n_drain s) (n_drain s')"
    "\<lbrakk>n_ended s'; \<not> n_ended s\<rbrakk> \<Longrightarrow> pending_phase (n_drain s') = pending_phase (n_drain s)"
proof -
  from assms obtain continues s1 where
      s1: "s1 = s \<and> \<not> continues \<or> (\<exists>msgs. agent_end_drain bad s msgs = Inr (continues, s1))"
    and s': "s' = s1 \<and> continues \<or> s' = s1\<lparr>n_ended := True\<rparr> \<and> \<not> continues" by (rule agent_end_parts)
  from s1 have "drain_advances (n_drain s) (n_drain s1) \<and> n_ended s1 = n_ended s
      \<and> (\<not> continues \<longrightarrow> pending_phase (n_drain s1) = pending_phase (n_drain s))"
  proof
    assume "\<exists>msgs. agent_end_drain bad s msgs = Inr (continues, s1)"
    then obtain msgs where e: "agent_end_drain bad s msgs = Inr (continues, s1)" ..
    from e obtain d where "s1 = s\<lparr>n_drain := d\<rparr>" by (rule agent_end_drain_cases)
    with agent_end_drain_advances [OF e] show ?thesis by simp
  qed simp
  with s' show "drain_advances (n_drain s) (n_drain s')"
    "\<lbrakk>n_ended s'; \<not> n_ended s\<rbrakk> \<Longrightarrow> pending_phase (n_drain s') = pending_phase (n_drain s)" by auto
qed

text \<open>Every other step of the lifecycle leaves the drain and the end of the agent alone.\<close>

lemma end_role_keeps:
  assumes "end_role p bad s m current role = Inr s1"
  shows "n_drain s1 = n_drain s \<and> n_ended s1 = n_ended s"
  using end_role_cases [OF assms]
  by (auto elim!: end_assistant_cases end_tool_result_cases)

lemma lifecycle_drain:
  assumes "lifecycle_step p bad s r kind = Inr s'"
  shows "n_drain s' = n_drain s \<and> n_ended s' = n_ended s \<or> agent_end_step p bad s r = Inr s'"
  using assms
proof (cases rule: lifecycle_step_cases)
  case 1
  then show ?thesis by (auto simp: agent_start_step_def split: if_split_asm)
next
  case 2
  from turn_start_cases(2) [OF 2(2)] show ?thesis by simp
next
  case 3
  from 3(2) show ?thesis by (cases rule: message_start_cases) simp
next
  case 4
  from 4(2) show ?thesis by (cases rule: message_update_cases) simp
next
  case 5
  from 5(2) show ?thesis
    by (cases rule: message_end_cases) (auto dest: end_role_keeps)
next
  case 6
  from 6(2) show ?thesis by (cases rule: execution_cases) auto
next
  case 7
  from 7(2) show ?thesis by (cases rule: turn_end_cases) simp
qed simp

lemma reopen_drain [simp]:
  "continuation_used (n_drain (reopen_segment p s k)) = continuation_used (n_drain s)"
  "pending_phase (n_drain (reopen_segment p s k)) = pending_phase (n_drain s)"
  by (simp_all add: reopen_segment_def)

lemma lifecycle_advances:
  assumes "lifecycle_step p bad (reopen_segment p s kind) r kind = Inr s'"
  shows "drain_advances (n_drain s) (n_drain s')"
    "\<lbrakk>n_ended s'; \<not> n_ended s\<rbrakk> \<Longrightarrow> pending_phase (n_drain s') = pending_phase (n_drain s)"
  using lifecycle_drain [OF assms] agent_end_advances [of p bad "reopen_segment p s kind" r s']
  by (auto simp: drain_advances_def)

lemma response_drain:
  "response_step p bad s r = Inr s' \<Longrightarrow>
     continuation_used (n_drain s') = continuation_used (n_drain s)
     \<and> pending_phase (n_drain s') = pending_phase (n_drain s)"
  unfolding response_step_def state_response_def inventory_response_def Let_def
  by (auto split: if_split_asm option.split_asm)

lemma continuation_drain:
  assumes "continuation_step bad s r kind ph = Inr s'"
  shows "(continuation_used (n_drain s) \<longrightarrow> continuation_used (n_drain s')) \<and> n_ended s' = n_ended s"
  using assms by (cases rule: continuation_cases) (auto dest: continuation_queue_keeps)

lemma running_advances:
  assumes "running_step p bad s r kind = Inr s'"
  shows "drain_advances (n_drain s) (n_drain s')"
    "\<lbrakk>n_ended s'; \<not> n_ended s\<rbrakk> \<Longrightarrow> pending_phase (n_drain s') = pending_phase (n_drain s)"
proof -
  have "drain_advances (n_drain s) (n_drain s')
    \<and> (n_ended s' \<longrightarrow> \<not> n_ended s \<longrightarrow> pending_phase (n_drain s') = pending_phase (n_drain s))"
    using assms
  proof (cases rule: running_step_cases)
    case queue
    with telemetry_keeps(1) obtain d where "s' = s\<lparr>n_drain := d\<rparr>"
      "d = n_drain s \<or> drain_queue (jidx r ''actions'') (n_ended s) (n_drain s) = Some d" by blast
    then show ?thesis by (auto simp: drain_advances_same dest: drain_queue_keeps)
  next
    case child
    with telemetry_keeps(2) obtain d where "s' = s\<lparr>n_drain := d\<rparr>"
      "d = n_drain s \<or> d = drain_child (jidx r ''child'') (n_drain s)" by blast
    then show ?thesis by (auto simp: drain_advances_same)
  next
    case lifecycle
    from lifecycle_advances [OF lifecycle(2)] show ?thesis by blast
  qed simp
  then show "drain_advances (n_drain s) (n_drain s')"
    "\<lbrakk>n_ended s'; \<not> n_ended s\<rbrakk> \<Longrightarrow> pending_phase (n_drain s') = pending_phase (n_drain s)" by blast+
qed

lemma native_step_advances:
  assumes "native_step p (past, s) r = Inr (past', s')"
  shows "drain_advances (n_drain s) (n_drain s')"
  using assms
proof (cases rule: native_step_cases)
  case (response s1)
  with response_drain [OF response(2)] show ?thesis by (simp add: drain_advances_same)
next
  case (continuation s1 kind ph)
  with continuation_drain [OF continuation(5)] show ?thesis by (simp add: drain_advances_def)
next
  case (running s1 kind)
  with running_advances(1) [OF running(4)] show ?thesis by simp
qed simp_all

section \<open>The ended agent\<close>





section \<open>Properties\<close>

text \<open>
  Property C7. An accepted record takes a tool call at most one stage further (declared, started,
  ended, settled), never back and never past the last, and keeps its name and arguments; a call that
  was not known before is only declared by it.
\<close>

theorem tool_calls_advance:
  assumes "native_step p (past, s) r = Inr (past', s')"
  shows "\<forall>k c. bt_get (n_calls s') k = Some c \<longrightarrow>
    (case bt_get (n_calls s) k of
       None \<Rightarrow> c_stage c = 0
     | Some c0 \<Rightarrow> c_name c = c_name c0 \<and> c_args c = c_args c0
         \<and> (c_stage c = c_stage c0 \<or> c_stage c = Suc (c_stage c0) \<and> c_stage c \<le> 3))"
  using native_step_calls [OF assms] unfolding calls_follow_def calls_advance_def call_advances_def by blast
text \<open>A turn in which the call \<open>t\<close> is declared, and the record that starts it.\<close>

definition example_call :: tool_call where
  "example_call = \<lparr>c_name = ''read'', c_args = JObj [], c_stage = 0, c_result = None, c_error = None\<rparr>"

definition example_turn :: native where
  "example_turn = (initial_native \<lparr>m_id = ''i'', m_omp = False, m_drain = False\<rparr>)
     \<lparr>n_ack := True, n_started := True, n_turn := True, n_calls := [(''t'', example_call)]\<rparr>"

definition example_start :: json where
  "example_start = lifecycle_record ''tool_execution_start''
     [(''toolCallId'', JStr ''t''), (''toolName'', JStr ''read''), (''args'', jobj [])]"

lemma example_start_step:
  "native_step \<lparr>m_id = ''i'', m_omp = False, m_drain = False\<rparr> ([], example_turn) example_start
     = Inr ([example_start], example_turn\<lparr>n_calls := [(''t'', example_call\<lparr>c_stage := 1\<rparr>)]\<rparr>)"
  unfolding example_start_def example_turn_def example_call_def
  by (simp add: native_defs native_handler_defs)

lemma example_turn_calls:
  "n_calls example_turn = [(''t'', example_call)]" "n_calls (example_turn\<lparr>n_calls := x\<rparr>) = x"
  by (simp_all add: example_turn_def)

lemma tool_calls_advance_witness:
  "bt_get [(''t'', example_call\<lparr>c_stage := 1\<rparr>)] ''t'' = Some (example_call\<lparr>c_stage := 1\<rparr>)
   \<and> (case bt_get [(''t'', example_call)] ''t'' of
       None \<Rightarrow> c_stage (example_call\<lparr>c_stage := 1\<rparr>) = 0
     | Some c0 \<Rightarrow> c_name (example_call\<lparr>c_stage := 1\<rparr>) = c_name c0 \<and> c_args (example_call\<lparr>c_stage := 1\<rparr>) = c_args c0
         \<and> (c_stage (example_call\<lparr>c_stage := 1\<rparr>) = c_stage c0
            \<or> c_stage (example_call\<lparr>c_stage := 1\<rparr>) = Suc (c_stage c0) \<and> c_stage (example_call\<lparr>c_stage := 1\<rparr>) \<le> 3))"
proof
  show get: "bt_get [(''t'', example_call\<lparr>c_stage := 1\<rparr>)] ''t'' = Some (example_call\<lparr>c_stage := 1\<rparr>)" by simp
  show "case bt_get [(''t'', example_call)] ''t'' of
       None \<Rightarrow> c_stage (example_call\<lparr>c_stage := 1\<rparr>) = 0
     | Some c0 \<Rightarrow> c_name (example_call\<lparr>c_stage := 1\<rparr>) = c_name c0 \<and> c_args (example_call\<lparr>c_stage := 1\<rparr>) = c_args c0
         \<and> (c_stage (example_call\<lparr>c_stage := 1\<rparr>) = c_stage c0
            \<or> c_stage (example_call\<lparr>c_stage := 1\<rparr>) = Suc (c_stage c0) \<and> c_stage (example_call\<lparr>c_stage := 1\<rparr>) \<le> 3)"
    by (rule tool_calls_advance [OF example_start_step, rule_format, unfolded example_turn_calls, OF get])
qed



text \<open>The records of a run at which a queued continuation begins.\<close>

fun continuations_begun :: "native_mode \<Rightarrow> json list \<times> native \<Rightarrow> json list \<Rightarrow> nat" where
  "continuations_begun p st [] = 0"
| "continuations_begun p st (r # rs) =
     (case native_step p st r of
        Inl _ \<Rightarrow> 0
      | Inr st' \<Rightarrow>
          (if pending_phase (n_drain (snd st)) = None \<and> pending_phase (n_drain (snd st')) \<noteq> None then 1 else 0)
          + continuations_begun p st' rs)"

lemma continuations_bound:
  "continuations_begun p (past, s) rs \<le> (if continuation_used (n_drain s) then 0 else 1)"
proof (induction rs arbitrary: past s)
  case (Cons r rs)
  show ?case
  proof (cases "native_step p (past, s) r")
    case (Inr st')
    obtain past' s' where st': "st' = (past', s')" by (cases st')
    from native_step_advances [OF Inr [unfolded st']] Cons.IH [of past' s'] show ?thesis
      by (auto simp: Inr st' drain_advances_def split: if_split_asm)
  qed simp
qed simp

text \<open>
  Whatever the harness sends, a stopped parent is resumed by a queued delivery at most
  once in a transport: the latch \<open>continuation_used\<close> is never opened again.
\<close>

theorem one_queued_continuation:
  "continuations_begun p ([], initial_native p) records \<le> 1"
  using continuations_bound [of p "[]" "initial_native p" records] by (simp split: if_split_asm)

end
