(* ===== verification/Framing.thy ===== *)
theory Framing
  imports Prelude
begin

text \<open>
  The two pipe readers of \<open>framing.rs\<close>: newline-delimited records from the harness' stdout and raw
  chunks from its stderr, each under closed limits.  A pipe is the list of results its \<open>read\<close>
  calls return (an empty chunk, or the end of the list, is end of file); the channel to the
  supervisor is the list of messages delivered, and \<open>connected n\<close> says whether the receiver still
  exists when \<open>n\<close> messages were delivered.
\<close>

section \<open>Limits and messages\<close>

record stream_limits =
  max_record_bytes :: nat
  max_stdout_bytes :: nat
  max_stderr_bytes :: nat
  max_queued_records :: nat

definition default_limits :: stream_limits where
  "default_limits =
     \<lparr>max_record_bytes = 1024 * 1024, max_stdout_bytes = 64 * 1024 * 1024,
      max_stderr_bytes = 8 * 1024 * 1024, max_queued_records = 256\<rparr>"

datatype reader_message =
    Record string
  | StdoutEof
  | StdoutTruncated nat
  | StdoutLimit bool nat nat \<comment> \<open>record, observed, limit\<close>
  | StdoutIo
  | Stderr string
  | StderrEof
  | StderrLimit
  | StderrIo

definition send :: "(nat \<Rightarrow> bool) \<Rightarrow> reader_message list \<Rightarrow> reader_message \<Rightarrow> reader_message list" where
  "send connected out m = (if connected (length out) then out @ [m] else out)"

section \<open>Standard output\<close>

text \<open>
  One byte of a chunk: the messages so far and the record being collected, or, on the left, the
  messages when the reader returns.
\<close>

definition jsonl_byte ::
  "stream_limits \<Rightarrow> (nat \<Rightarrow> bool) \<Rightarrow> reader_message list \<times> string \<Rightarrow> char
    \<Rightarrow> reader_message list + (reader_message list \<times> string)" where
  "jsonl_byte limits connected st b =
     (case st of (out, rec) \<Rightarrow>
       if b = LF then
         (let r = drop_cr rec in
          if r = [] \<or> \<not> connected (length out) then Inl out
          else Inr (out @ [Record r], []))
       else if max_record_bytes limits \<le> length rec then
         Inl (send connected out
           (StdoutLimit True (saturating_add (length rec) 1) (max_record_bytes limits)))
       else Inr (out, rec @ [b]))"

fun read_jsonl_loop ::
  "stream_limits \<Rightarrow> (nat \<Rightarrow> bool) \<Rightarrow> reader_message list \<Rightarrow> string \<Rightarrow> nat \<Rightarrow> read_result list
    \<Rightarrow> reader_message list" where
  "read_jsonl_loop limits connected out rec aggregate [] =
     send connected out (if rec = [] then StdoutEof else StdoutTruncated (length rec))"
| "read_jsonl_loop limits connected out rec aggregate (ReadErr # rs) = send connected out StdoutIo"
| "read_jsonl_loop limits connected out rec aggregate (ReadOk chunk # rs) =
     (if chunk = [] then
        send connected out (if rec = [] then StdoutEof else StdoutTruncated (length rec))
      else
        case checked_add aggregate (length chunk) of
          None \<Rightarrow> send connected out
            (StdoutLimit False (saturating_add aggregate (length chunk)) (max_stdout_bytes limits))
        | Some aggregate' \<Rightarrow>
            if aggregate' \<le> max_stdout_bytes limits then
              (case foldE (jsonl_byte limits connected) (out, rec) chunk of
                 Inl out' \<Rightarrow> out'
               | Inr (out', rec') \<Rightarrow> read_jsonl_loop limits connected out' rec' aggregate' rs)
            else send connected out
              (StdoutLimit False (saturating_add aggregate (length chunk)) (max_stdout_bytes limits)))"

definition read_jsonl ::
  "stream_limits \<Rightarrow> (nat \<Rightarrow> bool) \<Rightarrow> read_result list \<Rightarrow> reader_message list" where
  "read_jsonl limits connected rs = read_jsonl_loop limits connected [] [] 0 rs"

section \<open>Standard error\<close>

fun read_stderr_loop ::
  "stream_limits \<Rightarrow> (nat \<Rightarrow> bool) \<Rightarrow> reader_message list \<Rightarrow> nat \<Rightarrow> read_result list
    \<Rightarrow> reader_message list" where
  "read_stderr_loop limits connected out aggregate [] = send connected out StderrEof"
| "read_stderr_loop limits connected out aggregate (ReadErr # rs) = send connected out StderrIo"
| "read_stderr_loop limits connected out aggregate (ReadOk chunk # rs) =
     (if chunk = [] then send connected out StderrEof
      else
        case checked_add aggregate (length chunk) of
          None \<Rightarrow> send connected out StderrLimit
        | Some aggregate' \<Rightarrow>
            if aggregate' \<le> max_stderr_bytes limits then
              (if connected (length out)
               then read_stderr_loop limits connected (out @ [Stderr chunk]) aggregate' rs
               else out)
            else send connected out StderrLimit)"

definition read_stderr ::
  "stream_limits \<Rightarrow> (nat \<Rightarrow> bool) \<Rightarrow> read_result list \<Rightarrow> reader_message list" where
  "read_stderr limits connected rs = read_stderr_loop limits connected [] 0 rs"

section \<open>Every delivered record is bounded and not empty\<close>

definition record_ok :: "stream_limits \<Rightarrow> reader_message \<Rightarrow> bool" where
  "record_ok limits m = (case m of Record r \<Rightarrow> r \<noteq> [] \<and> length r \<le> max_record_bytes limits \<and> LF \<notin> set r
     | _ \<Rightarrow> True)"

definition collecting_ok :: "stream_limits \<Rightarrow> reader_message list \<times> string \<Rightarrow> bool" where
  "collecting_ok limits st =
     (list_all (record_ok limits) (fst st) \<and> length (snd st) \<le> max_record_bytes limits
      \<and> LF \<notin> set (snd st))"

lemma record_ok_other [simp]:
  "record_ok limits StdoutEof" "record_ok limits (StdoutTruncated n)" "record_ok limits (StdoutLimit b n l)"
  "record_ok limits StdoutIo" "record_ok limits (Stderr c)" "record_ok limits StderrEof"
  "record_ok limits StderrLimit" "record_ok limits StderrIo"
  by (simp_all add: record_ok_def)

lemma send_ok: "\<lbrakk>list_all (record_ok limits) out; record_ok limits m\<rbrakk>
    \<Longrightarrow> list_all (record_ok limits) (send connected out m)"
  by (simp add: send_def)

lemma jsonl_byte_ok:
  assumes "collecting_ok limits st"
  shows "jsonl_byte limits connected st b = Inr st' \<Longrightarrow> collecting_ok limits st'"
    and "jsonl_byte limits connected st b = Inl out \<Longrightarrow> list_all (record_ok limits) out"
  using assms drop_cr_subset [of "snd st"]
  by (auto simp: jsonl_byte_def collecting_ok_def record_ok_def Let_def send_def
      split: prod.splits if_splits)

interpretation jsonl: fallible_machine "jsonl_byte limits connected" "collecting_ok limits"
  by unfold_locales (rule jsonl_byte_ok(1))

lemma jsonl_fold_stop_ok:
  "\<lbrakk>collecting_ok limits st; foldE (jsonl_byte limits connected) st bs = Inl out\<rbrakk>
    \<Longrightarrow> list_all (record_ok limits) out"
proof (induction bs arbitrary: st)
  case Nil
  then show ?case by simp
next
  case (Cons b bs)
  then show ?case
    by (cases "jsonl_byte limits connected st b") (auto intro: jsonl_byte_ok)
qed

lemma read_jsonl_loop_ok:
  "collecting_ok limits (out, rec)
    \<Longrightarrow> list_all (record_ok limits) (read_jsonl_loop limits connected out rec aggregate rs)"
proof (induction limits connected out rec aggregate rs rule: read_jsonl_loop.induct)
  case (1 limits connected out rec aggregate)
  then show ?case by (auto intro!: send_ok simp: collecting_ok_def)
next
  case (2 limits connected out rec aggregate rs)
  then show ?case by (auto intro!: send_ok simp: collecting_ok_def)
next
  case (3 limits connected out rec aggregate chunk rs)
  have "list_all (record_ok limits) out" using "3.prems" by (simp add: collecting_ok_def)
  note stop = send_ok [OF this]
  show ?case
  proof (cases "chunk \<noteq> [] \<and> aggregate + length chunk \<le> u64_max \<and> aggregate + length chunk \<le> max_stdout_bytes limits")
    case False
    then show ?thesis
      by (auto simp: checked_add_def intro!: stop)
  next
    case True
    show ?thesis
    proof (cases "foldE (jsonl_byte limits connected) (out, rec) chunk")
      case (Inl out')
      with True jsonl_fold_stop_ok [OF "3.prems" Inl] show ?thesis
        by (simp add: checked_add_def)
    next
      case (Inr st)
      then have "collecting_ok limits st" using "3.prems" by (blast intro: jsonl.run_invar)
      with "3.IH" True Inr show ?thesis
        by (cases st) (simp add: checked_add_def)
    qed
  qed
qed

section \<open>Chunk boundaries do not matter\<close>

lemma read_jsonl_loop_chunks:
  assumes "aggregate + length (concat chunks) \<le> max_stdout_bytes limits"
    and "aggregate + length (concat chunks) \<le> u64_max" and "[] \<notin> set chunks"
  shows "read_jsonl_loop limits connected out rec aggregate (map ReadOk chunks) =
    (case foldE (jsonl_byte limits connected) (out, rec) (concat chunks) of
       Inl out' \<Rightarrow> out'
     | Inr (out', rec') \<Rightarrow> send connected out'
         (if rec' = [] then StdoutEof else StdoutTruncated (length rec')))"
  using assms
proof (induction chunks arbitrary: out rec aggregate)
  case Nil
  then show ?case by simp
next
  case (Cons c cs)
  then have "c \<noteq> []" "aggregate + length c \<le> max_stdout_bytes limits" "aggregate + length c \<le> u64_max"
    by auto
  with Cons show ?case
    by (cases "foldE (jsonl_byte limits connected) (out, rec) c")
      (auto simp: foldE_append checked_add_def)
qed

text \<open>
  A stream that exceeds the limit of standard output is read up to the last chunk that still fits; the
  chunk after it is not looked at.
\<close>

fun fitting :: "nat \<Rightarrow> string list \<Rightarrow> string list" where
  "fitting most [] = []"
| "fitting most (c # cs) = (if length c \<le> most then c # fitting (most - length c) cs else [])"

lemma fitting_prefix: "\<exists>rest. chunks = fitting most chunks @ rest"
  by (induction most chunks rule: fitting.induct) auto

lemma read_jsonl_loop_beyond:
  assumes "max_stdout_bytes limits < aggregate + length (concat chunks)" and "aggregate \<le> max_stdout_bytes limits"
    and "max_stdout_bytes limits \<le> u64_max" and "[] \<notin> set chunks"
  shows "\<exists>observed. read_jsonl_loop limits connected out rec aggregate (map ReadOk chunks) =
    (case foldE (jsonl_byte limits connected) (out, rec) (concat (fitting (max_stdout_bytes limits - aggregate) chunks)) of
       Inl out' \<Rightarrow> out'
     | Inr (out', rec') \<Rightarrow> send connected out' (StdoutLimit False observed (max_stdout_bytes limits)))"
  using assms
proof (induction chunks arbitrary: out rec aggregate)
  case Nil
  then show ?case by simp
next
  case (Cons c cs)
  have c: "c \<noteq> []" "[] \<notin> set cs" using Cons.prems(4) by auto
  show ?case
  proof (cases "aggregate + length c \<le> max_stdout_bytes limits")
    case True
    then have fits: "checked_add aggregate (length c) = Some (aggregate + length c)"
        "length c \<le> max_stdout_bytes limits - aggregate"
        "max_stdout_bytes limits - aggregate - length c = max_stdout_bytes limits - (aggregate + length c)"
      using Cons.prems(3) by (simp_all add: checked_add_def)
    show ?thesis
    proof (cases "foldE (jsonl_byte limits connected) (out, rec) c")
      case (Inl x)
      then show ?thesis using c(1) True fits by (simp add: foldE_append checked_add_def)
    next
      case (Inr st)
      obtain out' rec' where st: "st = (out', rec')" by (cases st)
      have "max_stdout_bytes limits < (aggregate + length c) + length (concat cs)" using Cons.prems(1) by simp
      from Cons.IH [OF this True Cons.prems(3) c(2), of out' rec'] show ?thesis
        using c(1) True fits Inr st by (simp add: foldE_append checked_add_def)
    qed
  next
    case False
    then have "\<not> length c \<le> max_stdout_bytes limits - aggregate" using Cons.prems(2) by linarith
    then show ?thesis using c(1) False
      by (intro exI [of _ "saturating_add aggregate (length c)"]) (simp split: option.split)
  qed
qed

section \<open>What was written record by record is read back record by record\<close>

definition framed :: "string list \<Rightarrow> string" where
  "framed rs = concat (map (\<lambda>r. r @ [LF]) rs)"

definition frame_ok :: "stream_limits \<Rightarrow> string \<Rightarrow> bool" where
  "frame_ok limits r = (r \<noteq> [] \<and> length r \<le> max_record_bytes limits \<and> LF \<notin> set r \<and> last r \<noteq> CR)"

lemma jsonl_collect:
  "\<lbrakk>LF \<notin> set r; length rec + length r \<le> max_record_bytes limits\<rbrakk>
    \<Longrightarrow> foldE (jsonl_byte limits connected) (out, rec) r = Inr (out, rec @ r)"
  by (induction r arbitrary: rec) (auto simp: jsonl_byte_def)

lemma jsonl_frame:
  assumes "frame_ok limits r"
  shows "foldE (jsonl_byte limits (\<lambda>_. True)) (out, []) (r @ [LF]) = Inr (out @ [Record r], [])"
proof -
  have "foldE (jsonl_byte limits (\<lambda>_. True)) (out, []) r = Inr (out, r)"
    using assms jsonl_collect [of r "[]" limits "\<lambda>_. True" out] by (simp add: frame_ok_def)
  then show ?thesis
    using assms by (simp add: foldE_append jsonl_byte_def frame_ok_def drop_cr_def)
qed

lemma jsonl_frames:
  "list_all (frame_ok limits) rs
    \<Longrightarrow> foldE (jsonl_byte limits (\<lambda>_. True)) (out, []) (framed rs) = Inr (out @ map Record rs, [])"
proof (induction rs arbitrary: out)
  case Nil
  show ?case by (simp add: framed_def)
next
  case (Cons r rs)
  have "framed (r # rs) = (r @ [LF]) @ framed rs" by (simp add: framed_def)
  with Cons jsonl_frame [of limits r out] show ?case
    by (simp only: foldE_append) simp
qed

section \<open>Properties\<close>

text \<open>
  Property C2. Records written one per line are delivered unchanged, in order and followed by the
  end-of-stream message, wherever the operating system cuts the stream into chunks, as long as each
  record and the whole stream fit their limits.
\<close>

theorem jsonl_frames_are_read_back:
  assumes "list_all (frame_ok limits) rs"
    and "concat chunks = framed rs" and "[] \<notin> set chunks"
    and "length (framed rs) \<le> max_stdout_bytes limits" and "max_stdout_bytes limits \<le> u64_max"
  shows "read_jsonl limits (\<lambda>_. True) (map ReadOk chunks) = map Record rs @ [StdoutEof]"
proof -
  have "read_jsonl limits (\<lambda>_. True) (map ReadOk chunks) =
     (case foldE (jsonl_byte limits (\<lambda>_. True)) ([], []) (framed rs) of
       Inl out' \<Rightarrow> out'
     | Inr (out', rec') \<Rightarrow> send (\<lambda>_. True) out'
         (if rec' = [] then StdoutEof else StdoutTruncated (length rec')))"
    unfolding read_jsonl_def assms(2) [symmetric]
    using assms(2-5) by (intro read_jsonl_loop_chunks) auto
  then show ?thesis
    using assms(1) by (simp add: jsonl_frames send_def)
qed

lemma jsonl_frames_are_read_back_witness:
  "read_jsonl default_limits (\<lambda>_. True) (map ReadOk [''{}'' @ [LF], ''[1'', '']'' @ [LF]])
    = map Record [''{}'', ''[1]''] @ [StdoutEof]"
  by (rule jsonl_frames_are_read_back)
    (simp_all add: frame_ok_def framed_def default_limits_def LF_def CR_def)

text \<open>
  Whatever the pipe delivers and whenever the receiver disappears, a record handed to
  the supervisor is non-empty, contains no line feed and is no longer than the record limit.
\<close>

theorem jsonl_records_are_bounded:
  "list_all (record_ok limits) (read_jsonl limits connected rs)"
  unfolding read_jsonl_def by (rule read_jsonl_loop_ok) (simp add: collecting_ok_def)

lemma read_stderr_loop_total:
  "length (concat (List.map_filter (\<lambda>m. case m of Stderr c \<Rightarrow> Some c | _ \<Rightarrow> None) out)) \<le> aggregate
   \<Longrightarrow> aggregate \<le> max_stderr_bytes limits
   \<Longrightarrow> length (concat (List.map_filter (\<lambda>m. case m of Stderr c \<Rightarrow> Some c | _ \<Rightarrow> None)
        (read_stderr_loop limits connected out aggregate rs))) \<le> max_stderr_bytes limits"
  by (induction limits connected out aggregate rs rule: read_stderr_loop.induct)
    (auto simp: send_def map_filter_def checked_add_def split: if_splits)

text \<open>
  The stderr reader never hands over more bytes than the stderr limit, however the
  chunks arrive.
\<close>

theorem stderr_bytes_are_bounded:
  "length (concat (List.map_filter (\<lambda>m. case m of Stderr c \<Rightarrow> Some c | _ \<Rightarrow> None)
     (read_stderr limits connected rs))) \<le> max_stderr_bytes limits"
  unfolding read_stderr_def by (rule read_stderr_loop_total) (simp_all add: map_filter_def)

end
