(* ===== verification/Supervisor_Protocol.thy ===== *)
theory Supervisor_Protocol
  imports Framing Json
begin

text \<open>
  The structured channel of \<open>supervisor.rs\<close>: the lifecycle a harness must follow
  (\<open>ProtocolState::accept\<close>), the handling of the reader's messages (\<open>handle_message\<close>), and the
  record assembler of the Windows transport (\<open>HarnessJsonlAssembler\<close>).  The JSON parser
  (\<open>serde_json::from_slice\<close>) is the argument \<open>parse\<close>; a record observer is the record of its
  methods over a state of its own.
\<close>

section \<open>Failures\<close>

datatype failure_kind =
    HarnessUnavailable | HarnessIncompatible | RecursiveInvocation | StartupTimeout | RunTimeout
  | ProtocolMalformed | ProtocolTruncated | HarnessFailed | Cancelled | CleanupFailed
  | ContainmentUnsupported | Internal

record supervisor_failure =
  sf_kind :: failure_kind
  sf_message :: string
  sf_stderr :: string
  sf_process_exit :: "int option"
  sf_process_signal :: "string option"
  sf_process_started :: bool
  sf_terminal_observed :: bool
  sf_terminal_envelope :: "json option"
  sf_records :: "json list"
  sf_diagnostic :: "json option"

definition new_failure :: "failure_kind \<Rightarrow> string \<Rightarrow> supervisor_failure" where
  "new_failure kind message =
     \<lparr>sf_kind = kind, sf_message = message, sf_stderr = [], sf_process_exit = None,
      sf_process_signal = None, sf_process_started = False, sf_terminal_observed = False,
      sf_terminal_envelope = None, sf_records = [], sf_diagnostic = None\<rparr>"

definition max_u32 :: nat where "max_u32 = 4294967295"

definition diagnostic_schema :: "string \<times> json" where
  "diagnostic_schema = (''schema'', JStr ''openprose.transport-diagnostic/1'')"

definition capped :: "nat \<Rightarrow> json" where
  "capped n = JNum (PosInt (min n max_u32))"

definition with_observed_diagnostic :: "string \<Rightarrow> nat \<Rightarrow> supervisor_failure \<Rightarrow> supervisor_failure" where
  "with_observed_diagnostic reason observed f =
     f\<lparr>sf_diagnostic := Some (jobj
        ([diagnostic_schema, (''reason'', JStr reason), (''observedBytes'', capped observed)]
         @ (if observed > max_u32 then [(''saturated'', JBool True)] else [])))\<rparr>"

definition with_byte_diagnostic :: "bool \<Rightarrow> nat \<Rightarrow> nat \<Rightarrow> supervisor_failure \<Rightarrow> supervisor_failure" where
  "with_byte_diagnostic record_limit observed limit f =
     f\<lparr>sf_diagnostic := Some (jobj
        [diagnostic_schema,
         (''reason'', JStr (if record_limit then ''record-byte-limit'' else ''aggregate-stdout-limit'')),
         (''observedBytes'', capped observed), (''limitBytes'', capped limit),
         (''saturated'', JBool (observed > max_u32 \<or> limit > max_u32))])\<rparr>"

definition diagnostic_reason :: "string \<Rightarrow> string" where
  "diagnostic_reason message =
     (if message = ''harness emitted a malformed JSONL record'' then ''invalid-json''
      else if message = ''harness emitted a non-object JSONL record'' then ''non-object-record''
      else if message = ''harness emitted an empty structured record'' then ''empty-record''
      else if message = ''harness structured output exceeded a fixed record limit'' then ''record-byte-limit''
      else if message = ''harness structured output exceeded a fixed transport limit''
        then ''aggregate-stdout-limit''
      else if message = ''harness stream ended in the middle of a structured record'' then ''truncated-record''
      else ''lifecycle-rejection'')"

definition transport_diagnostic :: "supervisor_failure \<Rightarrow> json option" where
  "transport_diagnostic f =
     (case sf_diagnostic f of
        Some v \<Rightarrow> Some v
      | None \<Rightarrow>
          if sf_kind f \<noteq> ProtocolMalformed \<and> sf_kind f \<noteq> ProtocolTruncated then None
          else Some (jobj [diagnostic_schema, (''reason'', JStr (diagnostic_reason (sf_message f)))]))"

definition protocol_failure_is_framing :: "supervisor_failure \<Rightarrow> bool" where
  "protocol_failure_is_framing f =
     (case sf_kind f of
        ProtocolMalformed \<Rightarrow> sf_message f \<in> set
          [''harness emitted a malformed JSONL record'',
           ''harness emitted invalid UTF-8 structured output'',
           ''harness emitted a non-object JSONL record'',
           ''harness emitted an empty structured record'',
           ''harness structured output exceeded a fixed record limit'',
           ''harness structured output exceeded a fixed transport limit'']
      | ProtocolTruncated \<Rightarrow> sf_message f \<in> set
          [''harness stream ended in the middle of a structured record'',
           ''harness structured output could not be read to completion'']
      | _ \<Rightarrow> False)"

section \<open>The lifecycle of a harness\<close>

record jsonl_protocol =
  pr_schema :: "string option"
  start_event :: string
  terminal_event :: string
  allowed_events :: "string btset"
  failure_events :: "string btset"
  allowed_after_terminal_events :: "string btset"
  terminal_envelope_field :: "string option"
  terminal_is_candidate :: bool
  allow_unlisted_nonterminal_events :: bool

definition fake_harness :: jsonl_protocol where
  "fake_harness =
     \<lparr>pr_schema = Some ''openprose.fake-harness-event/1'', start_event = ''session.started'',
      terminal_event = ''session.completed'',
      allowed_events = set [''assistant.message'', ''fixture.descendants''], failure_events = {},
      allowed_after_terminal_events = {}, terminal_envelope_field = Some ''terminalEnvelope'',
      terminal_is_candidate = False, allow_unlisted_nonterminal_events = False\<rparr>"

definition installed :: "string \<Rightarrow> string \<Rightarrow> string list \<Rightarrow> jsonl_protocol" where
  "installed start terminal allowed =
     \<lparr>pr_schema = None, start_event = start, terminal_event = terminal, allowed_events = set allowed,
      failure_events = {}, allowed_after_terminal_events = {}, terminal_envelope_field = None,
      terminal_is_candidate = False, allow_unlisted_nonterminal_events = False\<rparr>"

definition with_unlisted_nonterminal_events :: "jsonl_protocol \<Rightarrow> jsonl_protocol" where
  "with_unlisted_nonterminal_events p = p\<lparr>allow_unlisted_nonterminal_events := True\<rparr>"

definition with_failure_events :: "string list \<Rightarrow> jsonl_protocol \<Rightarrow> jsonl_protocol" where
  "with_failure_events events p = p\<lparr>failure_events := set events\<rparr>"

definition with_allowed_after_terminal_events :: "string list \<Rightarrow> jsonl_protocol \<Rightarrow> jsonl_protocol" where
  "with_allowed_after_terminal_events events p = p\<lparr>allowed_after_terminal_events := set events\<rparr>"

record protocol_state =
  ps_started :: bool
  ps_terminal :: "json option"
  ps_records :: "json list"

definition initial_protocol :: protocol_state where
  "initial_protocol = \<lparr>ps_started = False, ps_terminal = None, ps_records = []\<rparr>"

abbreviation malformed :: "string \<Rightarrow> supervisor_failure" where
  "malformed message \<equiv> new_failure ProtocolMalformed message"

definition terminal_value :: "jsonl_protocol \<Rightarrow> json \<Rightarrow> json option" where
  "terminal_value p v =
     (case terminal_envelope_field p of
        None \<Rightarrow> Some v
      | Some field \<Rightarrow>
          (case jget v field of Some w \<Rightarrow> if is_object w then Some w else None | None \<Rightarrow> None))"

text \<open>A record of a known type: the match of \<open>accept\<close> on the state and the event type.\<close>

definition accept_event ::
  "jsonl_protocol \<Rightarrow> protocol_state \<Rightarrow> json \<Rightarrow> string \<Rightarrow> supervisor_failure + protocol_state" where
  "accept_event p st v event =
     (let push = (\<lambda>st. Inr (st\<lparr>ps_records := ps_records st @ [v]\<rparr>)) in
      if ps_terminal st \<noteq> None \<and> \<not> terminal_is_candidate p \<and> event \<notin> allowed_after_terminal_events p
        then Inl (malformed ''harness emitted a record after its terminal record'')
      else if ps_terminal st \<noteq> None \<and> \<not> terminal_is_candidate p then push st
      else if event \<in> failure_events p
        then Inl (new_failure HarnessFailed ''harness reported a structured failure event'')
      else if \<not> ps_started st then
        (if event \<noteq> start_event p
         then Inl (malformed ''harness emitted an out-of-order record before session start'')
         else push (st\<lparr>ps_started := True\<rparr>))
      else if event = start_event p \<and> event \<notin> allowed_events p
        then Inl (malformed ''harness emitted a duplicate session-start record'')
      else if event = terminal_event p then
        (case terminal_value p v of
           None \<Rightarrow> Inl (malformed ''harness terminal record omitted its structured terminal envelope'')
         | Some t \<Rightarrow> push (st\<lparr>ps_terminal := Some t\<rparr>))
      else if event \<notin> allowed_events p \<and> \<not> allow_unlisted_nonterminal_events p
        then Inl (malformed ''harness emitted an unsupported structured event type'')
      else push st)"

text \<open>The schema and the event type of an object.\<close>

definition accept_object ::
  "jsonl_protocol \<Rightarrow> protocol_state \<Rightarrow> json \<Rightarrow> supervisor_failure + protocol_state" where
  "accept_object p st v =
     (if opt_ex (\<lambda>s. Option.bind (jget v ''schema'') as_str \<noteq> Some s) (pr_schema p)
      then Inl (malformed ''harness emitted a record with an unexpected schema'')
      else case Option.bind (jget v ''type'') as_str of
        None \<Rightarrow> Inl (malformed ''harness emitted a record without an event type'')
      | Some event \<Rightarrow> accept_event p st v event)"

definition accept ::
  "(string \<Rightarrow> json option) \<Rightarrow> jsonl_protocol \<Rightarrow> protocol_state \<Rightarrow> string \<Rightarrow> supervisor_failure + protocol_state" where
  "accept parse p st bytes =
     (if \<not> valid_utf8 bytes
      then Inl ((malformed ''harness emitted invalid UTF-8 structured output'')
        \<lparr>sf_diagnostic := Some (jobj [diagnostic_schema, (''reason'', JStr ''invalid-utf8''),
           (''observedBytes'', capped (length bytes))])\<rparr>)
      else case parse bytes of
        None \<Rightarrow> Inl (with_observed_diagnostic ''invalid-json'' (length bytes)
          (malformed ''harness emitted a malformed JSONL record''))
      | Some v \<Rightarrow>
          if \<not> is_object v
          then Inl (with_observed_diagnostic ''non-object-record'' (length bytes)
            (malformed ''harness emitted a non-object JSONL record''))
          else accept_object p st v)"

section \<open>The messages of the readers\<close>

record 'o observer =
  ob_parsed :: "'o \<Rightarrow> json \<Rightarrow> (supervisor_failure + unit) \<times> 'o"
  ob_observe :: "'o \<Rightarrow> json \<Rightarrow> (supervisor_failure + unit) \<times> 'o"
  ob_project :: "'o \<Rightarrow> json \<Rightarrow> json option"

record 'o channel_state =
  ch_protocol :: protocol_state
  ch_stderr :: string
  ch_stdout_eof :: bool
  ch_stderr_eof :: bool
  ch_observer :: "'o option"

definition initial_channel :: "'o option \<Rightarrow> 'o channel_state" where
  "initial_channel ob =
     \<lparr>ch_protocol = initial_protocol, ch_stderr = [], ch_stdout_eof = False, ch_stderr_eof = False,
      ch_observer = ob\<rparr>"

text \<open>The hook before admission sees every record that parses.\<close>

definition observe_parsed ::
  "(string \<Rightarrow> json option) \<Rightarrow> 'o observer \<Rightarrow> 'o channel_state \<Rightarrow> string
    \<Rightarrow> (supervisor_failure + unit) \<times> 'o channel_state" where
  "observe_parsed parse ob ch bytes =
     (case (ch_observer ch, parse bytes) of
        (Some o', Some v) \<Rightarrow>
          (case ob_parsed ob o' v of (r, o'') \<Rightarrow> (r, ch\<lparr>ch_observer := Some o''\<rparr>))
      | _ \<Rightarrow> (Inr (), ch))"

text \<open>The observer sees the admitted record, and may replace what is retained of it.\<close>

definition observe_admitted ::
  "'o observer \<Rightarrow> 'o channel_state \<Rightarrow> (supervisor_failure + unit) \<times> 'o channel_state" where
  "observe_admitted ob ch =
     (let st = ch_protocol ch in
      case ch_observer ch of
        None \<Rightarrow> (Inr (), ch)
      | Some o' \<Rightarrow>
          if ps_records st = [] then (Inr (), ch)
          else
            (case ob_observe ob o' (last (ps_records st)) of (r, o'') \<Rightarrow>
               (r, ch\<lparr>ch_observer := Some o'',
                     ch_protocol := (case ob_project ob o'' (last (ps_records st)) of
                        None \<Rightarrow> st
                      | Some w \<Rightarrow> st\<lparr>ps_records := butlast (ps_records st) @ [w]\<rparr>)\<rparr>)))"

definition handle_record ::
  "(string \<Rightarrow> json option) \<Rightarrow> jsonl_protocol \<Rightarrow> 'o observer \<Rightarrow> 'o channel_state \<Rightarrow> string
    \<Rightarrow> (supervisor_failure + unit) \<times> 'o channel_state" where
  "handle_record parse p ob ch bytes =
     (case observe_parsed parse ob ch bytes of
        (Inl e, ch1) \<Rightarrow> (Inl e, ch1)
      | (Inr _, ch1) \<Rightarrow>
          (case accept parse p (ch_protocol ch1) bytes of
             Inl e \<Rightarrow> (Inl e, ch1)
           | Inr st \<Rightarrow> observe_admitted ob (ch1\<lparr>ch_protocol := st\<rparr>)))"

definition handle_message ::
  "(string \<Rightarrow> json option) \<Rightarrow> jsonl_protocol \<Rightarrow> 'o observer \<Rightarrow> 'o channel_state \<Rightarrow> reader_message
    \<Rightarrow> (supervisor_failure + unit) \<times> 'o channel_state" where
  "handle_message parse p ob ch m =
     (case m of
        Record bytes \<Rightarrow> handle_record parse p ob ch bytes
      | StdoutEof \<Rightarrow> (Inr (), ch\<lparr>ch_stdout_eof := True\<rparr>)
      | StdoutTruncated observed \<Rightarrow>
          (Inl (with_observed_diagnostic ''truncated-record'' observed
             (new_failure ProtocolTruncated ''harness stream ended in the middle of a structured record'')), ch)
      | StdoutLimit record_limit observed limit \<Rightarrow>
          (Inl (with_byte_diagnostic record_limit observed limit
             (malformed (if record_limit then ''harness structured output exceeded a fixed record limit''
               else ''harness structured output exceeded a fixed transport limit''))), ch)
      | StdoutIo \<Rightarrow>
          (Inl (new_failure ProtocolTruncated ''harness structured output could not be read to completion''), ch)
      | Stderr bytes \<Rightarrow> (Inr (), ch\<lparr>ch_stderr := ch_stderr ch @ bytes\<rparr>)
      | StderrEof \<Rightarrow> (Inr (), ch\<lparr>ch_stderr_eof := True\<rparr>)
      | StderrLimit \<Rightarrow>
          (Inl (new_failure HarnessFailed ''harness diagnostic output exceeded a fixed transport limit''), ch)
      | StderrIo \<Rightarrow>
          (Inl (new_failure HarnessFailed ''harness diagnostic output could not be read to completion''), ch))"

text \<open>The messages in the order of the channel, up to the first failure.\<close>

fun handle_messages ::
  "(string \<Rightarrow> json option) \<Rightarrow> jsonl_protocol \<Rightarrow> 'o observer \<Rightarrow> 'o channel_state \<Rightarrow> reader_message list
    \<Rightarrow> (supervisor_failure + unit) \<times> 'o channel_state" where
  "handle_messages parse p ob ch [] = (Inr (), ch)"
| "handle_messages parse p ob ch (m # ms) =
     (case handle_message parse p ob ch m of
        (Inl e, ch') \<Rightarrow> (Inl e, ch')
      | (Inr _, ch') \<Rightarrow> handle_messages parse p ob ch' ms)"

section \<open>The assembler of the Windows transport\<close>

definition push_byte ::
  "(string \<Rightarrow> json option) \<Rightarrow> jsonl_protocol \<Rightarrow> nat \<Rightarrow> string \<times> protocol_state \<Rightarrow> char
    \<Rightarrow> supervisor_failure + (string \<times> protocol_state)" where
  "push_byte parse p maximum s b =
     (case s of (rec, st) \<Rightarrow>
        if b = LF then
          (let r = drop_cr rec in
           if r = [] then Inl (malformed ''harness emitted an empty structured record'')
           else mapE (\<lambda>st'. ([], st')) (accept parse p st r))
        else if maximum \<le> length rec
          then Inl (malformed ''harness structured output exceeded a fixed record limit'')
        else Inr (rec @ [b], st))"

definition assembler_push ::
  "(string \<Rightarrow> json option) \<Rightarrow> jsonl_protocol \<Rightarrow> nat \<Rightarrow> string \<times> protocol_state \<Rightarrow> string
    \<Rightarrow> supervisor_failure + (string \<times> protocol_state)" where
  "assembler_push parse p maximum s bytes = foldE (push_byte parse p maximum) s bytes"

definition assembler_finish :: "string \<times> protocol_state \<Rightarrow> supervisor_failure + protocol_state" where
  "assembler_finish s =
     (case s of (rec, st) \<Rightarrow>
        if rec = [] then Inr st
        else Inl (with_observed_diagnostic ''truncated-record'' (length rec)
          (new_failure ProtocolTruncated ''harness stream ended in the middle of a structured record'')))"

text \<open>All chunks of a stream and its end.\<close>

definition assemble ::
  "(string \<Rightarrow> json option) \<Rightarrow> jsonl_protocol \<Rightarrow> nat \<Rightarrow> string list \<Rightarrow> supervisor_failure + protocol_state" where
  "assemble parse p maximum chunks =
     bindE (foldE (assembler_push parse p maximum) ([], initial_protocol) chunks) assembler_finish"

end
