(* ===== verification/Supervisor_Lifecycle.thy ===== *)
theory Supervisor_Lifecycle
  imports Supervisor_Protocol
begin

text \<open>
  The lifecycle \<open>ProtocolState::accept\<close> enforces, as a language of records, and the agreement of the
  two transports: the reader thread with its messages, and the assembler of the Windows host.
\<close>

section \<open>The language of accepted records\<close>

definition event_of :: "json \<Rightarrow> string option" where
  "event_of v = Option.bind (jget v ''type'') as_str"

definition admissible :: "jsonl_protocol \<Rightarrow> json \<Rightarrow> bool" where
  "admissible p v \<longleftrightarrow> opt_all (\<lambda>s. Option.bind (jget v ''schema'') as_str = Some s) (pr_schema p)
     \<and> event_of v \<noteq> None"

text \<open>An event between the start and the terminal, or at the terminal.\<close>

definition running_event :: "jsonl_protocol \<Rightarrow> string \<Rightarrow> bool" where
  "running_event p e \<longleftrightarrow> e \<notin> failure_events p \<and> (e = start_event p \<longrightarrow> e \<in> allowed_events p)"

definition body_record :: "jsonl_protocol \<Rightarrow> json \<Rightarrow> bool" where
  "body_record p v = opt_ex (\<lambda>e. running_event p e \<and> e \<noteq> terminal_event p
     \<and> (e \<in> allowed_events p \<or> allow_unlisted_nonterminal_events p)) (event_of v)"

definition terminal_record :: "jsonl_protocol \<Rightarrow> json \<Rightarrow> bool" where
  "terminal_record p v \<longleftrightarrow> opt_ex (\<lambda>e. running_event p e \<and> e = terminal_event p) (event_of v)
     \<and> terminal_value p v \<noteq> None"

definition start_record :: "jsonl_protocol \<Rightarrow> json \<Rightarrow> bool" where
  "start_record p v = opt_ex (\<lambda>e. e \<notin> failure_events p \<and> e = start_event p) (event_of v)"

definition trailing_record :: "jsonl_protocol \<Rightarrow> json \<Rightarrow> bool" where
  "trailing_record p v = opt_ex (\<lambda>e. e \<in> allowed_after_terminal_events p) (event_of v)"

text \<open>
  What may follow the start record, with the terminal that results: the body, one terminal and
  listed trailing records; a protocol whose terminal is a candidate takes the last one it sees.
\<close>

definition follows :: "jsonl_protocol \<Rightarrow> json list \<Rightarrow> json option \<Rightarrow> bool" where
  "follows p vs t =
     (if terminal_is_candidate p
      then list_all (\<lambda>v. body_record p v \<or> terminal_record p v) vs
        \<and> t = fold (\<lambda>v t. if terminal_record p v then terminal_value p v else t) vs None
      else list_all (body_record p) vs \<and> t = None
        \<or> (\<exists>body v trailing. vs = body @ v # trailing \<and> list_all (body_record p) body
             \<and> terminal_record p v \<and> list_all (trailing_record p) trailing \<and> t = terminal_value p v))"

section \<open>One record\<close>

definition follows_step :: "jsonl_protocol \<Rightarrow> json option \<Rightarrow> json \<Rightarrow> json option \<Rightarrow> bool" where
  "follows_step p t v t' =
     (if t \<noteq> None \<and> \<not> terminal_is_candidate p then trailing_record p v \<and> t' = t
      else body_record p v \<and> t' = t \<or> terminal_record p v \<and> t' = terminal_value p v)"

lemma body_not_terminal: "body_record p v \<Longrightarrow> \<not> terminal_record p v"
  by (auto simp: body_record_def terminal_record_def opt_ex_iff)

lemma follows_Nil: "follows p [] t \<longleftrightarrow> t = None"
  by (simp add: follows_def)

lemma follows_snoc: "follows p (vs @ [v]) t' \<longleftrightarrow> (\<exists>t. follows p vs t \<and> follows_step p t v t')"
proof (cases "terminal_is_candidate p")
  case True
  then show ?thesis by (auto simp: follows_def follows_step_def body_not_terminal)
next
  case False
  show ?thesis
  proof
    assume "follows p (vs @ [v]) t'"
    with False consider "list_all (body_record p) (vs @ [v])" "t' = None"
      | body w trailing where "vs @ [v] = body @ w # trailing" "list_all (body_record p) body"
        "terminal_record p w" "list_all (trailing_record p) trailing" "t' = terminal_value p w"
      unfolding follows_def by auto
    then show "\<exists>t. follows p vs t \<and> follows_step p t v t'"
    proof cases
      case 1
      with False show ?thesis by (intro exI [of _ None]) (simp add: follows_def follows_step_def)
    next
      case (2 body w trailing)
      show ?thesis
      proof (cases trailing rule: rev_cases)
        case Nil
        with 2 False show ?thesis by (intro exI [of _ None]) (simp add: follows_def follows_step_def)
      next
        case (snoc ys y)
        with 2 have "vs = body @ w # ys" "y = v" by simp_all
        with 2 snoc False show ?thesis
          by (intro exI [of _ t']) (auto simp: follows_def follows_step_def terminal_record_def)
      qed
    qed
  next
    assume "\<exists>t. follows p vs t \<and> follows_step p t v t'"
    then obtain t where t: "follows p vs t" "follows_step p t v t'" by blast
    from False t(1) consider "list_all (body_record p) vs" "t = None"
      | body w trailing where "vs = body @ w # trailing" "list_all (body_record p) body"
        "terminal_record p w" "list_all (trailing_record p) trailing" "t = terminal_value p w"
      unfolding follows_def by auto
    then show "follows p (vs @ [v]) t'"
    proof cases
      case 1
      with False t(2) consider "body_record p v" "t' = None" | "terminal_record p v" "t' = terminal_value p v"
        by (auto simp: follows_step_def)
      then show ?thesis
      proof cases
        case 1
        with \<open>list_all (body_record p) vs\<close> False show ?thesis by (simp add: follows_def)
      next
        case 2
        with \<open>list_all (body_record p) vs\<close> False show ?thesis
          unfolding follows_def by (auto intro: exI [of _ vs])
      qed
    next
      case (2 body w trailing)
      with False t(2) have "trailing_record p v" "t' = t"
        by (auto simp: follows_step_def terminal_record_def)
      with 2 have "vs @ [v] = body @ w # (trailing @ [v])" "list_all (trailing_record p) (trailing @ [v])"
        "t' = terminal_value p w" by simp_all
      with 2(2,3) False show ?thesis unfolding follows_def by (simp only: if_False) blast
    qed
  qed
qed

lemma accept_started:
  assumes "ps_started st"
  shows "accept_object p st v = Inr st' \<longleftrightarrow>
    admissible p v \<and> follows_step p (ps_terminal st) v (ps_terminal st')
    \<and> ps_started st' \<and> ps_records st' = ps_records st @ [v]"
  using assms
  by (cases st; cases st'; cases "event_of v")
    (auto simp: accept_object_def accept_event_def Let_def admissible_def follows_step_def body_record_def
      terminal_record_def trailing_record_def running_event_def event_of_def opt_ex_iff opt_all_iff
      split: if_splits option.splits)

lemma accept_first:
  assumes "\<not> ps_started st" "ps_terminal st = None"
  shows "accept_object p st v = Inr st' \<longleftrightarrow>
    admissible p v \<and> start_record p v \<and> ps_started st' \<and> ps_terminal st' = None
    \<and> ps_records st' = ps_records st @ [v]"
  using assms
  by (cases st; cases st'; cases "event_of v")
    (auto simp: accept_object_def accept_event_def Let_def admissible_def start_record_def event_of_def
      opt_ex_iff opt_all_iff split: if_splits option.splits)

lemma accept_run_iff:
  "foldE (accept_object p) initial_protocol vs = Inr st \<longleftrightarrow>
     vs = [] \<and> st = initial_protocol
     \<or> (\<exists>v rest. vs = v # rest \<and> list_all (admissible p) vs \<and> start_record p v
          \<and> ps_started st \<and> ps_records st = vs \<and> follows p rest (ps_terminal st))"
proof (induction vs arbitrary: st rule: rev_induct)
  case Nil
  show ?case by auto
next
  case (snoc x vs)
  show ?case
  proof (cases vs)
    case Nil
    have "foldE (accept_object p) initial_protocol [x] = accept_object p initial_protocol x"
      by (cases "accept_object p initial_protocol x") simp_all
    with Nil show ?thesis
      by (auto simp: accept_first initial_protocol_def follows_Nil)
  next
    case (Cons v rest)
    have IH: "foldE (accept_object p) initial_protocol vs = Inr st1 \<longleftrightarrow> list_all (admissible p) vs
        \<and> start_record p v \<and> ps_started st1 \<and> ps_records st1 = vs \<and> follows p rest (ps_terminal st1)" for st1
      unfolding snoc.IH using Cons by auto
    have "foldE (accept_object p) initial_protocol (vs @ [x]) = Inr st \<longleftrightarrow>
      (\<exists>st1. foldE (accept_object p) initial_protocol vs = Inr st1 \<and> accept_object p st1 x = Inr st)"
      by (auto simp: foldE_append bindE_eq_Inr)
    also have "\<dots> \<longleftrightarrow> (\<exists>st1 :: protocol_state. list_all (admissible p) vs \<and> start_record p v
        \<and> ps_started st1 \<and> ps_records st1 = vs \<and> follows p rest (ps_terminal st1)
        \<and> admissible p x \<and> follows_step p (ps_terminal st1) x (ps_terminal st)
        \<and> ps_started st \<and> ps_records st = vs @ [x])"
      unfolding IH by (rule iff_exI) (auto simp: accept_started)
    also have "\<dots> \<longleftrightarrow> list_all (admissible p) (vs @ [x]) \<and> start_record p v \<and> ps_started st
        \<and> ps_records st = vs @ [x]
        \<and> (\<exists>t. follows p rest t \<and> follows_step p t x (ps_terminal st))"
    proof -
      have "(\<exists>st1 :: protocol_state. ps_started st1 \<and> ps_records st1 = vs \<and> P (ps_terminal st1)) \<longleftrightarrow> (\<exists>t. P t)" for P
      proof
        assume "\<exists>t. P t"
        then obtain t where "P t" ..
        then show "\<exists>st1 :: protocol_state. ps_started st1 \<and> ps_records st1 = vs \<and> P (ps_terminal st1)"
          by (intro exI [of _ "\<lparr>ps_started = True, ps_terminal = t, ps_records = vs\<rparr>"]) simp
      qed blast
      from this [of "\<lambda>t. follows p rest t \<and> follows_step p t x (ps_terminal st)"] show ?thesis
        by (simp only: list_all_append list.pred_inject) blast
    qed
    also have "\<dots> \<longleftrightarrow> list_all (admissible p) (vs @ [x]) \<and> start_record p v \<and> ps_started st
        \<and> ps_records st = vs @ [x] \<and> follows p (rest @ [x]) (ps_terminal st)"
      by (simp only: follows_snoc)
    finally show ?thesis using Cons by simp
  qed
qed

section \<open>The two transports\<close>

text \<open>What the supervisor makes of the messages of the reader thread, without an observer.\<close>

definition read_and_handle ::
  "(string \<Rightarrow> json option) \<Rightarrow> jsonl_protocol \<Rightarrow> 'o observer \<Rightarrow> stream_limits \<Rightarrow> string list
    \<Rightarrow> supervisor_failure + protocol_state" where
  "read_and_handle parse p ob limits chunks =
     (case handle_messages parse p ob (initial_channel None)
         (read_jsonl limits (\<lambda>_. True) (map ReadOk chunks)) of
        (Inl e, _) \<Rightarrow> Inl e
      | (Inr _, ch) \<Rightarrow> Inr (ch_protocol ch))"

text \<open>No line of the stream is empty, a final carriage return aside.\<close>

definition blank_free :: "string \<Rightarrow> bool" where
  "blank_free bytes = list_all (\<lambda>l. drop_cr l \<noteq> []) (butlast (split_on (\<lambda>c. c = LF) bytes))"

lemma blank_free_line:
  assumes "LF \<notin> set r"
  shows "blank_free (r @ LF # bs) \<longleftrightarrow> drop_cr r \<noteq> [] \<and> blank_free bs"
proof -
  have "split_on (\<lambda>c. c = LF) (r @ LF # bs) = r # split_on (\<lambda>c. c = LF) bs"
    using assms by (intro split_on_append) auto
  then show ?thesis by (simp add: blank_free_def)
qed

lemma handle_messages_append:
  "handle_messages parse p ob ch (ms @ ns) =
     (case handle_messages parse p ob ch ms of
        (Inl e, ch') \<Rightarrow> (Inl e, ch')
      | (Inr _, ch') \<Rightarrow> handle_messages parse p ob ch' ns)"
  by (induction ms arbitrary: ch) (auto split: prod.splits sum.splits)

lemma handle_record_unobserved:
  "ch_observer ch = None \<Longrightarrow> handle_message parse p ob ch (Record r) =
     (case accept parse p (ch_protocol ch) r of
        Inl e \<Rightarrow> (Inl e, ch)
      | Inr st \<Rightarrow> (Inr (), ch\<lparr>ch_protocol := st\<rparr>))"
  by (simp add: handle_message_def handle_record_def observe_parsed_def observe_admitted_def Let_def
      split: sum.split)

abbreviation reader_out :: "reader_message list + (reader_message list \<times> string) \<Rightarrow> reader_message list" where
  "reader_out r \<equiv> (case r of Inl out \<Rightarrow> out | Inr (out, _) \<Rightarrow> out)"

lemma reader_grows:
  "\<exists>more. reader_out (foldE (jsonl_byte limits conn) (out, rec) bs) = out @ more"
proof (induction bs arbitrary: out rec)
  case Nil
  show ?case by simp
next
  case (Cons b bs)
  show ?case
  proof (cases "jsonl_byte limits conn (out, rec) b")
    case (Inl o')
    then show ?thesis
      by (auto simp: jsonl_byte_def Let_def send_def split: if_splits)
  next
    case (Inr st)
    obtain o' r' where st: "st = (o', r')" by (cases st)
    have "\<exists>more. o' = out @ more" using Inr unfolding st
      by (auto simp: jsonl_byte_def Let_def split: if_splits)
    then show ?thesis using Cons.IH [of o' r'] by (auto simp: Inr st)
  qed
qed

text \<open>Both transports are in step after every byte.\<close>

lemma transports_in_step:
  assumes "LF \<notin> set rec" "blank_free (rec @ bs)" "ch_observer ch = None"
    "handle_messages parse p ob ch0 out = (Inr (), ch)"
  shows "case foldE (push_byte parse p (max_record_bytes limits)) (rec, ch_protocol ch) bs of
      Inl e \<Rightarrow> \<exists>e' ch'. handle_messages parse p ob ch0
          (reader_out (foldE (jsonl_byte limits (\<lambda>_. True)) (out, rec) bs)) = (Inl e', ch') \<and> sf_kind e' = sf_kind e
    | Inr (rec', st') \<Rightarrow> \<exists>out' ch'. foldE (jsonl_byte limits (\<lambda>_. True)) (out, rec) bs = Inr (out', rec')
          \<and> handle_messages parse p ob ch0 out' = (Inr (), ch') \<and> ch_protocol ch' = st'"
  using assms
proof (induction bs arbitrary: rec out ch)
  case Nil
  then show ?case by auto
next
  case (Cons b bs)
  show ?case
  proof (cases "b = LF")
    case True
    have line: "drop_cr rec \<noteq> []" "blank_free bs"
      using Cons.prems(1,2) unfolding True by (simp_all add: blank_free_line)
    have reader: "foldE (jsonl_byte limits (\<lambda>_. True)) (out, rec) (b # bs)
        = foldE (jsonl_byte limits (\<lambda>_. True)) (out @ [Record (drop_cr rec)], []) bs"
      using True line(1) by (simp add: jsonl_byte_def Let_def)
    have handled: "handle_messages parse p ob ch0 (out @ [Record (drop_cr rec)])
        = (case accept parse p (ch_protocol ch) (drop_cr rec) of
            Inl e \<Rightarrow> (Inl e, ch)
          | Inr st \<Rightarrow> (Inr (), ch\<lparr>ch_protocol := st\<rparr>))"
      using Cons.prems(3,4)
      by (simp add: handle_messages_append handle_record_unobserved split: sum.split)
    show ?thesis
    proof (cases "accept parse p (ch_protocol ch) (drop_cr rec)")
      case (Inl e)
      obtain more where "reader_out (foldE (jsonl_byte limits (\<lambda>_. True)) (out @ [Record (drop_cr rec)], []) bs)
          = (out @ [Record (drop_cr rec)]) @ more" using reader_grows by blast
      then have "handle_messages parse p ob ch0
          (reader_out (foldE (jsonl_byte limits (\<lambda>_. True)) (out, rec) (b # bs))) = (Inl e, ch)"
        unfolding reader using handled Inl by (simp only: handle_messages_append) simp
      moreover have "foldE (push_byte parse p (max_record_bytes limits)) (rec, ch_protocol ch) (b # bs) = Inl e"
        using True line(1) Inl by (simp add: push_byte_def Let_def)
      ultimately show ?thesis by auto
    next
      case (Inr st)
      have "foldE (push_byte parse p (max_record_bytes limits)) (rec, ch_protocol ch) (b # bs)
          = foldE (push_byte parse p (max_record_bytes limits)) ([], ch_protocol (ch\<lparr>ch_protocol := st\<rparr>)) bs"
        using True line(1) Inr by (simp add: push_byte_def Let_def)
      then show ?thesis
        unfolding reader
        using Cons.IH [of "[]" "ch\<lparr>ch_protocol := st\<rparr>" "out @ [Record (drop_cr rec)]"] line(2) handled Inr
          Cons.prems(3) by simp
    qed
  next
    case False
    show ?thesis
    proof (cases "max_record_bytes limits \<le> length rec")
      case True
      then have "reader_out (foldE (jsonl_byte limits (\<lambda>_. True)) (out, rec) (b # bs))
          = out @ [StdoutLimit True (saturating_add (length rec) 1) (max_record_bytes limits)]"
        using False by (simp add: jsonl_byte_def send_def)
      moreover have "foldE (push_byte parse p (max_record_bytes limits)) (rec, ch_protocol ch) (b # bs)
          = Inl (malformed ''harness structured output exceeded a fixed record limit'')"
        using False True by (simp add: push_byte_def)
      ultimately show ?thesis
        using Cons.prems(4)
        by (simp add: handle_messages_append handle_message_def with_byte_diagnostic_def new_failure_def)
    next
      case fits: False
      have "LF \<notin> set (rec @ [b])" "blank_free ((rec @ [b]) @ bs)" using Cons.prems(1,2) False by simp_all
      note IH = Cons.IH [OF this Cons.prems(3,4)]
      have "jsonl_byte limits (\<lambda>_. True) (out, rec) b = Inr (out, rec @ [b])"
        "push_byte parse p (max_record_bytes limits) (rec, ch_protocol ch) b = Inr (rec @ [b], ch_protocol ch)"
        using False fits by (simp_all add: jsonl_byte_def push_byte_def)
      then have "foldE (jsonl_byte limits (\<lambda>_. True)) (out, rec) (b # bs)
            = foldE (jsonl_byte limits (\<lambda>_. True)) (out, rec @ [b]) bs"
        "foldE (push_byte parse p (max_record_bytes limits)) (rec, ch_protocol ch) (b # bs)
            = foldE (push_byte parse p (max_record_bytes limits)) (rec @ [b], ch_protocol ch) bs"
        by simp_all
      with IH show ?thesis by (simp only:)
    qed
  qed
qed

definition kind_of :: "supervisor_failure + 'a \<Rightarrow> failure_kind + 'a" where
  "kind_of = map_sum sf_kind id"

lemma assembler_pushes:
  "foldE (assembler_push parse p maximum) s chunks = foldE (push_byte parse p maximum) s (concat chunks)"
  by (induction chunks arbitrary: s) (simp_all add: assembler_push_def foldE_append)

lemma assemble_concat:
  "assemble parse p maximum chunks =
     bindE (foldE (push_byte parse p maximum) ([], initial_protocol) (concat chunks)) assembler_finish"
  by (simp add: assemble_def assembler_pushes)

lemma blank_free_prefix: "blank_free (a @ b) \<Longrightarrow> blank_free a"
proof (induction a rule: length_induct)
  case (1 a)
  show ?case
  proof (cases "LF \<in> set a")
    case True
    then obtain r s where a: "a = r @ LF # s" "LF \<notin> set r" by (metis split_list_first)
    then have "drop_cr r \<noteq> []" "blank_free (s @ b)" using 1(2) by (simp_all add: blank_free_line)
    moreover have "length s < length a" using a by simp
    ultimately show ?thesis using 1(1) a by (simp add: blank_free_line)
  next
    case False
    then have "split_on (\<lambda>c. c = LF) a = [a]" by (intro split_on_no_sep) auto
    then show ?thesis by (simp add: blank_free_def)
  qed
qed

text \<open>What the supervisor makes of the bytes read, when the reader then ends with the messages \<open>last_of\<close>.\<close>

lemma transports_at_end:
  assumes "blank_free bs"
  shows "case foldE (push_byte parse p (max_record_bytes limits)) ([], initial_protocol) bs of
      Inl e \<Rightarrow> \<exists>e' ch'. handle_messages parse p ob (initial_channel None)
          (case foldE (jsonl_byte limits (\<lambda>_. True)) ([], []) bs of Inl out \<Rightarrow> out | Inr (out, rec) \<Rightarrow> out @ last_of rec)
          = (Inl e', ch') \<and> sf_kind e' = sf_kind e
    | Inr (rec, st) \<Rightarrow> \<exists>ch'. handle_messages parse p ob (initial_channel None)
          (case foldE (jsonl_byte limits (\<lambda>_. True)) ([], []) bs of Inl out \<Rightarrow> out | Inr (out, rec) \<Rightarrow> out @ last_of rec)
          = handle_messages parse p ob ch' (last_of rec) \<and> ch_protocol ch' = st"
proof -
  let ?ch = "initial_channel None"
  have step: "case foldE (push_byte parse p (max_record_bytes limits)) ([], initial_protocol) bs of
      Inl e \<Rightarrow> \<exists>e' ch'. handle_messages parse p ob ?ch
          (reader_out (foldE (jsonl_byte limits (\<lambda>_. True)) ([], []) bs)) = (Inl e', ch') \<and> sf_kind e' = sf_kind e
    | Inr (rec', st') \<Rightarrow> \<exists>out' ch'. foldE (jsonl_byte limits (\<lambda>_. True)) ([], []) bs = Inr (out', rec')
          \<and> handle_messages parse p ob ?ch out' = (Inr (), ch') \<and> ch_protocol ch' = st'"
    using transports_in_step [of "[]" bs ?ch parse p ob ?ch "[]" limits] assms
    by (simp add: initial_channel_def)
  show ?thesis
  proof (cases "foldE (push_byte parse p (max_record_bytes limits)) ([], initial_protocol) bs")
    case (Inl e)
    with step obtain e' ch' where "handle_messages parse p ob ?ch
          (reader_out (foldE (jsonl_byte limits (\<lambda>_. True)) ([], []) bs)) = (Inl e', ch')" "sf_kind e' = sf_kind e"
      by auto
    then show ?thesis unfolding Inl by (auto simp: handle_messages_append split: sum.splits)
  next
    case (Inr s)
    with step show ?thesis by (auto simp: handle_messages_append)
  qed
qed

section \<open>Properties\<close>

text \<open>
  Property C9. The records a protocol accepts are exactly those of its lifecycle language: the
  start record, body records that are neither failures nor a second start, the terminal, and after
  it only the listed trailing records; every accepted record is retained in order, and the terminal
  is the envelope of the terminal record (of the last one, when the terminal is a candidate).
\<close>

theorem lifecycle_language:
  "foldE (accept_object p) initial_protocol vs = Inr st \<longleftrightarrow>
     vs = [] \<and> st = initial_protocol
     \<or> (\<exists>v rest. vs = v # rest \<and> list_all (admissible p) vs \<and> start_record p v
          \<and> ps_started st \<and> ps_records st = vs \<and> follows p rest (ps_terminal st))"
  by (rule accept_run_iff)

text \<open>
  Property C10. The two transports agree on every stream without empty lines, cut into chunks anywhere.
  If the stream fits the limit of standard output, the Windows assembler and the reader thread with the
  supervisor's message handler accept the same records into the same state, or fail with the same kind
  of failure. The assembler has no such limit of its own (\<open>windows_host.rs\<close> enforces it before the
  chunks reach it), the reader has: a longer stream makes it fail, with the kind of failure the
  assembler has on the chunks that still fit, or, if it has none there, as a malformed stream.
  That the limit is a \<open>u64\<close> is the type of the field.
\<close>

theorem transports_agree:
  assumes "blank_free (concat chunks)" "[] \<notin> set chunks" "max_stdout_bytes limits \<le> u64_max"
  shows "kind_of (read_and_handle parse p ob limits chunks) =
    (if length (concat chunks) \<le> max_stdout_bytes limits
     then kind_of (assemble parse p (max_record_bytes limits) chunks)
     else case foldE (assembler_push parse p (max_record_bytes limits)) ([], initial_protocol)
                 (fitting (max_stdout_bytes limits) chunks) of
            Inl e \<Rightarrow> Inl (sf_kind e)
          | Inr _ \<Rightarrow> Inl ProtocolMalformed)"
proof (cases "length (concat chunks) \<le> max_stdout_bytes limits")
  case True
  let ?ending = "\<lambda>rec. [if rec = [] then StdoutEof else StdoutTruncated (length rec)]"
  have reader: "read_jsonl limits (\<lambda>_. True) (map ReadOk chunks)
      = (case foldE (jsonl_byte limits (\<lambda>_. True)) ([], []) (concat chunks) of
           Inl out \<Rightarrow> out | Inr (out, rec) \<Rightarrow> out @ ?ending rec)"
    unfolding read_jsonl_def using assms(2,3) True
    by (subst read_jsonl_loop_chunks) (auto simp: send_def split: sum.split)
  have "kind_of (read_and_handle parse p ob limits chunks)
      = kind_of (assemble parse p (max_record_bytes limits) chunks)"
    using transports_at_end [OF assms(1), where last_of = ?ending and limits = limits and ob = ob and parse = parse and p = p]
    unfolding assemble_concat read_and_handle_def reader
    by (auto simp: kind_of_def assembler_finish_def handle_message_def with_observed_diagnostic_def new_failure_def
        split: sum.splits)
  with True show ?thesis by simp
next
  case False
  let ?fits = "fitting (max_stdout_bytes limits) chunks"
  obtain observed where reader: "read_jsonl limits (\<lambda>_. True) (map ReadOk chunks)
      = (case foldE (jsonl_byte limits (\<lambda>_. True)) ([], []) (concat ?fits) of
           Inl out \<Rightarrow> out | Inr (out, rec) \<Rightarrow> out @ [StdoutLimit False observed (max_stdout_bytes limits)])"
    using read_jsonl_loop_beyond [of limits 0 chunks "\<lambda>_. True" "[]" "[]"] False assms(2,3)
    unfolding read_jsonl_def send_def if_True by auto
  have "blank_free (concat ?fits)"
    using fitting_prefix [of chunks "max_stdout_bytes limits"] assms(1) blank_free_prefix by (metis concat_append)
  from transports_at_end [OF this, where limits = limits and ob = ob and parse = parse and p = p
      and last_of = "\<lambda>_. [StdoutLimit False observed (max_stdout_bytes limits)]"]
  show ?thesis using False
    unfolding assembler_pushes read_and_handle_def reader
    by (auto simp: kind_of_def handle_message_def with_byte_diagnostic_def new_failure_def split: sum.splits)
qed

definition example_parse :: "string \<Rightarrow> json option" where
  "example_parse bytes = (if bytes = ''{}'' then Some (jobj [(''type'', JStr ''ready'')]) else None)"

definition silent_observer :: "unit observer" where
  "silent_observer = \<lparr>ob_parsed = (\<lambda>o' v. (Inr (), o')), ob_observe = (\<lambda>o' v. (Inr (), o')), ob_project = (\<lambda>o' v. None)\<rparr>"

lemma transports_agree_witness:
  "kind_of (read_and_handle example_parse (installed ''ready'' ''done'' []) silent_observer default_limits
       [''{'', ''}'' @ [LF, CHR ''{'']])
   = kind_of (assemble example_parse (installed ''ready'' ''done'' []) (max_record_bytes default_limits)
       [''{'', ''}'' @ [LF, CHR ''{'']])
   \<and> kind_of (read_and_handle example_parse (installed ''ready'' ''done'' []) silent_observer
         (default_limits\<lparr>max_stdout_bytes := 3\<rparr>) [''{'', ''}'' @ [LF, CHR ''{'']])
     = Inl ProtocolMalformed"
proof -
  let ?chunks = "[''{'', ''}'' @ [LF, CHR ''{'']]"
  have stream: "blank_free (concat ?chunks)" "[] \<notin> set ?chunks"
    by (simp_all add: blank_free_def drop_cr_def LF_def CR_def)
  have "foldE (assembler_push example_parse (installed ''ready'' ''done'' []) (max_record_bytes default_limits))
      ([], initial_protocol) (fitting 3 ?chunks) = Inr (''{'', initial_protocol)"
    by (simp add: assembler_push_def push_byte_def default_limits_def LF_def)
  then show ?thesis
    using transports_agree [OF stream, of default_limits example_parse "installed ''ready'' ''done'' []" silent_observer]
      transports_agree [OF stream, of "default_limits\<lparr>max_stdout_bytes := 3\<rparr>" example_parse
        "installed ''ready'' ''done'' []" silent_observer]
    by (simp add: default_limits_def)
qed

lemma push_collect:
  "\<lbrakk>LF \<notin> set r; length rec + length r \<le> maximum\<rbrakk>
    \<Longrightarrow> foldE (push_byte parse p maximum) (rec, st) r = Inr (rec @ r, st)"
  by (induction r arbitrary: rec) (auto simp: push_byte_def)

lemma push_frames:
  "list_all (frame_ok limits) rs
    \<Longrightarrow> foldE (push_byte parse p (max_record_bytes limits)) ([], st) (framed rs)
      = mapE (Pair []) (foldE (accept parse p) st rs)"
proof (induction rs arbitrary: st)
  case Nil
  show ?case by (simp add: framed_def)
next
  case (Cons r rs)
  have "foldE (push_byte parse p (max_record_bytes limits)) ([], st) r = Inr (r, st)"
    using Cons.prems push_collect [of r "[]"] by (simp add: frame_ok_def)
  then have "foldE (push_byte parse p (max_record_bytes limits)) ([], st) (r @ [LF]) = mapE (Pair []) (accept parse p st r)"
    using Cons.prems by (simp add: foldE_append push_byte_def frame_ok_def drop_cr_def)
      (cases "accept parse p st r", simp_all)
  moreover have "framed (r # rs) = (r @ [LF]) @ framed rs" by (simp add: framed_def)
  ultimately show ?case
    using Cons by (cases "accept parse p st r") (simp_all only: foldE_append foldE.simps bindE_simps mapE_simps list.pred_inject)
qed

text \<open>
  Property C11. An empty line is where the transports differ: the reader thread delivers the records
  before it and then nothing, no failure and no end of stream, whatever follows; the Windows
  assembler never accepts such a stream.
\<close>

theorem empty_line_silences_reader:
  assumes "list_all (frame_ok limits) rs" "concat chunks = framed rs @ LF # rest" "[] \<notin> set chunks"
    "length (concat chunks) \<le> max_stdout_bytes limits" "max_stdout_bytes limits \<le> u64_max"
  shows "read_jsonl limits (\<lambda>_. True) (map ReadOk chunks) = map Record rs
    \<and> \<not> is_ok (assemble parse p (max_record_bytes limits) chunks)"
proof
  have "foldE (jsonl_byte limits (\<lambda>_. True)) ([], []) (concat chunks) = Inl (map Record rs)"
    unfolding assms(2) using jsonl_frames [OF assms(1), of "[]"]
    by (simp only: foldE_append) (simp add: jsonl_byte_def drop_cr_def)
  then show "read_jsonl limits (\<lambda>_. True) (map ReadOk chunks) = map Record rs"
    unfolding read_jsonl_def using assms(3-5) by (subst read_jsonl_loop_chunks) auto
  have "\<not> is_ok (foldE (push_byte parse p (max_record_bytes limits)) ([], initial_protocol) (concat chunks))"
    unfolding assms(2) using push_frames [OF assms(1), of parse p initial_protocol]
    by (cases "foldE (accept parse p) initial_protocol rs")
      (simp_all only: foldE_append, simp_all add: push_byte_def drop_cr_def)
  then show "\<not> is_ok (assemble parse p (max_record_bytes limits) chunks)"
    unfolding assemble_concat
    by (cases "foldE (push_byte parse p (max_record_bytes limits)) ([], initial_protocol) (concat chunks)") simp_all
qed

lemma empty_line_silences_reader_witness:
  "read_jsonl default_limits (\<lambda>_. True) (map ReadOk [''{}'' @ [LF, LF], ''{}'' @ [LF]]) = map Record [''{}'']
   \<and> \<not> is_ok (assemble example_parse fake_harness (max_record_bytes default_limits) [''{}'' @ [LF, LF], ''{}'' @ [LF]])"
proof -
  have ok: "list_all (frame_ok default_limits) [''{}'']"
    "concat [''{}'' @ [LF, LF], ''{}'' @ [LF]] = framed [''{}''] @ LF # (''{}'' @ [LF])"
    by (simp_all add: frame_ok_def framed_def default_limits_def LF_def CR_def)
  show ?thesis
    by (rule empty_line_silences_reader [OF ok]) (simp_all add: default_limits_def)
qed

end
