(* ===== verification/Env_Policy.thy ===== *)
theory Env_Policy
  imports Utf8 Ordered_Map
begin

text \<open>
  The closed child environment of \<open>environment.rs\<close>, and the literals it says must not reach an
  output.  An \<open>OsString\<close> is a byte string; \<open>to_str\<close> succeeds on valid UTF-8.
\<close>

section \<open>The policy\<close>

datatype sensitivity = Public | Secret | Control

record environment_value =
  ev_value :: string
  ev_sensitivity :: sensitivity

record environment_policy =
  ambient :: "(string, string) btree"
  allowed :: "(string, environment_value) btree"
  missing_allowed :: "string btset"

definition from_pairs :: "(string \<times> string) list \<Rightarrow> environment_policy" where
  "from_pairs values =
     \<lparr>ambient = fold (\<lambda>(name, v). bt_insert name v) values [], allowed = [], missing_allowed = {}\<rparr>"

definition allow_inherited :: "string \<Rightarrow> sensitivity \<Rightarrow> environment_policy \<Rightarrow> environment_policy" where
  "allow_inherited name s p =
     (case bt_get (ambient p) name of
        Some v \<Rightarrow> p\<lparr>allowed := bt_insert name \<lparr>ev_value = v, ev_sensitivity = s\<rparr> (allowed p)\<rparr>
      | None \<Rightarrow> p\<lparr>missing_allowed := insert name (missing_allowed p)\<rparr>)"

definition set_variable :: "string \<Rightarrow> string \<Rightarrow> sensitivity \<Rightarrow> environment_policy \<Rightarrow> environment_policy" where
  "set_variable name v s p =
     p\<lparr>missing_allowed := missing_allowed p - {name},
       allowed := bt_insert name \<lparr>ev_value = v, ev_sensitivity = s\<rparr> (allowed p)\<rparr>"

definition ambient_contains :: "string \<Rightarrow> environment_policy \<Rightarrow> bool" where
  "ambient_contains name p \<longleftrightarrow> bt_get (ambient p) name \<noteq> None"

definition entries :: "environment_policy \<Rightarrow> (string \<times> string) list" where
  "entries p = map (\<lambda>(name, v). (name, ev_value v)) (allowed p)"

text \<open>\<open>sort_unstable_by\<close> longest first and then by bytes, and \<open>dedup\<close>.\<close>

definition longest_first :: "string list \<Rightarrow> string list" where
  "longest_first xs = remdups_adj (sort_key (\<lambda>s. - int (length s)) (sort xs))"

definition to_str :: "string \<Rightarrow> string option" where
  "to_str v = (if valid_utf8 v then Some v else None)"

definition protected_strings :: "(sensitivity \<Rightarrow> bool) \<Rightarrow> environment_policy \<Rightarrow> string list" where
  "protected_strings keep p =
     longest_first (filter (\<lambda>v. v \<noteq> []) (List.map_filter (\<lambda>v. to_str (ev_value v))
       (filter (\<lambda>v. keep (ev_sensitivity v)) (bt_values (allowed p)))))"

definition secret_strings :: "environment_policy \<Rightarrow> string list" where
  "secret_strings p = protected_strings (\<lambda>s. s = Secret) p"

definition output_protected_strings :: "environment_policy \<Rightarrow> string list" where
  "output_protected_strings p = protected_strings (\<lambda>s. s \<noteq> Control) p"

section \<open>Longest first\<close>

definition before_or_same :: "string \<Rightarrow> string \<Rightarrow> bool" where
  "before_or_same x y \<longleftrightarrow> length y < length x \<or> length x = length y \<and> x \<le> y"

lemma set_longest_first [simp]: "set (longest_first xs) = set xs"
  by (simp add: longest_first_def)

text \<open>A stable sort by length keeps the order by bytes.\<close>

lemma sorted_insort_length:
  assumes "sorted_wrt before_or_same ys" "\<And>y. y \<in> set ys \<Longrightarrow> x \<le> y"
  shows "sorted_wrt before_or_same (insort_key (\<lambda>s. - int (length s)) x ys)"
  using assms
proof (induction ys)
  case Nil
  show ?case by simp
next
  case (Cons y ys)
  show ?case
  proof (cases "length y \<le> length x")
    case True
    have "before_or_same x z" if "z \<in> set (y # ys)" for z
    proof -
      have "length z \<le> length x" using that True Cons.prems(1) by (auto simp: before_or_same_def)
      then show ?thesis using Cons.prems(2) [OF that] by (auto simp: before_or_same_def)
    qed
    then show ?thesis using True Cons.prems(1) by simp
  next
    case False
    have "before_or_same y z" if "z \<in> set (insort_key (\<lambda>s. - int (length s)) x ys)" for z
      using that False Cons.prems(1) by (auto simp: set_insort_key before_or_same_def)
    then show ?thesis using False Cons by simp
  qed
qed

lemma sorted_length_sort:
  "sorted xs \<Longrightarrow> sorted_wrt before_or_same (sort_key (\<lambda>s. - int (length s)) xs)"
proof (induction xs)
  case Nil
  show ?case by simp
next
  case (Cons x xs)
  then show ?case by (auto intro!: sorted_insort_length)
qed

lemma before_or_same_trans: "\<lbrakk>before_or_same x y; before_or_same y z\<rbrakk> \<Longrightarrow> before_or_same x z"
  by (auto simp: before_or_same_def)

lemma before_or_same_antisym: "\<lbrakk>before_or_same x y; before_or_same y x\<rbrakk> \<Longrightarrow> x = y"
  by (auto simp: before_or_same_def)

text \<open>In an ordered list, removing adjacent duplicates removes all duplicates.\<close>

lemma remdups_adj_ordered:
  "sorted_wrt before_or_same xs \<Longrightarrow> sorted_wrt before_or_same (remdups_adj xs) \<and> distinct (remdups_adj xs)"
proof (induction xs rule: remdups_adj.induct)
  case (3 x y xs)
  show ?case
  proof (cases "x = y")
    case True
    with 3 show ?thesis by simp
  next
    case False
    have "x \<notin> set (y # xs)"
    proof
      assume "x \<in> set (y # xs)"
      with "3.prems" False have "before_or_same y x" "before_or_same x y" by auto
      with False before_or_same_antisym show False by blast
    qed
    with 3 False show ?thesis by auto
  qed
qed simp_all

lemma longest_first_ordered:
  "sorted_wrt before_or_same (longest_first xs)" "distinct (longest_first xs)"
  using remdups_adj_ordered [OF sorted_length_sort [OF sorted_sort]] unfolding longest_first_def by auto

lemma contains_length: "contains_str x y \<Longrightarrow> length x \<le> length y \<and> (length x = length y \<longrightarrow> x = y)"
  by (auto simp: contains_str_iff)

text \<open>No member contains one that comes before it.\<close>

lemma longest_first_no_shadow: "sorted_wrt (\<lambda>x y. \<not> contains_str x y) (longest_first xs)"
proof -
  have "sorted_wrt (\<lambda>x y. \<not> contains_str x y) ys"
    if "sorted_wrt before_or_same ys" "distinct ys" for ys
    using that
  proof (induction ys)
    case (Cons a ys)
    have "\<not> contains_str a x" if x: "x \<in> set ys" for x
    proof
      assume "contains_str a x"
      from contains_length [OF this] Cons.prems x have "a = x" by (auto simp: before_or_same_def)
      with Cons.prems(2) x show False by simp
    qed
    with Cons show ?case by simp
  qed simp
  then show ?thesis using longest_first_ordered by blast
qed

section \<open>Building a policy\<close>

text \<open>The builder calls of an adapter, in order.\<close>

datatype policy_call = Inherit string sensitivity | Define string string sensitivity

fun apply_call :: "policy_call \<Rightarrow> environment_policy \<Rightarrow> environment_policy" where
  "apply_call (Inherit name s) p = allow_inherited name s p"
| "apply_call (Define name v s) p = set_variable name v s p"

lemma bt_from_pairs:
  "bt_invar m \<Longrightarrow> bt_invar (fold (\<lambda>(name, v). bt_insert name v) vs m)
     \<and> bt_get (fold (\<lambda>(name, v). bt_insert name v) vs m) = bt_get m ++ map_of (rev vs)"
proof (induction vs arbitrary: m)
  case (Cons x vs)
  obtain k v where x: "x = (k, v)" by (cases x)
  from Cons.IH [OF bt_invar_insert [OF Cons.prems]] show ?case
    by (simp add: x bt_get_insert fun_eq_iff map_add_def split: option.split)
qed simp

lemma ambient_from_pairs [simp]: "bt_get (ambient (from_pairs vs)) = map_of (rev vs)"
  using bt_from_pairs [of "[]" vs] by (simp add: from_pairs_def)

lemma apply_call_ambient [simp]: "ambient (apply_call c p) = ambient p"
  by (cases c) (auto simp: allow_inherited_def set_variable_def split: option.split)

definition policy_ok :: "(string \<times> string) list \<Rightarrow> policy_call list \<Rightarrow> environment_policy \<Rightarrow> bool" where
  "policy_ok vs calls p \<longleftrightarrow> bt_invar (allowed p) \<and> bt_get (ambient p) = map_of (rev vs)
     \<and> (\<forall>name e. bt_get (allowed p) name = Some e \<longrightarrow>
          Define name (ev_value e) (ev_sensitivity e) \<in> set calls
          \<or> Inherit name (ev_sensitivity e) \<in> set calls \<and> map_of (rev vs) name = Some (ev_value e))"

lemma policy_ok_call: "policy_ok vs calls p \<Longrightarrow> policy_ok vs (calls @ [c]) (apply_call c p)"
  by (cases c)
    (auto simp: policy_ok_def allow_inherited_def set_variable_def bt_get_insert bt_invar_insert
      split: option.split if_splits)

lemma policy_ok_calls: "policy_ok vs calls (fold apply_call calls (from_pairs vs))"
proof (induction calls rule: rev_induct)
  case Nil
  show ?case by (simp add: policy_ok_def) (simp add: from_pairs_def)
next
  case (snoc c calls)
  then show ?case by (simp add: policy_ok_call)
qed

lemma bt_get_mem: "bt_invar m \<Longrightarrow> (k, v) \<in> set m \<longleftrightarrow> bt_get m k = Some v"
  using map_of_eq_Some_iff [OF bt_invar_distinct] by force

lemma protected_strings_iff:
  assumes "bt_invar (allowed p)"
  shows "v \<in> set (protected_strings keep p) \<longleftrightarrow> v \<noteq> [] \<and> valid_utf8 v
     \<and> (\<exists>name e. bt_get (allowed p) name = Some e \<and> keep (ev_sensitivity e) \<and> ev_value e = v)"
  using bt_get_mem [OF assms]
  by (fastforce simp: protected_strings_def map_filter_def to_str_def image_iff split: if_splits)

section \<open>Properties\<close>

text \<open>
  Property C12. The child environment is closed: whatever calls build a policy, its entries are
  distinct and ordered by name, and each one was either set explicitly to that value or named as
  inherited and has the (last) ambient value of that name.
\<close>

theorem child_environment_is_closed:
  assumes "(name, v) \<in> set (entries (fold apply_call calls (from_pairs vs)))"
  shows "sorted_wrt (<) (map fst (entries (fold apply_call calls (from_pairs vs))))
    \<and> (\<exists>s. Define name v s \<in> set calls \<or> Inherit name s \<in> set calls \<and> map_of (rev vs) name = Some v)"
proof -
  let ?p = "fold apply_call calls (from_pairs vs)"
  have ok: "policy_ok vs calls ?p" by (rule policy_ok_calls)
  then have inv: "bt_invar (allowed ?p)" by (simp add: policy_ok_def)
  have "map fst (entries ?p) = bt_keys (allowed ?p)" by (simp add: entries_def case_prod_unfold)
  with inv have "sorted_wrt (<) (map fst (entries ?p))" by (simp add: bt_invar_def)
  moreover obtain e where "bt_get (allowed ?p) name = Some e" "ev_value e = v"
    using assms bt_get_mem [OF inv] by (force simp: entries_def)
  with ok have "\<exists>s. Define name v s \<in> set calls \<or> Inherit name s \<in> set calls \<and> map_of (rev vs) name = Some v"
    unfolding policy_ok_def by blast
  ultimately show ?thesis by blast
qed

lemma child_environment_is_closed_witness:
  "sorted_wrt (<) (map fst (entries (fold apply_call [Inherit ''HOME'' Public] (from_pairs [(''HOME'', ''/h''), (''KEY'', ''k'')]))))
    \<and> (\<exists>s. Define ''HOME'' ''/h'' s \<in> set [Inherit ''HOME'' Public]
          \<or> Inherit ''HOME'' s \<in> set [Inherit ''HOME'' Public]
            \<and> map_of (rev [(''HOME'', ''/h''), (''KEY'', ''k'')]) ''HOME'' = Some ''/h'')"
  by (rule child_environment_is_closed) (simp add: entries_def allow_inherited_def from_pairs_def)

text \<open>
  The secrets of a policy are listed completely, once each and longest first, so that
  replacing them in order never meets a secret after one it contains; and every secret is also among
  the literals protected from human output.
\<close>

theorem secrets_are_listed_longest_first:
  "(\<forall>v. v \<in> set (secret_strings (fold apply_call calls (from_pairs vs))) \<longleftrightarrow> v \<noteq> [] \<and> valid_utf8 v
      \<and> (\<exists>name e. bt_get (allowed (fold apply_call calls (from_pairs vs))) name = Some e
            \<and> ev_sensitivity e = Secret \<and> ev_value e = v))
   \<and> distinct (secret_strings (fold apply_call calls (from_pairs vs)))
   \<and> sorted_wrt (\<lambda>x y. \<not> contains_str x y) (secret_strings (fold apply_call calls (from_pairs vs)))
   \<and> set (secret_strings (fold apply_call calls (from_pairs vs)))
       \<subseteq> set (output_protected_strings (fold apply_call calls (from_pairs vs)))"
proof -
  let ?p = "fold apply_call calls (from_pairs vs)"
  have inv: "bt_invar (allowed ?p)" using policy_ok_calls by (simp add: policy_ok_def)
  let ?xs = "secret_strings ?p"
  have ord: "distinct ?xs"
    unfolding secret_strings_def protected_strings_def by (rule longest_first_ordered)
  have "sorted_wrt (\<lambda>x y. \<not> contains_str x y) ?xs"
    unfolding secret_strings_def protected_strings_def by (rule longest_first_no_shadow)
  moreover have "set ?xs \<subseteq> set (output_protected_strings ?p)"
    unfolding secret_strings_def output_protected_strings_def
    using sensitivity.distinct by (fastforce simp: protected_strings_iff [OF inv])
  ultimately show ?thesis
    using ord protected_strings_iff [OF inv] by (simp add: secret_strings_def)
qed

end
