(* ===== verification/Redaction.thy ===== *)
theory Redaction
  imports Env_Policy Text_Safety
begin

text \<open>
  Removing secrets from text (\<open>redact_exact_secrets\<close>, \<open>redact_exact_secrets_across_messages\<close> of
  \<open>runner.rs\<close> and \<open>sanitize_diagnostic\<close> of \<open>supervisor.rs\<close>), with \<open>str::replace\<close> and
  \<open>str::match_indices\<close> on the bytes of a string.
\<close>

section \<open>Matching\<close>

definition marker :: string where "marker = ''[REDACTED]''"

text \<open>\<open>str::replace\<close>, for the non-empty patterns it is called with.\<close>

function replace_str :: "string \<Rightarrow> string \<Rightarrow> string \<Rightarrow> string" where
  "replace_str p r [] = []"
| "replace_str p r (c # cs) =
     (if p \<noteq> [] \<and> starts_with p (c # cs) then r @ replace_str p r (drop (length p) (c # cs))
      else c # replace_str p r cs)"
  by pat_completeness auto
termination
  by (relation "measure (\<lambda>(p, r, s). length s)") auto

text \<open>The positions of the matches, from left to right and without overlap; \<open>i\<close> is the position reached.\<close>

function match_indices :: "string \<Rightarrow> nat \<Rightarrow> string \<Rightarrow> nat list" where
  "match_indices p i [] = []"
| "match_indices p i (c # cs) =
     (if p \<noteq> [] \<and> starts_with p (c # cs) then i # match_indices p (i + length p) (drop (length p) (c # cs))
      else match_indices p (Suc i) cs)"
  by pat_completeness auto
termination
  by (relation "measure (\<lambda>(p, i, s). length s)") auto

section \<open>Redaction in one text\<close>

definition ordered_secrets :: "string list \<Rightarrow> string list" where
  "ordered_secrets secrets = longest_first (filter (\<lambda>s. s \<noteq> []) secrets)"

definition redact_exact_secrets :: "string \<Rightarrow> string list \<Rightarrow> string" where
  "redact_exact_secrets value secrets =
     foldl (\<lambda>sanitized s. replace_str s marker sanitized) value (ordered_secrets secrets)"

text \<open>The argument \<open>lossy\<close> is \<open>String::from_utf8_lossy\<close>.\<close>

definition sanitize_diagnostic :: "(string \<Rightarrow> string) \<Rightarrow> string \<Rightarrow> string list \<Rightarrow> string" where
  "sanitize_diagnostic lossy bytes secrets =
     foldl (\<lambda>diagnostic s. replace_str s marker diagnostic) (lossy bytes) secrets"

section \<open>Redaction across messages\<close>

definition fill :: "bool list \<Rightarrow> nat \<Rightarrow> nat \<Rightarrow> bool list" where
  "fill covered start n = take start covered @ replicate n True @ drop (start + n) covered"

definition mask_secret :: "string \<Rightarrow> bool list \<Rightarrow> string \<Rightarrow> bool list" where
  "mask_secret combined covered s = fold (\<lambda>start m. fill m start (length s)) (match_indices s 0 combined) covered"

definition secret_mask :: "string \<Rightarrow> string list \<Rightarrow> bool list" where
  "secret_mask combined secrets =
     foldl (mask_secret combined) (replicate (length combined) False) (ordered_secrets secrets)"

fun render_masked :: "bool \<Rightarrow> (char \<times> bool) list \<Rightarrow> string" where
  "render_masked inside [] = []"
| "render_masked inside ((b, is_protected) # bs) =
     (if is_protected then (if inside then [] else marker) @ render_masked True bs
      else b # render_masked False bs)"

text \<open>The map over the messages with the running \<open>offset\<close>; \<open>None\<close> is the panic of \<open>expect\<close>.\<close>

fun redact_from :: "bool list \<Rightarrow> nat \<Rightarrow> string list \<Rightarrow> string list option" where
  "redact_from covered offset [] = Some []"
| "redact_from covered offset (m # ms) =
     (let rendered = render_masked False (zip m (take (length m) (drop offset covered))) in
      if valid_utf8 rendered then map_option (Cons rendered) (redact_from covered (offset + length m) ms)
      else None)"

definition redact_exact_secrets_across_messages :: "string list \<Rightarrow> string list \<Rightarrow> string list option" where
  "redact_exact_secrets_across_messages messages secrets =
     redact_from (secret_mask (concat messages) secrets) 0 messages"

section \<open>Tokens\<close>

text \<open>
  A redacted text is a list of kept bytes and markers.  A literal without brackets that is no part of
  the word in the marker occurs in the text only where it occurs among kept bytes.
\<close>

definition expand :: "char option list \<Rightarrow> string" where
  "expand ts = concat (map (\<lambda>t. case t of None \<Rightarrow> marker | Some c \<Rightarrow> [c]) ts)"

lemma expand_simps [simp]:
  "expand [] = []" "expand (None # ts) = marker @ expand ts" "expand (Some c # ts) = c # expand ts"
  "expand (ts @ us) = expand ts @ expand us"
  by (simp_all add: expand_def)

definition plain :: "string \<Rightarrow> bool" where
  "plain q \<longleftrightarrow> q \<noteq> [] \<and> CHR ''['' \<notin> set q \<and> CHR '']'' \<notin> set q \<and> \<not> contains_str q ''REDACTED''"

lemma starts_with_Cons [simp]: "starts_with (c # q) (d # s) \<longleftrightarrow> c = d \<and> starts_with q s"
  "\<not> starts_with (c # q) []" "starts_with [] s"
  by (auto simp: starts_with_def)

lemma marker_eq: "marker = CHR ''['' # ''REDACTED'' @ [CHR '']'']"
  by (simp add: marker_def)

lemma starts_with_kept:
  "\<lbrakk>CHR ''['' \<notin> set q; starts_with q (expand ts)\<rbrakk> \<Longrightarrow> starts_with (map Some q) ts"
proof (induction q arbitrary: ts)
  case (Cons c q)
  show ?case
  proof (cases ts)
    case (Cons t ts')
    with Cons.prems Cons.IH show ?thesis by (cases t) (auto simp: marker_eq)
  qed (use Cons.prems in simp)
qed simp

text \<open>A literal without a closing bracket that begins inside the marker stays inside its word.\<close>

lemma starts_before_bracket:
  "\<lbrakk>CHR '']'' \<notin> set q; starts_with q (w @ CHR '']'' # s)\<rbrakk> \<Longrightarrow> starts_with q w"
proof (induction q arbitrary: w)
  case (Cons c q)
  then show ?case by (cases w) auto
qed simp

lemma contains_in_word:
  assumes "CHR '']'' \<notin> set q" "q \<noteq> []" "contains_str q (w @ CHR '']'' # s)"
  shows "contains_str q w \<or> contains_str q s"
  using assms
proof (induction w)
  case Nil
  then show ?case by (cases q) auto
next
  case (Cons c w)
  from Cons.prems(3) consider "starts_with q ((c # w) @ CHR '']'' # s)" | "contains_str q (w @ CHR '']'' # s)"
    by auto
  then show ?case
  proof cases
    case 1
    from starts_before_bracket [OF Cons.prems(1) 1] show ?thesis by simp
  next
    case 2
    with Cons show ?thesis by auto
  qed
qed

lemma contains_marker:
  assumes "plain q" "contains_str q (marker @ s)"
  shows "contains_str q s"
proof -
  from assms have "contains_str q (''REDACTED'' @ CHR '']'' # s)"
    by (cases q) (auto simp: marker_eq plain_def)
  moreover have "CHR '']'' \<notin> set q" "q \<noteq> []" "\<not> contains_str q ''REDACTED''" using assms(1) by (auto simp: plain_def)
  ultimately show ?thesis using contains_in_word by blast
qed

lemma contains_kept:
  assumes "plain q"
  shows "contains_str q (expand ts) \<Longrightarrow> contains_str (map Some q) ts"
proof (induction ts)
  case Nil
  with assms show ?case by (simp add: plain_def)
next
  case (Cons t ts)
  show ?case
  proof (cases t)
    case None
    with Cons contains_marker [OF assms] show ?thesis by simp
  next
    case (Some c)
    with Cons.prems consider "starts_with q (expand (t # ts))" | "contains_str q (expand ts)" by auto
    then show ?thesis
    proof cases
      case 1
      with assms starts_with_kept show ?thesis by (auto simp: plain_def)
    next
      case 2
      with Cons.IH show ?thesis by simp
    qed
  qed
qed

section \<open>Replacement\<close>

fun replace_tokens :: "string \<Rightarrow> nat \<Rightarrow> string \<Rightarrow> char option list" where
  "replace_tokens p skip [] = []"
| "replace_tokens p (Suc skip) (c # cs) = replace_tokens p skip cs"
| "replace_tokens p 0 (c # cs) =
     (if p \<noteq> [] \<and> starts_with p (c # cs) then None # replace_tokens p (length p - 1) cs
      else Some c # replace_tokens p 0 cs)"

lemma replace_tokens_skip: "replace_tokens p n s = replace_tokens p 0 (drop n s)"
proof (induction n arbitrary: s)
  case (Suc n)
  then show ?case by (cases s) simp_all
qed simp

lemma replace_expand: "replace_str p marker s = expand (replace_tokens p 0 s)"
proof (induction p marker s rule: replace_str.induct)
  case (2 p c cs)
  show ?case
  proof (cases "p \<noteq> [] \<and> starts_with p (c # cs)")
    case True
    then obtain d p' where p: "p = d # p'" by (cases p) auto
    with True have "d = c" by simp
    with p True 2(1) [OF True] show ?thesis
      by (simp add: replace_tokens_skip [of "c # p'" "length p'"])
  next
    case False
    then have "replace_str p marker (c # cs) = c # replace_str p marker cs"
      "replace_tokens p 0 (c # cs) = Some c # replace_tokens p 0 cs" by (simp_all only: replace_str.simps replace_tokens.simps if_False)
    with 2(2) [OF False] show ?thesis by simp
  qed
qed simp

lemma tokens_prefix:
  "starts_with (map Some q) (replace_tokens p 0 s) \<Longrightarrow> starts_with q s"
proof (induction q arbitrary: s)
  case (Cons c q)
  then show ?case by (cases s) (auto split: if_splits)
qed simp

text \<open>A kept run is a run of the text, and never the pattern itself.\<close>

lemma tokens_contains:
  "\<lbrakk>contains_str (map Some q) (replace_tokens p n s); q \<noteq> []\<rbrakk> \<Longrightarrow> contains_str q s \<and> q \<noteq> p"
proof (induction p n s rule: replace_tokens.induct)
  case (3 p c cs)
  show ?case
  proof (cases "p \<noteq> [] \<and> starts_with p (c # cs)")
    case True
    with "3.prems" "3.IH"(1) [OF True] show ?thesis by (cases q) auto
  next
    case False
    then have "replace_tokens p 0 (c # cs) = Some c # replace_tokens p 0 cs" by (simp only: replace_tokens.simps if_False)
    with "3.prems" consider "starts_with (map Some q) (replace_tokens p 0 (c # cs))"
      | "contains_str (map Some q) (replace_tokens p 0 cs)" by auto
    then show ?thesis
    proof cases
      case 1
      from tokens_prefix [OF this] False "3.prems"(2) show ?thesis by auto
    next
      case 2
      with "3.IH"(2) [OF False] "3.prems"(2) show ?thesis by simp
    qed
  qed
next
  case (2 p skip c cs)
  then show ?case by simp
qed simp

lemma replace_contains:
  assumes "plain q" "contains_str q (replace_str p marker s)"
  shows "contains_str q s" "q \<noteq> p"
  using tokens_contains [OF contains_kept [OF assms(1)], of p 0 s] assms
  unfolding replace_expand by (auto simp: plain_def)

lemma replace_all_contains:
  assumes "plain q"
  shows "contains_str q (foldl (\<lambda>t p. replace_str p marker t) s ps) \<Longrightarrow> contains_str q s \<and> q \<notin> set ps"
proof (induction ps arbitrary: s)
  case (Cons p ps)
  from Cons.IH [of "replace_str p marker s"] Cons.prems
  have "contains_str q (replace_str p marker s)" "q \<notin> set ps" by simp_all
  with replace_contains [OF assms] show ?case by auto
qed simp

section \<open>Properties\<close>

text \<open>
  Property C13. After \<open>redact_exact_secrets\<close> no secret is left in the text, whatever the secrets'
  overlaps and order: neither where it stood nor newly formed around a marker.  (A secret that has a
  bracket in it or is part of the word \<open>REDACTED\<close> could occur in the marker itself.)
\<close>

theorem redaction_leaves_no_secret:
  assumes "s \<in> set secrets" "plain s"
  shows "\<not> contains_str s (redact_exact_secrets value secrets)"
proof
  assume "contains_str s (redact_exact_secrets value secrets)"
  with replace_all_contains [OF assms(2)] have "s \<notin> set (ordered_secrets secrets)"
    unfolding redact_exact_secrets_def by blast
  with assms show False by (simp add: ordered_secrets_def plain_def)
qed

lemma redaction_leaves_no_secret_witness:
  "\<not> contains_str ''key-1'' (redact_exact_secrets ''a key-12 key-1'' [''key-1'', ''key-12''])"
  by (rule redaction_leaves_no_secret) (simp_all add: plain_def starts_with_def)

section \<open>The mask\<close>

lemma fill_length [simp]: "start + n \<le> length m \<Longrightarrow> length (fill m start n) = length m"
  by (simp add: fill_def)

lemma fill_nth:
  "\<lbrakk>start + n \<le> length m; j < length m\<rbrakk> \<Longrightarrow> fill m start n ! j = (start \<le> j \<and> j < start + n \<or> m ! j)"
  by (auto simp: fill_def nth_append)

lemma match_bound: "\<lbrakk>m \<in> set (match_indices p k s)\<rbrakk> \<Longrightarrow> k \<le> m \<and> m + length p \<le> k + length s"
proof (induction p k s rule: match_indices.induct)
  case (2 p k c cs)
  show ?case
  proof (cases "p \<noteq> [] \<and> starts_with p (c # cs)")
    case True
    have len: "length p \<le> length (c # cs)" using True by (auto simp: starts_with_iff) (metis length_append length_Cons le_add1)
    from True "2.prems" have "m = k \<or> m \<in> set (match_indices p (k + length p) (drop (length p) (c # cs)))"
      by (simp only: match_indices.simps if_True simp_thms list.set insert_iff)
    with "2.IH"(1) [OF True] len show ?thesis by auto
  next
    case False
    then have "m \<in> set (match_indices p (Suc k) cs)" using "2.prems" by (simp only: match_indices.simps if_False)
    with "2.IH"(2) [OF False] show ?thesis by simp
  qed
qed simp

text \<open>Every occurrence of the pattern overlaps a match.\<close>

lemma match_overlap:
  "\<lbrakk>p \<noteq> []; starts_with p (drop i s)\<rbrakk> \<Longrightarrow>
     \<exists>m \<in> set (match_indices p k s). m < k + i + length p \<and> k + i < m + length p"
proof (induction p k s arbitrary: i rule: match_indices.induct)
  case (1 p k)
  then show ?case by (cases p) simp_all
next
  case (2 p k c cs)
  show ?case
  proof (cases "p \<noteq> [] \<and> starts_with p (c # cs)")
    case True
    then have ms: "match_indices p k (c # cs) = k # match_indices p (k + length p) (drop (length p) (c # cs))"
      by (simp only: match_indices.simps if_True simp_thms)
    show ?thesis
    proof (cases "i < length p")
      case True
      with ms "2.prems"(1) show ?thesis by (intro bexI [of _ k]) simp_all
    next
      case False
      then have "starts_with p (drop (i - length p) (drop (length p) (c # cs)))" using "2.prems"(2) by simp
      from "2.IH"(1) [OF True "2.prems"(1) this] False show ?thesis unfolding ms by auto
    qed
  next
    case False
    then have ms: "match_indices p k (c # cs) = match_indices p (Suc k) cs"
      by (simp only: match_indices.simps if_False)
    from False "2.prems" obtain j where j: "i = Suc j" by (cases i) auto
    from "2.IH"(2) [OF False "2.prems"(1), of j] "2.prems"(2) j show ?thesis unfolding ms by auto
  qed
qed

lemma fills:
  assumes "\<forall>m \<in> set ms. m + n \<le> length c0"
  shows "length (fold (\<lambda>start c. fill c start n) ms c0) = length c0
    \<and> (\<forall>j < length c0. fold (\<lambda>start c. fill c start n) ms c0 ! j = (c0 ! j \<or> (\<exists>m \<in> set ms. m \<le> j \<and> j < m + n)))"
  using assms
proof (induction ms arbitrary: c0)
  case (Cons m ms)
  then have "length (fill c0 m n) = length c0" by simp
  with Cons.IH [of "fill c0 m n"] Cons.prems show ?case by (auto simp: fill_nth)
qed simp

lemma mask_secret_facts:
  assumes "length covered = length combined"
  shows "length (mask_secret combined covered s) = length combined"
    "j < length combined \<Longrightarrow> covered ! j \<Longrightarrow> mask_secret combined covered s ! j"
    "\<lbrakk>s \<noteq> []; starts_with s (drop i combined)\<rbrakk> \<Longrightarrow> \<exists>j < length s. i + j < length combined \<and> mask_secret combined covered s ! (i + j)"
proof -
  have bound: "\<forall>m \<in> set (match_indices s 0 combined). m + length s \<le> length covered"
    using match_bound [of _ s 0 combined] assms by auto
  note f = fills [OF bound]
  show "length (mask_secret combined covered s) = length combined"
    "j < length combined \<Longrightarrow> covered ! j \<Longrightarrow> mask_secret combined covered s ! j"
    using f assms by (simp_all add: mask_secret_def)
  assume s: "s \<noteq> []" "starts_with s (drop i combined)"
  then obtain m where m: "m \<in> set (match_indices s 0 combined)" "m < i + length s" "i < m + length s"
    using match_overlap [of s i combined 0] by auto
  have "max i m + 0 < length combined" using bound m assms by auto
  moreover have "\<exists>k \<in> set (match_indices s 0 combined). k \<le> max i m \<and> max i m < k + length s"
    using m s(1) by (intro bexI [of _ m]) auto
  ultimately have "mask_secret combined covered s ! max i m"
    using f assms by (simp add: mask_secret_def)
  moreover have "max i m = i + (max i m - i)" "max i m - i < length s" using m s(1) by auto
  ultimately show "\<exists>j < length s. i + j < length combined \<and> mask_secret combined covered s ! (i + j)"
    using \<open>max i m + 0 < length combined\<close> by (metis add.right_neutral)
qed

lemma secret_masks:
  assumes "length covered = length combined"
  shows "length (foldl (mask_secret combined) covered ss) = length combined
    \<and> (\<forall>j < length combined. covered ! j \<longrightarrow> foldl (mask_secret combined) covered ss ! j)
    \<and> (\<forall>s \<in> set ss. s \<noteq> [] \<longrightarrow> (\<forall>i. starts_with s (drop i combined) \<longrightarrow>
          (\<exists>j < length s. i + j < length combined \<and> foldl (mask_secret combined) covered ss ! (i + j))))"
  using assms
proof (induction ss arbitrary: covered)
  case (Cons s ss)
  note facts = mask_secret_facts [OF Cons.prems, where s = s]
  from Cons.IH [OF facts(1)] facts show ?case
    by (simp only: foldl.simps list.set ball_simps) blast
qed simp

lemma secret_mask_hits:
  assumes "s \<in> set secrets" "s \<noteq> []" "starts_with s (drop i combined)"
  shows "\<exists>j < length s. i + j < length combined \<and> secret_mask combined secrets ! (i + j)"
  using secret_masks [of "replicate (length combined) False" combined "ordered_secrets secrets"] assms
  unfolding secret_mask_def by (auto simp: ordered_secrets_def)

lemma secret_mask_length [simp]: "length (secret_mask combined secrets) = length combined"
  using secret_masks [of "replicate (length combined) False" combined "ordered_secrets secrets"]
  by (simp add: secret_mask_def)

section \<open>Rendering with a mask\<close>

fun masked :: "bool list \<Rightarrow> nat \<Rightarrow> string list \<Rightarrow> (char \<times> bool) list list" where
  "masked covered offset [] = []"
| "masked covered offset (m # ms) =
     zip m (take (length m) (drop offset covered)) # masked covered (offset + length m) ms"

fun run_tokens :: "bool \<Rightarrow> (char \<times> bool) list list \<Rightarrow> char option list" where
  "run_tokens inside [] = []"
| "run_tokens inside ([] # ms) = run_tokens False ms"
| "run_tokens inside (((b, is_protected) # xs) # ms) =
     (if is_protected then (if inside then [] else [None]) @ run_tokens True (xs # ms)
      else Some b # run_tokens False (xs # ms))"

lemma render_tokens:
  "render_masked inside xs @ expand (run_tokens False ms) = expand (run_tokens inside (xs # ms))"
  by (induction inside xs rule: render_masked.induct) auto

lemma redact_tokens:
  "redact_from covered offset ms = Some out \<Longrightarrow> concat out = expand (run_tokens False (masked covered offset ms))"
proof (induction ms arbitrary: offset out)
  case (Cons m ms)
  then obtain out' where "redact_from covered (offset + length m) ms = Some out'"
    "out = render_masked False (zip m (take (length m) (drop offset covered))) # out'"
    by (auto simp: Let_def split: if_splits)
  with Cons.IH show ?case by (simp add: render_tokens)
qed simp

lemma concat_masked:
  "length covered = offset + length (concat ms) \<Longrightarrow> concat (masked covered offset ms) = zip (concat ms) (drop offset covered)"
proof (induction ms arbitrary: offset)
  case (Cons m ms)
  then have "concat (masked covered (offset + length m) ms) = zip (concat ms) (drop (offset + length m) covered)"
    by simp
  then show ?case by (simp add: zip_append1 add.commute)
qed simp

text \<open>A run of kept tokens is a run of uncovered bytes.\<close>

lemma tokens_run:
  "run_tokens False ms = map Some q @ r \<Longrightarrow> \<exists>ys. concat ms = map (\<lambda>c. (c, False)) q @ ys"
proof (induction "False" ms arbitrary: q rule: run_tokens.induct)
  case (3 b is_protected xs ms)
  then show ?case
  proof (cases q)
    case (Cons c q')
    with 3 show ?thesis by (auto split: if_splits)
  qed simp
qed auto

lemma tokens_run_inside:
  "\<lbrakk>contains_str (map Some q) (run_tokens inside ms); q \<noteq> []\<rbrakk>
    \<Longrightarrow> contains_str (map (\<lambda>c. (c, False)) q) (concat ms)"
proof (induction inside ms rule: run_tokens.induct)
  case (3 inside b is_protected xs ms)
  show ?case
  proof (cases is_protected)
    case True
    with "3.prems" have "contains_str (map Some q) (run_tokens True (xs # ms))"
      by (cases q) (auto split: if_splits)
    with "3.IH"(1) [OF True] "3.prems"(2) show ?thesis by simp
  next
    case False
    with "3.prems" consider "starts_with (map Some q) (Some b # run_tokens False (xs # ms))"
      | "contains_str (map Some q) (run_tokens False (xs # ms))" by auto
    then show ?thesis
    proof cases
      case 1
      then obtain r where "run_tokens False (((b, False) # xs) # ms) = map Some q @ r"
        by (auto simp: starts_with_iff)
      from tokens_run [OF this] False show ?thesis by (auto simp: contains_str_iff intro: exI [of _ "[]"])
    next
      case 2
      with "3.IH"(2) [OF False] "3.prems"(2) show ?thesis by simp
    qed
  qed
qed auto

lemma uncovered_run:
  assumes "contains_str (map (\<lambda>c. (c, False)) q) (zip s covered)"
  shows "\<exists>i. starts_with q (drop i s) \<and> (\<forall>j < length q. i + j < length s \<longrightarrow> \<not> covered ! (i + j))"
proof -
  obtain a b where z: "zip s covered = a @ map (\<lambda>c. (c, False)) q @ b"
    using assms by (auto simp: contains_str_iff)
  have len: "length a + length q \<le> length (zip s covered)" unfolding z by simp
  have at: "zip s covered ! (length a + j) = (q ! j, False)" if "j < length q" for j
    unfolding z using that by (simp add: nth_append)
  have nth: "s ! (length a + j) = q ! j \<and> \<not> covered ! (length a + j)" if "j < length q" for j
    using at [OF that] len that by simp
  have "take (length q) (drop (length a) s) = q"
  proof (intro nth_equalityI)
    have "length a + length q \<le> length s" using len by simp
    then show "length (take (length q) (drop (length a) s)) = length q" by simp
    then show "take (length q) (drop (length a) s) ! j = q ! j" if "j < length (take (length q) (drop (length a) s))" for j
      using that nth [of j] by simp
  qed
  moreover have "\<not> covered ! (length a + j)" if "j < length q" for j
    using nth [OF that] by blast
  ultimately show ?thesis by (intro exI [of _ "length a"]) (simp add: starts_with_def)
qed

section \<open>Whole characters are covered\<close>

text \<open>The bytes of the characters \<open>cs\<close>, each covered or not as a whole.\<close>

fun blocks :: "nat list \<Rightarrow> bool list \<Rightarrow> bool list" where
  "blocks (c # cs) (b # bs) = replicate (length (utf8_char c)) b @ blocks cs bs"
| "blocks _ _ = []"

lemma blocks_append:
  "length bs = length cs \<Longrightarrow> blocks (cs @ ds) (bs @ es) = blocks cs bs @ blocks ds es"
  by (induction cs bs rule: blocks.induct) auto

lemma blocks_length: "length bs = length cs \<Longrightarrow> length (blocks cs bs) = length (utf8_encode cs)"
  by (induction cs bs rule: blocks.induct) (auto simp: utf8_encode_def)

lemma blocks_replicate: "blocks cs (replicate (length cs) b) = replicate (length (utf8_encode cs)) b"
  by (induction cs) (auto simp: utf8_encode_def replicate_add)

lemma utf8_char_bytes:
  assumes "scalar c"
  shows "\<not> utf8_cont (utf8_char c ! 0)" "\<lbrakk>0 < i; i < length (utf8_char c)\<rbrakk> \<Longrightarrow> utf8_cont (utf8_char c ! i)"
proof -
  have c: "c \<le> 0x10FFFF" using assms by (rule scalar_le)
  then show "\<not> utf8_cont (utf8_char c ! 0)" by (auto simp: utf8_char_def utf8_cont_def)
  assume i: "0 < i" "i < length (utf8_char c)"
  have l: "n mod 64 < 64" for n :: nat by simp
  have "utf8_cont (char_of (128 + n mod 64))" for n :: nat
    using l [of n] by (simp add: utf8_cont_def)
  with i show "utf8_cont (utf8_char c ! i)"
    by (auto simp: utf8_char_def nth_Cons less_Suc_eq split: if_splits nat.split)
qed

lemma encoded_prefix:
  "\<lbrakk>list_all scalar ds; list_all scalar cs; starts_with (utf8_encode ds) (utf8_encode cs)\<rbrakk>
    \<Longrightarrow> \<exists>b. cs = ds @ b"
proof (induction ds arbitrary: cs)
  case (Cons d ds)
  show ?case
  proof (cases cs)
    case Nil
    with Cons.prems(3) show ?thesis by (simp add: utf8_encode_def starts_with_def)
  next
    case (Cons c cs')
    obtain t where t: "utf8_char c @ utf8_encode cs' = utf8_char d @ utf8_encode ds @ t"
      using Cons.prems(3) unfolding Cons by (auto simp: starts_with_iff utf8_encode_def)
    have "c = d"
      using t Cons.prems(1,2) \<open>cs = c # cs'\<close> by (intro utf8_code.prefix_free [of c d]) auto
    with t have "starts_with (utf8_encode ds) (utf8_encode cs')" by (simp add: starts_with_iff)
    with Cons.IH [of cs'] Cons.prems \<open>cs = c # cs'\<close> \<open>c = d\<close> show ?thesis by auto
  qed
qed simp

text \<open>An occurrence of a string in a string begins and ends between characters.\<close>

lemma occurrence_aligned:
  "\<lbrakk>list_all scalar ds; ds \<noteq> []; list_all scalar cs; starts_with (utf8_encode ds) (drop i (utf8_encode cs))\<rbrakk>
    \<Longrightarrow> \<exists>a b. cs = a @ ds @ b \<and> i = length (utf8_encode a)"
proof (induction cs arbitrary: i)
  case Nil
  then show ?case by (cases ds) (auto simp: utf8_encode_def starts_with_def)
next
  case (Cons c cs)
  have enc: "utf8_encode (c # cs) = utf8_char c @ utf8_encode cs" by (simp add: utf8_encode_def)
  consider "i = 0" | "0 < i" "i < length (utf8_char c)" | "length (utf8_char c) \<le> i" by linarith
  then show ?case
  proof cases
    case 1
    then obtain b where "c # cs = ds @ b" using encoded_prefix Cons.prems by (metis drop0)
    with 1 show ?thesis by (intro exI [of _ "[]"] exI [of _ b]) (simp add: utf8_encode_def)
  next
    case 2
    obtain d ds' where ds: "ds = d # ds'" using Cons.prems(2) by (cases ds) auto
    obtain t where t: "drop i (utf8_char c) @ utf8_encode cs = utf8_char d @ utf8_encode ds' @ t"
      using Cons.prems(4) 2 unfolding ds enc by (auto simp: starts_with_iff utf8_encode_def [of "d # ds'"] utf8_encode_def [of ds'])
    have "utf8_char c ! i = hd (drop i (utf8_char c) @ utf8_encode cs)"
      using 2 by (simp add: hd_append hd_drop_conv_nth)
    also have "\<dots> = utf8_char d ! 0" unfolding t by (simp add: hd_append hd_conv_nth)
    finally show ?thesis
      using utf8_char_bytes(1) [of d] utf8_char_bytes(2) [of c i] 2 Cons.prems(1,3) ds by simp
  next
    case 3
    then have "starts_with (utf8_encode ds) (drop (i - length (utf8_char c)) (utf8_encode cs))"
      using Cons.prems(4) unfolding enc by simp
    with Cons.IH Cons.prems obtain a b where "cs = a @ ds @ b" "i - length (utf8_char c) = length (utf8_encode a)"
      by fastforce
    with 3 show ?thesis by (intro exI [of _ "c # a"] exI [of _ b]) (simp add: utf8_encode_def)
  qed
qed

lemma fill_blocks:
  assumes "length bs = length (a @ ds @ b)"
  shows "\<exists>bs'. length bs' = length (a @ ds @ b)
    \<and> fill (blocks (a @ ds @ b) bs) (length (utf8_encode a)) (length (utf8_encode ds)) = blocks (a @ ds @ b) bs'"
proof -
  define x y z where "x = take (length a) bs" and "y = take (length ds) (drop (length a) bs)"
    and "z = drop (length ds) (drop (length a) bs)"
  then have len: "length x = length a" "length y = length ds" "length z = length b"
    using assms by simp_all
  have bs: "bs = x @ y @ z" unfolding x_def y_def z_def by (simp only: append_take_drop_id)
  have "blocks (a @ ds @ b) bs = blocks a x @ blocks ds y @ blocks b z"
    unfolding bs using len by (simp add: blocks_append)
  moreover have "length (blocks a x) = length (utf8_encode a)" "length (blocks ds y) = length (utf8_encode ds)"
    using len by (simp_all add: blocks_length)
  ultimately have "fill (blocks (a @ ds @ b) bs) (length (utf8_encode a)) (length (utf8_encode ds))
      = blocks a x @ replicate (length (utf8_encode ds)) True @ blocks b z"
    by (simp add: fill_def)
  also have "\<dots> = blocks (a @ ds @ b) (x @ replicate (length ds) True @ z)"
    using len by (simp add: blocks_append blocks_replicate)
  finally show ?thesis using len by (intro exI [of _ "x @ replicate (length ds) True @ z"]) simp
qed

definition aligned :: "nat list \<Rightarrow> bool list \<Rightarrow> bool" where
  "aligned cs covered \<longleftrightarrow> (\<exists>bs. length bs = length cs \<and> covered = blocks cs bs)"

lemma match_sound: "m \<in> set (match_indices p k s) \<Longrightarrow> k \<le> m \<and> starts_with p (drop (m - k) s) \<and> p \<noteq> []"
proof (induction p k s rule: match_indices.induct)
  case (2 p k c cs)
  show ?case
  proof (cases "p \<noteq> [] \<and> starts_with p (c # cs)")
    case True
    from True "2.prems" have "m = k \<or> m \<in> set (match_indices p (k + length p) (drop (length p) (c # cs)))"
      by (simp only: match_indices.simps if_True simp_thms list.set insert_iff)
    with "2.IH"(1) [OF True] True show ?thesis by (auto simp: add.commute)
  next
    case False
    then have "m \<in> set (match_indices p (Suc k) cs)" using "2.prems" by (simp only: match_indices.simps if_False)
    with "2.IH"(2) [OF False] have m: "Suc k \<le> m" "starts_with p (drop (m - Suc k) cs)" "p \<noteq> []" by auto
    then have "m - k = Suc (m - Suc k)" by arith
    then have "drop (m - k) (c # cs) = drop (m - Suc k) cs" by simp
    with m show ?thesis by auto
  qed
qed simp

lemma aligned_fills:
  assumes "list_all scalar cs" "list_all scalar ds"
    "\<forall>m \<in> set ms. starts_with (utf8_encode ds) (drop m (utf8_encode cs))" "ds \<noteq> []" "aligned cs covered"
  shows "aligned cs (fold (\<lambda>start c. fill c start (length (utf8_encode ds))) ms covered)"
  using assms(3,5)
proof (induction ms arbitrary: covered)
  case (Cons m ms)
  have "starts_with (utf8_encode ds) (drop m (utf8_encode cs))" using Cons.prems(1) by simp
  from occurrence_aligned [OF assms(2,4,1) this]
  obtain a b where ab: "cs = a @ ds @ b" "m = length (utf8_encode a)" by blast
  obtain bs where "length bs = length (a @ ds @ b)" "covered = blocks (a @ ds @ b) bs"
    using Cons.prems(2) ab(1) by (auto simp: aligned_def)
  with fill_blocks [of bs a ds b] ab have "aligned cs (fill covered m (length (utf8_encode ds)))"
    by (auto simp: aligned_def)
  with Cons show ?case by simp
qed simp

lemma aligned_mask:
  assumes "list_all scalar cs" "list_all valid_utf8 ss"
  shows "aligned cs covered \<Longrightarrow> aligned cs (foldl (mask_secret (utf8_encode cs)) covered ss)"
  using assms(2)
proof (induction ss arbitrary: covered)
  case (Cons s ss)
  let ?ds = "chars s"
  have s: "utf8_encode ?ds = s" using Cons.prems by simp
  have "aligned cs (mask_secret (utf8_encode cs) covered s)"
  proof (cases "s = []")
    case True
    have "match_indices [] i t = []" for i t by (induction t arbitrary: i) simp_all
    with True Cons.prems(1) show ?thesis by (simp add: mask_secret_def)
  next
    case False
    then have "?ds \<noteq> []" using s by (auto simp: utf8_encode_def)
    moreover have "\<forall>m \<in> set (match_indices s 0 (utf8_encode cs)). starts_with (utf8_encode ?ds) (drop m (utf8_encode cs))"
      using match_sound [of _ s 0] s by auto
    ultimately show ?thesis
      using aligned_fills [OF assms(1) chars_scalar, of "match_indices s 0 (utf8_encode cs)" s covered] Cons.prems(1) s
      by (simp add: mask_secret_def)
  qed
  with Cons show ?case by simp
qed simp

lemma render_block:
  "u \<noteq> [] \<Longrightarrow> render_masked inside (map (\<lambda>x. (x, b)) u @ r)
     = (if b then (if inside then [] else marker) @ render_masked True r else u @ render_masked False r)"
proof (induction u arbitrary: inside)
  case (Cons x u)
  show ?case
  proof (cases "u = []")
    case False
    then show ?thesis using Cons.IH [OF False, of True] Cons.IH [OF False, of False] by (cases b) simp_all
  qed simp
qed simp

lemma render_valid:
  "\<lbrakk>list_all scalar cs; length bs = length cs\<rbrakk>
    \<Longrightarrow> valid_utf8 (render_masked inside (zip (utf8_encode cs) (blocks cs bs)))"
proof (induction cs bs arbitrary: inside rule: blocks.induct)
  case (1 c cs b bs)
  have z: "zip (utf8_encode (c # cs)) (blocks (c # cs) (b # bs))
      = map (\<lambda>x. (x, b)) (utf8_char c) @ zip (utf8_encode cs) (blocks cs bs)"
    by (simp add: utf8_encode_def zip_append zip_replicate2)
  have m: "valid_utf8 marker" by (rule valid_utf8_ascii) (simp add: marker_def is_ascii_def)
  have v: "valid_utf8 (utf8_char c)" using valid_utf8_encode [of "[c]"] 1 by (simp add: utf8_encode_def)
  have e: "valid_utf8 []" using valid_utf8_encode [of "[]"] by (simp add: utf8_encode_def)
  have "valid_utf8 (render_masked i (zip (utf8_encode cs) (blocks cs bs)))" for i using 1 by simp
  with m v e show ?case
    unfolding z render_block [OF utf8_char_nonempty] by (simp add: valid_utf8_append(1))
qed (simp_all add: utf8_encode_def valid_utf8_ascii is_ascii_def)

lemma redact_from_total:
  "\<lbrakk>list_all valid_utf8 ms; length bs = length (concat (map chars ms)); drop offset covered = blocks (concat (map chars ms)) bs\<rbrakk>
    \<Longrightarrow> redact_from covered offset ms \<noteq> None"
proof (induction ms arbitrary: offset bs)
  case (Cons m ms)
  let ?n = "length (chars m)"
  have m: "utf8_encode (chars m) = m" using Cons.prems(1) by simp
  have bs: "bs = take ?n bs @ drop ?n bs" "length (take ?n bs) = length (chars m)" using Cons.prems(2) by simp_all
  have parts: "drop offset covered = blocks (chars m) (take ?n bs) @ blocks (concat (map chars ms)) (drop ?n bs)"
    using Cons.prems(3) blocks_append [OF bs(2), of "concat (map chars ms)" "drop ?n bs"] bs(1) by simp
  have len: "length (blocks (chars m) (take ?n bs)) = length m" using blocks_length [OF bs(2)] m by simp
  have "valid_utf8 (render_masked False (zip m (take (length m) (drop offset covered))))"
    using render_valid [OF chars_scalar bs(2), of False] m len by (simp add: parts)
  moreover have "drop (offset + length m) covered = blocks (concat (map chars ms)) (drop ?n bs)"
  proof -
    have "drop (offset + length m) covered = drop (length m) (drop offset covered)" by (simp add: add.commute)
    then show ?thesis unfolding parts using len by simp
  qed
  moreover have "length (drop ?n bs) = length (concat (map chars ms))" using Cons.prems(2) by simp
  ultimately show ?case using Cons.IH [of "drop ?n bs" "offset + length m"] Cons.prems(1) by simp
qed simp

section \<open>Properties of the redaction across messages\<close>

text \<open>
  Property C14. The same holds for a secret that is cut into several messages: in the concatenation of
  the redacted messages no secret occurs.
\<close>

theorem redaction_across_messages_leaves_no_secret:
  assumes "redact_exact_secrets_across_messages messages secrets = Some out" "s \<in> set secrets" "plain s"
  shows "\<not> contains_str s (concat out)"
proof
  let ?covered = "secret_mask (concat messages) secrets"
  assume "contains_str s (concat out)"
  with redact_tokens assms(1) have "contains_str s (expand (run_tokens False (masked ?covered 0 messages)))"
    unfolding redact_exact_secrets_across_messages_def by metis
  with contains_kept [OF assms(3)]
  have "contains_str (map Some s) (run_tokens False (masked ?covered 0 messages))" by blast
  moreover have "s \<noteq> []" using assms(3) by (simp add: plain_def)
  ultimately have "contains_str (map (\<lambda>c. (c, False)) s) (zip (concat messages) ?covered)"
    using tokens_run_inside [of s False "masked ?covered 0 messages"] concat_masked [of ?covered 0 messages] by simp
  with uncovered_run obtain i where "starts_with s (drop i (concat messages))"
    "\<forall>j < length s. i + j < length (concat messages) \<longrightarrow> \<not> ?covered ! (i + j)" by blast
  with secret_mask_hits [OF assms(2) \<open>s \<noteq> []\<close>] show False by blast
qed

text \<open>
  Property C15. The redaction across messages never panics: secrets and messages that are UTF-8 are
  covered in whole characters, so what is left of every message is UTF-8 again.
\<close>

theorem redaction_keeps_utf8:
  assumes "list_all valid_utf8 messages" "list_all valid_utf8 secrets"
  shows "\<exists>out. redact_exact_secrets_across_messages messages secrets = Some out
    \<and> length out = length messages \<and> list_all valid_utf8 out"
proof -
  let ?cs = "concat (map chars messages)"
  have enc: "utf8_encode ?cs = concat messages"
    using assms(1) by (induction messages) (simp_all add: utf8_encode_def [of "[]"])
  have scalars: "list_all scalar ?cs" by (induction messages) (simp_all add: list_all_iff [symmetric])
  have "list_all valid_utf8 (ordered_secrets secrets)"
    using assms(2) by (auto simp: ordered_secrets_def list_all_iff)
  moreover have "aligned ?cs (replicate (length (concat messages)) False)"
    unfolding aligned_def enc [symmetric] by (intro exI [of _ "replicate (length ?cs) False"]) (simp add: blocks_replicate)
  ultimately have "aligned ?cs (secret_mask (concat messages) secrets)"
    using aligned_mask [OF scalars] unfolding secret_mask_def enc [symmetric] by blast
  then obtain bs where "length bs = length ?cs" "drop 0 (secret_mask (concat messages) secrets) = blocks ?cs bs"
    by (auto simp: aligned_def)
  with redact_from_total [OF assms(1)] obtain out
    where out: "redact_exact_secrets_across_messages messages secrets = Some out"
    unfolding redact_exact_secrets_across_messages_def by blast
  have "redact_from c n ms = Some os \<Longrightarrow> length os = length ms \<and> list_all valid_utf8 os" for c n ms os
  proof (induction ms arbitrary: n os)
    case (Cons m ms)
    then show ?case by (auto simp: Let_def split: if_splits)
  qed simp
  with out show ?thesis unfolding redact_exact_secrets_across_messages_def by blast
qed

lemma redaction_across_messages_leaves_no_secret_witness:
  "redact_exact_secrets_across_messages [''a ke'', ''y-1''] [''key-1''] = Some [''a [REDACTED]'', ''[REDACTED]'']
   \<and> \<not> contains_str ''key-1'' (concat [''a [REDACTED]'', ''[REDACTED]''])"
proof
  show r: "redact_exact_secrets_across_messages [''a ke'', ''y-1''] [''key-1''] = Some [''a [REDACTED]'', ''[REDACTED]'']"
    by (simp add: redact_exact_secrets_across_messages_def secret_mask_def ordered_secrets_def longest_first_def
        mask_secret_def fill_def marker_def valid_utf8_ascii is_ascii_def starts_with_def numeral_eq_Suc Let_def)
  show "\<not> contains_str ''key-1'' (concat [''a [REDACTED]'', ''[REDACTED]''])"
    by (rule redaction_across_messages_leaves_no_secret [OF r]) (simp_all add: plain_def starts_with_def)
qed

lemma redaction_keeps_utf8_witness:
  "\<exists>out. redact_exact_secrets_across_messages [''a ke'', ''y-1''] [''key-1''] = Some out
    \<and> length out = length [''a ke'', ''y-1''] \<and> list_all valid_utf8 out"
  by (rule redaction_keeps_utf8) (simp_all add: valid_utf8_ascii is_ascii_def)

end
