(* ===== verification/Human_Stream.thy ===== *)
theory Human_Stream
  imports Errors Redaction Supervisor_Protocol Host_Command
begin

text \<open>
  The live human output of a run (\<open>InstalledHumanStream\<close> of \<open>runner.rs\<close>): after every record of the
  harness the assistant messages admitted so far are reconciled with what was already shown, and the
  newly settled text is shown only if no protected literal is in it.  The adapter's projection
  (\<open>admitted_assistant_messages\<close>) is the argument \<open>admit\<close>; a write to the terminal succeeds or not
  (\<open>writable\<close>), and of a failed write nothing is counted as shown.
\<close>

section \<open>Lines\<close>

definition blank_line :: "string \<Rightarrow> bool" where
  "blank_line l \<longleftrightarrow> list_all is_whitespace (chars l)"

fun rposition :: "('a \<Rightarrow> bool) \<Rightarrow> 'a list \<Rightarrow> nat option" where
  "rposition p [] = None"
| "rposition p (x # xs) =
     (case rposition p xs of Some i \<Rightarrow> Some (Suc i) | None \<Rightarrow> if p x then Some 0 else None)"

text \<open>\<open>while let Some(blank) = last { pop }\<close>.\<close>

definition drop_trailing_blank :: "string list \<Rightarrow> string list" where
  "drop_trailing_blank ls = rev (dropWhile blank_line (rev ls))"

definition remove_nth :: "nat \<Rightarrow> 'a list \<Rightarrow> 'a list" where
  "remove_nth i xs = take i xs @ drop (Suc i) xs"

text \<open>The messages without the last non-blank line, which may be the terminal envelope.\<close>

definition provisional_visible_text :: "string list \<Rightarrow> string" where
  "provisional_visible_text messages =
     (case rposition (\<lambda>m. list_ex (\<lambda>l. \<not> blank_line l) (str_lines m)) messages of
        None \<Rightarrow> []
      | Some carrier \<Rightarrow>
          let carrier_lines = split_on (\<lambda>c. c = LF) (messages ! carrier) in
          case rposition (\<lambda>l. \<not> blank_line l) carrier_lines of
            None \<Rightarrow> []
          | Some terminal \<Rightarrow>
              let kept = join [LF] (drop_trailing_blank (remove_nth terminal carrier_lines)) in
              join [LF] (filter (\<lambda>m. m \<noteq> []) (messages[carrier := kept])))"

section \<open>Protected literals\<close>

definition trim_start :: "nat list \<Rightarrow> nat list" where
  "trim_start cs = dropWhile is_whitespace cs"

definition control_json_line :: "string \<Rightarrow> bool" where
  "control_json_line l = (case trim_start (chars l) of [] \<Rightarrow> False | c # _ \<Rightarrow> c = 123 \<or> c = 91)"

definition safe_human_stream_message :: "string \<Rightarrow> string list \<Rightarrow> bool" where
  "safe_human_stream_message message literals \<longleftrightarrow>
     \<not> list_ex (\<lambda>v. contains_str v message) (filter (\<lambda>v. v \<noteq> []) literals)
     \<and> \<not> list_ex control_json_line (str_lines message)"

text \<open>The byte positions of the characters of a literal but the first.\<close>

definition inner_boundaries :: "string \<Rightarrow> nat list" where
  "inner_boundaries literal =
     map (\<lambda>k. length (utf8_encode (take k (chars literal)))) [1..<length (chars literal)]"

fun windows2 :: "'a list \<Rightarrow> ('a \<times> 'a) list" where
  "windows2 (a # b # xs) = (a, b) # windows2 (b # xs)"
| "windows2 _ = []"

definition literal_crosses :: "string \<times> string \<Rightarrow> string \<Rightarrow> bool" where
  "literal_crosses boundary literal =
     list_ex (\<lambda>k. ends_with (take k literal) (fst boundary) \<and> starts_with (drop k literal) (snd boundary))
       (inner_boundaries literal)"

definition protected_crosses_message_boundary :: "string list \<Rightarrow> string list \<Rightarrow> bool" where
  "protected_crosses_message_boundary candidates literals =
     list_ex (\<lambda>boundary. list_ex (literal_crosses boundary) (filter (\<lambda>l. l \<noteq> []) literals))
       (windows2 candidates)"

section \<open>The stream\<close>

record human_stream =
  hs_sink :: string
  hs_records :: "json list"
  hs_candidates :: "string list"
  hs_emitted :: string
  hs_stalled :: bool

definition new_stream :: human_stream where
  "new_stream = \<lparr>hs_sink = [], hs_records = [], hs_candidates = [], hs_emitted = [], hs_stalled = False\<rparr>"

definition stream_observer_failure :: "failure_kind \<Rightarrow> string \<Rightarrow> supervisor_failure" where
  "stream_observer_failure kind message = new_failure kind message"

text \<open>All but the last of the messages are final; the last may grow.\<close>

definition prefix_admitted :: "string list \<Rightarrow> string list \<Rightarrow> bool" where
  "prefix_admitted previous candidates \<longleftrightarrow>
     length previous \<le> length candidates
     \<and> list_all (\<lambda>(i, old).
          if length candidates = length previous \<and> i + 1 = length previous
          then starts_with old (candidates ! i) else candidates ! i = old)
        (zip [0..<length previous] previous)"

definition safe_text :: "string \<Rightarrow> string" where
  "safe_text delta = utf8_encode (human_safe_multiline (chars delta))"

text \<open>Showing what the projection adds to the text already shown.\<close>

definition show_delta ::
  "string list \<Rightarrow> bool \<Rightarrow> human_stream \<Rightarrow> (supervisor_failure + unit) \<times> human_stream" where
  "show_delta literals writable hs =
     (let projected = provisional_visible_text (hs_candidates hs) in
      case strip_prefix (hs_emitted hs) projected of
        None \<Rightarrow> (Inl (stream_observer_failure failure_kind.ProtocolMalformed
          ''incremental assistant projection changed an admitted prefix''), hs)
      | Some delta \<Rightarrow>
          if delta = [] then (Inr (), hs)
          else if \<not> safe_human_stream_message projected literals then (Inr (), hs\<lparr>hs_stalled := True\<rparr>)
          else if \<not> writable then
            (Inl (stream_observer_failure failure_kind.Internal ''human assistant output could not be written''), hs)
          else (Inr (), hs\<lparr>hs_sink := hs_sink hs @ safe_text delta, hs_emitted := hs_emitted hs @ delta\<rparr>))"

definition reconcile_candidates ::
  "string list \<Rightarrow> bool \<Rightarrow> string list \<Rightarrow> human_stream \<Rightarrow> (supervisor_failure + unit) \<times> human_stream" where
  "reconcile_candidates literals writable candidates hs =
     (if \<not> prefix_admitted (hs_candidates hs) candidates
      then (Inl (stream_observer_failure failure_kind.ProtocolMalformed
        ''incremental assistant messages changed an admitted prefix''), hs)
      else if protected_crosses_message_boundary candidates literals
      then (Inr (), hs\<lparr>hs_candidates := candidates, hs_stalled := True\<rparr>)
      else
        let hs1 = hs\<lparr>hs_candidates := candidates\<rparr> in
        if hs_stalled hs1 then (Inr (), hs1) else show_delta literals writable hs1)"

definition observe_record ::
  "(json list \<Rightarrow> string list option) \<Rightarrow> string list \<Rightarrow> human_stream \<Rightarrow> json \<times> bool
    \<Rightarrow> (supervisor_failure + unit) \<times> human_stream" where
  "observe_record admit literals hs rw =
     (let hs1 = hs\<lparr>hs_records := hs_records hs @ [fst rw]\<rparr> in
      case admit (hs_records hs1) of
        None \<Rightarrow> (Inl (stream_observer_failure failure_kind.ProtocolMalformed
          ''adapter assistant record failed incremental admission''), hs1)
      | Some candidates \<Rightarrow>
          if candidates = [] then (Inr (), hs1)
          else reconcile_candidates literals (snd rw) candidates hs1)"

text \<open>\<open>settlement\<close>: how much of the settled text is already shown, or the protocol error.\<close>

definition settlement :: "string \<Rightarrow> human_stream \<Rightarrow> runner_error + (nat \<times> bool)" where
  "settlement visible_text hs =
     (if starts_with (hs_emitted hs) visible_text then Inr (length (hs_emitted hs), hs_stalled hs)
      else Inl (with_detail (catalog error_code.ProtocolMalformed) ''reason''
        (JStr ''The incrementally admitted assistant prefix did not match settled output.'')))"

text \<open>The records of a run, in order; the supervisor stops at the first failure.\<close>

fun stream_run ::
  "(json list \<Rightarrow> string list option) \<Rightarrow> string list \<Rightarrow> human_stream \<Rightarrow> (json \<times> bool) list \<Rightarrow> human_stream" where
  "stream_run admit literals hs [] = hs"
| "stream_run admit literals hs (rw # rws) =
     (case observe_record admit literals hs rw of
        (Inl _, hs') \<Rightarrow> hs'
      | (Inr _, hs') \<Rightarrow> stream_run admit literals hs' rws)"

section \<open>What has been shown is safe\<close>

text \<open>
  The shown text is safe, and the sink holds the escaped deltas it consists of.
\<close>

definition stream_ok :: "string list \<Rightarrow> human_stream \<Rightarrow> bool" where
  "stream_ok literals hs \<longleftrightarrow> (hs_emitted hs = [] \<or> safe_human_stream_message (hs_emitted hs) literals)
     \<and> (\<exists>deltas. hs_emitted hs = concat deltas \<and> hs_sink hs = concat (map safe_text deltas))"

lemma stream_ok_new [simp]: "stream_ok literals new_stream"
  by (auto simp: stream_ok_def new_stream_def intro: exI [of _ "[]"])

lemma show_delta_ok:
  assumes "stream_ok literals hs" "show_delta literals writable hs = (r, hs')"
  shows "stream_ok literals hs' \<and> (\<exists>d. hs_emitted hs' = hs_emitted hs @ d)"
proof (cases "strip_prefix (hs_emitted hs) (provisional_visible_text (hs_candidates hs))")
  case None
  with assms show ?thesis by (auto simp: show_delta_def Let_def)
next
  case (Some delta)
  then have p: "provisional_visible_text (hs_candidates hs) = hs_emitted hs @ delta"
    by (simp add: strip_prefix_Some)
  obtain deltas where d: "hs_emitted hs = concat deltas" "hs_sink hs = concat (map safe_text deltas)"
    using assms(1) by (auto simp: stream_ok_def)
  have "hs' = hs \<or> hs' = hs\<lparr>hs_stalled := True\<rparr>
    \<or> safe_human_stream_message (provisional_visible_text (hs_candidates hs)) literals
      \<and> hs' = hs\<lparr>hs_sink := hs_sink hs @ safe_text delta, hs_emitted := hs_emitted hs @ delta\<rparr>"
    using assms(2) [unfolded show_delta_def Let_def Some option.case] by (simp split: if_split_asm)
  then consider "hs_emitted hs' = hs_emitted hs" "hs_sink hs' = hs_sink hs"
    | "safe_human_stream_message (hs_emitted hs @ delta) literals"
      "hs' = hs\<lparr>hs_sink := hs_sink hs @ safe_text delta, hs_emitted := hs_emitted hs @ delta\<rparr>"
    unfolding p by auto
  then show ?thesis
  proof cases
    case 1
    with assms(1) show ?thesis by (simp add: stream_ok_def)
  next
    case 2
    with d have "hs_emitted hs' = concat (deltas @ [delta])" "hs_sink hs' = concat (map safe_text (deltas @ [delta]))"
      by simp_all
    moreover have "safe_human_stream_message (hs_emitted hs') literals" using 2 by simp
    moreover have "hs_emitted hs' = hs_emitted hs @ delta" using 2 by simp
    ultimately show ?thesis unfolding stream_ok_def by blast
  qed
qed

lemma reconcile_ok:
  assumes "stream_ok literals hs" "reconcile_candidates literals writable candidates hs = (r, hs')"
  shows "stream_ok literals hs' \<and> (\<exists>d. hs_emitted hs' = hs_emitted hs @ d)"
proof -
  have ok: "stream_ok literals (hs\<lparr>hs_candidates := candidates\<rparr>)" using assms(1) by (simp add: stream_ok_def)
  from assms show ?thesis
    using show_delta_ok [OF ok, of writable r hs']
    by (auto simp: reconcile_candidates_def stream_ok_def Let_def split: if_splits)
qed

lemma observe_ok:
  assumes "stream_ok literals hs" "observe_record admit literals hs rw = (r, hs')"
  shows "stream_ok literals hs' \<and> (\<exists>d. hs_emitted hs' = hs_emitted hs @ d)"
proof -
  have ok: "stream_ok literals (hs\<lparr>hs_records := hs_records hs @ [fst rw]\<rparr>)"
    using assms(1) by (simp add: stream_ok_def)
  from assms(2) show ?thesis
    using reconcile_ok [OF ok, of "snd rw" _ r hs'] assms(1)
    by (auto simp: observe_record_def stream_ok_def Let_def split: if_splits option.splits)
qed

lemma stream_run_ok:
  "stream_ok literals hs \<Longrightarrow> stream_ok literals (stream_run admit literals hs rws)
     \<and> (\<exists>d. hs_emitted (stream_run admit literals hs rws) = hs_emitted hs @ d)"
proof (induction rws arbitrary: hs)
  case (Cons rw rws)
  obtain r hs1 where o1: "observe_record admit literals hs rw = (r, hs1)" by (cases "observe_record admit literals hs rw")
  note ok = observe_ok [OF Cons.prems o1]
  show ?case
  proof (cases r)
    case (Inl e)
    with ok o1 show ?thesis by simp
  next
    case (Inr u)
    with Cons.IH [of hs1] ok o1 show ?thesis by auto
  qed
qed simp

section \<open>A stalled stream stays silent\<close>

lemma observe_stalled:
  "\<lbrakk>hs_stalled hs; observe_record admit literals hs rw = (r, hs')\<rbrakk>
    \<Longrightarrow> hs_stalled hs' \<and> hs_sink hs' = hs_sink hs \<and> hs_emitted hs' = hs_emitted hs"
  by (auto simp: observe_record_def reconcile_candidates_def Let_def split: if_splits option.splits)

lemma stream_run_stalled:
  "hs_stalled hs \<Longrightarrow> hs_sink (stream_run admit literals hs rws) = hs_sink hs"
proof (induction rws arbitrary: hs)
  case (Cons rw rws)
  obtain r hs1 where o1: "observe_record admit literals hs rw = (r, hs1)" by (cases "observe_record admit literals hs rw")
  from observe_stalled [OF Cons.prems o1] Cons.IH [of hs1] o1 show ?case by (cases r) auto
qed simp

section \<open>Properties\<close>

text \<open>
  Property C16. Whatever the harness sends and however the adapter projects it, the text shown so far
  contains no protected literal, and the text is made of pieces whose escaped forms are, in order,
  exactly what the terminal received.
\<close>

theorem human_stream_shows_no_protected_literal:
  assumes "literal \<in> set literals" "literal \<noteq> []"
  shows "\<not> contains_str literal (hs_emitted (stream_run admit literals new_stream rws))
    \<and> (\<exists>deltas. hs_emitted (stream_run admit literals new_stream rws) = concat deltas
         \<and> hs_sink (stream_run admit literals new_stream rws) = concat (map safe_text deltas))"
proof -
  let ?hs = "stream_run admit literals new_stream rws"
  have "stream_ok literals ?hs" using stream_run_ok [OF stream_ok_new] by blast
  then have s: "hs_emitted ?hs = [] \<or> safe_human_stream_message (hs_emitted ?hs) literals"
    and d: "\<exists>deltas. hs_emitted ?hs = concat deltas \<and> hs_sink ?hs = concat (map safe_text deltas)"
    unfolding stream_ok_def by blast+
  from s have "\<not> contains_str literal (hs_emitted ?hs)"
  proof
    assume "hs_emitted ?hs = []"
    with assms show ?thesis by simp
  next
    assume "safe_human_stream_message (hs_emitted ?hs) literals"
    with assms show ?thesis by (auto simp: safe_human_stream_message_def list_ex_iff)
  qed
  with d show ?thesis by blast
qed

text \<open>The messages of a run, each record carrying the text the adapter admits after it.\<close>

definition texts_of :: "json list \<Rightarrow> string list option" where
  "texts_of records = Some (List.map_filter as_str records)"

lemma human_stream_shows_no_protected_literal_witness:
  "hs_emitted (stream_run texts_of [''key''] new_stream [(JStr (''a'' @ [LF] @ ''b''), True), (JStr ''c'', True)]) \<noteq> []
   \<and> \<not> contains_str ''key'' (hs_emitted (stream_run texts_of [''key''] new_stream
        [(JStr (''a'' @ [LF] @ ''b''), True), (JStr ''c'', True)]))"
proof
  show "hs_emitted (stream_run texts_of [''key''] new_stream [(JStr (''a'' @ [LF] @ ''b''), True), (JStr ''c'', True)]) \<noteq> []"
    by (simp add: observe_record_def texts_of_def map_filter_simps new_stream_def reconcile_candidates_def
        prefix_admitted_def protected_crosses_message_boundary_def literal_crosses_def inner_boundaries_def
        show_delta_def provisional_visible_text_def str_lines_def blank_line_def Let_def LF_def CR_def drop_cr_def
        chars_ascii is_ascii_def is_whitespace_def drop_trailing_blank_def remove_nth_def strip_prefix_def
        safe_human_stream_message_def control_json_line_def trim_start_def starts_with_def ends_with_def)
  show "\<not> contains_str ''key'' (hs_emitted (stream_run texts_of [''key''] new_stream
        [(JStr (''a'' @ [LF] @ ''b''), True), (JStr ''c'', True)]))"
    using human_stream_shows_no_protected_literal [of "''key''" "[''key'']" texts_of
        "[(JStr (''a'' @ [LF] @ ''b''), True), (JStr ''c'', True)]"] by simp
qed

end
