(* ===== verification/Native_Capture.thy ===== *)
theory Native_Capture
  imports Redaction Supervisor_Protocol
begin

text \<open>
  The native log of a run (\<open>NativeCapture\<close> of \<open>runner.rs\<close>): every record is scrubbed of the known
  secrets and appended as a line, within a byte limit.  \<open>to_vec\<close> is the JSON serializer; a write to
  the file succeeds or not (\<open>writable\<close>).
\<close>

section \<open>Scrubbing\<close>

fun scrub :: "string list \<Rightarrow> json \<Rightarrow> json" where
  "scrub secrets (JStr t) = JStr (foldl (\<lambda>t s. if s = [] then t else replace_str s marker t) t secrets)"
| "scrub secrets (JArr vs) = JArr (map (scrub secrets) vs)"
| "scrub secrets (JObj m) = JObj (map (\<lambda>(k, v). (k, scrub secrets v)) m)"
| "scrub secrets v = v"

section \<open>The log\<close>

record native_capture =
  nc_file :: "string list"
  nc_bytes :: nat
  nc_limit :: nat

definition open_capture :: "nat \<Rightarrow> native_capture" where
  "open_capture limit = \<lparr>nc_file = [], nc_bytes = 0, nc_limit = limit\<rparr>"

definition capture_limit_failure :: "nat \<Rightarrow> nat \<Rightarrow> supervisor_failure" where
  "capture_limit_failure observed limit =
     (new_failure HarnessFailed ''native capture size exceeded'')\<lparr>sf_diagnostic := Some (jobj
        [diagnostic_schema, (''reason'', JStr ''native-capture-limit''),
         (''observedBytes'', capped observed), (''limitBytes'', capped limit),
         (''saturated'', JBool (observed > max_u32 \<or> limit > max_u32))])\<rparr>"

definition write_capture ::
  "(json \<Rightarrow> string) \<Rightarrow> string list \<Rightarrow> native_capture \<Rightarrow> json \<times> bool \<Rightarrow> supervisor_failure + native_capture" where
  "write_capture to_vec secrets nc rw =
     (let bytes = to_vec (scrub secrets (fst rw)) @ [LF];
          observed = saturating_add (nc_bytes nc) (length bytes) in
      if observed > nc_limit nc then Inl (capture_limit_failure observed (nc_limit nc))
      else if \<not> snd rw then Inl (new_failure Internal ''native capture write failed'')
      else Inr (nc\<lparr>nc_file := nc_file nc @ [bytes], nc_bytes := nc_bytes nc + length bytes\<rparr>))"

section \<open>Properties\<close>

text \<open>The string values of a record, its keys aside.\<close>

fun string_values :: "json \<Rightarrow> string list" where
  "string_values (JStr t) = [t]"
| "string_values (JArr vs) = concat (map string_values vs)"
| "string_values (JObj m) = concat (map (\<lambda>(k, v). string_values v) m)"
| "string_values v = []"

lemma scrubbed_string:
  assumes "plain q" "q \<in> set secrets"
  shows "\<not> contains_str q (foldl (\<lambda>t s. if s = [] then t else replace_str s marker t) t secrets)"
proof -
  have "foldl (\<lambda>t s. if s = [] then t else replace_str s marker t) t secrets
      = foldl (\<lambda>t s. replace_str s marker t) t (filter (\<lambda>s. s \<noteq> []) secrets)"
    by (induction secrets arbitrary: t) simp_all
  moreover have "q \<in> set (filter (\<lambda>s. s \<noteq> []) secrets)" using assms by (simp add: plain_def)
  ultimately show ?thesis using replace_all_contains [OF assms(1)] by metis
qed

lemma scrubbed_values:
  assumes "plain q"
  shows "\<lbrakk>q \<in> set secrets; t \<in> set (string_values (scrub secrets v))\<rbrakk> \<Longrightarrow> \<not> contains_str q t"
proof (induction secrets v rule: scrub.induct)
  case (1 secrets t')
  with scrubbed_string [OF assms, of secrets t'] show ?case by simp
qed auto

definition capture_ok ::
  "(json \<Rightarrow> string) \<Rightarrow> string list \<Rightarrow> nat \<Rightarrow> (json \<times> bool) list \<Rightarrow> native_capture \<Rightarrow> bool" where
  "capture_ok to_vec secrets limit rws nc \<longleftrightarrow>
     nc_file nc = map (\<lambda>rw. to_vec (scrub secrets (fst rw)) @ [LF]) rws
     \<and> nc_bytes nc = length (concat (nc_file nc)) \<and> nc_bytes nc \<le> nc_limit nc \<and> nc_limit nc = limit"

lemma write_capture_ok:
  assumes "capture_ok to_vec secrets limit rws nc" "write_capture to_vec secrets nc rw = Inr nc'" "limit < u64_max"
  shows "capture_ok to_vec secrets limit (rws @ [rw]) nc'"
  using assms
  by (auto simp: capture_ok_def write_capture_def Let_def saturating_add_def split: if_splits)

lemma capture_run_ok:
  assumes "limit < u64_max"
  shows "foldE (write_capture to_vec secrets) (open_capture limit) rws = Inr nc \<Longrightarrow> capture_ok to_vec secrets limit rws nc"
proof (induction rws arbitrary: nc rule: rev_induct)
  case Nil
  then show ?case by (auto simp: open_capture_def capture_ok_def)
next
  case (snoc rw rws)
  then obtain x where "foldE (write_capture to_vec secrets) (open_capture limit) rws = Inr x"
    "write_capture to_vec secrets x rw = Inr nc" by (auto simp: foldE_append bindE_eq_Inr)
  with snoc.IH write_capture_ok [OF _ _ assms] show ?case by blast
qed

text \<open>
  Property C17. The native log holds one line per record within its byte limit, each the serialized
  record in which no secret is left in any string value.
\<close>

theorem native_log_is_scrubbed_and_bounded:
  assumes "foldE (write_capture to_vec secrets) (open_capture limit) rws = Inr nc" "limit < u64_max"
    "s \<in> set secrets" "plain s"
  shows "length (concat (nc_file nc)) \<le> limit
    \<and> nc_file nc = map (\<lambda>rw. to_vec (scrub secrets (fst rw)) @ [LF]) rws
    \<and> list_all (\<lambda>rw. list_all (\<lambda>t. \<not> contains_str s t) (string_values (scrub secrets (fst rw)))) rws"
  using capture_run_ok [OF assms(2,1)] scrubbed_values [OF assms(4,3)]
  by (auto simp: capture_ok_def list_all_iff)

definition shown :: "json \<Rightarrow> string" where
  "shown v = concat (string_values v)"

lemma native_log_is_scrubbed_and_bounded_witness:
  "length (concat [''a [REDACTED]'' @ [LF]]) \<le> 20
    \<and> [''a [REDACTED]'' @ [LF]] = map (\<lambda>rw. shown (scrub [''key-1''] (fst rw)) @ [LF]) [(JArr [JStr ''a key-1''], True)]
    \<and> list_all (\<lambda>rw. list_all (\<lambda>t. \<not> contains_str ''key-1'' t) (string_values (scrub [''key-1''] (fst rw))))
        [(JArr [JStr ''a key-1''], True)]"
proof -
  have run: "foldE (write_capture shown [''key-1'']) (open_capture 20) [(JArr [JStr ''a key-1''], True)]
      = Inr \<lparr>nc_file = [''a [REDACTED]'' @ [LF]], nc_bytes = 13, nc_limit = 20\<rparr>"
    by (simp add: write_capture_def open_capture_def shown_def marker_def starts_with_def saturating_add_def Let_def)
  from native_log_is_scrubbed_and_bounded [OF run, of "''key-1''"] show ?thesis
    by (simp add: plain_def starts_with_def shown_def marker_def)
qed

end
