(* ===== verification/Adapters.thy ===== *)
theory Adapters
  imports Supervisor_Protocol Errors Env_Policy
begin

text \<open>
  The descriptions of the installed adapters (\<open>installed_adapters.rs\<close>): their fixed names and
  protocols, the admission of a version, a runtime and a platform against the adapter's recipe, and
  the classification of the authentication probe.  A recipe (\<open>recipe_json\<close>) is a JSON value passed
  as an argument; where the code panics on a malformed recipe the model yields \<open>None\<close>.  The
  production build is modelled, not the test seams.
\<close>

section \<open>The adapters\<close>

datatype installed_adapter = AgentsSdkJsonl | CodexExecJson | ClaudePrintStreamJson | PrimeRpc | OmpRpc

primrec harness_of :: "installed_adapter \<Rightarrow> string" where
  "harness_of AgentsSdkJsonl = ''agents-sdk''"
| "harness_of CodexExecJson = ''codex''"
| "harness_of ClaudePrintStreamJson = ''claude''"
| "harness_of PrimeRpc = ''prime''"
| "harness_of OmpRpc = ''omp''"

primrec transport_of :: "installed_adapter \<Rightarrow> string" where
  "transport_of AgentsSdkJsonl = ''jsonl''"
| "transport_of CodexExecJson = ''exec-json''"
| "transport_of ClaudePrintStreamJson = ''print-stream-json''"
| "transport_of PrimeRpc = ''rpc''"
| "transport_of OmpRpc = ''rpc''"

primrec adapter_id :: "installed_adapter \<Rightarrow> string" where
  "adapter_id AgentsSdkJsonl = ''agents-sdk/jsonl''"
| "adapter_id CodexExecJson = ''codex/exec-json''"
| "adapter_id ClaudePrintStreamJson = ''claude/print-stream-json''"
| "adapter_id PrimeRpc = ''prime/rpc''"
| "adapter_id OmpRpc = ''omp/rpc''"

primrec executable_names :: "installed_adapter \<Rightarrow> string list" where
  "executable_names AgentsSdkJsonl = [''prose-agents-sdk'']"
| "executable_names CodexExecJson = [''codex'']"
| "executable_names ClaudePrintStreamJson = [''claude'']"
| "executable_names PrimeRpc = [''prime-agent'']"
| "executable_names OmpRpc = [''omp'']"

primrec default_probe_auth_group :: "installed_adapter \<Rightarrow> string" where
  "default_probe_auth_group AgentsSdkJsonl = ''openai-api-key''"
| "default_probe_auth_group CodexExecJson = ''cached-chatgpt-login''"
| "default_probe_auth_group ClaudePrintStreamJson = ''claude-subscription''"
| "default_probe_auth_group PrimeRpc = ''prime-harness-login''"
| "default_probe_auth_group OmpRpc = ''omp-harness-login''"

definition provider_groups :: "string list" where
  "provider_groups = [''anthropic'', ''openai'', ''openrouter'', ''google'', ''github-copilot'', ''aws-bedrock'']"

primrec auth_profiles :: "installed_adapter \<Rightarrow> string list" where
  "auth_profiles AgentsSdkJsonl = [''openai-api-key'']"
| "auth_profiles CodexExecJson = [''cached-chatgpt-login'', ''openai-api-key'', ''codex-access-token'']"
| "auth_profiles ClaudePrintStreamJson = [''claude-subscription'', ''anthropic-api-key'']"
| "auth_profiles PrimeRpc = ''prime-harness-login'' # provider_groups"
| "auth_profiles OmpRpc = ''omp-harness-login'' # provider_groups"

primrec prompt_placement :: "installed_adapter \<Rightarrow> string" where
  "prompt_placement CodexExecJson = ''developer''"
| "prompt_placement AgentsSdkJsonl = ''system-append''"
| "prompt_placement ClaudePrintStreamJson = ''system-append''"
| "prompt_placement PrimeRpc = ''system-append''"
| "prompt_placement OmpRpc = ''system-append''"

definition prompt_strictness :: "installed_adapter \<Rightarrow> string" where
  "prompt_strictness a = ''strict''"

definition isolation_guarantee :: "installed_adapter \<Rightarrow> string" where
  "isolation_guarantee a = (if a \<in> {CodexExecJson, OmpRpc} then ''unsupported'' else ''advisory'')"

primrec protocol_of :: "installed_adapter \<Rightarrow> jsonl_protocol" where
  "protocol_of AgentsSdkJsonl =
     with_failure_events [''error''] (installed ''start'' ''final'' [''tool_call'', ''tool_result''])"
| "protocol_of CodexExecJson =
     with_failure_events [''turn.failed'', ''error'']
       (installed ''thread.started'' ''turn.completed''
         [''turn.started'', ''item.started'', ''item.updated'', ''item.completed''])"
| "protocol_of ClaudePrintStreamJson =
     with_unlisted_nonterminal_events
       (installed ''system'' ''result''
         [''system'', ''assistant'', ''user'', ''stream_event'', ''tool_progress''])"
| "protocol_of PrimeRpc =
     with_failure_events [''extension_ui_request'']
       (installed ''response'' ''agent_end''
         [''agent_start'', ''turn_start'', ''message_start'', ''message_update'', ''message_end'',
          ''turn_end'', ''tool_execution_start'', ''tool_execution_update'', ''tool_execution_end'',
          ''rlm_child_update'', ''session_action_update''])"
| "protocol_of OmpRpc =
     with_allowed_after_terminal_events [''response'', ''extension_ui_request'']
       (installed ''ready'' ''agent_end''
         [''available_commands_update'', ''response'', ''agent_start'', ''turn_start'', ''message_start'',
          ''message_update'', ''message_end'', ''turn_end'', ''extension_ui_request'',
          ''tool_execution_start'', ''tool_execution_update'', ''tool_execution_end''])"

definition all_adapters :: "installed_adapter list" where
  "all_adapters = [AgentsSdkJsonl, CodexExecJson, ClaudePrintStreamJson, PrimeRpc, OmpRpc]"

definition for_harness :: "string \<Rightarrow> installed_adapter option" where
  "for_harness harness = find (\<lambda>a. harness_of a = harness) all_adapters"

definition select :: "string \<Rightarrow> string \<Rightarrow> runner_error + installed_adapter option" where
  "select harness transport =
     (case for_harness harness of
        None \<Rightarrow> Inr None
      | Some a \<Rightarrow>
          if transport = ''auto'' \<or> transport = transport_of a then Inr (Some a)
          else Inl (with_detail (with_detail (with_detail (catalog TransportUnsupported)
                 ''adapterId'' (JStr (adapter_id a))) ''requestedTransport'' (JStr transport))
                 ''fallbackAttempted'' (JBool False)))"

section \<open>Versions\<close>

text \<open>A version of three numbers in canonical form.\<close>

definition parse_version :: "string \<Rightarrow> nat list option" where
  "parse_version v =
     (case split_on (\<lambda>c. c = CHR ''.'') v of
        a # b # c # others \<Rightarrow>
          (case (parse_u64 a, parse_u64 b, parse_u64 c) of
             (Some x, Some y, Some z) \<Rightarrow>
               if others = [] \<and> join ''.'' (map decimal [x, y, z]) = v then Some [x, y, z] else None
           | _ \<Rightarrow> None)
      | _ \<Rightarrow> None)"

definition version_meets_floor :: "string \<Rightarrow> string \<Rightarrow> bool" where
  "version_meets_floor version floor_text =
     (case (parse_version version, parse_version floor_text) of
        (Some candidate, Some least) \<Rightarrow> candidate ! 0 = least ! 0 \<and> candidate \<ge> least
      | _ \<Rightarrow> False)"

definition minimum_version :: "json \<Rightarrow> string option" where
  "minimum_version recipe = Option.bind (pointer recipe [''support'', ''minimumVersion'']) as_str"

definition strings_of :: "json list \<Rightarrow> string list option" where
  "strings_of vs = (if list_all is_string vs then Some (List.map_filter as_str vs) else None)"

definition admitted_versions :: "json \<Rightarrow> string list option" where
  "admitted_versions recipe =
     Option.bind (Option.bind (pointer recipe [''support'', ''admittedVersions'']) as_array) strings_of"

definition repair_command :: "json \<Rightarrow> string option" where
  "repair_command recipe = Option.bind (pointer recipe [''support'', ''repairCommand'']) as_str"

primrec version_candidate :: "installed_adapter \<Rightarrow> string \<Rightarrow> string option" where
  "version_candidate AgentsSdkJsonl observed = strip_prefix ''prose-agents-sdk '' observed"
| "version_candidate CodexExecJson observed = strip_prefix ''codex-cli '' observed"
| "version_candidate ClaudePrintStreamJson observed =
     Some (case strip_suffix '' (Claude Code)'' observed of Some v \<Rightarrow> v | None \<Rightarrow> observed)"
| "version_candidate PrimeRpc observed =
     Some (case strip_prefix ''prime-agent '' observed of Some v \<Rightarrow> v | None \<Rightarrow> observed)"
| "version_candidate OmpRpc observed = strip_prefix ''omp/'' observed"

definition version_is_supported :: "json \<Rightarrow> installed_adapter \<Rightarrow> string \<Rightarrow> bool option" where
  "version_is_supported recipe a observed =
     (case version_candidate a (trim observed) of
        None \<Rightarrow> Some False
      | Some version \<Rightarrow>
          map_option (\<lambda>admitted. version \<in> set admitted
              \<or> opt_ex (version_meets_floor version) (minimum_version recipe))
            (admitted_versions recipe))"

definition codex_qualification :: "json \<Rightarrow> installed_adapter \<Rightarrow> string option \<Rightarrow> string option" where
  "codex_qualification recipe a observed =
     (case observed of
        None \<Rightarrow> Some ''unknown''
      | Some v \<Rightarrow> map_option (\<lambda>ok. if ok then ''qualified'' else ''unqualified'')
                   (version_is_supported recipe a v))"

definition jstrs :: "string list \<Rightarrow> json" where
  "jstrs ss = JArr (map JStr ss)"

definition incompatible_version_error :: "json \<Rightarrow> installed_adapter \<Rightarrow> string \<Rightarrow> runner_error option" where
  "incompatible_version_error recipe a observed =
     Option.bind (admitted_versions recipe) (\<lambda>admitted.
     map_option (\<lambda>repair.
       with_detail (with_detail (with_detail (with_detail (with_detail (catalog error_code.HarnessIncompatible)
         ''adapterId'' (JStr (adapter_id a))) ''detectedVersion'' (JStr observed))
         ''admittedVersions'' (jstrs admitted)) ''repairCommand'' (JStr repair))
         ''fallbackAttempted'' (JBool False)) (repair_command recipe))"

definition unavailable_error :: "json \<Rightarrow> installed_adapter \<Rightarrow> runner_error option" where
  "unavailable_error recipe a =
     Option.bind (admitted_versions recipe) (\<lambda>admitted.
     map_option (\<lambda>repair.
       with_detail (with_detail (with_detail (with_detail (with_detail (catalog error_code.HarnessUnavailable)
         ''adapterId'' (JStr (adapter_id a))) ''executableNames'' (jstrs (executable_names a)))
         ''admittedVersions'' (jstrs admitted)) ''repairCommand'' (JStr repair))
         ''fallbackAttempted'' (JBool False)) (repair_command recipe))"

subsection \<open>The Bun runtime\<close>

definition max_bun_semver_component :: nat where "max_bun_semver_component = 1000000"

definition bun_part :: "string \<Rightarrow> nat option" where
  "bun_part part =
     (if part = [] \<or> length part > 1 \<and> starts_with ''0'' part \<or> \<not> list_all ascii_digit part then None
      else case parse_u64 part of
             None \<Rightarrow> None
           | Some n \<Rightarrow> if n > max_bun_semver_component then None else Some n)"

definition bun_prerelease_ok :: "string \<Rightarrow> bool" where
  "bun_prerelease_ok suffix \<longleftrightarrow>
     suffix \<noteq> [] \<and> [] \<notin> set (split_on (\<lambda>c. c = CHR ''.'') suffix)
     \<and> list_all (\<lambda>b. ascii_alphanumeric b \<or> b = CHR ''.'' \<or> b = CHR ''-'') suffix"

definition parse_bun_semver :: "string \<Rightarrow> (nat list \<times> bool) option" where
  "parse_bun_semver observed0 =
     (let observed = trim observed0;
          (core, prerelease) = (case split_once (CHR ''-'') observed of
             None \<Rightarrow> (observed, None) | Some (core, suffix) \<Rightarrow> (core, Some suffix))
      in if opt_ex (\<lambda>suffix. \<not> bun_prerelease_ok suffix) prerelease then None
         else case split_on (\<lambda>c. c = CHR ''.'') core of
           a # b # c # others \<Rightarrow>
             (case (bun_part a, bun_part b, bun_part c) of
                (Some x, Some y, Some z) \<Rightarrow>
                  if others \<noteq> [] then None else Some ([x, y, z], prerelease \<noteq> None)
              | _ \<Rightarrow> None)
         | _ \<Rightarrow> None)"

definition bun_version_admitted :: "nat list \<times> bool \<Rightarrow> bool" where
  "bun_version_admitted version \<longleftrightarrow> \<not> snd version \<and> fst version \<ge> [1, 3, 14]"

definition bun_availability :: "string option \<Rightarrow> bool \<Rightarrow> string" where
  "bun_availability observed executable_missing =
     (if executable_missing then ''missing''
      else if opt_ex bun_version_admitted (Option.bind observed parse_bun_semver) then ''available''
      else ''incompatible'')"

section \<open>Probes\<close>

text \<open>The option a line of help advertises.\<close>

definition advertised_option :: "string \<Rightarrow> string option" where
  "advertised_option line0 =
     (let line = trim_start line0;
          long = (if starts_with ''-'' line \<and> \<not> starts_with ''--'' line then
              (case split_once (CHR '','') line of
                 None \<Rightarrow> None
               | Some (short, others) \<Rightarrow>
                   if length short \<noteq> 2 \<or> \<not> ascii_alphabetic (short ! 1) then None
                   else Some (trim_start others))
            else Some line)
      in case long of
           None \<Rightarrow> None
         | Some l \<Rightarrow>
             (let token = utf8_encode (takeWhile (\<lambda>c. \<not> (is_whitespace c \<or> c = 61)) (chars l)) in
              case strip_prefix ''--'' token of
                None \<Rightarrow> None
              | Some s \<Rightarrow>
                  if s \<noteq> [] \<and> list_all (\<lambda>b. ascii_lower b \<or> ascii_digit b \<or> b = CHR ''-'') s
                  then Some token else None))"

definition missing_codex_options :: "string \<Rightarrow> string list \<Rightarrow> string list" where
  "missing_codex_options help required =
     filter (\<lambda>option. option \<notin> set (List.map_filter advertised_option (str_lines help))) required"

record probe_outcome =
  po_exit_code :: int
  po_stdout :: string
  po_stderr :: string

definition needs_auth :: "installed_adapter \<Rightarrow> probe_outcome \<Rightarrow> runner_error" where
  "needs_auth a outcome =
     with_detail (with_detail (catalog HarnessNeedsAuth) ''adapterId'' (JStr (adapter_id a)))
       ''readinessProbeExitCode''
       (JNum (if 0 \<le> po_exit_code outcome then PosInt (nat (po_exit_code outcome))
              else NegInt (po_exit_code outcome)))"

definition classify_auth_probe ::
  "(string \<Rightarrow> json option) \<Rightarrow> installed_adapter \<Rightarrow> probe_outcome \<Rightarrow> runner_error + string" where
  "classify_auth_probe parse a outcome =
     (let normalized = map to_lower (po_stdout outcome @ [LF] @ po_stderr outcome);
          exited = (po_exit_code outcome = 0);
          answer = (\<lambda>ready. if ready then Inr ''ready'' else Inl (needs_auth a outcome))
      in case a of
           CodexExecJson \<Rightarrow>
             answer (exited \<and> contains_str ''logged in'' normalized
                     \<and> \<not> contains_str ''not logged in'' normalized)
         | ClaudePrintStreamJson \<Rightarrow>
             answer (exited \<and> Option.bind (Option.bind (parse (po_stdout outcome)) (\<lambda>v. jget v ''loggedIn'')) as_bool
                       = Some True)
         | _ \<Rightarrow>
             if exited \<and> (trim (po_stdout outcome) \<noteq> [] \<or> trim (po_stderr outcome) \<noteq> [])
             then Inr ''unknown'' else answer False)"

section \<open>Platforms\<close>

record host_platform =
  hp_os :: string
  hp_arch :: string
  hp_libc :: "string option"

definition normal_arch :: "string \<Rightarrow> string option" where
  "normal_arch arch =
     (if arch = ''aarch64'' \<or> arch = ''arm64'' then Some ''arm64''
      else if arch = ''x86_64'' \<or> arch = ''x64'' then Some ''x64'' else None)"

definition platform_candidates :: "host_platform \<Rightarrow> string list" where
  "platform_candidates host =
     (case normal_arch (hp_arch host) of
        None \<Rightarrow> []
      | Some arch \<Rightarrow>
          if hp_os host = ''macos'' \<or> hp_os host = ''darwin'' then [''darwin-'' @ arch]
          else if hp_os host = ''windows'' \<or> hp_os host = ''win32'' then [''win32-'' @ arch]
          else if hp_os host = ''linux'' then
            (case hp_libc host of Some libc \<Rightarrow> [''linux-'' @ arch @ ''-'' @ libc] | None \<Rightarrow> [])
            @ (if hp_libc host = Some ''gnu'' then [''linux-'' @ arch @ ''-musl''] else [])
            @ [''linux-'' @ arch]
          else [])"

definition assert_platform_supported ::
  "json \<Rightarrow> installed_adapter \<Rightarrow> host_platform \<Rightarrow> (runner_error + string) option" where
  "assert_platform_supported recipe a host =
     map_option (\<lambda>supported.
       case find (\<lambda>candidate. JStr candidate \<in> set supported) (platform_candidates host) of
         Some platform \<Rightarrow> Inr platform
       | None \<Rightarrow>
           Inl (with_detail (with_detail (with_detail (with_detail (with_detail (catalog error_code.HarnessIncompatible)
             ''adapterId'' (JStr (adapter_id a)))
             ''hostPlatform'' (JStr (if hp_os host = ''macos'' then ''darwin''
                else if hp_os host = ''windows'' then ''win32'' else hp_os host)))
             ''hostArchitecture'' (JStr (case normal_arch (hp_arch host) of Some x \<Rightarrow> x | None \<Rightarrow> hp_arch host)))
             ''supportedPlatforms'' (JArr supported)) ''fallbackAttempted'' (JBool False)))
       (Option.bind (pointer recipe [''support'', ''platforms'']) as_array)"

section \<open>Facts\<close>

lemma for_harness_of [simp]: "for_harness (harness_of a) = Some a"
  by (cases a) (simp_all add: for_harness_def all_adapters_def)

lemma for_harness_Some: "for_harness h = Some a \<longleftrightarrow> h = harness_of a"
proof
  assume "for_harness h = Some a"
  then show "h = harness_of a" by (auto simp: for_harness_def find_Some_iff)
qed simp

lemma default_group_known: "default_probe_auth_group a \<in> set (auth_profiles a)"
  by (cases a) simp_all

text \<open>A version and a floor in canonical form compare by their numbers.\<close>

lemma split_version: "split_on (\<lambda>c. c = CHR ''.'') (join ''.'' (map decimal [x, y, z])) = map decimal [x, y, z]"
proof -
  have "CHR ''.'' \<notin> set (decimal n)" for n
    using decimal_digits [of "CHR ''.''" n] by (auto simp: ascii_digit_def)
  then show ?thesis by (intro split_on_join) auto
qed


end
