(* ===== verification/Launch.thy ===== *)
theory Launch
  imports Adapters Host_Command Native_Records
begin

text \<open>
  The launch of an installed adapter (\<open>installed_adapters.rs\<close>): the environment its credential
  group admits (\<open>environment_policy\<close>, \<open>auth_readiness\<close>), the argument vector and standard input
  (\<open>prepare_launch\<close>), the limits of the operating system on arguments (\<open>assert_argv_limits\<close>), and
  the release of private files on a failure.  Private files and directories are created by
  \<open>prompt_files.rs\<close>; their paths, or the failure to create them, are the arguments \<open>private_io\<close>.
\<close>

section \<open>Credentials\<close>

definition base_environment :: "string list" where
  "base_environment =
     [''PATH'', ''HOME'', ''USER'', ''USERPROFILE'', ''SystemRoot'', ''WINDIR'', ''COMSPEC'', ''PATHEXT'',
      ''TMPDIR'', ''TMP'', ''TEMP'', ''LANG'', ''LC_ALL'', ''LC_CTYPE'', ''TZ'', ''XDG_CONFIG_HOME'',
      ''XDG_CACHE_HOME'', ''XDG_DATA_HOME'', ''SSH_AUTH_SOCK'', ''__CF_USER_TEXT_ENCODING'']"

definition version_probe_environment_names :: "string list" where
  "version_probe_environment_names =
     [''PATH'', ''PATHEXT'', ''SystemRoot'', ''WINDIR'', ''COMSPEC'', ''TMP'', ''TEMP'', ''TMPDIR'',
      ''LANG'', ''LC_ALL'', ''LC_CTYPE'', ''TZ'']"

definition credential_names :: "installed_adapter \<Rightarrow> string \<Rightarrow> string list option" where
  "credential_names a g =
     (let rpc = (a = PrimeRpc \<or> a = OmpRpc) in
      if a = AgentsSdkJsonl \<and> g = ''openai-api-key'' then Some [''OPENAI_API_KEY'']
      else if a = CodexExecJson \<and> g = ''cached-chatgpt-login'' then Some [''CODEX_HOME'', ''CODEX_SQLITE_HOME'']
      else if a = CodexExecJson \<and> g = ''openai-api-key''
        then Some [''CODEX_HOME'', ''CODEX_SQLITE_HOME'', ''OPENAI_API_KEY'']
      else if a = CodexExecJson \<and> g = ''codex-access-token''
        then Some [''CODEX_HOME'', ''CODEX_SQLITE_HOME'', ''CODEX_ACCESS_TOKEN'']
      else if a = ClaudePrintStreamJson \<and> g = ''claude-subscription'' \<or> a = PrimeRpc \<and> g = ''prime-harness-login''
          \<or> a = OmpRpc \<and> g = ''omp-harness-login'' then Some []
      else if a = ClaudePrintStreamJson \<and> g = ''anthropic-api-key'' \<or> a = PrimeRpc \<and> g = ''anthropic''
        then Some [''ANTHROPIC_API_KEY'']
      else if a = OmpRpc \<and> g = ''anthropic'' then Some [''ANTHROPIC_API_KEY'', ''ANTHROPIC_OAUTH_TOKEN'']
      else if rpc \<and> g = ''aws-bedrock''
        then Some [''AWS_ACCESS_KEY_ID'', ''AWS_SECRET_ACCESS_KEY'', ''AWS_SESSION_TOKEN'', ''AWS_PROFILE'',
                   ''AWS_REGION'', ''AWS_DEFAULT_REGION'']
      else if rpc \<and> g = ''github-copilot'' then Some [''GITHUB_TOKEN'', ''GH_TOKEN'', ''COPILOT_GITHUB_TOKEN'']
      else if rpc \<and> g = ''google''
        then Some [''GEMINI_API_KEY'', ''GOOGLE_APPLICATION_CREDENTIALS'', ''GOOGLE_CLOUD_PROJECT'',
                   ''GOOGLE_CLOUD_LOCATION'']
      else if rpc \<and> g = ''openai'' then Some [''OPENAI_API_KEY'']
      else if rpc \<and> g = ''openrouter'' then Some [''OPENROUTER_API_KEY'']
      else None)"

text \<open>
  A name is compared after \<open>to_string_lossy\<close>; a name that is not UTF-8 has a byte above 127 either way,
  so it never equals an ASCII name.
\<close>

definition service_credential_names :: "string list" where
  "service_credential_names = [''OPENPROSE_API_KEY'']"

definition is_service_credential_name :: "string \<Rightarrow> bool" where
  "is_service_credential_name name \<longleftrightarrow> list_ex (eq_ignore_ascii_case name) service_credential_names"

definition environment_name_matches :: "bool \<Rightarrow> string \<Rightarrow> string \<Rightarrow> bool" where
  "environment_name_matches windows actual expected \<longleftrightarrow>
     (if windows then eq_ignore_ascii_case actual expected else actual = expected)"

text \<open>A value is present; for the SDK a value of white space only does not count.\<close>

definition credential_present ::
  "bool \<Rightarrow> installed_adapter \<Rightarrow> (string \<times> string) list \<Rightarrow> string \<Rightarrow> bool" where
  "credential_present windows a ambient_pairs expected \<longleftrightarrow>
     list_ex (\<lambda>(name, v). environment_name_matches windows name expected
       \<and> (if a = AgentsSdkJsonl then \<not> (valid_utf8 v \<and> all_whitespace v) else v \<noteq> [])) ambient_pairs"

definition group_present ::
  "bool \<Rightarrow> installed_adapter \<Rightarrow> string \<Rightarrow> string list \<Rightarrow> (string \<times> string) list \<Rightarrow> bool" where
  "group_present windows a g names ambient_pairs \<longleftrightarrow>
     (let present = credential_present windows a ambient_pairs; rpc = (a = PrimeRpc \<or> a = OmpRpc) in
      if a = CodexExecJson \<and> g = ''openai-api-key'' then present ''OPENAI_API_KEY''
      else if a = CodexExecJson \<and> g = ''codex-access-token'' then present ''CODEX_ACCESS_TOKEN''
      else if rpc \<and> g = ''aws-bedrock''
        then present ''AWS_PROFILE'' \<or> present ''AWS_ACCESS_KEY_ID'' \<and> present ''AWS_SECRET_ACCESS_KEY''
      else if rpc \<and> g = ''google''
        then present ''GEMINI_API_KEY'' \<or> present ''GOOGLE_APPLICATION_CREDENTIALS''
      else list_ex present names)"

definition harness_login_groups :: "string list" where
  "harness_login_groups =
     [''cached-chatgpt-login'', ''claude-subscription'', ''prime-harness-login'', ''omp-harness-login'']"

definition auth_readiness ::
  "bool \<Rightarrow> installed_adapter \<Rightarrow> string \<Rightarrow> (string \<times> string) list \<Rightarrow> runner_error + string" where
  "auth_readiness windows a g ambient_pairs =
     (case credential_names a g of
        None \<Rightarrow> Inl (with_detail (with_detail (catalog ConfigInvalid) ''adapterId'' (JStr (adapter_id a)))
                  ''reason'' (JStr ''auth profile is not supported by the selected adapter''))
      | Some names \<Rightarrow>
          if g \<in> set harness_login_groups then Inr ''unknown''
          else if group_present windows a g names ambient_pairs then Inr ''unknown''
          else
            (let e = with_detail (with_detail (catalog HarnessNeedsAuth) ''adapterId'' (JStr (adapter_id a)))
                       ''authProfile'' (JStr g)
             in Inl (if a = AgentsSdkJsonl
                     then e\<lparr>re_action := ''Set OPENAI_API_KEY to an OpenAI API key in the process environment, then retry. No model request was sent.''\<rparr>
                     else e)))"

section \<open>The environment of a child\<close>

definition inherit_all :: "string list \<Rightarrow> sensitivity \<Rightarrow> environment_policy \<Rightarrow> environment_policy" where
  "inherit_all names s p = fold (\<lambda>name p. allow_inherited name s p) names p"

definition without_service_credentials :: "(string \<times> string) list \<Rightarrow> (string \<times> string) list" where
  "without_service_credentials ambient_pairs =
     filter (\<lambda>(name, _). \<not> is_service_credential_name name) ambient_pairs"

definition environment_policy_for ::
  "bool \<Rightarrow> installed_adapter \<Rightarrow> string \<Rightarrow> (string \<times> string) list \<Rightarrow> runner_error + environment_policy" where
  "environment_policy_for windows a g ambient_pairs =
     (case credential_names a g of
        None \<Rightarrow> Inl (with_detail (with_detail (catalog ConfigInvalid) ''adapterId'' (JStr (adapter_id a)))
                  ''reason'' (JStr ''auth profile does not select exactly one adapter credential group''))
      | Some credentials \<Rightarrow>
          (let kept = without_service_credentials ambient_pairs in
           bindE (auth_readiness windows a g kept) (\<lambda>_.
             Inr (inherit_all credentials Secret (inherit_all base_environment Public (from_pairs kept))))))"

definition version_probe_environment :: "(string \<times> string) list \<Rightarrow> environment_policy" where
  "version_probe_environment ambient_pairs =
     inherit_all version_probe_environment_names Public
       (from_pairs (without_service_credentials ambient_pairs))"

section \<open>Limits on arguments\<close>

definition max_argv_items :: nat where "max_argv_items = 64"
definition max_posix_argument_bytes :: nat where "max_posix_argument_bytes = 131071"
definition max_posix_argv_bytes :: nat where "max_posix_argv_bytes = 262144"
definition max_windows_argument_utf16_units :: nat where "max_windows_argument_utf16_units = 8191"
definition max_windows_argv_charged_utf16_units :: nat where "max_windows_argv_charged_utf16_units = 30000"

definition argv_error :: "installed_adapter \<Rightarrow> string \<Rightarrow> runner_error" where
  "argv_error a reason =
     with_detail (with_detail (catalog ConfigInvalid) ''adapterId'' (JStr (adapter_id a))) ''reason'' (JStr reason)"

definition charge_windows :: "installed_adapter \<Rightarrow> nat \<Rightarrow> string \<Rightarrow> runner_error + nat" where
  "charge_windows a charged argument =
     (if \<not> valid_utf8 argument then Inl (argv_error a ''installed-adapter argv is not Unicode on Windows'')
      else
        (let units = length (utf16_encode (chars argument)) in
         if units > max_windows_argument_utf16_units
         then Inl (argv_error a ''installed-adapter argument exceeds the Windows UTF-16 limit'')
         else Inr (saturating_add charged (saturating_add (saturating_mul units 2) 3))))"

definition charge_posix :: "installed_adapter \<Rightarrow> nat \<Rightarrow> string \<Rightarrow> runner_error + nat" where
  "charge_posix a charged argument =
     (let bytes = length argument in
      if bytes > max_posix_argument_bytes
      then Inl (argv_error a ''installed-adapter argument exceeds the POSIX byte limit'')
      else Inr (saturating_add charged (saturating_add bytes 1)))"

definition assert_argv_limits ::
  "installed_adapter \<Rightarrow> string \<Rightarrow> string list \<Rightarrow> host_platform \<Rightarrow> runner_error + unit" where
  "assert_argv_limits a executable argv host =
     (let arguments = executable # argv in
      if length arguments > max_argv_items
      then Inl (argv_error a ''installed-adapter argv contains too many arguments'')
      else if hp_os host = ''windows'' \<or> hp_os host = ''win32'' then
        bindE (foldE (charge_windows a) 0 arguments) (\<lambda>charged.
          require (charged \<le> max_windows_argv_charged_utf16_units)
            (argv_error a ''installed-adapter argv exceeds the conservative Windows command-line limit''))
      else
        bindE (foldE (charge_posix a) 0 arguments) (\<lambda>charged.
          require (charged \<le> max_posix_argv_bytes)
            (argv_error a ''installed-adapter argv exceeds the conservative POSIX byte limit'')))"

section \<open>Preparation\<close>

text \<open>
  What the operating system answers: the private directory with its image file, or whether its
  removal failed too; the control overlay and the credential directory inside it; whether closing
  the private files succeeds.
\<close>

record private_files =
  pf_directory :: string
  pf_image_path :: string

record private_io =
  io_files :: "bool + private_files"
  io_overlay :: "string option"
  io_credentials :: "string option"
  io_close :: bool
  io_join :: "string \<Rightarrow> string \<Rightarrow> string"

text \<open>The library and build inputs of a launch: JSON writers and the embedded Codex settings.\<close>

record launch_codec =
  lc_json_string :: "string \<Rightarrow> string"
  lc_json_object :: "(string \<times> string) list \<Rightarrow> string"
  lc_codex_settings :: "string list"

record launch_request =
  lr_executable :: string
  lr_cwd :: string
  lr_image :: string
  lr_task :: string
  lr_invocation :: string
  lr_model :: "string option"
  lr_group :: string

record prepared_launch =
  pl_adapter :: installed_adapter
  pl_executable :: string
  pl_argv :: "string list"
  pl_stdin :: "string option"
  pl_environment :: environment_policy
  pl_files :: "private_files option"
  pl_socket :: "string option"
  pl_credentials :: "string option"
  pl_overlay :: "string option"

definition private_file_cleanup_failure :: "installed_adapter \<Rightarrow> runner_error" where
  "private_file_cleanup_failure a =
     with_detail (with_detail (with_detail (with_detail (catalog ProcessCleanupFailed)
       ''phase'' (JStr ''private-file-finalization''))
       ''processResource'' (JStr ''owned-private-transport-files''))
       ''adapterId'' (JStr (adapter_id a))) ''fallbackAttempted'' (JBool False)"

definition reason_error :: "error_code \<Rightarrow> string \<Rightarrow> runner_error" where
  "reason_error c reason = with_detail (catalog c) ''reason'' (JStr reason)"

definition adapter_fault :: "installed_adapter \<Rightarrow> string \<Rightarrow> runner_error" where
  "adapter_fault a reason =
     with_detail (with_detail (catalog InternalRunnerFault) ''adapterId'' (JStr (adapter_id a)))
       ''reason'' (JStr reason)"

definition finalize_preparation_files ::
  "private_io \<Rightarrow> installed_adapter \<Rightarrow> private_files option \<Rightarrow> runner_error \<Rightarrow> runner_error" where
  "finalize_preparation_files io a files e =
     (if files \<noteq> None \<and> \<not> io_close io then private_file_cleanup_failure a else e)"

definition allocate_files :: "private_io \<Rightarrow> installed_adapter \<Rightarrow> runner_error + private_files" where
  "allocate_files io a =
     (case io_files io of
        Inr f \<Rightarrow> Inr f
      | Inl cleanup_failed \<Rightarrow>
          Inl (if cleanup_failed then private_file_cleanup_failure a
               else if a = PrimeRpc
               then adapter_fault PrimeRpc ''cannot allocate private Prime daemon socket directory''
               else reason_error InternalRunnerFault ''cannot create private installed-adapter input files''))"

definition append_model :: "string option \<Rightarrow> string list \<Rightarrow> string list" where
  "append_model model argv = argv @ (case model of None \<Rightarrow> [] | Some m \<Rightarrow> [''--model'', m])"

definition rpc_prompt ::
  "launch_codec \<Rightarrow> installed_adapter \<Rightarrow> string \<Rightarrow> string \<Rightarrow> runner_error + string" where
  "rpc_prompt lc a invocation message =
     (if \<not> valid_utf8 message then Inl (reason_error ImageInvalid ''RPC prompt is not canonical UTF-8'')
      else Inr (lc_json_object lc
             [(''id'', if a = PrimeRpc then invocation else omp_rpc_id invocation ''prompt.1''),
              (''message'', message), (''type'', ''prompt'')] @ [LF]))"

definition escape_delete :: "string \<Rightarrow> string" where
  "escape_delete s = concat (map (\<lambda>c. if code c = 0x7f then CHR 0x5C # ''u007f'' else [c]) s)"

definition codex_argv :: "launch_codec \<Rightarrow> launch_request \<Rightarrow> runner_error + string list" where
  "codex_argv lc r =
     (if \<not> valid_utf8 (lr_image r) then Inl (catalog ImageInvalid)
      else Inr (append_model (lr_model r)
         ([''exec'', ''-c'',
           ''developer_instructions='' @ escape_delete (lc_json_string lc (lr_image r)),
           ''--skip-git-repo-check'', ''--json'', ''--ephemeral'', ''--ignore-user-config'', ''--ignore-rules'']
          @ (if lr_group r = ''openai-api-key''
             then concat (map (\<lambda>s. [''-c'', s]) (lc_codex_settings lc)) else [])
          @ [''--cd'', lr_cwd r]) @ [''-'']))"

definition sdk_argv :: "launch_request \<Rightarrow> private_files \<Rightarrow> runner_error + string list" where
  "sdk_argv r files =
     (case lr_model r of
        None \<Rightarrow> Inl (reason_error ConfigInvalid ''Agents SDK requires an explicit model'')
      | Some model \<Rightarrow>
          Inr [''--cwd'', lr_cwd r, ''--instructions'', pf_image_path files, ''--model'', model,
               ''--prompt'', lr_task r])"

definition claude_argv :: "launch_request \<Rightarrow> private_files \<Rightarrow> string list" where
  "claude_argv r files =
     append_model (lr_model r)
       ((if lr_group r = ''anthropic-api-key'' then [''--bare''] else [])
        @ [''--safe-mode'', ''--print'', ''--output-format'', ''stream-json'', ''--verbose'',
           ''--no-session-persistence'', ''--append-system-prompt-file'', pf_image_path files])
     @ [lr_task r]"

definition prime_argv :: "private_io \<Rightarrow> launch_request \<Rightarrow> private_files \<Rightarrow> string list" where
  "prime_argv io r files =
     append_model (lr_model r)
       [''--mode'', ''rpc'', ''--no-session'', ''--no-extensions'', ''--no-skills'',
        ''--no-prompt-templates'', ''--no-themes'', ''--no-context-files'', ''--daemon-socket'',
        io_join io (pf_directory files) ''prime.sock'', ''--cwd'', lr_cwd r, ''--append-system-prompt'',
        lr_image r]"

definition omp_argv :: "launch_request \<Rightarrow> private_files \<Rightarrow> string \<Rightarrow> string list" where
  "omp_argv r files overlay =
     append_model (lr_model r)
       [''--mode'', ''rpc'', ''--no-session'', ''--no-extensions'', ''--no-skills'', ''--no-rules'',
        ''--no-lsp'', ''--no-title'', ''--append-system-prompt'', pf_image_path files]
     @ [''--config'', overlay]"

text \<open>The match over the adapter: arguments, standard input, files, socket and overlay.\<close>

record launch_plan =
  lp_argv :: "string list"
  lp_stdin :: "string option"
  lp_files :: "private_files option"
  lp_socket :: "string option"
  lp_overlay :: "string option"

definition nul_free :: "string \<Rightarrow> bool" where
  "nul_free s \<longleftrightarrow> CHR 0x00 \<notin> set s"

definition finalizing ::
  "private_io \<Rightarrow> installed_adapter \<Rightarrow> private_files option \<Rightarrow> runner_error + 'a \<Rightarrow> runner_error + 'a" where
  "finalizing io a files m =
     (case m of Inl e \<Rightarrow> Inl (finalize_preparation_files io a files e) | Inr x \<Rightarrow> Inr x)"

definition plan_prime ::
  "launch_codec \<Rightarrow> private_io \<Rightarrow> launch_request \<Rightarrow> runner_error + launch_plan" where
  "plan_prime lc io r =
     bindE (require (valid_utf8 (lr_image r))
       (reason_error ImageInvalid ''model-visible image bytes are not canonical UTF-8'')) (\<lambda>_.
     bindE (require (nul_free (lr_image r))
       (reason_error ImageInvalid ''model-visible image contains NUL'')) (\<lambda>_.
     bindE (allocate_files io PrimeRpc) (\<lambda>files.
     bindE (finalizing io PrimeRpc (Some files) (rpc_prompt lc PrimeRpc (lr_invocation r) (lr_task r))) (\<lambda>stdin.
       Inr \<lparr>lp_argv = prime_argv io r files, lp_stdin = Some stdin, lp_files = Some files,
            lp_socket = Some (io_join io (pf_directory files) ''prime.sock''), lp_overlay = None\<rparr>))))"

definition plan_omp ::
  "launch_codec \<Rightarrow> private_io \<Rightarrow> launch_request \<Rightarrow> runner_error + launch_plan" where
  "plan_omp lc io r =
     bindE (allocate_files io OmpRpc) (\<lambda>files.
     bindE (finalizing io OmpRpc (Some files) (ok_or (adapter_fault OmpRpc ''cannot create private OMP control overlay'')
       (io_overlay io))) (\<lambda>overlay.
     bindE (finalizing io OmpRpc (Some files) (rpc_prompt lc OmpRpc (lr_invocation r) (lr_task r))) (\<lambda>stdin.
       Inr \<lparr>lp_argv = omp_argv r files overlay, lp_stdin = Some stdin, lp_files = Some files,
            lp_socket = None, lp_overlay = Some overlay\<rparr>)))"

definition plan_launch ::
  "launch_codec \<Rightarrow> private_io \<Rightarrow> installed_adapter \<Rightarrow> launch_request \<Rightarrow> runner_error + launch_plan" where
  "plan_launch lc io a r =
     (case a of
        CodexExecJson \<Rightarrow>
          mapE (\<lambda>argv. \<lparr>lp_argv = argv, lp_stdin = Some (lr_task r), lp_files = None, lp_socket = None,
                        lp_overlay = None\<rparr>) (codex_argv lc r)
      | AgentsSdkJsonl \<Rightarrow>
          bindE (allocate_files io a) (\<lambda>files.
            mapE (\<lambda>argv. \<lparr>lp_argv = argv, lp_stdin = None, lp_files = Some files, lp_socket = None,
                          lp_overlay = None\<rparr>) (sdk_argv r files))
      | ClaudePrintStreamJson \<Rightarrow>
          mapE (\<lambda>files. \<lparr>lp_argv = claude_argv r files, lp_stdin = None, lp_files = Some files,
                         lp_socket = None, lp_overlay = None\<rparr>) (allocate_files io a)
      | PrimeRpc \<Rightarrow> plan_prime lc io r
      | OmpRpc \<Rightarrow> plan_omp lc io r)"

text \<open>The variable that points a harness at its private credential directory, if it has one.\<close>

definition credential_config_variable :: "installed_adapter \<Rightarrow> string \<Rightarrow> string option" where
  "credential_config_variable a g =
     (if a = PrimeRpc \<and> g = ''prime-harness-login'' \<or> a = OmpRpc \<and> g = ''omp-harness-login'' then None
      else if a = PrimeRpc then Some ''PRIME_AGENT_CODING_AGENT_DIR''
      else if a = OmpRpc then Some ''PI_CODING_AGENT_DIR'' else None)"

definition max_prime_inline_image_bytes :: nat where "max_prime_inline_image_bytes = 131072"

definition image_too_large :: "installed_adapter \<Rightarrow> string \<Rightarrow> runner_error" where
  "image_too_large a img =
     with_detail (with_detail (with_detail (catalog ImageTooLarge) ''adapterId'' (JStr (adapter_id a)))
       ''byteLength'' (JNum (PosInt (length img))))
       ''maximumBytes'' (JNum (PosInt max_prime_inline_image_bytes))"

definition finish_launch ::
  "private_io \<Rightarrow> host_platform \<Rightarrow> installed_adapter \<Rightarrow> launch_request \<Rightarrow> environment_policy \<Rightarrow> launch_plan
    \<Rightarrow> runner_error + prepared_launch" where
  "finish_launch io host a r environment plan =
     bindE (case credential_config_variable a (lr_group r) of
              None \<Rightarrow> Inr (environment, None)
            | Some name \<Rightarrow>
                mapE (\<lambda>directory. (set_variable name directory Secret environment, Some directory))
                  (finalizing io a (lp_files plan) (ok_or
                     (adapter_fault a ''cannot create private harness credential config directory'')
                     (io_credentials io)))) (\<lambda>(environment1, directory).
     let environment2 = (if a = PrimeRpc then set_variable ''PRIME_AGENT_TELEMETRY'' ''0'' Control environment1
                         else environment1)
     in bindE (finalizing io a (lp_files plan) (assert_argv_limits a (lr_executable r) (lp_argv plan) host)) (\<lambda>_.
        Inr \<lparr>pl_adapter = a, pl_executable = lr_executable r, pl_argv = lp_argv plan,
             pl_stdin = lp_stdin plan, pl_environment = environment2, pl_files = lp_files plan,
             pl_socket = lp_socket plan, pl_credentials = directory, pl_overlay = lp_overlay plan\<rparr>))"

definition prepare_launch ::
  "launch_codec \<Rightarrow> private_io \<Rightarrow> host_platform \<Rightarrow> installed_adapter \<Rightarrow> launch_request \<Rightarrow> environment_policy
    \<Rightarrow> runner_error + prepared_launch" where
  "prepare_launch lc io host a r environment =
     (if a = PrimeRpc \<and> length (lr_image r) > max_prime_inline_image_bytes
      then Inl (image_too_large a (lr_image r))
      else if \<not> valid_utf8 (lr_task r)
      then Inl (reason_error ImageInvalid ''task envelope is not canonical UTF-8'')
      else if \<not> nul_free (lr_task r) then Inl (reason_error ImageInvalid ''task envelope contains NUL'')
      else bindE (plan_launch lc io a r) (finish_launch io host a r environment))"

section \<open>Environments\<close>

lemma inherit_all_calls:
  "inherit_all names s p = fold apply_call (map (\<lambda>name. Inherit name s) names) p"
  by (induction names arbitrary: p) (simp_all add: inherit_all_def)

text \<open>What the entries of a policy may be: inherited values of named variables, or explicit ones.\<close>

fun call_covered :: "string list \<Rightarrow> (string \<times> string) list \<Rightarrow> policy_call \<Rightarrow> bool" where
  "call_covered names defined (Inherit name s) \<longleftrightarrow> name \<in> set names"
| "call_covered names defined (Define name v s) \<longleftrightarrow> (name, v) \<in> set defined"

definition covered ::
  "(string \<times> string) list \<Rightarrow> string list \<Rightarrow> (string \<times> string) list \<Rightarrow> environment_policy \<Rightarrow> bool" where
  "covered pairs names defined p \<longleftrightarrow>
     (\<exists>calls. p = fold apply_call calls (from_pairs pairs) \<and> list_all (call_covered names defined) calls)"

lemma call_covered_mono:
  "\<lbrakk>call_covered names defined c; set names \<subseteq> set names'; set defined \<subseteq> set defined'\<rbrakk>
    \<Longrightarrow> call_covered names' defined' c"
  by (cases c) auto

lemma covered_extend:
  assumes "covered pairs names defined p" "set names \<subseteq> set names'" "set defined \<subseteq> set defined'"
    and "list_all (call_covered names' defined') calls'"
  shows "covered pairs names' defined' (fold apply_call calls' p)"
proof -
  obtain calls where calls: "p = fold apply_call calls (from_pairs pairs)"
      "list_all (call_covered names defined) calls"
    using assms(1) unfolding covered_def by blast
  have "list_all (call_covered names' defined') (calls @ calls')"
    using calls(2) assms(2-4) call_covered_mono by (auto simp: list_all_iff)
  then show ?thesis unfolding covered_def calls(1) by (intro exI [of _ "calls @ calls'"]) simp
qed

lemma covered_from_pairs: "covered pairs [] [] (from_pairs pairs)"
  unfolding covered_def by (intro exI [of _ "[]"]) simp

lemma covered_inherit_all:
  "covered pairs names defined p \<Longrightarrow> covered pairs (names @ more_names) defined (inherit_all more_names s p)"
  unfolding inherit_all_calls by (erule covered_extend) (auto simp: list_all_iff)

lemma covered_set_variable:
  assumes "covered pairs names defined p"
  shows "covered pairs names ((name, v) # defined) (set_variable name v s p)"
  using covered_extend [OF assms, of names "(name, v) # defined" "[Define name v s]"] by auto

lemma covered_entry:
  assumes "covered pairs names defined p" and "(name, v) \<in> set (entries p)"
  shows "(name, v) \<in> set defined \<or> name \<in> set names \<and> (name, v) \<in> set pairs"
proof -
  obtain calls where calls: "p = fold apply_call calls (from_pairs pairs)"
      "list_all (call_covered names defined) calls"
    using assms(1) unfolding covered_def by blast
  have ok: "policy_ok pairs calls p" unfolding calls(1) by (rule policy_ok_calls)
  then have inv: "bt_invar (allowed p)" by (simp add: policy_ok_def)
  obtain e where e: "bt_get (allowed p) name = Some e" "ev_value e = v"
    using assms(2) bt_get_mem [OF inv] by (force simp: entries_def)
  consider (explicit) "Define name v (ev_sensitivity e) \<in> set calls"
    | (inherited) "Inherit name (ev_sensitivity e) \<in> set calls" "map_of (rev pairs) name = Some v"
    using ok e unfolding policy_ok_def by blast
  then show ?thesis
  proof cases
    case explicit
    with calls(2) have "call_covered names defined (Define name v (ev_sensitivity e))"
      unfolding list_all_iff by blast
    then show ?thesis by simp
  next
    case inherited
    with calls(2) have "call_covered names defined (Inherit name (ev_sensitivity e))"
      unfolding list_all_iff by blast
    then show ?thesis using map_of_SomeD [OF inherited(2)] by simp
  qed
qed

text \<open>Every named variable that is set is inherited.\<close>

lemma inherit_all_get:
  "bt_get (allowed (inherit_all names s p)) name =
     (if name \<in> set names \<and> bt_get (ambient p) name \<noteq> None
      then Some \<lparr>ev_value = the (bt_get (ambient p) name), ev_sensitivity = s\<rparr>
      else bt_get (allowed p) name)"
proof (induction names arbitrary: p)
  case Nil
  then show ?case by (simp add: inherit_all_def)
next
  case (Cons n names)
  have "inherit_all (n # names) s p = inherit_all names s (allow_inherited n s p)"
    by (simp add: inherit_all_def)
  moreover have "ambient (allow_inherited n s p) = ambient p"
    by (simp add: allow_inherited_def split: option.split)
  ultimately show ?case
    using Cons by (auto simp: allow_inherited_def bt_get_insert split: option.split)
qed

lemma inherited_entry:
  assumes "bt_get (ambient p) name = Some v" and "name \<in> set names"
  shows "(name, v) \<in> set (entries (inherit_all names s p))"
proof -
  have "bt_get (allowed (inherit_all names s p)) name = Some \<lparr>ev_value = v, ev_sensitivity = s\<rparr>"
    using assms by (simp add: inherit_all_get)
  from map_of_SomeD [OF this] show ?thesis by (force simp: entries_def)
qed

lemma environment_policy_covered:
  assumes "environment_policy_for windows a g pairs = Inr p"
  shows "\<exists>names. credential_names a g = Some names
    \<and> covered (without_service_credentials pairs) (base_environment @ names) [] p"
proof -
  obtain names where n: "credential_names a g = Some names"
    using assms by (auto simp: environment_policy_for_def split: option.splits)
  then have "p = inherit_all names Secret (inherit_all base_environment Public
      (from_pairs (without_service_credentials pairs)))"
    using assms by (auto simp: environment_policy_for_def Let_def bindE_eq_Inr)
  then show ?thesis
    using n covered_inherit_all [OF covered_inherit_all [OF covered_from_pairs]] by auto
qed

definition runner_variables :: "string list" where
  "runner_variables = [''PRIME_AGENT_CODING_AGENT_DIR'', ''PI_CODING_AGENT_DIR'', ''PRIME_AGENT_TELEMETRY'']"

lemma finish_launch_environment:
  assumes "finish_launch io host a r p plan = Inr l" and "covered pairs names [] p"
  shows "\<exists>defined. covered pairs names defined (pl_environment l) \<and> fst ` set defined \<subseteq> set runner_variables"
proof -
  obtain p1 d where p1: "covered pairs names d p1" "fst ` set d \<subseteq> set runner_variables"
      and l: "pl_environment l = (if a = PrimeRpc then set_variable ''PRIME_AGENT_TELEMETRY'' ''0'' Control p1 else p1)"
  proof (cases "credential_config_variable a (lr_group r)")
    case None
    then have "pl_environment l = (if a = PrimeRpc then set_variable ''PRIME_AGENT_TELEMETRY'' ''0'' Control p else p)"
      using assms(1) by (auto simp: finish_launch_def Let_def bindE_eq_Inr)
    then show thesis using that [OF assms(2)] by simp
  next
    case (Some name)
    obtain v where "pl_environment l =
        (if a = PrimeRpc then set_variable ''PRIME_AGENT_TELEMETRY'' ''0'' Control (set_variable name v Secret p)
         else set_variable name v Secret p)"
      using assms(1) Some by (auto simp: finish_launch_def Let_def bindE_eq_Inr mapE_eq_Inr)
    moreover have "name \<in> set runner_variables"
      using Some by (auto simp: credential_config_variable_def runner_variables_def split: if_splits)
    ultimately show thesis using that [OF covered_set_variable [OF assms(2)], of name v Secret] by simp
  qed
  show ?thesis
  proof (cases "a = PrimeRpc")
    case True
    have "fst ` set ((''PRIME_AGENT_TELEMETRY'', ''0'') # d) \<subseteq> set runner_variables"
      using p1(2) by (simp add: runner_variables_def)
    then show ?thesis using covered_set_variable [OF p1(1), of "''PRIME_AGENT_TELEMETRY''" "''0''" Control] l True
      by metis
  next
    case False
    then show ?thesis using p1 l by auto
  qed
qed

lemma prepare_launch_finish:
  "prepare_launch lc io host a r p = Inr l \<Longrightarrow> \<exists>plan. finish_launch io host a r p plan = Inr l"
  by (auto simp: prepare_launch_def bindE_eq_Inr split: if_splits)

section \<open>Limits\<close>

lemma charge_posix_total:
  "foldE (charge_posix a) acc args = Inr t \<Longrightarrow>
     list_all (\<lambda>x. length x \<le> max_posix_argument_bytes) args
     \<and> min (acc + sum_list (map (\<lambda>x. length x + 1) args)) u64_max \<le> t"
proof (induction args arbitrary: acc)
  case Nil
  then show ?case by simp
next
  case (Cons x args)
  then obtain acc' where acc': "charge_posix a acc x = Inr acc'" "foldE (charge_posix a) acc' args = Inr t"
    by (auto simp: bindE_eq_Inr)
  then have "acc' = min (acc + min (length x + 1) u64_max) u64_max" "length x \<le> max_posix_argument_bytes"
    by (auto simp: charge_posix_def Let_def saturating_add_def split: if_splits)
  with Cons.IH [OF acc'(2)] show ?case by auto
qed

text \<open>Arguments of at most 131071 bytes in all are accepted.\<close>

lemma charge_posix_complete:
  "acc + sum_list (map (\<lambda>x. length x + 1) args) \<le> 131071 \<Longrightarrow>
     foldE (charge_posix a) acc args = Inr (acc + sum_list (map (\<lambda>x. length x + 1) args))"
proof (induction args arbitrary: acc)
  case Nil
  then show ?case by simp
next
  case (Cons x args)
  have "charge_posix a acc x = Inr (acc + length x + 1)"
    using Cons.prems by (simp add: charge_posix_def Let_def max_posix_argument_bytes_def saturating_add_def)
  with Cons.IH [of "acc + length x + 1"] Cons.prems show ?case by simp
qed

lemma posix_limits_complete:
  assumes "hp_os host \<noteq> ''windows''" "hp_os host \<noteq> ''win32''" "length (x # args) \<le> 64"
    and "sum_list (map (\<lambda>x. length x + 1) (x # args)) \<le> 131071"
  shows "assert_argv_limits a x args host = Inr ()"
  using assms charge_posix_complete [of 0 "x # args" a]
  by (simp add: assert_argv_limits_def Let_def max_argv_items_def max_posix_argv_bytes_def del: foldE.simps)

lemma charge_windows_total:
  "foldE (charge_windows a) acc args = Inr t \<Longrightarrow>
     list_all valid_utf8 args
     \<and> min (acc + sum_list (map (\<lambda>x. 2 * length (utf16_encode (chars x)) + 3) args)) u64_max \<le> t"
proof (induction args arbitrary: acc)
  case Nil
  then show ?case by simp
next
  case (Cons x args)
  then obtain acc' where acc': "charge_windows a acc x = Inr acc'" "foldE (charge_windows a) acc' args = Inr t"
    by (auto simp: bindE_eq_Inr)
  then have "acc' = min (acc + min (min (length (utf16_encode (chars x)) * 2) u64_max + 3) u64_max) u64_max"
      "valid_utf8 x"
    by (auto simp: charge_windows_def Let_def saturating_add_def saturating_mul_def split: if_splits)
  with Cons.IH [OF acc'(2)] show ?case by auto
qed

lemma utf16_length_Cons: "length (utf16_encode (c # cs)) = length (utf16_char c) + length (utf16_encode cs)"
  by (simp add: utf16_encode_Cons)

lemma utf16_length_units [simp]: "length (utf16_char BSLASH) = 1" "length (utf16_char DQUOTE) = 1"
  "length (utf16_char 32) = 1"
  by (simp_all add: utf16_char_def BSLASH_def DQUOTE_def)

lemma utf16_length_replicate [simp]: "length (utf16_encode (replicate n BSLASH)) = n"
  by (induction n) (simp_all add: utf16_encode_def)

lemma utf16_encode_Nil [simp]: "utf16_encode [] = []"
  by (simp add: utf16_encode_def)

text \<open>Quoting at most doubles an argument and adds two marks.\<close>

lemma quote_loop_length: "length (utf16_encode (quote_loop n cs)) \<le> 2 * n + 2 * length (utf16_encode cs) + 1"
proof (induction n cs rule: quote_loop.induct)
  case (1 n)
  then show ?case by (simp add: utf16_length_Cons)
next
  case (2 n c cs)
  then show ?case by (auto simp: utf16_length_Cons)
qed

lemma quoted_length:
  "quote_windows_argument x = Inr q \<Longrightarrow> length (utf16_encode q) \<le> 2 * length (utf16_encode x) + 2"
  using quote_loop_length [of 0 x]
  by (auto simp: quote_windows_argument_def bindE_eq_Inr utf16_length_Cons split: if_splits)

lemma rendered_length:
  "render_arguments rendered args = Inr out
    \<Longrightarrow> length (utf16_encode out) \<le> length (utf16_encode rendered)
          + sum_list (map (\<lambda>x. 2 * length (utf16_encode x) + 3) args)"
proof (induction args arbitrary: rendered)
  case Nil
  then show ?case by simp
next
  case (Cons x args)
  then obtain q where q: "quote_windows_argument x = Inr q" "render_arguments (rendered @ 32 # q) args = Inr out"
    by (auto simp: bindE_eq_Inr)
  from Cons.IH [OF q(2)] quoted_length [OF q(1)] show ?case by (simp add: utf16_length_Cons)
qed

lemma quote_error:
  "quote_windows_argument x = Inl e \<Longrightarrow> e = verror ''PROTOCOL_MALFORMED'' ''argv'' ''NUL is forbidden''"
  by (auto simp: quote_windows_argument_def bindE_eq_Inl validate_utf16_input_def require_def split: if_splits)

lemma render_error:
  "render_arguments rendered args = Inl e \<Longrightarrow> e = verror ''PROTOCOL_MALFORMED'' ''argv'' ''NUL is forbidden''"
  by (induction args arbitrary: rendered) (auto simp: bindE_eq_Inl dest: quote_error)

lemma command_line_fits:
  assumes "2 * length (utf16_encode x) + 3 + sum_list (map (\<lambda>x. 2 * length (utf16_encode x) + 3) args) \<le> 30000"
  shows "case build_command_line x args of
      Inr line \<Rightarrow> length line \<le> 30000
    | Inl e \<Rightarrow> e = verror ''PROTOCOL_MALFORMED'' ''argv'' ''NUL is forbidden''"
proof (cases "quote_windows_argument x")
  case (Inl e)
  then show ?thesis using quote_error by (simp add: build_command_line_def)
next
  case first: (Inr q)
  show ?thesis
  proof (cases "render_arguments q args")
    case (Inl e)
    then show ?thesis using first render_error by (simp add: build_command_line_def)
  next
    case (Inr rendered)
    then have "length (utf16_encode rendered) + 1 \<le> 30000"
      using rendered_length [OF Inr] quoted_length [OF first] assms by simp
    then show ?thesis
      using first Inr by (simp add: build_command_line_def Let_def MAX_COMMAND_LINE_UTF16_UNITS_def)
  qed
qed

lemma prepare_launch_argv:
  assumes "prepare_launch lc io host a r p = Inr l"
  shows "assert_argv_limits a (pl_executable l) (pl_argv l) host = Inr ()"
proof -
  obtain plan where "finish_launch io host a r p plan = Inr l"
    using prepare_launch_finish [OF assms] by blast
  then show ?thesis
    by (auto simp: finish_launch_def Let_def bindE_eq_Inr finalizing_def split: sum.split_asm prod.split_asm)
qed

section \<open>Properties\<close>

text \<open>
  Property C19.  The service credential never reaches a harness: in the environment of a launch that
  starts from the policy of a credential group, no variable is named \<open>OPENPROSE_API_KEY\<close> in any
  case, and every variable is an inherited one of the base list or of the group, with its ambient
  value, or one of the three the runner sets itself.
\<close>

theorem service_credential_never_reaches_a_harness:
  assumes "environment_policy_for windows a g pairs = Inr p"
    and "prepare_launch lc io host a r p = Inr l"
    and "(name, v) \<in> set (entries (pl_environment l))"
  shows "\<not> is_service_credential_name name
    \<and> (name \<in> set runner_variables
       \<or> (name, v) \<in> set pairs
         \<and> (\<exists>names. credential_names a g = Some names \<and> name \<in> set (base_environment @ names)))"
proof -
  obtain names where n: "credential_names a g = Some names"
      "covered (without_service_credentials pairs) (base_environment @ names) [] p"
    using environment_policy_covered [OF assms(1)] by blast
  obtain defined where d: "covered (without_service_credentials pairs) (base_environment @ names) defined (pl_environment l)"
      "fst ` set defined \<subseteq> set runner_variables"
    using finish_launch_environment [OF _ n(2)] prepare_launch_finish [OF assms(2)] by blast
  have runner: "name' \<in> set runner_variables \<Longrightarrow> \<not> is_service_credential_name name'" for name'
    by (auto simp: runner_variables_def is_service_credential_name_def service_credential_names_def
        eq_ignore_ascii_case_def)
  consider "name \<in> set runner_variables"
    | "name \<in> set (base_environment @ names)" "(name, v) \<in> set (without_service_credentials pairs)"
    using covered_entry [OF d(1) assms(3)] d(2) by force
  then show ?thesis
  proof cases
    case 1
    then show ?thesis using runner by blast
  next
    case 2
    then show ?thesis using n(1) by (simp add: without_service_credentials_def)
  qed
qed

definition witness_io :: private_io where
  "witness_io =
     \<lparr>io_files = Inr \<lparr>pf_directory = ''/p'', pf_image_path = ''/p/i''\<rparr>, io_overlay = Some ''/p/o'',
      io_credentials = Some ''/p/c'', io_close = True, io_join = (\<lambda>a b. a @ ''/'' @ b)\<rparr>"

definition witness_codec :: launch_codec where
  "witness_codec =
     \<lparr>lc_json_string = (\<lambda>s. [CHR 0x22] @ s @ [CHR 0x22]), lc_json_object = concat \<circ> map snd,
      lc_codex_settings = []\<rparr>"

definition witness_request :: launch_request where
  "witness_request =
     \<lparr>lr_executable = ''claude'', lr_cwd = ''/w'', lr_image = ''i'', lr_task = ''t'', lr_invocation = ''n'',
      lr_model = None, lr_group = ''claude-subscription''\<rparr>"

definition witness_host :: host_platform where
  "witness_host = \<lparr>hp_os = ''linux'', hp_arch = ''x64'', hp_libc = None\<rparr>"

definition witness_policy :: environment_policy where
  "witness_policy = inherit_all [] Secret (inherit_all base_environment Public (from_pairs [(''PATH'', ''/b'')]))"

definition witness_launch :: prepared_launch where
  "witness_launch =
     \<lparr>pl_adapter = ClaudePrintStreamJson, pl_executable = ''claude'',
      pl_argv = claude_argv witness_request (projr (io_files witness_io)), pl_stdin = None,
      pl_environment = witness_policy, pl_files = Some (projr (io_files witness_io)), pl_socket = None,
      pl_credentials = None, pl_overlay = None\<rparr>"

lemma not_service_credential: "length name \<noteq> 17 \<Longrightarrow> \<not> is_service_credential_name name"
  by (auto simp: is_service_credential_name_def service_credential_names_def eq_ignore_ascii_case_def
      dest: map_eq_imp_length_eq)

lemma witness_policy_ok:
  "environment_policy_for False ClaudePrintStreamJson ''claude-subscription'' [(''PATH'', ''/b'')] = Inr witness_policy"
proof -
  have "without_service_credentials [(''PATH'', ''/b'')] = [(''PATH'', ''/b'')]"
    using not_service_credential [of "''PATH''"] by (simp add: without_service_credentials_def)
  then show ?thesis
    by (simp add: environment_policy_for_def witness_policy_def credential_names_def auth_readiness_def
        harness_login_groups_def)
qed

lemma witness_argv:
  "claude_argv witness_request (projr (io_files witness_io)) =
     [''--safe-mode'', ''--print'', ''--output-format'', ''stream-json'', ''--verbose'',
      ''--no-session-persistence'', ''--append-system-prompt-file'', ''/p/i'', ''t'']"
  by (simp add: claude_argv_def witness_request_def witness_io_def append_model_def)

lemma witness_limits:
  "assert_argv_limits ClaudePrintStreamJson ''claude'' (claude_argv witness_request (projr (io_files witness_io)))
     witness_host = Inr ()"
proof (rule posix_limits_complete)
  let ?args = "''claude'' # claude_argv witness_request (projr (io_files witness_io))"
  show "hp_os witness_host \<noteq> ''windows''" "hp_os witness_host \<noteq> ''win32''"
    by (simp_all add: witness_host_def)
  show "length ?args \<le> 64" unfolding witness_argv by simp
  show "sum_list (map (\<lambda>x. length x + 1) ?args) \<le> 131071" unfolding witness_argv by simp
qed

lemma witness_launch_ok:
  "prepare_launch witness_codec witness_io witness_host ClaudePrintStreamJson witness_request witness_policy
     = Inr witness_launch"
proof -
  have files: "allocate_files witness_io ClaudePrintStreamJson = Inr (projr (io_files witness_io))"
    by (simp add: allocate_files_def witness_io_def)
  have request: "lr_task witness_request = ''t''" "lr_executable witness_request = ''claude''"
      "lr_group witness_request = ''claude-subscription''"
    by (simp_all add: witness_request_def)
  have "valid_utf8 ''t''" by (rule valid_utf8_ascii) (simp add: is_ascii_def)
  moreover have "nul_free ''t''" by (simp add: nul_free_def)
  ultimately show ?thesis
    by (simp add: prepare_launch_def request plan_launch_def files finish_launch_def
        credential_config_variable_def Let_def witness_limits finalizing_def witness_launch_def)
qed

lemma witness_entry: "(''PATH'', ''/b'') \<in> set (entries (pl_environment witness_launch))"
proof -
  have "bt_get (ambient (from_pairs [(''PATH'', ''/b'')])) ''PATH'' = Some ''/b''" by simp
  then have "(''PATH'', ''/b'') \<in> set (entries (inherit_all base_environment Public (from_pairs [(''PATH'', ''/b'')])))"
    by (rule inherited_entry) (simp add: base_environment_def)
  then show ?thesis by (simp add: witness_launch_def witness_policy_def inherit_all_def)
qed

lemma service_credential_never_reaches_a_harness_witness:
  "\<not> is_service_credential_name ''PATH''
    \<and> (''PATH'' \<in> set runner_variables
       \<or> (''PATH'', ''/b'') \<in> set [(''PATH'', ''/b'')]
         \<and> (\<exists>names. credential_names ClaudePrintStreamJson ''claude-subscription'' = Some names
              \<and> ''PATH'' \<in> set (base_environment @ names)))"
  by (rule service_credential_never_reaches_a_harness [OF witness_policy_ok witness_launch_ok witness_entry])

text \<open>
  Property C20.  A prepared launch fits the operating system.  Elsewhere than on Windows it has at most
  64 arguments within the byte limits.  On Windows the charge of the limit is conservative: the
  process host renders these arguments into a command line of at most 30000 UTF-16 units, far from
  its own limit, and the only thing it can object to is a NUL.
\<close>

theorem launch_fits_the_system:
  assumes "prepare_launch lc io host a r p = Inr l"
  shows "length (pl_argv l) < 64
    \<and> (if hp_os host = ''windows'' \<or> hp_os host = ''win32''
       then (case build_command_line (chars (pl_executable l)) (map chars (pl_argv l)) of
               Inr line \<Rightarrow> length line \<le> 30000
             | Inl e \<Rightarrow> e = verror ''PROTOCOL_MALFORMED'' ''argv'' ''NUL is forbidden'')
       else list_all (\<lambda>x. length x \<le> 131071) (pl_executable l # pl_argv l)
         \<and> sum_list (map (\<lambda>x. length x + 1) (pl_executable l # pl_argv l)) \<le> 262144)"
proof -
  let ?args = "pl_executable l # pl_argv l"
  have lim: "assert_argv_limits a (pl_executable l) (pl_argv l) host = Inr ()"
    using prepare_launch_argv [OF assms] .
  then have count: "length (pl_argv l) < 64"
    by (auto simp: assert_argv_limits_def Let_def max_argv_items_def split: if_splits)
  show ?thesis
  proof (cases "hp_os host = ''windows'' \<or> hp_os host = ''win32''")
    case True
    with lim obtain t where t: "foldE (charge_windows a) 0 ?args = Inr t" "t \<le> 30000"
      by (auto simp: assert_argv_limits_def Let_def bindE_eq_Inr require_eq_Inr
          max_windows_argv_charged_utf16_units_def split: if_splits)
    then have "sum_list (map (\<lambda>x. 2 * length (utf16_encode (chars x)) + 3) ?args) \<le> 30000"
      using charge_windows_total [OF t(1)] by (simp add: min_def split: if_splits)
    then have "2 * length (utf16_encode (chars (pl_executable l))) + 3
        + sum_list (map (\<lambda>x. 2 * length (utf16_encode x) + 3) (map chars (pl_argv l))) \<le> 30000"
      by (simp add: comp_def)
    from command_line_fits [OF this] count True show ?thesis by simp
  next
    case False
    with lim obtain t where t: "foldE (charge_posix a) 0 ?args = Inr t" "t \<le> 262144"
      by (auto simp: assert_argv_limits_def Let_def bindE_eq_Inr require_eq_Inr
          max_posix_argv_bytes_def split: if_splits)
    then have "list_all (\<lambda>x. length x \<le> 131071) ?args
        \<and> sum_list (map (\<lambda>x. length x + 1) ?args) \<le> 262144"
      using charge_posix_total [OF t(1)] by (simp add: min_def max_posix_argument_bytes_def split: if_splits)
    with count False show ?thesis by simp
  qed
qed

lemma launch_fits_the_system_witness:
  "length (pl_argv witness_launch) < 64
    \<and> (if hp_os witness_host = ''windows'' \<or> hp_os witness_host = ''win32''
       then (case build_command_line (chars (pl_executable witness_launch)) (map chars (pl_argv witness_launch)) of
               Inr line \<Rightarrow> length line \<le> 30000
             | Inl e \<Rightarrow> e = verror ''PROTOCOL_MALFORMED'' ''argv'' ''NUL is forbidden'')
       else list_all (\<lambda>x. length x \<le> 131071) (pl_executable witness_launch # pl_argv witness_launch)
         \<and> sum_list (map (\<lambda>x. length x + 1) (pl_executable witness_launch # pl_argv witness_launch)) \<le> 262144)"
  by (rule launch_fits_the_system [OF witness_launch_ok])

end
