(* ===== verification/Flat_Toml.thy ===== *)
theory Flat_Toml
  imports Errors
begin

text \<open>
  The configuration file format of \<open>config.rs\<close>: one \<open>key = value\<close> per line, checked byte by byte
  before the TOML parser sees the file (\<open>validate_flat_toml\<close> and its scanners), and the durations
  and budgets a value may hold.  A cursor into a line is the rest of the line.  The parser of the
  \<open>toml\<close> crate is the argument \<open>parse_table\<close>.
\<close>

section \<open>Reading the file\<close>

definition file_config_keys :: "string list" where
  "file_config_keys =
     [''service_environment'', ''harness'', ''transport'', ''model'', ''timeout'', ''output'',
      ''color'', ''verbose'', ''auth_profile'', ''native_log'', ''output_contract'',
      ''permission_mode'', ''codex_compatibility'', ''native_max_turns'', ''native_timeout'',
      ''native_tool_timeout'', ''native_output_bytes'', ''native_profile'', ''native_add_dirs'',
      ''native_allow_tools'']"

definition config_line_error :: "string \<Rightarrow> nat \<Rightarrow> string \<Rightarrow> runner_error" where
  "config_line_error path line reason =
     with_detail (config_error reason) ''source'' (JStr (path @ '':'' @ decimal line))"

text \<open>The valid prefix of a byte string (\<open>Utf8Error::valid_up_to\<close>).\<close>

function valid_up_to :: "string \<Rightarrow> nat" where
  "valid_up_to [] = 0"
| "valid_up_to (a # s) =
     (case utf8_next (a # s) of
        None \<Rightarrow> 0
      | Some (_, s') \<Rightarrow> (length (a # s) - length s') + valid_up_to s')"
  by pat_completeness auto
termination
  by (relation "measure length") (use utf8_next_shorter in fastforce)+

definition decode_configuration :: "string \<Rightarrow> string \<Rightarrow> runner_error + string" where
  "decode_configuration bytes path =
     (if valid_utf8 bytes then Inr bytes
      else Inl (config_line_error path
             (length (filter (\<lambda>c. c = LF) (take (valid_up_to bytes) bytes)) + 1)
             ''Configuration file is not valid UTF-8.''))"

section \<open>Scanners\<close>

datatype file_value_kind = KString | KBoolean

definition horizontal_space :: "char \<Rightarrow> bool" where
  "horizontal_space b \<longleftrightarrow> b = CHR '' '' \<or> b = CHR 0x09"

definition trailing_content_is_allowed :: "string \<Rightarrow> nat \<Rightarrow> bool" where
  "trailing_content_is_allowed val offset =
     (case dropWhile horizontal_space (drop offset val) of [] \<Rightarrow> True | b # _ \<Rightarrow> b = CHR ''#'')"

definition DQ :: char where "DQ = CHR 0x22"
definition SQ :: char where "SQ = CHR 0x27"
definition BACKSLASH :: char where "BACKSLASH = CHR 0x5C"

definition config_control :: "char \<Rightarrow> bool" where
  "config_control b \<longleftrightarrow> code b \<le> 0x1f \<or> code b = 0x7f"

definition is_hexdigit :: "char \<Rightarrow> bool" where
  "is_hexdigit c \<longleftrightarrow> hex_value (code c) \<noteq> None"

definition hex_number :: "string \<Rightarrow> nat" where
  "hex_number ds = fold (\<lambda>d v. v * 16 + the (hex_value (code d))) ds 0"

definition simple_escapes :: string where
  "simple_escapes = DQ # BACKSLASH # ''btnfr''"

definition escape_width :: "char \<Rightarrow> nat" where
  "escape_width e = (if e = CHR ''u'' then 4 else 8)"

text \<open>The loop of \<open>scan_basic_string\<close> at an index, with the bytes from there on.\<close>

function (sequential) scan_basic_loop :: "nat \<Rightarrow> string \<Rightarrow> string + nat" where
  "scan_basic_loop i [] = Inl ''Basic string must close on the same physical line.''"
| "scan_basic_loop i (b # r) =
     (if b = DQ then Inr (i + 1)
      else if config_control b then Inl ''Configuration strings cannot contain control characters.''
      else if b = BACKSLASH then
        (case r of
           [] \<Rightarrow> Inl ''Basic string contains an unsupported escape.''
         | e # r' \<Rightarrow>
             if e \<in> set simple_escapes then scan_basic_loop (i + 2) r'
             else if e = CHR ''u'' \<or> e = CHR ''U'' then
               (let width = escape_width e in
                if length r' < width
                then Inl ''Basic string contains an invalid Unicode escape.''
                else if \<not> list_all is_hexdigit (take width r')
                then Inl ''Basic string contains an invalid Unicode escape.''
                else if \<not> scalar (hex_number (take width r'))
                then Inl ''Basic string contains an invalid Unicode escape.''
                else scan_basic_loop (i + 2 + width) (drop width r'))
             else Inl ''Basic string contains an unsupported escape.'')
      else scan_basic_loop (i + 1) r)"
  by pat_completeness auto
termination by (relation "measure (length \<circ> snd)") auto

definition scan_basic_string :: "string \<Rightarrow> string + nat" where
  "scan_basic_string val = scan_basic_loop 1 (drop 1 val)"

fun scan_literal_loop :: "nat \<Rightarrow> string \<Rightarrow> string + nat" where
  "scan_literal_loop i [] = Inl ''Literal string must close on the same physical line.''"
| "scan_literal_loop i (b # r) =
     (if b = SQ then Inr (i + 1)
      else if config_control b then Inl ''Configuration strings cannot contain control characters.''
      else scan_literal_loop (i + 1) r)"

definition scan_literal_string :: "string \<Rightarrow> string + nat" where
  "scan_literal_string val = scan_literal_loop 1 (drop 1 val)"

text \<open>\<open>u32::from_str_radix\<close> of at most eight digits stays in range.\<close>

lemma hex_number_bound: "list_all is_hexdigit ds \<Longrightarrow> hex_number ds < 16 ^ length ds"
proof (induction ds rule: rev_induct)
  case Nil
  show ?case by (simp add: hex_number_def)
next
  case (snoc d ds)
  have "the (hex_value (code d)) < 16"
    using snoc.prems by (auto simp: is_hexdigit_def hex_value_def split: if_splits)
  moreover have "hex_number ds < 16 ^ length ds" using snoc by simp
  moreover have "hex_number (ds @ [d]) = hex_number ds * 16 + the (hex_value (code d))"
    by (simp add: hex_number_def)
  ultimately show ?case by simp
qed

section \<open>Lines\<close>

text \<open>What the \<open>toml\<close> crate yields, as far as the code looks at it.\<close>

datatype toml = TStr string | TBool bool | TArr "toml list" | TOther

type_synonym toml_table = "(string, toml) btree"

fun toml_str :: "toml \<Rightarrow> string option" where
  "toml_str (TStr s) = Some s" | "toml_str _ = None"

fun toml_array :: "toml \<Rightarrow> toml list option" where
  "toml_array (TArr vs) = Some vs" | "toml_array _ = None"

definition array_keys :: "string list" where
  "array_keys = [''native_add_dirs'', ''native_allow_tools'']"

definition boolean_keys :: "string list" where
  "boolean_keys = [''color'', ''verbose'']"

definition key_start :: "char \<Rightarrow> bool" where
  "key_start b \<longleftrightarrow> ascii_alphabetic b \<or> b = CHR ''_''"

definition key_byte :: "char \<Rightarrow> bool" where
  "key_byte b \<longleftrightarrow> ascii_alphanumeric b \<or> b = CHR ''_''"

text \<open>The scalar at the start of a value: where it ends, whether it is a literal, its kind.\<close>

definition scan_value :: "string \<Rightarrow> string + (nat \<times> bool \<times> file_value_kind)" where
  "scan_value val =
     (if val \<noteq> [] \<and> hd val = DQ then mapE (\<lambda>n. (n, False, KString)) (scan_basic_string val)
      else if val \<noteq> [] \<and> hd val = SQ then mapE (\<lambda>n. (n, True, KString)) (scan_literal_string val)
      else if starts_with ''true'' val then Inr (4, False, KBoolean)
      else if starts_with ''false'' val then Inr (5, False, KBoolean)
      else Inl ''Configuration value must be true, false, or a single-line string.'')"

text \<open>The value of a key, on its line.\<close>

definition check_value :: "(string \<Rightarrow> toml_table option) \<Rightarrow> string \<Rightarrow> string \<Rightarrow> string \<Rightarrow> string + unit" where
  "check_value parse_table raw key val =
     (if key \<in> set array_keys then
        (case Option.bind (Option.bind (parse_table raw) (\<lambda>t. bt_get t key)) toml_array of
           None \<Rightarrow> Inl ''Expected a single-line string array.''
         | Some vs \<Rightarrow>
             if list_all (\<lambda>v. toml_str v \<noteq> None) vs then Inr () else Inl ''Expected a string array.'')
      else bindE (scan_value val) (\<lambda>(stop, literal, kind).
        if \<not> trailing_content_is_allowed val stop
        then Inl (if literal then ''Literal strings cannot contain apostrophes.''
                  else ''Unexpected content after configuration value.'')
        else if key \<in> set boolean_keys \<and> kind \<noteq> KBoolean
        then Inl (''Configuration key '' @ key @ '' requires a boolean value.'')
        else if key \<notin> set boolean_keys \<and> key \<noteq> ''service_environment'' \<and> kind \<noteq> KString
        then Inl (''Configuration key '' @ key @ '' requires a string value.'')
        else Inr ()))"

text \<open>One physical line.\<close>

definition check_line ::
  "(string \<Rightarrow> toml_table option) \<Rightarrow> string \<Rightarrow> (string, nat) btree \<Rightarrow> nat \<times> string
    \<Rightarrow> runner_error + (string, nat) btree" where
  "check_line parse_table path lines numbered =
     (case numbered of (line_number, raw_physical_line) \<Rightarrow>
      let fail = (\<lambda>reason. Inl (config_line_error path line_number reason));
          raw = drop_cr raw_physical_line;
          at_key = dropWhile horizontal_space raw
      in if CR \<in> set raw then fail ''Configuration line contains an unsupported carriage return.''
         else if at_key = [] \<or> hd at_key = CHR ''#'' then Inr lines
         else if \<not> key_start (hd at_key)
         then fail ''Configuration line must contain one known bare-key assignment.''
         else
           (let key = hd at_key # takeWhile key_byte (tl at_key);
                at_eq = dropWhile horizontal_space (dropWhile key_byte (tl at_key));
                val = dropWhile horizontal_space (tl at_eq)
            in if at_eq = [] \<or> hd at_eq \<noteq> CHR ''=''
               then fail ''Configuration line must contain one known bare-key assignment.''
               else if key \<notin> set file_config_keys then fail ''Configuration contains an unknown key.''
               else if bt_get lines key \<noteq> None
               then fail (''Duplicate configuration key: '' @ key @ ''.'')
               else case check_value parse_table raw key val of
                      Inl reason \<Rightarrow> fail reason
                    | Inr _ \<Rightarrow> Inr (bt_insert key line_number lines)))"

definition validate_flat_toml ::
  "(string \<Rightarrow> toml_table option) \<Rightarrow> string \<Rightarrow> string \<Rightarrow> runner_error + (string, nat) btree" where
  "validate_flat_toml parse_table source path =
     foldE (check_line parse_table path) [] (enumerate 1 (split_on (\<lambda>c. c = LF) source))"

text \<open>The raw values of a file.\<close>

datatype raw_setting = RText string | RBoolean bool | RList "string list"

record loaded_file_config =
  lf_values :: "(string, raw_setting) btree"
  lf_lines :: "(string, nat) btree"

fun raw_of_toml :: "toml \<Rightarrow> raw_setting option" where
  "raw_of_toml (TStr s) = Some (RText s)"
| "raw_of_toml (TBool b) = Some (RBoolean b)"
| "raw_of_toml (TArr vs) = Some (RList (List.map_filter toml_str vs))"
| "raw_of_toml TOther = None"

definition parse_file ::
  "(string \<Rightarrow> toml_table option) \<Rightarrow> string \<Rightarrow> string \<Rightarrow> runner_error + loaded_file_config" where
  "parse_file parse_table source path =
     bindE (validate_flat_toml parse_table source path) (\<lambda>lines.
     bindE (ok_or (config_line_error path 1
              ''Configuration does not match the supported flat TOML subset.'') (parse_table source))
       (\<lambda>table. Inr \<lparr>lf_values = List.map_filter (\<lambda>(k, v). map_option (Pair k) (raw_of_toml v)) table,
                    lf_lines = lines\<rparr>))"

section \<open>Durations and budgets\<close>

definition max_timeout_ms :: nat where "max_timeout_ms = 86400000"
definition max_safe_integer :: nat where "max_safe_integer = 9007199254740991"

definition positive_digits :: "string \<Rightarrow> bool" where
  "positive_digits n \<longleftrightarrow> n \<noteq> [] \<and> \<not> starts_with ''0'' n \<and> list_all ascii_digit n"

definition duration_units :: "(string \<times> nat) list" where
  "duration_units = [(''ms'', 1), (''s'', 1000), (''m'', 60000), (''h'', 3600000)]"

definition split_duration :: "string \<Rightarrow> (string \<times> nat) option" where
  "split_duration v =
     find_map (\<lambda>(suffix, u). map_option (\<lambda>n. (n, u)) (strip_suffix suffix v)) duration_units"

definition scaled :: "nat \<Rightarrow> string \<Rightarrow> nat \<Rightarrow> nat option" where
  "scaled maximum number u =
     Option.bind (parse_u64 number) (\<lambda>n. Option.bind (checked_mul n u)
       (\<lambda>ms. if ms \<le> maximum then Some ms else None))"

definition timeout_ms :: "string \<Rightarrow> string + nat" where
  "timeout_ms v =
     (let invalid = ''timeout must be a positive duration such as 30s or 10m.'' in
      case split_duration v of
        None \<Rightarrow> Inl invalid
      | Some (number, u) \<Rightarrow>
          if \<not> positive_digits number then Inl invalid
          else ok_or ''timeout must be at most 24h.'' (scaled max_timeout_ms number u))"

definition validate_native_turns :: "string \<Rightarrow> runner_error + nat" where
  "validate_native_turns v =
     (let e = config_error ''Native max turns must be a positive safe integer.'' in
      if \<not> positive_digits v then Inl e
      else ok_or e (Option.bind (parse_u64 v)
             (\<lambda>n. if n > 0 \<and> n \<le> max_safe_integer then Some n else None)))"

definition validate_native_timeout :: "string \<Rightarrow> runner_error + nat" where
  "validate_native_timeout v =
     (let invalid = config_error ''Native timeout must be a positive duration.'' in
      case split_duration v of
        None \<Rightarrow> Inl invalid
      | Some (n, m) \<Rightarrow>
          if \<not> positive_digits n then Inl invalid
          else ok_or (config_error ''Native timeout is outside the supported range.'')
                 (scaled max_safe_integer n m))"

definition validate_native_output_bytes :: "string \<Rightarrow> runner_error + nat" where
  "validate_native_output_bytes v =
     (let e = config_error ''Native output bytes must be decimal bytes from 1048576 through 268435456.'' in
      case validate_native_turns v of
        Inl _ \<Rightarrow> Inl e
      | Inr n \<Rightarrow> if 1048576 \<le> n \<and> n \<le> 268435456 then Inr n else Inl e)"

section \<open>The grammar of a file\<close>

text \<open>
  The abstract specification: a string value is a sequence of items between quotes, a line is
  blank, a comment or an assignment, and a file gives every key at most once.
\<close>

datatype item = Plain char | Escape char | Unicode char string

fun item_ok :: "item \<Rightarrow> bool" where
  "item_ok (Plain c) \<longleftrightarrow> c \<noteq> DQ \<and> c \<noteq> BACKSLASH \<and> \<not> config_control c"
| "item_ok (Escape e) \<longleftrightarrow> e \<in> set simple_escapes"
| "item_ok (Unicode e ds) \<longleftrightarrow>
     (e = CHR ''u'' \<and> length ds = 4 \<or> e = CHR ''U'' \<and> length ds = 8)
     \<and> list_all is_hexdigit ds \<and> scalar (hex_number ds)"

fun item_text :: "item \<Rightarrow> string" where
  "item_text (Plain c) = [c]"
| "item_text (Escape e) = [BACKSLASH, e]"
| "item_text (Unicode e ds) = BACKSLASH # e # ds"

definition items_text :: "item list \<Rightarrow> string" where
  "items_text its = concat (map item_text its)"

lemma items_text_simps [simp]: "items_text [] = []" "items_text (i # its) = item_text i @ items_text its"
  by (simp_all add: items_text_def)

lemma escape_facts: "CHR ''u'' \<notin> set simple_escapes" "CHR ''U'' \<notin> set simple_escapes"
  "\<not> config_control BACKSLASH" "BACKSLASH \<noteq> DQ" "\<not> config_control DQ" "\<not> config_control SQ"
  by (simp_all add: simple_escapes_def DQ_def SQ_def BACKSLASH_def config_control_def)

lemma scan_basic_sound:
  "scan_basic_loop i v = Inr n
    \<Longrightarrow> \<exists>its rest. list_all item_ok its \<and> v = items_text its @ DQ # rest
          \<and> n = i + length (items_text its) + 1"
proof (induction i v arbitrary: n rule: scan_basic_loop.induct)
  case (1 i)
  then show ?case by simp
next
  case (2 i b r)
  have ext: "\<exists>its rest. list_all item_ok its \<and> b # r = items_text its @ DQ # rest
          \<and> n = i + length (items_text its) + 1"
    if it: "item_ok it" "b # r = item_text it @ r'"
      and ih: "\<exists>its rest. list_all item_ok its \<and> r' = items_text its @ DQ # rest
          \<and> n = i + length (item_text it) + length (items_text its) + 1" for it r'
  proof -
    obtain its rest where "list_all item_ok its" "r' = items_text its @ DQ # rest"
        "n = i + length (item_text it) + length (items_text its) + 1"
      using ih by blast
    with it show ?thesis by (intro exI [of _ "it # its"] exI [of _ rest]) simp
  qed
  show ?case
  proof (cases "b = DQ")
    case True
    with "2.prems" show ?thesis by (intro exI [of _ "[]"] exI [of _ r]) simp
  next
    case notq: False
    with "2.prems" have ctl: "\<not> config_control b" by (auto split: if_splits)
    show ?thesis
    proof (cases "b = BACKSLASH")
      case False
      with "2.prems" notq ctl "2.IH"(3) show ?thesis
        by (intro ext [of "Plain b" r]) simp_all
    next
      case bs: True
      with "2.prems" notq ctl obtain e r' where r: "r = e # r'"
        by (cases r) auto
      show ?thesis
      proof (cases "e \<in> set simple_escapes")
        case True
        with "2.prems" notq ctl bs r "2.IH"(1) [of e r'] show ?thesis
          by (intro ext [of "Escape e" r']) simp_all
      next
        case False
        define w where "w = escape_width e"
        have u: "e = CHR ''u'' \<or> e = CHR ''U''" and len: "\<not> length r' < w"
          and hex: "list_all is_hexdigit (take w r')" and sc: "scalar (hex_number (take w r'))"
          and rec: "scan_basic_loop (i + 2 + w) (drop w r') = Inr n"
          using "2.prems" notq ctl bs r False by (auto simp: Let_def w_def split: if_splits)
        have "e = CHR ''u'' \<and> w = 4 \<or> e = CHR ''U'' \<and> w = 8"
          using u by (auto simp: w_def escape_width_def)
        then have "item_ok (Unicode e (take w r'))" using hex sc len by auto
        moreover have "\<exists>its rest. list_all item_ok its \<and> drop w r' = items_text its @ DQ # rest
            \<and> n = i + 2 + w + length (items_text its) + 1"
          using "2.IH"(2) [OF notq ctl bs r False u, of w] len hex sc rec by (simp add: w_def)
        ultimately show ?thesis
          using bs r len by (intro ext [of "Unicode e (take w r')" "drop w r'"]) auto
      qed
    qed
  qed
qed

lemma scan_basic_item:
  "item_ok it \<Longrightarrow> scan_basic_loop i (item_text it @ v) = scan_basic_loop (i + length (item_text it)) v"
  by (cases it) (auto simp: escape_facts Let_def escape_width_def)

lemma scan_basic_complete:
  "list_all item_ok its
    \<Longrightarrow> scan_basic_loop i (items_text its @ DQ # rest) = Inr (i + length (items_text its) + 1)"
proof (induction its arbitrary: i)
  case Nil
  show ?case by simp
next
  case (Cons it its)
  then show ?case by (simp add: scan_basic_item del: scan_basic_loop.simps)
qed

lemma scan_literal_iff:
  "scan_literal_loop i v = Inr n
    \<longleftrightarrow> (\<exists>cs rest. list_all (\<lambda>c. c \<noteq> SQ \<and> \<not> config_control c) cs \<and> v = cs @ SQ # rest
          \<and> n = i + length cs + 1)"
proof (induction i v arbitrary: n rule: scan_literal_loop.induct)
  case (1 i)
  show ?case by simp
next
  case (2 i b r)
  show ?case (is "?l \<longleftrightarrow> (\<exists>cs rest. ?P cs rest)")
  proof (cases "b = SQ \<or> config_control b")
    case True
    have "?P cs rest \<Longrightarrow> cs = [] \<and> b = SQ" for cs rest using True by (cases cs) auto
    moreover have "b = SQ \<Longrightarrow> n = i + 1 \<Longrightarrow> ?P [] r" by simp
    ultimately show ?thesis using True by (auto simp: escape_facts)
  next
    case False
    then have "?l \<longleftrightarrow> (\<exists>cs rest. list_all (\<lambda>c. c \<noteq> SQ \<and> \<not> config_control c) cs \<and> r = cs @ SQ # rest
          \<and> n = i + 1 + length cs + 1)"
      using "2.IH" by simp
    also have "\<dots> \<longleftrightarrow> (\<exists>cs rest. ?P (b # cs) rest)" using False by auto
    also have "\<dots> \<longleftrightarrow> (\<exists>cs rest. ?P cs rest)"
    proof
      assume "\<exists>cs rest. ?P cs rest"
      then obtain cs rest where p: "?P cs rest" by blast
      then show "\<exists>cs rest. ?P (b # cs) rest" using False by (cases cs) auto
    qed blast
    finally show ?thesis .
  qed
qed

text \<open>A scalar value: a basic string, a literal string or a boolean.\<close>

inductive lexeme :: "string \<Rightarrow> file_value_kind \<Rightarrow> bool" where
  basic: "list_all item_ok its \<Longrightarrow> lexeme (DQ # items_text its @ [DQ]) KString"
| literal: "list_all (\<lambda>c. c \<noteq> SQ \<and> \<not> config_control c) cs \<Longrightarrow> lexeme (SQ # cs @ [SQ]) KString"
| truth: "lexeme ''true'' KBoolean"
| falsehood: "lexeme ''false'' KBoolean"

definition key_admits :: "string \<Rightarrow> file_value_kind \<Rightarrow> bool" where
  "key_admits key kind \<longleftrightarrow>
     (if key \<in> set boolean_keys then kind = KBoolean
      else key = ''service_environment'' \<or> kind = KString)"

abbreviation hspaces :: "string \<Rightarrow> bool" where
  "hspaces w \<equiv> list_all horizontal_space w"

definition ends_line :: "string \<Rightarrow> bool" where
  "ends_line t \<longleftrightarrow> t = [] \<or> hd t = CHR ''#''"

inductive value_of :: "(string \<Rightarrow> toml_table option) \<Rightarrow> string \<Rightarrow> string \<Rightarrow> string \<Rightarrow> bool"
  for parse_table raw key where
  array: "\<lbrakk>key \<in> set array_keys; parse_table raw = Some t; bt_get t key = Some (TArr (map TStr ss))\<rbrakk>
    \<Longrightarrow> value_of parse_table raw key v"
| scalar: "\<lbrakk>key \<notin> set array_keys; lexeme lx kind; key_admits key kind; hspaces w; ends_line t\<rbrakk>
    \<Longrightarrow> value_of parse_table raw key (lx @ w @ t)"

inductive line_of :: "(string \<Rightarrow> toml_table option) \<Rightarrow> string \<Rightarrow> string option \<Rightarrow> bool" for parse_table where
  blank: "\<lbrakk>hspaces w; ends_line t; CR \<notin> set (w @ t)\<rbrakk> \<Longrightarrow> line_of parse_table (w @ t) None"
| assign: "\<lbrakk>hspaces w1; key \<in> set file_config_keys; hspaces w2; hspaces w3;
      v = [] \<or> \<not> horizontal_space (hd v); raw = w1 @ key @ w2 @ CHR ''='' # w3 @ v;
      CR \<notin> set raw; value_of parse_table raw key v\<rbrakk>
    \<Longrightarrow> line_of parse_table raw (Some key)"

inductive_cases lexemeE: "lexeme lx kind"
inductive_cases value_ofE: "value_of parse_table raw key v"
inductive_cases line_ofE: "line_of parse_table raw k"

lemma quotes_differ: "DQ \<noteq> SQ" "hd ''true'' \<noteq> DQ" "hd ''true'' \<noteq> SQ" "hd ''false'' \<noteq> DQ" "hd ''false'' \<noteq> SQ"
  by (simp_all add: DQ_def SQ_def)

lemma lexeme_booleans: "lexeme lx KBoolean \<longleftrightarrow> lx = ''true'' \<or> lx = ''false''"
  by (auto elim: lexemeE intro: lexeme.intros)

lemma scan_basic_string_iff:
  "scan_basic_string (DQ # v) = Inr n
    \<longleftrightarrow> (\<exists>its rest. list_all item_ok its \<and> v = items_text its @ DQ # rest
          \<and> n = length (items_text its) + 2)"
proof
  assume "scan_basic_string (DQ # v) = Inr n"
  then have "scan_basic_loop 1 v = Inr n" by (simp add: scan_basic_string_def)
  from scan_basic_sound [OF this]
  show "\<exists>its rest. list_all item_ok its \<and> v = items_text its @ DQ # rest
          \<and> n = length (items_text its) + 2" by auto
qed (auto simp: scan_basic_string_def scan_basic_complete)

lemma scan_literal_string_iff:
  "scan_literal_string (SQ # v) = Inr n
    \<longleftrightarrow> (\<exists>cs rest. list_all (\<lambda>c. c \<noteq> SQ \<and> \<not> config_control c) cs \<and> v = cs @ SQ # rest
          \<and> n = length cs + 2)"
  unfolding scan_literal_string_def by (simp add: scan_literal_iff)

lemma scan_value_sound:
  assumes "scan_value v = Inr (n, l, kind)"
  shows "\<exists>lx rest. lexeme lx kind \<and> v = lx @ rest \<and> n = length lx"
proof -
  consider (dq) r where "v = DQ # r" | (sq) r where "v = SQ # r"
    | (other) "\<not> (v \<noteq> [] \<and> hd v = DQ)" "\<not> (v \<noteq> [] \<and> hd v = SQ)"
    by (cases v) auto
  then show ?thesis
  proof cases
    case dq
    with assms obtain its rest where "list_all item_ok its" "r = items_text its @ DQ # rest"
        "n = length (items_text its) + 2" "kind = KString"
      by (auto simp: scan_value_def mapE_eq_Inr scan_basic_string_iff)
    with dq show ?thesis
      by (intro exI [of _ "DQ # items_text its @ [DQ]"] exI [of _ rest]) (simp add: lexeme.basic)
  next
    case sq
    with assms quotes_differ(1) obtain cs rest where
        "list_all (\<lambda>c. c \<noteq> SQ \<and> \<not> config_control c) cs" "r = cs @ SQ # rest"
        "n = length cs + 2" "kind = KString"
      by (auto simp: scan_value_def mapE_eq_Inr scan_literal_string_iff)
    with sq show ?thesis
      by (intro exI [of _ "SQ # cs @ [SQ]"] exI [of _ rest]) (simp add: lexeme.literal)
  next
    case other
    with assms consider "starts_with ''true'' v" "n = 4" "kind = KBoolean"
      | "starts_with ''false'' v" "n = 5" "kind = KBoolean"
      unfolding scan_value_def by (simp only: if_False split: if_split_asm) simp_all
    then show ?thesis
      by cases (auto simp: starts_with_iff lexeme_booleans)
  qed
qed

lemma scan_value_complete:
  assumes "lexeme lx kind"
  shows "\<exists>l. scan_value (lx @ rest) = Inr (length lx, l, kind)"
  using assms
proof (cases rule: lexeme.cases)
  case (basic its)
  then have "scan_basic_string (DQ # items_text its @ DQ # rest) = Inr (length (items_text its) + 2)"
    unfolding scan_basic_string_iff by blast
  with basic show ?thesis by (intro exI [of _ False]) (simp add: scan_value_def)
next
  case (literal cs)
  then have "scan_literal_string (SQ # cs @ SQ # rest) = Inr (length cs + 2)"
    unfolding scan_literal_string_iff by blast
  with literal quotes_differ(1) show ?thesis by (intro exI [of _ True]) (simp add: scan_value_def)
next
  case truth
  then show ?thesis by (intro exI [of _ False]) (simp add: scan_value_def starts_with_def DQ_def SQ_def)
next
  case falsehood
  then show ?thesis by (intro exI [of _ False]) (simp add: scan_value_def starts_with_def DQ_def SQ_def)
qed

lemma dropWhile_spaces:
  "hspaces w \<Longrightarrow> dropWhile horizontal_space (w @ t) = dropWhile horizontal_space t"
  by (induction w) auto

lemma hash_not_space: "\<not> horizontal_space (CHR ''#'')" "\<not> horizontal_space (CHR ''='')"
  by (simp_all add: horizontal_space_def)

lemma split_spaces: "\<exists>w t. v = w @ t \<and> hspaces w \<and> dropWhile horizontal_space v = t
    \<and> (t = [] \<or> \<not> horizontal_space (hd t))"
proof (intro exI conjI)
  show "v = takeWhile horizontal_space v @ dropWhile horizontal_space v" by simp
  show "hspaces (takeWhile horizontal_space v)"
    by (auto simp: list_all_iff dest: set_takeWhileD)
  show "dropWhile horizontal_space v = [] \<or> \<not> horizontal_space (hd (dropWhile horizontal_space v))"
    using hd_dropWhile [of horizontal_space v] by blast
qed simp

lemma trailing_iff:
  "trailing_content_is_allowed (lx @ r) (length lx) \<longleftrightarrow> (\<exists>w t. r = w @ t \<and> hspaces w \<and> ends_line t)"
proof -
  obtain w t where wt: "r = w @ t" "hspaces w" "dropWhile horizontal_space r = t"
    using split_spaces by blast
  have "trailing_content_is_allowed (lx @ r) (length lx) \<longleftrightarrow> ends_line t"
  proof -
    have "drop (length lx) (lx @ r) = r" by simp
    then show ?thesis
      unfolding trailing_content_is_allowed_def ends_line_def wt(3) by (simp only: wt(3)) (cases t; simp)
  qed
  moreover have "ends_line t" if "r = w' @ t'" "hspaces w'" "ends_line t'" for w' t'
  proof -
    have "dropWhile horizontal_space t' = t'"
      using that(3) hash_not_space(1) by (cases t') (auto simp: ends_line_def)
    then show ?thesis using that wt(3) by (simp add: dropWhile_spaces)
  qed
  ultimately show ?thesis using wt by blast
qed

lemma strings_of_array: "list_all (\<lambda>v. \<exists>s. toml_str v = Some s) vs \<longleftrightarrow> (\<exists>ss. vs = map TStr ss)"
proof
  assume "list_all (\<lambda>v. \<exists>s. toml_str v = Some s) vs"
  then show "\<exists>ss. vs = map TStr ss"
  proof (induction vs)
    case (Cons v vs)
    then obtain ss where "vs = map TStr ss" by auto
    moreover obtain x where "v = TStr x" using Cons.prems by (cases v) auto
    ultimately show ?case by (intro exI [of _ "x # ss"]) simp
  qed simp
next
  assume "\<exists>ss. vs = map TStr ss"
  then show "list_all (\<lambda>v. \<exists>s. toml_str v = Some s) vs" by (auto simp: list_all_iff)
qed

lemma toml_array_Some: "toml_array x = Some vs \<longleftrightarrow> x = TArr vs"
  by (cases x) auto

lemma check_value_iff: "check_value parse_table raw key v = Inr () \<longleftrightarrow> value_of parse_table raw key v"
proof (cases "key \<in> set array_keys")
  case True
  have "check_value parse_table raw key v = Inr ()
      \<longleftrightarrow> (\<exists>t ss. parse_table raw = Some t \<and> bt_get t key = Some (TArr (map TStr ss)))"
  proof (cases "Option.bind (Option.bind (parse_table raw) (\<lambda>t. bt_get t key)) toml_array")
    case None
    with True have "check_value parse_table raw key v \<noteq> Inr ()" by (simp add: check_value_def)
    with None show ?thesis by (auto simp: bind_eq_None_conv)
  next
    case (Some vs)
    then have arr: "\<exists>t. parse_table raw = Some t \<and> bt_get t key = Some (TArr vs)"
      by (auto simp: bind_eq_Some_conv toml_array_Some)
    have "check_value parse_table raw key v = Inr () \<longleftrightarrow> (\<exists>ss. vs = map TStr ss)"
      using True Some by (simp add: check_value_def strings_of_array)
    with arr show ?thesis by auto
  qed
  also have "\<dots> \<longleftrightarrow> value_of parse_table raw key v"
    using True by (auto elim!: value_ofE intro: value_of.array)
  finally show ?thesis .
next
  case False
  show ?thesis
  proof
    assume ok: "check_value parse_table raw key v = Inr ()"
    then obtain n l kind where sc: "scan_value v = Inr (n, l, kind)"
      using False by (auto simp: check_value_def bindE_eq_Inr)
    with ok False have tr: "trailing_content_is_allowed v n" and ka: "key_admits key kind"
      by (cases kind; auto simp: check_value_def key_admits_def split: if_splits)+
    obtain lx rest where lx: "lexeme lx kind" "v = lx @ rest" "n = length lx"
      using scan_value_sound [OF sc] by blast
    with tr obtain w t where "rest = w @ t" "hspaces w" "ends_line t"
      by (auto simp: trailing_iff)
    with lx ka False show "value_of parse_table raw key v" by (auto intro: value_of.scalar)
  next
    assume "value_of parse_table raw key v"
    then obtain lx kind w t where v: "v = lx @ w @ t" and lx: "lexeme lx kind"
      and ka: "key_admits key kind" and wt: "hspaces w" "ends_line t"
      using False by (auto elim: value_ofE)
    obtain l where "scan_value v = Inr (length lx, l, kind)"
      using scan_value_complete [OF lx] v by blast
    moreover have "trailing_content_is_allowed v (length lx)"
      unfolding v trailing_iff using wt by blast
    ultimately show "check_value parse_table raw key v = Inr ()"
      using False ka by (cases kind) (auto simp: check_value_def key_admits_def split: if_splits)
  qed
qed

lemma known_keys: "list_all (\<lambda>k. k \<noteq> [] \<and> key_start (hd k) \<and> list_all key_byte (tl k)) file_config_keys"
  by code_simp

lemma key_start_byte: "key_start b \<Longrightarrow> key_byte b"
  by (auto simp: key_start_def key_byte_def ascii_alphanumeric_def)

lemma not_key_byte: "horizontal_space b \<or> b = CHR ''='' \<or> b = CHR ''#'' \<Longrightarrow> \<not> key_byte b"
  by (auto simp: horizontal_space_def key_byte_def ascii_defs)

lemma known_key:
  assumes "key \<in> set file_config_keys"
  obtains b bs where "key = b # bs" "key_start b" "\<not> horizontal_space b" "b \<noteq> CHR ''#''" "list_all key_byte bs"
proof -
  have "key \<noteq> [] \<and> key_start (hd key) \<and> list_all key_byte (tl key)"
    using known_keys assms by (auto simp: list_all_iff)
  moreover then have "\<not> horizontal_space (hd key)" "hd key \<noteq> CHR ''#''"
    using key_start_byte not_key_byte by blast+
  ultimately show thesis using that by (cases key) auto
qed

text \<open>The key, the rest from the equals sign on, and the value, of a line that starts with a key.\<close>

lemma split_at_key:
  assumes "list_all key_byte bs" "hspaces w"
  shows "takeWhile key_byte (bs @ w @ CHR ''='' # r) = bs"
    and "dropWhile horizontal_space (dropWhile key_byte (bs @ w @ CHR ''='' # r)) = CHR ''='' # r"
proof -
  have stop: "takeWhile key_byte (w @ CHR ''='' # r) = []" "dropWhile key_byte (w @ CHR ''='' # r) = w @ CHR ''='' # r"
    using assms(2) not_key_byte by (cases w; auto)+
  have "\<And>x. x \<in> set bs \<Longrightarrow> key_byte x" using assms(1) by (simp add: list_all_iff)
  then show "takeWhile key_byte (bs @ w @ CHR ''='' # r) = bs"
      "dropWhile horizontal_space (dropWhile key_byte (bs @ w @ CHR ''='' # r)) = CHR ''='' # r"
    using assms(2) stop hash_not_space(2)
    by (simp_all add: takeWhile_append2 dropWhile_append2 dropWhile_spaces)
qed

lemma check_line_blank:
  assumes "line_of parse_table (drop_cr line) None"
  shows "check_line parse_table path lines (n, line) = Inr lines"
proof -
  obtain w t where l: "drop_cr line = w @ t" "hspaces w" "ends_line t" "CR \<notin> set (w @ t)"
    using assms by (auto elim: line_ofE)
  have "dropWhile horizontal_space t = t"
    using l(3) hash_not_space(1) by (cases t) (auto simp: ends_line_def)
  then have "dropWhile horizontal_space (drop_cr line) = t" using l by (simp add: dropWhile_spaces)
  then show ?thesis using l(3,4) by (simp add: check_line_def Let_def l(1) ends_line_def)
qed

lemma check_line_assign:
  assumes "line_of parse_table (drop_cr line) (Some key)"
  shows "check_line parse_table path lines (n, line) =
     (if bt_get lines key \<noteq> None
      then Inl (config_line_error path n (''Duplicate configuration key: '' @ key @ ''.''))
      else Inr (bt_insert key n lines))"
  using assms
proof (cases rule: line_of.cases)
  case (assign w1 w2 w3 v)
  note k = assign(2) and w = assign(1,3,4) and v = assign(5) and raw = assign(6) and cr = assign(7)
    and val = assign(8)
  obtain b bs where key: "key = b # bs" "key_start b" "\<not> horizontal_space b" "b \<noteq> CHR ''#''" "list_all key_byte bs"
    using known_key [OF k] by blast
  have at_key: "dropWhile horizontal_space (drop_cr line) = b # bs @ w2 @ CHR ''='' # w3 @ v"
    using w(1) key(1,3) by (simp add: raw dropWhile_spaces)
  have at_val: "dropWhile horizontal_space (w3 @ v) = v"
    using v w(3) by (cases v) (auto simp: dropWhile_spaces list_all_iff)
  have "check_value parse_table (drop_cr line) key v = Inr ()" using val by (simp add: check_value_iff)
  then show ?thesis
    using cr key(2,4) k
    by (simp add: check_line_def Let_def at_key split_at_key [OF key(5) w(2)] at_val key(1) [symmetric])
qed

lemma check_line_accepts:
  assumes "check_line parse_table path lines (n, line) = Inr lines'"
  shows "\<exists>k. line_of parse_table (drop_cr line) k"
proof -
  define raw where "raw = drop_cr line"
  obtain w1 at_key where k: "raw = w1 @ at_key" "hspaces w1" "dropWhile horizontal_space raw = at_key"
    using split_spaces by blast
  have cr: "CR \<notin> set raw" using assms by (auto simp: check_line_def Let_def raw_def)
  show ?thesis
  proof (cases "ends_line at_key")
    case True
    then show ?thesis using line_of.blank [OF k(2) True] cr k(1) by (auto simp: raw_def)
  next
    case False
    define key where "key = hd at_key # takeWhile key_byte (tl at_key)"
    define r where "r = dropWhile key_byte (tl at_key)"
    obtain w2 at_eq where e: "r = w2 @ at_eq" "hspaces w2" "dropWhile horizontal_space r = at_eq"
      using split_spaces by blast
    obtain w3 v where v: "tl at_eq = w3 @ v" "hspaces w3" "dropWhile horizontal_space (tl at_eq) = v"
        "v = [] \<or> \<not> horizontal_space (hd v)"
      using split_spaces by blast
    have ok: "at_eq \<noteq> []" "hd at_eq = CHR ''=''" "key \<in> set file_config_keys"
        "check_value parse_table raw key v = Inr ()"
      using assms False cr unfolding check_line_def Let_def raw_def [symmetric] k(3) key_def [symmetric]
        r_def [symmetric] e(3) v(3) prod.case
      by (simp_all add: ends_line_def split: if_split_asm sum.split_asm)
    have "at_key = key @ r" using False by (simp add: key_def r_def ends_line_def)
    then have "raw = w1 @ key @ w2 @ CHR ''='' # w3 @ v"
      using k(1) e(1) v(1) ok(1,2) by (cases at_eq) auto
    then have "line_of parse_table raw (Some key)"
      using k(2) e(2) v(2,4) ok(3,4) cr by (intro line_of.assign) (auto simp: check_value_iff)
    then show ?thesis by (auto simp: raw_def)
  qed
qed

text \<open>The keys of a file in order, and the table of their line numbers.\<close>

definition keys_of :: "string option list \<Rightarrow> string list" where
  "keys_of ks = List.map_filter id ks"

definition record_key :: "nat \<times> string option \<Rightarrow> (string, nat) btree \<Rightarrow> (string, nat) btree" where
  "record_key nk lines = (case nk of (n, None) \<Rightarrow> lines | (n, Some k) \<Rightarrow> bt_insert k n lines)"

lemma keys_of_simps [simp]:
  "keys_of [] = []" "keys_of (None # ks) = keys_of ks" "keys_of (Some k # ks) = k # keys_of ks"
  by (simp_all add: keys_of_def List.map_filter_def)

lemma record_key_simps [simp]:
  "record_key (n, None) lines = lines" "record_key (n, Some k) lines = bt_insert k n lines"
  by (simp_all add: record_key_def)

lemma bt_get_None: "bt_get lines k = None \<longleftrightarrow> k \<notin> set (bt_keys lines)"
  by (simp add: map_of_eq_None_iff image_iff)

lemma check_lines_iff:
  "foldE (check_line parse_table path) acc (enumerate n ls) = Inr lines
    \<longleftrightarrow> (\<exists>ks. list_all2 (line_of parse_table) (map drop_cr ls) ks \<and> distinct (keys_of ks)
          \<and> set (keys_of ks) \<inter> set (bt_keys acc) = {}
          \<and> lines = fold record_key (enumerate n ks) acc)"
    (is "?run acc n ls \<longleftrightarrow> (\<exists>ks. ?spec acc n ls ks)")
proof (induction ls arbitrary: acc n)
  case Nil
  show ?case by auto
next
  case (Cons l ls)
  let ?step = "check_line parse_table path acc (n, l)"
  show ?case
  proof
    assume "?run acc n (l # ls)"
    then obtain acc' where st: "?step = Inr acc'" and run: "?run acc' (Suc n) ls"
      by (auto simp: bindE_eq_Inr)
    obtain k where k: "line_of parse_table (drop_cr l) k" using check_line_accepts [OF st] by blast
    obtain ks where ks: "?spec acc' (Suc n) ls ks" using run Cons.IH by blast
    show "\<exists>ks. ?spec acc n (l # ls) ks"
    proof (cases k)
      case None
      then have "acc' = acc" using check_line_blank k st by auto
      then show ?thesis using ks k None by (intro exI [of _ "None # ks"]) simp
    next
      case (Some key)
      then have "acc' = bt_insert key n acc" "key \<notin> set (bt_keys acc)"
        using check_line_assign k st by (auto simp: bt_get_None split: if_splits)
      then show ?thesis using ks k Some set_bt_insert [of key n acc]
        by (intro exI [of _ "Some key # ks"]) auto
    qed
  next
    assume "\<exists>ks. ?spec acc n (l # ls) ks"
    then obtain k ks where spec: "?spec acc n (l # ls) (k # ks)"
      by (auto simp: list_all2_Cons1)
    show "?run acc n (l # ls)"
    proof (cases k)
      case None
      then have "?step = Inr acc" using check_line_blank spec by auto
      moreover have "?spec acc (Suc n) ls ks" using spec None by simp
      ultimately show ?thesis using Cons.IH by auto
    next
      case (Some key)
      then have "?step = Inr (bt_insert key n acc)"
        using check_line_assign spec by (auto simp: bt_get_None)
      moreover have "?spec (bt_insert key n acc) (Suc n) ls ks"
        using spec Some set_bt_insert [of key n acc] by auto
      ultimately show ?thesis using Cons.IH by auto
    qed
  qed
qed

lemma validate_flat_toml_iff:
  "validate_flat_toml parse_table source path = Inr lines
    \<longleftrightarrow> (\<exists>ks. list_all2 (line_of parse_table) (map drop_cr (split_on (\<lambda>c. c = LF) source)) ks
          \<and> distinct (keys_of ks) \<and> lines = fold record_key (enumerate 1 ks) [])"
  unfolding validate_flat_toml_def check_lines_iff by simp

section \<open>Durations\<close>

lemma decimal_digits_value: "positive_digits ds \<Longrightarrow> 0 < digits_value ds \<and> decimal (digits_value ds) = ds"
proof (induction ds rule: rev_induct)
  case Nil
  then show ?case by (simp add: positive_digits_def)
next
  case (snoc d ds)
  have d: "48 \<le> code d" "code d \<le> 57"
    using snoc.prems by (simp_all add: positive_digits_def ascii_digit_def)
  show ?case
  proof (cases "ds = []")
    case True
    have "code d \<noteq> 48"
      using snoc.prems True code_inject [of d "CHR ''0''"] by (auto simp: positive_digits_def starts_with_def)
    then have "0 < code d - 48" "code d - 48 < 10" "48 + (code d - 48) = code d" using d by auto
    with True show ?thesis by (subst decimal.simps) (simp add: digits_value_def del: diff_less_mono)
  next
    case False
    then have pd: "positive_digits ds"
      using snoc.prems by (cases ds) (auto simp: positive_digits_def starts_with_def)
    obtain x where x: "code d = 48 + x" "x < 10"
    proof
      show "code d = 48 + (code d - 48)" using d(1) by (rule le_add_diff_inverse [symmetric])
      show "code d - 48 < 10" using d by linarith
    qed
    have v: "digits_value (ds @ [d]) = 10 * digits_value ds + x" by (simp add: digits_value_snoc x)
    have "char_of (48 + x) = d" by (simp flip: x(1))
    then show ?thesis
      using snoc.IH [OF pd] x(2) unfolding v by (subst decimal.simps) simp
  qed
qed

lemma positive_digits_iff: "positive_digits ds \<longleftrightarrow> (\<exists>n. 0 < n \<and> ds = decimal n)"
proof
  assume "positive_digits ds"
  then show "\<exists>n. 0 < n \<and> ds = decimal n" by (metis decimal_digits_value)
next
  assume "\<exists>n. 0 < n \<and> ds = decimal n"
  then obtain n where n: "0 < n" "ds = decimal n" by blast
  then show "positive_digits ds"
    using decimal_Cons [OF n(1)] decimal_digits [of _ n]
    by (auto simp: positive_digits_def starts_with_def list_all_iff)
qed

text \<open>No digits end in a letter, so at most one unit leaves a number.\<close>

lemma digits_no_suffix: "positive_digits (ds @ [c]) \<Longrightarrow> ascii_digit c"
  by (simp add: positive_digits_def)

lemma split_duration_iff:
  "(\<exists>number. split_duration v = Some (number, u) \<and> positive_digits number \<and> P number)
    \<longleftrightarrow> (\<exists>number suffix. (suffix, u) \<in> set duration_units \<and> v = number @ suffix
          \<and> positive_digits number \<and> P number)"
proof -
  have no_m: "\<not> positive_digits (n @ ''m'')" for n
    using digits_no_suffix [of n "CHR ''m''"] by (auto simp: ascii_digit_def)
  have cases: "split_duration v = Some (number, u) \<longleftrightarrow>
     (case strip_suffix ''ms'' v of Some n \<Rightarrow> (n, 1) = (number, u) | None \<Rightarrow>
      case strip_suffix ''s'' v of Some n \<Rightarrow> (n, 1000) = (number, u) | None \<Rightarrow>
      case strip_suffix ''m'' v of Some n \<Rightarrow> (n, 60000) = (number, u) | None \<Rightarrow>
      case strip_suffix ''h'' v of Some n \<Rightarrow> (n, 3600000) = (number, u) | None \<Rightarrow> False)" for number
    by (simp add: split_duration_def duration_units_def split: option.split)
  have units: "(suffix, u) \<in> set duration_units \<longleftrightarrow> suffix = ''ms'' \<and> u = 1 \<or> suffix = ''s'' \<and> u = 1000
      \<or> suffix = ''m'' \<and> u = 60000 \<or> suffix = ''h'' \<and> u = 3600000" for suffix
    by (auto simp: duration_units_def)
  have strip: "strip_suffix p v = Some n \<longleftrightarrow> v = n @ p" "strip_suffix p v = None \<longleftrightarrow> \<not> (\<exists>n. v = n @ p)" for p n
    by (simp add: strip_suffix_Some, metis not_None_eq strip_suffix_Some)
  have excl: "n @ ''ms'' \<noteq> n' @ ''m''" "n @ ''ms'' \<noteq> n' @ ''h''" "n @ ''s'' \<noteq> n' @ ''m''"
      "n @ ''s'' \<noteq> n' @ ''h''" "n @ ''m'' \<noteq> n' @ ''h''" "n @ ''ms'' = n' @ ''s'' \<Longrightarrow> n' = n @ ''m''" for n n' :: string
    by (auto dest: arg_cong [of _ _ last])
  show ?thesis (is "?l \<longleftrightarrow> ?r")
  proof
    assume ?l
    then show ?r unfolding cases units by (auto simp: strip split: option.split_asm)
  next
    assume ?r
    then obtain number suffix where r: "v = number @ suffix" "positive_digits number" "P number"
      and s: "(suffix, u) \<in> set duration_units" by blast
    have none: "strip_suffix p v = None" if "\<And>n. n @ p \<noteq> v" for p
      using that strip(2) [of p] by blast
    have some: "strip_suffix suffix v = Some number" by (subst strip(1)) (rule r(1))
    from s consider "suffix = ''ms''" "u = 1" | "suffix = ''s''" "u = 1000"
      | "suffix = ''m''" "u = 60000" | "suffix = ''h''" "u = 3600000"
      unfolding units by blast
    then have "split_duration v = Some (number, u)"
    proof cases
      case 1
      then show ?thesis using some unfolding cases by simp
    next
      case 2
      have "n @ ''ms'' \<noteq> v" for n using excl(6) [of n number] no_m [of n] r(1,2) 2 by auto
      then show ?thesis using some none [of "''ms''"] 2 unfolding cases by simp
    next
      case 3
      have "n @ ''ms'' \<noteq> v" "n @ ''s'' \<noteq> v" for n using excl(1,3) r(1) 3 by auto
      then show ?thesis using some none [of "''ms''"] none [of "''s''"] 3 unfolding cases by simp
    next
      case 4
      have "n @ ''ms'' \<noteq> v" "n @ ''s'' \<noteq> v" "n @ ''m'' \<noteq> v" for n using excl(2,4,5) r(1) 4 by auto
      then show ?thesis
        using some none [of "''ms''"] none [of "''s''"] none [of "''m''"] 4 unfolding cases by simp
    qed
    with r show ?l by blast
  qed
qed

lemma scaled_iff:
  "scaled maximum (decimal n) u = Some ms \<longleftrightarrow> n \<le> u64_max \<and> ms = n * u \<and> ms \<le> u64_max \<and> ms \<le> maximum"
  by (auto simp: scaled_def parse_u64_decimal checked_mul_def)

lemma duration_unit_positive: "(suffix, u) \<in> set duration_units \<Longrightarrow> 1 \<le> u"
  by (auto simp: duration_units_def)

lemma scaled_duration_iff:
  assumes "maximum \<le> u64_max"
  shows "(\<exists>number u. split_duration v = Some (number, u) \<and> positive_digits number \<and> scaled maximum number u = Some ms)
    \<longleftrightarrow> (\<exists>n suffix u. 0 < n \<and> (suffix, u) \<in> set duration_units \<and> v = decimal n @ suffix
          \<and> ms = n * u \<and> ms \<le> maximum)"
proof -
  have le: "n \<le> u64_max" if "(suffix, u) \<in> set duration_units" "n * u \<le> maximum" for suffix n u
  proof -
    have "n * 1 \<le> n * u" using duration_unit_positive [OF that(1)] by (intro mult_le_mono) simp_all
    then show ?thesis using that(2) assms by linarith
  qed
  have bounded: "n \<le> u64_max \<and> ms = n * u \<and> ms \<le> u64_max \<and> ms \<le> maximum \<longleftrightarrow> ms = n * u \<and> ms \<le> maximum"
    if "(suffix, u) \<in> set duration_units" for suffix n u
    using le [OF that, of n] assms by auto
  have "(\<exists>number u. split_duration v = Some (number, u) \<and> positive_digits number \<and> scaled maximum number u = Some ms)
    \<longleftrightarrow> (\<exists>u number suffix. (suffix, u) \<in> set duration_units \<and> v = number @ suffix
          \<and> positive_digits number \<and> scaled maximum number u = Some ms)"
    by (subst ex_comm) (simp only: split_duration_iff)
  also have "\<dots> \<longleftrightarrow> (\<exists>n suffix u. 0 < n \<and> (suffix, u) \<in> set duration_units \<and> v = decimal n @ suffix
          \<and> scaled maximum (decimal n) u = Some ms)"
    unfolding positive_digits_iff by blast
  also have "\<dots> \<longleftrightarrow> (\<exists>n suffix u. 0 < n \<and> (suffix, u) \<in> set duration_units \<and> v = decimal n @ suffix
          \<and> ms = n * u \<and> ms \<le> maximum)"
    unfolding scaled_iff using bounded by blast
  finally show ?thesis .
qed

lemma timeout_ms_ok: "timeout_ms v = Inr ms \<longleftrightarrow> (\<exists>number u. split_duration v = Some (number, u)
    \<and> positive_digits number \<and> scaled max_timeout_ms number u = Some ms)"
  by (auto simp: timeout_ms_def Let_def ok_or_eq_Inr split: option.split if_splits)

lemma validate_native_timeout_ok: "validate_native_timeout v = Inr ms \<longleftrightarrow> (\<exists>number u. split_duration v = Some (number, u)
    \<and> positive_digits number \<and> scaled max_safe_integer number u = Some ms)"
  by (auto simp: validate_native_timeout_def Let_def ok_or_eq_Inr split: option.split if_splits)

lemma maxima: "max_timeout_ms \<le> u64_max" "max_safe_integer \<le> u64_max"
  by (simp_all add: max_timeout_ms_def max_safe_integer_def)

section \<open>Properties\<close>

text \<open>
   The scanners accept exactly the scalar values of the grammar: a value is accepted with
  an end and a kind iff it starts with a basic string, a literal string or a boolean of that kind,
  and the end is where that lexeme stops.
\<close>

theorem scanned_values_are_lexemes:
  "(\<exists>l. scan_value v = Inr (n, l, kind)) \<longleftrightarrow> (\<exists>lx rest. lexeme lx kind \<and> v = lx @ rest \<and> n = length lx)"
  using scan_value_sound scan_value_complete by blast

text \<open>
  Property C18.  A configuration file is accepted exactly when it is flat: every physical line is
  blank, a comment or one assignment of a known key to a value the key admits, and no key is given
  twice.  The table it yields gives every key the number of its line.
\<close>

theorem accepted_files_are_flat:
  "validate_flat_toml parse_table source path = Inr lines
    \<longleftrightarrow> (\<exists>ks. list_all2 (line_of parse_table) (map drop_cr (split_on (\<lambda>c. c = LF) source)) ks
          \<and> distinct (keys_of ks) \<and> lines = fold record_key (enumerate 1 ks) [])"
  by (rule validate_flat_toml_iff)

text \<open>
  The accepted timeouts are the positive decimal numbers with one of the four units, at
  most a day for a run and at most the largest safe integer for a native budget; the result is the
  product, without wrap-around.
\<close>

theorem timeouts_are_exact:
  "(timeout_ms v = Inr ms
      \<longleftrightarrow> (\<exists>n suffix u. 0 < n \<and> (suffix, u) \<in> set duration_units \<and> v = decimal n @ suffix
            \<and> ms = n * u \<and> ms \<le> 86400000))
    \<and> (validate_native_timeout v = Inr ms
      \<longleftrightarrow> (\<exists>n suffix u. 0 < n \<and> (suffix, u) \<in> set duration_units \<and> v = decimal n @ suffix
            \<and> ms = n * u \<and> ms \<le> 9007199254740991))"
  unfolding timeout_ms_ok validate_native_timeout_ok scaled_duration_iff [OF maxima(1)]
    scaled_duration_iff [OF maxima(2)]
  unfolding max_timeout_ms_def max_safe_integer_def
  by (rule conjI; rule refl)

end
