(* ===== verification/Config_Settings.thy ===== *)
theory Config_Settings
  imports Flat_Toml Adapters
begin

text \<open>
  The settings of a run (\<open>config.rs\<close>): the table \<open>SETTINGS\<close>, whose keys are a datatype, the values and
  sources of \<open>EffectiveConfig\<close>, the validation of one value (\<open>assign_setting\<close>), the history of every
  setting (\<open>record_candidates\<close>, \<open>finalize_candidates\<close>) and the report that goes with an error
  (\<open>configuration_explanation\<close>, \<open>explanation_error\<close>).  A path is its text.
\<close>

section \<open>Settings\<close>

datatype setting_key =
    Harness | Transport | Model | Timeout | Output | Color | Verbose | OutputContract
  | CodexCompatibility | PermissionMode | NativeMaxTurns | NativeTimeout | NativeToolTimeout
  | NativeOutputBytes | NativeProfile | NativeAddDirs | NativeAllowTools | NativeLog | AuthProfile

primrec setting_row :: "setting_key \<Rightarrow> string \<times> string \<times> string option \<times> string" where
  "setting_row Harness = (''harness'', ''harness'', Some ''PROSE_HARNESS'', ''--harness'')"
| "setting_row Transport = (''transport'', ''transport'', Some ''PROSE_TRANSPORT'', ''--transport'')"
| "setting_row Model = (''model'', ''model'', Some ''PROSE_MODEL'', ''--model'')"
| "setting_row Timeout = (''timeout'', ''timeout'', Some ''PROSE_TIMEOUT'', ''--timeout'')"
| "setting_row Output = (''output'', ''output'', Some ''PROSE_OUTPUT'', ''--output'')"
| "setting_row Color = (''color'', ''color'', Some ''PROSE_COLOR'', ''--no-color'')"
| "setting_row Verbose = (''verbose'', ''verbose'', Some ''PROSE_VERBOSE'', ''--verbose'')"
| "setting_row OutputContract =
     (''outputContract'', ''output_contract'', Some ''PROSE_OUTPUT_CONTRACT'', ''--output-contract'')"
| "setting_row CodexCompatibility =
     (''codexCompatibility'', ''codex_compatibility'', Some ''PROSE_CODEX_COMPATIBILITY'', ''--codex-compatibility'')"
| "setting_row PermissionMode =
     (''permissionMode'', ''permission_mode'', Some ''PROSE_PERMISSION_MODE'', ''--permission-mode'')"
| "setting_row NativeMaxTurns =
     (''nativeMaxTurns'', ''native_max_turns'', Some ''PROSE_NATIVE_MAX_TURNS'', ''--native-max-turns'')"
| "setting_row NativeTimeout =
     (''nativeTimeout'', ''native_timeout'', Some ''PROSE_NATIVE_TIMEOUT'', ''--native-timeout'')"
| "setting_row NativeToolTimeout =
     (''nativeToolTimeout'', ''native_tool_timeout'', Some ''PROSE_NATIVE_TOOL_TIMEOUT'', ''--native-tool-timeout'')"
| "setting_row NativeOutputBytes =
     (''nativeOutputBytes'', ''native_output_bytes'', Some ''PROSE_NATIVE_OUTPUT_BYTES'', ''--native-output-bytes'')"
| "setting_row NativeProfile =
     (''nativeProfile'', ''native_profile'', Some ''PROSE_NATIVE_PROFILE'', ''--native-profile'')"
| "setting_row NativeAddDirs = (''nativeAddDirs'', ''native_add_dirs'', None, ''--native-add-dir'')"
| "setting_row NativeAllowTools =
     (''nativeAllowTools'', ''native_allow_tools'', None, ''--native-allow-tool'')"
| "setting_row NativeLog = (''nativeLog'', ''native_log'', Some ''PROSE_NATIVE_LOG'', ''--native-log'')"
| "setting_row AuthProfile = (''authProfile'', ''auth_profile'', Some ''PROSE_AUTH_PROFILE'', ''--auth-profile'')"

definition key_name :: "setting_key \<Rightarrow> string" where "key_name k = fst (setting_row k)"
definition file_key :: "setting_key \<Rightarrow> string" where "file_key k = fst (snd (setting_row k))"
definition variable_of :: "setting_key \<Rightarrow> string option" where "variable_of k = fst (snd (snd (setting_row k)))"
definition flag_of :: "setting_key \<Rightarrow> string" where "flag_of k = snd (snd (snd (setting_row k)))"

definition settings :: "setting_key list" where
  "settings =
     [Harness, Transport, Model, Timeout, Output, Color, Verbose, OutputContract, CodexCompatibility,
      PermissionMode, NativeMaxTurns, NativeTimeout, NativeToolTimeout, NativeOutputBytes, NativeProfile,
      NativeAddDirs, NativeAllowTools, NativeLog, AuthProfile]"

datatype config_source_kind = Flag | Environment | ProjectFile | UserFile | Default

record config_source =
  cs_kind :: config_source_kind
  cs_location :: "string option"

definition source_of :: "config_source_kind \<Rightarrow> string \<Rightarrow> config_source" where
  "source_of kind location = \<lparr>cs_kind = kind, cs_location = Some location\<rparr>"

definition default_source :: config_source where
  "default_source = source_of Default ''built-in''"

record 'a sourced_value =
  sv_value :: 'a
  sv_source :: config_source

definition sourced :: "'a \<Rightarrow> config_source \<Rightarrow> 'a sourced_value" where
  "sourced v s = \<lparr>sv_value = v, sv_source = s\<rparr>"

datatype output_mode = Human | Json | Jsonl

definition parse_output_mode :: "string \<Rightarrow> output_mode option" where
  "parse_output_mode v =
     (if v = ''human'' then Some Human else if v = ''json'' then Some Json
      else if v = ''jsonl'' then Some Jsonl else None)"

primrec mode_name :: "output_mode \<Rightarrow> string" where
  "mode_name Human = ''human''" | "mode_name Json = ''json''" | "mode_name Jsonl = ''jsonl''"

record effective_config =
  ec_locations :: "json list"
  ec_candidates :: "(string, json list) btree"
  ec_diagnostics :: "json list"
  ec_legacy_user_config :: "string option"
  ec_explanation_target :: "string list option"
  ec_mutation :: "json option"
  ec_cwd :: string
  ec_cwd_source :: config_source
  ec_project_config :: "string option"
  ec_user_config :: "string option"
  ec_harness :: "string sourced_value"
  ec_transport :: "string sourced_value"
  ec_model :: "string option sourced_value"
  ec_timeout :: "string sourced_value"
  ec_output :: "output_mode sourced_value"
  ec_color :: "bool sourced_value"
  ec_verbose :: "bool sourced_value"
  ec_auth_profile :: "string option sourced_value"
  ec_native_log :: "string option sourced_value"
  ec_output_contract :: "string sourced_value"
  ec_permission_mode :: "string option sourced_value"
  ec_codex_compatibility :: "string sourced_value"
  ec_native_max_turns :: "string option sourced_value"
  ec_native_timeout :: "string option sourced_value"
  ec_native_tool_timeout :: "string option sourced_value"
  ec_native_output_bytes :: "string option sourced_value"
  ec_native_profile :: "string sourced_value"
  ec_native_add_dirs :: "string list sourced_value"
  ec_native_allow_tools :: "string list sourced_value"

text \<open>\<open>published_kernel\<close> is \<open>PUBLISHED_KERNEL_STARTUP\<close>, which the build sets.\<close>

definition defaults :: "bool \<Rightarrow> string \<Rightarrow> string option \<Rightarrow> string option \<Rightarrow> effective_config" where
  "defaults published_kernel cwd project_config user_config =
     \<lparr>ec_locations = [], ec_candidates = [], ec_diagnostics = [], ec_legacy_user_config = None,
      ec_explanation_target = None, ec_mutation = None, ec_cwd = cwd,
      ec_cwd_source = source_of Default ''process cwd'',
      ec_project_config = project_config, ec_user_config = user_config,
      ec_harness = sourced ''agents-sdk'' default_source, ec_transport = sourced ''auto'' default_source,
      ec_model = sourced None default_source, ec_timeout = sourced ''10m'' default_source,
      ec_output = sourced Human default_source, ec_color = sourced False default_source,
      ec_verbose = sourced False default_source, ec_auth_profile = sourced None default_source,
      ec_native_log = sourced None default_source,
      ec_output_contract = sourced (if published_kernel then ''native'' else ''image-envelope'') default_source,
      ec_permission_mode = sourced None default_source,
      ec_codex_compatibility = sourced ''qualified'' default_source,
      ec_native_max_turns = sourced None default_source, ec_native_timeout = sourced None default_source,
      ec_native_tool_timeout = sourced None default_source,
      ec_native_output_bytes = sourced None default_source,
      ec_native_profile = sourced ''default'' default_source, ec_native_add_dirs = sourced [] default_source,
      ec_native_allow_tools = sourced [] default_source\<rparr>"

section \<open>One value\<close>

text \<open>A validated value, of the type of its setting.\<close>

datatype stored = SText string | SFlag bool | SMode output_mode | SList "string list"

definition setting_error :: "string \<Rightarrow> string \<Rightarrow> runner_error" where
  "setting_error reason location = with_detail (config_error reason) ''source'' (JStr location)"

definition relocate :: "runner_error \<Rightarrow> string \<Rightarrow> runner_error" where
  "relocate e location = with_detail e ''source'' (JStr location)"

definition supported_harnesses :: "string list" where
  "supported_harnesses = [''openprose'', ''agents-sdk'', ''prime'', ''omp'', ''codex'', ''claude'', ''mock'']"

definition located :: "string \<Rightarrow> runner_error + 'a \<Rightarrow> runner_error + 'a" where
  "located location m = (case m of Inl e \<Rightarrow> Inl (relocate e location) | Inr x \<Rightarrow> Inr x)"

text \<open>The match on the key, for a text that is not empty.\<close>

definition validate_text :: "setting_key \<Rightarrow> string \<Rightarrow> string \<Rightarrow> bool \<Rightarrow> runner_error + stored" where
  "validate_text key t location file =
     (let fail = (\<lambda>reason. Inl (setting_error reason location));
          admit = (\<lambda>allowed reason. if t \<in> set allowed then Inr (SText t) else fail reason) in
      case key of
        Harness \<Rightarrow>
          admit supported_harnesses
            (if file then ''Configuration key harness contains an unsupported value.''
             else ''Unsupported harness '' @ utf8_encode (quote (chars t))
               @ ''; expected openprose, prime, omp, codex, claude, or mock.'')
      | Timeout \<Rightarrow>
          (case timeout_ms t of
             Inl reason \<Rightarrow>
               fail (if file then ''Configuration key timeout contains an invalid duration.'' else reason)
           | Inr _ \<Rightarrow> Inr (SText t))
      | Output \<Rightarrow>
          (case parse_output_mode t of
             None \<Rightarrow> fail (if file then ''Configuration key output contains an unsupported value.''
                       else ''output must be human, json, or jsonl.'')
           | Some m \<Rightarrow> Inr (SMode m))
      | OutputContract \<Rightarrow>
          admit [''native'', ''image-envelope''] ''Output contract must be native or image-envelope.''
      | CodexCompatibility \<Rightarrow>
          admit [''qualified'', ''probe''] ''Codex compatibility must be qualified or probe.''
      | PermissionMode \<Rightarrow>
          admit [''default'', ''acceptEdits'', ''workspace-write'', ''read-only'']
            ''Permission mode must be default, acceptEdits, workspace-write, or read-only.''
      | NativeMaxTurns \<Rightarrow> mapE (\<lambda>_. SText t) (located location (validate_native_turns t))
      | NativeTimeout \<Rightarrow> mapE (\<lambda>_. SText t) (located location (validate_native_timeout t))
      | NativeToolTimeout \<Rightarrow> mapE (\<lambda>_. SText t) (located location (validate_native_timeout t))
      | NativeOutputBytes \<Rightarrow> mapE (\<lambda>_. SText t) (located location (validate_native_output_bytes t))
      | NativeProfile \<Rightarrow> admit [''default'', ''claude-workspace-tools''] ''Unknown native profile.''
      | _ \<Rightarrow> Inr (SText t))"

definition validate_setting :: "setting_key \<Rightarrow> raw_setting \<Rightarrow> string \<Rightarrow> bool \<Rightarrow> runner_error + stored" where
  "validate_setting key raw location file =
     (let fail = (\<lambda>reason. Inl (setting_error reason location));
          is_flag = (key \<in> {Color, Verbose}); is_list = (key \<in> {NativeAddDirs, NativeAllowTools}) in
      case raw of
        RBoolean b \<Rightarrow>
          if \<not> is_flag then fail (''Configuration key '' @ file_key key @ '' requires a string value.'')
          else Inr (SFlag b)
      | RList vs \<Rightarrow>
          if \<not> is_list then fail (''Configuration key '' @ file_key key @ '' requires a string value.'')
          else if list_ex (\<lambda>v. all_whitespace v \<or> CHR 0x00 \<in> set v) vs
          then fail (key_name key @ '' must be an array of nonempty strings.'')
          else Inr (SList vs)
      | RText t \<Rightarrow>
          if file \<and> is_flag then fail (''Configuration key '' @ file_key key @ '' requires a boolean value.'')
          else if is_list then fail (key_name key @ '' must be an array of nonempty strings.'')
          else if 0xFFFD \<in> set (chars t) then fail (key_name key @ '' must be valid UTF-8.'')
          else if is_flag then
            (if t = ''true'' \<or> t = ''1'' then Inr (SFlag True)
             else if t = ''false'' \<or> t = ''0'' then Inr (SFlag False)
             else fail (key_name key @ '' must be true, false, 1, or 0.''))
          else if t = [] then
            fail (if file then ''Configuration key '' @ file_key key @ '' must not be empty.''
                  else key_name key @ '' must not be empty.'')
          else validate_text key t location file)"

text \<open>\<open>replace\<close> on the field of the key.\<close>

fun stored_text :: "stored \<Rightarrow> string" where
  "stored_text (SText t) = t" | "stored_text _ = []"

fun stored_flag :: "stored \<Rightarrow> bool" where
  "stored_flag (SFlag b) = b" | "stored_flag _ = False"

fun stored_mode :: "stored \<Rightarrow> output_mode" where
  "stored_mode (SMode m) = m" | "stored_mode _ = Human"

fun stored_list :: "stored \<Rightarrow> string list" where
  "stored_list (SList vs) = vs" | "stored_list _ = []"

definition store_setting :: "setting_key \<Rightarrow> stored \<Rightarrow> config_source \<Rightarrow> effective_config \<Rightarrow> effective_config" where
  "store_setting key v s c =
     (case key of
        Harness \<Rightarrow> c\<lparr>ec_harness := sourced (stored_text v) s\<rparr>
      | Transport \<Rightarrow> c\<lparr>ec_transport := sourced (stored_text v) s\<rparr>
      | Model \<Rightarrow> c\<lparr>ec_model := sourced (Some (stored_text v)) s\<rparr>
      | Timeout \<Rightarrow> c\<lparr>ec_timeout := sourced (stored_text v) s\<rparr>
      | Output \<Rightarrow> c\<lparr>ec_output := sourced (stored_mode v) s\<rparr>
      | Color \<Rightarrow> c\<lparr>ec_color := sourced (stored_flag v) s\<rparr>
      | Verbose \<Rightarrow> c\<lparr>ec_verbose := sourced (stored_flag v) s\<rparr>
      | OutputContract \<Rightarrow> c\<lparr>ec_output_contract := sourced (stored_text v) s\<rparr>
      | CodexCompatibility \<Rightarrow> c\<lparr>ec_codex_compatibility := sourced (stored_text v) s\<rparr>
      | PermissionMode \<Rightarrow> c\<lparr>ec_permission_mode := sourced (Some (stored_text v)) s\<rparr>
      | NativeMaxTurns \<Rightarrow> c\<lparr>ec_native_max_turns := sourced (Some (stored_text v)) s\<rparr>
      | NativeTimeout \<Rightarrow> c\<lparr>ec_native_timeout := sourced (Some (stored_text v)) s\<rparr>
      | NativeToolTimeout \<Rightarrow> c\<lparr>ec_native_tool_timeout := sourced (Some (stored_text v)) s\<rparr>
      | NativeOutputBytes \<Rightarrow> c\<lparr>ec_native_output_bytes := sourced (Some (stored_text v)) s\<rparr>
      | NativeProfile \<Rightarrow> c\<lparr>ec_native_profile := sourced (stored_text v) s\<rparr>
      | NativeAddDirs \<Rightarrow> c\<lparr>ec_native_add_dirs := sourced (stored_list v) s\<rparr>
      | NativeAllowTools \<Rightarrow> c\<lparr>ec_native_allow_tools := sourced (stored_list v) s\<rparr>
      | NativeLog \<Rightarrow> c\<lparr>ec_native_log := sourced (Some (stored_text v)) s\<rparr>
      | AuthProfile \<Rightarrow> c\<lparr>ec_auth_profile := sourced (Some (stored_text v)) s\<rparr>)"

definition assign_setting ::
  "effective_config \<Rightarrow> setting_key \<Rightarrow> raw_setting \<Rightarrow> config_source \<Rightarrow> string \<Rightarrow> bool
    \<Rightarrow> runner_error + effective_config" where
  "assign_setting c key raw s location file =
     mapE (\<lambda>v. store_setting key v s c) (validate_setting key raw location file)"

section \<open>Candidates\<close>

primrec kind_name :: "config_source_kind \<Rightarrow> string" where
  "kind_name Flag = ''flag''"
| "kind_name Environment = ''environment''"
| "kind_name ProjectFile = ''project-config''"
| "kind_name UserFile = ''user-config''"
| "kind_name Default = ''default''"

definition source_json :: "config_source \<Rightarrow> json" where
  "source_json s =
     jobj ((''kind'', JStr (kind_name (cs_kind s)))
           # (case cs_location s of Some l \<Rightarrow> [(''location'', JStr l)] | None \<Rightarrow> []))"

definition opt_json :: "string option \<Rightarrow> json" where
  "opt_json v = (case v of None \<Rightarrow> JNull | Some t \<Rightarrow> JStr t)"

definition as_view :: "('a \<Rightarrow> json) \<Rightarrow> 'a sourced_value \<Rightarrow> json \<times> config_source" where
  "as_view f v = (f (sv_value v), sv_source v)"

text \<open>The serialized value of a setting, and its source.\<close>

primrec view :: "setting_key \<Rightarrow> effective_config \<Rightarrow> json \<times> config_source" where
  "view Harness c = as_view JStr (ec_harness c)"
| "view Transport c = as_view JStr (ec_transport c)"
| "view Model c = as_view opt_json (ec_model c)"
| "view Timeout c = as_view JStr (ec_timeout c)"
| "view Output c = as_view (\<lambda>m. JStr (mode_name m)) (ec_output c)"
| "view Color c = as_view JBool (ec_color c)"
| "view Verbose c = as_view JBool (ec_verbose c)"
| "view OutputContract c = as_view JStr (ec_output_contract c)"
| "view CodexCompatibility c = as_view JStr (ec_codex_compatibility c)"
| "view PermissionMode c = as_view opt_json (ec_permission_mode c)"
| "view NativeMaxTurns c = as_view opt_json (ec_native_max_turns c)"
| "view NativeTimeout c = as_view opt_json (ec_native_timeout c)"
| "view NativeToolTimeout c = as_view opt_json (ec_native_tool_timeout c)"
| "view NativeOutputBytes c = as_view opt_json (ec_native_output_bytes c)"
| "view NativeProfile c = as_view JStr (ec_native_profile c)"
| "view NativeAddDirs c = as_view jstrs (ec_native_add_dirs c)"
| "view NativeAllowTools c = as_view jstrs (ec_native_allow_tools c)"
| "view NativeLog c = as_view opt_json (ec_native_log c)"
| "view AuthProfile c = as_view opt_json (ec_auth_profile c)"

definition view_json :: "setting_key \<Rightarrow> effective_config \<Rightarrow> json" where
  "view_json k c = (case view k c of (v, s) \<Rightarrow> jobj [(''value'', v), (''source'', source_json s)])"

definition config_values :: "effective_config \<Rightarrow> json" where
  "config_values c = jobj (map (\<lambda>k. (key_name k, view_json k c)) settings)"

definition candidate_of :: "bool \<Rightarrow> json \<times> config_source \<Rightarrow> json" where
  "candidate_of selected vs = (case vs of (v, s) \<Rightarrow>
     jobj [(''value'', v), (''source'', source_json s), (''selected'', JBool selected)])"

text \<open>The history of every key gets its current value, unless that is the last entry already.\<close>

definition push_candidate :: "json list \<Rightarrow> json \<Rightarrow> json list" where
  "push_candidate history candidate =
     (if history \<noteq> [] \<and> last history = candidate then history else history @ [candidate])"

definition record_candidates :: "effective_config \<Rightarrow> effective_config" where
  "record_candidates c =
     c\<lparr>ec_candidates := fold (\<lambda>k m. bt_insert (key_name k)
         (push_candidate (case bt_get m (key_name k) of Some h \<Rightarrow> h | None \<Rightarrow> []) (candidate_of False (view k c))) m)
       settings (ec_candidates c)\<rparr>"

text \<open>\<open>candidate["selected"] = ...\<close> on an object.\<close>

definition jset :: "string \<Rightarrow> json \<Rightarrow> json \<Rightarrow> json" where
  "jset k w v = (case v of JObj m \<Rightarrow> JObj (bt_insert k w m) | _ \<Rightarrow> v)"

definition mark_selected :: "json \<times> config_source \<Rightarrow> json \<Rightarrow> json" where
  "mark_selected vs candidate =
     jset ''selected'' (JBool (jidx candidate ''value'' = fst vs
       \<and> jidx candidate ''source'' = source_json (snd vs))) candidate"

definition finalize_history :: "json \<times> config_source \<Rightarrow> json list \<Rightarrow> json list" where
  "finalize_history vs history =
     map (mark_selected vs)
       (if cs_kind (snd vs) = Default then history[0 := candidate_of False vs] else history)"

definition finalize_candidates :: "effective_config \<Rightarrow> effective_config" where
  "finalize_candidates c =
     c\<lparr>ec_candidates := map (\<lambda>(name, history).
         case find (\<lambda>k. key_name k = name) settings of
           None \<Rightarrow> (name, history)
         | Some k \<Rightarrow> (name, finalize_history (view k c) history)) (ec_candidates c)\<rparr>"

section \<open>Explanation\<close>

definition if_present :: "string \<Rightarrow> json option \<Rightarrow> (string \<times> json) list" where
  "if_present k v = (case v of None \<Rightarrow> [] | Some w \<Rightarrow> [(k, w)])"

text \<open>\<open>resolved_runtime\<close> is the argument \<open>runtime\<close>: in the report of an error it is replaced.\<close>

definition configuration_explanation :: "json \<Rightarrow> effective_config \<Rightarrow> json" where
  "configuration_explanation runtime c =
     jobj ([(''schema'', JStr ''openprose.configuration-explanation/1''),
        (''cwd'', jobj [(''value'', JStr (ec_cwd c)), (''source'', source_json (ec_cwd_source c))]),
        (''projectConfigPath'', opt_json (ec_project_config c)),
        (''userConfigPath'', opt_json (ec_user_config c)),
        (''values'', config_values c),
        (''target'', case ec_explanation_target c of
            None \<Rightarrow> JNull | Some argv \<Rightarrow> jobj [(''argv'', jstrs argv)]),
        (''locations'', JArr (ec_locations c)),
        (''candidates'', JObj (map (\<lambda>(k, h). (k, JArr h)) (ec_candidates c))),
        (''diagnostics'', JArr (ec_diagnostics c)),
        (''runtime'', runtime)] @ if_present ''mutation'' (ec_mutation c))"

definition no_runtime :: json where
  "no_runtime =
     jobj [(''transport'', JNull), (''permissionMode'', JNull), (''authProfile'', JNull),
           (''billingOwner'', JNull), (''nativeLimits'', JNull), (''nativeOutputLimits'', JNull)]"

text \<open>
  The refused source leaves the history of a setting that has it; the last candidate that is left is
  selected, and the setting gets its value back.
\<close>

definition withdraw :: "json \<Rightarrow> json list \<Rightarrow> json list" where
  "withdraw source history =
     (let kept = map (jset ''selected'' (JBool False))
            (filter (\<lambda>candidate. jidx (jidx candidate ''source'') ''location'' \<noteq> source) history)
      in if kept = [] then [] else butlast kept @ [jset ''selected'' (JBool True) (last kept)])"

definition restored :: "json list \<Rightarrow> json \<Rightarrow> json" where
  "restored history setting =
     (if history = [] then setting
      else jobj [(''value'', jidx (last history) ''value''), (''source'', jidx (last history) ''source'')])"

definition blamed :: "json \<Rightarrow> json \<Rightarrow> bool" where
  "blamed source setting \<longleftrightarrow>
     jidx (jidx setting ''source'') ''location'' = source
     \<and> jidx (jidx setting ''source'') ''kind'' \<noteq> JStr ''default''"

definition withdraw_key :: "json \<Rightarrow> json \<Rightarrow> string \<Rightarrow> json" where
  "withdraw_key source report key =
     (let history = withdraw source (case jidx (jidx report ''candidates'') key of JArr h \<Rightarrow> h | _ \<Rightarrow> []);
          r = jset ''candidates'' (jset key (JArr history) (jidx report ''candidates'')) report
      in jset ''values'' (jset key (restored history (jidx (jidx r ''values'') key)) (jidx r ''values'')) r)"

definition withdraw_source :: "json \<Rightarrow> json \<Rightarrow> json" where
  "withdraw_source source report =
     fold (\<lambda>key report. withdraw_key source report key)
       (map fst (filter (\<lambda>(_, setting). blamed source setting)
          (case jidx report ''values'' of JObj m \<Rightarrow> m | _ \<Rightarrow> [])))
       report"

definition push_diagnostic :: "json \<Rightarrow> json \<Rightarrow> json" where
  "push_diagnostic d report =
     jset ''diagnostics'' (JArr ((case jidx report ''diagnostics'' of JArr ds \<Rightarrow> ds | _ \<Rightarrow> []) @ [d])) report"

definition explanation_error :: "runner_error \<Rightarrow> effective_config \<Rightarrow> runner_error" where
  "explanation_error e c =
     (let report = jset ''runtime'' no_runtime (configuration_explanation JNull (finalize_candidates c));
          report1 = (case detail e ''source'' of None \<Rightarrow> report | Some source \<Rightarrow> withdraw_source source report);
          or_else = (\<lambda>k other. case detail e k of None \<Rightarrow> JStr other | Some v \<Rightarrow> v)
      in with_detail e ''configurationExplanation''
           (push_diagnostic (jobj [(''code'', JStr ''CONFIG_INVALID''), (''severity'', JStr ''error''),
               (''source'', or_else ''source'' ''configuration''),
               (''reason'', or_else ''reason'' ''Invalid configuration.'')]) report1))"

text \<open>The result of a step over a configuration: a failure comes with the configuration it left.\<close>

type_synonym applied = "(runner_error \<times> effective_config) + effective_config"

definition blame :: "effective_config \<Rightarrow> runner_error + 'a \<Rightarrow> (runner_error \<times> effective_config) + 'a" where
  "blame c m = (case m of Inl e \<Rightarrow> Inl (e, c) | Inr x \<Rightarrow> Inr x)"

definition explained :: "(runner_error \<times> effective_config) + 'a \<Rightarrow> runner_error + 'a" where
  "explained m = (case m of Inl (e, c) \<Rightarrow> Inl (explanation_error e c) | Inr x \<Rightarrow> Inr x)"

lemma blame_simps [simp]:
  "blame c (Inr x) = Inr x" "blame c (Inl e) = Inl (e, c)"
  "blame c m = Inr x \<longleftrightarrow> m = Inr x" "blame c m = Inl (e, d) \<longleftrightarrow> m = Inl e \<and> d = c"
  by (auto simp: blame_def split: sum.splits)

lemma explained_simps [simp]:
  "explained (Inr x) = Inr x" "explained m = Inr x \<longleftrightarrow> m = Inr x"
  by (auto simp: explained_def split: sum.splits)

end
