(* ===== verification/Config_Layers.thy ===== *)
theory Config_Layers
  imports Config_Settings
begin

text \<open>
  The layers of a configuration (\<open>config.rs\<close>): the user file, the project file, the environment and the
  flags (\<open>apply_file\<close>, \<open>apply_environment\<close>, \<open>apply_flags\<close>) and their composition.  Reading the files is
  outside the model: a file layer is what \<open>load_file\<close> returned for it and its path.
\<close>

section \<open>Layers\<close>

definition file_location :: "loaded_file_config \<Rightarrow> config_source \<Rightarrow> string \<Rightarrow> string" where
  "file_location loaded s fk =
     (case cs_location s of Some l \<Rightarrow> l | None \<Rightarrow> []) @ '':''
     @ decimal (case bt_get (lf_lines loaded) fk of Some n \<Rightarrow> n | None \<Rightarrow> 1)"

definition apply_file_key ::
  "loaded_file_config \<Rightarrow> config_source \<Rightarrow> effective_config \<Rightarrow> setting_key \<Rightarrow> applied" where
  "apply_file_key loaded s c key =
     (case bt_get (lf_values loaded) (file_key key) of
        None \<Rightarrow> Inr c
      | Some raw \<Rightarrow>
          (let location = file_location loaded s (file_key key) in
           blame c (assign_setting c key raw (source_of (cs_kind s) location) location True)))"

definition apply_file ::
  "effective_config \<Rightarrow> loaded_file_config \<Rightarrow> config_source \<Rightarrow> applied" where
  "apply_file c loaded s =
     (if bt_get (lf_values loaded) ''service_environment'' \<noteq> None \<and> cs_kind s \<noteq> UserFile
      then Inl (setting_error ''Configuration contains an unknown key.''
             (file_location loaded s ''service_environment''), c)
      else foldE (apply_file_key loaded s) c settings)"

definition apply_environment_key ::
  "(string, string) btree \<Rightarrow> effective_config \<Rightarrow> setting_key \<Rightarrow> applied" where
  "apply_environment_key environment c key =
     (case variable_of key of
        None \<Rightarrow> Inr c
      | Some variable \<Rightarrow>
          (case bt_get environment variable of
             None \<Rightarrow> Inr c
           | Some v \<Rightarrow>
                 blame c (assign_setting c key (RText v) (source_of Environment variable) variable False)))"

definition apply_environment ::
  "effective_config \<Rightarrow> (string, string) btree \<Rightarrow> applied" where
  "apply_environment c environment = foldE (apply_environment_key environment) c settings"

record global_flags =
  gf_harness :: "string option"
  gf_transport :: "string option"
  gf_cwd :: "string option"
  gf_model :: "string option"
  gf_auth_profile :: "string option"
  gf_native_log :: "string option"
  gf_output_contract :: "string option"
  gf_permission_mode :: "string option"
  gf_codex_compatibility :: "string option"
  gf_native_profile :: "string option"
  gf_native_max_turns :: "string option"
  gf_native_timeout :: "string option"
  gf_native_tool_timeout :: "string option"
  gf_native_output_bytes :: "string option"
  gf_native_add_dirs :: "string list"
  gf_native_allow_tools :: "string list"
  gf_timeout :: "string option"
  gf_output :: "output_mode option"
  gf_dry_run :: bool
  gf_no_color :: bool
  gf_verbose :: bool

primrec flag_value :: "global_flags \<Rightarrow> setting_key \<Rightarrow> raw_setting option" where
  "flag_value f Harness = map_option RText (gf_harness f)"
| "flag_value f Transport = map_option RText (gf_transport f)"
| "flag_value f Model = map_option RText (gf_model f)"
| "flag_value f Timeout = map_option RText (gf_timeout f)"
| "flag_value f Output = None"
| "flag_value f Color = (if gf_no_color f then Some (RBoolean False) else None)"
| "flag_value f Verbose = (if gf_verbose f then Some (RBoolean True) else None)"
| "flag_value f OutputContract = map_option RText (gf_output_contract f)"
| "flag_value f CodexCompatibility = map_option RText (gf_codex_compatibility f)"
| "flag_value f PermissionMode = map_option RText (gf_permission_mode f)"
| "flag_value f NativeMaxTurns = map_option RText (gf_native_max_turns f)"
| "flag_value f NativeTimeout = map_option RText (gf_native_timeout f)"
| "flag_value f NativeToolTimeout = map_option RText (gf_native_tool_timeout f)"
| "flag_value f NativeOutputBytes = map_option RText (gf_native_output_bytes f)"
| "flag_value f NativeProfile = map_option RText (gf_native_profile f)"
| "flag_value f NativeAddDirs =
     (if gf_native_add_dirs f \<noteq> [] then Some (RList (gf_native_add_dirs f)) else None)"
| "flag_value f NativeAllowTools =
     (if gf_native_allow_tools f \<noteq> [] then Some (RList (gf_native_allow_tools f)) else None)"
| "flag_value f NativeLog = map_option RText (gf_native_log f)"
| "flag_value f AuthProfile = map_option RText (gf_auth_profile f)"

definition apply_flags_key ::
  "global_flags \<Rightarrow> effective_config \<Rightarrow> setting_key \<Rightarrow> applied" where
  "apply_flags_key flags c key =
     (let s = source_of Flag (flag_of key);
          c1 = (case (key, gf_output flags) of
                  (Output, Some m) \<Rightarrow> c\<lparr>ec_output := sourced m s\<rparr> | _ \<Rightarrow> c) in
      case flag_value flags key of
        None \<Rightarrow> Inr c1
      | Some raw \<Rightarrow> blame c1 (assign_setting c1 key raw s (flag_of key) False))"

definition apply_flags :: "effective_config \<Rightarrow> global_flags \<Rightarrow> applied" where
  "apply_flags c flags = foldE (apply_flags_key flags) c settings"

text \<open>
  The layers in order.  Every error gets the explanation of the configuration it left, the error of
  \<open>load_file\<close> too.
\<close>

type_synonym file_layer = "((runner_error + loaded_file_config) \<times> string) option"

definition load_and_apply ::
  "config_source_kind \<Rightarrow> string \<Rightarrow> runner_error + loaded_file_config \<Rightarrow> effective_config \<Rightarrow> applied" where
  "load_and_apply kind path loading c =
     bindE (blame c loading) (\<lambda>loaded. apply_file c loaded (source_of kind path))"

definition apply_optional_file ::
  "config_source_kind \<Rightarrow> file_layer \<Rightarrow> effective_config \<Rightarrow> runner_error + effective_config" where
  "apply_optional_file kind layer c =
     (case layer of
        None \<Rightarrow> Inr c
      | Some (loading, path) \<Rightarrow> mapE record_candidates (explained (load_and_apply kind path loading c)))"

definition apply_layers ::
  "file_layer \<Rightarrow> file_layer \<Rightarrow> (string, string) btree \<Rightarrow> global_flags \<Rightarrow> effective_config
    \<Rightarrow> runner_error + effective_config" where
  "apply_layers user project environment flags c =
     bindE (apply_optional_file UserFile user (record_candidates c)) (\<lambda>c1.
     bindE (apply_optional_file ProjectFile project c1) (\<lambda>c2.
     bindE (mapE record_candidates (explained (apply_environment c2 environment))) (\<lambda>c3.
     mapE record_candidates (explained (apply_flags c3 flags)))))"

section \<open>Later layers win\<close>

text \<open>What a layer says of a key.\<close>

type_synonym layer = "setting_key \<Rightarrow> (json \<times> config_source) option"

definition raw_json :: "setting_key \<Rightarrow> raw_setting \<Rightarrow> json" where
  "raw_json key raw =
     (case raw of
        RBoolean b \<Rightarrow> JBool b
      | RList vs \<Rightarrow> jstrs vs
      | RText t \<Rightarrow> if key \<in> {Color, Verbose} then JBool (t = ''true'' \<or> t = ''1'') else JStr t)"

definition layer_of_file :: "config_source_kind \<Rightarrow> file_layer \<Rightarrow> layer" where
  "layer_of_file kind fl key =
     (case fl of
        None \<Rightarrow> None
      | Some (Inl _, _) \<Rightarrow> None
      | Some (Inr loaded, path) \<Rightarrow>
          map_option (\<lambda>raw. (raw_json key raw,
              source_of kind (file_location loaded (source_of kind path) (file_key key))))
            (bt_get (lf_values loaded) (file_key key)))"

definition layer_of_environment :: "(string, string) btree \<Rightarrow> layer" where
  "layer_of_environment environment key =
     Option.bind (variable_of key) (\<lambda>variable.
       map_option (\<lambda>v. (raw_json key (RText v), source_of Environment variable)) (bt_get environment variable))"

definition layer_of_flags :: "global_flags \<Rightarrow> layer" where
  "layer_of_flags flags key =
     map_option (\<lambda>v. (v, source_of Flag (flag_of key)))
       (if key = Output then map_option (\<lambda>m. JStr (mode_name m)) (gf_output flags)
        else map_option (raw_json key) (flag_value flags key))"

definition overlay :: "layer \<Rightarrow> (setting_key \<Rightarrow> json \<times> config_source) \<Rightarrow> setting_key \<Rightarrow> json \<times> config_source" where
  "overlay m base key = (case m key of Some v \<Rightarrow> v | None \<Rightarrow> base key)"

text \<open>A validated value is of the type of its key and serializes as the raw value says.\<close>

fun stored_json :: "stored \<Rightarrow> json" where
  "stored_json (SText t) = JStr t"
| "stored_json (SFlag b) = JBool b"
| "stored_json (SMode m) = JStr (mode_name m)"
| "stored_json (SList vs) = jstrs vs"

definition stored_fits :: "setting_key \<Rightarrow> stored \<Rightarrow> bool" where
  "stored_fits key v =
     (case v of
        SFlag _ \<Rightarrow> key \<in> {Color, Verbose}
      | SMode _ \<Rightarrow> key = Output
      | SList _ \<Rightarrow> key \<in> {NativeAddDirs, NativeAllowTools}
      | SText _ \<Rightarrow> key \<notin> {Color, Verbose, Output, NativeAddDirs, NativeAllowTools})"

lemma mode_name_parse: "parse_output_mode t = Some m \<Longrightarrow> mode_name m = t"
  by (auto simp: parse_output_mode_def split: if_splits)

lemma located_Inr [simp]: "located location m = Inr x \<longleftrightarrow> m = Inr x"
  by (cases m) (simp_all add: located_def)

lemma validate_text_stored:
  assumes "validate_text key t location file = Inr v"
    and "key \<notin> {Color, Verbose, NativeAddDirs, NativeAllowTools}"
  shows "stored_fits key v \<and> stored_json v = JStr t"
  using assms unfolding validate_text_def Let_def
  by (cases key) (auto simp: stored_fits_def mapE_eq_Inr mode_name_parse split: if_splits option.splits sum.splits)

lemma validate_setting_stored:
  assumes "validate_setting key raw location file = Inr v"
  shows "stored_fits key v \<and> stored_json v = raw_json key raw"
proof (cases raw)
  case (RText t)
  show ?thesis
  proof (cases "key \<in> {Color, Verbose}")
    case True
    then show ?thesis using assms RText
      by (auto simp: validate_setting_def Let_def stored_fits_def raw_json_def split: if_split_asm)
  next
    case False
    then have "key \<notin> {Color, Verbose, NativeAddDirs, NativeAllowTools}"
        "validate_text key t location file = Inr v"
      using assms RText by (auto simp: validate_setting_def Let_def split: if_split_asm)
    then have "stored_fits key v \<and> stored_json v = JStr t" by (intro validate_text_stored)
    then show ?thesis using False RText by (simp add: raw_json_def)
  qed
next
  case (RBoolean b)
  then show ?thesis using assms
    by (auto simp: validate_setting_def Let_def stored_fits_def raw_json_def split: if_split_asm)
next
  case (RList vs)
  then show ?thesis using assms
    by (auto simp: validate_setting_def Let_def stored_fits_def raw_json_def split: if_split_asm)
qed

lemma view_store:
  assumes "stored_fits key v"
  shows "view k (store_setting key v s c) = (if k = key then (stored_json v, s) else view k c)"
proof (cases v)
  case (SText t)
  with assms show ?thesis
    by (cases key; cases k) (simp_all add: store_setting_def as_view_def sourced_def opt_json_def stored_fits_def)
next
  case (SFlag b)
  with assms show ?thesis
    by (cases key; cases k) (simp_all add: store_setting_def as_view_def sourced_def stored_fits_def)
next
  case (SMode m)
  with assms show ?thesis
    by (cases k) (simp_all add: store_setting_def as_view_def sourced_def stored_fits_def)
next
  case (SList vs)
  with assms show ?thesis
    by (cases key; cases k) (simp_all add: store_setting_def as_view_def sourced_def stored_fits_def)
qed

lemma view_assign:
  "assign_setting c key raw s location file = Inr c'
    \<Longrightarrow> view k c' = (if k = key then (raw_json key raw, s) else view k c)"
  using validate_setting_stored view_store by (fastforce simp: assign_setting_def mapE_eq_Inr)

lemma view_candidates [simp]: "view k (c\<lparr>ec_candidates := m\<rparr>) = view k c"
  by (cases k) simp_all

lemma view_record [simp]: "view k (record_candidates c) = view k c"
  by (simp add: record_candidates_def)

text \<open>
  The interface of a layer: an operation per key that sets that key to what the layer says of it and
  leaves the other keys.  Applied to all keys it overlays the layer.
\<close>

locale config_layer =
  fixes apply_key :: "effective_config \<Rightarrow> setting_key \<Rightarrow> applied"
    and says :: layer
  assumes apply_key_view: "apply_key c key = Inr c' \<Longrightarrow>
    view k c' = (if k = key then overlay says (\<lambda>k. view k c) k else view k c)"
begin

lemma apply_keys_view:
  "\<lbrakk>foldE apply_key c keys = Inr c'; distinct keys\<rbrakk> \<Longrightarrow>
     view k c' = (if k \<in> set keys then overlay says (\<lambda>k. view k c) k else view k c)"
proof (induction keys arbitrary: c)
  case Nil
  then show ?case by simp
next
  case (Cons key keys)
  then obtain d where d: "apply_key c key = Inr d" "foldE apply_key d keys = Inr c'"
    by (auto simp: bindE_eq_Inr)
  have "view k c' = (if k \<in> set keys then overlay says (\<lambda>k. view k d) k else view k d)"
    using Cons.IH [OF d(2)] Cons.prems(2) by simp
  moreover have "view k d = (if k = key then overlay says (\<lambda>k. view k c) k else view k c)"
    using apply_key_view [OF d(1)] .
  ultimately show ?case using Cons.prems(2) by (auto simp: overlay_def split: option.split)
qed

end

lemma settings_all [simp]: "k \<in> set settings"
  by (cases k) (simp_all add: settings_def)

lemma settings_distinct: "distinct settings"
  by (simp add: settings_def)

interpretation file_layer: config_layer "apply_file_key loaded (source_of kind path)"
    "layer_of_file kind (Some (Inr loaded, path))" for loaded kind path
  by unfold_locales
    (auto simp: apply_file_key_def overlay_def layer_of_file_def Let_def view_assign source_of_def
      split: option.splits)

interpretation environment_layer: config_layer "apply_environment_key environment" "layer_of_environment environment"
  for environment
  by unfold_locales
    (auto simp: apply_environment_key_def overlay_def layer_of_environment_def view_assign split: option.splits)

lemma view_output: "view k (c\<lparr>ec_output := sourced m s\<rparr>) = (if k = Output then (JStr (mode_name m), s) else view k c)"
  by (cases k) (simp_all add: as_view_def sourced_def)

lemma apply_flags_key_view:
  assumes "apply_flags_key flags c key = Inr c'"
  shows "view k c' = (if k = key then overlay (layer_of_flags flags) (\<lambda>k. view k c) k else view k c)"
proof (cases "key = Output")
  case True
  then show ?thesis using assms
    by (auto simp: apply_flags_key_def overlay_def layer_of_flags_def view_output simp del: view.simps
        split: option.splits)
next
  case False
  then have "(case (key, gf_output flags) of (Output, Some m) \<Rightarrow> c\<lparr>ec_output := sourced m s\<rparr> | _ \<Rightarrow> c) = c" for s
    by (cases key) simp_all
  then show ?thesis using assms False
    by (auto simp: apply_flags_key_def Let_def overlay_def layer_of_flags_def view_assign split: option.splits)
qed

interpretation flags_layer: config_layer "apply_flags_key flags" "layer_of_flags flags" for flags
  by unfold_locales (rule apply_flags_key_view)

lemma view_apply_optional_file:
  assumes "apply_optional_file kind fl c = Inr c'"
  shows "view k c' = overlay (layer_of_file kind fl) (\<lambda>k. view k c) k"
proof (cases fl)
  case None
  then show ?thesis using assms by (simp add: apply_optional_file_def overlay_def layer_of_file_def)
next
  case (Some ls)
  then obtain loading path where ls: "fl = Some (loading, path)" by (cases ls) simp
  with assms obtain loaded d where loaded: "loading = Inr loaded"
      and "foldE (apply_file_key loaded (source_of kind path)) c settings = Inr d" "c' = record_candidates d"
    by (auto simp: apply_optional_file_def load_and_apply_def apply_file_def mapE_eq_Inr bindE_eq_Inr
        split: if_splits)
  then show ?thesis using file_layer.apply_keys_view settings_distinct ls by simp
qed

lemma view_apply_layers:
  assumes "apply_layers user project environment flags c = Inr c'"
  shows "view k c' =
    overlay (layer_of_flags flags) (overlay (layer_of_environment environment)
      (overlay (layer_of_file ProjectFile project) (overlay (layer_of_file UserFile user)
        (\<lambda>k. view k c)))) k"
proof -
  obtain c1 c2 c3 c4 where c1: "apply_optional_file UserFile user (record_candidates c) = Inr c1"
    and c2: "apply_optional_file ProjectFile project c1 = Inr c2"
    and c3: "apply_environment c2 environment = Inr c3"
    and c4: "apply_flags (record_candidates c3) flags = Inr c4" and c': "c' = record_candidates c4"
    using assms by (auto simp: apply_layers_def bindE_eq_Inr mapE_eq_Inr)
  have v1: "(\<lambda>k. view k c1) = overlay (layer_of_file UserFile user) (\<lambda>k. view k c)"
    using view_apply_optional_file [OF c1] by auto
  have v2: "(\<lambda>k. view k c2) = overlay (layer_of_file ProjectFile project) (\<lambda>k. view k c1)"
    using view_apply_optional_file [OF c2] by auto
  have v3: "(\<lambda>k. view k c3) = overlay (layer_of_environment environment) (\<lambda>k. view k c2)"
    using environment_layer.apply_keys_view [OF c3 [unfolded apply_environment_def] settings_distinct] by auto
  have "view k c4 = overlay (layer_of_flags flags) (\<lambda>k. view k c3) k"
    using flags_layer.apply_keys_view [OF c4 [unfolded apply_flags_def] settings_distinct] by simp
  then show ?thesis unfolding c' view_record v3 v2 v1 .
qed

text \<open>
  Property C21.  The layers refine the override of one map by the next: after the user file, the
  project file, the environment and the flags have been applied, every setting has the value and the
  source of the last of them that gives it, and its default where none does.
\<close>

theorem later_layers_win:
  assumes "apply_layers user project environment flags c = Inr c'"
  shows "view k c' =
    overlay (layer_of_flags flags) (overlay (layer_of_environment environment)
      (overlay (layer_of_file ProjectFile project) (overlay (layer_of_file UserFile user)
        (\<lambda>k. view k c)))) k"
  using assms by (rule view_apply_layers)

definition no_flags :: global_flags where
  "no_flags =
     \<lparr>gf_harness = None, gf_transport = None, gf_cwd = None, gf_model = None, gf_auth_profile = None,
      gf_native_log = None, gf_output_contract = None, gf_permission_mode = None,
      gf_codex_compatibility = None, gf_native_profile = None, gf_native_max_turns = None,
      gf_native_timeout = None, gf_native_tool_timeout = None, gf_native_output_bytes = None,
      gf_native_add_dirs = [], gf_native_allow_tools = [], gf_timeout = None, gf_output = None,
      gf_dry_run = False, gf_no_color = False, gf_verbose = False\<rparr>"

lemma apply_no_flags: "apply_flags c no_flags = Inr c"
proof -
  have "apply_flags_key no_flags d key = Inr d" for d key
    by (cases key) (simp_all add: apply_flags_key_def no_flags_def)
  then have "foldE (apply_flags_key no_flags) d keys = Inr d" for d keys
    by (induction keys) simp_all
  then show ?thesis by (simp add: apply_flags_def)
qed

lemma apply_one_variable:
  assumes "variable_of key = Some variable"
    and "validate_setting key (RText t) variable False = Inr v"
  shows "apply_environment c [(variable, t)] = Inr (store_setting key v (source_of Environment variable) c)"
proof -
  have other: "apply_environment_key [(variable, t)] d k = Inr d" if "k \<noteq> key" for d k
    using assms(1) that by (cases key; cases k) (auto simp: apply_environment_key_def variable_of_def)
  have same: "apply_environment_key [(variable, t)] d key = Inr (store_setting key v (source_of Environment variable) d)" for d
    using assms by (simp add: apply_environment_key_def assign_setting_def)
  have skip: "foldE (apply_environment_key [(variable, t)]) d keys = Inr d" if "key \<notin> set keys" for d keys
    using that by (induction keys) (auto simp: other)
  obtain xs ys where xs: "settings = xs @ key # ys" "key \<notin> set xs" "key \<notin> set ys"
  proof -
    obtain xs ys where xs: "settings = xs @ key # ys" using split_list [OF settings_all [of key]] by blast
    moreover have "key \<notin> set xs" "key \<notin> set ys" using settings_distinct unfolding xs by auto
    ultimately show thesis by (rule that)
  qed
  show ?thesis unfolding apply_environment_def xs(1) by (simp add: foldE_append skip same xs(2,3))
qed

lemma model_variable_ok: "validate_setting Model (RText ''m'') ''PROSE_MODEL'' False = Inr (SText ''m'')"
  by (simp add: validate_setting_def validate_text_def chars_ascii is_ascii_def)

lemma witness_layers:
  "apply_layers None None [(''PROSE_MODEL'', ''m'')] no_flags (defaults True ''/w'' None None) =
     Inr (record_candidates (record_candidates (store_setting Model (SText ''m'')
       (source_of Environment ''PROSE_MODEL'') (record_candidates (defaults True ''/w'' None None)))))"
  using apply_one_variable [OF _ model_variable_ok]
  by (simp add: apply_layers_def apply_optional_file_def apply_no_flags variable_of_def)

lemma later_layers_win_witness:
  "view Model (record_candidates (record_candidates (store_setting Model (SText ''m'')
       (source_of Environment ''PROSE_MODEL'') (record_candidates (defaults True ''/w'' None None))))) =
    overlay (layer_of_flags no_flags) (overlay (layer_of_environment [(''PROSE_MODEL'', ''m'')])
      (overlay (layer_of_file ProjectFile None) (overlay (layer_of_file UserFile None)
        (\<lambda>k. view k (defaults True ''/w'' None None))))) Model"
  by (rule later_layers_win [OF witness_layers])

section \<open>Errors of a file\<close>

text \<open>Every reason a setting of a file can be refused for: fixed texts, none with the value.\<close>

definition setting_reasons :: "setting_key \<Rightarrow> string list" where
  "setting_reasons key =
     [''Configuration key '' @ file_key key @ '' requires a string value.'',
      ''Configuration key '' @ file_key key @ '' requires a boolean value.'',
      ''Configuration key '' @ file_key key @ '' must not be empty.'',
      key_name key @ '' must be an array of nonempty strings.'',
      key_name key @ '' must be valid UTF-8.'',
      key_name key @ '' must be true, false, 1, or 0.'',
      ''Configuration key harness contains an unsupported value.'',
      ''Configuration key timeout contains an invalid duration.'',
      ''Configuration key output contains an unsupported value.'',
      ''Output contract must be native or image-envelope.'',
      ''Codex compatibility must be qualified or probe.'',
      ''Permission mode must be default, acceptEdits, workspace-write, or read-only.'',
      ''Unknown native profile.'',
      ''Native max turns must be a positive safe integer.'',
      ''Native timeout must be a positive duration.'',
      ''Native timeout is outside the supported range.'',
      ''Native output bytes must be decimal bytes from 1048576 through 268435456.'']"

definition line_reasons :: "string list" where
  "line_reasons =
     [''Configuration line contains an unsupported carriage return.'',
      ''Configuration line must contain one known bare-key assignment.'',
      ''Configuration contains an unknown key.'',
      ''Expected a single-line string array.'', ''Expected a string array.'',
      ''Configuration value must be true, false, or a single-line string.'',
      ''Configuration strings cannot contain control characters.'',
      ''Basic string contains an unsupported escape.'',
      ''Basic string contains an invalid Unicode escape.'',
      ''Basic string must close on the same physical line.'',
      ''Literal string must close on the same physical line.'',
      ''Literal strings cannot contain apostrophes.'',
      ''Unexpected content after configuration value.'',
      ''Configuration does not match the supported flat TOML subset.'']"

definition key_reasons :: "string \<Rightarrow> string list" where
  "key_reasons key =
     [''Duplicate configuration key: '' @ key @ ''.'',
      ''Configuration key '' @ key @ '' requires a boolean value.'',
      ''Configuration key '' @ key @ '' requires a string value.'']"

definition file_reasons :: "string list" where
  "file_reasons = line_reasons @ concat (map key_reasons file_config_keys) @ concat (map setting_reasons settings)"

lemma located_Inl: "located location m = Inl e \<longleftrightarrow> (\<exists>e'. m = Inl e' \<and> e = relocate e' location)"
  by (cases m) (auto simp: located_def)

lemma mapE_eq_Inl: "mapE f m = Inl e \<longleftrightarrow> m = Inl e"
  by (cases m) auto

lemma native_errors:
  "validate_native_turns t = Inl e \<Longrightarrow> e = config_error ''Native max turns must be a positive safe integer.''"
  "validate_native_timeout t = Inl e \<Longrightarrow> e = config_error ''Native timeout must be a positive duration.''
     \<or> e = config_error ''Native timeout is outside the supported range.''"
  "validate_native_output_bytes t = Inl e \<Longrightarrow>
     e = config_error ''Native output bytes must be decimal bytes from 1048576 through 268435456.''"
  by (auto simp: validate_native_turns_def validate_native_timeout_def validate_native_output_bytes_def
      Let_def ok_or_def split: if_splits option.splits sum.splits)

text \<open>The members, so that proofs do not compare the texts.\<close>

lemma line_reason_members [simp]:
  "''Configuration line contains an unsupported carriage return.'' \<in> set line_reasons"
  "''Configuration line must contain one known bare-key assignment.'' \<in> set line_reasons"
  "''Configuration contains an unknown key.'' \<in> set line_reasons"
  "''Expected a single-line string array.'' \<in> set line_reasons"
  "''Expected a string array.'' \<in> set line_reasons"
  "''Configuration value must be true, false, or a single-line string.'' \<in> set line_reasons"
  "''Configuration strings cannot contain control characters.'' \<in> set line_reasons"
  "''Basic string contains an unsupported escape.'' \<in> set line_reasons"
  "''Basic string contains an invalid Unicode escape.'' \<in> set line_reasons"
  "''Basic string must close on the same physical line.'' \<in> set line_reasons"
  "''Literal string must close on the same physical line.'' \<in> set line_reasons"
  "''Literal strings cannot contain apostrophes.'' \<in> set line_reasons"
  "''Unexpected content after configuration value.'' \<in> set line_reasons"
  "''Configuration does not match the supported flat TOML subset.'' \<in> set line_reasons"
  unfolding line_reasons_def by (simp_all only: list.set insert_iff simp_thms)

lemma setting_reason_members [simp]:
  "''Configuration key '' @ file_key key @ '' requires a string value.'' \<in> set (setting_reasons key)"
  "''Configuration key '' @ file_key key @ '' requires a boolean value.'' \<in> set (setting_reasons key)"
  "''Configuration key '' @ file_key key @ '' must not be empty.'' \<in> set (setting_reasons key)"
  "key_name key @ '' must be an array of nonempty strings.'' \<in> set (setting_reasons key)"
  "key_name key @ '' must be valid UTF-8.'' \<in> set (setting_reasons key)"
  "key_name key @ '' must be true, false, 1, or 0.'' \<in> set (setting_reasons key)"
  "''Configuration key harness contains an unsupported value.'' \<in> set (setting_reasons key)"
  "''Configuration key timeout contains an invalid duration.'' \<in> set (setting_reasons key)"
  "''Configuration key output contains an unsupported value.'' \<in> set (setting_reasons key)"
  "''Output contract must be native or image-envelope.'' \<in> set (setting_reasons key)"
  "''Codex compatibility must be qualified or probe.'' \<in> set (setting_reasons key)"
  "''Permission mode must be default, acceptEdits, workspace-write, or read-only.'' \<in> set (setting_reasons key)"
  "''Unknown native profile.'' \<in> set (setting_reasons key)"
  "''Native max turns must be a positive safe integer.'' \<in> set (setting_reasons key)"
  "''Native timeout must be a positive duration.'' \<in> set (setting_reasons key)"
  "''Native timeout is outside the supported range.'' \<in> set (setting_reasons key)"
  "''Native output bytes must be decimal bytes from 1048576 through 268435456.'' \<in> set (setting_reasons key)"
  unfolding setting_reasons_def by (simp_all only: list.set insert_iff simp_thms)

lemma key_reason_members [simp]:
  "''Duplicate configuration key: '' @ key @ ''.'' \<in> set (key_reasons key)"
  "''Configuration key '' @ key @ '' requires a boolean value.'' \<in> set (key_reasons key)"
  "''Configuration key '' @ key @ '' requires a string value.'' \<in> set (key_reasons key)"
  unfolding key_reasons_def by (simp_all only: list.set insert_iff simp_thms)

lemma reason_in_file:
  "reason \<in> set line_reasons \<Longrightarrow> reason \<in> set file_reasons"
  "reason \<in> set (key_reasons key) \<Longrightarrow> key \<in> set file_config_keys \<Longrightarrow> reason \<in> set file_reasons"
  "reason \<in> set (setting_reasons k) \<Longrightarrow> reason \<in> set file_reasons"
  using settings_all by (auto simp: file_reasons_def)

definition setting_refused :: "setting_key \<Rightarrow> string \<Rightarrow> runner_error \<Rightarrow> bool" where
  "setting_refused key location e \<longleftrightarrow>
     (\<exists>reason. reason \<in> set (setting_reasons key) \<and> e = setting_error reason location)"

lemma setting_refused_error:
  "reason \<in> set (setting_reasons key) \<Longrightarrow> setting_refused key location (setting_error reason location)"
  by (auto simp: setting_refused_def)

lemma setting_refused_relocated:
  "reason \<in> set (setting_reasons key) \<Longrightarrow> setting_refused key location (relocate (config_error reason) location)"
  by (auto simp: setting_refused_def relocate_def setting_error_def)

lemma validate_native_error:
  "validate_native_turns t = Inl e \<Longrightarrow> setting_refused key location (relocate e location)"
  "validate_native_timeout t = Inl e \<Longrightarrow> setting_refused key location (relocate e location)"
  "validate_native_output_bytes t = Inl e \<Longrightarrow> setting_refused key location (relocate e location)"
  by (drule native_errors, simp add: setting_refused_relocated,
      drule native_errors, erule disjE, simp_all add: setting_refused_relocated,
      drule native_errors, simp add: setting_refused_relocated)

lemma validate_text_error:
  assumes "validate_text key t location True = Inl e"
  shows "setting_refused key location e"
proof -
  have admit: "setting_refused key location e"
    if "(if t \<in> set allowed then Inr (SText t) else Inl (setting_error reason location)) = Inl e"
      "reason \<in> set (setting_reasons key)" for allowed reason
    using that setting_refused_error by (auto split: if_splits)
  have native: "setting_refused key location e"
    if "mapE (\<lambda>_. SText t) (located location m) = Inl e"
      "\<And>e'. m = Inl e' \<Longrightarrow> setting_refused key location (relocate e' location)" for m :: "runner_error + nat"
    using that by (auto simp: mapE_eq_Inl located_Inl)
  note eq = assms [unfolded validate_text_def Let_def if_True]
  show ?thesis
  proof (cases key)
    case Harness
    show ?thesis by (rule admit [OF _ setting_reason_members(7)]) (use eq Harness in simp)
  next
    case Timeout
    then show ?thesis using eq
      by (auto split: sum.splits intro!: setting_refused_error setting_reason_members(8))
  next
    case Output
    then show ?thesis using eq
      by (auto split: option.splits intro!: setting_refused_error setting_reason_members(9))
  next
    case OutputContract
    then show ?thesis using eq
      by (auto split: if_splits intro!: setting_refused_error setting_reason_members(10))
  next
    case CodexCompatibility
    then show ?thesis using eq
      by (auto split: if_splits intro!: setting_refused_error setting_reason_members(11))
  next
    case PermissionMode
    then show ?thesis using eq
      by (auto split: if_splits intro!: setting_refused_error setting_reason_members(12))
  next
    case NativeMaxTurns
    show ?thesis by (rule native [OF _ validate_native_error(1)]) (use eq NativeMaxTurns in simp)
  next
    case NativeTimeout
    show ?thesis by (rule native [OF _ validate_native_error(2)]) (use eq NativeTimeout in simp)
  next
    case NativeToolTimeout
    show ?thesis by (rule native [OF _ validate_native_error(2)]) (use eq NativeToolTimeout in simp)
  next
    case NativeOutputBytes
    show ?thesis by (rule native [OF _ validate_native_error(3)]) (use eq NativeOutputBytes in simp)
  next
    case NativeProfile
    then show ?thesis using eq
      by (auto split: if_splits intro!: setting_refused_error setting_reason_members(13))
  qed (use eq in simp_all)
qed

lemma validate_setting_error:
  assumes "validate_setting key raw location True = Inl e"
  shows "setting_refused key location e"
proof (cases raw)
  case (RText t)
  note eq = assms [unfolded validate_setting_def Let_def RText raw_setting.case if_True simp_thms]
  have "(\<exists>reason. reason \<in> set (setting_reasons key) \<and> Inl (setting_error reason location) = (Inl e :: runner_error + stored))
      \<or> validate_text key t location True = Inl e"
    using eq by (simp only: split: if_split_asm) (blast intro: setting_reason_members sym)+
  then show ?thesis using setting_refused_error validate_text_error by auto
next
  case (RBoolean b)
  note eq = assms [unfolded validate_setting_def Let_def RBoolean raw_setting.case]
  have "\<exists>reason. reason \<in> set (setting_reasons key) \<and> Inl (setting_error reason location) = (Inl e :: runner_error + stored)"
    using eq by (simp only: split: if_split_asm) (blast intro: setting_reason_members)+
  then show ?thesis using setting_refused_error by auto
next
  case (RList vs)
  note eq = assms [unfolded validate_setting_def Let_def RList raw_setting.case]
  have "\<exists>reason. reason \<in> set (setting_reasons key) \<and> Inl (setting_error reason location) = (Inl e :: runner_error + stored)"
    using eq by (simp only: split: if_split_asm) (blast intro: setting_reason_members)+
  then show ?thesis using setting_refused_error by auto
qed

text \<open>An error that discloses only a line of the file and a fixed reason.\<close>

definition discloses_only_line :: "string \<Rightarrow> runner_error \<Rightarrow> bool" where
  "discloses_only_line path e \<longleftrightarrow>
     (\<exists>n reason. reason \<in> set file_reasons \<and> e = config_line_error path n reason)"

lemma config_line_errorI: "reason \<in> set file_reasons \<Longrightarrow> discloses_only_line path (config_line_error path n reason)"
  by (auto simp: discloses_only_line_def)

lemma setting_error_line:
  "setting_error reason (file_location loaded (source_of kind path) k) =
     config_line_error path (case bt_get (lf_lines loaded) k of Some n \<Rightarrow> n | None \<Rightarrow> 1) reason"
  by (simp add: setting_error_def config_line_error_def file_location_def source_of_def)

lemma apply_keys_error:
  "foldE (apply_file_key loaded (source_of kind path)) c keys = Inl (e, c') \<Longrightarrow> discloses_only_line path e"
proof (induction keys arbitrary: c)
  case Nil
  then show ?case by simp
next
  case (Cons key keys)
  then consider "apply_file_key loaded (source_of kind path) c key = Inl (e, c')"
    | d where "foldE (apply_file_key loaded (source_of kind path)) d keys = Inl (e, c')"
    by (auto simp: bindE_eq_Inl)
  then show ?case
  proof cases
    case 1
    then have "setting_refused key (file_location loaded (source_of kind path) (file_key key)) e"
      by (auto simp: apply_file_key_def Let_def assign_setting_def mapE_eq_Inl
          dest: validate_setting_error split: option.splits)
    then show ?thesis
      by (auto simp: setting_refused_def setting_error_line intro!: config_line_errorI reason_in_file(3))
  next
    case 2
    then show ?thesis by (rule Cons.IH)
  qed
qed

lemma apply_file_error:
  assumes "apply_file c loaded (source_of kind path) = Inl (e, c')"
  shows "discloses_only_line path e"
proof (cases "bt_get (lf_values loaded) ''service_environment'' \<noteq> None \<and> cs_kind (source_of kind path) \<noteq> UserFile")
  case True
  have "e = setting_error ''Configuration contains an unknown key.''
      (file_location loaded (source_of kind path) ''service_environment'')"
    using assms unfolding apply_file_def if_P [OF True] by blast
  then show ?thesis
    unfolding setting_error_line by (simp only: config_line_errorI reason_in_file(1) line_reason_members(3))
next
  case False
  show ?thesis using assms unfolding apply_file_def if_not_P [OF False] by (rule apply_keys_error)
qed

text \<open>A scanner fails only for such a reason: one rule per branch of the code.\<close>

definition refuses_line :: "string + 'a \<Rightarrow> bool" where
  "refuses_line m \<longleftrightarrow> (\<forall>e. m = Inl e \<longrightarrow> e \<in> set line_reasons)"

lemma refuses_line_Inr: "refuses_line (Inr x)"
  by (simp add: refuses_line_def)

lemma refuses_line_Inl: "e \<in> set line_reasons \<Longrightarrow> refuses_line (Inl e)"
  by (simp add: refuses_line_def)

lemma refuses_line_if: "(b \<Longrightarrow> refuses_line m) \<Longrightarrow> (\<not> b \<Longrightarrow> refuses_line n) \<Longrightarrow> refuses_line (if b then m else n)"
  by simp

lemma refuses_line_mapE: "refuses_line m \<Longrightarrow> refuses_line (mapE f m)"
  by (simp add: refuses_line_def mapE_eq_Inl)

lemmas refuses_line_intros =
  refuses_line_if refuses_line_Inr refuses_line_mapE refuses_line_Inl line_reason_members

lemma scan_basic_refuses: "refuses_line (scan_basic_loop i v)"
proof (induction i v rule: scan_basic_loop.induct)
  case (1 i)
  show ?case unfolding scan_basic_loop.simps by (intro refuses_line_intros)
next
  case (2 i b r)
  show ?case
  proof (cases r)
    case Nil
    show ?thesis unfolding Nil scan_basic_loop.simps list.case
      by (intro refuses_line_intros)
  next
    case (Cons e r')
    note steps = 2 [unfolded Cons]
    show ?thesis unfolding Cons
      by (subst scan_basic_loop.simps(2), unfold list.case Let_def, intro refuses_line_intros)
        (rule steps; (assumption | rule refl))+
  qed
qed

lemma scan_literal_refuses: "refuses_line (scan_literal_loop i v)"
proof (induction i v rule: scan_literal_loop.induct)
  case (1 i)
  show ?case unfolding scan_literal_loop.simps by (intro refuses_line_intros)
next
  case (2 i b r)
  show ?case unfolding scan_literal_loop.simps by (intro refuses_line_intros) (rule 2; assumption)
qed

lemma scan_value_error: "scan_value v = Inl e \<Longrightarrow> e \<in> set line_reasons"
proof -
  have "refuses_line (scan_value v)"
    unfolding scan_value_def scan_basic_string_def scan_literal_string_def
    by (intro refuses_line_intros scan_basic_refuses scan_literal_refuses)
  then show "scan_value v = Inl e \<Longrightarrow> e \<in> set line_reasons" by (simp add: refuses_line_def)
qed

lemma check_value_error:
  assumes "check_value parse_table raw key v = Inl e" and "key \<in> set file_config_keys"
  shows "e \<in> set file_reasons"
proof -
  have "\<exists>reason. (reason \<in> set line_reasons \<or> reason \<in> set (key_reasons key)) \<and> Inl reason = (Inl e :: string + unit)"
  proof (cases "key \<in> set array_keys")
    case True
    then show ?thesis using assms(1) unfolding check_value_def
      by (simp only: if_True split: option.split_asm if_split_asm) (blast intro: line_reason_members)+
  next
    case False
    show ?thesis
    proof (cases "scan_value v")
      case (Inl x)
      then have "e = x" using assms(1) False by (simp add: check_value_def)
      then show ?thesis using scan_value_error [OF Inl] by blast
    next
      case (Inr y)
      obtain n l k where y: "y = (n, l, k)" by (cases y)
      note eq = assms(1) [unfolded check_value_def if_not_P [OF False] Inr y bindE_simps prod.case]
      show ?thesis using eq
        by (simp only: split: if_split_asm) (blast intro: line_reason_members key_reason_members)+
    qed
  qed
  then have "e \<in> set line_reasons \<or> e \<in> set (key_reasons key)" by auto
  then show ?thesis using reason_in_file assms(2) by blast
qed

lemma check_line_error:
  assumes "check_line parse_table path lines (n, line) = Inl e"
  shows "discloses_only_line path e"
proof -
  have "\<exists>reason. reason \<in> set file_reasons
      \<and> Inl (config_line_error path n reason) = (Inl e :: runner_error + (string, nat) btree)"
    using assms unfolding check_line_def Let_def prod.case
    by (simp only: split: if_split_asm sum.split_asm)
      (blast intro: reason_in_file(1) [OF line_reason_members(1)] reason_in_file(1) [OF line_reason_members(2)]
        reason_in_file(1) [OF line_reason_members(3)] reason_in_file(2) [OF key_reason_members(1)]
        check_value_error)+
  then show ?thesis using config_line_errorI by auto
qed

lemma check_lines_error:
  "foldE (check_line parse_table path) lines (enumerate n ls) = Inl e \<Longrightarrow> discloses_only_line path e"
  by (induction ls arbitrary: lines n) (auto simp: bindE_eq_Inl dest: check_line_error)

lemma parse_file_error: "parse_file parse_table source path = Inl e \<Longrightarrow> discloses_only_line path e"
  by (auto simp: parse_file_def bindE_eq_Inl validate_flat_toml_def ok_or_def
      intro!: config_line_errorI reason_in_file(1) dest: check_lines_error split: option.splits)

lemma load_and_apply_error:
  assumes "load_and_apply kind path (parse_file parse_table source path) c = Inl (e, c')"
  shows "discloses_only_line path e"
  using assms apply_file_error parse_file_error by (auto simp: load_and_apply_def bindE_eq_Inl)

text \<open>A failed step leaves the configuration it was given, so a refused value is in no setting.\<close>

lemma apply_file_key_refused:
  "apply_file_key loaded s c key = Inl (e, c') \<Longrightarrow> c' = c"
  by (auto simp: apply_file_key_def Let_def split: option.splits)

lemma apply_keys_refused:
  assumes "foldE (apply_file_key loaded (source_of kind path)) c settings = Inl (e, c')"
  shows "\<exists>accepted refused rest. settings = accepted @ refused # rest
    \<and> foldE (apply_file_key loaded (source_of kind path)) c accepted = Inr c'
    \<and> apply_file_key loaded (source_of kind path) c' refused = Inl (e, c')
    \<and> (\<forall>k. k \<notin> set accepted \<longrightarrow> view k c' = view k c)"
proof -
  obtain accepted refused rest d where split: "settings = accepted @ refused # rest"
      and run: "foldE (apply_file_key loaded (source_of kind path)) c accepted = Inr d"
      and refused: "apply_file_key loaded (source_of kind path) d refused = Inl (e, c')"
    using foldE_stops_at [OF assms] by blast
  have d: "c' = d" using refused by (rule apply_file_key_refused)
  have "distinct accepted" using settings_distinct unfolding split by simp
  then have "\<forall>k. k \<notin> set accepted \<longrightarrow> view k d = view k c"
    using file_layer.apply_keys_view [OF run] by simp
  then show ?thesis using split run refused unfolding d by blast
qed

lemma apply_file_refused:
  assumes "apply_file c loaded (source_of kind path) = Inl (e, c')"
  shows "bt_get (lf_values loaded) ''service_environment'' \<noteq> None \<and> kind \<noteq> UserFile \<and> c' = c
    \<or> (\<exists>accepted refused rest. settings = accepted @ refused # rest
        \<and> foldE (apply_file_key loaded (source_of kind path)) c accepted = Inr c'
        \<and> apply_file_key loaded (source_of kind path) c' refused = Inl (e, c')
        \<and> (\<forall>k. k \<notin> set accepted \<longrightarrow> view k c' = view k c))"
proof (cases "bt_get (lf_values loaded) ''service_environment'' \<noteq> None \<and> kind \<noteq> UserFile")
  case True
  then have "c' = c" using assms by (simp add: apply_file_def source_of_def)
  with True show ?thesis by blast
next
  case False
  then have "\<not> (bt_get (lf_values loaded) ''service_environment'' \<noteq> None \<and> cs_kind (source_of kind path) \<noteq> UserFile)"
    by (simp add: source_of_def)
  then have "foldE (apply_file_key loaded (source_of kind path)) c settings = Inl (e, c')"
    using assms unfolding apply_file_def by (simp only: if_False)
  from apply_keys_refused [OF this] show ?thesis by blast
qed

text \<open>
  Property C23.  The value for which a configuration file is refused is not disclosed.  Whatever the file
  holds, the reason of the error is one of finitely many fixed texts, which name at most a known key, and
  its source is the path of the file and a line number; the rest is the explanation of a configuration
  that does not hold the refused value.  When the text of the file is refused, or a project file names a
  service environment, this is the configuration from before the file, untouched by any value of it.
  Otherwise it is what the settings accepted before the refused one made of that configuration, in the
  order of the settings: the refused setting and all later ones are as they were before the file.
\<close>

theorem file_errors_disclose_no_refused_value:
  assumes "apply_optional_file kind (Some (parse_file parse_table source path, path)) c = Inl e"
  shows "\<exists>n reason c'. reason \<in> set file_reasons \<and> e = explanation_error (config_line_error path n reason) c'
    \<and> (case parse_file parse_table source path of
         Inl _ \<Rightarrow> c' = c
       | Inr loaded \<Rightarrow>
           bt_get (lf_values loaded) ''service_environment'' \<noteq> None \<and> kind \<noteq> UserFile \<and> c' = c
           \<or> (\<exists>accepted refused rest. settings = accepted @ refused # rest
               \<and> foldE (apply_file_key loaded (source_of kind path)) c accepted = Inr c'
               \<and> apply_file_key loaded (source_of kind path) c' refused = Inl (config_line_error path n reason, c')
               \<and> (\<forall>k. k \<notin> set accepted \<longrightarrow> view k c' = view k c)))"
proof -
  obtain e' c' where run: "load_and_apply kind path (parse_file parse_table source path) c = Inl (e', c')"
      and e: "e = explanation_error e' c'"
    using assms by (auto simp: apply_optional_file_def mapE_eq_Inl explained_def split: sum.splits)
  obtain n reason where reason: "reason \<in> set file_reasons" "e' = config_line_error path n reason"
    using load_and_apply_error [OF run] unfolding discloses_only_line_def by blast
  show ?thesis
  proof (cases "parse_file parse_table source path")
    case (Inl x)
    then have "c' = c" using run by (simp add: load_and_apply_def)
    then show ?thesis unfolding Inl sum.case using reason e by blast
  next
    case (Inr loaded)
    then have "apply_file c loaded (source_of kind path) = Inl (e', c')" using run by (simp add: load_and_apply_def)
    from apply_file_refused [OF this] show ?thesis
      unfolding Inr sum.case e reason(2) by (intro exI conjI) (rule reason(1), rule refl)
  qed
qed

text \<open>A file whose harness is accepted before its output is refused, and what its error holds.\<close>

definition refused_source :: string where
  "refused_source = ''harness = '' @ CHR 0x22 # ''mock'' @ CHR 0x22 # LF # ''output = '' @ CHR 0x22 # ''secret'' @ [CHR 0x22]"

definition refused_table :: toml_table where
  "refused_table = [(''harness'', TStr ''mock''), (''output'', TStr ''secret'')]"

definition refused_loaded :: loaded_file_config where
  "refused_loaded = \<lparr>lf_values = [(''harness'', RText ''mock''), (''output'', RText ''secret'')],
     lf_lines = [(''harness'', 1), (''output'', 2)]\<rparr>"

lemma refused_parsed: "parse_file (\<lambda>_. Some refused_table) refused_source ''/c'' = Inr refused_loaded"
proof -
  have "split_on (\<lambda>c. c = LF) refused_source
      = [''harness = '' @ CHR 0x22 # ''mock'' @ [CHR 0x22], ''output = '' @ CHR 0x22 # ''secret'' @ [CHR 0x22]]"
    by (simp add: refused_source_def LF_def)
  moreover have "check_line (\<lambda>_. Some refused_table) ''/c'' [] (1, ''harness = '' @ CHR 0x22 # ''mock'' @ [CHR 0x22])
      = Inr [(''harness'', 1)]"
    by code_simp
  moreover have "check_line (\<lambda>_. Some refused_table) ''/c'' [(''harness'', 1)] (2, ''output = '' @ CHR 0x22 # ''secret'' @ [CHR 0x22])
      = Inr [(''harness'', 1), (''output'', 2)]"
    by code_simp
  ultimately show ?thesis unfolding parse_file_def validate_flat_toml_def
    by (simp add: refused_loaded_def refused_table_def List.map_filter_def numeral_2_eq_2)
qed

lemma refused_output: "apply_file_key refused_loaded s c Output \<noteq> Inr d"
proof -
  have "file_key Output = ''output''" by code_simp
  then show ?thesis
    by (simp add: apply_file_key_def refused_loaded_def assign_setting_def validate_setting_def validate_text_def
        parse_output_mode_def Let_def)
qed

lemma steps_succeed: "\<lbrakk>foldE step s is = Inr t; i \<in> set is\<rbrakk> \<Longrightarrow> \<exists>u v. step u i = Inr v"
  by (induction "is" arbitrary: s) (auto simp: bindE_eq_Inr)

lemma file_errors_disclose_no_refused_value_witness:
  "\<exists>e n reason c'. apply_optional_file ProjectFile (Some (parse_file (\<lambda>_. Some refused_table) refused_source ''/c'', ''/c''))
         (defaults True ''/w'' None None) = Inl e
     \<and> reason \<in> set file_reasons \<and> e = explanation_error (config_line_error ''/c'' n reason) c'
     \<and> view Output c' = view Output (defaults True ''/w'' None None)"
proof -
  let ?c = "defaults True ''/w'' None None" and ?s = "source_of ProjectFile ''/c''"
  have "foldE (apply_file_key refused_loaded ?s) ?c settings \<noteq> Inr d" for d
    using steps_succeed [of "apply_file_key refused_loaded ?s" ?c settings d Output] refused_output by auto
  moreover have "bt_get (lf_values refused_loaded) ''service_environment'' = None" by (simp add: refused_loaded_def)
  ultimately obtain e where run: "apply_optional_file ProjectFile
      (Some (parse_file (\<lambda>_. Some refused_table) refused_source ''/c'', ''/c'')) ?c = Inl e"
    by (cases "foldE (apply_file_key refused_loaded ?s) ?c settings")
      (auto simp: refused_parsed apply_optional_file_def load_and_apply_def apply_file_def explained_def)
  obtain n reason c' accepted where "reason \<in> set file_reasons" "e = explanation_error (config_line_error ''/c'' n reason) c'"
    and before: "foldE (apply_file_key refused_loaded ?s) ?c accepted = Inr c'"
    and kept: "\<forall>k. k \<notin> set accepted \<longrightarrow> view k c' = view k ?c"
    using file_errors_disclose_no_refused_value [OF run] unfolding refused_parsed sum.case
    by (auto simp: refused_loaded_def simp del: view.simps)
  moreover have "Output \<notin> set accepted" using steps_succeed [OF before] refused_output by blast
  ultimately show ?thesis using run by blast
qed
end
