(* ===== verification/Config_Checks.thy ===== *)
theory Config_Checks
  imports Config_Layers
begin

text \<open>
  What \<open>config.rs\<close> does after the layers: the defaults that depend on the harness and the
  compatibility of inherited selections (\<open>contextual_defaults\<close>), the checks across settings
  (\<open>native_checks\<close>), the histories of candidates (\<open>sanitize_overridden_profiles\<close>,
  \<open>finalize_candidates\<close>), and the whole resolution.  The resolution of a directory against the working
  directory (\<open>canonicalize\<close>, \<open>is_dir\<close>) is the argument \<open>real_directory\<close>.
\<close>

section \<open>Defaults of a harness\<close>

definition kind_rank :: "string option \<Rightarrow> nat" where
  "kind_rank kind =
     (if kind = Some ''user-config'' then 1 else if kind = Some ''project-config'' then 2
      else if kind = Some ''environment'' then 3 else if kind = Some ''flag'' then 4 else 0)"

definition source_rank :: "config_source \<Rightarrow> nat" where
  "source_rank s = kind_rank (Some (kind_name (cs_kind s)))"

definition candidate_rank :: "json \<Rightarrow> nat" where
  "candidate_rank candidate = kind_rank (as_str (jidx (jidx candidate ''source'') ''kind''))"

text \<open>The last harness of the history that a layer up to the given one chose.\<close>

definition harness_owner :: "(string, json list) btree \<Rightarrow> nat \<Rightarrow> json option" where
  "harness_owner candidates up_to =
     Option.bind (bt_get candidates ''harness'') (\<lambda>history.
       find (\<lambda>candidate. candidate_rank candidate \<le> up_to) (rev history))"

definition location_or :: "string \<Rightarrow> config_source \<Rightarrow> string" where
  "location_or other s = (case cs_location s of Some l \<Rightarrow> l | None \<Rightarrow> other)"

definition inherited_ok ::
  "effective_config \<Rightarrow> string option sourced_value \<Rightarrow> string \<Rightarrow> runner_error + unit" where
  "inherited_ok c setting fk =
     (let selection_rank = source_rank (sv_source setting) in
      if sv_value setting \<noteq> None \<and> selection_rank > 0
         \<and> selection_rank < source_rank (sv_source (ec_harness c))
         \<and> opt_ex (\<lambda>candidate. jidx candidate ''value'' \<noteq> JStr (sv_value (ec_harness c)))
             (harness_owner (ec_candidates c) selection_rank)
      then Inl (setting_error
             (''Inherited '' @ fk @ '' belongs to a different harness; replace it at the harness-selecting layer.'')
             (location_or ''configuration'' (sv_source setting)))
      else Inr ())"

definition harness_defaults :: "string \<Rightarrow> string option \<times> string option" where
  "harness_defaults harness =
     (if harness = ''agents-sdk'' then (Some ''gpt-6.1-sol'', Some ''openai-api-key'')
      else if harness = ''codex'' then (None, Some ''cached-chatgpt-login'')
      else if harness = ''claude'' then (None, Some ''claude-subscription'')
      else (None, None))"

definition default_setting :: "string \<Rightarrow> string option \<Rightarrow> string option sourced_value \<Rightarrow> string option sourced_value" where
  "default_setting harness v setting =
     (if cs_kind (sv_source setting) = Default
      then sourced v (if v \<noteq> None then (sv_source setting)\<lparr>cs_location := Some (''built-in:'' @ harness)\<rparr>
                      else sv_source setting)
      else setting)"

definition is_fully_qualified_provider_model :: "string \<Rightarrow> bool" where
  "is_fully_qualified_provider_model model \<longleftrightarrow>
     (let segments = split_on (\<lambda>c. c = CHR ''/'') model in
      list_all (\<lambda>s. s \<noteq> [] \<and> \<not> list_ex (\<lambda>c. is_whitespace c \<or> is_control c) (chars s)) segments
      \<and> length segments > 1)"

definition check_model :: "effective_config \<Rightarrow> runner_error + unit" where
  "check_model c =
     (let harness = sv_value (ec_harness c) in
      if (harness = ''prime'' \<or> harness = ''omp'')
         \<and> opt_ex (\<lambda>m. \<not> is_fully_qualified_provider_model m) (sv_value (ec_model c))
      then Inl (with_detail (setting_error
             ''Prime and OMP models must be a fully qualified provider/model with no empty, whitespace, or control-character segments.''
             (location_or ''configuration'' (sv_source (ec_model c))))
             ''adapterId'' (JStr (if harness = ''prime'' then adapter_id PrimeRpc else adapter_id OmpRpc)))
      else Inr ())"

definition check_profile :: "effective_config \<Rightarrow> runner_error + unit" where
  "check_profile c =
     (case (sv_value (ec_auth_profile c), for_harness (sv_value (ec_harness c))) of
        (Some profile, Some a) \<Rightarrow>
          if profile \<notin> set (auth_profiles a)
          then Inl (with_detail (with_detail (setting_error
                 ''Authentication profile is incompatible with the selected harness.''
                 (location_or ''built-in'' (sv_source (ec_auth_profile c))))
                 ''adapterId'' (JStr (adapter_id a))) ''supportedAuthProfiles'' (jstrs (auth_profiles a)))
          else Inr ()
      | _ \<Rightarrow> Inr ())"

definition contextual_defaults :: "effective_config \<Rightarrow> applied" where
  "contextual_defaults c =
     bindE (blame c (inherited_ok c (ec_model c) ''model'')) (\<lambda>_.
     bindE (blame c (inherited_ok c (ec_auth_profile c) ''auth_profile'')) (\<lambda>_.
       let harness = sv_value (ec_harness c);
           c1 = c\<lparr>ec_model := default_setting harness (fst (harness_defaults harness)) (ec_model c),
                  ec_auth_profile :=
                    default_setting harness (snd (harness_defaults harness)) (ec_auth_profile c)\<rparr>
       in bindE (blame c1 (check_model c1)) (\<lambda>_. bindE (blame c1 (check_profile c1)) (\<lambda>_. Inr c1))))"

section \<open>Checks across settings\<close>

definition first_source :: "effective_config \<Rightarrow> setting_key list \<Rightarrow> string option" where
  "first_source c keys =
     find_map (\<lambda>k. let s = snd (view k c) in if cs_kind s \<noteq> Default then cs_location s else None) keys"

definition native_error :: "effective_config \<Rightarrow> string \<Rightarrow> setting_key list \<Rightarrow> runner_error" where
  "native_error c reason keys =
     (case first_source c keys of
        Some location \<Rightarrow> with_detail (config_error reason) ''source'' (JStr location)
      | None \<Rightarrow> config_error reason)"

definition permission_admitted :: "string \<Rightarrow> string \<Rightarrow> bool" where
  "permission_admitted harness permission \<longleftrightarrow>
     harness = ''claude'' \<and> permission \<in> set [''default'', ''acceptEdits'']
     \<or> harness = ''codex'' \<and> permission \<in> set [''workspace-write'', ''read-only'']"

definition budget_keys :: "setting_key list" where
  "budget_keys = [NativeMaxTurns, NativeTimeout, NativeToolTimeout]"

definition native_keys :: "setting_key list" where
  "native_keys = [NativeProfile, NativeAddDirs, NativeAllowTools]"

definition check_codex :: "effective_config \<Rightarrow> runner_error + unit" where
  "check_codex c =
     require (sv_value (ec_codex_compatibility c) = ''qualified'' \<or> sv_value (ec_harness c) = ''codex'')
       (native_error c ''Codex compatibility probe requires the codex harness.'' [CodexCompatibility])"

definition check_permission :: "effective_config \<Rightarrow> runner_error + unit" where
  "check_permission c =
     require (opt_all (permission_admitted (sv_value (ec_harness c))) (sv_value (ec_permission_mode c)))
       (let e = native_error c ''Unsupported explicit permission mode for this harness.'' [PermissionMode] in
        case for_harness (sv_value (ec_harness c)) of
          Some a \<Rightarrow> with_detail e ''adapterId'' (JStr (adapter_id a)) | None \<Rightarrow> e)"

definition check_budgets :: "effective_config \<Rightarrow> runner_error + unit" where
  "check_budgets c =
     bindE (require (sv_value (ec_harness c) = ''agents-sdk'' \<or> first_source c budget_keys = None)
       (native_error c ''Native budget options are supported only by agents-sdk.'' budget_keys)) (\<lambda>_.
     require (sv_value (ec_native_output_bytes c) = None \<or> sv_value (ec_output_contract c) = ''native'')
       (native_error c ''Native output bytes require native output mode.'' [NativeOutputBytes]))"

definition resolve_directories ::
  "(string \<Rightarrow> string \<Rightarrow> string option) \<Rightarrow> effective_config \<Rightarrow> runner_error + string list" where
  "resolve_directories real_directory c =
     traverseE (\<lambda>d. ok_or (native_error c
         ''Native additional directory does not exist or is not a directory.'' [NativeAddDirs])
       (real_directory (ec_cwd c) d)) (sv_value (ec_native_add_dirs c))"

definition check_workspace ::
  "(string \<Rightarrow> string \<Rightarrow> string option) \<Rightarrow> effective_config \<Rightarrow> runner_error + effective_config" where
  "check_workspace real_directory c =
     (if first_source c native_keys = None then Inr c
      else if sv_value (ec_native_profile c) = ''default'' then
        mapE (\<lambda>_. c) (require (sv_value (ec_native_add_dirs c) = [] \<and> sv_value (ec_native_allow_tools c) = [])
          (native_error c ''Native directory and tool rules require claude-workspace-tools.'' native_keys))
      else
        bindE (require (sv_value (ec_harness c) = ''claude'')
          (native_error c ''Native workspace profile is supported only by Claude.'' native_keys)) (\<lambda>_.
        bindE (require (\<not> list_ex (starts_with ''-'') (sv_value (ec_native_allow_tools c)))
          (native_error c ''Native permission rules cannot start with a dash.'' [NativeAllowTools])) (\<lambda>_.
        mapE (\<lambda>dirs. c\<lparr>ec_native_add_dirs := (ec_native_add_dirs c)\<lparr>sv_value := dirs\<rparr>\<rparr>)
          (resolve_directories real_directory c))))"

definition native_checks ::
  "(string \<Rightarrow> string \<Rightarrow> string option) \<Rightarrow> effective_config \<Rightarrow> applied" where
  "native_checks real_directory c =
     blame c (bindE (check_codex c) (\<lambda>_. bindE (check_permission c) (\<lambda>_. bindE (check_budgets c) (\<lambda>_.
       check_workspace real_directory c))))"

section \<open>Histories\<close>

text \<open>An overridden profile that the harness of its layer does not know is left out, with a warning.\<close>

definition profile_valid :: "(string, json list) btree \<Rightarrow> json \<Rightarrow> bool" where
  "profile_valid candidates candidate \<longleftrightarrow>
     (case as_str (jidx candidate ''value'') of
        None \<Rightarrow> True
      | Some profile \<Rightarrow>
          opt_all (\<lambda>a. profile \<in> set (auth_profiles a))
            (Option.bind (Option.bind (harness_owner candidates (candidate_rank candidate))
               (\<lambda>owner. as_str (jidx owner ''value''))) for_harness))"

definition omitted_profile :: "json \<Rightarrow> json" where
  "omitted_profile candidate =
     jobj [(''code'', JStr ''CONFIG_CANDIDATE_INVALID''), (''severity'', JStr ''warning''),
           (''source'', jidx (jidx candidate ''source'') ''location''),
           (''reason'', JStr ''Incompatible overridden authentication profile is omitted.'')]"

definition sanitize_overridden_profiles :: "effective_config \<Rightarrow> effective_config" where
  "sanitize_overridden_profiles c =
     (case bt_get (ec_candidates c) ''authProfile'' of
        None \<Rightarrow> c
      | Some history \<Rightarrow>
          (let valid = profile_valid (ec_candidates c) in
           c\<lparr>ec_candidates := bt_insert ''authProfile'' (filter valid history) (ec_candidates c),
             ec_diagnostics := ec_diagnostics c @ map omitted_profile (filter (Not \<circ> valid) history)\<rparr>))"

section \<open>Resolution\<close>

text \<open>What looking for the configuration files found (\<open>discover_project_config\<close>, the user's two files).\<close>

record discovery =
  fd_published :: bool
  fd_cwd :: string
  fd_project :: "string option"
  fd_user :: string
  fd_legacy :: "string option"
  fd_diagnostics :: "json list"
  fd_locations :: "json list"

definition initial_config :: "discovery \<Rightarrow> global_flags \<Rightarrow> effective_config" where
  "initial_config found flags =
     (let c = (defaults (fd_published found) (fd_cwd found) (fd_project found) (Some (fd_user found)))
            \<lparr>ec_legacy_user_config := fd_legacy found, ec_diagnostics := fd_diagnostics found,
             ec_locations := fd_locations found\<rparr>
      in if gf_cwd flags \<noteq> None then c\<lparr>ec_cwd_source := source_of Flag ''--cwd''\<rparr> else c)"

definition resolve_settings ::
  "(string \<Rightarrow> string \<Rightarrow> string option) \<Rightarrow> runner_error + unit \<Rightarrow> discovery \<Rightarrow> file_layer \<Rightarrow> file_layer
    \<Rightarrow> (string, string) btree \<Rightarrow> global_flags \<Rightarrow> runner_error + effective_config" where
  "resolve_settings real_directory selection found user project environment flags =
     bindE (apply_layers (if map_option snd user = map_option snd project then None else user)
         project environment flags (initial_config found flags)) (\<lambda>c.
     bindE selection (\<lambda>_.
     bindE (explained (contextual_defaults c)) (\<lambda>c1.
     mapE (\<lambda>c2. finalize_candidates (sanitize_overridden_profiles c2))
       (explained (native_checks real_directory c1)))))"

section \<open>Consistency of the result\<close>

text \<open>A setting is its default, or a layer set it and its source says where.\<close>

definition settled :: "bool \<Rightarrow> effective_config \<Rightarrow> setting_key \<Rightarrow> bool" where
  "settled published c k \<longleftrightarrow>
     view k c = view k (defaults published [] None None)
     \<or> cs_kind (snd (view k c)) \<noteq> Default \<and> cs_location (snd (view k c)) \<noteq> None"

lemma initial_view: "view k (initial_config found flags) = view k (defaults (fd_published found) [] None None)"
  by (cases k) (simp_all add: initial_config_def Let_def defaults_def)

lemma layers_settled:
  assumes "apply_layers user project environment flags (initial_config found flags) = Inr c"
  shows "settled (fd_published found) c k"
  unfolding settled_def view_apply_layers [OF assms, of k] initial_view
  by (auto simp: overlay_def layer_of_flags_def layer_of_environment_def layer_of_file_def source_of_def
      bind_eq_Some_conv split: option.splits sum.splits)

lemma contextual_view:
  "\<lbrakk>contextual_defaults c = Inr c'; k \<noteq> Model; k \<noteq> AuthProfile\<rbrakk> \<Longrightarrow> view k c' = view k c"
  by (cases k) (auto simp: contextual_defaults_def Let_def bindE_eq_Inr)

lemma first_source_None:
  assumes "first_source c keys = None" and "k \<in> set keys" and "settled published c k"
  shows "view k c = view k (defaults published [] None None)"
  using assms by (induction keys) (auto simp: first_source_def settled_def Let_def split: option.splits if_splits)

text \<open>What each check admits.\<close>

lemma check_model_ok:
  "check_model c = Inr () \<longleftrightarrow>
     (sv_value (ec_harness c) \<in> {''prime'', ''omp''} \<longrightarrow>
        opt_all is_fully_qualified_provider_model (sv_value (ec_model c)))"
  by (auto simp: check_model_def Let_def opt_all_def opt_ex_def split: option.splits)

lemma check_profile_ok:
  "check_profile c = Inr () \<longleftrightarrow>
     opt_all (\<lambda>p. opt_all (\<lambda>a. p \<in> set (auth_profiles a)) (for_harness (sv_value (ec_harness c))))
       (sv_value (ec_auth_profile c))"
  by (auto simp: check_profile_def opt_all_def split: option.splits)

lemma contextual_ok:
  assumes "contextual_defaults c = Inr c'"
  shows "check_model c' = Inr ()" and "check_profile c' = Inr ()" and "ec_cwd c' = ec_cwd c"
  using assms by (auto simp: contextual_defaults_def Let_def bindE_eq_Inr)

text \<open>The settings that the workspace check may change are the directories alone.\<close>

definition agrees :: "effective_config \<Rightarrow> effective_config \<Rightarrow> bool" where
  "agrees c d \<longleftrightarrow> (\<exists>dirs m ds. d = c\<lparr>ec_native_add_dirs := dirs, ec_candidates := m, ec_diagnostics := ds\<rparr>)"

lemma agrees_fields:
  assumes "agrees c d"
  shows "ec_harness d = ec_harness c" and "ec_model d = ec_model c" and "ec_auth_profile d = ec_auth_profile c"
    and "ec_permission_mode d = ec_permission_mode c"
    and "ec_codex_compatibility d = ec_codex_compatibility c"
    and "ec_native_max_turns d = ec_native_max_turns c" and "ec_native_timeout d = ec_native_timeout c"
    and "ec_native_tool_timeout d = ec_native_tool_timeout c"
    and "ec_native_output_bytes d = ec_native_output_bytes c"
    and "ec_output_contract d = ec_output_contract c"
    and "ec_native_profile d = ec_native_profile c"
    and "ec_native_allow_tools d = ec_native_allow_tools c" and "ec_cwd d = ec_cwd c"
  using assms by (auto simp: agrees_def)

definition workspace_ok :: "(string \<Rightarrow> string \<Rightarrow> string option) \<Rightarrow> effective_config \<Rightarrow> bool" where
  "workspace_ok real_directory c \<longleftrightarrow>
     (if sv_value (ec_native_profile c) = ''default''
      then sv_value (ec_native_add_dirs c) = [] \<and> sv_value (ec_native_allow_tools c) = []
      else sv_value (ec_harness c) = ''claude''
        \<and> (\<forall>d \<in> set (sv_value (ec_native_add_dirs c)). \<exists>p. real_directory (ec_cwd c) p = Some d)
        \<and> (\<forall>rule \<in> set (sv_value (ec_native_allow_tools c)). \<not> starts_with ''-'' rule))"

lemma traverse_members: "traverseE f xs = Inr ys \<Longrightarrow> y \<in> set ys \<Longrightarrow> \<exists>x. f x = Inr y"
  by (induction xs arbitrary: ys) (auto simp: bindE_eq_Inr mapE_eq_Inr)

lemma native_default_view:
  assumes "first_source c native_keys = None" and "\<And>k. settled published c k \<or> k = Model \<or> k = AuthProfile"
  shows "sv_value (ec_native_profile c) = ''default''" and "sv_value (ec_native_add_dirs c) = []"
    and "sv_value (ec_native_allow_tools c) = []"
proof -
  have "view k c = view k (defaults published [] None None)" if "k \<in> set native_keys" for k
    using first_source_None [OF assms(1) that] assms(2) [of k] that by (auto simp: native_keys_def)
  from this [of NativeProfile] this [of NativeAddDirs] this [of NativeAllowTools]
  show "sv_value (ec_native_profile c) = ''default''" and "sv_value (ec_native_add_dirs c) = []"
    and "sv_value (ec_native_allow_tools c) = []"
    by (simp_all add: native_keys_def as_view_def defaults_def sourced_def jstrs_def)
qed

lemma check_workspace_ok:
  assumes "check_workspace real_directory c = Inr c'"
    and "\<And>k. settled published c k \<or> k = Model \<or> k = AuthProfile"
  shows "agrees c c' \<and> workspace_ok real_directory c'"
proof (cases "first_source c native_keys = None")
  case True
  then show ?thesis using assms(1) native_default_view [OF True assms(2)]
    by (auto simp: check_workspace_def workspace_ok_def agrees_def intro!: exI [of _ "ec_native_add_dirs c"]
        exI [of _ "ec_candidates c"] exI [of _ "ec_diagnostics c"])
next
  case False
  show ?thesis
  proof (cases "sv_value (ec_native_profile c) = ''default''")
    case True
    then show ?thesis using assms(1) False
      by (auto simp: check_workspace_def workspace_ok_def agrees_def mapE_eq_Inr require_eq_Inr
          intro!: exI [of _ "ec_native_add_dirs c"] exI [of _ "ec_candidates c"] exI [of _ "ec_diagnostics c"])
  next
    case Other: False
    then obtain dirs where h: "sv_value (ec_harness c) = ''claude''"
        "\<not> list_ex (starts_with ''-'') (sv_value (ec_native_allow_tools c))"
      and dirs: "resolve_directories real_directory c = Inr dirs"
      and c': "c' = c\<lparr>ec_native_add_dirs := (ec_native_add_dirs c)\<lparr>sv_value := dirs\<rparr>\<rparr>"
      using assms(1) False
      by (auto simp: check_workspace_def bindE_eq_Inr mapE_eq_Inr require_eq_Inr)
    have "\<exists>p. real_directory (ec_cwd c) p = Some d" if "d \<in> set dirs" for d
      using traverse_members [OF dirs [unfolded resolve_directories_def] that] by (auto simp: ok_or_eq_Inr)
    then show ?thesis using h Other unfolding c'
      by (auto simp: workspace_ok_def agrees_def list_ex_iff
          intro!: exI [of _ "(ec_native_add_dirs c)\<lparr>sv_value := dirs\<rparr>"] exI [of _ "ec_candidates c"] exI [of _ "ec_diagnostics c"])
  qed
qed

lemma check_budgets_ok:
  assumes "check_budgets c = Inr ()" and "\<And>k. settled published c k \<or> k = Model \<or> k = AuthProfile"
  shows "sv_value (ec_harness c) = ''agents-sdk'' \<or> sv_value (ec_native_max_turns c) = None
    \<and> sv_value (ec_native_timeout c) = None \<and> sv_value (ec_native_tool_timeout c) = None"
proof (cases "sv_value (ec_harness c) = ''agents-sdk''")
  case False
  then have none: "first_source c budget_keys = None"
    using assms(1) by (simp add: check_budgets_def bindE_eq_Inr require_eq_Inr)
  have "view k c = view k (defaults published [] None None)" if "k \<in> set budget_keys" for k
    using first_source_None [OF none that] assms(2) [of k] that by (auto simp: budget_keys_def)
  from this [of NativeMaxTurns] this [of NativeTimeout] this [of NativeToolTimeout] show ?thesis
    by (simp add: budget_keys_def as_view_def defaults_def sourced_def opt_json_def split: option.splits)
qed simp

lemma agrees_candidates: "agrees c (c\<lparr>ec_candidates := m, ec_diagnostics := ds\<rparr>)"
  unfolding agrees_def by (intro exI [of _ "ec_native_add_dirs c"] exI [of _ m] exI [of _ ds]) simp

lemma finished_agrees: "agrees c (finalize_candidates (sanitize_overridden_profiles c))"
proof -
  obtain m ds where m: "sanitize_overridden_profiles c = c\<lparr>ec_candidates := m, ec_diagnostics := ds\<rparr>"
  proof (cases "bt_get (ec_candidates c) ''authProfile''")
    case None
    then show thesis
      by (intro that [where m = "ec_candidates c" and ds = "ec_diagnostics c"]) (simp add: sanitize_overridden_profiles_def)
  next
    case (Some h)
    then show thesis by (intro that) (simp add: sanitize_overridden_profiles_def Let_def)
  qed
  have twice: "c\<lparr>ec_candidates := m, ec_diagnostics := ds, ec_candidates := m'\<rparr>
      = c\<lparr>ec_candidates := m', ec_diagnostics := ds\<rparr>" for m' by simp
  show ?thesis unfolding m finalize_candidates_def twice by (rule agrees_candidates)
qed

lemma finished_dirs:
  "ec_native_add_dirs (finalize_candidates (sanitize_overridden_profiles c)) = ec_native_add_dirs c"
  by (simp add: finalize_candidates_def sanitize_overridden_profiles_def Let_def split: option.split)

lemma native_checks_ok:
  assumes "native_checks real_directory c = Inr c'"
    and "\<And>k. settled published c k \<or> k = Model \<or> k = AuthProfile"
  shows "agrees c c'" and "workspace_ok real_directory c'"
    and "check_codex c = Inr ()" and "check_permission c = Inr ()" and "check_budgets c = Inr ()"
  using assms check_workspace_ok [OF _ assms(2)] by (auto simp: native_checks_def bindE_eq_Inr)

text \<open>The settings of a resolved configuration fit each other.\<close>

definition consistent :: "(string \<Rightarrow> string \<Rightarrow> string option) \<Rightarrow> effective_config \<Rightarrow> bool" where
  "consistent real_directory c \<longleftrightarrow>
     (let harness = sv_value (ec_harness c) in
      (sv_value (ec_auth_profile c) = None
        \<or> opt_all (\<lambda>a. the (sv_value (ec_auth_profile c)) \<in> set (auth_profiles a)) (for_harness harness))
      \<and> (harness \<in> {''prime'', ''omp''} \<longrightarrow>
           opt_all is_fully_qualified_provider_model (sv_value (ec_model c)))
      \<and> (sv_value (ec_permission_mode c) = None
        \<or> harness = ''claude'' \<and> sv_value (ec_permission_mode c) \<in> {Some ''default'', Some ''acceptEdits''}
        \<or> harness = ''codex'' \<and> sv_value (ec_permission_mode c) \<in> {Some ''workspace-write'', Some ''read-only''})
      \<and> (sv_value (ec_codex_compatibility c) = ''qualified'' \<or> harness = ''codex'')
      \<and> (harness = ''agents-sdk'' \<or> sv_value (ec_native_max_turns c) = None
           \<and> sv_value (ec_native_timeout c) = None \<and> sv_value (ec_native_tool_timeout c) = None)
      \<and> (sv_value (ec_native_output_bytes c) = None \<or> sv_value (ec_output_contract c) = ''native'')
      \<and> workspace_ok real_directory c)"

text \<open>
  Property C22.  Whatever the files, the environment and the flags hold, a configuration that is
  resolved is consistent: the authentication profile is one the harness has, Prime and OMP models are
  fully qualified, the permission mode is one the harness admits, a compatibility probe needs codex,
  budgets need agents-sdk, an output budget needs the native contract, and directory and tool rules
  need the workspace profile of Claude, with every directory resolved and no rule an option.
\<close>

theorem resolved_configuration_is_consistent:
  assumes "resolve_settings real_directory selection found user project environment flags = Inr c"
  shows "consistent real_directory c"
proof -
  obtain user' c0 c1 c2 where c0: "apply_layers user' project environment flags (initial_config found flags) = Inr c0"
    and c1: "contextual_defaults c0 = Inr c1" and c2: "native_checks real_directory c1 = Inr c2"
    and c: "c = finalize_candidates (sanitize_overridden_profiles c2)"
    using assms by (auto simp: resolve_settings_def bindE_eq_Inr mapE_eq_Inr)
  have settled: "settled (fd_published found) c1 k \<or> k = Model \<or> k = AuthProfile" for k
    using layers_settled [OF c0, of k] contextual_view [OF c1, of k] by (auto simp: settled_def)
  note ok = native_checks_ok [OF c2 settled]
  note checked = contextual_ok(1,2) [OF c1] ok(3,4) check_budgets_ok [OF ok(5) settled]
  note fields = agrees_fields [OF finished_agrees [of c2], folded c] agrees_fields [OF ok(1)]
  have "workspace_ok real_directory c"
    using ok(2) by (simp add: workspace_ok_def fields(1-13) finished_dirs [of c2, folded c])
  moreover have "sv_value (ec_native_output_bytes c1) = None \<or> sv_value (ec_output_contract c1) = ''native''"
    using ok(5) by (simp add: check_budgets_def bindE_eq_Inr require_eq_Inr)
  ultimately show ?thesis using checked unfolding consistent_def Let_def fields
    by (auto simp: check_model_ok check_profile_ok check_codex_def check_permission_def permission_admitted_def
        require_eq_Inr opt_all_def split: option.splits)
qed

text \<open>A selection of claude by the environment, with the rest defaulted.\<close>

lemma harness_variable_ok:
  "validate_setting Harness (RText ''claude'') ''PROSE_HARNESS'' False = Inr (SText ''claude'')"
  by (simp add: validate_setting_def validate_text_def supported_harnesses_def chars_ascii is_ascii_def)

definition claude_selected :: effective_config where
  "claude_selected = record_candidates (record_candidates (store_setting Harness (SText ''claude'')
     (source_of Environment ''PROSE_HARNESS'') (record_candidates (defaults True ''/w'' None (Some ''/u'')))))"

definition claude_defaults :: effective_config where
  "claude_defaults = claude_selected\<lparr>ec_model := default_setting ''claude'' None (ec_model claude_selected),
     ec_auth_profile := default_setting ''claude'' (Some ''claude-subscription'') (ec_auth_profile claude_selected)\<rparr>"

text \<open>A project without configuration files.\<close>

definition empty_discovery :: discovery where
  "empty_discovery =
     \<lparr>fd_published = True, fd_cwd = ''/w'', fd_project = None, fd_user = ''/u'', fd_legacy = None,
      fd_diagnostics = [], fd_locations = []\<rparr>"

lemma claude_fields:
  "ec_harness claude_selected = sourced ''claude'' (source_of Environment ''PROSE_HARNESS'')"
  "ec_model claude_selected = sourced None default_source"
  "ec_auth_profile claude_selected = sourced None default_source"
  "ec_permission_mode claude_selected = sourced None default_source"
  "ec_codex_compatibility claude_selected = sourced ''qualified'' default_source"
  "ec_native_output_bytes claude_selected = sourced None default_source"
  "k \<noteq> Harness \<Longrightarrow> view k claude_selected = view k (defaults True ''/w'' None (Some ''/u''))"
  by (simp_all add: claude_selected_def record_candidates_def store_setting_def defaults_def)
    (cases k; simp add: as_view_def)

lemma claude_resolves:
  "resolve_settings (\<lambda>_ _. None) (Inr ()) empty_discovery None None [(''PROSE_HARNESS'', ''claude'')] no_flags =
     Inr (finalize_candidates (sanitize_overridden_profiles claude_defaults))"
proof -
  have initial: "initial_config empty_discovery no_flags = defaults True ''/w'' None (Some ''/u'')"
    by (simp add: initial_config_def empty_discovery_def no_flags_def defaults_def)
  have layers: "apply_layers None None [(''PROSE_HARNESS'', ''claude'')] no_flags (defaults True ''/w'' None (Some ''/u'')) =
      Inr claude_selected"
    using apply_one_variable [OF _ harness_variable_ok]
    by (simp add: apply_layers_def apply_optional_file_def apply_no_flags variable_of_def claude_selected_def)
  have claude: "for_harness ''claude'' = Some ClaudePrintStreamJson"
    by (simp add: for_harness_def all_adapters_def)
  have "contextual_defaults claude_selected = Inr claude_defaults"
    by (simp add: contextual_defaults_def Let_def inherited_ok_def claude_fields sourced_def claude_defaults_def
        harness_defaults_def default_setting_def default_source_def source_of_def check_model_def check_profile_def
        claude)
  moreover have "first_source claude_defaults keys = None" if "Harness \<notin> set keys" "Model \<notin> set keys"
      "AuthProfile \<notin> set keys" for keys
    using that
  proof (induction keys)
    case (Cons k keys)
    have "view k claude_defaults = view k claude_selected"
      using Cons.prems by (cases k) (simp_all add: claude_defaults_def)
    moreover have "cs_kind (snd (view k (defaults True ''/w'' None (Some ''/u'')))) = Default"
      by (cases k) (simp_all add: as_view_def defaults_def sourced_def default_source_def source_of_def)
    moreover have "view k claude_selected = view k (defaults True ''/w'' None (Some ''/u''))"
      using Cons.prems by (intro claude_fields(7)) auto
    ultimately show ?case using Cons by (simp add: first_source_def Let_def)
  qed (simp add: first_source_def)
  then have "native_checks (\<lambda>_ _. None) claude_defaults = Inr claude_defaults"
    by (simp add: native_checks_def check_codex_def check_permission_def check_budgets_def check_workspace_def
        require_def budget_keys_def native_keys_def claude_defaults_def claude_fields sourced_def)
  ultimately show ?thesis by (simp add: resolve_settings_def initial layers)
qed

lemma resolved_configuration_is_consistent_witness:
  "consistent (\<lambda>_ _. None) (finalize_candidates (sanitize_overridden_profiles claude_defaults))
    \<and> sv_value (ec_auth_profile claude_defaults) = Some ''claude-subscription''"
  using resolved_configuration_is_consistent [OF claude_resolves]
  by (simp add: claude_defaults_def claude_fields default_setting_def sourced_def default_source_def source_of_def)

end
