(* ===== verification/Suggestions.thy ===== *)
theory Suggestions
  imports Json "HOL-Library.Product_Lexorder"
begin

text \<open>
  The suggestions for a misspelled word of \<open>service/mod.rs\<close>: the edit distance, computed in a table
  (\<open>distance\<close>), the unique nearest candidate within a limit (\<open>did_you_mean\<close>) and the tables of synonyms
  and aliases of the manifest.  The embedded manifest \<open>operations.v1.json\<close> is data: the argument
  \<open>manifest\<close>.
\<close>

section \<open>Edit distance\<close>

type_synonym table = "nat list list"

definition cell :: "table \<Rightarrow> nat \<Rightarrow> nat \<Rightarrow> nat" where
  "cell t i j = t ! i ! j"

definition set_cell :: "nat \<Rightarrow> nat \<Rightarrow> nat \<Rightarrow> table \<Rightarrow> table" where
  "set_cell i j v t = t[i := (t ! i)[j := v]]"

definition initial_table :: "nat \<Rightarrow> nat \<Rightarrow> table" where
  "initial_table m n =
     fold (\<lambda>j. set_cell 0 j j) [0..<n + 1]
       (fold (\<lambda>i. set_cell i 0 i) [0..<m + 1] (replicate (m + 1) (replicate (n + 1) 0)))"

definition fill_cell :: "nat list \<Rightarrow> nat list \<Rightarrow> nat \<Rightarrow> nat \<Rightarrow> table \<Rightarrow> table" where
  "fill_cell a b i j t =
     (let cost = (if a ! (i - 1) \<noteq> b ! (j - 1) then 1 else 0);
          best = min (min (cell t (i - 1) j + 1) (cell t i (j - 1) + 1)) (cell t (i - 1) (j - 1) + cost);
          best' = (if i > 1 \<and> j > 1 \<and> a ! (i - 1) = b ! (j - 2) \<and> a ! (i - 2) = b ! (j - 1)
                   then min best (cell t (i - 2) (j - 2) + 1) else best)
      in set_cell i j best' t)"

definition distance :: "string \<Rightarrow> string \<Rightarrow> nat" where
  "distance left right =
     (let a = chars left; b = chars right;
          t = fold (\<lambda>i t. fold (\<lambda>j. fill_cell a b i j) [1..<length b + 1] t) [1..<length a + 1]
                (initial_table (length a) (length b))
      in cell t (length a) (length b))"

section \<open>Candidates\<close>

definition did_you_mean_within :: "string \<Rightarrow> string list \<Rightarrow> nat \<Rightarrow> string option" where
  "did_you_mean_within word candidates limit =
     (let found = remdups_adj (sort (filter (\<lambda>(d, _). d \<le> limit)
            (map (\<lambda>candidate. (distance word candidate, candidate)) (filter (\<lambda>c. c \<noteq> word) candidates))))
      in case found of
           [] \<Rightarrow> None
         | (best, candidate) # rest \<Rightarrow>
             (case rest of
                [] \<Rightarrow> Some candidate
              | (next, _) # _ \<Rightarrow> if next > best then Some candidate else None))"

definition nearest :: "string \<Rightarrow> string list \<Rightarrow> nat \<Rightarrow> string list" where
  "nearest word candidates count =
     map snd (take count (remdups_adj (sort (map (\<lambda>candidate. (distance word candidate, candidate)) candidates))))"

section \<open>The tables of the manifest\<close>

definition inference :: "json \<Rightarrow> json" where
  "inference manifest = jidx (jidx manifest ''grammar'') ''intentInference''"

definition number_or_one :: "json \<Rightarrow> string \<Rightarrow> nat" where
  "number_or_one limits key = (case as_u64 (jidx limits key) of Some n \<Rightarrow> n | None \<Rightarrow> 1)"

definition max_distance :: "json \<Rightarrow> string \<Rightarrow> nat" where
  "max_distance manifest word =
     (let limits = jidx (inference manifest) ''distance'' in
      if length (chars word) \<le> number_or_one limits ''shortWordLength''
      then number_or_one limits ''shortWordMax'' else number_or_one limits ''max'')"

definition did_you_mean :: "json \<Rightarrow> string \<Rightarrow> string list \<Rightarrow> string option" where
  "did_you_mean manifest word candidates = did_you_mean_within word candidates (max_distance manifest word)"

definition str_items :: "json list \<Rightarrow> string list" where
  "str_items vs = List.map_filter as_str vs"

definition synonym :: "json \<Rightarrow> string \<Rightarrow> string \<Rightarrow> (string \<Rightarrow> bool) \<Rightarrow> string option" where
  "synonym manifest table word valid =
     Option.bind (as_array (jidx (jidx (inference manifest) table) word)) (\<lambda>vs. find valid (str_items vs))"

definition or_else :: "'a option \<Rightarrow> 'a option \<Rightarrow> 'a option" where
  "or_else x y = (case x of Some v \<Rightarrow> Some v | None \<Rightarrow> y)"

definition suggest_verb :: "json \<Rightarrow> string \<Rightarrow> string list \<Rightarrow> string option" where
  "suggest_verb manifest word verbs =
     or_else (synonym manifest ''verbSynonyms'' word (\<lambda>c. c \<in> set verbs)) (did_you_mean manifest word verbs)"

definition option_alias :: "json \<Rightarrow> string \<Rightarrow> string list \<Rightarrow> (string \<Rightarrow> bool) \<Rightarrow> string option" where
  "option_alias manifest name names fits =
     Option.bind (as_array (jidx (jidx (inference manifest) ''optionAliases'') name)) (\<lambda>vs.
       find_map (\<lambda>candidate. find (\<lambda>known. known = candidate) names) (filter fits (str_items vs)))"

definition option_distance_limit :: "json \<Rightarrow> string \<Rightarrow> nat" where
  "option_distance_limit manifest name =
     (let limits = jidx (inference manifest) ''distance'';
          ordinary = max_distance manifest name;
          bare = length (chars (dropWhile (\<lambda>c. c = CHR ''-'') name))
      in case (as_u64 (jidx limits ''optionShortWordLength''), as_u64 (jidx limits ''optionShortWordMax'')) of
           (Some n, Some maximum) \<Rightarrow> if bare \<le> n then min ordinary maximum else ordinary
         | _ \<Rightarrow> ordinary)"

definition suggest_option ::
  "json \<Rightarrow> string \<Rightarrow> string list \<Rightarrow> (string \<Rightarrow> bool) \<Rightarrow> bool \<Rightarrow> (string \<Rightarrow> bool) \<Rightarrow> string option" where
  "suggest_option manifest name names fits has_value takes_value =
     or_else (option_alias manifest name names fits)
       (Option.bind (did_you_mean_within name names (option_distance_limit manifest name))
          (\<lambda>near. if \<not> has_value \<or> takes_value near then Some near else None))"

record conversion =
  cv_target :: string
  cv_multiplier :: nat
  cv_from :: string
  cv_to :: string

definition option_conversion :: "json \<Rightarrow> string \<Rightarrow> string list \<Rightarrow> conversion option" where
  "option_conversion manifest name names =
     (let entry = jidx (jidx (inference manifest) ''optionConversions'') name in
      Option.bind (as_str (jidx entry ''option'')) (\<lambda>target.
      Option.bind (find (\<lambda>known. known = target) names) (\<lambda>target.
      Option.bind (as_u64 (jidx entry ''multiplier'')) (\<lambda>multiplier.
      Option.bind (as_str (jidx entry ''from'')) (\<lambda>from_unit.
      Option.bind (as_str (jidx entry ''to'')) (\<lambda>to_unit.
        Some \<lparr>cv_target = target, cv_multiplier = multiplier, cv_from = from_unit, cv_to = to_unit\<rparr>))))))"

definition converted_value :: "string \<Rightarrow> nat \<Rightarrow> string option" where
  "converted_value v multiplier =
     (if v = [] \<or> length v > 9 \<or> \<not> list_all ascii_digit v then None
      else Option.bind (parse_u64 v) (\<lambda>number.
        if number > 0 then map_option decimal (checked_mul number multiplier) else None))"

definition secret_placeholder :: "json \<Rightarrow> string \<Rightarrow> string option" where
  "secret_placeholder manifest name = as_str (jidx (jidx (inference manifest) ''secretFileOptions'') name)"

section \<open>What a distance is\<close>

text \<open>
  Two words are aligned from their ends with a number of edits: a character is kept, replaced, left
  out or put in, or two neighbours change places; no character is edited twice.
\<close>

inductive alignment :: "nat \<Rightarrow> 'a list \<Rightarrow> 'a list \<Rightarrow> bool" where
  empty: "alignment 0 [] []"
| keep: "alignment n xs ys \<Longrightarrow> alignment n (xs @ [x]) (ys @ [x])"
| replace: "alignment n xs ys \<Longrightarrow> alignment (Suc n) (xs @ [x]) (ys @ [y])"
| leave_out: "alignment n xs ys \<Longrightarrow> alignment (Suc n) (xs @ [x]) ys"
| put_in: "alignment n xs ys \<Longrightarrow> alignment (Suc n) xs (ys @ [y])"
| swap: "alignment n xs ys \<Longrightarrow> alignment (Suc n) (xs @ [x, y]) (ys @ [y, x])"

definition least_edits :: "'a list \<Rightarrow> 'a list \<Rightarrow> nat \<Rightarrow> bool" where
  "least_edits xs ys d \<longleftrightarrow> alignment d xs ys \<and> (\<forall>n. alignment n xs ys \<longrightarrow> d \<le> n)"

lemma least_edits_Least: "least_edits xs ys d \<Longrightarrow> d = (LEAST n. alignment n xs ys)"
  unfolding least_edits_def by (rule sym, rule Least_equality) auto

lemma alignment_length: "alignment n xs ys \<Longrightarrow> length xs \<le> length ys + n \<and> length ys \<le> length xs + n"
  by (induction rule: alignment.induct) auto

lemma alignment_left: "alignment (length xs) xs []"
  by (induction xs rule: rev_induct) (auto intro: alignment.intros dest: alignment.leave_out)

lemma alignment_sym: "alignment n xs ys \<Longrightarrow> alignment n ys xs"
  by (induction rule: alignment.induct) (auto intro: alignment.intros)

lemma least_edits_left: "least_edits xs [] (length xs)"
  unfolding least_edits_def using alignment_left alignment_length by fastforce

lemma least_edits_sym: "least_edits xs ys d \<Longrightarrow> least_edits ys xs d"
  unfolding least_edits_def using alignment_sym by blast

lemma least_edits_right: "least_edits [] ys (length ys)"
  by (rule least_edits_sym [OF least_edits_left])

lemma alignment_snoc:
  assumes "alignment n (xs @ [x]) (ys @ [y])"
  shows "x = y \<and> alignment n xs ys
    \<or> (\<exists>m. n = m + 1 \<and> (alignment m xs ys \<or> alignment m xs (ys @ [y]) \<or> alignment m (xs @ [x]) ys
         \<or> (\<exists>xs' ys' x' y'. xs = xs' @ [x'] \<and> ys = ys' @ [y'] \<and> x = y' \<and> x' = y \<and> alignment m xs' ys')))"
  using assms
proof (cases rule: alignment.cases)
  case (swap m us vs u v)
  then have "xs = us @ [u]" "x = v" "ys = vs @ [v]" "y = u" by simp_all
  then have "xs = us @ [u] \<and> ys = vs @ [v] \<and> x = v \<and> u = y \<and> alignment m us vs" using swap by simp
  moreover have "n = m + 1" using swap by simp
  ultimately show ?thesis by blast
qed auto

text \<open>One cell from its neighbours.\<close>

lemma least_edits_step:
  assumes up: "least_edits xs (ys @ [y]) d1" and left: "least_edits (xs @ [x]) ys d2"
    and diagonal: "least_edits xs ys d3"
    and corner: "swapped \<longleftrightarrow> (\<exists>xs' ys'. xs = xs' @ [y] \<and> ys = ys' @ [x])"
      "swapped \<Longrightarrow> least_edits (butlast xs) (butlast ys) d4"
  shows "least_edits (xs @ [x]) (ys @ [y])
    (let best = min (min (d1 + 1) (d2 + 1)) (d3 + (if x \<noteq> y then 1 else 0))
     in if swapped then min best (d4 + 1) else best)"
proof -
  let ?best = "min (min (d1 + 1) (d2 + 1)) (d3 + (if x \<noteq> y then 1 else 0))"
  have reach: "alignment (d1 + 1) (xs @ [x]) (ys @ [y])" "alignment (d2 + 1) (xs @ [x]) (ys @ [y])"
      "alignment (d3 + (if x \<noteq> y then 1 else 0)) (xs @ [x]) (ys @ [y])"
    using up left diagonal by (auto simp: least_edits_def intro: alignment.intros)
  have reach4: "alignment (d4 + 1) (xs @ [x]) (ys @ [y])" if sw: swapped
  proof -
    obtain xs' ys' where "xs = xs' @ [y]" "ys = ys' @ [x]" using corner(1) sw by blast
    then show ?thesis using corner(2) [OF sw] alignment.swap [of d4 xs' ys' y x] by (simp add: least_edits_def)
  qed
  have best: "alignment ?best (xs @ [x]) (ys @ [y])" using reach by (simp add: min_def)
  have lower: "?best \<le> n \<or> swapped \<and> d4 + 1 \<le> n" if "alignment n (xs @ [x]) (ys @ [y])" for n
    using alignment_snoc [OF that]
  proof (elim disjE conjE exE)
    assume "x = y" "alignment n xs ys"
    then show ?thesis using diagonal by (auto simp: least_edits_def min_def)
  next
    fix m assume "n = m + 1" "alignment m xs ys"
    then have "d3 + 1 \<le> n" using diagonal by (auto simp: least_edits_def)
    then show ?thesis by (auto simp: min_def)
  next
    fix m assume "n = m + 1" "alignment m xs (ys @ [y])"
    then show ?thesis using up by (auto simp: least_edits_def min_def)
  next
    fix m assume "n = m + 1" "alignment m (xs @ [x]) ys"
    then show ?thesis using left by (auto simp: least_edits_def min_def)
  next
    fix m xs' ys' x' y'
    assume m: "n = m + 1" "xs = xs' @ [x']" "ys = ys' @ [y']" "x = y'" "x' = y" "alignment m xs' ys'"
    then have swapped using corner(1) by blast
    then show ?thesis using m corner(2) by (auto simp: least_edits_def)
  qed
  show ?thesis
  proof (cases swapped)
    case True
    have "alignment (min ?best (d4 + 1)) (xs @ [x]) (ys @ [y])"
      using best reach4 [OF True] by (cases "?best \<le> d4 + 1") (simp_all only: min.absorb1 min.absorb2 linorder_not_le less_imp_le)
    moreover have "min ?best (d4 + 1) \<le> n" if "alignment n (xs @ [x]) (ys @ [y])" for n
      using lower [OF that] by (simp only: min_le_iff_disj) blast
    ultimately show ?thesis using True unfolding least_edits_def Let_def by (simp only: if_True simp_thms) blast
  next
    case False
    then show ?thesis using lower best unfolding least_edits_def Let_def by auto
  qed
qed

section \<open>The table\<close>

lemma fold_upt_invariant:
  assumes "I m t" and "\<And>k u. \<lbrakk>m \<le> k; k < n; I k u\<rbrakk> \<Longrightarrow> I (Suc k) (f k u)" and "m \<le> n"
  shows "I n (fold f [m..<n] t)"
  using assms(3,2)
proof (induction n rule: dec_induct)
  case base
  then show ?case using assms(1) by simp
next
  case (step k)
  then show ?case by simp
qed

definition shaped :: "nat \<Rightarrow> nat \<Rightarrow> table \<Rightarrow> bool" where
  "shaped m n t \<longleftrightarrow> length t = m + 1 \<and> (\<forall>p \<le> m. length (t ! p) = n + 1)"

lemma cell_set_cell:
  assumes "shaped m n t" and "p \<le> m" and "q \<le> n"
  shows "cell (set_cell i j v t) p q = (if p = i \<and> q = j then v else cell t p q)"
proof (cases "p = i")
  case True
  then show ?thesis using assms by (cases "q = j") (simp_all add: cell_def set_cell_def shaped_def)
next
  case False
  then show ?thesis by (simp add: cell_def set_cell_def)
qed

lemma shaped_set_cell:
  assumes "shaped m n t"
  shows "shaped m n (set_cell i j v t)"
proof -
  have "length (set_cell i j v t ! p) = n + 1" if "p \<le> m" for p
    using assms that by (cases "p = i") (simp_all add: shaped_def set_cell_def)
  then show ?thesis using assms by (simp add: shaped_def set_cell_def)
qed

lemma initial_table:
  "shaped m n (initial_table m n) \<and> (\<forall>p \<le> m. cell (initial_table m n) p 0 = p)
    \<and> (\<forall>q \<le> n. cell (initial_table m n) 0 q = q)"
proof -
  let ?z = "replicate (m + 1) (replicate (n + 1) (0::nat))"
  let ?I = "\<lambda>k t. shaped m n t \<and> (\<forall>p < k. p \<le> m \<longrightarrow> cell t p 0 = p)"
  have rows: "?I (m + 1) (fold (\<lambda>i. set_cell i 0 i) [0..<m + 1] ?z)"
  proof (rule fold_upt_invariant [where I = ?I])
    show "?I 0 ?z" by (simp add: shaped_def del: replicate_Suc replicate_add)
  next
    fix k u assume k: "k < m + 1" and u: "?I k u"
    then have "shaped m n u" by blast
    then show "?I (Suc k) (set_cell k 0 k u)"
      using u by (auto simp: shaped_set_cell cell_set_cell [OF \<open>shaped m n u\<close>] less_Suc_eq)
  qed simp
  let ?J = "\<lambda>k t. shaped m n t \<and> (\<forall>p \<le> m. cell t p 0 = p) \<and> (\<forall>q < k. q \<le> n \<longrightarrow> cell t 0 q = q)"
  have "?J (n + 1) (initial_table m n)" unfolding initial_table_def
  proof (rule fold_upt_invariant [where I = ?J])
    show "?J 0 (fold (\<lambda>i. set_cell i 0 i) [0..<m + 1] ?z)" using rows by simp
  next
    fix k u assume k: "k < n + 1" and u: "?J k u"
    then have "shaped m n u" by blast
    then show "?J (Suc k) (set_cell 0 k k u)"
      using u by (auto simp: shaped_set_cell cell_set_cell [OF \<open>shaped m n u\<close>] less_Suc_eq)
  qed simp
  then show ?thesis by simp
qed

text \<open>The cells filled when the loops are at a position hold the distances of the prefixes.\<close>

definition filled :: "nat list \<Rightarrow> nat list \<Rightarrow> nat \<Rightarrow> nat \<Rightarrow> table \<Rightarrow> bool" where
  "filled a b i j t \<longleftrightarrow> shaped (length a) (length b) t
     \<and> (\<forall>p \<le> length a. \<forall>q \<le> length b. p = 0 \<or> q = 0 \<or> p < i \<or> p = i \<and> q < j
          \<longrightarrow> least_edits (take p a) (take q b) (cell t p q))"

lemma take_last: "\<lbrakk>0 < k; k \<le> length xs\<rbrakk> \<Longrightarrow> take k xs = take (k - 1) xs @ [xs ! (k - 1)]"
  by (metis Suc_diff_1 Suc_le_lessD take_Suc_conv_app_nth)

lemma fill_cell_filled:
  assumes t: "filled a b i j t" and i: "1 \<le> i" "i \<le> length a" and j: "1 \<le> j" "j \<le> length b"
  shows "filled a b i (j + 1) (fill_cell a b i j t)"
proof -
  let ?xs = "take (i - 1) a" and ?ys = "take (j - 1) b"
  let ?x = "a ! (i - 1)" and ?y = "b ! (j - 1)"
  let ?swapped = "i > 1 \<and> j > 1 \<and> ?x = b ! (j - 2) \<and> a ! (i - 2) = ?y"
  have cells: "least_edits (take p a) (take q b) (cell t p q)"
    if "p \<le> i" "q \<le> j" "p < i \<or> q < j" for p q
    using t i j that unfolding filled_def by (cases "p < i") auto
  have xi: "take i a = ?xs @ [?x]" and yj: "take j b = ?ys @ [?y]"
    using take_last [of i a] take_last [of j b] i j by simp_all
  have last_x: "?xs = take (i - 2) a @ [a ! (i - 2)]" if "i > 1"
    using take_last [of "i - 1" a] that i by (simp add: numeral_2_eq_2)
  have last_y: "?ys = take (j - 2) b @ [b ! (j - 2)]" if "j > 1"
    using take_last [of "j - 1" b] that j by (simp add: numeral_2_eq_2)
  have swapped: "?swapped \<longleftrightarrow> (\<exists>xs' ys'. ?xs = xs' @ [?y] \<and> ?ys = ys' @ [?x])"
  proof (cases "i > 1 \<and> j > 1")
    case True
    then show ?thesis using last_x last_y by auto
  next
    case False
    then have "?xs = [] \<or> ?ys = []" using i j by auto
    then show ?thesis using False by auto
  qed
  let ?d = "let best = min (min (cell t (i - 1) j + 1) (cell t i (j - 1) + 1))
        (cell t (i - 1) (j - 1) + (if ?x \<noteq> ?y then 1 else 0))
      in if ?swapped then min best (cell t (i - 2) (j - 2) + 1) else best"
  have "least_edits (?xs @ [?x]) (?ys @ [?y]) ?d"
  proof (rule least_edits_step)
    show "least_edits ?xs (?ys @ [?y]) (cell t (i - 1) j)" unfolding yj [symmetric] using i by (intro cells) auto
    show "least_edits (?xs @ [?x]) ?ys (cell t i (j - 1))" unfolding xi [symmetric] using j by (intro cells) auto
    show "least_edits ?xs ?ys (cell t (i - 1) (j - 1))" using i by (intro cells) auto
    show "?swapped \<longleftrightarrow> (\<exists>xs' ys'. ?xs = xs' @ [?y] \<and> ?ys = ys' @ [?x])" by (rule swapped)
    assume sw: ?swapped
    have "butlast ?xs = take (i - 2) a" "butlast ?ys = take (j - 2) b" using last_x last_y sw by auto
    then show "least_edits (butlast ?xs) (butlast ?ys) (cell t (i - 2) (j - 2))"
      using i by (simp add: cells)
  qed
  then have d: "least_edits (take i a) (take j b) ?d" unfolding xi yj .
  have fill: "fill_cell a b i j t = set_cell i j ?d t" unfolding fill_cell_def Let_def by simp
  have shape: "shaped (length a) (length b) t" using t by (simp add: filled_def)
  show ?thesis unfolding filled_def fill
  proof (intro conjI allI impI)
    show "shaped (length a) (length b) (set_cell i j ?d t)" by (rule shaped_set_cell [OF shape])
    fix p q assume p: "p \<le> length a" and q: "q \<le> length b" and pq: "p = 0 \<or> q = 0 \<or> p < i \<or> p = i \<and> q < j + 1"
    show "least_edits (take p a) (take q b) (cell (set_cell i j ?d t) p q)"
    proof (cases "p = i \<and> q = j")
      case True
      then show ?thesis using d p q by (simp only: cell_set_cell [OF shape] simp_thms if_True)
    next
      case False
      then have "least_edits (take p a) (take q b) (cell t p q)" using t p q pq unfolding filled_def by fastforce
      then show ?thesis using False p q by (simp only: cell_set_cell [OF shape] if_False)
    qed
  qed
qed

lemma filled_next_row: "filled a b i (length b + 1) t \<Longrightarrow> filled a b (i + 1) 1 t"
  unfolding filled_def by (metis Suc_eq_plus1 less_Suc_eq less_Suc_eq_le less_one)

lemma filledD:
  "\<lbrakk>filled a b i j t; p \<le> length a; q \<le> length b; p < i\<rbrakk> \<Longrightarrow> least_edits (take p a) (take q b) (cell t p q)"
  unfolding filled_def by blast

lemma distance_least: "least_edits (chars left) (chars right) (distance left right)"
proof -
  let ?a = "chars left" and ?b = "chars right"
  let ?row = "\<lambda>i. fold (\<lambda>j. fill_cell ?a ?b i j) [1..<length ?b + 1]"
  have row: "filled ?a ?b (i + 1) 1 (?row i t)" if "filled ?a ?b i 1 t" "1 \<le> i" "i \<le> length ?a" for i t
  proof (rule filled_next_row, rule fold_upt_invariant [where I = "filled ?a ?b i"])
    show "filled ?a ?b i 1 t" by (rule that(1))
  next
    fix k u assume "1 \<le> k" "k < length ?b + 1" "filled ?a ?b i k u"
    then show "filled ?a ?b i (Suc k) (fill_cell ?a ?b i k u)" using fill_cell_filled that(2,3) by simp
  qed simp
  have "filled ?a ?b 1 1 (initial_table (length ?a) (length ?b))"
    unfolding filled_def
  proof (intro conjI allI impI)
    note init = initial_table [of "length ?a" "length ?b"]
    show "shaped (length ?a) (length ?b) (initial_table (length ?a) (length ?b))" using init by blast
    fix p q assume p: "p \<le> length ?a" and q: "q \<le> length ?b" and "p = 0 \<or> q = 0 \<or> p < 1 \<or> p = 1 \<and> q < 1"
    then consider "p = 0" | "q = 0" by linarith
    then show "least_edits (take p ?a) (take q ?b) (cell (initial_table (length ?a) (length ?b)) p q)"
    proof cases
      case 1
      then show ?thesis using init q least_edits_right [of "take q ?b"] by (simp add: min_absorb2)
    next
      case 2
      then show ?thesis using init p least_edits_left [of "take p ?a"] by (simp add: min_absorb2)
    qed
  qed
  then have "filled ?a ?b (length ?a + 1) 1
      (fold ?row [1..<length ?a + 1] (initial_table (length ?a) (length ?b)))"
  proof (rule fold_upt_invariant [where I = "\<lambda>i. filled ?a ?b i 1"])
    fix k u assume "1 \<le> k" "k < length ?a + 1" "filled ?a ?b k 1 u"
    then show "filled ?a ?b (Suc k) 1 (?row k u)" using row [of k u] by (simp only: Suc_eq_plus1 less_Suc_eq_le)
  qed simp
  from filledD [OF this le_refl le_refl] show ?thesis
    unfolding distance_def Let_def by (simp only: take_all le_refl less_add_one simp_thms)
qed

text \<open>The number of edits between two words, apart from how it is computed.\<close>

definition edits :: "string \<Rightarrow> string \<Rightarrow> nat" where
  "edits word c = (LEAST n. alignment n (chars word) (chars c))"

lemma distance_edits: "distance word c = edits word c"
  unfolding edits_def by (rule least_edits_Least [OF distance_least])

lemma edits_sym: "edits word c = edits c word"
  using least_edits_sym [OF distance_least [of word c]] least_edits_Least
  unfolding edits_def distance_edits by blast

lemma alignment_0: "alignment n xs ys \<Longrightarrow> n = 0 \<Longrightarrow> xs = ys"
  by (induction rule: alignment.induct) auto

lemma alignment_refl: "alignment 0 xs xs"
  by (induction xs rule: rev_induct) (auto intro: alignment.empty alignment.keep)

lemma edits_0: "edits word c = 0 \<longleftrightarrow> chars word = chars c"
proof
  assume "edits word c = 0"
  then show "chars word = chars c"
    using distance_least [of word c] alignment_0 unfolding distance_edits least_edits_def by metis
next
  assume "chars word = chars c"
  then have "edits word c \<le> 0" unfolding edits_def using alignment_refl by (intro Least_le) simp
  then show "edits word c = 0" by simp
qed

section \<open>The nearest candidate\<close>

lemma distinct_sorted_remdups_adj: "sorted (xs :: 'a :: linorder list) \<Longrightarrow> distinct (remdups_adj xs)"
  by (induction xs rule: remdups_adj.induct) (auto dest: order_antisym)

text \<open>The first of a sorted list without duplicates is alone at its key when the next key is larger.\<close>

lemma first_alone:
  fixes zs :: "(nat \<times> string) list"
  assumes zs: "sorted zs" "distinct zs"
  shows "(case zs of [] \<Rightarrow> None | (best, c) # rest \<Rightarrow>
      (case rest of [] \<Rightarrow> Some c | (next, _) # _ \<Rightarrow> if next > best then Some c else None)) = Some c
    \<longleftrightarrow> (\<exists>d. {z \<in> set zs. fst z \<le> d} = {(d, c)})"
proof (cases zs)
  case Nil
  then show ?thesis by simp
next
  case (Cons z rest)
  obtain best w where z: "z = (best, w)" by (cases z)
  have least: "(best, w) \<le> y" if "y \<in> set rest" for y
    using zs(1) that unfolding Cons z by simp
  then have best: "best \<le> fst y" if "y \<in> set rest" for y using that by (cases y) fastforce
  show ?thesis
  proof (cases rest)
    case Nil
    have "{x \<in> set [(best, w)]. fst x \<le> d} = (if best \<le> d then {(best, w)} else {})" for d by auto
    then have "(\<exists>d. {x \<in> set [(best, w)]. fst x \<le> d} = {(d, c)}) \<longleftrightarrow> w = c" by auto
    then show ?thesis unfolding Cons z Nil by simp
  next
    case (Cons y rest')
    obtain n v where y: "y = (n, v)" by (cases y)
    have next_least: "n \<le> fst x" if "x \<in> set rest" for x
      using zs(1) that unfolding \<open>zs = z # rest\<close> Cons y by (cases x) fastforce
    have mem: "(best, w) \<in> set zs" "(n, v) \<in> set rest" "(n, v) \<in> set zs" "(n, v) \<noteq> (best, w)"
      using zs(2) unfolding \<open>zs = z # rest\<close> Cons y z by auto
    have "best < n \<and> w = c \<longleftrightarrow> (\<exists>d. {x \<in> set zs. fst x \<le> d} = {(d, c)})"
    proof
      assume "best < n \<and> w = c"
      then have "{x \<in> set zs. fst x \<le> best} = {(best, c)}"
        using next_least mem unfolding \<open>zs = z # rest\<close> z by fastforce
      then show "\<exists>d. {x \<in> set zs. fst x \<le> d} = {(d, c)}" by blast
    next
      assume "\<exists>d. {x \<in> set zs. fst x \<le> d} = {(d, c)}"
      then obtain d where d: "{x \<in> set zs. fst x \<le> d} = {(d, c)}" ..
      then have "(d, c) \<in> set zs" by blast
      then have "best \<le> d" using best unfolding \<open>zs = z # rest\<close> z by fastforce
      then have "(best, w) \<in> {x \<in> set zs. fst x \<le> d}" using mem by simp
      then have "best = d \<and> w = c" unfolding d by simp
      moreover have "\<not> n \<le> d"
      proof
        assume "n \<le> d"
        then have "(n, v) \<in> {x \<in> set zs. fst x \<le> d}" using mem by simp
        then show False using mem(4) calculation unfolding d by simp
      qed
      ultimately show "best < n \<and> w = c" by simp
    qed
    then show ?thesis unfolding \<open>zs = z # rest\<close> z Cons y by (cases "best < n") (simp_all del: set_simps)
  qed
qed

lemma unique_nearest:
  "did_you_mean_within word candidates limit = Some c \<longleftrightarrow>
     edits word c \<le> limit
     \<and> {c' \<in> set candidates. c' \<noteq> word \<and> edits word c' \<le> edits word c} = {c}"
proof -
  let ?pairs = "filter (\<lambda>(d, _). d \<le> limit)
      (map (\<lambda>candidate. (distance word candidate, candidate)) (filter (\<lambda>c. c \<noteq> word) candidates))"
  let ?zs = "remdups_adj (sort ?pairs)"
  have zs: "sorted ?zs" "distinct ?zs" by (simp_all add: sorted_remdups_adj distinct_sorted_remdups_adj)
  have mem: "z \<in> set ?zs \<longleftrightarrow> snd z \<in> set candidates \<and> snd z \<noteq> word \<and> fst z = edits word (snd z) \<and> fst z \<le> limit" for z
    by (cases z) (auto simp: distance_edits)
  have "(\<exists>d. {z \<in> set ?zs. fst z \<le> d} = {(d, c)}) \<longleftrightarrow>
      edits word c \<le> limit \<and> {c' \<in> set candidates. c' \<noteq> word \<and> edits word c' \<le> edits word c} = {c}"
  proof
    assume "\<exists>d. {z \<in> set ?zs. fst z \<le> d} = {(d, c)}"
    then obtain d where d: "{z \<in> set ?zs. fst z \<le> d} = {(d, c)}" ..
    then have "(d, c) \<in> set ?zs" by blast
    then have c: "c \<in> set candidates" "c \<noteq> word" "d = edits word c" "d \<le> limit"
      using mem [of "(d, c)"] by (simp_all add: distance_edits)
    have "c' = c" if "c' \<in> set candidates" "c' \<noteq> word" "edits word c' \<le> edits word c" for c'
    proof -
      have "(edits word c', c') \<in> {z \<in> set ?zs. fst z \<le> d}" using that c(3,4) unfolding mem_Collect_eq mem by simp
      then show ?thesis unfolding d by simp
    qed
    then show "edits word c \<le> limit \<and> {c' \<in> set candidates. c' \<noteq> word \<and> edits word c' \<le> edits word c} = {c}"
      using c by auto
  next
    assume a: "edits word c \<le> limit \<and> {c' \<in> set candidates. c' \<noteq> word \<and> edits word c' \<le> edits word c} = {c}"
    have "z = (edits word c, c)" if "z \<in> set ?zs" "fst z \<le> edits word c" for z
    proof -
      have z: "snd z \<in> set candidates" "snd z \<noteq> word" "fst z = edits word (snd z)"
        using that(1) unfolding mem by blast+
      then have "snd z \<in> {c' \<in> set candidates. c' \<noteq> word \<and> edits word c' \<le> edits word c}" using that(2) by simp
      then have "snd z = c" using a by blast
      then show ?thesis using z(3) by (cases z) simp
    qed
    moreover have "(edits word c, c) \<in> set ?zs" using a unfolding mem by auto
    ultimately have "{z \<in> set ?zs. fst z \<le> edits word c} = {(edits word c, c)}" by auto
    then show "\<exists>d. {z \<in> set ?zs. fst z \<le> d} = {(d, c)}" ..
  qed
  then show ?thesis unfolding did_you_mean_within_def Let_def first_alone [OF zs] .
qed

lemma suggestion_mem: "did_you_mean_within word candidates limit = Some c \<Longrightarrow> c \<in> set candidates"
  unfolding unique_nearest by blast

text \<open>
  Property C24.  A suggestion is made exactly when one candidate other than the word lies within the
  limit and nearer than every other one; nearness is the least number of edits (a character kept,
  replaced, left out or put in, or two neighbours swapped) that align the two words, which is what
  the table computes.
\<close>

theorem suggestion_is_the_unique_nearest:
  "did_you_mean_within word candidates limit = Some c \<longleftrightarrow>
     edits word c \<le> limit
     \<and> {c' \<in> set candidates. c' \<noteq> word \<and> edits word c' \<le> edits word c} = {c}"
  by (rule unique_nearest)

end
