(* ===== verification/Command_Paths.thy ===== *)
theory Command_Paths
  imports Suggestions Errors
begin

text \<open>
  The commands after \<open>cli\<close> as the manifest lists them (\<open>service/mod.rs\<close>): command paths and their
  groups, the completion of a corrected path (\<open>complete_path\<close>), requests for help, aliases of a
  command, and the replacement of words of the original arguments (\<open>Positions\<close>).
\<close>

section \<open>Command paths\<close>

definition operations :: "json \<Rightarrow> json list" where
  "operations manifest = (case as_array (jidx manifest ''operations'') of Some vs \<Rightarrow> vs | None \<Rightarrow> [])"

definition operation :: "json \<Rightarrow> string \<Rightarrow> json option" where
  "operation manifest name = find (\<lambda>op. jidx op ''id'' = JStr name) (operations manifest)"

definition command_words :: "json \<Rightarrow> string list" where
  "command_words op =
     (case as_array (jidx op ''command'') of
        Some ws \<Rightarrow> dropWhile (\<lambda>w. w = ''cli'') (str_items ws) | None \<Rightarrow> [])"

definition is_service_operation :: "json \<Rightarrow> bool" where
  "is_service_operation op \<longleftrightarrow> jidx op ''contract'' = JStr ''service/1''"

definition service_nouns :: "json \<Rightarrow> string list" where
  "service_nouns manifest =
     List.map_filter (\<lambda>op. case command_words op of [] \<Rightarrow> None | w # _ \<Rightarrow> Some w)
       (filter is_service_operation (operations manifest))"

definition claims :: "json \<Rightarrow> string list \<Rightarrow> bool" where
  "claims manifest args =
     (case args of
        [] \<Rightarrow> False
      | noun # rest \<Rightarrow>
          if noun = ''org'' \<and> rest \<noteq> [] \<and> hd rest = ''list'' then False
          else if noun = ''org'' \<and> rest = [''--help''] then True
          else noun \<in> set (service_nouns manifest))"

definition is_account_verb :: "json \<Rightarrow> string \<Rightarrow> string \<Rightarrow> bool" where
  "is_account_verb manifest noun verb \<longleftrightarrow>
     list_ex (\<lambda>op. jidx op ''contract'' = JStr ''account/1'' \<and> command_words op = [noun, verb]) (operations manifest)"

definition runner_commands :: "string list list" where
  "runner_commands =
     [[''doctor''], [''harness'', ''list''], [''harness'', ''use''], [''cleanup'', ''prime''], [''config'', ''explain'']]"

definition command_paths :: "json \<Rightarrow> string list list" where
  "command_paths manifest = map command_words (operations manifest) @ runner_commands"

definition all_nouns :: "json \<Rightarrow> string list" where
  "all_nouns manifest =
     remdups_adj (sort (List.map_filter (\<lambda>path. case path of [] \<Rightarrow> None | w # _ \<Rightarrow> Some w) (command_paths manifest)))"

definition is_command_prefix :: "json \<Rightarrow> string list \<Rightarrow> bool" where
  "is_command_prefix manifest words \<longleftrightarrow>
     words \<noteq> []
     \<and> list_ex (\<lambda>path. length words \<le> length path \<and> take (length words) path = words) (command_paths manifest)"

definition is_command_path :: "json \<Rightarrow> string list \<Rightarrow> bool" where
  "is_command_path manifest words \<longleftrightarrow> words \<in> set (command_paths manifest)"

definition verbs_after :: "json \<Rightarrow> string list \<Rightarrow> string list" where
  "verbs_after manifest prefix =
     remdups_adj (sort (map (\<lambda>words. words ! length prefix)
       (filter (\<lambda>words. length prefix < length words \<and> take (length prefix) words = prefix)
         (command_paths manifest))))"

definition suggest_noun_words :: "json \<Rightarrow> string \<Rightarrow> string list option" where
  "suggest_noun_words manifest noun =
     or_else (Option.bind (as_array (jidx (jidx (inference manifest) ''nounSynonyms'') noun)) (\<lambda>vs.
         if is_command_prefix manifest (str_items vs) then Some (str_items vs) else None))
       (map_option (\<lambda>found. [found]) (did_you_mean manifest noun (all_nouns manifest)))"

text \<open>\<open>str::split_whitespace\<close>.\<close>

definition split_whitespace :: "string \<Rightarrow> string list" where
  "split_whitespace s = map utf8_encode (filter (\<lambda>w. w \<noteq> []) (split_on is_whitespace (chars s)))"

definition unsplit_words :: "json \<Rightarrow> string \<Rightarrow> string list option" where
  "unsplit_words manifest token =
     (if \<not> list_ex is_whitespace (chars token) then None
      else case split_whitespace token of
             [] \<Rightarrow> None
           | first # rest \<Rightarrow>
               if first = ''cli'' \<or> is_command_prefix manifest [first] then Some (first # rest) else None)"

section \<open>Completion\<close>

definition word_at :: "string list \<Rightarrow> nat \<Rightarrow> string option" where
  "word_at rest i = (if i < length rest \<and> \<not> starts_with ''-'' (rest ! i) then Some (rest ! i) else None)"

definition chosen_verb :: "json \<Rightarrow> string list \<Rightarrow> string option \<Rightarrow> string option" where
  "chosen_verb manifest verbs next_word =
     (case next_word of
        None \<Rightarrow> None
      | Some word \<Rightarrow> or_else (find (\<lambda>v. v = word) verbs) (suggest_verb manifest word verbs))"


lemma find_mem: "find p xs = Some x \<Longrightarrow> x \<in> set xs \<and> p x"
  by (auto simp: find_Some_iff)

lemma or_else_mem: "or_else x y = Some v \<Longrightarrow> x = Some v \<or> y = Some v"
  by (auto simp: or_else_def split: option.splits)

lemma chosen_verb_mem: "chosen_verb manifest verbs next_word = Some v \<Longrightarrow> v \<in> set verbs"
  by (auto simp: chosen_verb_def suggest_verb_def synonym_def did_you_mean_def bind_eq_Some_conv
      dest!: or_else_mem suggestion_mem find_mem split: option.splits)

lemma verb_after:
  "v \<in> set (verbs_after manifest path) \<longleftrightarrow>
     (\<exists>words \<in> set (command_paths manifest). length path < length words \<and> take (length path + 1) words = path @ [v])"
  by (fastforce simp: verbs_after_def take_Suc_conv_app_nth)

definition longest :: "json \<Rightarrow> nat" where
  "longest manifest = Max (insert 0 (length ` set (command_paths manifest)))"

lemma longest_bound: "words \<in> set (command_paths manifest) \<Longrightarrow> length words \<le> longest manifest"
  unfolding longest_def by (intro Max_ge) auto

text \<open>
  The loop ends because every word it adds continues a command path, and no path is longer than the
  longest.
\<close>

function complete_loop ::
  "json \<Rightarrow> string list \<Rightarrow> string list \<Rightarrow> nat \<Rightarrow> (string list \<times> nat) option" where
  "complete_loop manifest path rest consumed =
     (if is_command_path manifest path then Some (path, consumed)
      else
        (let verbs = verbs_after manifest path;
             next_word = word_at rest consumed
         in case chosen_verb manifest verbs next_word of
              Some verb \<Rightarrow> complete_loop manifest (path @ [verb]) rest (consumed + 1)
            | None \<Rightarrow>
                (case verbs of
                   [only] \<Rightarrow> if next_word = None then complete_loop manifest (path @ [only]) rest consumed else None
                 | _ \<Rightarrow> None)))"
  by pat_completeness auto
termination
proof (relation "measure (\<lambda>(manifest, path, _). longest manifest - length path)", goal_cases)
  case 1
  show ?case by simp
next
  case (2 manifest path rest consumed verbs next_word only)
  then have "only \<in> set (verbs_after manifest path)" by (metis list.set_intros(1))
  then show ?case using longest_bound unfolding verb_after by (fastforce dest!: longest_bound)
next
  case (3 manifest path rest consumed verbs next_word verb)
  then have "verb \<in> set (verbs_after manifest path)" using chosen_verb_mem by blast
  then show ?case using longest_bound unfolding verb_after by (fastforce dest!: longest_bound)
qed

definition complete_path :: "json \<Rightarrow> string list \<Rightarrow> string list \<Rightarrow> (string list \<times> nat) option" where
  "complete_path manifest path rest = complete_loop manifest path rest 0"

section \<open>Rewrites and aliases\<close>

record rewrite =
  rw_command :: "string list"
  rw_append :: "string list"
  rw_argument_option :: "string option"
  rw_argument_command :: "string list option"
  rw_note :: "string option"
  rw_why :: string

definition command_rewrite :: "json \<Rightarrow> string \<Rightarrow> rewrite option" where
  "command_rewrite manifest phrase =
     (let entry = jidx (jidx (inference manifest) ''commandRewrites'') phrase in
      Option.bind (as_array (jidx entry ''command'')) (\<lambda>ws.
      Option.bind (as_array (jidx entry ''append'')) (\<lambda>appended.
      Option.bind (as_str (jidx entry ''why'')) (\<lambda>why.
        Some \<lparr>rw_command = str_items ws, rw_append = str_items appended,
              rw_argument_option = as_str (jidx entry ''argumentOption''),
              rw_argument_command = map_option str_items (as_array (jidx entry ''argumentCommand'')),
              rw_note = as_str (jidx entry ''note''), rw_why = why\<rparr>))))"

definition command_alias :: "json \<Rightarrow> string list \<Rightarrow> (json \<times> nat) option" where
  "command_alias manifest tokens =
     Option.bind (as_object (jidx (inference manifest) ''commandAliases''))
       (find_map (\<lambda>(phrase, target).
          let ws = split_on (\<lambda>c. c = CHR '' '') phrase in
          if length tokens < length ws \<or> take (length ws) tokens \<noteq> ws then None
          else Option.bind (as_array target) (\<lambda>target.
            map_option (\<lambda>op. (op, length ws))
              (find (\<lambda>op. command_words op = str_items target)
                (filter is_service_operation (operations manifest))))))"

definition option_removal :: "json \<Rightarrow> string \<Rightarrow> string \<Rightarrow> (string \<times> bool) option" where
  "option_removal manifest name identifier =
     (let entry = jidx (jidx (inference manifest) ''optionRemovals'') name in
      Option.bind (as_array (jidx entry ''operations'')) (\<lambda>ops.
        if ops \<noteq> [] \<and> \<not> list_ex (\<lambda>op. op = JStr identifier) ops then None
        else map_option (\<lambda>why. (why, jidx entry ''value'' = JBool True)) (as_str (jidx entry ''why''))))"

section \<open>Requests for help\<close>

definition help_request :: "json \<Rightarrow> string list \<Rightarrow> string list option" where
  "help_request manifest args =
     (if args = [] then Some [''--help'']
      else if hd args = ''help'' \<and> list_all (\<lambda>w. \<not> starts_with ''-'' w) (tl args) then Some (tl args @ [''--help''])
      else if (last args = ''help'' \<or> last args = ''-h'') \<and> is_command_prefix manifest (butlast args)
      then Some (butlast args @ [''--help''])
      else None)"

definition help_without_json :: "string list \<Rightarrow> string list option" where
  "help_without_json args =
     (let head = takeWhile (\<lambda>token. token \<noteq> ''--'') args;
          asks = head \<noteq> [] \<and> hd head = ''help'' \<or> head \<noteq> [] \<and> last head = ''help''
            \<or> list_ex (\<lambda>token. token = ''--help'' \<or> token = ''-h'') head
      in if \<not> asks \<or> ''--json'' \<notin> set head then None
         else Some (filter (\<lambda>token. token \<noteq> ''--json'') head @ dropWhile (\<lambda>token. token \<noteq> ''--'') args))"

text \<open>\<open>topics\<close> is the object of the embedded \<open>help.v1.json\<close>.\<close>

definition help_topic :: "json \<Rightarrow> (string, json) btree \<Rightarrow> string list \<Rightarrow> string option" where
  "help_topic manifest topics args =
     (case args of
        [] \<Rightarrow> None
      | [first] \<Rightarrow> if first = ''--help'' then Some ''cli'' else None
      | noun # verb # rest \<Rightarrow>
          if rest = [] \<and> verb = ''--help'' \<and> bt_get topics (''cli '' @ noun) \<noteq> None then Some (''cli '' @ noun)
          else if (''--help'' \<in> set rest \<or> ''-h'' \<in> set rest) \<and> is_account_verb manifest noun verb
          then Some (''cli '' @ noun @ '' '' @ verb)
          else if rest \<noteq> [] \<and> last rest = ''--help'' \<and> noun \<in> set (service_nouns manifest)
            \<and> verbs_after manifest (butlast args) \<noteq> []
          then Some (''cli '' @ join '' '' (butlast args))
          else None)"

definition group_help :: "json \<Rightarrow> (string, json) btree \<Rightarrow> string list \<Rightarrow> string option" where
  "group_help manifest topics args =
     Option.bind (help_topic manifest topics args) (\<lambda>topic. Option.bind (bt_get topics topic) as_str)"

section \<open>Positions\<close>

record positions =
  po_original :: "string list"
  po_offset :: "nat option"

definition new_positions :: "string list \<Rightarrow> string list \<Rightarrow> positions" where
  "new_positions original tokens =
     \<lparr>po_original = original,
      po_offset = (if length original < length tokens then None
                   else let offset = length original - length tokens in
                        if drop offset original = tokens then Some offset else None)\<rparr>"

definition splice :: "positions \<Rightarrow> nat \<Rightarrow> nat \<Rightarrow> string list \<Rightarrow> string list option" where
  "splice po i len replacement =
     Option.bind (po_offset po) (\<lambda>offset.
       let start = offset + i; stop = start + len in
       if stop \<le> length (po_original po)
       then Some (take start (po_original po) @ replacement @ drop stop (po_original po)) else None)"

definition slug_from_file :: "string \<Rightarrow> string option" where
  "slug_from_file file_name =
     (let base = last (split_on (\<lambda>c. c = CHR ''/'') file_name);
          lower = (\<lambda>b. ascii_lower b \<or> ascii_digit b)
      in Option.bind (or_else (strip_suffix ''.prose.md'' base) (strip_suffix ''.md'' base)) (\<lambda>stem.
           if 1 \<le> length stem \<and> length stem \<le> 64 \<and> lower (hd stem)
              \<and> list_all (\<lambda>b. lower b \<or> b = CHR ''-'') stem
           then Some stem else None))"

end
