(* ===== verification/Invocation.thy ===== *)
theory Invocation
  imports Command_Paths Config_Layers
begin

text \<open>
  The command line (\<open>invocation.rs\<close>): the runner options before the first word of the language, the
  runner commands after \<open>cli\<close>, and the corrections of \<open>service/mod.rs\<close> that need no command of their
  own (\<open>invalid_global_output\<close>, \<open>misplaced_globals\<close>, \<open>scan_globals\<close>).  The parsers of the other
  service commands and of \<open>package\<close> are fields of the record \<open>grammar\<close>, as is the file system.
\<close>

section \<open>Service commands\<close>

datatype correction = CArgv string "string list" | CCommand string "string list" | CText string

record service_invalid =
  si_error :: "runner_error option"
  si_correction :: "correction option"
  si_output :: "output_mode option"
  si_json :: bool
  si_argv :: "string list"

definition no_invalid :: service_invalid where
  "no_invalid = \<lparr>si_error = None, si_correction = None, si_output = None, si_json = False, si_argv = []\<rparr>"

record service_invocation =
  sn_operation :: string
  sn_arguments :: "(string, string list) btree"
  sn_options :: "(string, string list) btree"
  sn_flags :: "string list"
  sn_json :: bool
  sn_yes :: bool
  sn_preview :: bool
  sn_output :: "output_mode option"
  sn_argv :: "string list"
  sn_error :: "runner_error option"
  sn_correction :: "correction option"

datatype service_command = SHelp string | SInvoke service_invocation | SInvalid service_invalid

record rejection =
  rj_error :: runner_error
  rj_correction :: correction

definition reject :: "string \<Rightarrow> correction \<Rightarrow> rejection" where
  "reject reason c = \<lparr>rj_error = invocation_error reason, rj_correction = c\<rparr>"

text \<open>The scan of the tokens after \<open>cli\<close> for the options that choose the output mode.\<close>

definition option_and_value :: "string \<Rightarrow> string \<times> string option" where
  "option_and_value token =
     (case split_once (CHR ''='') token of
        Some (name, v) \<Rightarrow> if starts_with ''--'' name then (name, Some v) else (token, None)
      | None \<Rightarrow> (token, None))"

definition output_alias :: "json \<Rightarrow> string \<Rightarrow> bool" where
  "output_alias manifest name \<longleftrightarrow>
     (case as_array (jidx (jidx (inference manifest) ''optionAliases'') name) of
        Some targets \<Rightarrow> list_ex (\<lambda>t. t = JStr ''--output'') targets | None \<Rightarrow> False)"

definition note_output :: "string \<Rightarrow> service_invalid \<Rightarrow> service_invalid" where
  "note_output v found = (if si_output found = None then found\<lparr>si_output := parse_output_mode v\<rparr> else found)"

fun scan_loop :: "json \<Rightarrow> service_invalid \<Rightarrow> string list \<Rightarrow> service_invalid" where
  "scan_loop manifest found [] = found"
| "scan_loop manifest found (token # tokens) =
     (if token = ''--'' then found
      else case option_and_value token of (name, v) \<Rightarrow>
        if name = ''--json'' \<and> v = None then scan_loop manifest (found\<lparr>si_json := True\<rparr>) tokens
        else if name = ''--output'' \<or> output_alias manifest name then
          (case v of
             Some v \<Rightarrow> scan_loop manifest (note_output v found) tokens
           | None \<Rightarrow>
               (case tokens of
                  [] \<Rightarrow> found
                | v # tokens' \<Rightarrow> scan_loop manifest (note_output v found) tokens'))
        else scan_loop manifest found tokens)"

definition scan_globals :: "json \<Rightarrow> string list \<Rightarrow> service_invalid" where
  "scan_globals manifest tokens = scan_loop manifest no_invalid tokens"

definition invalid_command :: "json \<Rightarrow> rejection \<Rightarrow> string list \<Rightarrow> service_invalid" where
  "invalid_command manifest r args =
     (scan_globals manifest args)\<lparr>si_error := Some (rj_error r), si_correction := Some (rj_correction r)\<rparr>"

definition manifest_command_follows :: "json \<Rightarrow> string list \<Rightarrow> bool" where
  "manifest_command_follows manifest tail =
     (case dropWhile (\<lambda>token. token \<noteq> ''cli'') tail of
        _ # noun # _ \<Rightarrow>
          list_ex (\<lambda>op. case command_words op of w # _ \<Rightarrow> w = noun | [] \<Rightarrow> False) (operations manifest)
      | _ \<Rightarrow> False)"

definition bad_mode :: "string \<Rightarrow> string" where
  "bad_mode v = ''invalid output mode '' @ utf8_encode (quote (chars v)) @ ''; expected human, json, or jsonl''"

definition output_modes :: "string list" where
  "output_modes = [''human'', ''json'', ''jsonl'']"

definition invalid_global_output :: "json \<Rightarrow> string list \<Rightarrow> nat \<Rightarrow> service_command option" where
  "invalid_global_output manifest args index =
     (if length args \<le> index then None
      else
        (let token = args ! index in
         Option.bind
           (case split_once (CHR ''='') token of
              Some (name, v) \<Rightarrow> if name = ''--output'' then Some (v, index, True) else None
            | None \<Rightarrow>
                if token = ''--output'' \<and> index + 1 < length args then Some (args ! (index + 1), index + 1, False)
                else None)
           (\<lambda>(v, value_at, inline).
              if v = [] \<or> parse_output_mode v \<noteq> None \<or> \<not> manifest_command_follows manifest (drop (value_at + 1) args)
              then None
              else
                (let lower = map to_lower v;
                     near = or_else (find (\<lambda>mode. mode = lower) output_modes) (did_you_mean manifest lower output_modes);
                     mode = (case near of Some m \<Rightarrow> m | None \<Rightarrow> ''json'');
                     corrected = args[value_at := (if inline then ''--output='' @ mode else mode)];
                     r = (case near of
                            Some m \<Rightarrow> reject (bad_mode v @ ''; did you mean `'' @ m @ ''`?'')
                              (CArgv (''Use --output '' @ m @ '': `{command}`'') corrected)
                          | None \<Rightarrow> reject (bad_mode v)
                              (CArgv ''Use --output json for one JSON document (jsonl and human are the other modes): `{command}`''
                                corrected))
                 in Some (SInvalid (invalid_command manifest r (drop (value_at + 1) args)))))))"

text \<open>Global options after \<open>cli\<close> and before a service command: the tokens they span, their names.\<close>

fun leading_globals :: "string list \<Rightarrow> (string list \<times> string list \<times> string list) option" where
  "leading_globals [] = Some ([], [], [])"
| "leading_globals (token # tokens) =
     (let name = (case split_once (CHR ''='') token of Some (name, _) \<Rightarrow> name | None \<Rightarrow> token) in
      if name = ''--output'' then
        (if CHR ''='' \<in> set token then
           map_option (\<lambda>(moved, names, rest). (token # moved, name # names, rest)) (leading_globals tokens)
         else
           (case tokens of
              [] \<Rightarrow> None
            | v # tokens' \<Rightarrow>
                map_option (\<lambda>(moved, names, rest). (token # v # moved, name # names, rest)) (leading_globals tokens')))
      else if (name = ''--no-color'' \<or> name = ''--verbose'') \<and> CHR ''='' \<notin> set token then
        map_option (\<lambda>(moved, names, rest). (token # moved, name # names, rest)) (leading_globals tokens)
      else Some ([], [], token # tokens))"

definition misplaced_globals :: "json \<Rightarrow> string list \<Rightarrow> string list \<Rightarrow> service_command option" where
  "misplaced_globals manifest tokens original =
     Option.bind (leading_globals tokens) (\<lambda>(moved, names, rest).
       if names = [] \<or> \<not> claims manifest rest then None
       else
         (let argv = Option.bind (po_offset (new_positions original tokens)) (\<lambda>offset.
                if 0 < offset \<and> original ! (offset - 1) = ''cli''
                then Some (take (offset - 1) original @ moved @ [''cli''] @ rest) else None);
              listed = join '', '' (remdups_adj (sort names));
              r = reject (''the global option '' @ listed @ '' must come before `cli`, not after it'')
                    (case argv of
                       Some argv \<Rightarrow> CArgv ''Place global options before cli: `{command}`'' argv
                     | None \<Rightarrow> CText ''Place global options before cli and retry.'')
          in Some (SInvalid (invalid_command manifest r tokens))))"

section \<open>Runner options\<close>

definition value_options :: "string list" where
  "value_options =
     [''--harness'', ''--transport'', ''--cwd'', ''--model'', ''--auth-profile'', ''--native-max-turns'',
      ''--native-timeout'', ''--native-tool-timeout'', ''--native-output-bytes'', ''--native-profile'',
      ''--native-add-dir'', ''--native-allow-tool'', ''--native-log'', ''--output-contract'',
      ''--permission-mode'', ''--codex-compatibility'', ''--timeout'', ''--output'']"

definition is_value_option :: "string \<Rightarrow> bool" where
  "is_value_option v \<longleftrightarrow> v \<in> set value_options"

definition flag_options :: "string list" where
  "flag_options = [''--dry-run'', ''--no-color'', ''--verbose'']"

definition global_kind :: "string \<Rightarrow> bool option" where
  "global_kind name =
     (if is_value_option name then Some True else if name \<in> set flag_options then Some False else None)"

definition split_option :: "string \<Rightarrow> (string \<times> string) option" where
  "split_option v =
     Option.bind (split_once (CHR ''='') v) (\<lambda>(name, w). if is_value_option name then Some (name, w) else None)"

definition requires_value :: "string \<Rightarrow> runner_error" where
  "requires_value name = invocation_error (name @ '' requires a value.'')"

definition set_once :: "string option \<Rightarrow> string \<Rightarrow> string \<Rightarrow> runner_error + string option" where
  "set_once target name v =
     (if target \<noteq> None then Inl (invocation_error (''runner option '' @ name @ '' was specified more than once''))
      else Inr (Some v))"

definition set_value_option :: "global_flags \<Rightarrow> string \<Rightarrow> string \<Rightarrow> runner_error + global_flags" where
  "set_value_option g name v =
     (if v = [] then Inl (requires_value name)
      else if name = ''--harness'' then Inr (g\<lparr>gf_harness := Some v\<rparr>)
      else if name = ''--transport'' then Inr (g\<lparr>gf_transport := Some v\<rparr>)
      else if name = ''--cwd'' then Inr (g\<lparr>gf_cwd := Some v\<rparr>)
      else if name = ''--model'' then mapE (\<lambda>x. g\<lparr>gf_model := x\<rparr>) (set_once (gf_model g) name v)
      else if name = ''--auth-profile'' then mapE (\<lambda>x. g\<lparr>gf_auth_profile := x\<rparr>) (set_once (gf_auth_profile g) name v)
      else if name = ''--native-log'' then mapE (\<lambda>x. g\<lparr>gf_native_log := x\<rparr>) (set_once (gf_native_log g) name v)
      else if name = ''--output-contract'' then
        (if v \<noteq> ''native'' \<and> v \<noteq> ''image-envelope''
         then Inl (invocation_error ''output contract must be native or image-envelope'')
         else mapE (\<lambda>x. g\<lparr>gf_output_contract := x\<rparr>) (set_once (gf_output_contract g) name v))
      else if name = ''--native-max-turns''
        then mapE (\<lambda>x. g\<lparr>gf_native_max_turns := x\<rparr>) (set_once (gf_native_max_turns g) name v)
      else if name = ''--native-timeout'' then mapE (\<lambda>x. g\<lparr>gf_native_timeout := x\<rparr>) (set_once (gf_native_timeout g) name v)
      else if name = ''--native-tool-timeout''
        then mapE (\<lambda>x. g\<lparr>gf_native_tool_timeout := x\<rparr>) (set_once (gf_native_tool_timeout g) name v)
      else if name = ''--native-output-bytes''
        then mapE (\<lambda>x. g\<lparr>gf_native_output_bytes := x\<rparr>) (set_once (gf_native_output_bytes g) name v)
      else if name = ''--native-profile'' then mapE (\<lambda>x. g\<lparr>gf_native_profile := x\<rparr>) (set_once (gf_native_profile g) name v)
      else if name = ''--native-add-dir'' then Inr (g\<lparr>gf_native_add_dirs := gf_native_add_dirs g @ [v]\<rparr>)
      else if name = ''--native-allow-tool'' then Inr (g\<lparr>gf_native_allow_tools := gf_native_allow_tools g @ [v]\<rparr>)
      else if name = ''--permission-mode'' then mapE (\<lambda>x. g\<lparr>gf_permission_mode := x\<rparr>) (set_once (gf_permission_mode g) name v)
      else if name = ''--codex-compatibility''
        then mapE (\<lambda>x. g\<lparr>gf_codex_compatibility := x\<rparr>) (set_once (gf_codex_compatibility g) name v)
      else if name = ''--timeout'' then Inr (g\<lparr>gf_timeout := Some v\<rparr>)
      else mapE (\<lambda>m. g\<lparr>gf_output := Some m\<rparr>) (ok_or (invocation_error (bad_mode v)) (parse_output_mode v)))"

section \<open>Actions\<close>

datatype 'p runner_command =
    Doctor | HarnessList | HarnessUse string | CleanupPrime string | ConfigExplain
  | ConfigExplainTarget "string list" | ConfigMigrate | ConfigUnset "string list"
  | AuthStatus | AuthLogin | AuthLogout | OrgList | Package 'p | Service service_command

datatype 'p action =
    Help | Version | Runner "'p runner_command" bool
  | Forward "string list" "string list option" "service_command option" bool

type_synonym 'p parsed = "global_flags \<times> 'p action"

definition forward :: "string list \<Rightarrow> 'p action" where
  "forward opaque = Forward (''prose'' # opaque) None None False"

record cli_redirect =
  cr_argv :: "string list"
  cr_operands :: "string list"
  cr_command :: service_command
  cr_language :: bool
  cr_hint_only :: bool

text \<open>
  The manifest and the help topics, the parsers of the other service commands and of \<open>package\<close>, the
  redirections of \<open>service/mod.rs\<close>, and whether a path exists below a working directory.
\<close>

record 'p grammar =
  gr_manifest :: json
  gr_topics :: "(string, json) btree"
  gr_parse :: "string list \<Rightarrow> string list \<Rightarrow> runner_error + service_command"
  gr_unknown :: "string list \<Rightarrow> string list \<Rightarrow> service_command"
  gr_package :: "string list \<Rightarrow> runner_error + ('p \<times> bool)"
  gr_misplaced_local_options :: "string list \<Rightarrow> nat \<Rightarrow> service_command option"
  gr_cli_redirect :: "string list \<Rightarrow> nat \<Rightarrow> cli_redirect option"
  gr_unknown_option_before_cli :: "string list \<Rightarrow> nat \<Rightarrow> service_command option"
  gr_exists :: "string option \<Rightarrow> string \<Rightarrow> bool"

section \<open>Runner commands\<close>

definition known_runner_help_path :: "string list \<Rightarrow> bool" where
  "known_runner_help_path args \<longleftrightarrow>
     args \<noteq> [] \<and> last args = ''--help'' \<and>
     (case butlast args of
        [] \<Rightarrow> True
      | [a] \<Rightarrow> a \<in> {''doctor'', ''harness'', ''cleanup'', ''config''}
      | [a, b] \<Rightarrow> a = ''harness'' \<and> b \<in> {''list'', ''use''} \<or> a = ''cleanup'' \<and> b = ''prime''
          \<or> a = ''config'' \<and> b = ''explain''
      | [a, b, c] \<Rightarrow> a = ''harness'' \<and> b = ''use'' \<or> a = ''cleanup'' \<and> b = ''prime''
      | _ \<Rightarrow> False)"

definition given_twice :: "string \<Rightarrow> runner_error" where
  "given_twice what =
     (invocation_error (what @ '' was given twice with different values''))
       \<lparr>re_action := ''Pass '' @ what @ '' once, with the value you mean.''\<rparr>"

definition set_trailing_output :: "global_flags \<Rightarrow> string \<Rightarrow> runner_error + global_flags" where
  "set_trailing_output g v =
     bindE (set_value_option (g\<lparr>gf_output := None\<rparr>) ''--output'' v) (\<lambda>g'.
       if gf_output g \<noteq> None \<and> gf_output g \<noteq> gf_output g' then Inl (given_twice ''--output'') else Inr g')"

fun take_trailing_globals ::
  "string list \<Rightarrow> global_flags \<Rightarrow> runner_error + (string list \<times> global_flags)" where
  "take_trailing_globals [] g = Inr ([], g)"
| "take_trailing_globals (token # tokens) g =
     (let inline = (case split_once (CHR ''='') token of
            Some (name, v) \<Rightarrow> if name = ''--output'' then Some v else None | None \<Rightarrow> None)
      in case inline of
           Some v \<Rightarrow> bindE (set_trailing_output g v) (take_trailing_globals tokens)
         | None \<Rightarrow>
             if token = ''--output'' then
               (case tokens of
                  [] \<Rightarrow> Inl (requires_value token)
                | v # tokens' \<Rightarrow> bindE (set_trailing_output g v) (take_trailing_globals tokens'))
             else mapE (\<lambda>(rest, g'). (token # rest, g')) (take_trailing_globals tokens g))"

definition selection_options :: "string list" where
  "selection_options = [''--model'', ''--auth-profile'']"

fun harness_use_loop :: "bool \<Rightarrow> string list \<Rightarrow> global_flags \<Rightarrow> runner_error + (bool \<times> global_flags)" where
  "harness_use_loop js [] g = Inr (js, g)"
| "harness_use_loop js (token # tokens) g =
     (if token = ''--json'' then
        (if js then Inl (invocation_error ''runner option --json was specified more than once'')
         else harness_use_loop True tokens g)
      else case split_option token of
        Some (name, v) \<Rightarrow>
          if name \<in> set selection_options then bindE (set_value_option g name v) (harness_use_loop js tokens)
          else Inl (invocation_error ''`cli harness use` accepts only --model, --auth-profile, and --json after the harness ID'')
      | None \<Rightarrow>
          if token \<in> set selection_options then
            (case tokens of
               [] \<Rightarrow> Inl (requires_value token)
             | v # tokens' \<Rightarrow> bindE (set_value_option g token v) (harness_use_loop js tokens'))
          else Inl (invocation_error ''`cli harness use` accepts only --model, --auth-profile, and --json after the harness ID''))"

definition parse_harness_use_options :: "string list \<Rightarrow> global_flags \<Rightarrow> runner_error + (bool \<times> global_flags)" where
  "parse_harness_use_options args g = harness_use_loop False args g"

text \<open>
  The words of a command after \<open>cli\<close>, once help has been dealt with.  The target of \<open>config explain\<close> is
  parsed as a command line of its own, so it is a result of its own.
\<close>

datatype 'p outcome = Act "'p action" | Target "string list" bool

definition service_act :: "service_command \<Rightarrow> 'p outcome" where
  "service_act c = Act (Runner (Service c) False)"

definition selectable_harnesses :: "string list" where
  "selectable_harnesses = [''openprose'', ''agents-sdk'', ''prime'', ''omp'', ''codex'', ''claude'']"

text \<open>The command and its tail: \<open>None\<close> for the arm \<open>_\<close>.\<close>

definition runner_path :: "string list \<Rightarrow> runner_error + ('p runner_command \<times> string list) option" where
  "runner_path args =
     (case args of
        [] \<Rightarrow> Inr None
      | a # r1 \<Rightarrow>
          if a = ''doctor'' then Inr (Some (Doctor, r1))
          else (case r1 of
             [] \<Rightarrow> Inr None
           | b # r2 \<Rightarrow>
               if a = ''harness'' \<and> b = ''list'' then Inr (Some (HarnessList, r2))
               else if a = ''harness'' \<and> b = ''use'' \<and> r2 \<noteq> [] then
                 (if hd r2 \<notin> set selectable_harnesses
                  then Inl (invocation_error ''Harness selection must be one of openprose, agents-sdk, prime, omp, codex, or claude.'')
                  else Inr (Some (HarnessUse (hd r2), tl r2)))
               else if a = ''cleanup'' \<and> b = ''prime'' \<and> r2 \<noteq> [] then Inr (Some (CleanupPrime (hd r2), tl r2))
               else if a = ''config'' \<and> b = ''explain'' then Inr (Some (ConfigExplain, r2))
               else if a = ''config'' \<and> b = ''migrate'' then Inr (Some (ConfigMigrate, r2))
               else if a = ''config'' \<and> b = ''unset'' then Inr (Some (ConfigUnset [], r2))
               else if a = ''org'' \<and> b = ''list'' then Inr (Some (OrgList, r2))
               else if a = ''auth'' \<and> b = ''status'' then Inr (Some (AuthStatus, r2))
               else if a = ''auth'' \<and> b = ''login'' then Inr (Some (AuthLogin, r2))
               else if a = ''auth'' \<and> b = ''logout'' then Inr (Some (AuthLogout, r2))
               else Inr None))"

definition explain_target :: "global_flags \<Rightarrow> string list \<Rightarrow> runner_error + 'p outcome" where
  "explain_target globals tail =
     (let head = takeWhile (\<lambda>w. w \<noteq> ''--'') tail in
      bindE (if head = [] then Inr False else if head = [''--json''] then Inr True
             else Inl (invocation_error ''Config explain accepts only --json before the target separator.'')) (\<lambda>js.
      if globals \<noteq> no_flags
      then Inl (invocation_error ''Pass target runner options after the config explain separator.'')
      else Inr (Target (tl (dropWhile (\<lambda>w. w \<noteq> ''--'') tail)) js)))"

definition unset_keys :: "string list \<Rightarrow> runner_error + 'p outcome" where
  "unset_keys tail =
     (let js = (tail \<noteq> [] \<and> last tail = ''--json''); keys = (if js then butlast tail else tail) in
      if keys = [] \<or> list_ex (starts_with ''-'') keys
      then Inl (invocation_error ''Config unset requires one or more configuration file keys.'')
      else Inr (Act (Runner (ConfigUnset keys) js)))"

definition account_verb :: "'p runner_command \<Rightarrow> bool" where
  "account_verb c = (case c of AuthStatus \<Rightarrow> True | AuthLogin \<Rightarrow> True | AuthLogout \<Rightarrow> True | OrgList \<Rightarrow> True | _ \<Rightarrow> False)"

text \<open>The options after a command path: \<open>None\<close> for words that make the command unknown.\<close>

definition tail_json ::
  "'p runner_command \<Rightarrow> string list \<Rightarrow> global_flags \<Rightarrow> runner_error + (bool option \<times> global_flags)" where
  "tail_json c tail globals =
     bindE (if account_verb c then take_trailing_globals tail globals else Inr (tail, globals)) (\<lambda>(tail, globals).
       (case c of
          HarnessUse _ \<Rightarrow> mapE (\<lambda>(js, g). (Some js, g)) (parse_harness_use_options tail globals)
        | _ \<Rightarrow> Inr (if tail = [] then Some False else if tail = [''--json''] then Some True else None, globals)))"

definition runner_command_with ::
  "'p grammar \<Rightarrow> string list \<Rightarrow> global_flags \<Rightarrow> string list \<Rightarrow> runner_error + ('p outcome \<times> global_flags)" where
  "runner_command_with gr args globals full =
     bindE (runner_path args) (\<lambda>found.
       case found of
         None \<Rightarrow> Inr (service_act (gr_unknown gr args full), globals)
       | Some (c, tail) \<Rightarrow>
           if c = ConfigExplain \<and> ''--'' \<in> set tail then mapE (\<lambda>t. (t, globals)) (explain_target globals tail)
           else if c = ConfigUnset [] then mapE (\<lambda>t. (t, globals)) (unset_keys tail)
           else bindE (tail_json c tail globals) (\<lambda>(js, globals').
             (case js of
                None \<Rightarrow> Inr (service_act (gr_unknown gr args full), globals')
              | Some js \<Rightarrow>
                  if (case c of CleanupPrime _ \<Rightarrow> True | _ \<Rightarrow> False) \<and> js
                  then Inl (invocation_error ''Prime cleanup uses the global `--output json` option before `cli`'')
                  else Inr (Act (Runner c js), globals'))))"

definition without_help :: "'p grammar \<Rightarrow> string list \<Rightarrow> string list" where
  "without_help gr args =
     (let a1 = (case help_without_json args of Some a \<Rightarrow> a | None \<Rightarrow> args)
      in case help_request (gr_manifest gr) a1 of Some a \<Rightarrow> a | None \<Rightarrow> a1)"

definition parse_runner_command ::
  "'p grammar \<Rightarrow> string list \<Rightarrow> global_flags \<Rightarrow> string list \<Rightarrow> runner_error + ('p outcome \<times> global_flags)" where
  "parse_runner_command gr args0 globals full =
     (let args = without_help gr args0;
          short_help = (if args \<noteq> [] \<and> last args = ''-h'' then butlast args @ [''--help''] else args)
      in case group_help (gr_manifest gr) (gr_topics gr) args of
           Some help \<Rightarrow> Inr (service_act (SHelp help), globals)
         | None \<Rightarrow>
             if known_runner_help_path short_help then Inr (Act Help, globals)
             else case misplaced_globals (gr_manifest gr) args full of
               Some c \<Rightarrow> Inr (service_act c, globals)
             | None \<Rightarrow>
                 if claims (gr_manifest gr) args then mapE (\<lambda>c. (service_act c, globals)) (gr_parse gr args full)
                 else if args \<noteq> [] \<and> hd args = ''package'' then
                   bindE (take_trailing_globals (tl args) globals) (\<lambda>(rest, globals').
                     mapE (\<lambda>(c, js). (Act (Runner (Package c) js), globals')) (gr_package gr rest))
                 else runner_command_with gr args globals full)"

text \<open>The target of \<open>config explain\<close> is shorter than the words it came from.\<close>

lemma help_without_json_length: "help_without_json args = Some args' \<Longrightarrow> length args' \<le> length args"
proof -
  assume a: "help_without_json args = Some args'"
  let ?p = "\<lambda>token. token \<noteq> ''--''"
  have "args' = filter (\<lambda>token. token \<noteq> ''--json'') (takeWhile ?p args) @ dropWhile ?p args"
    using a by (simp add: help_without_json_def Let_def split: if_splits)
  moreover have "length (filter (\<lambda>token. token \<noteq> ''--json'') (takeWhile ?p args)) \<le> length (takeWhile ?p args)"
    by (rule length_filter_le)
  moreover have "length args = length (takeWhile ?p args) + length (dropWhile ?p args)"
    by (metis length_append takeWhile_dropWhile_id)
  ultimately show ?thesis by simp
qed

lemma help_request_length: "help_request manifest args = Some args' \<Longrightarrow> length args' \<le> length args + 1"
  by (auto simp: help_request_def split: if_splits)

lemma without_help_length: "length (without_help gr args) \<le> length args + 1"
  using help_without_json_length help_request_length
  by (fastforce simp: without_help_def Let_def split: option.split)

lemma explain_target_length:
  assumes "explain_target globals tail = Inr (Target words js)" and "''--'' \<in> set tail"
  shows "length words < length tail"
proof -
  have "words = tl (dropWhile (\<lambda>w. w \<noteq> ''--'') tail)"
    using assms(1) by (auto simp: explain_target_def Let_def bindE_eq_Inr split: if_splits)
  moreover have "dropWhile (\<lambda>w. w \<noteq> ''--'') tail \<noteq> []" using assms(2) by (simp add: dropWhile_eq_Nil_conv)
  moreover have "length (dropWhile (\<lambda>w. w \<noteq> ''--'') tail) \<le> length tail" by (rule length_dropWhile_le)
  ultimately show ?thesis by (cases "dropWhile (\<lambda>w. w \<noteq> ''--'') tail") auto
qed

lemma runner_path_explain: "runner_path args = Inr (Some (ConfigExplain, tail)) \<Longrightarrow> length args = length tail + 2"
  by (auto simp: runner_path_def split: list.splits if_splits)

lemma runner_command_with_target:
  fixes gr :: "'p grammar"
  assumes "runner_command_with gr args globals full = Inr (Target words js, globals')"
  shows "length words + 2 < length args"
proof -
  obtain found :: "('p runner_command \<times> string list) option" where found: "runner_path args = Inr found"
    using assms by (auto simp: runner_command_with_def bindE_eq_Inr)
  note run = assms [unfolded runner_command_with_def found bindE_simps]
  show ?thesis
  proof (cases found)
    case None
    then show ?thesis using run by (simp add: service_act_def)
  next
    case (Some ct)
    obtain c tail where ct: "ct = (c, tail)" by (cases ct)
    note run = run [unfolded Some ct option.case prod.case]
    show ?thesis
    proof (cases "c = ConfigExplain \<and> ''--'' \<in> set tail")
      case True
      then have "explain_target globals tail = Inr (Target words js :: 'p outcome)" using run by (simp add: mapE_eq_Inr)
      then show ?thesis using True found Some ct runner_path_explain explain_target_length by fastforce
    next
      case False
      note run = run [unfolded if_not_P [OF False]]
      have "unset_keys tail \<noteq> Inr (Target words js :: 'p outcome)" by (simp add: unset_keys_def Let_def)
      then have "c \<noteq> ConfigUnset []" using run by (auto simp: mapE_eq_Inr)
      then show ?thesis using run by (auto simp: bindE_eq_Inr service_act_def split: option.splits if_splits)
    qed
  qed
qed

lemma parse_runner_command_target:
  assumes "parse_runner_command gr args globals full = Inr (Target words js, globals')"
  shows "length words < length args"
proof -
  have "runner_command_with gr (without_help gr args) globals full = Inr (Target words js, globals')"
    using assms unfolding parse_runner_command_def Let_def
    by (auto simp: bindE_eq_Inr mapE_eq_Inr service_act_def split: option.splits if_splits)
  then show ?thesis using runner_command_with_target without_help_length [of gr args] by fastforce
qed

section \<open>The command line\<close>

definition forwarded :: "cli_redirect \<Rightarrow> bool \<Rightarrow> string list \<Rightarrow> 'p action" where
  "forwarded r on_disk opaque =
     Forward (''prose'' # opaque) (Some (cr_argv r))
       (if \<not> on_disk \<and> cr_language r then Some (cr_command r) else None) (cr_hint_only r)"

definition service_action :: "service_command \<Rightarrow> 'p action" where
  "service_action c = Runner (Service c) False"

text \<open>\<open>prose help cli\<close>: the words for the runner command parser, where they ask for help.\<close>

definition cli_help :: "'p grammar \<Rightarrow> string list \<Rightarrow> nat \<Rightarrow> string list option" where
  "cli_help gr args index =
     (if args ! index = ''help'' \<and> index + 1 < length args \<and> args ! (index + 1) = ''cli'' then
        (let asked = ''help'' # drop (index + 2) args;
             helped = (case help_without_json asked of Some a \<Rightarrow> a | None \<Rightarrow> asked)
         in if help_request (gr_manifest gr) helped \<noteq> None then Some helped else None)
      else None)"

lemma cli_help_length: "cli_help gr args index = Some helped \<Longrightarrow> length helped + index < length args"
  using help_without_json_length by (fastforce simp: cli_help_def Let_def split: if_splits option.splits)

definition explained_target :: "bool \<Rightarrow> runner_error + 'p parsed \<Rightarrow> runner_error + 'p parsed" where
  "explained_target js parsed =
     bindE parsed (\<lambda>(globals, act). case act of
       Forward argv _ _ _ \<Rightarrow> Inr (globals, Runner (ConfigExplainTarget argv) js)
     | _ \<Rightarrow> Inl (invocation_error ''Config explain target must be a language invocation, not a runner operation.''))"

text \<open>The word at which the options end.\<close>

definition language_word ::
  "'p grammar \<Rightarrow> string list \<Rightarrow> global_flags \<Rightarrow> nat \<Rightarrow> runner_error + ('p outcome \<times> global_flags)" where
  "language_word gr args globals index =
     (case gr_misplaced_local_options gr args index of
        Some c \<Rightarrow> Inr (service_act c, globals)
      | None \<Rightarrow>
          (case cli_help gr args index of
             Some helped \<Rightarrow> parse_runner_command gr helped globals args
           | None \<Rightarrow>
               (case gr_cli_redirect gr args index of
                  Some r \<Rightarrow>
                    (let on_disk = cr_hint_only r \<or> list_ex (gr_exists gr (gf_cwd globals)) (cr_operands r) in
                     if \<not> on_disk \<and> \<not> cr_language r then Inr (service_act (cr_command r), globals)
                     else Inr (Act (forwarded r on_disk (drop index args)), globals))
                | None \<Rightarrow>
                    (case gr_unknown_option_before_cli gr args index of
                       Some c \<Rightarrow> Inr (service_act c, globals)
                     | None \<Rightarrow>
                         if args ! index = ''cli'' then parse_runner_command gr (drop (index + 1) args) globals args
                         else Inr (Act (forward (drop index args)), globals)))))"

lemma language_word_target:
  "\<lbrakk>language_word gr args globals index = Inr (Target words js, globals'); index < length args\<rbrakk>
     \<Longrightarrow> length words < length args"
  by (auto simp: language_word_def Let_def service_act_def dest!: parse_runner_command_target cli_help_length
      split: option.splits if_splits)

function parse_loop :: "'p grammar \<Rightarrow> string list \<Rightarrow> global_flags \<Rightarrow> nat \<Rightarrow> runner_error + 'p parsed" where
  "parse_loop gr args globals index =
     (if length args \<le> index then Inr (globals, Help)
      else
        (let token = args ! index in
         if token = ''--'' then
           (if drop (index + 1) args = []
            then Inl (invocation_error ''`--` must be followed by a language command'')
            else Inr (globals, forward (drop (index + 1) args)))
         else if token = ''--help'' then Inr (globals, Help)
         else if token = ''--version'' then Inr (globals, Version)
         else if token = ''--dry-run'' then parse_loop gr args (globals\<lparr>gf_dry_run := True\<rparr>) (index + 1)
         else if token = ''--no-color'' then parse_loop gr args (globals\<lparr>gf_no_color := True\<rparr>) (index + 1)
         else if token = ''--verbose'' then parse_loop gr args (globals\<lparr>gf_verbose := True\<rparr>) (index + 1)
         else case invalid_global_output (gr_manifest gr) args index of
           Some c \<Rightarrow> Inr (globals, service_action c)
         | None \<Rightarrow>
             (case split_option token of
                Some (name, v) \<Rightarrow>
                  (case set_value_option globals name v of
                     Inl e \<Rightarrow> Inl e
                   | Inr g \<Rightarrow> parse_loop gr args g (index + 1))
              | None \<Rightarrow>
                  if is_value_option token then
                    (if length args \<le> index + 1 then Inl (requires_value token)
                     else case set_value_option globals token (args ! (index + 1)) of
                       Inl e \<Rightarrow> Inl e
                     | Inr g \<Rightarrow> parse_loop gr args g (index + 2))
                  else case language_word gr args globals index of
                    Inl e \<Rightarrow> Inl e
                  | Inr (Act act, g) \<Rightarrow> Inr (g, act)
                  | Inr (Target words js, g) \<Rightarrow> explained_target js (parse_loop gr words no_flags 0))))"
  by pat_completeness auto
termination
  by (relation "inv_image (less_than <*lex*> less_than) (\<lambda>(gr, args, globals, index). (length args, length args - index))")
    (auto dest: language_word_target)

declare parse_loop.simps [simp del]

definition parse_invocation :: "'p grammar \<Rightarrow> string list \<Rightarrow> runner_error + 'p parsed" where
  "parse_invocation gr args = parse_loop gr args no_flags 0"

text \<open>The reserved route of the weave experiments: whether options came before it, and its arguments.\<close>

function weave_loop :: "string list \<Rightarrow> global_flags \<Rightarrow> nat \<Rightarrow> (bool \<times> string list) option" where
  "weave_loop args globals index =
     (if length args \<le> index then None
      else
        (let token = args ! index in
         if token \<in> {''--'', ''--help'', ''--version''} then None
         else if token \<in> set flag_options then weave_loop args globals (index + 1)
         else case split_option token of
           Some (name, v) \<Rightarrow>
             (case set_value_option globals name v of
                Inl _ \<Rightarrow> None | Inr g \<Rightarrow> weave_loop args g (index + 1))
         | None \<Rightarrow>
             if is_value_option token then
               (if length args \<le> index + 1 then None
                else case set_value_option globals token (args ! (index + 1)) of
                       Inl _ \<Rightarrow> None | Inr g \<Rightarrow> weave_loop args g (index + 2))
             else if token = ''cli'' \<and> index + 1 < length args \<and> args ! (index + 1) = ''weave''
             then Some (index \<noteq> 0, drop (index + 2) args) else None))"
  by pat_completeness auto
termination by (relation "measure (\<lambda>(args, globals, index). length args - index)") auto

declare weave_loop.simps [simp del]

definition weave_route :: "string list \<Rightarrow> (bool \<times> string list) option" where
  "weave_route args = weave_loop args no_flags 0"

section \<open>Words of the language are opaque\<close>

text \<open>The options that give the flags, read from the left.\<close>

inductive runner_options :: "string list \<Rightarrow> global_flags \<Rightarrow> bool" where
  none: "runner_options [] no_flags"
| dry_run: "runner_options os g \<Longrightarrow> runner_options (os @ [''--dry-run'']) (g\<lparr>gf_dry_run := True\<rparr>)"
| no_color: "runner_options os g \<Longrightarrow> runner_options (os @ [''--no-color'']) (g\<lparr>gf_no_color := True\<rparr>)"
| verbose: "runner_options os g \<Longrightarrow> runner_options (os @ [''--verbose'']) (g\<lparr>gf_verbose := True\<rparr>)"
| inline: "\<lbrakk>runner_options os g; is_value_option name; set_value_option g name v = Inr g'\<rbrakk>
    \<Longrightarrow> runner_options (os @ [name @ CHR ''='' # v]) g'"
| separate: "\<lbrakk>runner_options os g; is_value_option name; set_value_option g name v = Inr g'\<rbrakk>
    \<Longrightarrow> runner_options (os @ [name, v]) g'"

lemma split_option_Some: "split_option token = Some (name, v) \<Longrightarrow> is_value_option name \<and> token = name @ CHR ''='' # v"
  by (auto simp: split_option_def bind_eq_Some_conv split_once_Some split: if_splits)

lemma runner_command_with_no_forward:
  fixes gr :: "'p grammar"
  shows "runner_command_with gr args globals full \<noteq> Inr (Act (Forward argv hint r d), g)"
proof
  assume a: "runner_command_with gr args globals full = Inr (Act (Forward argv hint r d), g)"
  obtain found :: "('p runner_command \<times> string list) option" where found: "runner_path args = Inr found"
    using a by (auto simp: runner_command_with_def bindE_eq_Inr)
  note run = a [unfolded runner_command_with_def found bindE_simps]
  show False
  proof (cases found)
    case None
    then show ?thesis using run by (simp add: service_act_def)
  next
    case (Some ct)
    obtain c tail where ct: "ct = (c, tail)" by (cases ct)
    note run = run [unfolded Some ct option.case prod.case]
    have target: "explain_target globals tail \<noteq> Inr (Act (Forward argv hint r d) :: 'p outcome)"
      by (simp add: explain_target_def Let_def bindE_eq_Inr)
    have unset: "unset_keys tail \<noteq> Inr (Act (Forward argv hint r d) :: 'p outcome)"
      by (simp add: unset_keys_def Let_def)
    show ?thesis
    proof (cases "c = ConfigExplain \<and> ''--'' \<in> set tail")
      case True
      then show ?thesis using run target by (simp add: mapE_eq_Inr)
    next
      case False
      note run = run [unfolded if_not_P [OF False]]
      have "c \<noteq> ConfigUnset []" using run unset by (auto simp: mapE_eq_Inr)
      then show ?thesis using run by (auto simp: bindE_eq_Inr service_act_def split: option.splits if_splits)
    qed
  qed
qed

lemma runner_command_no_forward [simp]:
  "parse_runner_command gr args globals full \<noteq> Inr (Act (Forward argv hint r d), g)"
proof
  assume "parse_runner_command gr args globals full = Inr (Act (Forward argv hint r d), g)"
  then have "runner_command_with gr (without_help gr args) globals full = Inr (Act (Forward argv hint r d), g)"
    unfolding parse_runner_command_def Let_def
    by (auto simp: bindE_eq_Inr mapE_eq_Inr service_act_def split: option.splits if_splits)
  then show False using runner_command_with_no_forward by blast
qed

text \<open>What a command line that is forwarded looks like.\<close>

definition opaque_words :: "string list \<Rightarrow> global_flags \<Rightarrow> string list \<Rightarrow> bool" where
  "opaque_words args globals argv \<longleftrightarrow>
     (\<exists>options opaque. argv = ''prose'' # opaque \<and> opaque \<noteq> [] \<and> runner_options options globals
        \<and> (args = options @ opaque \<or> args = options @ ''--'' # opaque))"

lemma language_word_forward:
  assumes "language_word gr args globals index = Inr (Act (Forward argv hint r d), g)"
    and "runner_options (take index args) globals" and "index < length args"
  shows "opaque_words args g argv"
proof -
  have "g = globals \<and> argv = ''prose'' # drop index args"
    using assms(1)
    by (auto simp: language_word_def Let_def service_act_def forward_def forwarded_def
        split: option.splits if_splits)
  moreover have "args = take index args @ drop index args" by simp
  ultimately show ?thesis unfolding opaque_words_def
    using assms(2,3) by (intro exI [of _ "take index args"] exI [of _ "drop index args"]) auto
qed

lemma take_next: "i < length xs \<Longrightarrow> take (i + 1) xs = take i xs @ [xs ! i]"
  by (simp add: take_Suc_conv_app_nth)

lemma take_next_two: "i + 1 < length xs \<Longrightarrow> take (i + 2) xs = take i xs @ [xs ! i, xs ! (i + 1)]"
  using take_next [of i xs] take_next [of "i + 1" xs] by simp

lemma explained_target_no_forward [simp]: "explained_target js parsed \<noteq> Inr (g, Forward argv hint r d)"
  by (auto simp: explained_target_def bindE_eq_Inr split: action.splits)

lemma parse_loop_forward:
  "\<lbrakk>parse_loop gr args globals index = Inr (g, Forward argv hint r d); runner_options (take index args) globals\<rbrakk>
     \<Longrightarrow> opaque_words args g argv"
proof (induction gr args globals index rule: parse_loop.induct)
  case (1 gr args globals index)
  note run = 1(7) [unfolded parse_loop.simps [of gr args globals index] Let_def]
  have index: "index < length args" using run by (cases "length args \<le> index") simp_all
  then have ni: "\<not> length args \<le> index" by simp
  let ?token = "args ! index"
  note options = 1(8)
  have next_flag: "runner_options (take (index + 1) args) (globals\<lparr>gf_dry_run := True\<rparr>)" if "?token = ''--dry-run''"
    using runner_options.dry_run [OF options] take_next [OF index] that by simp
  have next_color: "runner_options (take (index + 1) args) (globals\<lparr>gf_no_color := True\<rparr>)" if "?token = ''--no-color''"
    using runner_options.no_color [OF options] take_next [OF index] that by simp
  have next_verbose: "runner_options (take (index + 1) args) (globals\<lparr>gf_verbose := True\<rparr>)" if "?token = ''--verbose''"
    using runner_options.verbose [OF options] take_next [OF index] that by simp
  note IH = 1(1-6) [OF ni refl]
  note run = run [unfolded if_not_P [OF ni]]
  consider (separator) "?token = ''--''" | (usage) "?token = ''--help'' \<or> ?token = ''--version''"
    | (dry_run) "?token = ''--dry-run''" | (no_color) "?token = ''--no-color''" | (verbose) "?token = ''--verbose''"
    | (other) "?token \<noteq> ''--''" "?token \<noteq> ''--help''" "?token \<noteq> ''--version''" "?token \<noteq> ''--dry-run''"
        "?token \<noteq> ''--no-color''" "?token \<noteq> ''--verbose''" by blast
  then show ?case
  proof cases
    case separator
    have "args = take index args @ ?token # drop (index + 1) args" using index by (simp add: id_take_nth_drop)
    then have split: "args = take index args @ ''--'' # drop (index + 1) args" unfolding separator .
    have "g = globals" "argv = ''prose'' # drop (index + 1) args" "drop (index + 1) args \<noteq> []"
      using run separator by (auto simp: forward_def split: if_splits)
    then show ?thesis unfolding opaque_words_def using options split by blast
  next
    case usage
    then show ?thesis using run by auto
  next
    case dry_run
    then show ?thesis using run IH(1) next_flag by simp
  next
    case no_color
    then show ?thesis using run IH(2) next_color by simp
  next
    case verbose
    then show ?thesis using run IH(3) next_verbose by simp
  next
    case other
    note run = run [unfolded if_not_P [OF other(1)] if_not_P [OF other(2)] if_not_P [OF other(3)]
        if_not_P [OF other(4)] if_not_P [OF other(5)] if_not_P [OF other(6)]]
    have none: "invalid_global_output (gr_manifest gr) args index = None"
      using run by (auto simp: service_action_def split: option.splits)
    note run = run [unfolded none option.case]
    note ih = IH(4,6) [OF other(1-6) none]
    show ?thesis
    proof (cases "split_option ?token")
      case (Some nv)
      obtain name v where nv: "nv = (name, v)" by (cases nv)
      obtain g' where g': "set_value_option globals name v = Inr g'"
        using run unfolding Some nv by (auto split: sum.splits)
      have "parse_loop gr args g' (index + 1) = Inr (g, Forward argv hint r d)"
        using run unfolding Some nv by (simp add: g')
      moreover have "runner_options (take (index + 1) args) g'"
        using runner_options.inline [OF options _ g'] split_option_Some [of ?token name v] Some nv take_next [OF index]
        by simp
      ultimately show ?thesis using ih(2) [OF Some nv [symmetric] g'] by simp
    next
      case None
      note run = run [unfolded None option.case]
      show ?thesis
      proof (cases "is_value_option ?token")
        case True
        then have more_args: "index + 1 < length args" using run by (auto split: if_splits)
        then obtain g' where g': "set_value_option globals ?token (args ! (index + 1)) = Inr g'"
          using run True by (auto split: sum.splits)
        have "parse_loop gr args g' (index + 2) = Inr (g, Forward argv hint r d)"
          using run True more_args g' by simp
        moreover have "runner_options (take (index + 2) args) g'"
          using runner_options.separate [OF options True g'] take_next_two [OF more_args] by simp
        ultimately show ?thesis using ih(1) [OF None True _ g'] more_args by simp
      next
        case False
        note run = run [unfolded if_not_P [OF False]]
        have "language_word gr args globals index = Inr (Act (Forward argv hint r d), g)"
          using run by (auto split: sum.splits outcome.splits prod.splits)
        then show ?thesis using options index by (rule language_word_forward)
      qed
    qed
  qed
qed

text \<open>
  Property C25.  The words of the language are opaque: a command line that is forwarded is some runner
  options, perhaps \<open>--\<close>, and then the words of the language, which are passed on as they are; the
  flags are those of the options alone, whatever the words say.
\<close>

theorem language_words_are_opaque:
  assumes "parse_invocation gr args = Inr (globals, Forward argv hint rejected in_details)"
  shows "\<exists>options opaque. argv = ''prose'' # opaque \<and> opaque \<noteq> [] \<and> runner_options options globals
    \<and> (args = options @ opaque \<or> args = options @ ''--'' # opaque)"
  using parse_loop_forward [OF assms [unfolded parse_invocation_def]] runner_options.none
  unfolding opaque_words_def by simp

text \<open>A grammar without service commands.\<close>

definition bare_grammar :: "unit grammar" where
  "bare_grammar =
     \<lparr>gr_manifest = JNull, gr_topics = [], gr_parse = (\<lambda>_ _. Inr (SInvalid no_invalid)),
      gr_unknown = (\<lambda>_ _. SInvalid no_invalid), gr_package = (\<lambda>_. Inr ((), False)),
      gr_misplaced_local_options = (\<lambda>_ _. None), gr_cli_redirect = (\<lambda>_ _. None),
      gr_unknown_option_before_cli = (\<lambda>_ _. None), gr_exists = (\<lambda>_ _. False)\<rparr>"

lemma language_words_are_opaque_witness:
  "\<exists>options opaque. [''prose'', ''run'', ''--model'', ''x''] = ''prose'' # opaque \<and> opaque \<noteq> []
     \<and> runner_options options (no_flags\<lparr>gf_model := Some ''m'', gf_verbose := True\<rparr>)
     \<and> ([''--model=m'', ''--verbose'', ''--'', ''run'', ''--model'', ''x''] = options @ opaque
        \<or> [''--model=m'', ''--verbose'', ''--'', ''run'', ''--model'', ''x''] = options @ ''--'' # opaque)"
proof (rule language_words_are_opaque)
  show "parse_invocation bare_grammar [''--model=m'', ''--verbose'', ''--'', ''run'', ''--model'', ''x''] =
      Inr (no_flags\<lparr>gf_model := Some ''m'', gf_verbose := True\<rparr>, Forward [''prose'', ''run'', ''--model'', ''x''] None None False)"
    by (simp add: parse_invocation_def parse_loop.simps invalid_global_output_def split_option_def is_value_option_def value_options_def
        set_value_option_def set_once_def no_flags_def forward_def)
qed

end
