(* ===== verification/Package.thy ===== *)
theory Package
  imports Base64 Errors
begin

text \<open>
  Packages (\<open>registry.rs\<close>): which package values are accepted and the canonical artifact they become
  (\<open>prepare\<close>), the receipt of the registry (\<open>receipt\<close>, \<open>agrees\<close>), and the tree a package is written to
  (\<open>materialize\<close>).  The JSON writer \<open>to_vec\<close> and the digest \<open>sha\<close> are arguments; bytes are a \<open>string\<close>.
\<close>

section \<open>Fields\<close>

definition package_limit :: nat where "package_limit = 2097152"
definition file_limit :: nat where "file_limit = 262144"
definition total_limit :: nat where "total_limit = 1048576"

definition invalid_package :: runner_error where
  "invalid_package = config_error ''Invalid or unsafe package input.''"

definition text_of :: "json \<Rightarrow> runner_error + string" where
  "text_of v = ok_or invalid_package (as_str v)"

definition has_fields :: "json \<Rightarrow> string list \<Rightarrow> string list \<Rightarrow> runner_error + unit" where
  "has_fields v allowed required =
     bindE (ok_or invalid_package (as_object v)) (\<lambda>m.
       require (\<not> (list_ex (\<lambda>key. key \<notin> set allowed) (bt_keys m) \<or> list_ex (\<lambda>key. bt_get m key = None) required))
         invalid_package)"

definition exact_fields :: "json \<Rightarrow> string list \<Rightarrow> runner_error + unit" where
  "exact_fields v names = has_fields v names names"

definition slug :: "string \<Rightarrow> bool" where
  "slug v \<longleftrightarrow> v \<noteq> [] \<and> length v \<le> 63
     \<and> list_all (\<lambda>b. ascii_lower b \<or> ascii_digit b \<or> b = CHR ''-'') v
     \<and> \<not> starts_with ''-'' v \<and> \<not> ends_with ''-'' v"

definition canonical_digits :: "string \<Rightarrow> bool" where
  "canonical_digits v \<longleftrightarrow> v \<noteq> [] \<and> list_all ascii_digit v \<and> (v = ''0'' \<or> \<not> starts_with ''0'' v)"

definition identifiers :: "string \<Rightarrow> bool" where
  "identifiers s \<longleftrightarrow>
     list_all (\<lambda>part. part \<noteq> [] \<and> list_all (\<lambda>b. ascii_alphanumeric b \<or> b = CHR ''-'') part)
       (split_on (\<lambda>c. c = CHR ''.'') s)"

definition package_version :: "string \<Rightarrow> bool" where
  "package_version v \<longleftrightarrow>
     (if length v > 128 then False
      else
        (let (base, build) = (case split_once (CHR ''+'') v of Some (a, b) \<Rightarrow> (a, Some b) | None \<Rightarrow> (v, None)) in
         if build \<noteq> None \<and> \<not> identifiers (the build) then False
         else
           (let (core, pre) = (case split_once (CHR ''-'') base of Some (a, b) \<Rightarrow> (a, Some b) | None \<Rightarrow> (base, None)) in
            if pre \<noteq> None \<and> (\<not> identifiers (the pre)
                 \<or> list_ex (\<lambda>p. list_all ascii_digit p \<and> \<not> canonical_digits p) (split_on (\<lambda>c. c = CHR ''.'') (the pre)))
            then False
            else
              (let parts = split_on (\<lambda>c. c = CHR ''.'') core in
               length parts = 3 \<and> list_all canonical_digits parts))))"

definition digest :: "string \<Rightarrow> bool" where
  "digest v \<longleftrightarrow> length v = 64 \<and> list_all (\<lambda>b. ascii_digit b \<or> 97 \<le> code b \<and> code b \<le> 102) v"

definition SLASH :: char where "SLASH = CHR ''/''"

definition components :: "string \<Rightarrow> string list" where
  "components path = split_on (\<lambda>c. c = SLASH) path"

definition reserved_stems :: "string list" where
  "reserved_stems =
     [''con'', ''prn'', ''aux'', ''nul'', ''node_modules'', ''credentials'', ''secret'', ''secrets'']"

definition package_part :: "string \<Rightarrow> bool" where
  "package_part part \<longleftrightarrow>
     (let lower = map to_lower part; stem = hd (split_on (\<lambda>c. c = CHR ''.'') lower) in
      part \<noteq> [] \<and> \<not> starts_with ''.'' part \<and> \<not> ends_with ''.'' part \<and> stem \<notin> set reserved_stems
      \<and> \<not> (length stem = 4 \<and> (starts_with ''com'' stem \<or> starts_with ''lpt'' stem)
            \<and> 49 \<le> code (stem ! 3) \<and> code (stem ! 3) \<le> 57)
      \<and> \<not> list_ex (\<lambda>suffix. ends_with suffix lower) [''.pem'', ''.key'', ''.p12'', ''.pfx''])"

definition package_path :: "string \<Rightarrow> bool" where
  "package_path v \<longleftrightarrow>
     (if v = [] \<or> length v > 240 \<or> \<not> ascii_alphanumeric (hd v) \<and> hd v \<noteq> CHR ''_''
         \<or> \<not> list_all (\<lambda>b. ascii_alphanumeric b \<or> b \<in> set ''._/-'') v
      then False else list_all package_part (components v))"

definition validate_reference :: "json \<Rightarrow> runner_error + unit" where
  "validate_reference v =
     bindE (exact_fields v [''organization'', ''package'', ''version'', ''sha256'']) (\<lambda>_.
     bindE (text_of (jidx v ''organization'')) (\<lambda>organization. if \<not> slug organization then Inl invalid_package else
     bindE (text_of (jidx v ''package'')) (\<lambda>package. if \<not> slug package then Inl invalid_package else
     bindE (text_of (jidx v ''version'')) (\<lambda>version. if \<not> package_version version then Inl invalid_package else
     bindE (text_of (jidx v ''sha256'')) (\<lambda>sha. require (digest sha) invalid_package)))))"

section \<open>Base64\<close>

definition byte_of :: "char \<Rightarrow> u8" where "byte_of c = of_nat (code c)"
definition char_of_byte :: "u8 \<Rightarrow> char" where "char_of_byte b = char_of (unat b)"

fun package_base64_bytes :: "u8 list \<Rightarrow> string" where
  "package_base64_bytes [] = []"
| "package_base64_bytes (a # rest) =
     (let part = take 3 (a # rest);
          b = (case rest of b # _ \<Rightarrow> b | [] \<Rightarrow> 0);
          c = (case rest of _ # c # _ \<Rightarrow> c | _ \<Rightarrow> 0)
      in [base64_digit (drop_bit 2 a), base64_digit (push_bit 4 (a AND 3) OR drop_bit 4 b)]
         @ [if length part > 1 then base64_digit (push_bit 2 (b AND 15) OR drop_bit 6 c) else PAD]
         @ [if length part > 2 then base64_digit (c AND 63) else PAD]
         @ package_base64_bytes (drop 2 rest))"

definition package_base64 :: "string \<Rightarrow> string" where
  "package_base64 bytes = package_base64_bytes (map byte_of bytes)"

definition group_value :: "nat \<Rightarrow> char \<Rightarrow> u8 option" where
  "group_value index b =
     (case base64_value b of
        Some v \<Rightarrow> Some v
      | None \<Rightarrow> if b = PAD \<and> 2 \<le> index then Some 0 else None)"

definition decode_group :: "char \<Rightarrow> char \<Rightarrow> char \<Rightarrow> char \<Rightarrow> u8 list option" where
  "decode_group x y z w =
     (case (group_value 0 x, group_value 1 y, group_value 2 z, group_value 3 w) of
        (Some a, Some b, Some c, Some d) \<Rightarrow>
          Some ([push_bit 2 a OR drop_bit 4 b]
            @ (if z \<noteq> PAD then [push_bit 4 b OR drop_bit 2 c] else [])
            @ (if w \<noteq> PAD then [push_bit 6 c OR d] else []))
      | _ \<Rightarrow> None)"

fun decode_groups :: "string \<Rightarrow> u8 list option" where
  "decode_groups (x # y # z # w # rest) =
     (case decode_group x y z w of
        None \<Rightarrow> None | Some bytes \<Rightarrow> map_option (append bytes) (decode_groups rest))"
| "decode_groups _ = Some []"

definition package_unbase64 :: "string \<Rightarrow> runner_error + string" where
  "package_unbase64 v =
     (if length v mod 4 \<noteq> 0 then Inl invalid_package
      else case decode_groups v of
             None \<Rightarrow> Inl invalid_package
           | Some out \<Rightarrow>
               if package_base64_bytes out \<noteq> v then Inl invalid_package else Inr (map char_of_byte out))"

section \<open>Preparation\<close>

record prepared =
  pk_bytes :: string
  pk_inventory :: json
  pk_reference :: json
  pk_visibility :: string
  pk_files :: "(string, string) btree"

record gathered =
  cl_files :: "(string, string) btree"
  cl_folded :: "string list"
  cl_total :: nat

definition file_bytes :: "string \<Rightarrow> string \<Rightarrow> runner_error + string" where
  "file_bytes encoding content =
     (if encoding = ''utf8'' then Inr content
      else if encoding = ''base64'' then package_unbase64 content
      else Inl invalid_package)"

definition collect_file :: "gathered \<Rightarrow> json \<Rightarrow> runner_error + gathered" where
  "collect_file cl v =
     bindE (exact_fields v [''path'', ''encoding'', ''content'']) (\<lambda>_.
     bindE (text_of (jidx v ''path'')) (\<lambda>path.
     bindE (text_of (jidx v ''content'')) (\<lambda>content.
       if \<not> package_path path \<or> length content > package_limit \<or> map to_lower path \<in> set (cl_folded cl)
       then Inl invalid_package
       else
         bindE (text_of (jidx v ''encoding'')) (\<lambda>encoding.
         bindE (file_bytes encoding content) (\<lambda>bytes.
           let total' = cl_total cl + length bytes in
           if length bytes > file_limit \<or> total' > total_limit then Inl invalid_package
           else Inr \<lparr>cl_files = bt_insert path bytes (cl_files cl),
                     cl_folded = map to_lower path # cl_folded cl, cl_total = total'\<rparr>)))))"

definition collect_files :: "json list \<Rightarrow> runner_error + gathered" where
  "collect_files vs = foldE collect_file \<lparr>cl_files = [], cl_folded = [], cl_total = 0\<rparr> vs"

text \<open>No path is a directory of another, whatever the case of its letters.\<close>

definition no_file_in_file :: "string list \<Rightarrow> bool" where
  "no_file_in_file folded \<longleftrightarrow>
     \<not> list_ex (\<lambda>path. list_ex (\<lambda>other. starts_with (path @ [SLASH]) other) folded) folded"

definition export_name :: "string \<Rightarrow> bool" where
  "export_name name \<longleftrightarrow> name \<noteq> [] \<and> length name \<le> 64 \<and> ascii_alphabetic (hd name)
     \<and> list_all (\<lambda>b. ascii_alphanumeric b \<or> b \<in> set ''_-'') name
     \<and> name \<notin> set [''prototype'', ''constructor'', ''__proto__'']"

definition check_export :: "(string, string) btree \<Rightarrow> unit \<Rightarrow> string \<times> json \<Rightarrow> runner_error + unit" where
  "check_export files _ export =
     (if \<not> export_name (fst export) then Inl invalid_package
      else bindE (text_of (snd export)) (\<lambda>path. require (bt_get files path \<noteq> None) invalid_package))"

definition check_dependency :: "unit \<Rightarrow> string \<times> json \<Rightarrow> runner_error + unit" where
  "check_dependency _ dependency =
     (if \<not> slug (fst dependency) then Inl invalid_package else validate_reference (snd dependency))"

definition manifest_keys :: "string list" where
  "manifest_keys = [''organization'', ''package'', ''version'', ''exports'', ''dependencies'']"

text \<open>The checks of the manifest: its visibility, its exports.\<close>

definition check_manifest :: "json \<Rightarrow> runner_error + (string \<times> fields)" where
  "check_manifest manifest =
     bindE (has_fields manifest (manifest_keys @ [''visibility'']) manifest_keys) (\<lambda>_.
     bindE (text_of (jidx manifest ''organization'')) (\<lambda>organization. if \<not> slug organization then Inl invalid_package else
     bindE (text_of (jidx manifest ''package'')) (\<lambda>package. if \<not> slug package then Inl invalid_package else
     bindE (text_of (jidx manifest ''version'')) (\<lambda>version. if \<not> package_version version then Inl invalid_package else
     bindE (case jget manifest ''visibility'' of None \<Rightarrow> Inr ''private'' | Some v \<Rightarrow> text_of v) (\<lambda>visibility.
     if visibility \<noteq> ''public'' \<and> visibility \<noteq> ''private'' then Inl invalid_package else
     bindE (ok_or invalid_package (as_object (jidx manifest ''exports''))) (\<lambda>exports.
     bindE (ok_or invalid_package (as_object (jidx manifest ''dependencies''))) (\<lambda>dependencies.
     if exports = [] \<or> length exports > 64 \<or> length dependencies > 64 then Inl invalid_package else
     mapE (\<lambda>_. (visibility, exports)) (foldE check_dependency () dependencies))))))))"

definition inventory_of :: "(string \<Rightarrow> string) \<Rightarrow> (string, string) btree \<Rightarrow> json" where
  "inventory_of sha files =
     JArr (map (\<lambda>(path, bytes). jobj [(''path'', JStr path), (''size'', JNum (PosInt (length bytes))),
       (''sha256'', JStr (sha bytes))]) files)"

definition artifact_of :: "json \<Rightarrow> (string, string) btree \<Rightarrow> json" where
  "artifact_of manifest files =
     jobj [(''schema'', JStr ''prose-package-v1''), (''manifest'', manifest),
       (''files'', JArr (map (\<lambda>(path, bytes). jobj [(''path'', JStr path), (''encoding'', JStr ''base64''),
          (''content'', JStr (package_base64 bytes))]) files))]"

definition reference_of :: "(string \<Rightarrow> string) \<Rightarrow> json \<Rightarrow> string \<Rightarrow> json" where
  "reference_of sha manifest bytes =
     jobj [(''organization'', jidx manifest ''organization''), (''package'', jidx manifest ''package''),
       (''version'', jidx manifest ''version''), (''sha256'', JStr (sha bytes))]"

definition prepare :: "(json \<Rightarrow> string) \<Rightarrow> (string \<Rightarrow> string) \<Rightarrow> json \<Rightarrow> runner_error + prepared" where
  "prepare to_vec sha v =
     bindE (exact_fields v [''schema'', ''manifest'', ''files'']) (\<lambda>_.
     if jidx v ''schema'' \<noteq> JStr ''prose-package-v1'' \<or> length (to_vec v) > package_limit then Inl invalid_package else
     bindE (check_manifest (jidx v ''manifest'')) (\<lambda>(visibility, exports).
     bindE (ok_or invalid_package (as_array (jidx v ''files''))) (\<lambda>input_files.
     if input_files = [] \<or> length input_files > 128 then Inl invalid_package else
     bindE (collect_files input_files) (\<lambda>cl.
     if \<not> no_file_in_file (cl_folded cl) then Inl invalid_package else
     bindE (foldE (check_export (cl_files cl)) () exports) (\<lambda>_.
       let manifest = set_field ''visibility'' (JStr visibility) (jidx v ''manifest'');
           bytes = to_vec (artifact_of manifest (cl_files cl)) @ [LF]
       in if length bytes > package_limit then Inl invalid_package
          else Inr \<lparr>pk_bytes = bytes, pk_inventory = inventory_of sha (cl_files cl),
                    pk_reference = reference_of sha manifest bytes, pk_visibility = visibility,
                    pk_files = cl_files cl\<rparr>)))))"

section \<open>Receipts\<close>

definition receipt_size :: "json \<Rightarrow> nat option" where
  "receipt_size v =
     Option.bind (as_f64 v) (\<lambda>size.
       if 0 \<le> size \<and> size \<le> of_nat file_limit \<and> is_integral size then Some (nat \<lfloor>size\<rfloor>) else None)"

definition uuid_text :: "string \<Rightarrow> bool" where
  "uuid_text uuid \<longleftrightarrow> length uuid = 36
     \<and> list_all (\<lambda>(i, b). if i \<in> {8, 13, 18, 23} then b = CHR ''-''
          else ascii_digit b \<or> 97 \<le> code b \<and> code b \<le> 102) (enumerate 0 uuid)"

record listed =
  ls_previous :: string
  ls_folded :: "string list"
  ls_total :: nat

definition list_file :: "listed \<Rightarrow> json \<Rightarrow> runner_error + listed" where
  "list_file ls v =
     bindE (exact_fields v [''path'', ''size'', ''sha256'']) (\<lambda>_.
     bindE (text_of (jidx v ''path'')) (\<lambda>path.
     bindE (ok_or invalid_package (receipt_size (jidx v ''size''))) (\<lambda>size.
     bindE (ok_or invalid_package (checked_add (ls_total ls) size)) (\<lambda>total'.
       if \<not> package_path path \<or> path \<le> ls_previous ls \<or> map to_lower path \<in> set (ls_folded ls)
          \<or> size > file_limit \<or> total' > total_limit
       then Inl invalid_package
       else bindE (text_of (jidx v ''sha256'')) (\<lambda>sha.
         if \<not> digest sha then Inl invalid_package
         else Inr \<lparr>ls_previous = path, ls_folded = map to_lower path # ls_folded ls, ls_total = total'\<rparr>)))))"

definition check_receipt :: "json \<Rightarrow> runner_error + unit" where
  "check_receipt v =
     bindE (exact_fields v [''schema'', ''organizationId'', ''reference'', ''visibility'', ''inventory'']) (\<lambda>_.
     bindE (text_of (jidx v ''organizationId'')) (\<lambda>uuid.
     if \<not> uuid_text uuid \<or> jidx v ''schema'' \<noteq> JStr ''prose-publication-v1'' then Inl invalid_package else
     bindE (text_of (jidx v ''visibility'')) (\<lambda>visibility.
     if visibility \<noteq> ''private'' \<and> visibility \<noteq> ''public'' then Inl invalid_package else
     bindE (validate_reference (jidx v ''reference'')) (\<lambda>_.
     bindE (ok_or invalid_package (as_array (jidx v ''inventory''))) (\<lambda>inventory.
     if inventory = [] \<or> length inventory > 128 then Inl invalid_package else
     bindE (foldE list_file \<lparr>ls_previous = [], ls_folded = [], ls_total = 0\<rparr> inventory) (\<lambda>ls.
       require (no_file_in_file (ls_folded ls)) invalid_package))))))"

definition agrees_with :: "json \<Rightarrow> prepared \<Rightarrow> bool" where
  "agrees_with v p \<longleftrightarrow>
     jidx v ''reference'' = pk_reference p \<and> jidx v ''visibility'' = JStr (pk_visibility p)
     \<and> (case as_array (jidx v ''inventory'') of
          None \<Rightarrow> False
        | Some inventory \<Rightarrow>
            (let expected = the (as_array (pk_inventory p)) in
             length inventory = length expected
             \<and> list_all (\<lambda>(left, right). jidx left ''path'' = jidx right ''path''
                  \<and> jidx left ''sha256'' = jidx right ''sha256''
                  \<and> receipt_size (jidx left ''size'') = receipt_size (jidx right ''size'')) (zip inventory expected)))"

section \<open>The tree of a package\<close>

text \<open>
  A directory tree maps the components of a path to what is there; \<open>fold_name\<close> is the identity, or the
  folding of names on a file system that does not tell the case of letters.  The tree starts as the
  fresh private directory, which is published when all files are written.
\<close>

datatype node = Dir | File string

type_synonym tree = "string list \<Rightarrow> node option"

definition make_parent ::
  "(string \<Rightarrow> string) \<Rightarrow> string list \<Rightarrow> tree \<times> string list \<Rightarrow> nat \<Rightarrow> runner_error + (tree \<times> string list)" where
  "make_parent fold_name parts state i =
     (case state of (tree, directories) \<Rightarrow>
        let prefix = join [SLASH] (take (i + 1) parts);
            place = map fold_name (take (i + 1) parts)
        in bindE
             (if prefix \<in> set directories then Inr (tree, directories)
              else if tree place \<noteq> None then Inl invalid_package
              else Inr (tree(place \<mapsto> Dir), prefix # directories))
             (\<lambda>(tree, directories).
                if tree place \<noteq> Some Dir then Inl invalid_package else Inr (tree, directories)))"

definition write_file ::
  "(string \<Rightarrow> string) \<Rightarrow> tree \<times> string list \<Rightarrow> string \<times> string \<Rightarrow> runner_error + (tree \<times> string list)" where
  "write_file fold_name state named =
     (let parts = components (fst named) in
      bindE (foldE (make_parent fold_name parts) state [0..<length parts - 1]) (\<lambda>(tree, directories).
        if tree (map fold_name parts) \<noteq> None then Inl invalid_package
        else Inr (tree(map fold_name parts \<mapsto> File (snd named)), directories)))"

definition receipt_name :: string where "receipt_name = ''.prose-package-receipt.json''"

definition materialize ::
  "(json \<Rightarrow> string) \<Rightarrow> (string \<Rightarrow> string) \<Rightarrow> prepared \<Rightarrow> json \<Rightarrow> runner_error + tree" where
  "materialize to_vec fold_name p receipt =
     mapE fst (foldE (write_file fold_name) (Map.empty, []) (pk_files p @ [(receipt_name, to_vec receipt)]))"

section \<open>Objects\<close>

lemma bt_get_object: "bt_get (fold (\<lambda>(k, v) m. bt_insert k v m) kvs m) k =
    (case map_of (rev kvs) k of Some v \<Rightarrow> Some v | None \<Rightarrow> bt_get m k)"
  by (induction kvs arbitrary: m) (auto simp: bt_get_insert map_add_def split: option.splits)

lemma keys_object: "set (bt_keys (fold (\<lambda>(k, v) m. bt_insert k v m) kvs m)) = set (map fst kvs) \<union> set (bt_keys m)"
proof (induction kvs arbitrary: m)
  case Nil
  then show ?case by simp
next
  case (Cons kv kvs)
  then show ?case by (cases kv) (simp add: set_bt_insert del: set_map)
qed

lemma jidx_jobj: "jidx (jobj kvs) k = (case map_of (rev kvs) k of Some v \<Rightarrow> v | None \<Rightarrow> JNull)"
  by (auto simp: jidx_def jobj_def bt_get_object split: option.splits)

lemma map_of_in: "map_of m k = None \<longleftrightarrow> k \<notin> set (map fst m)"
  by (simp add: map_of_eq_None_iff)

lemma has_fields_object:
  "has_fields (JObj m) allowed required = Inr () \<longleftrightarrow> set (bt_keys m) \<subseteq> set allowed \<and> set required \<subseteq> set (bt_keys m)"
  by (auto simp: has_fields_def require_eq_Inr list_ex_iff map_of_in)

lemma exact_jobj: "set (map fst kvs) = set names \<Longrightarrow> exact_fields (jobj kvs) names = Inr ()"
  unfolding exact_fields_def jobj_def has_fields_object keys_object by simp

lemma has_fields_JObj: "has_fields v allowed required = Inr () \<Longrightarrow> \<exists>m. v = JObj m"
  by (auto simp: has_fields_def bindE_eq_Inr ok_or_eq_Inr)

lemma jidx_with_field:
  "jidx (set_field k w (JObj m)) j = (if j = k then w else jidx (JObj m) j)"
  by (simp add: jidx_def set_field_def bt_get_insert)

lemma bt_insert_again: "bt_insert k v (bt_insert k v m) = bt_insert k v m"
  by (induction k v m rule: bt_insert.induct) auto

lemma with_field_again: "set_field k w (set_field k w v) = set_field k w v"
  by (cases v) (simp_all add: set_field_def bt_insert_again)

section \<open>Base64 of a package\<close>

lemma package_base64_bytes: "package_base64_bytes bs = encode_base64 bs"
  by (induction bs rule: encode_base64.induct) simp_all

lemma byte_of_inverse [simp]: "char_of_byte (byte_of c) = c"
  by (simp add: byte_of_def char_of_byte_def unat_of_nat)

lemma value_PAD: "base64_value PAD = None"
  by (simp add: base64_value_def PAD_def ascii_defs)

lemma decode_group_chunk: "decode_chunk final x y z w = Some bs \<Longrightarrow> decode_group x y z w = Some bs"
  unfolding decode_chunk_def decode_group_def Let_def
  by (auto simp: group_value_def value_PAD split: option.splits if_splits)

lemma decode_groups_chunks: "decode_chunks coded = Some bs \<Longrightarrow> decode_groups coded = Some bs"
proof (induction coded arbitrary: bs rule: decode_chunks.induct)
  case (1 x y z w rest)
  then show ?case
    by (auto split: option.split_asm dest!: decode_group_chunk)
qed simp_all

lemma package_unbase64_base64: "package_unbase64 (package_base64 bytes) = Inr bytes"
proof -
  have "decode_base64 (encode_base64 (map byte_of bytes)) = Some (map byte_of bytes)" by (rule decode_encode)
  then have "decode_groups (encode_base64 (map byte_of bytes)) = Some (map byte_of bytes)"
    by (intro decode_groups_chunks) (simp add: decode_base64_def split: if_splits)
  moreover have "map char_of_byte (map byte_of bytes) = bytes" by (induction bytes) simp_all
  ultimately show ?thesis
    unfolding package_unbase64_def package_base64_def package_base64_bytes
    by (simp add: encode_base64_shape)
qed

lemma package_base64_length: "length (package_base64 bytes) = 4 * ((length bytes + 2) div 3)"
  by (simp add: package_base64_def package_base64_bytes encode_base64_length)

section \<open>What is gathered\<close>

definition file_admitted :: "string \<times> string \<Rightarrow> bool" where
  "file_admitted f \<longleftrightarrow> package_path (fst f) \<and> length (snd f) \<le> file_limit"

definition collected_ok :: "gathered \<Rightarrow> bool" where
  "collected_ok cl \<longleftrightarrow>
     bt_invar (cl_files cl) \<and> list_all file_admitted (cl_files cl)
     \<and> set (cl_folded cl) = map to_lower ` set (bt_keys (cl_files cl))
     \<and> inj_on (map to_lower) (set (bt_keys (cl_files cl)))
     \<and> cl_total cl = sum_list (map (length \<circ> snd) (cl_files cl)) \<and> cl_total cl \<le> total_limit"

lemma bt_insert_fresh:
  assumes "k \<notin> set (bt_keys m)"
  shows "set (bt_insert k v m) = insert (k, v) (set m)" and "length (bt_insert k v m) = length m + 1"
    and "sum_list (map f (bt_insert k v m)) = f (k, v) + (sum_list (map f m) :: nat)"
  using assms by (induction k v m rule: bt_insert.induct) auto

lemma collect_file_step:
  assumes "collect_file cl v = Inr cl'"
  obtains path bytes where "package_path path" "length bytes \<le> file_limit"
    "map to_lower path \<notin> set (cl_folded cl)" "cl_total cl + length bytes \<le> total_limit"
    "cl' = \<lparr>cl_files = bt_insert path bytes (cl_files cl), cl_folded = map to_lower path # cl_folded cl,
            cl_total = cl_total cl + length bytes\<rparr>"
  using assms unfolding collect_file_def Let_def
  by (auto simp: bindE_eq_Inr linorder_not_less split: if_splits)

lemma collect_file_ok:
  assumes "collected_ok cl" and "collect_file cl v = Inr cl'"
  shows "collected_ok cl'"
proof -
  obtain path bytes where f: "package_path path" "length bytes \<le> file_limit"
    "map to_lower path \<notin> set (cl_folded cl)" "cl_total cl + length bytes \<le> total_limit"
    and cl': "cl' = \<lparr>cl_files = bt_insert path bytes (cl_files cl), cl_folded = map to_lower path # cl_folded cl,
            cl_total = cl_total cl + length bytes\<rparr>"
    using assms(2) by (rule collect_file_step)
  have fresh: "path \<notin> set (bt_keys (cl_files cl))" using f(3) assms(1) by (auto simp: collected_ok_def)
  show ?thesis using assms(1) f fresh unfolding collected_ok_def cl'
    by (auto simp: bt_invar_insert bt_insert_fresh [OF fresh] set_bt_insert list_all_iff file_admitted_def
        simp del: set_map)
qed

interpretation collecting: fallible_machine collect_file collected_ok
  by unfold_locales (rule collect_file_ok)

lemma collect_files_ok: "collect_files vs = Inr cl \<Longrightarrow> collected_ok cl"
  unfolding collect_files_def by (rule collecting.run_invar [rotated]) (auto simp: collected_ok_def)

lemma collect_count:
  "foldE collect_file cl vs = Inr cl' \<Longrightarrow> collected_ok cl \<Longrightarrow> length (cl_files cl') = length (cl_files cl) + length vs"
proof (induction vs arbitrary: cl)
  case Nil
  then show ?case by simp
next
  case (Cons v vs)
  then obtain d where d: "collect_file cl v = Inr d" "foldE collect_file d vs = Inr cl'"
    by (auto simp: bindE_eq_Inr)
  have "length (cl_files d) = length (cl_files cl) + 1"
    using d(1)
  proof (rule collect_file_step)
    fix path bytes
    assume f: "map to_lower path \<notin> set (cl_folded cl)"
      "d = \<lparr>cl_files = bt_insert path bytes (cl_files cl), cl_folded = map to_lower path # cl_folded cl,
            cl_total = cl_total cl + length bytes\<rparr>"
    then have "path \<notin> set (bt_keys (cl_files cl))" using Cons.prems(2) by (auto simp: collected_ok_def)
    then show ?thesis using f(2) bt_insert_fresh(2) by simp
  qed
  then show ?case using Cons.IH [OF d(2) collect_file_ok [OF Cons.prems(2) d(1)]] by simp
qed

section \<open>The canonical artifact\<close>

definition file_json :: "string \<times> string \<Rightarrow> json" where
  "file_json f = jobj [(''path'', JStr (fst f)), (''encoding'', JStr ''base64''), (''content'', JStr (package_base64 (snd f)))]"

lemma artifact_files: "artifact_of manifest files =
    jobj [(''schema'', JStr ''prose-package-v1''), (''manifest'', manifest), (''files'', JArr (map file_json files))]"
proof -
  have "(\<lambda>(path, bytes). jobj [(''path'', JStr path), (''encoding'', JStr ''base64''),
      (''content'', JStr (package_base64 bytes))]) = file_json"
    by (simp add: file_json_def fun_eq_iff)
  then show ?thesis unfolding artifact_of_def by (simp only:)
qed

lemma file_json_fields:
  "exact_fields (file_json f) [''path'', ''encoding'', ''content''] = Inr ()"
  "jidx (file_json f) ''path'' = JStr (fst f)" "jidx (file_json f) ''encoding'' = JStr ''base64''"
  "jidx (file_json f) ''content'' = JStr (package_base64 (snd f))"
  unfolding file_json_def by (rule exact_jobj, simp) (simp_all add: jidx_jobj)

lemma bt_insert_last: "\<forall>k' \<in> set (bt_keys m). k' < k \<Longrightarrow> bt_insert k v m = m @ [(k, v)]"
  by (induction k v m rule: bt_insert.induct) auto

lemma content_fits: "length bytes \<le> file_limit \<Longrightarrow> length (package_base64 bytes) \<le> package_limit"
  unfolding package_base64_length file_limit_def package_limit_def by linarith

lemma collect_file_json:
  assumes "file_admitted f" and "map to_lower (fst f) \<notin> set (cl_folded cl)"
    and "cl_total cl + length (snd f) \<le> total_limit"
  shows "collect_file cl (file_json f) = Inr \<lparr>cl_files = bt_insert (fst f) (snd f) (cl_files cl),
    cl_folded = map to_lower (fst f) # cl_folded cl, cl_total = cl_total cl + length (snd f)\<rparr>"
proof -
  have "\<not> length (package_base64 (snd f)) > package_limit"
    using content_fits [of "snd f"] assms(1) by (simp add: file_admitted_def)
  moreover have "package_path (fst f)" "length (snd f) \<le> file_limit" using assms(1) by (simp_all add: file_admitted_def)
  ultimately show ?thesis using assms(2,3)
    unfolding collect_file_def file_json_fields
    by (simp add: text_of_def file_bytes_def package_unbase64_base64)
qed

lemma collect_canonical:
  assumes "bt_invar (pre @ m)" and "list_all file_admitted m" and "inj_on (map to_lower) (set (bt_keys (pre @ m)))"
    and "sum_list (map (length \<circ> snd) (pre @ m)) \<le> total_limit"
  shows "\<exists>folded. set folded = map to_lower ` set (bt_keys (pre @ m))
    \<and> foldE collect_file \<lparr>cl_files = pre, cl_folded = rev (map (map to_lower) (bt_keys pre)),
        cl_total = sum_list (map (length \<circ> snd) pre)\<rparr> (map file_json m)
      = Inr \<lparr>cl_files = pre @ m, cl_folded = folded, cl_total = sum_list (map (length \<circ> snd) (pre @ m))\<rparr>"
  using assms
proof (induction m arbitrary: pre)
  case Nil
  show ?case by (intro exI [of _ "rev (map (map to_lower) (bt_keys pre))"] conjI) (simp_all add: image_image)
next
  case (Cons f m)
  have less: "\<forall>k \<in> set (bt_keys pre). k < fst f"
    using Cons.prems(1) by (auto simp: bt_invar_def sorted_wrt_append)
  have "fst f \<notin> set (bt_keys pre)" using less by blast
  moreover have "set (bt_keys pre) \<subseteq> set (bt_keys (pre @ f # m))" "fst f \<in> set (bt_keys (pre @ f # m))" by auto
  ultimately have fresh: "map to_lower (fst f) \<notin> map to_lower ` set (bt_keys pre)"
    using inj_on_image_mem_iff [OF Cons.prems(3)] by blast
  have step: "collect_file \<lparr>cl_files = pre, cl_folded = rev (map (map to_lower) (bt_keys pre)),
        cl_total = sum_list (map (length \<circ> snd) pre)\<rparr> (file_json f)
      = Inr \<lparr>cl_files = pre @ [f], cl_folded = rev (map (map to_lower) (bt_keys (pre @ [f]))),
        cl_total = sum_list (map (length \<circ> snd) (pre @ [f]))\<rparr>"
  proof (subst collect_file_json)
    show "file_admitted f" using Cons.prems(2) by simp
    show "map to_lower (fst f) \<notin> set (cl_folded \<lparr>cl_files = pre, cl_folded = rev (map (map to_lower) (bt_keys pre)),
        cl_total = sum_list (map (length \<circ> snd) pre)\<rparr>)"
      using fresh by (simp add: image_image)
    show "cl_total \<lparr>cl_files = pre, cl_folded = rev (map (map to_lower) (bt_keys pre)),
        cl_total = sum_list (map (length \<circ> snd) pre)\<rparr> + length (snd f) \<le> total_limit"
      using Cons.prems(4) by (simp add: comp_def)
  qed (simp add: bt_insert_last [OF less])
  have all: "bt_invar ((pre @ [f]) @ m)" "list_all file_admitted m" "inj_on (map to_lower) (set (bt_keys ((pre @ [f]) @ m)))"
    "sum_list (map (length \<circ> snd) ((pre @ [f]) @ m)) \<le> total_limit"
    using Cons.prems unfolding append_assoc append_Cons append_Nil list.pred_inject by blast+
  have run: "foldE collect_file cl (map file_json (f # m)) = foldE collect_file cl' (map file_json m)"
    if "collect_file cl (file_json f) = Inr cl'" for cl cl'
    using that by simp
  show ?case using Cons.IH [OF all] unfolding run [OF step] append_assoc append_Cons append_Nil .
qed

lemma check_manifest_again:
  assumes "check_manifest v = Inr (visibility, exports)"
  shows "check_manifest (set_field ''visibility'' (JStr visibility) v) = Inr (visibility, exports)"
proof -
  have has: "has_fields v (manifest_keys @ [''visibility'']) manifest_keys = Inr ()"
    using assms unfolding check_manifest_def bindE_eq_Inr by auto
  then obtain m where m: "v = JObj m" using has_fields_JObj by blast
  have keys: "set (bt_keys m) \<subseteq> set (manifest_keys @ [''visibility''])" "set manifest_keys \<subseteq> set (bt_keys m)"
    using has unfolding m has_fields_object by blast+
  have fields: "has_fields (set_field ''visibility'' (JStr visibility) v) (manifest_keys @ [''visibility'']) manifest_keys = Inr ()"
    using keys unfolding m set_field_def json.case has_fields_object set_bt_insert by auto
  have same: "jidx (set_field ''visibility'' (JStr visibility) v) k = jidx v k" if "k \<in> set manifest_keys" for k
    using that unfolding m jidx_with_field by (auto simp: manifest_keys_def)
  have get: "jget (set_field ''visibility'' (JStr visibility) v) ''visibility'' = Some (JStr visibility)"
    unfolding m by (simp add: set_field_def bt_get_insert)
  have vis: "visibility = ''public'' \<or> visibility = ''private''"
    using assms by (auto simp: check_manifest_def bindE_eq_Inr mapE_eq_Inr split: if_splits)
  obtain organization package version dependencies where parts:
    "text_of (jidx v ''organization'') = Inr organization" "slug organization"
    "text_of (jidx v ''package'') = Inr package" "slug package"
    "text_of (jidx v ''version'') = Inr version" "package_version version"
    "as_object (jidx v ''exports'') = Some exports" "as_object (jidx v ''dependencies'') = Some dependencies"
    "\<not> (exports = [] \<or> length exports > 64 \<or> length dependencies > 64)"
    "foldE check_dependency () dependencies = Inr ()"
    using assms unfolding check_manifest_def
    by (clarsimp simp: bindE_eq_Inr mapE_eq_Inr ok_or_eq_Inr split: if_split_asm) (elim disjE; clarsimp)
  note here = same [unfolded manifest_keys_def]
  show ?thesis
    unfolding check_manifest_def fields get
    using parts vis here by (simp add: text_of_def)
qed

lemma no_file_in_file_set: "set folded = set folded' \<Longrightarrow> no_file_in_file folded = no_file_in_file folded'"
  unfolding no_file_in_file_def list_ex_iff by simp

lemma prepare_steps:
  assumes "prepare to_vec sha v = Inr p"
  obtains visibility exports inputs cl where
    "check_manifest (jidx v ''manifest'') = Inr (visibility, exports)"
    "\<not> (inputs = [] \<or> length inputs > 128)" "collect_files inputs = Inr cl" "no_file_in_file (cl_folded cl)"
    "foldE (check_export (cl_files cl)) () exports = Inr ()"
    "\<not> length (to_vec (artifact_of (set_field ''visibility'' (JStr visibility) (jidx v ''manifest'')) (cl_files cl)) @ [LF])
       > package_limit"
    "p = (let manifest = set_field ''visibility'' (JStr visibility) (jidx v ''manifest'');
              bytes = to_vec (artifact_of manifest (cl_files cl)) @ [LF]
          in \<lparr>pk_bytes = bytes, pk_inventory = inventory_of sha (cl_files cl),
              pk_reference = reference_of sha manifest bytes, pk_visibility = visibility, pk_files = cl_files cl\<rparr>)"
  using assms unfolding prepare_def Let_def
  by (clarsimp simp: bindE_eq_Inr ok_or_eq_Inr split: if_split_asm)

lemma prepare_intro:
  assumes "exact_fields v [''schema'', ''manifest'', ''files''] = Inr ()"
    and "jidx v ''schema'' = JStr ''prose-package-v1''" and "length (to_vec v) \<le> package_limit"
    and "check_manifest (jidx v ''manifest'') = Inr (visibility, exports)"
    and "jidx v ''files'' = JArr inputs" and "\<not> (inputs = [] \<or> length inputs > 128)"
    and "collect_files inputs = Inr cl" and "no_file_in_file (cl_folded cl)"
    and "foldE (check_export (cl_files cl)) () exports = Inr ()"
    and "set_field ''visibility'' (JStr visibility) (jidx v ''manifest'') = manifest"
    and "to_vec (artifact_of manifest (cl_files cl)) @ [LF] = bytes" and "length bytes \<le> package_limit"
  shows "prepare to_vec sha v = Inr \<lparr>pk_bytes = bytes, pk_inventory = inventory_of sha (cl_files cl),
              pk_reference = reference_of sha manifest bytes, pk_visibility = visibility, pk_files = cl_files cl\<rparr>"
  unfolding prepare_def Let_def assms(1,2,4,5) bindE_simps prod.case as_array.simps ok_or_simps
  unfolding assms(7) bindE_simps assms(9,10,11)
  using assms(3,6,8,12) by simp

text \<open>What was accepted is accepted again from its own canonical artifact, with the same result.\<close>

lemma prepare_artifact:
  assumes "prepare to_vec sha v = Inr p"
  shows "\<exists>artifact. pk_bytes p = to_vec artifact @ [LF] \<and> prepare to_vec sha artifact = Inr p"
  using assms
proof (rule prepare_steps)
  fix visibility exports inputs and cl :: gathered
  define manifest where "manifest = set_field ''visibility'' (JStr visibility) (jidx v ''manifest'')"
  define bytes where "bytes = to_vec (artifact_of manifest (cl_files cl)) @ [LF]"
  assume checked: "check_manifest (jidx v ''manifest'') = Inr (visibility, exports)"
    and inputs: "\<not> (inputs = [] \<or> length inputs > 128)" and cl: "collect_files inputs = Inr cl"
    and apart: "no_file_in_file (cl_folded cl)" and exported: "foldE (check_export (cl_files cl)) () exports = Inr ()"
    and small: "\<not> length (to_vec (artifact_of (set_field ''visibility'' (JStr visibility) (jidx v ''manifest'')) (cl_files cl))
       @ [LF]) > package_limit"
    and p: "p = (let manifest = set_field ''visibility'' (JStr visibility) (jidx v ''manifest'');
              bytes = to_vec (artifact_of manifest (cl_files cl)) @ [LF]
          in \<lparr>pk_bytes = bytes, pk_inventory = inventory_of sha (cl_files cl),
              pk_reference = reference_of sha manifest bytes, pk_visibility = visibility, pk_files = cl_files cl\<rparr>)"
  have ok: "collected_ok cl" using cl by (rule collect_files_ok)
  have len: "length (cl_files cl) = length inputs"
    using collect_count [OF cl [unfolded collect_files_def]] by (simp add: collected_ok_def)
  obtain folded where folded: "set folded = map to_lower ` set (bt_keys (cl_files cl))"
    and again: "collect_files (map file_json (cl_files cl))
      = Inr \<lparr>cl_files = cl_files cl, cl_folded = folded, cl_total = sum_list (map (length \<circ> snd) (cl_files cl))\<rparr>"
    using collect_canonical [of "[]" "cl_files cl"] ok unfolding collected_ok_def collect_files_def by auto
  have "set folded = set (cl_folded cl)" using ok folded by (simp add: collected_ok_def)
  then have apart': "no_file_in_file folded" using apart no_file_in_file_set by blast
  have "prepare to_vec sha (artifact_of manifest (cl_files cl)) = Inr p"
    unfolding p Let_def manifest_def [symmetric] bytes_def [symmetric]
  proof (rule prepare_intro [OF _ _ _ _ _ _ again, unfolded gathered.select_convs])
    show "exact_fields (artifact_of manifest (cl_files cl)) [''schema'', ''manifest'', ''files''] = Inr ()"
      unfolding artifact_files by (rule exact_jobj) simp
    show "jidx (artifact_of manifest (cl_files cl)) ''schema'' = JStr ''prose-package-v1''"
      "jidx (artifact_of manifest (cl_files cl)) ''files'' = JArr (map file_json (cl_files cl))"
      unfolding artifact_files by (simp_all add: jidx_jobj)
    have m: "jidx (artifact_of manifest (cl_files cl)) ''manifest'' = manifest"
      unfolding artifact_files by (simp add: jidx_jobj)
    show "check_manifest (jidx (artifact_of manifest (cl_files cl)) ''manifest'') = Inr (visibility, exports)"
      using check_manifest_again [OF checked] unfolding m manifest_def [symmetric] .
    show "set_field ''visibility'' (JStr visibility) (jidx (artifact_of manifest (cl_files cl)) ''manifest'') = manifest"
      using with_field_again [of "''visibility''" "JStr visibility" "jidx v ''manifest''"]
      unfolding m manifest_def [symmetric] .
    show "length (to_vec (artifact_of manifest (cl_files cl))) \<le> package_limit" "length bytes \<le> package_limit"
      using small unfolding bytes_def manifest_def by simp_all
    show "\<not> (map file_json (cl_files cl) = [] \<or> length (map file_json (cl_files cl)) > 128)"
      using inputs len by auto
  qed (rule apart' exported bytes_def [symmetric])+
  then show ?thesis unfolding p Let_def manifest_def by auto
qed

section \<open>What a materialized package holds\<close>

lemma join_components: "join [SLASH] (components path) = path"
  unfolding components_def by (rule join_split_on)

lemma components_plain: "part \<in> set (components path) \<Longrightarrow> SLASH \<notin> set part"
  using split_on_pieces [of "\<lambda>c. c = SLASH" path] unfolding components_def by blast

lemma components_join: "xs \<noteq> [] \<Longrightarrow> \<forall>part \<in> set xs. SLASH \<notin> set part \<Longrightarrow> components (join [SLASH] xs) = xs"
  unfolding components_def by (rule split_on_join) auto

lemma components_inj: "components path = components other \<Longrightarrow> path = other"
  using join_components by metis

lemma components_nonempty [simp]: "components path \<noteq> []"
  unfolding components_def by simp

text \<open>The state of the loop: the directories \<open>ds\<close> are what \<open>directories\<close> records, and the rest are the files written.\<close>

definition grown :: "(string list \<Rightarrow> string option) \<Rightarrow> string list set \<Rightarrow> tree \<times> string list \<Rightarrow> bool" where
  "grown files ds state \<longleftrightarrow>
     (\<forall>place. fst state place = (if place \<in> ds then Some Dir else map_option File (files place)))
     \<and> set (snd state) = join [SLASH] ` ds
     \<and> (\<forall>place \<in> ds. place \<noteq> [] \<and> (\<forall>part \<in> set place. SLASH \<notin> set part))"

lemma grown_parent:
  assumes "grown files ds state" and "place = take (i + 1) parts" and "files place = None" and "place \<noteq> []"
    and "\<forall>part \<in> set place. SLASH \<notin> set part"
  shows "\<exists>state'. make_parent (\<lambda>n. n) parts state i = Inr state' \<and> grown files (insert place ds) state'"
proof (cases state)
  case (Pair tree directories)
  have known: "join [SLASH] place \<in> set directories \<longleftrightarrow> place \<in> ds"
  proof
    assume "join [SLASH] place \<in> set directories"
    then obtain other where "other \<in> ds" and "join [SLASH] other = join [SLASH] place"
      using assms(1) unfolding Pair grown_def by auto
    then have "other = place"
      using components_join [of other] components_join [of place] assms(1,4,5) unfolding grown_def by metis
    then show "place \<in> ds" using \<open>other \<in> ds\<close> by simp
  qed (use assms(1) in \<open>auto simp: Pair grown_def\<close>)
  show ?thesis
  proof (cases "place \<in> ds")
    case True
    then have "make_parent (\<lambda>n. n) parts state i = Inr state"
      using known assms(1,2) by (simp add: make_parent_def Pair grown_def)
    then show ?thesis using assms(1) True by (simp add: insert_absorb)
  next
    case False
    then have "make_parent (\<lambda>n. n) parts state i = Inr (tree(place \<mapsto> Dir), join [SLASH] place # directories)"
      using known assms(1,2,3) by (simp add: make_parent_def Pair grown_def Let_def)
    moreover have "grown files (insert place ds) (tree(place \<mapsto> Dir), join [SLASH] place # directories)"
      using assms(1,4,5) by (auto simp: Pair grown_def)
    ultimately show ?thesis by blast
  qed
qed

lemma grown_parents:
  assumes "grown files ds state" and "\<And>i. i \<in> set ixs \<Longrightarrow> files (take (i + 1) parts) = None"
    and "parts \<noteq> []" and "\<forall>part \<in> set parts. SLASH \<notin> set part"
  shows "\<exists>state'. foldE (make_parent (\<lambda>n. n) parts) state ixs = Inr state'
    \<and> grown files (ds \<union> (\<lambda>i. take (i + 1) parts) ` set ixs) state'"
  using assms(1,2)
proof (induction ixs arbitrary: ds state)
  case Nil
  then show ?case by simp
next
  case (Cons i ixs)
  have "\<forall>part \<in> set (take (i + 1) parts). SLASH \<notin> set part" using assms(4) by (auto dest: in_set_takeD)
  then obtain next_state where made: "make_parent (\<lambda>n. n) parts state i = Inr next_state"
    and following: "grown files (insert (take (i + 1) parts) ds) next_state"
    using grown_parent [OF Cons.prems(1) refl, of i parts] Cons.prems(2) [of i] assms(3) by force
  obtain final where "foldE (make_parent (\<lambda>n. n) parts) next_state ixs = Inr final"
    and "grown files (insert (take (i + 1) parts) ds \<union> (\<lambda>i. take (i + 1) parts) ` set ixs) final"
    using Cons.IH [OF following] Cons.prems(2) by auto
  then show ?case using made by simp
qed

text \<open>Files with different paths, no one a directory of another.\<close>

definition apart :: "string list list \<Rightarrow> bool" where
  "apart places \<longleftrightarrow> distinct places
     \<and> (\<forall>place \<in> set places. \<forall>other \<in> set places. \<forall>n. 0 < n \<longrightarrow> n < length other \<longrightarrow> take n other \<noteq> place)"

definition parents :: "string list list \<Rightarrow> string list set" where
  "parents places = {take n place |place n. place \<in> set places \<and> 0 < n \<and> n < length place}"

definition placed :: "(string \<times> string) list \<Rightarrow> string list \<Rightarrow> string option" where
  "placed fs = map_of (map (\<lambda>f. (components (fst f), snd f)) fs)"

lemma placed_None: "placed fs place = None \<longleftrightarrow> place \<notin> (components \<circ> fst) ` set fs"
  by (simp add: placed_def map_of_eq_None_iff image_image)

lemma parents_Cons: "parents (place # places) = (\<lambda>i. take (i + 1) place) ` set [0..<length place - 1] \<union> parents places"
proof -
  have "(\<lambda>i. take (i + 1) place) ` set [0..<length place - 1] = {take n place |n. 0 < n \<and> n < length place}"
  proof (intro equalityI subsetI)
    fix x
    assume "x \<in> {take n place |n. 0 < n \<and> n < length place}"
    then obtain n where "x = take n place" "0 < n" "n < length place" by auto
    then show "x \<in> (\<lambda>i. take (i + 1) place) ` set [0..<length place - 1]"
      by (intro image_eqI [of _ _ "n - 1"]) auto
  qed auto
  then show ?thesis unfolding parents_def by auto
qed

lemma write_grown:
  assumes "grown (placed fs) (parents (map (components \<circ> fst) fs)) state"
    and "apart (map (components \<circ> fst) (f # fs))"
  shows "\<exists>state'. write_file (\<lambda>n. n) state f = Inr state'
    \<and> grown (placed (f # fs)) (parents (map (components \<circ> fst) (f # fs))) state'"
proof -
  let ?parts = "components (fst f)" and ?ds = "parents (map (components \<circ> fst) (f # fs))"
  have free: "placed fs (take (i + 1) ?parts) = None" if "i \<in> set [0..<length ?parts - 1]" for i
  proof -
    have "take (i + 1) ?parts \<noteq> place" if "place \<in> set (map (components \<circ> fst) fs)" for place
      using assms(2) \<open>i \<in> set _\<close> that unfolding apart_def by auto
    then show ?thesis unfolding placed_None by auto
  qed
  obtain tree directories where made: "foldE (make_parent (\<lambda>n. n) ?parts) state [0..<length ?parts - 1] = Inr (tree, directories)"
    and grown: "grown (placed fs) ?ds (tree, directories)"
    using grown_parents [OF assms(1) free components_nonempty, of "[0..<length ?parts - 1]"] components_plain
    unfolding list.map comp_apply parents_Cons Un_commute [of "(\<lambda>i. take (i + 1) ?parts) ` set [0..<length ?parts - 1]"]
    by auto
  have new: "?parts \<notin> ?ds"
  proof
    assume "?parts \<in> ?ds"
    then obtain other n where "other \<in> set (map (components \<circ> fst) (f # fs))" "?parts = take n other" "0 < n" "n < length other"
      unfolding parents_def by auto
    then show False using assms(2) unfolding apart_def by (metis comp_apply list.set_intros(1) list.simps(9))
  qed
  have "placed fs ?parts = None" using assms(2) unfolding placed_None apart_def by auto
  then have "tree ?parts = None" using grown new unfolding grown_def by simp
  then have "write_file (\<lambda>n. n) state f = Inr (tree(?parts \<mapsto> File (snd f)), directories)"
    using made by (simp add: write_file_def Let_def)
  moreover have "grown (placed (f # fs)) ?ds (tree(?parts \<mapsto> File (snd f)), directories)"
    using grown new unfolding grown_def by (simp add: placed_def)
  ultimately show ?thesis by blast
qed

lemma write_all:
  assumes "apart (map (components \<circ> fst) fs)"
  shows "\<exists>state. foldE (write_file (\<lambda>n. n)) (Map.empty, []) (rev fs) = Inr state
    \<and> grown (placed fs) (parents (map (components \<circ> fst) fs)) state"
  using assms
proof (induction fs)
  case Nil
  then show ?case by (simp add: grown_def placed_def parents_def)
next
  case (Cons f fs)
  have "apart (map (components \<circ> fst) fs)" using Cons.prems unfolding apart_def by simp
  then obtain state where run: "foldE (write_file (\<lambda>n. n)) (Map.empty, []) (rev fs) = Inr state"
    and grown: "grown (placed fs) (parents (map (components \<circ> fst) fs)) state"
    using Cons.IH by blast
  show ?case using write_grown [OF grown Cons.prems] by (simp add: foldE_append run bindE_eq_Inr comp_def)
qed

text \<open>The files of an accepted package are apart, and the receipt beside them.\<close>

lemma take_components: "take n (components path) \<noteq> [] \<Longrightarrow> n < length (components path)
    \<Longrightarrow> starts_with (join [SLASH] (take n (components path)) @ [SLASH]) path"
proof -
  assume n: "take n (components path) \<noteq> []" "n < length (components path)"
  then have rest: "drop n (components path) \<noteq> []" by simp
  have "join [SLASH] (xs @ ys) = join [SLASH] xs @ [SLASH] @ join [SLASH] ys" if "xs \<noteq> []" "ys \<noteq> []" for xs ys :: "string list"
    using that by (induction xs rule: induct_list012) (auto simp: neq_Nil_conv)
  from this [OF n(1) rest] show ?thesis
    using join_components [of path] unfolding starts_with_iff by (metis append.assoc append_take_drop_id)
qed

lemma lower_slash: "map to_lower [SLASH] = [SLASH]"
  by code_simp

lemma files_apart:
  assumes "no_file_in_file folded" and "map to_lower ` set paths \<subseteq> set folded" and "distinct paths"
    and "\<forall>path \<in> set paths. package_path path"
  shows "apart (map components (receipt_name # paths))"
proof -
  have hidden: "components receipt_name = [receipt_name]"
    unfolding components_def by (rule split_on_no_sep) (auto simp: receipt_name_def SLASH_def)
  have part: "\<not> starts_with ''.'' x" if "path \<in> set paths" "x \<in> set (components path)" for path x
    using assms(4) that by (auto simp: package_path_def package_part_def Let_def list_all_iff split: if_splits)
  have dot: "starts_with ''.'' receipt_name" by (simp add: receipt_name_def starts_with_def)
  have other: "place \<noteq> take n (components path)" if "path \<in> set paths" "[receipt_name] = place" "0 < n" for path n place
  proof
    assume "place = take n (components path)"
    then have "take n (components path) = [receipt_name]" using that hidden by simp
    then have "receipt_name \<in> set (take n (components path))" by simp
    then show False using part [OF that(1)] dot by (auto dest: in_set_takeD)
  qed
  have nested: "take n (components path) \<noteq> components path'"
    if "path \<in> set paths" "path' \<in> set paths" "0 < n" "n < length (components path)" for path path' n
  proof
    assume eq: "take n (components path) = components path'"
    have "starts_with (path' @ [SLASH]) path"
      using take_components [of n path] that(3,4) unfolding eq join_components by simp
    then have "starts_with (map to_lower path' @ [SLASH]) (map to_lower path)"
      using lower_slash unfolding starts_with_iff by (metis map_append)
    then show False using assms(1,2) that(1,2) unfolding no_file_in_file_def list_ex_iff by blast
  qed
  have "components receipt_name \<noteq> components path" if "path \<in> set paths" for path
    using other [OF that hidden [symmetric], of "length (components path)"] by simp
  moreover have "distinct (map components paths)"
    using assms(3) by (auto simp: distinct_map inj_on_def dest: components_inj)
  moreover have "take n (components path) \<noteq> [receipt_name]" if "path \<in> set paths" "0 < n" for path n
    using other [OF that(1) hidden [symmetric] that(2)] hidden by metis
  ultimately show ?thesis using nested hidden unfolding apart_def by auto
qed

lemma prepared_tree:
  assumes "prepare to_vec sha v = Inr p"
  shows "\<exists>tree. materialize to_vec (\<lambda>n. n) p receipt = Inr tree
    \<and> {(place, bytes). tree place = Some (File bytes)}
      = (\<lambda>(path, bytes). (components path, bytes)) ` set ((receipt_name, to_vec receipt) # pk_files p)"
  using assms
proof (rule prepare_steps)
  fix visibility exports inputs and cl :: gathered
  assume cl: "collect_files inputs = Inr cl" and free: "no_file_in_file (cl_folded cl)"
    and p: "p = (let manifest = set_field ''visibility'' (JStr visibility) (jidx v ''manifest'');
              bytes = to_vec (artifact_of manifest (cl_files cl)) @ [LF]
          in \<lparr>pk_bytes = bytes, pk_inventory = inventory_of sha (cl_files cl),
              pk_reference = reference_of sha manifest bytes, pk_visibility = visibility, pk_files = cl_files cl\<rparr>)"
  let ?fs = "(receipt_name, to_vec receipt) # rev (pk_files p)"
  have files: "pk_files p = cl_files cl" unfolding p Let_def by simp
  have ok: "collected_ok cl" using cl by (rule collect_files_ok)
  have "apart (map components (receipt_name # map fst (rev (pk_files p))))"
  proof (rule files_apart [OF free])
    show "map to_lower ` set (map fst (rev (pk_files p))) \<subseteq> set (cl_folded cl)"
      using ok unfolding files collected_ok_def by simp
    show "distinct (map fst (rev (pk_files p)))"
      using ok unfolding files collected_ok_def bt_invar_def by (simp add: rev_map [symmetric] strict_sorted_iff)
    show "\<forall>path \<in> set (map fst (rev (pk_files p))). package_path path"
      using ok unfolding files collected_ok_def by (auto simp: list_all_iff file_admitted_def)
  qed
  then have apart: "apart (map (components \<circ> fst) ?fs)" by simp
  then obtain state where run: "foldE (write_file (\<lambda>n. n)) (Map.empty, []) (rev ?fs) = Inr state"
    and grown: "grown (placed ?fs) (parents (map (components \<circ> fst) ?fs)) state"
    using write_all by blast
  have "distinct (map fst (map (\<lambda>f. (components (fst f), snd f)) ?fs))" using apart by (simp add: apart_def comp_def)
  then have named: "placed ?fs place = Some bytes \<longleftrightarrow> (place, bytes) \<in> (\<lambda>f. (components (fst f), snd f)) ` set ?fs" for place bytes
    unfolding placed_def by (subst map_of_eq_Some_iff) auto
  have outside: "place \<notin> parents (map (components \<circ> fst) ?fs)" if "placed ?fs place = Some bytes" for place bytes
  proof -
    have "place \<in> set (map (components \<circ> fst) ?fs)" using that placed_None [of ?fs place] by auto
    then show ?thesis using apart unfolding apart_def parents_def by blast
  qed
  have "fst state place = Some (File bytes) \<longleftrightarrow> (place, bytes) \<in> (\<lambda>f. (components (fst f), snd f)) ` set ?fs"
    for place bytes
  proof -
    have at: "fst state place = (if place \<in> parents (map (components \<circ> fst) ?fs) then Some Dir
        else map_option File (placed ?fs place))" for place
      using grown unfolding grown_def by blast
    show ?thesis using named [of place bytes] outside [of place bytes] unfolding at by auto
  qed
  then have "{(place, bytes). fst state place = Some (File bytes)} = (\<lambda>f. (components (fst f), snd f)) ` set ?fs" by auto
  moreover have "materialize to_vec (\<lambda>n. n) p receipt = Inr (fst state)" using run by (simp add: materialize_def)
  ultimately show ?thesis by (auto simp: case_prod_beta)
qed

text \<open>
  Whatever a file system makes of the names, the tree of a materialized package holds its files and the
  receipt, each at its folded place, and no other file: two names that fold to the same place are refused.
\<close>

definition files_held :: "tree \<Rightarrow> (string list \<times> string) set" where
  "files_held tree = {(place, bytes). tree place = Some (File bytes)}"

lemma files_held_fresh:
  assumes "tree place = None"
  shows "files_held (tree(place \<mapsto> Dir)) = files_held tree"
    and "files_held (tree(place \<mapsto> File bytes)) = insert (place, bytes) (files_held tree)"
  using assms by (auto simp: files_held_def split: if_splits)

lemma make_parent_held:
  "make_parent fold_name parts state i = Inr state' \<Longrightarrow> files_held (fst state') = files_held (fst state)"
  by (cases state) (auto simp: make_parent_def Let_def files_held_fresh bindE_eq_Inr split: if_splits)

lemma make_parents_held:
  "foldE (make_parent fold_name parts) state ixs = Inr state' \<Longrightarrow> files_held (fst state') = files_held (fst state)"
  by (induction ixs arbitrary: state) (auto simp: bindE_eq_Inr dest: make_parent_held)

lemma write_file_held:
  "write_file fold_name state f = Inr state' \<Longrightarrow>
     files_held (fst state') = insert (map fold_name (components (fst f)), snd f) (files_held (fst state))"
  by (auto simp: write_file_def Let_def bindE_eq_Inr files_held_fresh dest: make_parents_held split: if_splits)

lemma write_files_held:
  "foldE (write_file fold_name) state fs = Inr state' \<Longrightarrow>
     files_held (fst state') = (\<lambda>(path, bytes). (map fold_name (components path), bytes)) ` set fs \<union> files_held (fst state)"
  by (induction fs arbitrary: state) (auto simp: bindE_eq_Inr case_prod_beta dest!: write_file_held)

lemma materialize_held:
  "materialize to_vec fold_name p receipt = Inr tree \<Longrightarrow>
     {(place, bytes). tree place = Some (File bytes)}
       = (\<lambda>(path, bytes). (map fold_name (components path), bytes)) ` set ((receipt_name, to_vec receipt) # pk_files p)"
  unfolding materialize_def mapE_eq_Inr
  by (auto simp: files_held_def [symmetric] dest!: write_files_held) (auto simp: files_held_def)

section \<open>Properties\<close>

definition sample_package :: "string list \<Rightarrow> json" where
  "sample_package paths =
     jobj [(''schema'', JStr ''prose-package-v1''),
       (''manifest'', jobj [(''organization'', JStr ''acme''), (''package'', JStr ''notes''), (''version'', JStr ''1.0.0''),
          (''exports'', jobj [(''main'', JStr (hd paths))]), (''dependencies'', jobj [])]),
       (''files'', JArr (map (\<lambda>path. jobj [(''path'', JStr path), (''encoding'', JStr ''utf8''), (''content'', JStr ''hi'')]) paths))]"

definition sample_vec :: "json \<Rightarrow> string" where
  "sample_vec v = (case v of JObj m \<Rightarrow> concat (bt_keys m) | _ \<Rightarrow> ''-'')"

definition sample_sha :: "string \<Rightarrow> string" where
  "sample_sha s = replicate 64 (CHR ''0'')"

lemma sample_manifest: "check_manifest (jidx (sample_package [p, q]) ''manifest'') = Inr (''private'', bt_insert ''main'' (JStr p) [])"
proof -
  have m: "jidx (sample_package [p, q]) ''manifest'' = jobj [(''organization'', JStr ''acme''), (''package'', JStr ''notes''),
      (''version'', JStr ''1.0.0''), (''exports'', jobj [(''main'', JStr p)]), (''dependencies'', jobj [])]"
    unfolding sample_package_def by (simp add: jidx_jobj)
  have good: "slug ''acme''" "slug ''notes''" "package_version ''1.0.0''" by code_simp+
  have "has_fields (jobj [(''organization'', JStr ''acme''), (''package'', JStr ''notes''), (''version'', JStr ''1.0.0''),
      (''exports'', jobj [(''main'', JStr p)]), (''dependencies'', jobj [])]) (manifest_keys @ [''visibility'']) manifest_keys = Inr ()"
    unfolding jobj_def [of "(''organization'', x) # y" for x y] has_fields_object keys_object
    by (simp add: manifest_keys_def)
  moreover have "jget (jobj [(''organization'', JStr ''acme''), (''package'', JStr ''notes''), (''version'', JStr ''1.0.0''),
      (''exports'', jobj [(''main'', JStr p)]), (''dependencies'', jobj [])]) ''visibility'' = None"
    by (simp add: jobj_def)
  ultimately show ?thesis unfolding check_manifest_def m
    using good by (simp add: jidx_jobj text_of_def) (simp add: jobj_def)
qed

definition sample_reference :: json where
  "sample_reference = jobj [(''organization'', JStr ''acme''), (''package'', JStr ''notes''), (''version'', JStr ''1.0.0''),
     (''sha256'', JStr (replicate 64 (CHR ''0'')))]"

definition sample_bytes :: string where
  "sample_bytes = ''filesmanifestschema'' @ [LF]"

lemma sample_prepares:
  assumes "package_path p" and "package_path q" and "map to_lower p \<noteq> map to_lower q" and "p < q"
    and "no_file_in_file [map to_lower q, map to_lower p]"
  shows "\<exists>r. prepare sample_vec sample_sha (sample_package [p, q]) = Inr r \<and> pk_files r = [(p, ''hi''), (q, ''hi'')]
    \<and> pk_bytes r = sample_bytes \<and> pk_visibility r = ''private'' \<and> pk_reference r = sample_reference"
proof -
  have one: "collect_file cl (jobj [(''path'', JStr path), (''encoding'', JStr ''utf8''), (''content'', JStr ''hi'')])
      = Inr \<lparr>cl_files = bt_insert path ''hi'' (cl_files cl), cl_folded = map to_lower path # cl_folded cl, cl_total = cl_total cl + 2\<rparr>"
    if "package_path path" "map to_lower path \<notin> set (cl_folded cl)" "cl_total cl \<le> 10" for cl path
  proof -
    have "exact_fields (jobj [(''path'', JStr path), (''encoding'', JStr ''utf8''), (''content'', JStr ''hi'')])
        [''path'', ''encoding'', ''content''] = Inr ()"
      by (rule exact_jobj) simp
    then show ?thesis using that
      by (simp add: collect_file_def jidx_jobj text_of_def file_bytes_def package_limit_def file_limit_def total_limit_def)
  qed
  have files: "collect_files (map (\<lambda>path. jobj [(''path'', JStr path), (''encoding'', JStr ''utf8''), (''content'', JStr ''hi'')]) [p, q])
      = Inr \<lparr>cl_files = [(p, ''hi''), (q, ''hi'')], cl_folded = [map to_lower q, map to_lower p], cl_total = 4\<rparr>"
    using assms less_not_sym [OF assms(4)] unfolding collect_files_def by (auto simp: one)
  have fit: "length (sample_vec (sample_package [p, q])) \<le> package_limit" "length (sample_vec (artifact_of m f) @ [LF]) \<le> package_limit"
    for m f by (simp_all add: sample_vec_def sample_package_def artifact_of_def jobj_def package_limit_def)
  have main: "export_name ''main''" by code_simp
  let ?manifest = "set_field ''visibility'' (JStr ''private'') (jidx (sample_package [p, q]) ''manifest'')"
  have bytes: "sample_vec (artifact_of m f) @ [LF] = sample_bytes" for m f
    by (simp add: sample_vec_def artifact_of_def jobj_def sample_bytes_def)
  have reference: "reference_of sample_sha ?manifest b = sample_reference" for b
  proof -
    have m: "jidx (sample_package [p, q]) ''manifest'' = jobj [(''organization'', JStr ''acme''), (''package'', JStr ''notes''),
        (''version'', JStr ''1.0.0''), (''exports'', jobj [(''main'', JStr p)]), (''dependencies'', jobj [])]"
      unfolding sample_package_def by (simp add: jidx_jobj)
    show ?thesis unfolding reference_of_def m
      by (simp add: sample_reference_def sample_sha_def set_field_def jobj_def)
  qed
  have "prepare sample_vec sample_sha (sample_package [p, q]) = Inr \<lparr>pk_bytes = sample_bytes,
      pk_inventory = inventory_of sample_sha (cl_files \<lparr>cl_files = [(p, ''hi''), (q, ''hi'')],
         cl_folded = [map to_lower q, map to_lower p], cl_total = 4\<rparr>),
      pk_reference = reference_of sample_sha ?manifest sample_bytes, pk_visibility = ''private'',
      pk_files = cl_files \<lparr>cl_files = [(p, ''hi''), (q, ''hi'')], cl_folded = [map to_lower q, map to_lower p], cl_total = 4\<rparr>\<rparr>"
    by (rule prepare_intro [OF _ _ fit(1) sample_manifest _ _ files _ _ refl bytes fit(2) [unfolded bytes]])
      (use assms(5) main in \<open>auto simp: sample_package_def jidx_jobj exact_jobj check_export_def text_of_def\<close>)
  then show ?thesis using reference by simp
qed

lemma sample_paths: "package_path ''a/x''" "package_path ''b''" "package_path ''A/x''" "package_path ''a/y''"
  by code_simp+

lemma sample_prepared:
  "\<exists>r. prepare sample_vec sample_sha (sample_package [''a/x'', ''b'']) = Inr r \<and> pk_files r = [(''a/x'', ''hi''), (''b'', ''hi'')]
    \<and> pk_bytes r = sample_bytes \<and> pk_visibility r = ''private'' \<and> pk_reference r = sample_reference"
proof (rule sample_prepares [OF sample_paths(1,2)])
  show "no_file_in_file [map to_lower ''b'', map to_lower ''a/x'']" by code_simp
  show "map to_lower ''a/x'' \<noteq> map to_lower ''b''" "''a/x'' < ''b''" by code_simp+
qed

text \<open>Property C26.
  An accepted package has one canonical artifact: the published bytes are a JSON text and a newline, and
  that JSON value is itself accepted as a package, whose bytes, reference, inventory and files are the
  same.  What is fetched and prepared again is what was published.\<close>

theorem package_is_canonical:
  assumes "prepare to_vec sha v = Inr p"
  shows "\<exists>artifact. pk_bytes p = to_vec artifact @ [LF] \<and> prepare to_vec sha artifact = Inr p"
  using assms by (rule prepare_artifact)

lemma package_is_canonical_witness:
  "\<exists>p artifact. prepare sample_vec sample_sha (sample_package [''a/x'', ''b'']) = Inr p
     \<and> pk_bytes p = sample_vec artifact @ [LF] \<and> prepare sample_vec sample_sha artifact = Inr p"
  using sample_prepared package_is_canonical by blast

text \<open>
  The set of the directories made tells the case of letters.  On a file system that does not (the default
  of macOS), a package with the directories \<open>A\<close> and \<open>a\<close> is accepted and published, and cannot be fetched.
\<close>

lemma directories_differ_in_case:
  "\<exists>p. prepare sample_vec sample_sha (sample_package [''A/x'', ''a/y'']) = Inr p
    \<and> materialize sample_vec (map to_lower) p JNull = Inl invalid_package"
proof -
  have "\<exists>r. prepare sample_vec sample_sha (sample_package [''A/x'', ''a/y'']) = Inr r \<and> pk_files r = [(''A/x'', ''hi''), (''a/y'', ''hi'')]
    \<and> pk_bytes r = sample_bytes \<and> pk_visibility r = ''private'' \<and> pk_reference r = sample_reference"
  proof (rule sample_prepares [OF sample_paths(3,4)])
    show "no_file_in_file [map to_lower ''a/y'', map to_lower ''A/x'']" by code_simp
    show "map to_lower ''A/x'' \<noteq> map to_lower ''a/y''" by code_simp
    show "''A/x'' < ''a/y''" by code_simp
  qed
  then obtain p where p: "prepare sample_vec sample_sha (sample_package [''A/x'', ''a/y'']) = Inr p"
      "pk_files p = [(''A/x'', ''hi''), (''a/y'', ''hi'')]"
    by blast
  have lower: "to_lower (CHR ''A'') = CHR ''a''" "to_lower (CHR ''x'') = CHR ''x''" "to_lower (CHR ''a'') = CHR ''a''"
      "to_lower (CHR ''y'') = CHR ''y''"
    by code_simp+
  have parts: "components ''A/x'' = [''A'', ''x'']" "components ''a/y'' = [''a'', ''y'']" by code_simp+
  have "write_file (map to_lower) (Map.empty, []) (''A/x'', ''hi'') = Inr ([[''a''] \<mapsto> Dir, [''a'', ''x''] \<mapsto> File ''hi''], [''A''])"
    by (simp add: write_file_def parts make_parent_def Let_def lower)
  moreover have "write_file (map to_lower) ([[''a''] \<mapsto> Dir, [''a'', ''x''] \<mapsto> File ''hi''], [''A'']) (''a/y'', ''hi'') = Inl invalid_package"
    by (simp add: write_file_def parts make_parent_def Let_def lower)
  ultimately show ?thesis using p by (simp add: materialize_def)
qed

end
