(* ===== verification/Package_Commands.thy ===== *)
theory Package_Commands
  imports Package
begin

text \<open>
  The package commands (\<open>registry.rs\<close>): their arguments (\<open>parse\<close>, \<open>parse_operation\<close>), and what each
  command asks of the registry and accepts from it (\<open>source_package\<close>, \<open>execute\<close>).  The writer of JSON
  strings is an argument of the parser; the registry session, the reader and the writer of JSON, the
  digest and the local files are the fields of \<open>registry\<close>.
\<close>

section \<open>Arguments\<close>

datatype package_command =
    Publish string string string string bool
  | Fetch string string "string option"
  | List_Packages string "string option"
  | Withdraw string
  | Invalid_Package string string

definition options_of :: "string \<Rightarrow> string list" where
  "options_of operation =
     (if operation = ''publish'' then [''--organization'', ''--name'', ''--version'', ''--public'']
      else if operation = ''fetch'' then [''--output-dir'', ''--sha256'']
      else if operation = ''list'' then [''--cursor'']
      else [])"

definition target_of :: "string \<Rightarrow> string \<times> string" where
  "target_of operation =
     (if operation = ''publish'' then (''FILE|DIR'', ''the file or package directory to publish'')
      else if operation = ''fetch'' then (''ORG/NAME@VERSION'', ''the exact package version to download'')
      else if operation = ''list'' then (''ORG'', ''the organization whose public packages to list'')
      else (''ORG/NAME@VERSION'', ''the exact package version to withdraw''))"

definition slug_rule :: string where
  "slug_rule = ''lowercase letters, digits and inner hyphens, at most 63 characters''"

definition joined :: "string list \<Rightarrow> string" where
  "joined names =
     (case names of
        [] \<Rightarrow> []
      | [one] \<Rightarrow> one
      | _ \<Rightarrow> join '', '' (butlast names) @ '' and '' @ last names)"

definition slug_problem :: "(string \<Rightarrow> string) \<Rightarrow> string \<Rightarrow> string \<Rightarrow> string option" where
  "slug_problem quoted label v =
     (if slug v then None else Some (label @ '' '' @ quoted v @ '' is not a valid slug ('' @ slug_rule @ '')''))"

definition version_problem :: "(string \<Rightarrow> string) \<Rightarrow> string \<Rightarrow> string option" where
  "version_problem quoted v =
     (if package_version v then None
      else Some (''VERSION '' @ quoted v @ '' is not an exact semantic version (for example 1.2.0)''))"

fun or_else :: "'a option \<Rightarrow> 'a option \<Rightarrow> 'a option" where
  "or_else None y = y"
| "or_else x _ = x"

definition split_reference :: "string \<Rightarrow> (string \<times> string \<times> string) option" where
  "split_reference v =
     Option.bind (split_once SLASH v) (\<lambda>(organization, rest).
       map_option (\<lambda>(package, version). (organization, package, version)) (split_once (CHR ''@'') rest))"

definition reference_problem :: "(string \<Rightarrow> string) \<Rightarrow> string \<Rightarrow> string option" where
  "reference_problem quoted v =
     (case split_reference v of
        None \<Rightarrow> Some (quoted v @ '' is not ORG/NAME@VERSION (for example acme/tool@1.2.0)'')
      | Some (organization, package, version) \<Rightarrow>
          or_else (or_else (slug_problem quoted ''ORG'' organization) (slug_problem quoted ''NAME'' package))
            (version_problem quoted version))"

definition reference_parts :: "string \<Rightarrow> runner_error + (string \<times> string \<times> string)" where
  "reference_parts v =
     (case split_reference v of
        None \<Rightarrow> Inl invalid_package
      | Some (organization, package, version) \<Rightarrow>
          if \<not> slug organization \<or> \<not> slug package \<or> \<not> package_version version then Inl invalid_package
          else Inr (organization, package, version))"

definition valid_cursor :: "string \<Rightarrow> bool" where
  "valid_cursor v \<longleftrightarrow>
     (if length v > 210 then False
      else case strip_prefix ''public:'' v of
             None \<Rightarrow> False
           | Some rest \<Rightarrow>
               (case split_once (CHR '':'') rest of
                  None \<Rightarrow> False
                | Some (package, version) \<Rightarrow>
                    package \<noteq> [] \<and> list_all (\<lambda>b. ascii_lower b \<or> ascii_digit b \<or> b = CHR ''-'') package
                    \<and> version \<noteq> [] \<and> list_all (\<lambda>b. ascii_alphanumeric b \<or> b \<in> set ''.+-'') version))"

type_synonym option_values = "(string, string) btree"

definition option_name :: "string \<Rightarrow> string \<times> string option" where
  "option_name raw = (case split_once (CHR ''='') raw of Some (name, v) \<Rightarrow> (name, Some v) | None \<Rightarrow> (raw, None))"

function option_loop ::
  "(string \<Rightarrow> string) \<Rightarrow> string \<Rightarrow> string list \<Rightarrow> option_values \<Rightarrow> string + option_values" where
  "option_loop quoted operation [] given = Inr given"
| "option_loop quoted operation (raw # rest) given =
     (if raw = ''--json'' then Inl ''--json must be the last argument''
      else if \<not> starts_with ''--'' raw
      then Inl (''unexpected argument '' @ quoted raw @ ''; package '' @ operation @ '' takes one '' @ fst (target_of operation))
      else
        (let (name, inline) = option_name raw in
         if name \<notin> set (options_of operation)
         then Inl (''package '' @ operation @ '' does not take '' @ name @ ''; ''
                @ (if options_of operation = [] then ''it takes no options''
                   else ''its options are '' @ joined (options_of operation)))
         else if bt_get given name \<noteq> None then Inl (name @ '' was given twice'')
         else if name = ''--public''
         then (if inline \<noteq> None then Inl ''--public takes no value''
               else option_loop quoted operation rest (bt_insert name [] given))
         else
           (case (case inline of Some v \<Rightarrow> Some v | None \<Rightarrow> (case rest of [] \<Rightarrow> None | v # _ \<Rightarrow> Some v)) of
              None \<Rightarrow> Inl (name @ '' needs a value'')
            | Some v \<Rightarrow>
                if v \<noteq> [] \<and> (inline \<noteq> None \<or> \<not> starts_with ''-'' v)
                then option_loop quoted operation (if inline \<noteq> None then rest else drop 1 rest) (bt_insert name v given)
                else Inl (name @ '' needs a value''))))"
  by pat_completeness auto
termination by (relation "measure (\<lambda>(_, _, args, _). length args)") auto

declare option_loop.simps [simp del]

definition required_of :: "string \<Rightarrow> (string \<times> string) list" where
  "required_of operation =
     (if operation = ''publish'' then [(''--organization'', ''ORG''), (''--name'', ''NAME''), (''--version'', ''VERSION'')]
      else if operation = ''fetch'' then [(''--output-dir'', ''FRESH_DIR, a new directory to create'')]
      else [])"

definition taken :: "option_values \<Rightarrow> string \<Rightarrow> string" where
  "taken given name = (case bt_get given name of Some v \<Rightarrow> v | None \<Rightarrow> [])"

definition problem :: "string option \<Rightarrow> string + unit" where
  "problem found = (case found of Some reason \<Rightarrow> Inl reason | None \<Rightarrow> Inr ())"

definition build_command ::
  "(string \<Rightarrow> string) \<Rightarrow> string \<Rightarrow> string \<Rightarrow> option_values \<Rightarrow> string + package_command" where
  "build_command quoted operation target given =
     (if operation = ''publish'' then
        bindE (problem (or_else (or_else (slug_problem quoted ''ORG'' (taken given ''--organization''))
            (slug_problem quoted ''NAME'' (taken given ''--name''))) (version_problem quoted (taken given ''--version''))))
          (\<lambda>_. Inr (Publish target (taken given ''--organization'') (taken given ''--name'') (taken given ''--version'')
             (bt_get given ''--public'' \<noteq> None)))
      else if operation = ''fetch'' then
        bindE (problem (or_else (reference_problem quoted target)
            (case bt_get given ''--sha256'' of
               Some v \<Rightarrow> if digest v then None else Some ''--sha256 must be 64 lowercase hexadecimal digits''
             | None \<Rightarrow> None)))
          (\<lambda>_. Inr (Fetch target (taken given ''--output-dir'') (bt_get given ''--sha256'')))
      else if operation = ''list'' then
        bindE (problem (or_else (slug_problem quoted ''ORG'' target)
            (case bt_get given ''--cursor'' of
               Some v \<Rightarrow>
                 if valid_cursor v then None
                 else Some (''--cursor '' @ quoted v @ '' is not a cursor from package list; pass the nextCursor value the previous page printed'')
             | None \<Rightarrow> None)))
          (\<lambda>_. Inr (List_Packages target (bt_get given ''--cursor'')))
      else bindE (problem (reference_problem quoted target)) (\<lambda>_. Inr (Withdraw target)))"

definition parse_operation :: "(string \<Rightarrow> string) \<Rightarrow> string \<Rightarrow> string list \<Rightarrow> string + package_command" where
  "parse_operation quoted operation rest =
     (let missing = ''package '' @ operation @ '' needs '' @ fst (target_of operation) @ '', '' @ snd (target_of operation) in
      case rest of
        [] \<Rightarrow> Inl missing
      | target # options \<Rightarrow>
          if target = [] \<or> starts_with ''-'' target then Inl missing
          else
            bindE (option_loop quoted operation options []) (\<lambda>given.
              case find (\<lambda>(name, _). bt_get given name = None) (required_of operation) of
                Some (name, what) \<Rightarrow> Inl (''package '' @ operation @ '' needs '' @ name @ '' '' @ what)
              | None \<Rightarrow> build_command quoted operation target given))"

definition package_help_error :: "(string \<Rightarrow> string) \<Rightarrow> string \<Rightarrow> runner_error" where
  "package_help_error localize reason =
     (invocation_error reason)\<lparr>re_action := localize ''Run `prose cli package --help` to see the package commands.''\<rparr>"

definition parse_package ::
  "(string \<Rightarrow> string) \<Rightarrow> (string \<Rightarrow> string) \<Rightarrow> string list \<Rightarrow> runner_error + (package_command \<times> bool)" where
  "parse_package localize quoted args =
     (let (args, as_json) = (if args \<noteq> [] \<and> last args = ''--json'' then (butlast args, True) else (args, False)) in
      case args of
        [] \<Rightarrow> Inl (package_help_error localize ''cli package needs a command: publish, fetch, list or withdraw'')
      | operation # rest \<Rightarrow>
          if operation = [] then Inl (package_help_error localize ''cli package needs a command: publish, fetch, list or withdraw'')
          else if operation \<notin> set [''publish'', ''fetch'', ''list'', ''withdraw'']
          then Inl (package_help_error localize
            (''unknown package command '' @ quoted operation @ ''; the commands are publish, fetch, list and withdraw''))
          else Inr (case parse_operation quoted operation rest of
                      Inr command \<Rightarrow> command
                    | Inl reason \<Rightarrow> Invalid_Package operation reason, as_json))"

definition encode_query :: "string \<Rightarrow> string" where
  "encode_query v =
     concat (map (\<lambda>b. if ascii_alphanumeric b \<or> b \<in> set ''-._~'' then [b]
        else CHR ''%'' # [char_of (hex_upper (code b div 16)), char_of (hex_upper (code b mod 16))]) v)"

section \<open>The registry\<close>

datatype source_kind = Source_Directory | Source_File "string option" | Source_Other

text \<open>
  What the commands use: the kind of a local source and the bounded reading of a file (of the source itself,
  or of a path below it), the reader that refuses repeated keys, the check that a destination is fresh, the
  credential of the session and its requests (method, path, token, body, accepted statuses), the reader and
  the writer of JSON, the digest, the cancellation, and the folding of names of the file system.
\<close>

record registry =
  rg_source :: "string \<Rightarrow> runner_error + source_kind"
  rg_file :: "string \<Rightarrow> string option \<Rightarrow> nat \<Rightarrow> runner_error + string"
  rg_unique :: "string \<Rightarrow> json option"
  rg_destination :: "string \<Rightarrow> runner_error + unit"
  rg_credential :: "bool \<Rightarrow> runner_error + string option"
  rg_request :: "string \<Rightarrow> string \<Rightarrow> string option \<Rightarrow> string option \<Rightarrow> nat list \<Rightarrow> runner_error + string"
  rg_read :: "string \<Rightarrow> json option"
  rg_write :: "json \<Rightarrow> string"
  rg_sha :: "string \<Rightarrow> string"
  rg_cancelled :: bool
  rg_fold :: "string \<Rightarrow> string"
  rg_teach :: "runner_error \<Rightarrow> string list \<Rightarrow> runner_error"

definition registry_protocol :: runner_error where
  "registry_protocol = catalog ServiceProtocolInvalid"

definition as_protocol :: "runner_error + 'a \<Rightarrow> runner_error + 'a" where
  "as_protocol m = (case m of Inl _ \<Rightarrow> Inl registry_protocol | Inr x \<Rightarrow> Inr x)"

definition largest_safe_integer :: nat where "largest_safe_integer = 9007199254740991"

definition safe_number :: "json \<Rightarrow> bool" where
  "safe_number v \<longleftrightarrow>
     (case as_i64 v of
        Some i \<Rightarrow> nat \<bar>i\<bar> \<le> largest_safe_integer
      | None \<Rightarrow>
          (case as_u64 v of
             Some n \<Rightarrow> n \<le> largest_safe_integer
           | None \<Rightarrow>
               (case as_f64 v of
                  Some r \<Rightarrow> \<not> is_integral r \<or> \<bar>r\<bar> \<le> of_nat largest_safe_integer
                | None \<Rightarrow> False)))"

fun safe_json :: "json \<Rightarrow> bool" where
  "safe_json (JNum n) \<longleftrightarrow> safe_number (JNum n)"
| "safe_json (JArr vs) \<longleftrightarrow> list_all safe_json vs"
| "safe_json (JObj m) \<longleftrightarrow> list_all (\<lambda>(_, v). safe_json v) m"
| "safe_json _ \<longleftrightarrow> True"

definition parse_body :: "(string \<Rightarrow> json option) \<Rightarrow> string \<Rightarrow> json option" where
  "parse_body from_slice bytes =
     (case from_slice bytes of None \<Rightarrow> None | Some v \<Rightarrow> if safe_json v then Some v else None)"

section \<open>Local sources\<close>

definition source_entry :: "string \<Rightarrow> string \<Rightarrow> json" where
  "source_entry path bytes =
     jobj [(''path'', JStr path), (''encoding'', JStr ''base64''), (''content'', JStr (package_base64 bytes))]"

definition read_entry :: "registry \<Rightarrow> string \<Rightarrow> nat \<times> json list \<Rightarrow> json \<Rightarrow> runner_error + (nat \<times> json list)" where
  "read_entry rg source state v =
     bindE (text_of v) (\<lambda>path.
       if \<not> package_path path then Inl invalid_package
       else bindE (rg_file rg source (Some path) file_limit) (\<lambda>bytes.
         if fst state + length bytes > total_limit then Inl invalid_package
         else Inr (fst state + length bytes, snd state @ [source_entry path bytes])))"

definition source_files ::
  "registry \<Rightarrow> string \<Rightarrow> source_kind \<Rightarrow> runner_error + (json \<times> json \<times> json list)" where
  "source_files rg source kind =
     (case kind of
        Source_Directory \<Rightarrow>
          bindE (rg_file rg source (Some ''prose-package.json'') package_limit) (\<lambda>bytes.
          bindE (ok_or invalid_package (rg_unique rg bytes)) (\<lambda>manifest.
          bindE (exact_fields manifest [''schema'', ''files'', ''exports'', ''dependencies'']) (\<lambda>_.
          if jidx manifest ''schema'' \<noteq> JStr ''prose-package-directory-v1'' then Inl invalid_package else
          bindE (ok_or invalid_package (as_array (jidx manifest ''files''))) (\<lambda>paths.
          if paths = [] \<or> length paths > 128 then Inl invalid_package else
          bindE (foldE (read_entry rg source) (0, []) paths) (\<lambda>(_, files).
            Inr (jidx manifest ''exports'', jidx manifest ''dependencies'', files))))))
      | Source_File name \<Rightarrow>
          bindE (ok_or invalid_package name) (\<lambda>name.
          if \<not> package_path name then Inl invalid_package else
          bindE (rg_file rg source None file_limit) (\<lambda>bytes.
            Inr (jobj [(''default'', JStr name)], jobj [], [source_entry name bytes])))
      | Source_Other \<Rightarrow> Inl invalid_package)"

definition source_package ::
  "registry \<Rightarrow> string \<Rightarrow> string \<Rightarrow> string \<Rightarrow> string \<Rightarrow> bool \<Rightarrow> runner_error + prepared" where
  "source_package rg source organization name version public =
     bindE (rg_source rg source) (\<lambda>kind.
     bindE (source_files rg source kind) (\<lambda>(exports, dependencies, files).
       prepare (rg_write rg) (rg_sha rg)
         (jobj [(''schema'', JStr ''prose-package-v1''),
           (''manifest'', jobj [(''organization'', JStr organization), (''package'', JStr name), (''version'', JStr version),
              (''visibility'', JStr (if public then ''public'' else ''private'')), (''exports'', exports),
              (''dependencies'', dependencies)]),
           (''files'', JArr files)])))"

section \<open>Exchanges\<close>

definition reference_matches :: "json \<Rightarrow> string \<Rightarrow> string \<Rightarrow> string \<Rightarrow> bool" where
  "reference_matches receipt organization package version \<longleftrightarrow>
     jidx (jidx receipt ''reference'') ''organization'' = JStr organization
     \<and> jidx (jidx receipt ''reference'') ''package'' = JStr package
     \<and> jidx (jidx receipt ''reference'') ''version'' = JStr version"

definition ask ::
  "registry \<Rightarrow> string \<Rightarrow> string \<Rightarrow> string option \<Rightarrow> string option \<Rightarrow> nat list \<Rightarrow> runner_error + (string \<times> json)" where
  "ask rg method path token body statuses =
     bindE (rg_request rg method path token body statuses) (\<lambda>bytes.
     bindE (ok_or registry_protocol (parse_body (rg_read rg) bytes)) (\<lambda>v. Inr (bytes, v)))"

definition package_route :: "string \<Rightarrow> string \<Rightarrow> string" where
  "package_route organization package =
     ''/registry/v1/organizations/'' @ organization @ ''/packages/'' @ package @ ''/versions''"

definition publish_exchange ::
  "registry \<Rightarrow> string option \<Rightarrow> string \<Rightarrow> string \<Rightarrow> prepared \<Rightarrow> runner_error + json" where
  "publish_exchange rg token organization name p =
     bindE (ask rg ''POST'' (package_route organization name) token (Some (pk_bytes p)) [200, 201]) (\<lambda>(_, v).
     bindE (as_protocol (check_receipt v)) (\<lambda>_.
       if \<not> agrees_with v p then Inl registry_protocol else Inr v))"

definition leaks :: "registry \<Rightarrow> string option \<Rightarrow> json \<Rightarrow> bool" where
  "leaks rg token v \<longleftrightarrow> (case token of None \<Rightarrow> False | Some t \<Rightarrow> contains_str t (rg_write rg v))"

definition fetch_exchange ::
  "registry \<Rightarrow> string option \<Rightarrow> string \<Rightarrow> string option \<Rightarrow> runner_error + (json \<times> tree)" where
  "fetch_exchange rg token reference sha256 =
     bindE (reference_parts reference) (\<lambda>(organization, package, version).
       let path = package_route organization package @ ''/'' @ version in
     bindE (ask rg ''GET'' path token None [200]) (\<lambda>(_, v).
     bindE (as_protocol (check_receipt v)) (\<lambda>_.
     if \<not> reference_matches v organization package version
        \<or> (case sha256 of None \<Rightarrow> False | Some hash \<Rightarrow> jidx (jidx v ''reference'') ''sha256'' \<noteq> JStr hash)
     then Inl registry_protocol else
     bindE (rg_request rg ''GET'' (path @ ''/artifact'') token None [200]) (\<lambda>bytes.
     if jidx (jidx v ''reference'') ''sha256'' \<noteq> JStr (rg_sha rg bytes) then Inl registry_protocol else
     bindE (ok_or registry_protocol (parse_body (rg_read rg) bytes)) (\<lambda>artifact.
     bindE (as_protocol (prepare (rg_write rg) (rg_sha rg) artifact)) (\<lambda>p.
     if pk_bytes p \<noteq> bytes \<or> \<not> agrees_with v p then Inl registry_protocol
     else if leaks rg token v then Inl registry_protocol
     else if rg_cancelled rg then Inl (catalog Cancelled)
     else mapE (Pair v) (materialize (rg_write rg) (rg_fold rg) p v)))))))"

definition check_listed :: "string \<Rightarrow> unit \<Rightarrow> json \<Rightarrow> runner_error + unit" where
  "check_listed organization _ item =
     bindE (as_protocol (check_receipt item)) (\<lambda>_.
       require (jidx item ''visibility'' = JStr ''public''
         \<and> jidx (jidx item ''reference'') ''organization'' = JStr organization) registry_protocol)"

definition list_exchange :: "registry \<Rightarrow> string option \<Rightarrow> string \<Rightarrow> string option \<Rightarrow> runner_error + json" where
  "list_exchange rg token organization cursor =
     bindE (ask rg ''GET'' (''/registry/v1/organizations/'' @ organization @ ''/packages''
         @ (case cursor of None \<Rightarrow> [] | Some v \<Rightarrow> ''?cursor='' @ encode_query v)) token None [200]) (\<lambda>(_, v).
     bindE (as_protocol (exact_fields v [''packages'', ''nextCursor''])) (\<lambda>_.
     bindE (ok_or registry_protocol (as_array (jidx v ''packages''))) (\<lambda>packages.
     if length packages > 25 then Inl registry_protocol else
     bindE (foldE (check_listed organization) () packages) (\<lambda>_.
     if jidx v ''nextCursor'' \<noteq> JNull
        \<and> \<not> (case as_str (jidx v ''nextCursor'') of Some next_cursor \<Rightarrow> valid_cursor next_cursor | None \<Rightarrow> False)
     then Inl registry_protocol else Inr v))))"

definition withdraw_exchange :: "registry \<Rightarrow> string option \<Rightarrow> string \<Rightarrow> runner_error + json" where
  "withdraw_exchange rg token reference =
     bindE (reference_parts reference) (\<lambda>(organization, package, version).
     bindE (ask rg ''POST'' (package_route organization package @ ''/'' @ version @ ''/withdraw'') token (Some ''{}'') [200]) (\<lambda>(_, v).
     bindE (as_protocol (exact_fields v [''receipt'', ''withdrawn''])) (\<lambda>_.
     bindE (as_protocol (check_receipt (jidx v ''receipt''))) (\<lambda>_.
     if jidx v ''withdrawn'' \<noteq> JBool True \<or> \<not> reference_matches (jidx v ''receipt'') organization package version
     then Inl registry_protocol else Inr v))))"

text \<open>
  The command: local checks first, then the credential, then the exchange.  A fetched tree is the last effect
  of its exchange, after which the output is checked once more.
\<close>

definition credential_required :: "package_command \<Rightarrow> bool" where
  "credential_required command =
     (case command of Publish _ _ _ _ _ \<Rightarrow> True | Withdraw _ \<Rightarrow> True | _ \<Rightarrow> False)"

definition prepare_source :: "registry \<Rightarrow> package_command \<Rightarrow> runner_error + prepared option" where
  "prepare_source rg command =
     (case command of
        Publish source organization name version public \<Rightarrow>
          mapE Some (source_package rg source organization name version public)
      | _ \<Rightarrow> Inr None)"

definition prepare_destination :: "registry \<Rightarrow> package_command \<Rightarrow> runner_error + unit" where
  "prepare_destination rg command =
     (case command of Fetch _ destination _ \<Rightarrow> rg_destination rg destination | _ \<Rightarrow> Inr ())"

definition exchange ::
  "registry \<Rightarrow> string option \<Rightarrow> prepared option \<Rightarrow> package_command \<Rightarrow> runner_error + (json \<times> tree option)" where
  "exchange rg token prepared command =
     (case command of
        Publish _ organization name _ _ \<Rightarrow>
          bindE (ok_or invalid_package prepared) (\<lambda>p. mapE (\<lambda>v. (v, None)) (publish_exchange rg token organization name p))
      | Fetch reference _ sha256 \<Rightarrow> mapE (\<lambda>(v, tree). (v, Some tree)) (fetch_exchange rg token reference sha256)
      | List_Packages organization cursor \<Rightarrow> mapE (\<lambda>v. (v, None)) (list_exchange rg token organization cursor)
      | Withdraw reference \<Rightarrow> mapE (\<lambda>v. (v, None)) (withdraw_exchange rg token reference)
      | Invalid_Package _ _ \<Rightarrow> Inl invalid_package)"

definition execute_package :: "registry \<Rightarrow> package_command \<Rightarrow> runner_error + (json \<times> tree option)" where
  "execute_package rg command =
     (case command of
        Invalid_Package operation reason \<Rightarrow>
          Inl (rg_teach rg (invocation_error reason) [''package'', operation, ''--help''])
      | _ \<Rightarrow>
          bindE (prepare_source rg command) (\<lambda>prepared.
          bindE (prepare_destination rg command) (\<lambda>_.
          bindE (rg_credential rg (credential_required command)) (\<lambda>token.
          bindE (exchange rg token prepared command) (\<lambda>(v, tree).
            if leaks rg token v then Inl registry_protocol else Inr (v, tree))))))"

section \<open>Answers\<close>

definition format_reference :: "json \<Rightarrow> string" where
  "format_reference receipt =
     (let part = (\<lambda>k. case as_str (jidx (jidx receipt ''reference'') k) of Some s \<Rightarrow> s | None \<Rightarrow> [])
      in part ''organization'' @ ''/'' @ part ''package'' @ ''@'' @ part ''version'')"

definition package_output :: "package_command \<Rightarrow> string \<Rightarrow> json \<Rightarrow> string" where
  "package_output command operation v =
     (if operation = ''list'' then
        (let packages = (case as_array (jidx v ''packages'') of Some vs \<Rightarrow> vs | None \<Rightarrow> []) in
         (if packages = [] then (case command of List_Packages organization _ \<Rightarrow>
              ''No public packages in '' @ organization @ ''.'' @ [LF] | _ \<Rightarrow> []) else [])
         @ concat (map (\<lambda>receipt. format_reference receipt @ [LF]) packages)
         @ (case as_str (jidx v ''nextCursor'') of Some cursor \<Rightarrow> ''Next cursor: '' @ cursor @ [LF] | None \<Rightarrow> []))
      else ''OpenProse package '' @ operation @ '': ''
        @ format_reference (if operation = ''withdraw'' then jidx v ''receipt'' else v) @ [LF])"

definition package_missing :: "package_command \<Rightarrow> string \<times> string \<times> string \<times> string list" where
  "package_missing command =
     (let of_reference = (\<lambda>reference. (''package'', reference,
            ''package '' @ reference @ '' was not found; the version does not exist, or this key cannot read it'',
            [''package'', ''list'', hd (split_on (\<lambda>c. c = SLASH) reference)]));
          of_organization = (\<lambda>organization. (''organization'', organization,
            ''organization '' @ organization @ '' was not found'', [''org'', ''list'']))
      in case command of
           Fetch reference _ _ \<Rightarrow> of_reference reference
         | Withdraw reference \<Rightarrow> of_reference reference
         | List_Packages organization _ \<Rightarrow> of_organization organization
         | Publish _ organization _ _ _ \<Rightarrow> of_organization organization
         | Invalid_Package _ _ \<Rightarrow> (''package'', [], [], [''package'', ''--help'']))"

section \<open>What a fetch guarantees\<close>

lemma as_protocol_eq_Inr: "as_protocol m = Inr x \<longleftrightarrow> m = Inr x"
  by (cases m) (auto simp: as_protocol_def)

lemma prepare_sha:
  assumes "prepare to_vec sha v = Inr p"
  shows "pk_inventory p = inventory_of sha (pk_files p)"
  using assms by (rule prepare_steps) (simp add: Let_def)

definition file_digests :: "json \<Rightarrow> (json \<times> json) list" where
  "file_digests v = (case as_array (jidx v ''inventory'') of
     None \<Rightarrow> [] | Some items \<Rightarrow> map (\<lambda>item. (jidx item ''path'', jidx item ''sha256'')) items)"

lemma agreed_digests:
  assumes "agrees_with v p" and "pk_inventory p = inventory_of sha files"
  shows "file_digests v = map (\<lambda>(path, bytes). (JStr path, JStr (sha bytes))) files"
proof -
  let ?entry = "\<lambda>(path, bytes). jobj [(''path'', JStr path), (''size'', JNum (PosInt (length bytes))), (''sha256'', JStr (sha bytes))]"
  obtain items where items: "jidx v ''inventory'' = JArr items" "length items = length files"
    and same: "list_all (\<lambda>(left, right). jidx left ''path'' = jidx right ''path'' \<and> jidx left ''sha256'' = jidx right ''sha256''
        \<and> receipt_size (jidx left ''size'') = receipt_size (jidx right ''size'')) (zip items (map ?entry files))"
    using assms(1) unfolding agrees_with_def assms(2) inventory_of_def Let_def by (auto split: option.split_asm)
  have "map (\<lambda>item. (jidx item ''path'', jidx item ''sha256'')) items
      = map (\<lambda>entry. (jidx entry ''path'', jidx entry ''sha256'')) (map ?entry files)"
    using items(2) same by (intro nth_equalityI) (auto simp: list_all_length)
  also have "\<dots> = map (\<lambda>(path, bytes). (JStr path, JStr (sha bytes))) files"
    by (auto simp: jidx_jobj)
  finally show ?thesis by (simp add: file_digests_def items(1))
qed

lemma reference_parts_text:
  "reference_parts reference = Inr (organization, package, version) \<Longrightarrow> reference = organization @ ''/'' @ package @ ''@'' @ version"
  unfolding reference_parts_def split_reference_def
  by (auto simp: split_once_Some SLASH_def bind_eq_Some_conv split: option.split_asm if_splits)

lemma matching_reference:
  "reference_matches v organization package version \<Longrightarrow> format_reference v = organization @ ''/'' @ package @ ''@'' @ version"
  unfolding reference_matches_def format_reference_def Let_def by simp

lemma fetch_exchange_steps:
  assumes "fetch_exchange rg token reference sha256 = Inr (v, tree)"
  obtains organization package version receipt bytes artifact p where
    "reference_parts reference = Inr (organization, package, version)"
    "rg_request rg ''GET'' (package_route organization package @ ''/'' @ version) token None [200] = Inr receipt"
    "parse_body (rg_read rg) receipt = Some v" "check_receipt v = Inr ()"
    "reference_matches v organization package version"
    "sha256 = None \<or> sha256 = Some (rg_sha rg bytes)"
    "rg_request rg ''GET'' (package_route organization package @ ''/'' @ version @ ''/artifact'') token None [200] = Inr bytes"
    "jidx (jidx v ''reference'') ''sha256'' = JStr (rg_sha rg bytes)"
    "parse_body (rg_read rg) bytes = Some artifact"
    "prepare (rg_write rg) (rg_sha rg) artifact = Inr p" "pk_bytes p = bytes" "agrees_with v p" "\<not> leaks rg token v"
    "materialize (rg_write rg) (rg_fold rg) p v = Inr tree"
  using assms unfolding fetch_exchange_def ask_def Let_def
  by (clarsimp simp: bindE_eq_Inr mapE_eq_Inr as_protocol_eq_Inr ok_or_eq_Inr split: if_split_asm prod.split_asm option.split_asm)

lemma execute_fetch:
  assumes "execute_package rg (Fetch reference destination sha256) = Inr (v, tree)"
  obtains token files where "rg_destination rg destination = Inr ()" "rg_credential rg False = Inr token"
    "fetch_exchange rg token reference sha256 = Inr (v, files)" "tree = Some files"
  using assms unfolding execute_package_def exchange_def
  by (auto simp: bindE_eq_Inr mapE_eq_Inr credential_required_def prepare_destination_def prepare_source_def split: if_splits)

text \<open>Property C27.
  A fetch that succeeds has verified what it writes.  It asked the registry, with the token the session's
  credential gives (if it gives one) and no other, for the receipt and for the artifact of exactly the
  package that was named.  The receipt is for that package, and its digest, which is the one given on the
  command line if there was one, is the digest of the bytes downloaded.  The tree holds exactly the files
  of the package these bytes are, and the receipt, each at the place its name has on the file system
  (\<open>rg_fold\<close>: unchanged, or folded where the case of letters is not told apart); the digests of the
  inventory are the digests of those files, in order.  The receipt, which is what is reported and
  written, does not contain the token of the session.\<close>

theorem fetch_is_verified:
  assumes "execute_package rg (Fetch reference destination sha256) = Inr (v, tree)"
  shows "\<exists>organization package version token receipt bytes artifact p files.
      reference_parts reference = Inr (organization, package, version)
    \<and> rg_credential rg False = Inr token
    \<and> rg_request rg ''GET'' (package_route organization package @ ''/'' @ version) token None [200] = Inr receipt
    \<and> parse_body (rg_read rg) receipt = Some v
    \<and> rg_request rg ''GET'' (package_route organization package @ ''/'' @ version @ ''/artifact'') token None [200] = Inr bytes
    \<and> parse_body (rg_read rg) bytes = Some artifact
    \<and> prepare (rg_write rg) (rg_sha rg) artifact = Inr p \<and> pk_bytes p = bytes
    \<and> jidx (jidx v ''reference'') ''sha256'' = JStr (rg_sha rg bytes)
    \<and> sha256 \<in> {None, Some (rg_sha rg bytes)} \<and> format_reference v = reference
    \<and> tree = Some files
    \<and> {(place, content). files place = Some (File content)}
      = (\<lambda>(path, content). (map (rg_fold rg) (components path), content)) ` set ((receipt_name, rg_write rg v) # pk_files p)
    \<and> file_digests v = map (\<lambda>(path, content). (JStr path, JStr (rg_sha rg content))) (pk_files p)
    \<and> \<not> leaks rg token v"
proof -
  obtain token files where credential: "rg_credential rg False = Inr token"
      and run: "fetch_exchange rg token reference sha256 = Inr (v, files)" and tree: "tree = Some files"
    using assms by (rule execute_fetch)
  show ?thesis using run
  proof (rule fetch_exchange_steps)
    fix organization package version receipt bytes artifact p
    assume parts: "reference_parts reference = Inr (organization, package, version)"
      and receipt: "rg_request rg ''GET'' (package_route organization package @ ''/'' @ version) token None [200] = Inr receipt"
        "parse_body (rg_read rg) receipt = Some v"
      and matches: "reference_matches v organization package version"
      and sha: "sha256 = None \<or> sha256 = Some (rg_sha rg bytes)"
      and request: "rg_request rg ''GET'' (package_route organization package @ ''/'' @ version @ ''/artifact'') token None [200] = Inr bytes"
      and digest: "jidx (jidx v ''reference'') ''sha256'' = JStr (rg_sha rg bytes)"
      and read: "parse_body (rg_read rg) bytes = Some artifact"
      and prepared: "prepare (rg_write rg) (rg_sha rg) artifact = Inr p" "pk_bytes p = bytes" "agrees_with v p"
      and token: "\<not> leaks rg token v" and written: "materialize (rg_write rg) (rg_fold rg) p v = Inr files"
    have "format_reference v = reference"
      using matching_reference [OF matches] reference_parts_text [OF parts] by simp
    moreover have "sha256 \<in> {None, Some (rg_sha rg bytes)}" using sha by auto
    moreover note parts credential receipt request read prepared(1,2) digest tree token materialize_held [OF written]
      agreed_digests [OF prepared(3) prepare_sha [OF prepared(1)]]
    ultimately show ?thesis
      by (intro exI [of _ organization] exI [of _ package] exI [of _ version] exI [of _ token] exI [of _ receipt]
          exI [of _ bytes] exI [of _ artifact] exI [of _ p] exI [of _ files]) (intro conjI; assumption)
  qed
qed

definition sample_receipt :: json where
  "sample_receipt =
     jobj [(''schema'', JStr ''prose-publication-v1''), (''organizationId'', JStr ''00000000-0000-0000-0000-000000000000''),
       (''reference'', sample_reference), (''visibility'', JStr ''private''),
       (''inventory'', inventory_of sample_sha [(''a/x'', ''hi''), (''b'', ''hi'')])]"

definition sample_registry :: registry where
  "sample_registry =
     \<lparr>rg_source = (\<lambda>_. Inl invalid_package), rg_file = (\<lambda>_ _ _. Inl invalid_package), rg_unique = (\<lambda>_. None),
      rg_destination = (\<lambda>_. Inr ()), rg_credential = (\<lambda>_. Inr (Some ''KEY'')),
      rg_request = (\<lambda>_ path token _ _. if token \<noteq> Some ''KEY'' then Inl registry_protocol
        else Inr (if ends_with ''/artifact'' path then sample_bytes else ''receipt'')),
      rg_read = (\<lambda>bytes. Some (if bytes = ''receipt'' then sample_receipt else sample_package [''a/x'', ''b''])),
      rg_write = sample_vec, rg_sha = sample_sha, rg_cancelled = False, rg_fold = (\<lambda>n. n), rg_teach = (\<lambda>e _. e)\<rparr>"

lemma sample_receipt_fields:
  "jidx sample_receipt ''reference'' = sample_reference" "jidx sample_receipt ''visibility'' = JStr ''private''"
  "jidx sample_receipt ''inventory'' = inventory_of sample_sha [(''a/x'', ''hi''), (''b'', ''hi'')]"
  "jidx sample_receipt ''schema'' = JStr ''prose-publication-v1''"
  "jidx sample_receipt ''organizationId'' = JStr ''00000000-0000-0000-0000-000000000000''"
  unfolding sample_receipt_def by (simp_all add: jidx_jobj)

lemma size_two: "receipt_size (JNum (PosInt 2)) = Some 2"
proof -
  have "f64_of_nat 2 = 2" by (simp add: f64_of_nat_def)
  then show ?thesis by (simp add: receipt_size_def file_limit_def is_integral_def)
qed

lemma sample_receipt_checked: "check_receipt sample_receipt = Inr ()"
proof -
  have fields: "exact_fields sample_receipt [''schema'', ''organizationId'', ''reference'', ''visibility'', ''inventory''] = Inr ()"
    unfolding sample_receipt_def by (rule exact_jobj) simp
  have uuid: "uuid_text ''00000000-0000-0000-0000-000000000000''" by code_simp
  have reference: "validate_reference sample_reference = Inr ()" by code_simp
  have digest: "digest (replicate 64 (CHR ''0''))" by code_simp
  have one: "list_file ls (jobj [(''path'', JStr path), (''size'', JNum (PosInt 2)), (''sha256'', JStr (replicate 64 (CHR ''0'')))])
      = Inr \<lparr>ls_previous = path, ls_folded = map to_lower path # ls_folded ls, ls_total = ls_total ls + 2\<rparr>"
    if "package_path path" "ls_previous ls < path" "map to_lower path \<notin> set (ls_folded ls)" "ls_total ls \<le> 10" for ls path
  proof -
    have "exact_fields (jobj [(''path'', JStr path), (''size'', JNum (PosInt 2)), (''sha256'', JStr (replicate 64 (CHR ''0'')))])
        [''path'', ''size'', ''sha256''] = Inr ()"
      by (rule exact_jobj) simp
    then show ?thesis using that digest
      by (simp add: list_file_def jidx_jobj text_of_def size_two checked_add_def file_limit_def total_limit_def)
  qed
  have facts: "map to_lower ''b'' \<noteq> map to_lower ''a/x''" "[] < ''a/x''" "''a/x'' < ''b''"
      "no_file_in_file [map to_lower ''b'', map to_lower ''a/x'']"
    by code_simp+
  have listed: "foldE list_file \<lparr>ls_previous = [], ls_folded = [], ls_total = 0\<rparr>
      [jobj [(''path'', JStr ''a/x''), (''size'', JNum (PosInt 2)), (''sha256'', JStr (replicate 64 (CHR ''0'')))],
       jobj [(''path'', JStr ''b''), (''size'', JNum (PosInt 2)), (''sha256'', JStr (replicate 64 (CHR ''0'')))]]
      = Inr \<lparr>ls_previous = ''b'', ls_folded = [map to_lower ''b'', map to_lower ''a/x''], ls_total = 4\<rparr>"
    using one sample_paths(1,2) facts by simp
  have items: "inventory_of sample_sha [(''a/x'', ''hi''), (''b'', ''hi'')] = JArr
      [jobj [(''path'', JStr ''a/x''), (''size'', JNum (PosInt 2)), (''sha256'', JStr (replicate 64 (CHR ''0'')))],
       jobj [(''path'', JStr ''b''), (''size'', JNum (PosInt 2)), (''sha256'', JStr (replicate 64 (CHR ''0'')))]]"
    by (simp add: inventory_of_def sample_sha_def numeral_2_eq_2)
  show ?thesis unfolding check_receipt_def sample_receipt_fields items fields bindE_simps text_of_def as_str.simps
      ok_or_simps reference as_array.simps listed listed.select_convs
    using uuid facts(4) by simp
qed

lemma sample_safe: "safe_json sample_receipt" "safe_json (sample_package [''a/x'', ''b''])"
  unfolding sample_receipt_def sample_package_def inventory_of_def sample_reference_def
  by (simp_all add: jobj_def safe_number_def largest_safe_integer_def)

lemma sample_token: "\<not> leaks sample_registry (Some ''KEY'') sample_receipt"
proof -
  have "sample_vec sample_receipt = ''inventoryorganizationIdreferenceschemavisibility''"
    unfolding sample_receipt_def sample_vec_def by (simp add: jobj_def)
  then show ?thesis by (simp add: leaks_def sample_registry_def) code_simp
qed

lemma fetch_is_verified_witness:
  "\<exists>v tree files. execute_package sample_registry (Fetch ''acme/notes@1.0.0'' ''out'' None) = Inr (v, tree)
    \<and> tree = Some files \<and> {(place, content). files place = Some (File content)}
      = {([''a'', ''x''], ''hi''), ([''b''], ''hi''), ([receipt_name], sample_vec v)}
    \<and> \<not> contains_str ''KEY'' (sample_vec v)"
proof -
  obtain p where p: "prepare sample_vec sample_sha (sample_package [''a/x'', ''b'']) = Inr p"
      "pk_files p = [(''a/x'', ''hi''), (''b'', ''hi'')]" "pk_bytes p = sample_bytes" "pk_visibility p = ''private''"
      "pk_reference p = sample_reference"
    using sample_prepared by blast
  have parts: "reference_parts ''acme/notes@1.0.0'' = Inr (''acme'', ''notes'', ''1.0.0'')" by code_simp
  have paths: "\<not> ends_with ''/artifact'' (package_route ''acme'' ''notes'' @ ''/'' @ ''1.0.0'')"
      "ends_with ''/artifact'' (package_route ''acme'' ''notes'' @ ''/'' @ ''1.0.0'' @ ''/artifact'')"
    by code_simp+
  have bytes: "sample_bytes \<noteq> ''receipt''" by code_simp
  have agrees: "agrees_with sample_receipt p"
    unfolding agrees_with_def sample_receipt_fields p prepare_sha [OF p(1)] by (simp add: inventory_of_def)
  have matches: "reference_matches sample_receipt ''acme'' ''notes'' ''1.0.0''"
      "jidx (jidx sample_receipt ''reference'') ''sha256'' = JStr (sample_sha sample_bytes)"
    unfolding reference_matches_def sample_receipt_fields sample_reference_def sample_sha_def by (simp_all add: jidx_jobj)
  obtain files where "materialize sample_vec (\<lambda>n. n) p sample_receipt = Inr files"
    using prepared_tree [OF p(1)] by blast
  then have "fetch_exchange sample_registry (Some ''KEY'') ''acme/notes@1.0.0'' None = Inr (sample_receipt, files)"
    using paths bytes agrees matches sample_receipt_checked sample_safe p sample_token
    by (simp add: fetch_exchange_def parts ask_def parse_body_def sample_registry_def as_protocol_def)
  then have run: "execute_package sample_registry (Fetch ''acme/notes@1.0.0'' ''out'' None) = Inr (sample_receipt, Some files)"
    using sample_token
    by (simp add: execute_package_def prepare_source_def prepare_destination_def exchange_def sample_registry_def)
  obtain organization package version token receipt bytes artifact q tree where got:
    "reference_parts ''acme/notes@1.0.0'' = Inr (organization, package, version)"
    "rg_credential sample_registry False = Inr token"
    "rg_request sample_registry ''GET'' (package_route organization package @ ''/'' @ version @ ''/artifact'') token None [200] = Inr bytes"
    "parse_body (rg_read sample_registry) bytes = Some artifact"
    "prepare (rg_write sample_registry) (rg_sha sample_registry) artifact = Inr q"
    "Some files = Some tree"
    "{(place, content). tree place = Some (File content)}
      = (\<lambda>(path, content). (map (rg_fold sample_registry) (components path), content))
          ` set ((receipt_name, rg_write sample_registry sample_receipt) # pk_files q)"
    "\<not> leaks sample_registry token sample_receipt"
    using fetch_is_verified [OF run] by - (elim exE conjE, rule that, assumption+)
  have token: "token = Some ''KEY''" using got(2) by (simp add: sample_registry_def)
  then have "bytes = sample_bytes" using got(1,3) paths(2) by (simp add: parts sample_registry_def)
  then have "artifact = sample_package [''a/x'', ''b'']" using got(4) bytes sample_safe(2) by (simp add: parse_body_def sample_registry_def)
  then have "pk_files q = [(''a/x'', ''hi''), (''b'', ''hi'')]" using got(5) p(1,2) by (simp add: sample_registry_def)
  moreover have "components ''a/x'' = [''a'', ''x'']" "components ''b'' = [''b'']" "components receipt_name = [receipt_name]" by code_simp+
  ultimately have "{(place, content). tree place = Some (File content)}
      = {([''a'', ''x''], ''hi''), ([''b''], ''hi''), ([receipt_name], sample_vec sample_receipt)}"
    unfolding got(7) by (simp add: sample_registry_def insert_commute)
  moreover have "\<not> contains_str ''KEY'' (sample_vec sample_receipt)"
    using got(8) token by (simp add: leaks_def sample_registry_def)
  ultimately show ?thesis using run got(6)
    by (intro exI [of _ sample_receipt] exI [of _ "Some files"] exI [of _ files]) simp
qed

end
