(* ===== verification/Transport_Streams.thy ===== *)
theory Transport_Streams
  imports Native_Tools
begin

text \<open>
  The normalizers of the adapters that print a stream of records (\<open>normalize_transport_mode\<close> of
  \<open>installed_adapters.rs\<close>): Codex, the agents SDK and Claude, with the description of a failure of the SDK
  (\<open>sdk_native_failure\<close>) and the clean-up records Claude may send after its result (\<open>claude_shutdown.rs\<close>).
\<close>

definition bad_transport :: runner_error where "bad_transport = catalog ProtocolMalformed"
definition failed_harness :: runner_error where "failed_harness = catalog HarnessFailed"

definition str_field :: "json \<Rightarrow> string \<Rightarrow> string option" where
  "str_field v k = Option.bind (jget v k) as_str"

definition nonempty_field :: "json \<Rightarrow> string \<Rightarrow> bool" where
  "nonempty_field v k = opt_ex (\<lambda>s. s \<noteq> []) (str_field v k)"

section \<open>Assistant text\<close>

definition collect_text :: "string list \<Rightarrow> json \<Rightarrow> runner_error + string list" where
  "collect_text texts item =
     bindE (ok_or bad_transport (str_field item ''type'')) (\<lambda>item_type.
       if item_type = ''text'' then mapE (\<lambda>t. texts @ [t]) (ok_or bad_transport (str_field item ''text'')) else Inr texts)"

definition assistant_text_content :: "json \<Rightarrow> runner_error + string list" where
  "assistant_text_content record =
     (let message = (case jget record ''message'' of Some m \<Rightarrow> m | None \<Rightarrow> record) in
      bindE (ok_or bad_transport (str_field message ''role'')) (\<lambda>role.
      bindE (ok_or bad_transport (Option.bind (jget message ''content'') as_array)) (\<lambda>content.
        if role \<noteq> ''assistant'' then Inl bad_transport else foldE collect_text [] content)))"

section \<open>Codex\<close>

record codex_state =
  cx_index :: nat
  cx_started :: bool
  cx_messages :: "string list"

definition completed_item :: "json \<Rightarrow> codex_state \<Rightarrow> runner_error + codex_state" where
  "completed_item record s =
     bindE (ok_or bad_transport (Option.bind (jget record ''item'') as_object)) (\<lambda>m.
     bindE (ok_or bad_transport (str_field (JObj m) ''type'')) (\<lambda>item_type.
       if item_type = ''agent_message''
       then mapE (\<lambda>t. s\<lparr>cx_messages := cx_messages s @ [t]\<rparr>) (ok_or bad_transport (str_field (JObj m) ''text''))
       else Inr s))"

definition codex_record :: "string \<Rightarrow> nat \<Rightarrow> codex_state \<Rightarrow> json \<Rightarrow> runner_error + codex_state" where
  "codex_record thread_id len s record =
     (if opt_ex (\<lambda>observed. observed \<noteq> thread_id) (str_field record ''thread_id'') then Inl bad_transport
      else case record_type record of
             None \<Rightarrow> Inl bad_transport
           | Some kind \<Rightarrow>
               if kind = ''turn.started'' \<and> \<not> cx_started s then Inr (s\<lparr>cx_started := True\<rparr>)
               else if kind \<in> set [''turn.failed'', ''error''] then Inl failed_harness
               else if kind \<in> set [''item.started'', ''item.updated''] \<and> cx_started s then Inr s
               else if kind = ''item.completed'' \<and> cx_started s then completed_item record s
               else if kind = ''turn.completed'' \<and> cx_started s \<and> cx_index s + 1 = len then Inr s
               else Inl bad_transport)"

definition codex_step :: "string \<Rightarrow> nat \<Rightarrow> codex_state \<Rightarrow> json \<Rightarrow> runner_error + codex_state" where
  "codex_step thread_id len s record =
     mapE (\<lambda>s'. s'\<lparr>cx_index := cx_index s + 1\<rparr>) (codex_record thread_id len s record)"

definition last_type :: "json list \<Rightarrow> string option" where
  "last_type records = (if records = [] then None else record_type (last records))"

definition codex_thread :: "json list \<Rightarrow> string option" where
  "codex_thread records =
     (case records of
        [] \<Rightarrow> None
      | first # _ \<Rightarrow>
          if record_type first = Some ''thread.started'' \<and> nonempty_field first ''thread_id''
          then str_field first ''thread_id'' else None)"

definition normalize_codex :: "json list \<Rightarrow> runner_error + transport_normalization" where
  "normalize_codex records =
     (case codex_thread records of
        None \<Rightarrow> Inl bad_transport
      | Some thread_id \<Rightarrow>
          bindE (foldE (codex_step thread_id (length records)) \<lparr>cx_index = 1, cx_started = False, cx_messages = []\<rparr>
              (drop 1 records)) (\<lambda>s.
            if \<not> cx_started s \<or> last_type records \<noteq> Some ''turn.completed'' then Inl bad_transport
            else Inr \<lparr>terminal_event = ''turn.completed'', assistant_messages = cx_messages s\<rparr>))"

section \<open>The agents SDK\<close>

definition safe_positive_integer :: "json \<Rightarrow> string \<Rightarrow> bool" where
  "safe_positive_integer l k =
     opt_ex (\<lambda>n. 0 < n \<and> is_integral n \<and> n \<le> 9007199254740991) (Option.bind (jget l k) as_f64)"

text \<open>The double nearest to the literal \<open>9_007_199_254_740.99\<close>.\<close>

definition longest_seconds :: rat where "longest_seconds = 4611686018427387 / 512"

definition safe_positive_seconds :: "json \<Rightarrow> string \<Rightarrow> bool" where
  "safe_positive_seconds l k = opt_ex (\<lambda>n. 0 < n \<and> n \<le> longest_seconds) (Option.bind (jget l k) as_f64)"

definition aggregate_limits :: "string list" where
  "aggregate_limits =
     [''maxAggregateRequests'', ''maxAggregateHostedWebCalls'', ''maxAggregateFunctionTools'', ''maxObservedTotalTokens'',
      ''maxRequestInputBytes'', ''maxChildren'', ''maxChildDepth'']"

definition valid_sdk_limits :: "json \<Rightarrow> bool" where
  "valid_sdk_limits l \<longleftrightarrow>
     opt_ex (\<lambda>m. (length m = 4 \<or> length m = 11)
       \<and> list_all (safe_positive_integer l) [''maxTurns'', ''maxOutputTokens'']
       \<and> list_all (safe_positive_seconds l) [''timeoutSeconds'', ''toolTimeoutSeconds'']
       \<and> (length m = 4 \<or> list_all (safe_positive_integer l) aggregate_limits)
       \<and> (length m = 4 \<or> Option.bind (jget l ''maxChildren'') as_f64 = Some 8
            \<and> Option.bind (jget l ''maxChildDepth'') as_f64 = Some 1)) (as_object l)"

definition sdk_native_failure :: "json \<Rightarrow> json" where
  "sdk_native_failure record =
     (let error_type = str_field record ''error_type'';
          kind = (if error_type = Some ''MaxTurnsExceeded'' then ''max-turns''
                  else if error_type = Some ''TimeoutError'' then ''timeout'' else ''execution'');
          setup = (if error_type = Some ''SetupError''
                   then (case str_field record ''setup_reason'' of
                           Some reason \<Rightarrow> if sdk_setup_action reason \<noteq> None then Some reason else None
                         | None \<Rightarrow> None)
                   else None);
          named = (case setup of
                     Some reason \<Rightarrow> [(''kind'', JStr ''setup''), (''setupReason'', JStr reason)]
                   | None \<Rightarrow> [(''kind'', JStr kind)]);
          elapsed = (case Option.bind (jget record ''elapsed_seconds'') as_f64 of
                       Some n \<Rightarrow> if 0 \<le> n then [(''elapsedSeconds'', JNum (Float n))] else []
                     | None \<Rightarrow> []);
          limits = (case jget record ''limits'' of
                      Some l \<Rightarrow> if valid_sdk_limits l then [(''limits'', l)] else []
                    | None \<Rightarrow> [])
      in jobj (named @ elapsed @ limits))"

definition sdk_tool_record :: "json \<Rightarrow> bool" where
  "sdk_tool_record r \<longleftrightarrow>
     opt_ex (\<lambda>k. k \<in> set [''tool_call'', ''tool_result'']) (record_type r) \<and> str_field r ''name'' \<noteq> None"

definition sdk_first_ok :: "json list \<Rightarrow> bool" where
  "sdk_first_ok records \<longleftrightarrow>
     (case records of
        [] \<Rightarrow> False
      | r # _ \<Rightarrow> record_type r = Some ''start'' \<and> str_field r ''model'' \<noteq> None \<and> str_field r ''cwd'' \<noteq> None)"

definition normalize_sdk :: "json list \<Rightarrow> runner_error + transport_normalization" where
  "normalize_sdk records =
     (if \<not> sdk_first_ok records then Inl bad_transport
      else if \<not> list_all sdk_tool_record (take (length records - 2) (drop 1 records)) then Inl bad_transport
      else
        (let r = last records in
         if record_type r = Some ''error'' then Inl (with_detail failed_harness ''nativeFailure'' (sdk_native_failure r))
         else if length records < 2 \<or> record_type r \<noteq> Some ''final'' then Inl bad_transport
         else bindE (ok_or bad_transport (str_field r ''output'')) (\<lambda>out.
           Inr \<lparr>terminal_event = ''final'', assistant_messages = [out]\<rparr>)))"

section \<open>Claude\<close>

definition claude_known :: "string list" where
  "claude_known = [''system'', ''assistant'', ''user'', ''stream_event'', ''tool_progress'', ''result'']"

definition safe_count :: "json \<Rightarrow> string \<Rightarrow> bool" where
  "safe_count v k = opt_ex (\<lambda>n. n \<le> 9007199254740991) (Option.bind (jget v k) as_u64)"

text \<open>A repeated \<open>init\<close> record is the first one again, apart from its \<open>uuid\<close>.\<close>

definition without_fields :: "bool \<Rightarrow> fields \<Rightarrow> fields" where
  "without_fields native m =
     (let m = bt_remove ''uuid'' m in if native then bt_remove ''messaging_socket_path'' m else m)"

definition repeated_init :: "bool \<Rightarrow> json list \<Rightarrow> nat \<Rightarrow> json \<Rightarrow> runner_error + unit" where
  "repeated_init native records i record =
     (if \<not> native \<and> str_field (records ! (i - 1)) ''subtype'' \<noteq> Some ''task_notification''
         \<or> \<not> nonempty_field record ''uuid''
      then Inl bad_transport
      else
        bindE (ok_or bad_transport (as_object (records ! 0))) (\<lambda>first.
        bindE (ok_or bad_transport (as_object record)) (\<lambda>repeated.
          require (without_fields native first = without_fields native repeated) bad_transport)))"

definition background_tasks :: "json \<Rightarrow> runner_error + unit" where
  "background_tasks record =
     (if \<not> nonempty_field record ''uuid'' then Inl bad_transport
      else bindE (ok_or bad_transport (Option.bind (jget record ''tasks'') as_array)) (\<lambda>tasks.
        require (list_all (\<lambda>task. list_all (nonempty_field task) [''task_id'', ''description'', ''task_type'']) tasks)
          bad_transport))"

definition task_record :: "json \<Rightarrow> string \<Rightarrow> runner_error + unit" where
  "task_record record subtype =
     (if \<not> list_all (nonempty_field record) [''task_id'', ''uuid''] then Inl bad_transport
      else if subtype = ''task_started'' \<and> str_field record ''description'' = None then Inl bad_transport
      else if subtype = ''task_updated'' \<and> \<not> opt_ex is_object (jget record ''patch'') then Inl bad_transport
      else if subtype = ''task_notification''
              \<and> \<not> opt_ex (\<lambda>st. st \<in> set [''completed'', ''failed'', ''stopped'']) (str_field record ''status'')
      then Inl bad_transport
      else if subtype = ''task_progress''
      then bindE (ok_or bad_transport (jget record ''usage'')) (\<lambda>usage.
             require (list_all (safe_count usage) [''total_tokens'', ''tool_uses'', ''duration_ms'']) bad_transport)
      else Inr ())"

definition permission_denied :: "json \<Rightarrow> runner_error + unit" where
  "permission_denied record =
     require (list_all (\<lambda>k. str_field record k \<noteq> None) [''tool_name'', ''tool_use_id'', ''message'']) bad_transport"

definition thinking_tokens :: "json \<Rightarrow> runner_error + unit" where
  "thinking_tokens record =
     require (has_exact_keys record
         [''type'', ''subtype'', ''estimated_tokens'', ''estimated_tokens_delta'', ''uuid'', ''session_id'']
       \<and> nonempty_field record ''uuid''
       \<and> list_all (safe_count record) [''estimated_tokens'', ''estimated_tokens_delta'']) bad_transport"

definition claude_record ::
  "bool \<Rightarrow> json list \<Rightarrow> string \<Rightarrow> nat \<Rightarrow> json \<Rightarrow> runner_error + string list" where
  "claude_record native records session_id i record =
     (if str_field record ''session_id'' \<noteq> Some session_id then Inl bad_transport
      else
        (let subtype = str_field record ''subtype''; silent = mapE (\<lambda>_. []) in
         case record_type record of
           None \<Rightarrow> Inl bad_transport
         | Some kind \<Rightarrow>
             if kind = ''assistant'' then assistant_text_content record
             else if kind \<in> set [''user'', ''stream_event'', ''tool_progress''] then Inr []
             else if kind = ''system'' \<and> subtype = Some ''init'' then silent (repeated_init native records i record)
             else if kind = ''system'' \<and> subtype = Some ''background_tasks_changed'' then silent (background_tasks record)
             else if kind = ''system''
                     \<and> opt_ex (\<lambda>t. t \<in> set [''task_started'', ''task_progress'', ''task_updated'', ''task_notification'']) subtype
             then silent (task_record record (the subtype))
             else if kind = ''system'' \<and> subtype = Some ''permission_denied'' then silent (permission_denied record)
             else if kind = ''system'' \<and> subtype = Some ''thinking_tokens'' then silent (thinking_tokens record)
             else if kind = ''result'' \<and> (native \<or> i + 1 = length records)
             then (if subtype \<noteq> Some ''success'' \<or> Option.bind (jget record ''is_error'') as_bool \<noteq> Some False
                   then Inl failed_harness else Inr [])
             else if kind = ''system'' \<and> opt_ex (\<lambda>t. t \<noteq> []) subtype then Inr []
             else if kind \<noteq> [] \<and> kind \<notin> set claude_known then Inr []
             else Inl bad_transport))"

definition claude_step ::
  "bool \<Rightarrow> json list \<Rightarrow> string \<Rightarrow> nat \<times> string list \<Rightarrow> json \<Rightarrow> runner_error + (nat \<times> string list)" where
  "claude_step native records session_id s record =
     mapE (\<lambda>texts. (fst s + 1, snd s @ texts)) (claude_record native records session_id (fst s) record)"

definition claude_session :: "json list \<Rightarrow> string option" where
  "claude_session records =
     (case records of
        [] \<Rightarrow> None
      | first # _ \<Rightarrow>
          if record_type first = Some ''system'' \<and> str_field first ''subtype'' = Some ''init''
             \<and> nonempty_field first ''session_id''
          then str_field first ''session_id'' else None)"

section \<open>The end of a native Claude run\<close>

type_synonym shells = "(string, string) btree"

text \<open>The Bash calls seen so far, and the background shells they started, by task.\<close>

definition bash_calls :: "json \<Rightarrow> string list" where
  "bash_calls record =
     (case as_array (jidx (jidx record ''message'') ''content'') of
        None \<Rightarrow> []
      | Some blocks \<Rightarrow>
          List.map_filter (\<lambda>block.
            if jidx block ''type'' = JStr ''tool_use'' \<and> jidx block ''name'' = JStr ''Bash''
            then as_str (jidx block ''id'') else None) blocks)"

definition track_shell :: "json \<Rightarrow> string list \<times> shells \<Rightarrow> json \<Rightarrow> string list \<times> shells" where
  "track_shell sess state record =
     (let calls = fst state @ bash_calls record; known = snd state in
      if jidx record ''type'' \<noteq> JStr ''system'' \<or> jidx record ''session_id'' \<noteq> sess then (calls, known)
      else
        (let known = (if jidx record ''subtype'' = JStr ''task_started'' \<and> jidx record ''task_type'' = JStr ''local_bash''
                         \<and> jidx record ''is_backgrounded'' = JBool True
                      then (case (as_str (jidx record ''task_id''), as_str (jidx record ''tool_use_id'')) of
                              (Some task, Some call) \<Rightarrow> if call \<in> set calls then bt_insert task call known else known
                            | _ \<Rightarrow> known)
                      else known)
         in if jidx record ''subtype'' = JStr ''task_notification''
               \<and> opt_ex (\<lambda>st. st \<in> set [''completed'', ''failed'', ''stopped'']) (as_str (jidx record ''status''))
            then (case as_str (jidx record ''task_id'') of
                    Some task \<Rightarrow> (calls, bt_remove task known) | None \<Rightarrow> (calls, known))
            else (calls, known)))"

record cleanup =
  cu_pending :: "string list"
  cu_closed :: "string list"
  cu_inventory :: bool

definition killed_patch :: "fields \<Rightarrow> bool" where
  "killed_patch patch \<longleftrightarrow>
     length patch = 2 \<and> bt_get patch ''status'' = Some (JStr ''killed'')
     \<and> opt_ex (\<lambda>n. n \<le> 9007199254740991) (Option.bind (bt_get patch ''end_time'') as_u64)"

definition cleanup_step :: "json \<Rightarrow> shells \<Rightarrow> cleanup \<Rightarrow> json \<Rightarrow> unit + cleanup" where
  "cleanup_step sess known s record =
     (if jidx record ''type'' \<noteq> JStr ''system'' \<or> jidx record ''session_id'' \<noteq> sess
         \<or> \<not> opt_ex (\<lambda>u. u \<noteq> []) (as_str (jidx record ''uuid''))
      then Inl ()
      else case as_str (jidx record ''subtype'') of
             None \<Rightarrow> Inl ()
           | Some subtype \<Rightarrow>
               if subtype = ''background_tasks_changed'' then
                 (if jidx record ''tasks'' \<noteq> JArr [] then Inl () else Inr (s\<lparr>cu_inventory := True\<rparr>))
               else if subtype = ''task_updated'' then
                 (case (as_str (jidx record ''task_id''), as_object (jidx record ''patch'')) of
                    (Some task, Some patch) \<Rightarrow>
                      if \<not> cu_inventory s \<or> bt_get known task = None \<or> task \<in> set (cu_pending s) \<or> task \<in> set (cu_closed s)
                         \<or> \<not> killed_patch patch
                      then Inl () else Inr (s\<lparr>cu_pending := task # cu_pending s\<rparr>)
                  | _ \<Rightarrow> Inl ())
               else if subtype = ''task_notification'' then
                 (case as_str (jidx record ''task_id'') of
                    None \<Rightarrow> Inl ()
                  | Some task \<Rightarrow>
                      if task \<notin> set (cu_pending s) \<or> jidx record ''status'' \<noteq> JStr ''stopped''
                         \<or> as_str (jidx record ''tool_use_id'') \<noteq> bt_get known task
                      then Inl ()
                      else Inr (s\<lparr>cu_pending := removeAll task (cu_pending s), cu_closed := task # cu_closed s\<rparr>))
               else Inl ())"

definition last_result :: "json list \<Rightarrow> nat option" where
  "last_result records =
     (case filter (\<lambda>i. jidx (records ! i) ''type'' = JStr ''result'') [0..<length records] of
        [] \<Rightarrow> None | places \<Rightarrow> Some (last places))"

definition has_fresh_result :: "json list \<Rightarrow> bool" where
  "has_fresh_result records \<longleftrightarrow>
     (case last_result records of
        None \<Rightarrow> False
      | Some i \<Rightarrow>
          (let candidate = records ! i; sess = jidx (records ! 0) ''session_id'' in
           if jidx candidate ''session_id'' \<noteq> sess \<or> jidx candidate ''subtype'' \<noteq> JStr ''success''
              \<or> jidx candidate ''is_error'' \<noteq> JBool False
           then False
           else if i + 1 = length records then True
           else
             (let known = snd (foldl (track_shell sess) ([], []) (take i records)) in
              case foldE (cleanup_step sess known) \<lparr>cu_pending = [], cu_closed = [], cu_inventory = False\<rparr>
                  (drop (i + 1) records) of
                Inl _ \<Rightarrow> False
              | Inr s \<Rightarrow> cu_pending s = [] \<and> cu_closed s \<noteq> [])))"

definition socket_path_ok :: "json \<Rightarrow> bool" where
  "socket_path_ok r \<longleftrightarrow>
     (if jidx r ''type'' = JStr ''system'' \<and> jidx r ''subtype'' = JStr ''init''
      then opt_all (\<lambda>v. opt_ex (\<lambda>s. s \<noteq> []) (as_str v)) (jget r ''messaging_socket_path'')
      else True)"

definition normalize_claude :: "bool \<Rightarrow> json list \<Rightarrow> runner_error + transport_normalization" where
  "normalize_claude native records =
     (if native \<and> \<not> list_all socket_path_ok records then Inl bad_transport
      else case claude_session records of
             None \<Rightarrow> Inl bad_transport
           | Some session_id \<Rightarrow>
               bindE (foldE (claude_step native records session_id) (1, []) (drop 1 records)) (\<lambda>(_, texts).
                 if native \<and> \<not> has_fresh_result records \<or> \<not> native \<and> last_type records \<noteq> Some ''result''
                 then Inl bad_transport
                 else Inr \<lparr>terminal_event = ''result(subtype=success,is_error=false)'', assistant_messages = texts\<rparr>))"

section \<open>The grammar of a Codex stream\<close>

definition same_thread :: "string \<Rightarrow> json \<Rightarrow> bool" where
  "same_thread thread_id record \<longleftrightarrow> opt_all (\<lambda>observed. observed = thread_id) (str_field record ''thread_id'')"

definition agent_text :: "json \<Rightarrow> string option" where
  "agent_text record =
     (if record_type record = Some ''item.completed'' \<and> str_field (jidx record ''item'') ''type'' = Some ''agent_message''
      then str_field (jidx record ''item'') ''text'' else None)"

definition agent_texts :: "json list \<Rightarrow> string list" where
  "agent_texts records = List.map_filter agent_text records"

definition codex_item :: "json \<Rightarrow> bool" where
  "codex_item record \<longleftrightarrow>
     (if record_type record = Some ''item.completed''
      then str_field (jidx record ''item'') ''type'' \<noteq> None
        \<and> (if str_field (jidx record ''item'') ''type'' = Some ''agent_message''
            then str_field (jidx record ''item'') ''text'' \<noteq> None else True)
      else record_type record \<in> {Some ''item.started'', Some ''item.updated''})"

lemma agent_texts_simps [simp]:
  "agent_texts [] = []"
  "agent_texts (r # rs) = (case agent_text r of None \<Rightarrow> agent_texts rs | Some t \<Rightarrow> t # agent_texts rs)"
  "agent_texts (rs @ ss) = agent_texts rs @ agent_texts ss"
  by (simp_all add: agent_texts_def map_filter_def split: option.split)

lemma str_field_None: "as_object v = None \<Longrightarrow> str_field v k = None"
  by (cases v) (simp_all add: str_field_def)

lemma completed_item_iff:
  "completed_item record s = Inr s' \<longleftrightarrow>
     str_field (jidx record ''item'') ''type'' \<noteq> None
     \<and> (if str_field (jidx record ''item'') ''type'' = Some ''agent_message''
        then \<exists>t. str_field (jidx record ''item'') ''text'' = Some t \<and> s' = s\<lparr>cx_messages := cx_messages s @ [t]\<rparr>
        else s' = s)"
proof (cases "Option.bind (jget record ''item'') as_object")
  case None
  have "as_object (jidx record ''item'') = None"
  proof (cases "jget record ''item''")
    case (Some v)
    then show ?thesis using None by (simp add: jidx_def)
  qed (simp add: jidx_def)
  then have "str_field (jidx record ''item'') ''type'' = None" by (rule str_field_None)
  then show ?thesis using None by (simp add: completed_item_def)
next
  case (Some m)
  then have item: "jidx record ''item'' = JObj m" by (auto simp: bind_eq_Some_conv jidx_def)
  show ?thesis
  proof (cases "str_field (JObj m) ''type''")
    case (Some item_type)
    then show ?thesis using \<open>Option.bind (jget record ''item'') as_object = Some m\<close>
      unfolding completed_item_def item by (cases "str_field (JObj m) ''text''") auto
  qed (simp add: completed_item_def Some item)
qed

lemma codex_item_step:
  assumes "cx_started s" and "cx_index s + 1 < n"
  shows "codex_step thread_id n s record = Inr s' \<longleftrightarrow>
    same_thread thread_id record \<and> codex_item record
    \<and> s' = s\<lparr>cx_index := cx_index s + 1, cx_messages := cx_messages s @ agent_texts [record]\<rparr>"
proof -
  have thread: "opt_ex (\<lambda>observed. observed \<noteq> thread_id) (str_field record ''thread_id'') \<longleftrightarrow> \<not> same_thread thread_id record"
    by (cases "str_field record ''thread_id''") (simp_all add: same_thread_def)
  show ?thesis
  proof (cases "record_type record")
    case None
    then show ?thesis by (simp add: codex_step_def codex_record_def codex_item_def)
  next
    case (Some kind)
    consider (completed) "kind = ''item.completed''" | (other) "kind \<in> {''item.started'', ''item.updated''}"
      | (rest) "kind \<noteq> ''item.completed''" "kind \<notin> {''item.started'', ''item.updated''}"
      by blast
    then show ?thesis
    proof cases
      case completed
      then show ?thesis using Some assms(1)
        unfolding codex_step_def codex_record_def thread codex_item_def
        by (auto simp: mapE_eq_Inr completed_item_iff agent_text_def)
    next
      case other
      then show ?thesis using Some assms(1)
        unfolding codex_step_def codex_record_def thread codex_item_def
        by (auto simp: agent_text_def)
    next
      case rest
      then show ?thesis using Some assms
        unfolding codex_step_def codex_record_def thread codex_item_def by simp
    qed
  qed
qed

lemma codex_items_run:
  assumes "cx_started s" and "cx_index s + length xs < n"
  shows "foldE (codex_step thread_id n) s xs = Inr s' \<longleftrightarrow>
    list_all (same_thread thread_id) xs \<and> list_all codex_item xs
    \<and> s' = s\<lparr>cx_index := cx_index s + length xs, cx_messages := cx_messages s @ agent_texts xs\<rparr>"
  using assms
proof (induction xs arbitrary: s)
  case Nil
  then show ?case by auto
next
  case (Cons x xs)
  let ?s = "s\<lparr>cx_index := cx_index s + 1, cx_messages := cx_messages s @ agent_texts [x]\<rparr>"
  have step: "codex_step thread_id n s x = Inr u \<longleftrightarrow> same_thread thread_id x \<and> codex_item x \<and> u = ?s" for u
    using Cons.prems by (intro codex_item_step) simp_all
  have "foldE (codex_step thread_id n) s (x # xs) = Inr s'
      \<longleftrightarrow> same_thread thread_id x \<and> codex_item x \<and> foldE (codex_step thread_id n) ?s xs = Inr s'"
    unfolding foldE.simps bindE_eq_Inr step by blast
  also have "foldE (codex_step thread_id n) ?s xs = Inr s' \<longleftrightarrow> list_all (same_thread thread_id) xs \<and> list_all codex_item xs
      \<and> s' = ?s\<lparr>cx_index := cx_index ?s + length xs, cx_messages := cx_messages ?s @ agent_texts xs\<rparr>"
    using Cons.prems by (intro Cons.IH) simp_all
  finally show ?case by (simp split: option.split) auto
qed

lemma codex_first_step:
  assumes "\<not> cx_started s"
  shows "codex_step thread_id n s record = Inr s' \<longleftrightarrow>
    same_thread thread_id record \<and> record_type record = Some ''turn.started''
    \<and> s' = s\<lparr>cx_index := cx_index s + 1, cx_started := True\<rparr>"
proof -
  have thread: "opt_ex (\<lambda>observed. observed \<noteq> thread_id) (str_field record ''thread_id'') \<longleftrightarrow> \<not> same_thread thread_id record"
    by (cases "str_field record ''thread_id''") (simp_all add: same_thread_def)
  show ?thesis
    using assms unfolding codex_step_def codex_record_def thread by (cases "record_type record") (auto split: if_split)
qed

lemma codex_last_step:
  assumes "cx_started s" and "cx_index s + 1 = n" and "record_type record = Some ''turn.completed''"
  shows "codex_step thread_id n s record = Inr s' \<longleftrightarrow>
    same_thread thread_id record \<and> s' = s\<lparr>cx_index := cx_index s + 1\<rparr>"
proof -
  have thread: "opt_ex (\<lambda>observed. observed \<noteq> thread_id) (str_field record ''thread_id'') \<longleftrightarrow> \<not> same_thread thread_id record"
    by (cases "str_field record ''thread_id''") (simp_all add: same_thread_def)
  show ?thesis
    using assms unfolding codex_step_def codex_record_def thread by auto
qed

definition codex_grammar :: "json list \<Rightarrow> bool" where
  "codex_grammar records \<longleftrightarrow>
     (\<exists>first turn items final thread_id. records = first # turn # items @ [final]
        \<and> record_type first = Some ''thread.started'' \<and> str_field first ''thread_id'' = Some thread_id \<and> thread_id \<noteq> []
        \<and> list_all (same_thread thread_id) (turn # items @ [final])
        \<and> record_type turn = Some ''turn.started'' \<and> list_all codex_item items
        \<and> record_type final = Some ''turn.completed'')"

lemma codex_thread_iff:
  "codex_thread (first # rest) = Some thread_id \<longleftrightarrow>
     record_type first = Some ''thread.started'' \<and> str_field first ''thread_id'' = Some thread_id \<and> thread_id \<noteq> []"
  by (auto simp: codex_thread_def nonempty_field_def opt_ex_iff)

lemma codex_run:
  assumes "record_type final = Some ''turn.completed''"
  shows "foldE (codex_step thread_id (length items + 3)) \<lparr>cx_index = 1, cx_started = False, cx_messages = []\<rparr>
      (turn # items @ [final]) = Inr s \<longleftrightarrow>
    list_all (same_thread thread_id) (turn # items @ [final]) \<and> record_type turn = Some ''turn.started'' \<and> list_all codex_item items
    \<and> s = \<lparr>cx_index = length items + 3, cx_started = True, cx_messages = agent_texts items\<rparr>"
proof -
  let ?n = "length items + 3"
  let ?s = "\<lparr>cx_index = 2, cx_started = True, cx_messages = []\<rparr> :: codex_state"
  let ?t = "\<lparr>cx_index = length items + 2, cx_started = True, cx_messages = agent_texts items\<rparr> :: codex_state"
  have first: "codex_step thread_id ?n \<lparr>cx_index = 1, cx_started = False, cx_messages = []\<rparr> turn = Inr u
      \<longleftrightarrow> same_thread thread_id turn \<and> record_type turn = Some ''turn.started'' \<and> u = ?s" for u
    by (subst codex_first_step) (simp_all add: numeral_2_eq_2)
  have mid: "foldE (codex_step thread_id ?n) ?s items = Inr u
      \<longleftrightarrow> list_all (same_thread thread_id) items \<and> list_all codex_item items \<and> u = ?t" for u
    by (subst codex_items_run) (simp_all add: add.commute)
  have end_step: "codex_step thread_id ?n ?t final = Inr u
      \<longleftrightarrow> same_thread thread_id final \<and> u = \<lparr>cx_index = ?n, cx_started = True, cx_messages = agent_texts items\<rparr>" for u
    by (subst codex_last_step) (simp_all add: assms eval_nat_numeral)
  have "foldE (codex_step thread_id ?n) \<lparr>cx_index = 1, cx_started = False, cx_messages = []\<rparr> (turn # items @ [final]) = Inr s
      \<longleftrightarrow> (\<exists>u v. codex_step thread_id ?n \<lparr>cx_index = 1, cx_started = False, cx_messages = []\<rparr> turn = Inr u
        \<and> foldE (codex_step thread_id ?n) u items = Inr v \<and> codex_step thread_id ?n v final = Inr s)"
    by (simp add: foldE_append bindE_eq_Inr)
  then show ?thesis unfolding first using mid end_step by auto
qed

lemma final_no_text: "record_type r \<noteq> Some ''item.completed'' \<Longrightarrow> agent_texts [r] = []"
  by (simp add: agent_text_def)

lemma codex_shape:
  assumes "normalize_codex records = Inr r"
  obtains first turn items final where "records = first # turn # items @ [final]" "record_type final = Some ''turn.completed''"
proof -
  obtain thread_id s where thread: "codex_thread records = Some thread_id"
    and run: "foldE (codex_step thread_id (length records)) \<lparr>cx_index = 1, cx_started = False, cx_messages = []\<rparr>
        (drop 1 records) = Inr s"
    and ended: "cx_started s" "last_type records = Some ''turn.completed''"
    using assms unfolding normalize_codex_def by (auto simp: bindE_eq_Inr split: option.split_asm if_splits)
  obtain first rest where records: "records = first # rest" using thread by (cases records) (auto simp: codex_thread_def)
  have "rest \<noteq> []" using run ended unfolding records by auto
  then obtain body final where rest: "rest = body @ [final]" by (metis append_butlast_last_id)
  have final: "record_type final = Some ''turn.completed''" using ended(2) unfolding records rest last_type_def by simp
  have "body \<noteq> []"
  proof
    assume "body = []"
    then have "codex_step thread_id 2 \<lparr>cx_index = 1, cx_started = False, cx_messages = []\<rparr> final = Inr s"
      using run unfolding records rest by (simp add: bindE_eq_Inr numeral_2_eq_2)
    then show False using final by (subst (asm) codex_first_step) simp_all
  qed
  then show ?thesis using that records rest final by (metis append_Cons neq_Nil_conv)
qed

lemma normalize_codex_run:
  assumes "record_type final = Some ''turn.completed''"
  shows "normalize_codex (first # turn # items @ [final]) = Inr r \<longleftrightarrow>
    (\<exists>thread_id. record_type first = Some ''thread.started'' \<and> str_field first ''thread_id'' = Some thread_id \<and> thread_id \<noteq> []
      \<and> list_all (same_thread thread_id) (turn # items @ [final]) \<and> record_type turn = Some ''turn.started''
      \<and> list_all codex_item items)
    \<and> r = \<lparr>terminal_event = ''turn.completed'', assistant_messages = agent_texts (first # turn # items @ [final])\<rparr>"
proof -
  have last: "last_type (first # turn # items @ [final]) = Some ''turn.completed''" using assms by (simp add: last_type_def)
  have n: "length (first # turn # items @ [final]) = length items + 3" by simp
  have texts: "agent_texts (first # turn # items @ [final]) = agent_texts items"
    if "record_type first = Some ''thread.started''" "record_type turn = Some ''turn.started''"
    using that assms by (simp add: agent_text_def)
  let ?records = "first # turn # items @ [final]"
  have thread: "codex_thread ?records = Some thread_id \<longleftrightarrow>
     record_type first = Some ''thread.started'' \<and> str_field first ''thread_id'' = Some thread_id \<and> thread_id \<noteq> []" for thread_id
    by (rule codex_thread_iff)
  have "normalize_codex ?records = Inr r \<longleftrightarrow> (\<exists>thread_id. codex_thread ?records = Some thread_id
      \<and> (\<exists>s. foldE (codex_step thread_id (length items + 3)) \<lparr>cx_index = 1, cx_started = False, cx_messages = []\<rparr>
              (turn # items @ [final]) = Inr s \<and> cx_started s
            \<and> r = \<lparr>terminal_event = ''turn.completed'', assistant_messages = cx_messages s\<rparr>))"
    unfolding normalize_codex_def n last
    by (cases "codex_thread ?records") (auto simp: bindE_eq_Inr simp del: foldE.simps split: if_splits)
  also have "\<dots> \<longleftrightarrow> (\<exists>thread_id. codex_thread ?records = Some thread_id
      \<and> list_all (same_thread thread_id) (turn # items @ [final]) \<and> record_type turn = Some ''turn.started'' \<and> list_all codex_item items
      \<and> r = \<lparr>terminal_event = ''turn.completed'', assistant_messages = agent_texts items\<rparr>)"
    unfolding codex_run [OF assms] by auto
  finally show ?thesis unfolding thread using texts by metis
qed

lemma normalize_codex_iff:
  "normalize_codex records = Inr r \<longleftrightarrow>
     codex_grammar records \<and> r = \<lparr>terminal_event = ''turn.completed'', assistant_messages = agent_texts records\<rparr>"
proof
  assume accepted: "normalize_codex records = Inr r"
  then obtain first turn items final where shape: "records = first # turn # items @ [final]"
    and final: "record_type final = Some ''turn.completed''"
    by (rule codex_shape)
  show "codex_grammar records \<and> r = \<lparr>terminal_event = ''turn.completed'', assistant_messages = agent_texts records\<rparr>"
    using accepted final unfolding shape normalize_codex_run [OF final] codex_grammar_def by blast
next
  assume "codex_grammar records \<and> r = \<lparr>terminal_event = ''turn.completed'', assistant_messages = agent_texts records\<rparr>"
  then show "normalize_codex records = Inr r"
    unfolding codex_grammar_def using normalize_codex_run by blast
qed

text \<open>Property C28.
  The Codex normalizer accepts exactly the streams of its grammar: the start of a thread, the start of the
  turn, items, the completion of the turn, all of the one thread; and the messages are the texts of the
  completed agent messages, in order.\<close>

theorem codex_stream_is_its_grammar:
  "normalize_codex records = Inr r \<longleftrightarrow>
     codex_grammar records \<and> r = \<lparr>terminal_event = ''turn.completed'', assistant_messages = agent_texts records\<rparr>"
  by (rule normalize_codex_iff)

end
