(* ===== verification/Prime_Rpc.thy ===== *)
theory Prime_Rpc
  imports Transport_Streams
begin

text \<open>
  The Prime transport without native tools (\<open>normalize_prime_rpc\<close> of \<open>installed_adapters.rs\<close>): one
  user message, one assistant message streamed as an optional thinking block and a text block, and their
  repetition at the end of the turn and of the agent; with the diagnostic an error carries.
\<close>

section \<open>Diagnostics\<close>

datatype prime_lifecycle =
    AwaitPromptAck | AwaitAgentStart | AwaitTurnStart | AwaitUserMessageStart | AwaitUserMessageEnd
  | AwaitAssistantMessageStart | AwaitThinkingOrTextStart | AwaitThinkingEnd | ThinkingDelta | AwaitTextStart
  | AwaitTextDelta | TextDelta | AwaitAssistantMessageEnd | AwaitTurnEnd | AwaitAgentEnd | Complete

primrec prime_phase :: "prime_lifecycle \<Rightarrow> string" where
  "prime_phase AwaitPromptAck = ''await-prompt-ack''"
| "prime_phase AwaitAgentStart = ''await-agent-start''"
| "prime_phase AwaitTurnStart = ''await-turn-start''"
| "prime_phase AwaitUserMessageStart = ''await-user-message-start''"
| "prime_phase AwaitUserMessageEnd = ''await-user-message-end''"
| "prime_phase AwaitAssistantMessageStart = ''await-assistant-message-start''"
| "prime_phase AwaitThinkingOrTextStart = ''await-thinking-or-text-start''"
| "prime_phase AwaitThinkingEnd = ''await-thinking-delta-or-end''"
| "prime_phase ThinkingDelta = ''await-thinking-delta-or-end''"
| "prime_phase AwaitTextStart = ''await-text-start''"
| "prime_phase AwaitTextDelta = ''await-text-delta-or-end''"
| "prime_phase TextDelta = ''await-text-delta-or-end''"
| "prime_phase AwaitAssistantMessageEnd = ''await-assistant-message-end''"
| "prime_phase AwaitTurnEnd = ''await-turn-end''"
| "prime_phase AwaitAgentEnd = ''await-agent-end''"
| "prime_phase Complete = ''complete''"

record counters =
  ct_accepted :: nat
  ct_thinking :: nat
  ct_text :: nat
  ct_saturated :: bool


definition saturating_diagnostic_count :: "nat \<Rightarrow> bool \<Rightarrow> nat \<times> bool" where
  "saturating_diagnostic_count n saturated = (if n = u32_max then (n, True) else (n + 1, saturated))"

definition update_type :: "json \<Rightarrow> string option" where
  "update_type record = Option.bind (jget record ''assistantMessageEvent'') (\<lambda>event. str_field event ''type'')"

definition accept_record :: "json \<Rightarrow> counters \<Rightarrow> counters" where
  "accept_record record c =
     (let (accepted, saturated) = saturating_diagnostic_count (ct_accepted c) (ct_saturated c);
          c = c\<lparr>ct_accepted := accepted, ct_saturated := saturated\<rparr>
      in if update_type record = Some ''thinking_delta'' then
           (let (n, saturated) = saturating_diagnostic_count (ct_thinking c) (ct_saturated c)
            in c\<lparr>ct_thinking := n, ct_saturated := saturated\<rparr>)
         else if update_type record = Some ''text_delta'' then
           (let (n, saturated) = saturating_diagnostic_count (ct_text c) (ct_saturated c)
            in c\<lparr>ct_text := n, ct_saturated := saturated\<rparr>)
         else c)"

definition prime_adapter_diagnostic :: "prime_lifecycle \<Rightarrow> counters \<Rightarrow> bool \<Rightarrow> json" where
  "prime_adapter_diagnostic lifecycle c framing =
     jobj [(''schema'', JStr ''openprose.adapter-diagnostic/1''), (''adapterId'', JStr ''prime/rpc''),
       (''stage'', JStr (if framing then ''jsonl-framing'' else ''prime-lifecycle'')),
       (''phase'', JStr (if framing then ''record-boundary'' else prime_phase lifecycle)),
       (''counters'', jobj [(''acceptedRecords'', JNum (PosInt (ct_accepted c))),
          (''thinkingDeltas'', JNum (PosInt (ct_thinking c))), (''textDeltas'', JNum (PosInt (ct_text c))),
          (''saturated'', JBool (ct_saturated c))])]"

definition prime_protocol_error :: "prime_lifecycle \<Rightarrow> counters \<Rightarrow> runner_error" where
  "prime_protocol_error lifecycle c =
     with_detail (catalog ProtocolMalformed) ''adapterDiagnostic'' (prime_adapter_diagnostic lifecycle c False)"

section \<open>Messages\<close>

definition nonnegative_integer :: "json \<Rightarrow> bool" where
  "nonnegative_integer v \<longleftrightarrow> as_u64 v \<noteq> None"

definition valid_prime_user_message :: "json \<Rightarrow> bool" where
  "valid_prime_user_message message \<longleftrightarrow>
     has_exact_keys message [''role'', ''content'', ''timestamp''] \<and> str_field message ''role'' = Some ''user''
     \<and> (case Option.bind (jget message ''content'') as_array of
          Some [block] \<Rightarrow>
            has_exact_keys block [''type'', ''text''] \<and> str_field block ''type'' = Some ''text''
            \<and> opt_ex (\<lambda>t. t \<noteq> [] \<and> length t \<le> PRIME_RPC_STRING_BYTES_LIMIT) (str_field block ''text'')
        | _ \<Rightarrow> False)
     \<and> opt_ex nonnegative_integer (jget message ''timestamp'')"

definition valid_prime_assistant_content :: "json \<Rightarrow> bool" where
  "valid_prime_assistant_content content \<longleftrightarrow>
     (case str_field content ''type'' of
        None \<Rightarrow> False
      | Some kind \<Rightarrow>
          if kind = ''text'' then
            opt_ex (\<lambda>m. keys_within m [''type'', ''text'', ''textSignature''] \<and> field_ok is_string m ''text''
              \<and> opt_field_ok is_string m ''textSignature'') (as_object content)
          else if kind = ''thinking'' then
            opt_ex (\<lambda>m. keys_within m [''type'', ''thinking'', ''thinkingSignature'', ''redacted'']
              \<and> field_ok is_string m ''thinking'' \<and> opt_field_ok is_string m ''thinkingSignature''
              \<and> opt_field_ok is_boolean m ''redacted'') (as_object content)
          else False)"

definition valid_prime_usage :: "json \<Rightarrow> bool" where
  "valid_prime_usage usage \<longleftrightarrow>
     has_exact_keys usage [''input'', ''output'', ''cacheRead'', ''cacheWrite'', ''totalTokens'', ''cost'']
     \<and> opt_ex (\<lambda>cost.
          list_all (\<lambda>k. opt_ex nonneg_number (jget usage k)) [''input'', ''output'', ''cacheRead'', ''cacheWrite'', ''totalTokens'']
          \<and> has_exact_keys cost [''input'', ''output'', ''cacheRead'', ''cacheWrite'', ''total'']
          \<and> opt_ex (\<lambda>m. list_all nonneg_number (map snd m)) (as_object cost)) (jget usage ''cost'')"

definition assistant_allowed :: "string list" where
  "assistant_allowed =
     [''role'', ''content'', ''api'', ''provider'', ''model'', ''responseModel'', ''responseId'', ''diagnostics'', ''usage'',
      ''stopReason'', ''stopReasonRaw'', ''errorMessage'', ''timestamp'']"

definition assistant_required :: "string list" where
  "assistant_required = [''role'', ''content'', ''api'', ''provider'', ''model'', ''usage'', ''stopReason'', ''timestamp'']"

definition valid_prime_assistant_message :: "json \<Rightarrow> bool" where
  "valid_prime_assistant_message message \<longleftrightarrow>
     opt_ex (\<lambda>m.
       keys_within m assistant_allowed \<and> list_all (\<lambda>k. bt_get m k \<noteq> None) assistant_required
       \<and> str_field message ''role'' = Some ''assistant'' \<and> str_field message ''stopReason'' = Some ''stop''
       \<and> list_all (nonempty_field message) [''api'', ''provider'', ''model'']
       \<and> list_all (\<lambda>k. opt_all is_string (jget message k)) [''responseModel'', ''responseId'', ''stopReasonRaw'', ''errorMessage'']
       \<and> opt_ex nonnegative_integer (jget message ''timestamp'') \<and> valid_prime_usage (jidx message ''usage'')
       \<and> opt_ex (\<lambda>content. length content \<le> PRIME_RPC_COLLECTION_LIMIT \<and> list_all valid_prime_assistant_content content)
            (Option.bind (jget message ''content'') as_array)
       \<and> opt_all (\<lambda>v. is_array v \<and> prime_bounded_json v 0) (jget message ''diagnostics'')) (as_object message)"

datatype content_shape = Empty | EmptyText | Text | ThinkingEmpty | Thinking | ThinkingAndEmptyText | ThinkingAndText

definition block_is :: "string \<Rightarrow> json \<Rightarrow> bool" where
  "block_is kind block \<longleftrightarrow> str_field block ''type'' = Some kind"

definition prime_content_has_shape :: "json \<Rightarrow> content_shape \<Rightarrow> bool" where
  "prime_content_has_shape message shape \<longleftrightarrow>
     (case Option.bind (jget message ''content'') as_array of
        None \<Rightarrow> False
      | Some content \<Rightarrow>
          (case shape of
             Empty \<Rightarrow> content = []
           | EmptyText \<Rightarrow>
               (case content of [b] \<Rightarrow> block_is ''text'' b \<and> str_field b ''text'' = Some [] | _ \<Rightarrow> False)
           | Text \<Rightarrow> (case content of [b] \<Rightarrow> block_is ''text'' b | _ \<Rightarrow> False)
           | ThinkingEmpty \<Rightarrow>
               (case content of [b] \<Rightarrow> block_is ''thinking'' b \<and> str_field b ''thinking'' = Some [] | _ \<Rightarrow> False)
           | Thinking \<Rightarrow> (case content of [b] \<Rightarrow> block_is ''thinking'' b | _ \<Rightarrow> False)
           | ThinkingAndEmptyText \<Rightarrow>
               (case content of
                  [a, b] \<Rightarrow> block_is ''thinking'' a \<and> block_is ''text'' b \<and> str_field b ''text'' = Some []
                | _ \<Rightarrow> False)
           | ThinkingAndText \<Rightarrow>
               (case content of [a, b] \<Rightarrow> block_is ''thinking'' a \<and> block_is ''text'' b | _ \<Rightarrow> False)))"

definition prime_content_has_text_shape :: "json \<Rightarrow> nat \<Rightarrow> bool \<Rightarrow> bool" where
  "prime_content_has_text_shape message text_index bare \<longleftrightarrow>
     (if text_index = 0 then prime_content_has_shape message (if bare then EmptyText else Text)
      else if text_index = 1 then prime_content_has_shape message (if bare then ThinkingAndEmptyText else ThinkingAndText)
      else False)"

definition block_field :: "json \<Rightarrow> nat \<Rightarrow> string \<Rightarrow> string option" where
  "block_field message i k = Option.bind (jget message ''content'') (\<lambda>content. Option.bind (jnth content i) (\<lambda>b. str_field b k))"

definition prime_assistant_text :: "json \<Rightarrow> nat \<Rightarrow> string option" where
  "prime_assistant_text message text_index =
     (if prime_content_has_text_shape message text_index False then block_field message text_index ''text'' else None)"

definition prime_text_index :: "json \<Rightarrow> nat option" where
  "prime_text_index message = find (\<lambda>i. prime_content_has_text_shape message i False) [0, 1]"

section \<open>The lifecycle\<close>

record prime_state =
  pr_lifecycle :: prime_lifecycle
  pr_counters :: counters
  pr_user :: "json option"
  pr_assistant :: "json option"
  pr_thinking :: string
  pr_text :: string
  pr_index :: "nat option"

definition content_index :: "json \<Rightarrow> nat option" where
  "content_index update = Option.bind (jget update ''contentIndex'') as_u64"

definition thinking_delta :: "runner_error \<Rightarrow> json \<Rightarrow> json \<Rightarrow> prime_state \<Rightarrow> runner_error + prime_state" where
  "thinking_delta bad update message s =
     bindE (ok_or bad (str_field update ''delta'')) (\<lambda>delta.
       let thinking = pr_thinking s @ delta in
       if saturating_add (length (pr_thinking s)) (length delta) > PRIME_RPC_STRING_BYTES_LIMIT
          \<or> block_field message 0 ''thinking'' \<noteq> Some thinking
       then Inl bad else Inr (s\<lparr>pr_thinking := thinking, pr_lifecycle := ThinkingDelta\<rparr>))"

definition thinking_end :: "runner_error \<Rightarrow> json \<Rightarrow> json \<Rightarrow> prime_state \<Rightarrow> runner_error + prime_state" where
  "thinking_end bad update message s =
     bindE (ok_or bad (str_field update ''content'')) (\<lambda>content.
       if block_field message 0 ''thinking'' \<noteq> Some content
          \<or> \<not> (pr_lifecycle s \<noteq> ThinkingDelta \<or> pr_thinking s = content
               \<or> strip_suffix [LF, LF] (pr_thinking s) = Some content)
       then Inl bad else Inr (s\<lparr>pr_thinking := content, pr_lifecycle := AwaitTextStart\<rparr>))"

definition text_delta :: "runner_error \<Rightarrow> json \<Rightarrow> json \<Rightarrow> nat \<Rightarrow> prime_state \<Rightarrow> runner_error + prime_state" where
  "text_delta bad update message i s =
     bindE (ok_or bad (str_field update ''delta'')) (\<lambda>delta.
       let shown = pr_text s @ delta in
       if saturating_add (length (pr_text s)) (length delta) > PRIME_RPC_STRING_BYTES_LIMIT
          \<or> prime_assistant_text message i \<noteq> Some shown
       then Inl bad else Inr (s\<lparr>pr_text := shown, pr_lifecycle := TextDelta\<rparr>))"

text \<open>The condition of the arm of \<open>text_end\<close>; the arm itself cannot fail.\<close>

definition settles_text :: "json \<Rightarrow> json \<Rightarrow> nat \<Rightarrow> prime_state \<Rightarrow> string \<Rightarrow> bool" where
  "settles_text update message i s content \<longleftrightarrow>
     content_index update = Some i \<and> content \<noteq> [] \<and> (pr_text s = [] \<or> content = pr_text s)
     \<and> prime_content_has_text_shape message i False \<and> prime_assistant_text message i = Some content"

definition message_update :: "runner_error \<Rightarrow> prime_state \<Rightarrow> json \<Rightarrow> runner_error + prime_state" where
  "message_update bad s r =
     (if \<not> has_exact_keys r [''type'', ''assistantMessageEvent'', ''message''] then Inl bad
      else
        bindE (ok_or bad (jget r ''message'')) (\<lambda>message.
        bindE (ok_or bad (jget r ''assistantMessageEvent'')) (\<lambda>update.
        if \<not> valid_prime_assistant_message message then Inl bad
        else
          (let life = pr_lifecycle s; kind = record_type update; start_keys = has_exact_keys update [''type'', ''contentIndex''];
               delta_keys = has_exact_keys update [''type'', ''contentIndex'', ''delta''];
               end_keys = has_exact_keys update [''type'', ''contentIndex'', ''content'']; i = content_index update
           in if life = AwaitThinkingOrTextStart \<and> kind = Some ''thinking_start'' \<and> start_keys \<and> i = Some 0
                 \<and> prime_content_has_shape message ThinkingEmpty
              then Inr (s\<lparr>pr_lifecycle := AwaitThinkingEnd\<rparr>)
              else if life = AwaitThinkingOrTextStart \<and> kind = Some ''text_start'' \<and> start_keys \<and> i = Some 0
                 \<and> prime_content_has_shape message EmptyText
              then Inr (s\<lparr>pr_index := Some 0, pr_lifecycle := AwaitTextDelta\<rparr>)
              else if life \<in> {AwaitThinkingEnd, ThinkingDelta} \<and> kind = Some ''thinking_delta'' \<and> delta_keys \<and> i = Some 0
                 \<and> prime_content_has_shape message Thinking
              then thinking_delta bad update message s
              else if life \<in> {AwaitThinkingEnd, ThinkingDelta} \<and> kind = Some ''thinking_end'' \<and> end_keys \<and> i = Some 0
                 \<and> prime_content_has_shape message Thinking
              then thinking_end bad update message s
              else if life = AwaitTextStart \<and> kind = Some ''text_start'' \<and> start_keys \<and> i = Some 1
                 \<and> prime_content_has_shape message ThinkingAndEmptyText
              then Inr (s\<lparr>pr_index := Some 1, pr_lifecycle := AwaitTextDelta\<rparr>)
              else if life \<in> {AwaitTextDelta, TextDelta} \<and> kind = Some ''text_delta'' \<and> delta_keys
                 \<and> opt_ex (\<lambda>place. i = Some place \<and> prime_content_has_text_shape message place False) (pr_index s)
              then text_delta bad update message (the (pr_index s)) s
              else if life \<in> {AwaitTextDelta, TextDelta} \<and> kind = Some ''text_end'' \<and> end_keys
                 \<and> opt_ex (\<lambda>place. opt_ex (settles_text update message place s) (str_field update ''content'')) (pr_index s)
              then Inr (s\<lparr>pr_text := the (str_field update ''content''), pr_lifecycle := AwaitAssistantMessageEnd\<rparr>)
              else Inl bad))))"

definition user_start :: "runner_error \<Rightarrow> prime_state \<Rightarrow> json \<Rightarrow> runner_error + prime_state" where
  "user_start bad s r =
     bindE (ok_or bad (jget r ''message'')) (\<lambda>message.
       if \<not> valid_prime_user_message message then Inl bad
       else Inr (s\<lparr>pr_user := Some message, pr_lifecycle := AwaitUserMessageEnd\<rparr>))"

definition assistant_start :: "runner_error \<Rightarrow> prime_state \<Rightarrow> json \<Rightarrow> runner_error + prime_state" where
  "assistant_start bad s r =
     bindE (ok_or bad (jget r ''message'')) (\<lambda>message.
       if \<not> valid_prime_assistant_message message \<or> \<not> prime_content_has_shape message Empty then Inl bad
       else Inr (s\<lparr>pr_lifecycle := AwaitThinkingOrTextStart\<rparr>))"

definition assistant_end :: "runner_error \<Rightarrow> prime_state \<Rightarrow> json \<Rightarrow> runner_error + prime_state" where
  "assistant_end bad s r =
     bindE (ok_or bad (jget r ''message'')) (\<lambda>message.
       if \<not> valid_prime_assistant_message message
          \<or> opt_all (\<lambda>i. prime_assistant_text message i \<noteq> Some (pr_text s)) (pr_index s)
       then Inl bad
       else Inr (s\<lparr>pr_assistant := Some message, pr_lifecycle := AwaitTurnEnd\<rparr>))"

definition turn_end :: "runner_error \<Rightarrow> prime_state \<Rightarrow> json \<Rightarrow> runner_error + prime_state" where
  "turn_end bad s r =
     (if jget r ''message'' \<noteq> pr_assistant s \<or> \<not> opt_ex empty_array (jget r ''toolResults'') then Inl bad
      else Inr (s\<lparr>pr_lifecycle := AwaitAgentEnd\<rparr>))"

definition agent_end :: "runner_error \<Rightarrow> prime_state \<Rightarrow> json \<Rightarrow> runner_error + prime_state" where
  "agent_end bad s r =
     bindE (ok_or bad (pr_user s)) (\<lambda>user.
     bindE (ok_or bad (pr_assistant s)) (\<lambda>assistant.
     bindE (ok_or bad (Option.bind (jget r ''messages'') as_array)) (\<lambda>messages.
       if messages \<noteq> [user, assistant] then Inl bad else Inr (s\<lparr>pr_lifecycle := Complete\<rparr>))))"

definition prime_record :: "prime_state \<Rightarrow> json \<Rightarrow> runner_error + prime_state" where
  "prime_record s r =
     (let bad = prime_protocol_error (pr_lifecycle s) (pr_counters s); life = pr_lifecycle s;
          message_keys = has_exact_keys r [''type'', ''message'']
      in case record_type r of
           None \<Rightarrow> Inl bad
         | Some kind \<Rightarrow>
             if kind = ''extension_ui_request'' then Inl failed_harness
             else if kind = ''agent_start'' \<and> life = AwaitAgentStart \<and> has_exact_keys r [''type'']
             then Inr (s\<lparr>pr_lifecycle := AwaitTurnStart\<rparr>)
             else if kind = ''turn_start'' \<and> life = AwaitTurnStart \<and> has_exact_keys r [''type'']
             then Inr (s\<lparr>pr_lifecycle := AwaitUserMessageStart\<rparr>)
             else if kind = ''message_start'' \<and> life = AwaitUserMessageStart \<and> message_keys then user_start bad s r
             else if kind = ''message_end'' \<and> life = AwaitUserMessageEnd \<and> message_keys
             then (if jget r ''message'' \<noteq> pr_user s then Inl bad
                   else Inr (s\<lparr>pr_lifecycle := AwaitAssistantMessageStart\<rparr>))
             else if kind = ''message_start'' \<and> life = AwaitAssistantMessageStart \<and> message_keys
             then assistant_start bad s r
             else if kind = ''message_update'' then message_update bad s r
             else if kind = ''message_end'' \<and> life = AwaitAssistantMessageEnd \<and> message_keys then assistant_end bad s r
             else if kind = ''turn_end'' \<and> life = AwaitTurnEnd
                     \<and> has_exact_keys r [''type'', ''message'', ''toolResults'']
             then turn_end bad s r
             else if kind = ''agent_end'' \<and> life = AwaitAgentEnd \<and> has_exact_keys r [''type'', ''messages'']
             then agent_end bad s r
             else Inl bad)"

definition prime_step :: "prime_state \<Rightarrow> json \<Rightarrow> runner_error + prime_state" where
  "prime_step s r = mapE (\<lambda>s'. s'\<lparr>pr_counters := accept_record r (pr_counters s')\<rparr>) (prime_record s r)"

definition zero_counters :: counters where
  "zero_counters = \<lparr>ct_accepted = 0, ct_thinking = 0, ct_text = 0, ct_saturated = False\<rparr>"

definition prime_started :: "json \<Rightarrow> prime_state" where
  "prime_started response =
     \<lparr>pr_lifecycle = AwaitAgentStart, pr_counters = accept_record response zero_counters, pr_user = None,
      pr_assistant = None, pr_thinking = [], pr_text = [], pr_index = None\<rparr>"

definition prompt_response :: "string \<Rightarrow> json \<Rightarrow> bool" where
  "prompt_response rpc_id r \<longleftrightarrow>
     has_exact_keys r [''id'', ''type'', ''command'', ''success''] \<and> record_type r = Some ''response''
     \<and> str_field r ''id'' = Some rpc_id \<and> str_field r ''command'' = Some ''prompt''"

definition normalize_prime_rpc :: "json list \<Rightarrow> string \<Rightarrow> runner_error + transport_normalization" where
  "normalize_prime_rpc records rpc_id =
     (if list_ex rich records then normalize records rpc_id False True
      else
        (let bad = prime_protocol_error AwaitPromptAck zero_counters in
         if \<not> list_all (\<lambda>r. prime_bounded_json r 0) records then Inl bad
         else case records of
                [] \<Rightarrow> Inl bad
              | response # rest \<Rightarrow>
                  if \<not> prompt_response rpc_id response then Inl bad
                  else if Option.bind (jget response ''success'') as_bool \<noteq> Some True then Inl failed_harness
                  else
                    bindE (foldE prime_step (prime_started response) rest) (\<lambda>s.
                      if pr_lifecycle s \<noteq> Complete then Inl (prime_protocol_error (pr_lifecycle s) (pr_counters s))
                      else Inr \<lparr>terminal_event = ''agent_end'', assistant_messages = [pr_text s]\<rparr>)))"

section \<open>The diagnostic of a failed_harness transport\<close>

definition error_diagnostic :: "runner_error + transport_normalization \<Rightarrow> json option" where
  "error_diagnostic result =
     (case result of
        Inr _ \<Rightarrow> None
      | Inl e \<Rightarrow> Option.bind (re_details e) (\<lambda>details. bt_get details ''adapterDiagnostic''))"

definition prime_parser_diagnostic :: "json list \<Rightarrow> string \<Rightarrow> bool \<Rightarrow> json" where
  "prime_parser_diagnostic records rpc_id framing =
     (let normalized = normalize_prime_rpc records rpc_id;
          diagnostic = (case error_diagnostic normalized of
            Some d \<Rightarrow> d
          | None \<Rightarrow>
              prime_adapter_diagnostic (case normalized of Inr _ \<Rightarrow> Complete | Inl _ \<Rightarrow> AwaitPromptAck)
                (foldl (\<lambda>c r. accept_record r c) zero_counters records) False);
          accepted = Option.bind (pointer diagnostic [''counters'', ''acceptedRecords'']) as_u64
      in if framing \<and> accepted = Some (length records)
         then set_field ''phase'' (JStr ''record-boundary'') (set_field ''stage'' (JStr ''jsonl-framing'') diagnostic)
         else diagnostic)"

section \<open>What an accepted stream says\<close>

text \<open>The kinds of the records read in a state, where the assistant message had \<open>n\<close> updates.\<close>

definition first_kinds :: "string list" where
  "first_kinds = [''agent_start'', ''turn_start'', ''message_start'', ''message_end'', ''message_start'']"

definition last_kinds :: "string list" where
  "last_kinds = [''message_end'', ''turn_end'', ''agent_end'']"

primrec kinds_at :: "prime_lifecycle \<Rightarrow> nat \<Rightarrow> string list" where
  "kinds_at AwaitPromptAck n = []"
| "kinds_at AwaitAgentStart n = []"
| "kinds_at AwaitTurnStart n = take 1 first_kinds"
| "kinds_at AwaitUserMessageStart n = take 2 first_kinds"
| "kinds_at AwaitUserMessageEnd n = take 3 first_kinds"
| "kinds_at AwaitAssistantMessageStart n = take 4 first_kinds"
| "kinds_at AwaitThinkingOrTextStart n = first_kinds @ replicate n ''message_update''"
| "kinds_at AwaitThinkingEnd n = first_kinds @ replicate n ''message_update''"
| "kinds_at ThinkingDelta n = first_kinds @ replicate n ''message_update''"
| "kinds_at AwaitTextStart n = first_kinds @ replicate n ''message_update''"
| "kinds_at AwaitTextDelta n = first_kinds @ replicate n ''message_update''"
| "kinds_at TextDelta n = first_kinds @ replicate n ''message_update''"
| "kinds_at AwaitAssistantMessageEnd n = first_kinds @ replicate n ''message_update''"
| "kinds_at AwaitTurnEnd n = first_kinds @ replicate n ''message_update'' @ take 1 last_kinds"
| "kinds_at AwaitAgentEnd n = first_kinds @ replicate n ''message_update'' @ take 2 last_kinds"
| "kinds_at Complete n = first_kinds @ replicate n ''message_update'' @ last_kinds"

definition delta_of :: "json \<Rightarrow> string" where
  "delta_of r =
     (if record_type r = Some ''message_update'' \<and> update_type r = Some ''text_delta''
      then the (str_field (jidx r ''assistantMessageEvent'') ''delta'') else [])"

definition streamed :: "json list \<Rightarrow> string" where
  "streamed records = concat (map delta_of records)"

definition text_ok :: "json list \<Rightarrow> prime_state \<Rightarrow> bool" where
  "text_ok past s \<longleftrightarrow>
     (if pr_lifecycle s \<in> {AwaitTextDelta, TextDelta} then streamed past = pr_text s
      else if pr_lifecycle s \<in> {AwaitAssistantMessageEnd, AwaitTurnEnd, AwaitAgentEnd, Complete}
      then pr_text s \<noteq> [] \<and> (streamed past = [] \<or> streamed past = pr_text s)
      else streamed past = [] \<and> pr_text s = [])"

definition message_ok :: "prime_state \<Rightarrow> bool" where
  "message_ok s \<longleftrightarrow>
     (if pr_lifecycle s \<in> {AwaitTurnEnd, AwaitAgentEnd, Complete}
      then \<exists>a i. pr_assistant s = Some a \<and> pr_index s = Some i \<and> prime_assistant_text a i = Some (pr_text s) else True)"

definition final_ok :: "json list \<Rightarrow> prime_state \<Rightarrow> bool" where
  "final_ok past s \<longleftrightarrow>
     (if pr_lifecycle s = Complete
      then \<exists>user a. pr_assistant s = Some a \<and> pr_user s = Some user \<and> past \<noteq> []
         \<and> Option.bind (jget (last past) ''messages'') as_array = Some [user, a] else True)"

lemma text_delta_cases:
  assumes "text_delta bad update message i s = Inr s'"
  obtains d where "str_field update ''delta'' = Some d" "s' = s\<lparr>pr_text := pr_text s @ d, pr_lifecycle := TextDelta\<rparr>"
  using assms unfolding text_delta_def Let_def by (auto simp: bindE_eq_Inr ok_or_eq_Inr split: if_split_asm)

lemma thinking_delta_cases:
  assumes "thinking_delta bad update message s = Inr s'"
  obtains t where "s' = s\<lparr>pr_thinking := t, pr_lifecycle := ThinkingDelta\<rparr>"
  using assms unfolding thinking_delta_def Let_def by (auto simp: bindE_eq_Inr ok_or_eq_Inr split: if_split_asm)

lemma thinking_end_cases:
  assumes "thinking_end bad update message s = Inr s'"
  obtains t where "s' = s\<lparr>pr_thinking := t, pr_lifecycle := AwaitTextStart\<rparr>"
  using assms unfolding thinking_end_def by (auto simp: bindE_eq_Inr ok_or_eq_Inr split: if_split_asm)

lemma rpc_update_cases:
  assumes "message_update bad s r = Inr s'"
  obtains (thinking) "update_type r \<noteq> Some ''text_delta''"
      "pr_lifecycle s \<in> {AwaitThinkingOrTextStart, AwaitThinkingEnd, ThinkingDelta}"
      "pr_lifecycle s' \<in> {AwaitThinkingEnd, ThinkingDelta, AwaitTextStart}" "pr_text s' = pr_text s"
  | (started) "update_type r \<noteq> Some ''text_delta''" "pr_lifecycle s \<in> {AwaitThinkingOrTextStart, AwaitTextStart}"
      "pr_lifecycle s' = AwaitTextDelta" "pr_text s' = pr_text s"
  | (delta) d where "update_type r = Some ''text_delta''" "str_field (jidx r ''assistantMessageEvent'') ''delta'' = Some d"
      "pr_lifecycle s \<in> {AwaitTextDelta, TextDelta}" "pr_lifecycle s' = TextDelta" "pr_text s' = pr_text s @ d"
  | (ended) "update_type r \<noteq> Some ''text_delta''" "pr_lifecycle s \<in> {AwaitTextDelta, TextDelta}"
      "pr_lifecycle s' = AwaitAssistantMessageEnd" "pr_text s' \<noteq> []" "pr_text s = [] \<or> pr_text s' = pr_text s"
proof -
  obtain message update where m: "jget r ''message'' = Some message" and u: "jget r ''assistantMessageEvent'' = Some update"
    using assms unfolding message_update_def by (auto simp: bindE_eq_Inr ok_or_eq_Inr split: if_split_asm)
  have kind: "record_type update = update_type r" by (simp add: update_type_def u record_type_def str_field_def split: option.split)
  have update: "jidx r ''assistantMessageEvent'' = update" by (simp add: jidx_def u)
  show ?thesis
    using assms that unfolding message_update_def m u ok_or_simps bindE_simps kind Let_def update
    by (auto split: if_split_asm elim!: text_delta_cases thinking_delta_cases thinking_end_cases simp: opt_ex_iff settles_text_def)
qed

definition plain_moves :: "(prime_lifecycle \<times> string \<times> prime_lifecycle) list" where
  "plain_moves =
     [(AwaitAgentStart, ''agent_start'', AwaitTurnStart), (AwaitTurnStart, ''turn_start'', AwaitUserMessageStart),
      (AwaitUserMessageStart, ''message_start'', AwaitUserMessageEnd), (AwaitUserMessageEnd, ''message_end'', AwaitAssistantMessageStart),
      (AwaitAssistantMessageStart, ''message_start'', AwaitThinkingOrTextStart)]"

lemma prime_record_cases:
  assumes "prime_record s r = Inr s'"
  obtains (plain) kind where "record_type r = Some kind" "(pr_lifecycle s, kind, pr_lifecycle s') \<in> set plain_moves"
      "pr_text s' = pr_text s"
  | (update) bad where "record_type r = Some ''message_update''" "message_update bad s r = Inr s'"
  | (assistant) a i where "record_type r = Some ''message_end''" "pr_lifecycle s = AwaitAssistantMessageEnd"
      "pr_lifecycle s' = AwaitTurnEnd" "pr_assistant s' = Some a" "pr_index s' = Some i"
      "prime_assistant_text a i = Some (pr_text s)" "pr_text s' = pr_text s"
  | (turn) "record_type r = Some ''turn_end''" "pr_lifecycle s = AwaitTurnEnd" "s' = s\<lparr>pr_lifecycle := AwaitAgentEnd\<rparr>"
  | (agent) user a where "record_type r = Some ''agent_end''" "pr_lifecycle s = AwaitAgentEnd" "s' = s\<lparr>pr_lifecycle := Complete\<rparr>"
      "pr_user s = Some user" "pr_assistant s = Some a" "Option.bind (jget r ''messages'') as_array = Some [user, a]"
proof (cases "record_type r")
  case None
  then show ?thesis using assms by (simp add: prime_record_def Let_def)
next
  case (Some kind)
  show ?thesis
    using assms that Some unfolding prime_record_def Let_def Some option.case
    by (auto split: if_split_asm simp: bindE_eq_Inr ok_or_eq_Inr user_start_def assistant_start_def assistant_end_def turn_end_def
        agent_end_def plain_moves_def opt_all_iff)
qed

lemma streamed_snoc: "streamed (past @ [r]) = streamed past @ delta_of r"
  by (simp add: streamed_def)

lemma delta_of_other: "record_type r \<noteq> Some ''message_update'' \<Longrightarrow> delta_of r = []"
  by (simp add: delta_of_def)

lemma record_text_ok:
  assumes "prime_record s r = Inr s'" and "text_ok past s"
  shows "text_ok (past @ [r]) s'"
  using assms(1)
proof (cases rule: prime_record_cases)
  case (plain kind)
  then show ?thesis using assms(2) delta_of_other [of r]
    by (auto simp: text_ok_def plain_moves_def streamed_snoc)
next
  case (update bad)
  from update(2) show ?thesis
  proof (cases rule: rpc_update_cases)
    case thinking
    then show ?thesis using assms(2) by (auto simp: text_ok_def streamed_snoc delta_of_def)
  next
    case started
    then show ?thesis using assms(2) by (auto simp: text_ok_def streamed_snoc delta_of_def)
  next
    case (delta d)
    then show ?thesis using assms(2) update(1) by (auto simp: text_ok_def streamed_snoc delta_of_def)
  next
    case ended
    then show ?thesis using assms(2) by (auto simp: text_ok_def streamed_snoc delta_of_def)
  qed
next
  case (assistant a i)
  then show ?thesis using assms(2) delta_of_other [of r] by (simp add: text_ok_def streamed_snoc)
next
  case turn
  then show ?thesis using assms(2) delta_of_other [of r] by (simp add: text_ok_def streamed_snoc)
next
  case (agent user a)
  then show ?thesis using assms(2) delta_of_other [of r] by (simp add: text_ok_def streamed_snoc)
qed

lemma record_message_ok:
  assumes "prime_record s r = Inr s'" and "message_ok s"
  shows "message_ok s' \<and> final_ok (past @ [r]) s'"
  using assms(1)
proof (cases rule: prime_record_cases)
  case (plain kind)
  then show ?thesis by (auto simp: message_ok_def final_ok_def plain_moves_def)
next
  case (update bad)
  from update(2) show ?thesis by (cases rule: rpc_update_cases) (auto simp: message_ok_def final_ok_def)
next
  case (assistant a i)
  then show ?thesis by (simp add: message_ok_def final_ok_def)
next
  case turn
  then show ?thesis using assms(2) by (simp add: message_ok_def final_ok_def)
next
  case (agent user a)
  then show ?thesis using assms(2) by (simp add: message_ok_def final_ok_def)
qed

definition kinds_of :: "json list \<Rightarrow> string list" where
  "kinds_of records = map (\<lambda>r. the (record_type r)) records"

definition order_ok :: "json list \<Rightarrow> prime_state \<Rightarrow> bool" where
  "order_ok past s \<longleftrightarrow> pr_lifecycle s \<noteq> AwaitPromptAck \<and> (\<exists>n. kinds_of past = kinds_at (pr_lifecycle s) n)"

lemma record_order_ok:
  assumes "prime_record s r = Inr s'" and "order_ok past s"
  shows "order_ok (past @ [r]) s'"
proof -
  obtain n where n: "kinds_of past = kinds_at (pr_lifecycle s) n" using assms(2) by (auto simp: order_ok_def)
  show ?thesis
    using assms(1)
  proof (cases rule: prime_record_cases)
    case (plain kind)
    then show ?thesis using n
      by (auto simp: order_ok_def plain_moves_def kinds_of_def first_kinds_def intro!: exI [of _ 0])
  next
    case (update bad)
    from update(2) show ?thesis
      by (cases rule: rpc_update_cases)
        (use n update(1) in \<open>auto simp: order_ok_def kinds_of_def replicate_append_same intro!: exI [of _ "Suc n"]\<close>)
  next
    case (assistant a i)
    then show ?thesis using n by (auto simp: order_ok_def kinds_of_def last_kinds_def)
  next
    case turn
    then show ?thesis using n by (auto simp: order_ok_def kinds_of_def last_kinds_def)
  next
    case (agent user a)
    then show ?thesis using n by (auto simp: order_ok_def kinds_of_def last_kinds_def)
  qed
qed

definition prime_ok :: "json list \<Rightarrow> prime_state \<Rightarrow> bool" where
  "prime_ok past s \<longleftrightarrow> text_ok past s \<and> message_ok s \<and> final_ok past s \<and> order_ok past s"

lemma prime_ok_counters: "prime_ok past (s\<lparr>pr_counters := c\<rparr>) \<longleftrightarrow> prime_ok past s"
  by (simp add: prime_ok_def text_ok_def message_ok_def final_ok_def order_ok_def)

lemma prime_step_ok:
  assumes "prime_step s r = Inr s'" and "prime_ok past s"
  shows "prime_ok (past @ [r]) s'"
proof -
  obtain t where t: "prime_record s r = Inr t" "s' = t\<lparr>pr_counters := accept_record r (pr_counters t)\<rparr>"
    using assms(1) by (auto simp: prime_step_def mapE_eq_Inr)
  have "prime_ok (past @ [r]) t"
    using record_text_ok [OF t(1)] record_message_ok [OF t(1)] record_order_ok [OF t(1)] assms(2)
    unfolding prime_ok_def by blast
  then show ?thesis unfolding t(2) prime_ok_counters .
qed

text \<open>The machine together with what it has read.\<close>

definition traced_step :: "json list \<times> prime_state \<Rightarrow> json \<Rightarrow> runner_error + (json list \<times> prime_state)" where
  "traced_step st r = mapE (Pair (fst st @ [r])) (prime_step (snd st) r)"

interpretation prime: fallible_machine traced_step "\<lambda>st. prime_ok (fst st) (snd st)"
  by unfold_locales (auto simp: traced_step_def mapE_eq_Inr intro: prime_step_ok)

lemma traced_run: "foldE traced_step (past, s) rs = mapE (Pair (past @ rs)) (foldE prime_step s rs)"
proof (induction rs arbitrary: past s)
  case (Cons r rs)
  then show ?case by (cases "prime_step s r") (simp_all add: traced_step_def)
qed simp

lemma prime_run_ok:
  assumes "foldE prime_step (prime_started response) rest = Inr s"
  shows "prime_ok rest s"
proof -
  have "prime_ok [] (prime_started response)"
    by (simp add: prime_ok_def prime_started_def text_ok_def message_ok_def final_ok_def order_ok_def streamed_def kinds_of_def)
  moreover have "foldE traced_step ([], prime_started response) rest = Inr (rest, s)" using assms by (simp add: traced_run)
  ultimately show ?thesis using prime.run_invar [of "([], prime_started response)" rest "(rest, s)"] by simp
qed

text \<open>Property C29.
  A Prime stream without native tools that is accepted is one turn, record for record: after the answer to
  the prompt the kinds of its records are the opening of a turn, the updates of the one assistant message and
  the closing of the turn.  The one text of the result is not empty; it is what the streamed text
  deltas spell, if there were any, and the text block of the assistant message with which the last record closes.\<close>

theorem prime_text_is_settled:
  assumes "normalize_prime_rpc records rpc_id = Inr result" and "\<not> list_ex rich records"
  shows "\<exists>response rest n user assistant i shown. records = response # rest
    \<and> kinds_of rest = first_kinds @ replicate n ''message_update'' @ last_kinds
    \<and> assistant_messages result = [shown] \<and> shown \<noteq> [] \<and> streamed rest \<in> {[], shown}
    \<and> Option.bind (jget (last rest) ''messages'') as_array = Some [user, assistant]
    \<and> prime_assistant_text assistant i = Some shown"
proof -
  obtain response rest s where records: "records = response # rest"
    and run: "foldE prime_step (prime_started response) rest = Inr s" and life: "pr_lifecycle s = Complete"
    and result: "assistant_messages result = [pr_text s]"
    using assms unfolding normalize_prime_rpc_def Let_def
    by (auto simp: bindE_eq_Inr split: if_split_asm list.split_asm)
  have ok: "text_ok rest s" "message_ok s" "final_ok rest s" "order_ok rest s"
    using prime_run_ok [OF run] by (simp_all add: prime_ok_def)
  obtain n where "kinds_of rest = first_kinds @ replicate n ''message_update'' @ last_kinds"
    using ok(4) life by (auto simp: order_ok_def)
  moreover have "pr_text s \<noteq> []" "streamed rest \<in> {[], pr_text s}" using ok(1) life by (auto simp: text_ok_def)
  moreover obtain user assistant i where "Option.bind (jget (last rest) ''messages'') as_array = Some [user, assistant]"
      "prime_assistant_text assistant i = Some (pr_text s)"
    using ok(2,3) life by (auto simp: message_ok_def final_ok_def)
  ultimately show ?thesis using records result by blast
qed

definition sample_user :: json where
  "sample_user = jobj [(''role'', JStr ''user''), (''content'', JArr [jobj [(''type'', JStr ''text''), (''text'', JStr ''go'')]]),
     (''timestamp'', JNum (PosInt 1))]"

definition sample_assistant :: "json list \<Rightarrow> json" where
  "sample_assistant content =
     jobj [(''role'', JStr ''assistant''), (''content'', JArr content), (''api'', JStr ''a''), (''provider'', JStr ''p''),
       (''model'', JStr ''m''), (''stopReason'', JStr ''stop''), (''timestamp'', JNum (PosInt 1)),
       (''usage'', jobj [(''input'', JNum (PosInt 0)), (''output'', JNum (PosInt 0)), (''cacheRead'', JNum (PosInt 0)),
          (''cacheWrite'', JNum (PosInt 0)), (''totalTokens'', JNum (PosInt 0)),
          (''cost'', jobj [(''input'', JNum (PosInt 0)), (''output'', JNum (PosInt 0)), (''cacheRead'', JNum (PosInt 0)),
             (''cacheWrite'', JNum (PosInt 0)), (''total'', JNum (PosInt 0))])])]"

definition sample_block :: "string \<Rightarrow> json" where
  "sample_block t = jobj [(''type'', JStr ''text''), (''text'', JStr t)]"

definition sample_update :: "(string \<times> json) list \<Rightarrow> string \<Rightarrow> json" where
  "sample_update event t =
     jobj [(''type'', JStr ''message_update''), (''assistantMessageEvent'', jobj ((''contentIndex'', JNum (PosInt 0)) # event)),
       (''message'', sample_assistant [sample_block t])]"

definition sample_message :: "string \<Rightarrow> json \<Rightarrow> json" where
  "sample_message kind message = jobj [(''type'', JStr kind), (''message'', message)]"

definition sample_response :: json where
  "sample_response = jobj [(''id'', JStr ''i''), (''type'', JStr ''response''), (''command'', JStr ''prompt''), (''success'', JBool True)]"

definition sample_turn :: "json list" where
  "sample_turn =
     [jobj [(''type'', JStr ''agent_start'')], jobj [(''type'', JStr ''turn_start'')],
      sample_message ''message_start'' sample_user, sample_message ''message_end'' sample_user,
      sample_message ''message_start'' (sample_assistant []),
      sample_update [(''type'', JStr ''text_start'')] [],
      sample_update [(''type'', JStr ''text_delta''), (''delta'', JStr ''hi'')] ''hi'',
      sample_update [(''type'', JStr ''text_end''), (''content'', JStr ''hi'')] ''hi'',
      sample_message ''message_end'' (sample_assistant [sample_block ''hi'']),
      jobj [(''type'', JStr ''turn_end''), (''message'', sample_assistant [sample_block ''hi'']), (''toolResults'', JArr [])],
      jobj [(''type'', JStr ''agent_end''), (''messages'', JArr [sample_user, sample_assistant [sample_block ''hi'']])]]"

lemma sample_zero: "nonneg_number (JNum (PosInt 0))"
  by (simp add: nonneg_number_def f64_of_nat_def)

lemma sample_user_valid: "valid_prime_user_message sample_user"
  by (simp add: valid_prime_user_message_def sample_user_def jobj_def has_exact_keys_def str_field_def nonnegative_integer_def
      PRIME_RPC_STRING_BYTES_LIMIT_def)

lemma sample_usage_valid:
  "valid_prime_usage (jobj [(''input'', JNum (PosInt 0)), (''output'', JNum (PosInt 0)), (''cacheRead'', JNum (PosInt 0)),
     (''cacheWrite'', JNum (PosInt 0)), (''totalTokens'', JNum (PosInt 0)),
     (''cost'', jobj [(''input'', JNum (PosInt 0)), (''output'', JNum (PosInt 0)), (''cacheRead'', JNum (PosInt 0)),
        (''cacheWrite'', JNum (PosInt 0)), (''total'', JNum (PosInt 0))])])"
  by (simp add: valid_prime_usage_def jobj_def has_exact_keys_def sample_zero)

lemma sample_assistant_fields:
  "jidx (sample_assistant content) ''content'' = JArr content" "jget (sample_assistant content) ''content'' = Some (JArr content)"
  by (simp_all add: sample_assistant_def jobj_def)

lemma sample_assistant_valid:
  assumes "list_all valid_prime_assistant_content content" and "length content \<le> 2"
  shows "valid_prime_assistant_message (sample_assistant content)"
  using assms sample_usage_valid
  by (simp add: valid_prime_assistant_message_def sample_assistant_def jobj_def [of "(''role'', x) # y" for x y] keys_within_def
      assistant_allowed_def assistant_required_def str_field_def nonempty_field_def nonnegative_integer_def
      PRIME_RPC_COLLECTION_LIMIT_def)

lemma sample_block_valid: "valid_prime_assistant_content (sample_block t)"
  by (simp add: valid_prime_assistant_content_def sample_block_def jobj_def str_field_def keys_within_def field_ok_def
      opt_field_ok_def is_string_def)

lemma sample_text: "prime_content_has_shape (sample_assistant [sample_block t]) Text"
    "prime_content_has_shape (sample_assistant [sample_block []]) EmptyText" "prime_content_has_shape (sample_assistant []) Empty"
    "prime_assistant_text (sample_assistant [sample_block t]) 0 = Some t"
  by (simp_all add: prime_content_has_shape_def sample_assistant_fields block_is_def sample_block_def jobj_def str_field_def
      prime_assistant_text_def prime_content_has_text_shape_def block_field_def)

definition sample_state ::
  "prime_lifecycle \<Rightarrow> json option \<Rightarrow> json option \<Rightarrow> string \<Rightarrow> nat option \<Rightarrow> counters \<Rightarrow> prime_state" where
  "sample_state life user assistant shown i c =
     \<lparr>pr_lifecycle = life, pr_counters = c, pr_user = user, pr_assistant = assistant, pr_thinking = [], pr_text = shown, pr_index = i\<rparr>"

lemma sample_step:
  "prime_record (sample_state l u a t i c) r = Inr (sample_state l' u' a' t' i' c)
    \<Longrightarrow> prime_step (sample_state l u a t i c) r = Inr (sample_state l' u' a' t' i' (accept_record r c))"
  by (simp add: prime_step_def) (simp add: sample_state_def)

lemmas sample_fields = sample_state_def prime_record_def Let_def record_type_def jobj_def has_exact_keys_def str_field_def

lemma sample_message_fields:
  "record_type (sample_message kind m) = Some kind" "has_exact_keys (sample_message kind m) [''type'', ''message'']"
  "jget (sample_message kind m) ''message'' = Some m"
  by (simp_all add: sample_message_def record_type_def jobj_def has_exact_keys_def)

lemma sample_starts:
  "prime_step (sample_state AwaitAgentStart None None [] None c) (jobj [(''type'', JStr ''agent_start'')])
    = Inr (sample_state AwaitTurnStart None None [] None (accept_record (jobj [(''type'', JStr ''agent_start'')]) c))"
  "prime_step (sample_state AwaitTurnStart None None [] None c) (jobj [(''type'', JStr ''turn_start'')])
    = Inr (sample_state AwaitUserMessageStart None None [] None (accept_record (jobj [(''type'', JStr ''turn_start'')]) c))"
  by (rule sample_step, simp add: sample_fields)+

lemma sample_messages:
  "prime_step (sample_state AwaitUserMessageStart None None [] None c) (sample_message ''message_start'' sample_user)
    = Inr (sample_state AwaitUserMessageEnd (Some sample_user) None [] None (accept_record (sample_message ''message_start'' sample_user) c))"
  "prime_step (sample_state AwaitUserMessageEnd (Some sample_user) None [] None c) (sample_message ''message_end'' sample_user)
    = Inr (sample_state AwaitAssistantMessageStart (Some sample_user) None [] None (accept_record (sample_message ''message_end'' sample_user) c))"
  "prime_step (sample_state AwaitAssistantMessageStart (Some sample_user) None [] None c) (sample_message ''message_start'' (sample_assistant []))
    = Inr (sample_state AwaitThinkingOrTextStart (Some sample_user) None [] None
        (accept_record (sample_message ''message_start'' (sample_assistant [])) c))"
  "prime_step (sample_state AwaitAssistantMessageEnd (Some sample_user) None ''hi'' (Some 0) c)
      (sample_message ''message_end'' (sample_assistant [sample_block ''hi'']))
    = Inr (sample_state AwaitTurnEnd (Some sample_user) (Some (sample_assistant [sample_block ''hi''])) ''hi'' (Some 0)
        (accept_record (sample_message ''message_end'' (sample_assistant [sample_block ''hi''])) c))"
  by (rule sample_step, simp add: sample_state_def prime_record_def sample_message_fields user_start_def assistant_start_def
      assistant_end_def sample_user_valid sample_assistant_valid sample_block_valid sample_text)+

lemma sample_update_fields:
  "record_type (sample_update event t) = Some ''message_update''"
  "has_exact_keys (sample_update event t) [''type'', ''assistantMessageEvent'', ''message'']"
  "jget (sample_update event t) ''message'' = Some (sample_assistant [sample_block t])"
  "jget (sample_update event t) ''assistantMessageEvent'' = Some (jobj ((''contentIndex'', JNum (PosInt 0)) # event))"
  by (simp_all add: sample_update_def record_type_def jobj_def [of "(''type'', x) # y" for x y] has_exact_keys_def)

lemma sample_updates:
  "prime_step (sample_state AwaitThinkingOrTextStart u None [] None c) (sample_update [(''type'', JStr ''text_start'')] [])
    = Inr (sample_state AwaitTextDelta u None [] (Some 0) (accept_record (sample_update [(''type'', JStr ''text_start'')] []) c))"
  "prime_step (sample_state AwaitTextDelta u None [] (Some 0) c) (sample_update [(''type'', JStr ''text_delta''), (''delta'', JStr ''hi'')] ''hi'')
    = Inr (sample_state TextDelta u None ''hi'' (Some 0)
        (accept_record (sample_update [(''type'', JStr ''text_delta''), (''delta'', JStr ''hi'')] ''hi'') c))"
  "prime_step (sample_state TextDelta u None ''hi'' (Some 0) c) (sample_update [(''type'', JStr ''text_end''), (''content'', JStr ''hi'')] ''hi'')
    = Inr (sample_state AwaitAssistantMessageEnd u None ''hi'' (Some 0)
        (accept_record (sample_update [(''type'', JStr ''text_end''), (''content'', JStr ''hi'')] ''hi'') c))"
  by (rule sample_step, simp add: sample_state_def prime_record_def sample_update_fields,
      simp add: message_update_def sample_update_fields Let_def sample_assistant_valid sample_block_valid,
      simp add: record_type_def jobj_def has_exact_keys_def content_index_def str_field_def saturating_add_def
      sample_text text_delta_def settles_text_def prime_content_has_text_shape_def PRIME_RPC_STRING_BYTES_LIMIT_def)+

lemma sample_ends:
  "prime_step (sample_state AwaitTurnEnd (Some sample_user) (Some m) t i c)
      (jobj [(''type'', JStr ''turn_end''), (''message'', m), (''toolResults'', JArr [])])
    = Inr (sample_state AwaitAgentEnd (Some sample_user) (Some m) t i
        (accept_record (jobj [(''type'', JStr ''turn_end''), (''message'', m), (''toolResults'', JArr [])]) c))"
  "prime_step (sample_state AwaitAgentEnd (Some sample_user) (Some m) t i c)
      (jobj [(''type'', JStr ''agent_end''), (''messages'', JArr [sample_user, m])])
    = Inr (sample_state Complete (Some sample_user) (Some m) t i
        (accept_record (jobj [(''type'', JStr ''agent_end''), (''messages'', JArr [sample_user, m])]) c))"
  by (rule sample_step, simp add: sample_state_def prime_record_def turn_end_def agent_end_def record_type_def jobj_def
      has_exact_keys_def Let_def)+

lemma sample_run:
  "\<exists>s. foldE prime_step (prime_started sample_response) sample_turn = Inr s \<and> pr_lifecycle s = Complete"
proof -
  have "prime_started sample_response = sample_state AwaitAgentStart None None [] None (accept_record sample_response zero_counters)"
    by (simp add: prime_started_def sample_state_def)
  then show ?thesis unfolding sample_turn_def
    by (simp add: sample_starts sample_messages sample_updates sample_ends) (simp add: sample_state_def)
qed

lemma sample_bounded: "list_all (\<lambda>r. prime_bounded_json r 0) (sample_response # sample_turn)"
  by (simp add: sample_response_def sample_turn_def sample_message_def sample_update_def sample_assistant_def sample_user_def
      sample_block_def jobj_def PRIME_RPC_NESTING_LIMIT_def PRIME_RPC_STRING_BYTES_LIMIT_def PRIME_RPC_COLLECTION_LIMIT_def)

lemma sample_plain: "\<not> list_ex rich (sample_response # sample_turn)"
  by (simp add: sample_response_def sample_turn_def sample_message_def sample_update_def sample_assistant_def sample_user_def
      sample_block_def jobj_def rich_def record_type_def starts_with_def)

lemma prime_text_is_settled_witness:
  "\<exists>result n. normalize_prime_rpc (sample_response # sample_turn) ''i'' = Inr result
    \<and> kinds_of sample_turn = first_kinds @ replicate n ''message_update'' @ last_kinds"
proof -
  obtain s where s: "foldE prime_step (prime_started sample_response) sample_turn = Inr s" "pr_lifecycle s = Complete"
    using sample_run by blast
  have response: "prompt_response ''i'' sample_response" "Option.bind (jget sample_response ''success'') as_bool = Some True"
    by (simp_all add: prompt_response_def sample_response_def jobj_def has_exact_keys_def record_type_def str_field_def)
  have run: "normalize_prime_rpc (sample_response # sample_turn) ''i''
      = Inr \<lparr>terminal_event = ''agent_end'', assistant_messages = [pr_text s]\<rparr>"
    using sample_plain sample_bounded response s
    unfolding normalize_prime_rpc_def by (simp add: Let_def del: list_ex_iff list.pred_inject)
  then show ?thesis using prime_text_is_settled [OF run sample_plain] by auto
qed

end
