(* ===== verification/Omp_Rpc.thy ===== *)
theory Omp_Rpc
  imports Prime_Rpc
begin

text \<open>
  The OMP transport without native tools (\<open>normalize_omp_rpc\<close> of \<open>installed_adapters.rs\<close>): the commands
  and the state the harness reports, the answer to the prompt, the lifecycle of the one turn, and the
  telemetry of the last record.
\<close>

section \<open>The last record\<close>

definition omp_counter_fields :: "string list" where
  "omp_counter_fields = [''total'', ''ok'', ''error'', ''skipped'', ''blocked'', ''timeout'', ''aborted'']"

fun ascending :: "string option \<Rightarrow> json list \<Rightarrow> bool" where
  "ascending previous [] \<longleftrightarrow> True"
| "ascending previous (v # vs) \<longleftrightarrow>
     (case as_str v of
        None \<Rightarrow> False
      | Some item \<Rightarrow> bounded_string item \<and> \<not> opt_ex (\<lambda>p. item \<le> p) previous \<and> ascending (Some item) vs)"

definition valid_sorted_string_list :: "json \<Rightarrow> bool" where
  "valid_sorted_string_list v \<longleftrightarrow>
     opt_ex (\<lambda>items. length items \<le> OMP_TERMINAL_COLLECTION_LIMIT \<and> ascending None items) (as_array v)"

definition valid_counter_map :: "json \<Rightarrow> bool" where
  "valid_counter_map v \<longleftrightarrow>
     opt_ex (\<lambda>m. length m \<le> OMP_TERMINAL_COLLECTION_LIMIT
       \<and> list_all (\<lambda>(k, n). bounded_string k \<and> nonnegative_integer n) m) (as_object v)"

definition has_count :: "json \<Rightarrow> string \<Rightarrow> bool" where
  "has_count v k = opt_ex nonnegative_integer (jget v k)"

definition has_amount :: "json \<Rightarrow> string \<Rightarrow> bool" where
  "has_amount v k = opt_ex nonneg_number (jget v k)"

definition valid_tool_counter_map :: "json \<Rightarrow> bool" where
  "valid_tool_counter_map v \<longleftrightarrow>
     opt_ex (\<lambda>m. length m \<le> OMP_TERMINAL_COLLECTION_LIMIT
       \<and> list_all (\<lambda>(k, ns). bounded_string k \<and> has_exact_keys ns (omp_counter_fields @ [''totalLatencyMs''])
            \<and> list_all (has_count ns) omp_counter_fields \<and> has_amount ns ''totalLatencyMs'') m) (as_object v)"

definition valid_chats :: "json \<Rightarrow> bool" where
  "valid_chats chats \<longleftrightarrow>
     has_exact_keys chats [''total'', ''byStopReason'', ''totalLatencyMs''] \<and> has_count chats ''total''
     \<and> has_amount chats ''totalLatencyMs'' \<and> opt_ex valid_counter_map (jget chats ''byStopReason'')"

definition valid_tools :: "json \<Rightarrow> bool" where
  "valid_tools tools \<longleftrightarrow>
     has_exact_keys tools (omp_counter_fields @ [''totalLatencyMs'', ''byName'']) \<and> list_all (has_count tools) omp_counter_fields
     \<and> has_amount tools ''totalLatencyMs'' \<and> opt_ex valid_tool_counter_map (jget tools ''byName'')"

definition valid_token_usage :: "json \<Rightarrow> bool" where
  "valid_token_usage usage \<longleftrightarrow>
     has_exact_keys usage [''inputTokens'', ''outputTokens'', ''cachedInputTokens'', ''cacheWriteTokens'',
       ''reasoningOutputTokens'', ''totalTokens'']
     \<and> opt_ex (\<lambda>m. list_all nonnegative_integer (map snd m)) (as_object usage)"

definition valid_cost :: "json \<Rightarrow> bool" where
  "valid_cost cost \<longleftrightarrow>
     has_exact_keys cost [''estimatedUsd'', ''unavailableReasons''] \<and> has_amount cost ''estimatedUsd''
     \<and> opt_ex valid_sorted_string_list (jget cost ''unavailableReasons'')"

definition valid_error_counts :: "json \<Rightarrow> bool" where
  "valid_error_counts errors \<longleftrightarrow>
     has_exact_keys errors [''total'', ''byType''] \<and> has_count errors ''total'' \<and> opt_ex valid_counter_map (jget errors ''byType'')"

definition valid_omp_telemetry :: "json \<Rightarrow> bool" where
  "valid_omp_telemetry v \<longleftrightarrow>
     has_exact_keys v [''chats'', ''tools'', ''usage'', ''cost'', ''errors'', ''stepCount'']
     \<and> valid_chats (jidx v ''chats'') \<and> valid_tools (jidx v ''tools'') \<and> valid_token_usage (jidx v ''usage'')
     \<and> valid_cost (jidx v ''cost'') \<and> valid_error_counts (jidx v ''errors'') \<and> has_count v ''stepCount''"

definition valid_omp_coverage :: "json \<Rightarrow> bool" where
  "valid_omp_coverage v \<longleftrightarrow>
     has_exact_keys v [''toolsAvailable'', ''toolsInvoked'', ''toolsUnused'', ''modelsUsed'', ''providersUsed'']
     \<and> opt_ex (\<lambda>m. list_all valid_sorted_string_list (map snd m)) (as_object v)"

definition omp_agent_end_fields :: "string list" where
  "omp_agent_end_fields = [''type'', ''messages'', ''isTerminal'', ''messageCount'', ''telemetry'', ''coverage'']"

definition is_terminal :: "json \<Rightarrow> bool option" where
  "is_terminal record = Option.bind (jget record ''isTerminal'') as_bool"

definition valid_omp_agent_end :: "json \<Rightarrow> bool" where
  "valid_omp_agent_end record \<longleftrightarrow>
     opt_ex (\<lambda>m.
       keys_within m omp_agent_end_fields
       \<and> opt_ex (\<lambda>messages.
            is_terminal record = Some True
            \<and> opt_all (\<lambda>n. opt_ex (\<lambda>n. length messages \<le> n) (as_u64 n)) (jget record ''messageCount'')
            \<and> (jget record ''telemetry'' = None \<longleftrightarrow> jget record ''coverage'' = None)
            \<and> opt_all valid_omp_telemetry (jget record ''telemetry'') \<and> opt_all valid_omp_coverage (jget record ''coverage''))
          (Option.bind (jget record ''messages'') as_array)) (as_object record)"

section \<open>The lifecycle\<close>

datatype omp_lifecycle =
    OmpAgentStart | OmpTurnStart | OmpUserStart | OmpUserEnd | OmpAssistantStart | OmpAssistantEnd | OmpTurnEnd
  | OmpAgentEnd | OmpComplete

record omp_state =
  om_lifecycle :: omp_lifecycle
  om_response :: bool
  om_commands :: bool
  om_state :: bool
  om_messages :: "string list"

definition message_role :: "json \<Rightarrow> string option" where
  "message_role record = Option.bind (pointer record [''message'', ''role'']) as_str"

definition require_message_role :: "json \<Rightarrow> string \<Rightarrow> runner_error + unit" where
  "require_message_role record expected = require (message_role record = Some expected) bad_transport"

definition get_state_response :: "omp_state \<Rightarrow> json \<Rightarrow> runner_error + omp_state" where
  "get_state_response s r =
     (let success = Option.bind (jget r ''success'') as_bool in
      if om_state s \<or> om_lifecycle s \<noteq> OmpAgentStart then Inl bad_transport
      else if success = Some False then Inl failed_harness
      else if \<not> has_exact_keys r [''id'', ''type'', ''command'', ''success'', ''data''] \<or> success \<noteq> Some True then Inl bad_transport
      else case Option.bind (pointer r [''data'', ''dumpTools'']) as_array of
             None \<Rightarrow> Inl bad_transport
           | Some tools \<Rightarrow> if tools \<noteq> [] then Inl failed_harness else Inr (s\<lparr>om_state := True\<rparr>))"

definition prompt_answer :: "string \<Rightarrow> omp_state \<Rightarrow> json \<Rightarrow> runner_error + omp_state" where
  "prompt_answer prompt_id s r =
     (if \<not> om_state s \<or> \<not> has_exact_keys r [''id'', ''type'', ''command'', ''success''] \<or> om_response s
         \<or> str_field r ''id'' \<noteq> Some prompt_id \<or> str_field r ''command'' \<noteq> Some ''prompt''
      then Inl bad_transport
      else if Option.bind (jget r ''success'') as_bool \<noteq> Some True then Inl failed_harness
      else Inr (s\<lparr>om_response := True\<rparr>))"

definition omp_response :: "string \<Rightarrow> omp_state \<Rightarrow> json \<Rightarrow> runner_error + omp_state" where
  "omp_response rpc_id s r =
     (if str_field r ''id'' = Some (omp_rpc_id rpc_id ''state.1'') \<and> str_field r ''command'' = Some ''get_state''
      then get_state_response s r else prompt_answer (omp_rpc_id rpc_id ''prompt.1'') s r)"

definition omp_message_events :: "string list" where
  "omp_message_events = [''text_start'', ''text_delta'', ''text_end'', ''thinking_start'', ''thinking_delta'', ''thinking_end'']"

definition omp_agent_end :: "omp_state \<Rightarrow> json \<Rightarrow> runner_error + omp_state" where
  "omp_agent_end s r =
     (case is_terminal r of
        None \<Rightarrow> Inl bad_transport
      | Some terminal \<Rightarrow>
          if \<not> terminal then Inl (with_detail failed_harness ''reason'' (JStr ''unsupported_nonterminal_settlement''))
          else if \<not> valid_omp_agent_end r then Inl bad_transport
          else Inr (s\<lparr>om_lifecycle := OmpComplete\<rparr>))"

definition advance :: "omp_lifecycle \<Rightarrow> string \<Rightarrow> omp_state \<Rightarrow> json \<Rightarrow> runner_error + omp_state" where
  "advance life role s r = mapE (\<lambda>_. s\<lparr>om_lifecycle := life\<rparr>) (require_message_role r role)"

definition omp_record :: "string \<Rightarrow> omp_state \<Rightarrow> json \<Rightarrow> string \<Rightarrow> runner_error + omp_state" where
  "omp_record rpc_id s r kind =
     (let life = om_lifecycle s; message_keys = has_exact_keys r [''type'', ''message''] in
      if kind = ''available_commands_update'' \<and> \<not> om_commands s \<and> life = OmpAgentStart then
        (if \<not> has_exact_keys r [''type'', ''commands''] \<or> \<not> opt_ex is_array (jget r ''commands'') then Inl bad_transport
         else Inr (s\<lparr>om_commands := True\<rparr>))
      else if kind = ''response'' then omp_response rpc_id s r
      else if kind = ''agent_start'' \<and> om_state s \<and> life = OmpAgentStart \<and> has_exact_keys r [''type'']
      then Inr (s\<lparr>om_lifecycle := OmpTurnStart\<rparr>)
      else if kind = ''turn_start'' \<and> life = OmpTurnStart \<and> has_exact_keys r [''type'']
      then Inr (s\<lparr>om_lifecycle := OmpUserStart\<rparr>)
      else if kind = ''message_start'' \<and> life = OmpUserStart \<and> message_keys then advance OmpUserEnd ''user'' s r
      else if kind = ''message_end'' \<and> life = OmpUserEnd \<and> message_keys then advance OmpAssistantStart ''user'' s r
      else if kind = ''message_start'' \<and> life = OmpAssistantStart \<and> message_keys then advance OmpAssistantEnd ''assistant'' s r
      else if kind = ''message_update'' \<and> life = OmpAssistantEnd then
        (if \<not> has_exact_keys r [''type'', ''assistantMessageEvent'', ''message'']
            \<or> \<not> opt_ex (\<lambda>event. event \<in> set omp_message_events) (update_type r)
         then Inl bad_transport else mapE (\<lambda>_. s) (require_message_role r ''assistant''))
      else if kind = ''message_end'' \<and> life = OmpAssistantEnd \<and> message_keys
      then mapE (\<lambda>texts. s\<lparr>om_messages := om_messages s @ texts, om_lifecycle := OmpTurnEnd\<rparr>) (assistant_text_content r)
      else if kind = ''turn_end'' \<and> life = OmpTurnEnd then
        (if \<not> has_exact_keys r [''type'', ''message'', ''toolResults''] \<or> \<not> opt_ex empty_array (jget r ''toolResults'')
         then Inl bad_transport else advance OmpAgentEnd ''assistant'' s r)
      else if kind = ''agent_end'' \<and> life = OmpAgentEnd then omp_agent_end s r
      else Inl bad_transport)"

definition omp_step :: "string \<Rightarrow> omp_state \<Rightarrow> json \<Rightarrow> runner_error + omp_state" where
  "omp_step rpc_id s r =
     (if record_type r = Some ''extension_ui_request'' then
        (case omp_extension_ui_disposition r of
           Presentation \<Rightarrow> Inr s | Blocked \<Rightarrow> Inl failed_harness | Malformed \<Rightarrow> Inl bad_transport)
      else if \<not> om_commands s \<and> record_type r \<noteq> Some ''available_commands_update'' then Inl bad_transport
      else case record_type r of None \<Rightarrow> Inl bad_transport | Some kind \<Rightarrow> omp_record rpc_id s r kind)"

definition omp_initial :: omp_state where
  "omp_initial = \<lparr>om_lifecycle = OmpAgentStart, om_response = False, om_commands = False, om_state = False, om_messages = []\<rparr>"

definition normalize_omp_rpc :: "json list \<Rightarrow> string \<Rightarrow> runner_error + transport_normalization" where
  "normalize_omp_rpc records rpc_id =
     (if list_ex rich records then normalize records rpc_id True True
      else case records of
             [] \<Rightarrow> Inl bad_transport
           | ready # rest \<Rightarrow>
               if \<not> valid_omp_ready ready then Inl bad_transport
               else
                 bindE (foldE (omp_step rpc_id) omp_initial rest) (\<lambda>s.
                   if \<not> om_commands s \<or> \<not> om_state s \<or> \<not> om_response s \<or> om_lifecycle s \<noteq> OmpComplete then Inl bad_transport
                   else Inr \<lparr>terminal_event = ''agent_end'', assistant_messages = om_messages s\<rparr>))"

end
