(* ===== verification/Transports.thy ===== *)
theory Transports
  imports Omp_Rpc Adapters
begin

text \<open>
  All transports of \<open>installed_adapters.rs\<close>: the choice of the normalizer (\<open>normalize_transport_mode\<close>), and
  what a running transport already admits to be shown (\<open>admitted_assistant_messages\<close>), which completes
  the records so far as if the run ended there and normalizes the result.
\<close>

definition normalize_transport_mode ::
  "installed_adapter \<Rightarrow> json list \<Rightarrow> string \<Rightarrow> bool \<Rightarrow> runner_error + transport_normalization" where
  "normalize_transport_mode adapter records rpc_id native =
     (case adapter of
        CodexExecJson \<Rightarrow> normalize_codex records
      | AgentsSdkJsonl \<Rightarrow> normalize_sdk records
      | ClaudePrintStreamJson \<Rightarrow> normalize_claude native records
      | PrimeRpc \<Rightarrow> if native then normalize_mode records rpc_id False True True else normalize_prime_rpc records rpc_id
      | OmpRpc \<Rightarrow> normalize_omp_rpc records rpc_id)"

definition normalize_transport ::
  "installed_adapter \<Rightarrow> json list \<Rightarrow> string \<Rightarrow> runner_error + transport_normalization" where
  "normalize_transport adapter records rpc_id = normalize_transport_mode adapter records rpc_id False"

definition messages_of ::
  "installed_adapter \<Rightarrow> json list \<Rightarrow> string \<Rightarrow> runner_error + string list" where
  "messages_of adapter records rpc_id = mapE assistant_messages (normalize_transport adapter records rpc_id)"

definition admitted_codex :: "json list \<Rightarrow> string \<Rightarrow> runner_error + string list" where
  "admitted_codex records rpc_id =
     (let r = last records in
      if record_type r \<noteq> Some ''item.completed'' then Inr []
      else
        bindE (ok_or bad_transport (Option.bind (jget r ''item'') as_object)) (\<lambda>m.
        if str_field (JObj m) ''type'' \<noteq> Some ''agent_message'' then Inr []
        else
          bindE (ok_or bad_transport (str_field (JObj m) ''text'')) (\<lambda>_.
            messages_of CodexExecJson (records @ [jobj [(''type'', JStr ''turn.completed'')]]) rpc_id)))"

definition admitted_claude :: "json list \<Rightarrow> string \<Rightarrow> runner_error + string list" where
  "admitted_claude records rpc_id =
     (if record_type (last records) \<noteq> Some ''assistant'' then Inr []
      else
        bindE (ok_or bad_transport (str_field (hd records) ''session_id'')) (\<lambda>session_id.
          messages_of ClaudePrintStreamJson
            (records @ [jobj [(''type'', JStr ''result''), (''subtype'', JStr ''success''), (''session_id'', JStr session_id),
               (''is_error'', JBool False)]]) rpc_id))"

definition assistant_message_end :: "json \<Rightarrow> bool" where
  "assistant_message_end r \<longleftrightarrow> record_type r = Some ''message_end'' \<and> message_role r = Some ''assistant''"

text \<open>The user message that was echoed.\<close>

definition echoed_user :: "json list \<Rightarrow> runner_error + json" where
  "echoed_user records =
     ok_or bad_transport (Option.bind (find (\<lambda>r. record_type r = Some ''message_end'' \<and> message_role r = Some ''user'') records)
       (\<lambda>r. jget r ''message''))"

definition message_end_record :: "json \<Rightarrow> json" where
  "message_end_record message = jobj [(''type'', JStr ''message_end''), (''message'', message)]"

definition turn_end_record :: "json \<Rightarrow> json" where
  "turn_end_record message = jobj [(''type'', JStr ''turn_end''), (''message'', message), (''toolResults'', JArr [])]"

definition text_end_record :: "json \<Rightarrow> nat \<Rightarrow> string \<Rightarrow> json" where
  "text_end_record message i shown =
     jobj [(''type'', JStr ''message_update''),
       (''assistantMessageEvent'', jobj [(''type'', JStr ''text_end''), (''contentIndex'', JNum (PosInt i)),
          (''content'', JStr shown)]),
       (''message'', message)]"

definition admitted_prime :: "json list \<Rightarrow> string \<Rightarrow> runner_error + string list" where
  "admitted_prime records rpc_id =
     (let r = last records;
          kind = update_type r;
          snapshot = record_type r = Some ''message_update'' \<and> (kind = Some ''text_delta'' \<or> kind = Some ''text_end'');
          ended = assistant_message_end r
      in if \<not> snapshot \<and> \<not> ended then Inr []
         else
           bindE (ok_or bad_transport (jget r ''message'')) (\<lambda>message.
           bindE (ok_or bad_transport (prime_text_index message)) (\<lambda>i.
           bindE (echoed_user records) (\<lambda>user.
           bindE (if kind = Some ''text_delta''
                  then mapE (\<lambda>shown. [text_end_record message i shown]) (ok_or bad_transport (prime_assistant_text message i))
                  else Inr []) (\<lambda>settled.
             messages_of PrimeRpc
               (records @ settled @ (if ended then [] else [message_end_record message]) @ [turn_end_record message,
                  jobj [(''type'', JStr ''agent_end''), (''messages'', JArr [user, message])]]) rpc_id)))))"

definition is_text_delta :: "json \<Rightarrow> bool" where
  "is_text_delta r \<longleftrightarrow> record_type r = Some ''message_update''
     \<and> Option.bind (pointer r [''assistantMessageEvent'', ''type'']) as_str = Some ''text_delta''"

definition delta_text :: "string \<Rightarrow> json \<Rightarrow> runner_error + string" where
  "delta_text shown r =
     mapE (\<lambda>delta. shown @ delta) (ok_or bad_transport (Option.bind (pointer r [''assistantMessageEvent'', ''delta'']) as_str))"

definition admitted_omp :: "json list \<Rightarrow> string \<Rightarrow> runner_error + string list" where
  "admitted_omp records rpc_id =
     (let r = last records; ended = assistant_message_end r in
      if \<not> is_text_delta r \<and> \<not> ended then Inr []
      else
        bindE (if ended then ok_or bad_transport (jget r ''message'')
               else mapE (\<lambda>shown. jobj [(''role'', JStr ''assistant''),
                        (''content'', JArr [jobj [(''type'', JStr ''text''), (''text'', JStr shown)]])])
                      (foldE delta_text [] (filter is_text_delta records))) (\<lambda>message.
        bindE (echoed_user records) (\<lambda>user.
          let answered = list_ex (\<lambda>r. record_type r = Some ''response'' \<and> str_field r ''command'' = Some ''prompt'') records in
          messages_of OmpRpc
            (records @ (if ended then [] else [message_end_record message]) @ [turn_end_record message,
               jobj [(''type'', JStr ''agent_end''), (''messages'', JArr [user, message]), (''isTerminal'', JBool True)]]
             @ (if answered then [] else [jobj [(''id'', JStr (omp_rpc_id rpc_id ''prompt.1'')), (''type'', JStr ''response''),
                  (''command'', JStr ''prompt''), (''success'', JBool True)]])) rpc_id)))"

definition admitted_assistant_messages ::
  "installed_adapter \<Rightarrow> json list \<Rightarrow> string \<Rightarrow> runner_error + string list" where
  "admitted_assistant_messages adapter records rpc_id =
     (if records = [] then Inr []
      else if adapter \<in> {PrimeRpc, OmpRpc} \<and> list_ex rich records
      then mapE assistant_messages (normalize records rpc_id (adapter = OmpRpc) False)
      else case adapter of
             AgentsSdkJsonl \<Rightarrow>
               (if record_type (last records) \<noteq> Some ''final'' then Inr [] else messages_of AgentsSdkJsonl records rpc_id)
           | CodexExecJson \<Rightarrow> admitted_codex records rpc_id
           | ClaudePrintStreamJson \<Rightarrow> admitted_claude records rpc_id
           | PrimeRpc \<Rightarrow> admitted_prime records rpc_id
           | OmpRpc \<Rightarrow> admitted_omp records rpc_id)"

section \<open>What is shown of a running stream\<close>

lemma messages_of_codex: "messages_of CodexExecJson records rpc_id = mapE assistant_messages (normalize_codex records)"
  by (simp add: messages_of_def normalize_transport_def normalize_transport_mode_def)

lemma messages_of_claude: "messages_of ClaudePrintStreamJson records rpc_id = mapE assistant_messages (normalize_claude False records)"
  by (simp add: messages_of_def normalize_transport_def normalize_transport_mode_def)

lemma messages_of_sdk: "messages_of AgentsSdkJsonl records rpc_id = mapE assistant_messages (normalize_sdk records)"
  by (simp add: messages_of_def normalize_transport_def normalize_transport_mode_def)

text \<open>Codex: a prefix that ends in an agent message, closed by the end of the turn, is in the grammar.\<close>

definition turn_completed :: json where "turn_completed = jobj [(''type'', JStr ''turn.completed'')]"

lemma turn_completed_fields: "record_type turn_completed = Some ''turn.completed''" "str_field turn_completed ''thread_id'' = None"
  by (simp_all add: turn_completed_def jobj_def record_type_def str_field_def)

lemma codex_grammar_prefix:
  assumes "codex_grammar (xs @ ys)" and "xs \<noteq> []" and "record_type (last xs) = Some ''item.completed''"
  shows "codex_grammar (xs @ [turn_completed]) \<and> codex_item (last xs)"
proof -
  obtain first turn items final thread_id where all: "xs @ ys = first # turn # items @ [final]"
    and first: "record_type first = Some ''thread.started''" "str_field first ''thread_id'' = Some thread_id" "thread_id \<noteq> []"
    and same: "list_all (same_thread thread_id) (turn # items @ [final])"
    and turn: "record_type turn = Some ''turn.started''" and items: "list_all codex_item items"
    and final: "record_type final = Some ''turn.completed''"
    using assms(1) unfolding codex_grammar_def by blast
  have "ys \<noteq> []"
  proof
    assume "ys = []"
    then have "last xs = final" using all by simp
    then show False using assms(3) final by simp
  qed
  then obtain zs where "xs @ zs = first # turn # items" using all by (metis append_butlast_last_id append_assoc butlast_snoc butlast_append last_snoc append_Cons)
  moreover have "xs \<noteq> [first]" "xs \<noteq> [first, turn]" using assms(3) first(1) turn by auto
  ultimately obtain items1 items2 where xs: "xs = first # turn # items1" "items = items1 @ items2"
    using assms(2) by (cases xs; cases "tl xs") auto
  have "list_all (same_thread thread_id) (turn # items1 @ [turn_completed])"
    using same xs(2) turn_completed_fields(2) by (simp add: same_thread_def)
  moreover have "list_all codex_item items1" using items xs(2) by simp
  ultimately have "codex_grammar (xs @ [turn_completed])"
    unfolding codex_grammar_def xs(1) using first turn turn_completed_fields(1) by auto
  moreover have "items1 \<noteq> []" using assms(3) turn unfolding xs(1) by auto
  then have "codex_item (last xs)" using \<open>list_all codex_item items1\<close> unfolding xs(1) by (simp add: list_all_iff)
  ultimately show ?thesis ..
qed

lemma codex_live:
  assumes "normalize_codex (xs @ ys) = Inr r" and "xs \<noteq> []"
  shows "\<exists>shown rest. admitted_codex xs rpc_id = Inr shown \<and> assistant_messages r = shown @ rest"
proof (cases "record_type (last xs) = Some ''item.completed''")
  case True
  have grammar: "codex_grammar (xs @ ys)" and r: "assistant_messages r = agent_texts (xs @ ys)"
    using assms(1) unfolding normalize_codex_iff by simp_all
  then have closed: "codex_grammar (xs @ [turn_completed])" and item: "codex_item (last xs)"
    using codex_grammar_prefix [OF grammar assms(2) True] by simp_all
  have "normalize_codex (xs @ [turn_completed])
      = Inr \<lparr>transport_normalization.terminal_event = ''turn.completed'', assistant_messages = agent_texts (xs @ [turn_completed])\<rparr>"
    using closed normalize_codex_iff by blast
  then have "messages_of CodexExecJson (xs @ [turn_completed]) rpc_id = Inr (agent_texts (xs @ [turn_completed]))"
    by (simp only: messages_of_codex mapE_simps transport_normalization.select_convs)
  then have shown: "messages_of CodexExecJson (xs @ [turn_completed]) rpc_id = Inr (agent_texts xs)"
    using turn_completed_fields(1) by (simp add: agent_text_def)
  have some: "str_field (jidx (last xs) ''item'') ''type'' \<noteq> None" using item True by (simp add: codex_item_def)
  then have object: "as_object (jidx (last xs) ''item'') \<noteq> None" using str_field_None by metis
  then obtain m where m: "jidx (last xs) ''item'' = JObj m" by auto
  then have "Option.bind (jget (last xs) ''item'') as_object = Some m"
    by (auto simp: jidx_def split: option.split_asm)
  then have unfolded: "admitted_codex xs rpc_id = (if str_field (JObj m) ''type'' \<noteq> Some ''agent_message'' then Inr []
      else bindE (ok_or bad_transport (str_field (JObj m) ''text'')) (\<lambda>_. Inr (agent_texts xs)))"
    unfolding admitted_codex_def Let_def turn_completed_def [symmetric] shown by (simp add: True)
  have "admitted_codex xs rpc_id = Inr (agent_texts xs) \<or> admitted_codex xs rpc_id = Inr []"
  proof (cases "str_field (JObj m) ''type'' = Some ''agent_message''")
    case message: True
    then obtain t where "str_field (JObj m) ''text'' = Some t" using item True unfolding codex_item_def m by auto
    then show ?thesis unfolding unfolded by simp
  qed (simp add: unfolded)
  then show ?thesis using r by auto
next
  case False
  then have "admitted_codex xs rpc_id = Inr []" by (simp add: admitted_codex_def Let_def)
  then show ?thesis by auto
qed

text \<open>The SDK sends its text only in the last record.\<close>

lemma sdk_live:
  assumes "normalize_sdk (xs @ ys) = Inr r" and "xs \<noteq> []"
  shows "\<exists>shown rest. (if record_type (last xs) \<noteq> Some ''final'' then Inr [] else messages_of AgentsSdkJsonl xs rpc_id) = Inr shown
    \<and> assistant_messages r = shown @ rest"
proof (cases "ys = []")
  case True
  then show ?thesis using assms by (simp add: messages_of_sdk)
next
  case False
  have shape: "sdk_first_ok (xs @ ys)" and mid: "list_all sdk_tool_record (take (length (xs @ ys) - 2) (drop 1 (xs @ ys)))"
    using assms(1) unfolding normalize_sdk_def by (metis sum.distinct(1))+
  have first: "record_type (hd xs) = Some ''start''"
    using shape assms(2) by (cases xs) (simp_all add: sdk_first_ok_def)
  have "record_type (last xs) \<noteq> Some ''final''"
  proof (cases "length xs = 1")
    case True
    then have "last xs = hd xs" by (cases xs) auto
    then show ?thesis using first by simp
  next
    case False
    then have long: "2 \<le> length xs" using assms(2) length_0_conv [of xs] by linarith
    have "Suc (length xs - 2) = length xs - 1" "length xs - 2 < length xs - 1" using long by simp_all
    then have "last xs = drop 1 (xs @ ys) ! (length xs - 2)"
      using long assms(2) by (simp add: last_conv_nth nth_append)
    moreover have "length xs - 2 < length (xs @ ys) - 2" using long \<open>ys \<noteq> []\<close> by (cases ys) auto
    ultimately have "last xs \<in> set (take (length (xs @ ys) - 2) (drop 1 (xs @ ys)))"
      using long nth_mem [of "length xs - 2" "take (length (xs @ ys) - 2) (drop 1 (xs @ ys))"]
      by (simp del: take_append drop_append)
    then have "sdk_tool_record (last xs)" using mid unfolding list_all_iff by blast
    then show ?thesis unfolding sdk_tool_record_def by (cases "record_type (last xs)") auto
  qed
  then show ?thesis by simp
qed

text \<open>Claude: a record is judged by itself, the first record, the one before it and whether it is the last.\<close>

lemma claude_record_cong:
  assumes "i < length xs" and "0 < i" and "ys \<noteq> []" and "zs \<noteq> []"
  shows "claude_record False (xs @ ys) sid i record = claude_record False (xs @ zs) sid i record"
proof -
  have "repeated_init False (xs @ ys) i record = repeated_init False (xs @ zs) i record"
  proof -
    have "0 < length xs" "i - 1 < length xs" using assms(1,2) by linarith+
    then have "(xs @ ys) ! 0 = (xs @ zs) ! 0" "(xs @ ys) ! (i - 1) = (xs @ zs) ! (i - 1)" by (simp_all add: nth_append)
    then show ?thesis unfolding repeated_init_def by simp
  qed
  moreover have "(False \<or> i + 1 = length (xs @ ys)) = (False \<or> i + 1 = length (xs @ zs))"
    using assms by (cases ys; cases zs; auto)
  ultimately show ?thesis unfolding claude_record_def by (simp only:)
qed

lemma claude_run_cong:
  assumes "ys \<noteq> []" and "zs \<noteq> []" and "0 < i" and "i + length ws = length xs"
  shows "foldE (claude_step False (xs @ ys) sid) (i, texts) ws = foldE (claude_step False (xs @ zs) sid) (i, texts) ws"
  using assms(3,4)
proof (induction ws arbitrary: i texts)
  case (Cons w ws)
  have "claude_step False (xs @ ys) sid (i, texts) w = claude_step False (xs @ zs) sid (i, texts) w"
    using claude_record_cong [OF _ Cons.prems(1) assms(1,2), of xs] Cons.prems(2) by (simp add: claude_step_def)
  moreover have "foldE (claude_step False (xs @ ys) sid) t ws = foldE (claude_step False (xs @ zs) sid) t ws"
    if step: "claude_step False (xs @ zs) sid (i, texts) w = Inr t" for t
  proof -
    obtain more where "t = (i + 1, more)" using step by (auto simp: claude_step_def mapE_eq_Inr)
    then show ?thesis using Cons.IH [of "i + 1" more] Cons.prems(2) by simp
  qed
  ultimately show ?case by (cases "claude_step False (xs @ zs) sid (i, texts) w") simp_all
qed simp

interpretation claude: growing_machine "claude_step native records sid" "\<lambda>_. True" snd for native records sid
  by unfold_locales (auto simp: claude_step_def mapE_eq_Inr)

definition claude_success :: "string \<Rightarrow> json" where
  "claude_success sid = jobj [(''type'', JStr ''result''), (''subtype'', JStr ''success''), (''session_id'', JStr sid),
     (''is_error'', JBool False)]"

lemma claude_success_step:
  "i + 1 = length records \<Longrightarrow> claude_step False records sid (i, texts) (claude_success sid) = Inr (i + 1, texts)"
  by (simp add: claude_step_def claude_record_def claude_success_def jobj_def record_type_def str_field_def)

lemma claude_index:
  "foldE (claude_step native records sid) (i, texts) ws = Inr (j, texts') \<Longrightarrow> j = i + length ws"
  by (induction ws arbitrary: i texts) (fastforce simp: bindE_eq_Inr claude_step_def mapE_eq_Inr)+

lemma claude_live:
  assumes "normalize_claude False (xs @ ys) = Inr r" and "xs \<noteq> []"
  shows "\<exists>shown rest. admitted_claude xs rpc_id = Inr shown \<and> assistant_messages r = shown @ rest"
proof (cases "record_type (last xs) = Some ''assistant''")
  case True
  obtain first rest where xs: "xs = first # rest" using assms(2) by (cases xs) auto
  obtain sid n texts where sid: "claude_session (xs @ ys) = Some sid"
    and run: "foldE (claude_step False (xs @ ys) sid) (1, []) (drop 1 (xs @ ys)) = Inr (n, texts)"
    and ended: "last_type (xs @ ys) = Some ''result''" and r: "assistant_messages r = texts"
    using assms(1) unfolding normalize_claude_def by (auto simp: bindE_eq_Inr split: option.split_asm if_split_asm)
  have ys: "ys \<noteq> []" using ended True assms(2) by (auto simp: last_type_def)
  have full: "foldE (claude_step False (xs @ ys) sid) (1, []) (rest @ ys) = Inr (n, texts)" using run unfolding xs by simp
  then obtain t more where part: "foldE (claude_step False (xs @ ys) sid) (1, []) rest = Inr t" and texts: "texts = snd t @ more"
    using claude.run_out_prefix [OF TrueI full] by auto
  have t: "t = (length xs, snd t)" using claude_index [of False "xs @ ys" sid 1 "[]" rest "fst t" "snd t"] part unfolding xs
    by (cases t) simp
  let ?records = "xs @ [claude_success sid]"
  have session: "claude_session ?records = Some sid" using sid unfolding xs claude_session_def by simp
  have "foldE (claude_step False ?records sid) (1, []) rest = Inr t"
    using claude_run_cong [of "[claude_success sid]" ys 1 rest xs sid "[]"] ys part unfolding xs by simp
  moreover have "claude_step False ?records sid t (claude_success sid) = Inr (length xs + 1, snd t)"
    using claude_success_step [of "length xs" ?records sid "snd t"] t by simp
  ultimately have "foldE (claude_step False ?records sid) (1, []) (drop 1 ?records) = Inr (length xs + 1, snd t)"
    unfolding xs by (simp add: foldE_append)
  moreover have "last_type ?records = Some ''result''"
    by (simp add: last_type_def claude_success_def jobj_def record_type_def)
  ultimately have "normalize_claude False ?records
      = Inr \<lparr>transport_normalization.terminal_event = ''result(subtype=success,is_error=false)'', assistant_messages = snd t\<rparr>"
    using session unfolding normalize_claude_def by simp
  then have "messages_of ClaudePrintStreamJson ?records rpc_id = Inr (snd t)" by (simp add: messages_of_claude)
  moreover have "str_field (hd xs) ''session_id'' = Some sid"
    using sid unfolding xs claude_session_def by (simp split: if_split_asm)
  ultimately have "admitted_claude xs rpc_id = Inr (snd t)"
    unfolding admitted_claude_def True claude_success_def by simp
  then show ?thesis using r texts by auto
qed (simp add: admitted_claude_def)

text \<open>Property C30.
  What is shown of a running Codex, Claude or SDK stream is never taken back.  If a record stream is
  accepted in the end, then every nonempty part of it read so far is projected without an error, and the
  messages shown are the first messages of the final result.\<close>

theorem live_messages_are_final:
  assumes "normalize_transport adapter (xs @ ys) rpc_id = Inr r" and "xs \<noteq> []"
    and "adapter \<in> {CodexExecJson, ClaudePrintStreamJson, AgentsSdkJsonl}"
  shows "\<exists>shown rest. admitted_assistant_messages adapter xs rpc_id = Inr shown \<and> assistant_messages r = shown @ rest"
proof -
  have run: "normalize_transport_mode adapter (xs @ ys) rpc_id False = Inr r" using assms(1) by (simp add: normalize_transport_def)
  consider "adapter = CodexExecJson" | "adapter = ClaudePrintStreamJson" | "adapter = AgentsSdkJsonl" using assms(3) by blast
  then show ?thesis
  proof cases
    case 1
    then show ?thesis using run assms(2) codex_live
      by (simp add: normalize_transport_mode_def admitted_assistant_messages_def)
  next
    case 2
    then show ?thesis using run assms(2) claude_live
      by (simp add: normalize_transport_mode_def admitted_assistant_messages_def)
  next
    case 3
    then show ?thesis using run assms(2) sdk_live
      by (simp add: normalize_transport_mode_def admitted_assistant_messages_def)
  qed
qed

definition sample_codex :: "json list" where
  "sample_codex =
     [jobj [(''type'', JStr ''thread.started''), (''thread_id'', JStr ''t'')], jobj [(''type'', JStr ''turn.started'')],
      jobj [(''type'', JStr ''item.completed''), (''item'', jobj [(''type'', JStr ''agent_message''), (''text'', JStr ''hi'')])]]"

lemma live_messages_are_final_witness:
  "\<exists>r shown rest. normalize_transport CodexExecJson (sample_codex @ [jobj [(''type'', JStr ''turn.completed'')]]) ''i'' = Inr r
    \<and> admitted_assistant_messages CodexExecJson sample_codex ''i'' = Inr shown \<and> assistant_messages r = shown @ rest"
proof -
  have "normalize_transport CodexExecJson (sample_codex @ [jobj [(''type'', JStr ''turn.completed'')]]) ''i''
      = Inr \<lparr>transport_normalization.terminal_event = ''turn.completed'', assistant_messages = [''hi'']\<rparr>"
    by code_simp
  moreover have "sample_codex \<noteq> []" by (simp add: sample_codex_def)
  ultimately show ?thesis using live_messages_are_final [of CodexExecJson sample_codex "[jobj [(''type'', JStr ''turn.completed'')]]" "''i''"] by auto
qed

end
