(* ===== verification/Image.thy ===== *)
theory Image
  imports Errors
begin

text \<open>
  The Skill Runtime Image (\<open>image.rs\<close>): a manifest and the files it names, verified before any byte of
  them is used.  \<open>load\<close> reads a directory, \<open>from_embedded\<close> the files compiled into the runner.  The
  decoder of the manifest (\<open>serde_json\<close>) and the digest (\<open>sha2\<close>) are fields of the record
  \<open>image_lib\<close>, with two renderings of the standard library that only error texts use; the file system
  is the record \<open>file_system\<close>.  Bytes are a \<open>string\<close>.
\<close>

section \<open>The manifest\<close>

record image_normalization =
  no_encoding :: string
  no_newlines :: string
  no_byte_order_mark :: string
  no_path_separator :: string

record payload_entry =
  pe_path :: string
  pe_media_type :: string
  pe_byte_length :: nat
  pe_sha256 :: string

record aggregate_digest =
  ad_algorithm :: string
  ad_sha256 :: string

record model_visible =
  mv_serialization :: string
  mv_byte_length :: nat
  mv_sha256 :: string

record instruction_placement =
  ip_id :: string
  ip_strictness :: string
  ip_preserves_harness_base_prompt :: bool

record external_artifact =
  ea_schema_id :: string
  ea_path :: string
  ea_sha256 :: string

record framing_artifact =
  fa_id :: string
  fa_path :: string
  fa_sha256 :: string

record transport_requirements =
  tr_non_interactive :: string
  tr_structured_output :: string
  tr_ambient_isolation :: string
  tr_terminal_envelope :: string
  tr_bounded_streaming :: string

record image_manifest =
  im_schema :: string
  im_image_format_version :: string
  im_image_version :: string
  im_language_version :: string
  im_skill_version :: string
  im_runtime_contract_version :: string
  im_semantic_source_revision :: string
  im_purpose :: string
  im_release_eligible :: bool
  im_normalization :: image_normalization
  im_payload :: "payload_entry list"
  im_aggregate_sha256 :: aggregate_digest
  im_model_visible_bytes :: model_visible
  im_instruction_placements :: "instruction_placement list"
  im_task_envelope :: external_artifact
  im_one_field_framing :: framing_artifact
  im_terminal_envelope :: external_artifact
  im_minimum_transport_requirements :: transport_requirements

record image_entry =
  ie_path :: string
  ie_bytes :: string

record runtime_image =
  ri_manifest :: image_manifest
  ri_manifest_bytes :: string
  ri_payload :: "image_entry list"
  ri_task_envelope_schema :: string
  ri_one_field_framing :: string
  ri_terminal_envelope_schema :: string

definition max_manifest_bytes :: nat where "max_manifest_bytes = 1048576"
definition max_entry_bytes :: nat where "max_entry_bytes = 16777216"
definition max_image_bytes :: nat where "max_image_bytes = 67108864"

section \<open>The libraries and the file system\<close>

record image_lib =
  lib_manifest :: "string \<Rightarrow> string + image_manifest"
  lib_sha256 :: "string \<Rightarrow> string"
  lib_debug :: "string \<Rightarrow> string"
  lib_utf8_error :: "string \<Rightarrow> string"

record file_system =
  fs_canonicalize :: "string \<Rightarrow> string + string"
  fs_length :: "string \<Rightarrow> string + nat"
  fs_read :: "string \<Rightarrow> string + string"
  fs_display :: "string \<Rightarrow> string"

definition image_error :: "string \<Rightarrow> runner_error" where
  "image_error message = with_detail (catalog ImageInvalid) ''reason'' (JStr message)"

definition image_size_error :: "string \<Rightarrow> runner_error" where
  "image_size_error message = with_detail (catalog ImageTooLarge) ''reason'' (JStr message)"

definition digest_to_hex :: "string \<Rightarrow> string" where
  "digest_to_hex bytes =
     concat (map (\<lambda>b. map char_of [hex_lower (code b div 16), hex_lower (code b mod 16)]) bytes)"

definition sha256_hex :: "image_lib \<Rightarrow> string \<Rightarrow> string" where
  "sha256_hex lib bytes = digest_to_hex (lib_sha256 lib bytes)"

section \<open>Paths\<close>

datatype path_component = RootDir | CurDir | ParentDir | Normal string

text \<open>\<open>Path::components\<close>: empty pieces and inner dots vanish.\<close>

definition path_pieces :: "string \<Rightarrow> string list" where
  "path_pieces path = split_on (\<lambda>c. c = CHR ''/'') path"

definition path_components :: "string \<Rightarrow> path_component list" where
  "path_components path =
     (if starts_with ''/'' path then [RootDir] else if hd (path_pieces path) = ''.'' then [CurDir] else [])
     @ map (\<lambda>piece. if piece = ''..'' then ParentDir else Normal piece)
         (filter (\<lambda>piece. piece \<noteq> [] \<and> piece \<noteq> ''.'') (path_pieces path))"

text \<open>\<open>Path::join\<close> with a relative path.\<close>

definition path_join :: "string \<Rightarrow> string \<Rightarrow> string" where
  "path_join base relative =
     (if base = [] \<or> ends_with ''/'' base then base @ relative else base @ ''/'' @ relative)"

definition path_starts_with :: "string \<Rightarrow> string \<Rightarrow> bool" where
  "path_starts_with path base = starts_with (path_components base) (path_components path)"

definition validate_relative_path :: "image_lib \<Rightarrow> string \<Rightarrow> string \<Rightarrow> runner_error + unit" where
  "validate_relative_path lib path prefix =
     (if \<not> starts_with prefix path \<or> CHR 0x5C \<in> set path
      then Inl (image_error (''invalid image-relative path '' @ lib_debug lib path))
      else if list_ex (\<lambda>part. case part of Normal _ \<Rightarrow> False | _ \<Rightarrow> True) (path_components path)
      then Inl (image_error (''invalid image-relative path '' @ lib_debug lib path))
      else Inr ())"

definition validate_text_bytes :: "image_lib \<Rightarrow> string \<Rightarrow> string \<Rightarrow> runner_error + unit" where
  "validate_text_bytes lib path bytes =
     (if starts_with [CHR 0xEF, CHR 0xBB, CHR 0xBF] bytes
      then Inl (image_error (''image entry '' @ lib_debug lib path @ '' contains a byte-order mark''))
      else if \<not> valid_utf8 bytes
      then Inl (image_error (''image entry '' @ lib_debug lib path @ '' is not UTF-8: '' @ lib_utf8_error lib bytes))
      else if contains_str [CR, LF] bytes \<or> CR \<in> set bytes
      then Inl (image_error (''image entry '' @ lib_debug lib path @ '' does not use LF newlines''))
      else Inr ())"

section \<open>Metadata\<close>

definition check_requirement :: "string \<times> string \<Rightarrow> runner_error + unit" where
  "check_requirement named =
     (if snd named \<noteq> ''required''
      then Inl (image_error (''minimum transport requirement '' @ fst named @ '' must be `required`''))
      else Inr ())"

definition validate_manifest_metadata :: "image_lib \<Rightarrow> image_manifest \<Rightarrow> runner_error + unit" where
  "validate_manifest_metadata lib manifest =
     (if im_schema manifest \<noteq> ''openprose.skill-runtime-image-manifest/1''
         \<or> im_image_format_version manifest \<noteq> ''openprose.skill-runtime-image/1''
      then Inl (image_error ''unsupported Skill Runtime Image format'')
      else if im_payload manifest = []
      then Inl (image_error ''image payload must contain at least one entry'')
      else if ad_algorithm (im_aggregate_sha256 manifest) \<noteq> ''sha256-path-length-nul-v1''
      then Inl (image_error (''unsupported aggregate algorithm ''
                  @ lib_debug lib (ad_algorithm (im_aggregate_sha256 manifest))))
      else if mv_serialization (im_model_visible_bytes manifest) \<noteq> ''ordered-raw-concatenation-v1''
      then Inl (image_error ''unsupported model-visible image serialization'')
      else if no_encoding (im_normalization manifest) \<noteq> ''utf-8''
         \<or> no_newlines (im_normalization manifest) \<noteq> ''lf''
         \<or> no_byte_order_mark (im_normalization manifest) \<noteq> ''forbidden''
         \<or> no_path_separator (im_normalization manifest) \<noteq> ''/''
      then Inl (image_error ''unsupported image normalization profile'')
      else bindE (traverseE check_requirement
             (let r = im_minimum_transport_requirements manifest in
              [(''nonInteractive'', tr_non_interactive r), (''structuredOutput'', tr_structured_output r),
               (''ambientIsolation'', tr_ambient_isolation r), (''terminalEnvelope'', tr_terminal_envelope r),
               (''boundedStreaming'', tr_bounded_streaming r)])) (\<lambda>_.
        if im_instruction_placements manifest = []
        then Inl (image_error ''image declares no instruction placements'')
        else Inr ()))"

section \<open>The payload\<close>

record image_scan =
  sc_aggregate :: string
  sc_total_bytes :: nat
  sc_seen :: "string set"
  sc_payload :: "image_entry list"

definition empty_scan :: image_scan where
  "empty_scan = \<lparr>sc_aggregate = [], sc_total_bytes = 0, sc_seen = {}, sc_payload = []\<rparr>"

text \<open>What is hashed for an entry: path, length and bytes, each closed by a NUL.\<close>

definition NUL :: char where "NUL = CHR 0x00"

definition framed_entry :: "string \<Rightarrow> string \<Rightarrow> string" where
  "framed_entry path bytes = path @ [NUL] @ decimal (length bytes) @ [NUL] @ bytes @ [NUL]"

text \<open>The common end of both loops: declared length, digest, text, then the update of the scan.\<close>

definition settle_entry ::
  "image_lib \<Rightarrow> payload_entry \<Rightarrow> string \<Rightarrow> image_scan \<Rightarrow> runner_error + image_scan" where
  "settle_entry lib declared bytes scan =
     (if length bytes \<noteq> pe_byte_length declared
      then Inl (image_error (''image entry '' @ lib_debug lib (pe_path declared) @ '' length mismatch: declared ''
                  @ decimal (pe_byte_length declared) @ '', observed '' @ decimal (length bytes)))
      else if sha256_hex lib bytes \<noteq> pe_sha256 declared
      then Inl (image_error (''image entry '' @ lib_debug lib (pe_path declared) @ '' digest mismatch: expected ''
                  @ pe_sha256 declared @ '', observed '' @ sha256_hex lib bytes))
      else bindE (validate_text_bytes lib (pe_path declared) bytes) (\<lambda>_.
        Inr (scan\<lparr>sc_aggregate := sc_aggregate scan @ framed_entry (pe_path declared) bytes,
                  sc_payload := sc_payload scan @ [\<lparr>ie_path = pe_path declared, ie_bytes = bytes\<rparr>]\<rparr>)))"

definition check_declared :: "image_lib \<Rightarrow> image_scan \<Rightarrow> payload_entry \<Rightarrow> runner_error + image_scan" where
  "check_declared lib scan declared =
     bindE (validate_relative_path lib (pe_path declared) ''payload/'') (\<lambda>_.
       if pe_path declared \<in> sc_seen scan
       then Inl (image_error (''duplicate image payload path '' @ lib_debug lib (pe_path declared)))
       else Inr (scan\<lparr>sc_seen := insert (pe_path declared) (sc_seen scan)\<rparr>))"

definition read_bounded :: "file_system \<Rightarrow> string \<Rightarrow> string \<Rightarrow> nat \<Rightarrow> runner_error + string" where
  "read_bounded fs base path maximum =
     (case fs_canonicalize fs path of
        Inl e \<Rightarrow> Inl (image_error (''cannot resolve image file '' @ fs_display fs path @ '': '' @ e))
      | Inr canonical \<Rightarrow>
          if \<not> path_starts_with canonical base
          then Inl (image_error (''image path '' @ fs_display fs path @ '' escapes its image root''))
          else case fs_length fs canonical of
                 Inl e \<Rightarrow> Inl (image_error (''cannot inspect image file '' @ fs_display fs path @ '': '' @ e))
               | Inr n \<Rightarrow>
                   if maximum < n
                   then Inl (image_size_error (''image file '' @ fs_display fs path @ '' is '' @ decimal n
                               @ '' bytes; maximum is '' @ decimal maximum))
                   else case fs_read fs canonical of
                          Inl e \<Rightarrow> Inl (image_error (''cannot read image file '' @ fs_display fs path @ '': '' @ e))
                        | Inr bytes \<Rightarrow> Inr bytes)"

definition load_entry ::
  "image_lib \<Rightarrow> file_system \<Rightarrow> string \<Rightarrow> image_scan \<Rightarrow> payload_entry \<Rightarrow> runner_error + image_scan" where
  "load_entry lib fs base scan declared =
     bindE (check_declared lib scan declared) (\<lambda>scan.
       if max_entry_bytes < pe_byte_length declared
       then Inl (image_size_error (''image entry '' @ lib_debug lib (pe_path declared) @ '' declares ''
                   @ decimal (pe_byte_length declared) @ '' bytes; maximum is '' @ decimal max_entry_bytes))
       else bindE (read_bounded fs base (path_join base (pe_path declared)) max_entry_bytes) (\<lambda>bytes.
         case checked_add (sc_total_bytes scan) (length bytes) of
           None \<Rightarrow> Inl (image_size_error ''image aggregate length overflow'')
         | Some total_bytes \<Rightarrow>
             if max_image_bytes < total_bytes
             then Inl (image_size_error (''image payload exceeds the '' @ decimal max_image_bytes
                         @ ''-byte aggregate limit''))
             else settle_entry lib declared bytes (scan\<lparr>sc_total_bytes := total_bytes\<rparr>)))"

type_synonym embedded_files = "(string \<times> string) list"

definition embedded_lookup :: "image_lib \<Rightarrow> embedded_files \<Rightarrow> string \<Rightarrow> runner_error + string" where
  "embedded_lookup lib files path =
     ok_or (image_error (''embedded image file '' @ lib_debug lib path @ '' is missing''))
       (find_map (\<lambda>(candidate, bytes). if candidate = path then Some bytes else None) files)"

definition embedded_entry ::
  "image_lib \<Rightarrow> embedded_files \<Rightarrow> image_scan \<Rightarrow> payload_entry \<Rightarrow> runner_error + image_scan" where
  "embedded_entry lib files scan declared =
     bindE (check_declared lib scan declared) (\<lambda>scan.
     bindE (embedded_lookup lib files (pe_path declared)) (\<lambda>bytes.
       if max_entry_bytes < length bytes
       then Inl (image_size_error (''embedded image entry '' @ lib_debug lib (pe_path declared)
                   @ '' exceeds its size limit''))
       else case checked_add (sc_total_bytes scan) (length bytes) of
              None \<Rightarrow> Inl (image_size_error ''image aggregate length overflow'')
            | Some total_bytes \<Rightarrow>
                if max_image_bytes < total_bytes
                then Inl (image_size_error ''embedded image exceeds its aggregate size limit'')
                else settle_entry lib declared bytes (scan\<lparr>sc_total_bytes := total_bytes\<rparr>)))"

definition model_visible_bytes :: "image_entry list \<Rightarrow> string" where
  "model_visible_bytes payload = concat (map ie_bytes payload)"

definition validate_model_visible_bytes ::
  "image_lib \<Rightarrow> image_manifest \<Rightarrow> image_entry list \<Rightarrow> runner_error + unit" where
  "validate_model_visible_bytes lib manifest payload =
     (let bytes = model_visible_bytes payload; visible = im_model_visible_bytes manifest in
      if length bytes \<noteq> mv_byte_length visible
      then Inl (image_error (''model-visible image length mismatch: expected '' @ decimal (mv_byte_length visible)
                  @ '', observed '' @ decimal (length bytes)))
      else if sha256_hex lib bytes \<noteq> mv_sha256 visible
      then Inl (image_error (''model-visible image digest mismatch: expected '' @ mv_sha256 visible
                  @ '', observed '' @ sha256_hex lib bytes))
      else Inr ())"

definition check_aggregate :: "image_lib \<Rightarrow> image_manifest \<Rightarrow> image_scan \<Rightarrow> runner_error + image_entry list" where
  "check_aggregate lib manifest scan =
     (let observed = digest_to_hex (lib_sha256 lib (sc_aggregate scan));
          expected = ad_sha256 (im_aggregate_sha256 manifest) in
      if observed \<noteq> expected
      then Inl (image_error (''image aggregate digest mismatch: expected '' @ expected @ '', observed '' @ observed))
      else bindE (validate_model_visible_bytes lib manifest (sc_payload scan)) (\<lambda>_. Inr (sc_payload scan)))"

section \<open>The contracts\<close>

definition check_external :: "image_lib \<Rightarrow> string \<Rightarrow> string \<Rightarrow> string \<Rightarrow> runner_error + string" where
  "check_external lib path expected bytes =
     (if sha256_hex lib bytes \<noteq> expected
      then Inl (image_error (''image artifact '' @ lib_debug lib path @ '' digest mismatch: expected '' @ expected
                  @ '', observed '' @ sha256_hex lib bytes))
      else Inr bytes)"

definition load_external ::
  "image_lib \<Rightarrow> file_system \<Rightarrow> string \<Rightarrow> string \<Rightarrow> string \<Rightarrow> runner_error + string" where
  "load_external lib fs base relative expected =
     bindE (validate_relative_path lib relative ''contracts/'') (\<lambda>_.
     bindE (read_bounded fs base (path_join base relative) max_entry_bytes) (check_external lib relative expected))"

definition embedded_external :: "image_lib \<Rightarrow> embedded_files \<Rightarrow> string \<Rightarrow> string \<Rightarrow> runner_error + string" where
  "embedded_external lib files path expected =
     bindE (validate_relative_path lib path ''contracts/'') (\<lambda>_.
     bindE (embedded_lookup lib files path) (check_external lib path expected))"

definition assemble_image ::
  "(string \<Rightarrow> string \<Rightarrow> runner_error + string) \<Rightarrow> image_manifest \<Rightarrow> string \<Rightarrow> image_entry list
    \<Rightarrow> runner_error + runtime_image" where
  "assemble_image external manifest manifest_bytes payload =
     bindE (external (ea_path (im_task_envelope manifest)) (ea_sha256 (im_task_envelope manifest))) (\<lambda>task.
     bindE (external (fa_path (im_one_field_framing manifest)) (fa_sha256 (im_one_field_framing manifest))) (\<lambda>framing.
     bindE (external (ea_path (im_terminal_envelope manifest)) (ea_sha256 (im_terminal_envelope manifest))) (\<lambda>terminal.
       Inr \<lparr>ri_manifest = manifest, ri_manifest_bytes = manifest_bytes, ri_payload = payload,
            ri_task_envelope_schema = task, ri_one_field_framing = framing,
            ri_terminal_envelope_schema = terminal\<rparr>)))"

definition load_image :: "image_lib \<Rightarrow> file_system \<Rightarrow> string \<Rightarrow> runner_error + runtime_image" where
  "load_image lib fs given =
     (case fs_canonicalize fs given of
        Inl e \<Rightarrow> Inl (image_error (''cannot resolve image root '' @ fs_display fs given @ '': '' @ e))
      | Inr base \<Rightarrow>
          let manifest_path = path_join base ''manifest.json'' in
          bindE (read_bounded fs base manifest_path max_manifest_bytes) (\<lambda>manifest_bytes.
            case lib_manifest lib manifest_bytes of
              Inl e \<Rightarrow> Inl (image_error (''invalid image manifest '' @ fs_display fs manifest_path @ '': '' @ e))
            | Inr manifest \<Rightarrow>
                bindE (validate_manifest_metadata lib manifest) (\<lambda>_.
                bindE (foldE (load_entry lib fs base) empty_scan (im_payload manifest)) (\<lambda>scan.
                bindE (check_aggregate lib manifest scan)
                  (assemble_image (load_external lib fs base) manifest manifest_bytes)))))"

definition from_embedded :: "image_lib \<Rightarrow> string \<Rightarrow> embedded_files \<Rightarrow> runner_error + runtime_image" where
  "from_embedded lib manifest_bytes files =
     (if max_manifest_bytes < length manifest_bytes
      then Inl (image_size_error ''embedded image manifest exceeds its size limit'')
      else case lib_manifest lib manifest_bytes of
             Inl e \<Rightarrow> Inl (image_error (''invalid embedded image manifest: '' @ e))
           | Inr manifest \<Rightarrow>
               bindE (validate_manifest_metadata lib manifest) (\<lambda>_.
               bindE (foldE (embedded_entry lib files) empty_scan (im_payload manifest)) (\<lambda>scan.
               bindE (check_aggregate lib manifest scan)
                 (assemble_image (embedded_external lib files) manifest manifest_bytes))))"

definition image_aggregate_sha256 :: "runtime_image \<Rightarrow> string" where
  "image_aggregate_sha256 img = ad_sha256 (im_aggregate_sha256 (ri_manifest img))"

definition image_model_visible_bytes :: "runtime_image \<Rightarrow> string" where
  "image_model_visible_bytes img = model_visible_bytes (ri_payload img)"


section \<open>What a verified image is\<close>

definition image_relative :: "string \<Rightarrow> string \<Rightarrow> bool" where
  "image_relative prefix path \<longleftrightarrow>
     starts_with prefix path \<and> CHR 0x5C \<notin> set path
     \<and> (\<forall>part \<in> set (path_components path). \<exists>name. part = Normal name)"

definition plain_text :: "string \<Rightarrow> bool" where
  "plain_text bytes \<longleftrightarrow>
     \<not> starts_with [CHR 0xEF, CHR 0xBB, CHR 0xBF] bytes \<and> valid_utf8 bytes \<and> CR \<notin> set bytes"

definition supported_manifest :: "image_manifest \<Rightarrow> bool" where
  "supported_manifest m \<longleftrightarrow>
     im_schema m = ''openprose.skill-runtime-image-manifest/1''
     \<and> im_image_format_version m = ''openprose.skill-runtime-image/1''
     \<and> im_payload m \<noteq> [] \<and> im_instruction_placements m \<noteq> []
     \<and> ad_algorithm (im_aggregate_sha256 m) = ''sha256-path-length-nul-v1''
     \<and> mv_serialization (im_model_visible_bytes m) = ''ordered-raw-concatenation-v1''
     \<and> im_normalization m = \<lparr>no_encoding = ''utf-8'', no_newlines = ''lf'', no_byte_order_mark = ''forbidden'',
          no_path_separator = ''/''\<rparr>
     \<and> im_minimum_transport_requirements m = \<lparr>tr_non_interactive = ''required'',
          tr_structured_output = ''required'', tr_ambient_isolation = ''required'',
          tr_terminal_envelope = ''required'', tr_bounded_streaming = ''required''\<rparr>"

definition entry_verified :: "image_lib \<Rightarrow> payload_entry \<Rightarrow> image_entry \<Rightarrow> bool" where
  "entry_verified lib d e \<longleftrightarrow>
     ie_path e = pe_path d \<and> image_relative ''payload/'' (ie_path e)
     \<and> length (ie_bytes e) = pe_byte_length d \<and> length (ie_bytes e) \<le> max_entry_bytes
     \<and> sha256_hex lib (ie_bytes e) = pe_sha256 d \<and> plain_text (ie_bytes e)"

definition framing_of :: "image_entry list \<Rightarrow> string" where
  "framing_of payload = concat (map (\<lambda>e. framed_entry (ie_path e) (ie_bytes e)) payload)"

definition payload_length :: "image_entry list \<Rightarrow> nat" where
  "payload_length payload = length (model_visible_bytes payload)"

definition contract_verified :: "image_lib \<Rightarrow> string \<Rightarrow> string \<Rightarrow> string \<Rightarrow> bool" where
  "contract_verified lib path expected bytes \<longleftrightarrow>
     image_relative ''contracts/'' path \<and> sha256_hex lib bytes = expected"

definition image_verified :: "image_lib \<Rightarrow> runtime_image \<Rightarrow> bool" where
  "image_verified lib img \<longleftrightarrow>
     (let m = ri_manifest img; payload = ri_payload img in
      lib_manifest lib (ri_manifest_bytes img) = Inr m \<and> supported_manifest m
      \<and> list_all2 (entry_verified lib) (im_payload m) payload
      \<and> distinct (map ie_path payload) \<and> payload_length payload \<le> max_image_bytes
      \<and> sha256_hex lib (framing_of payload) = ad_sha256 (im_aggregate_sha256 m)
      \<and> payload_length payload = mv_byte_length (im_model_visible_bytes m)
      \<and> sha256_hex lib (model_visible_bytes payload) = mv_sha256 (im_model_visible_bytes m)
      \<and> contract_verified lib (ea_path (im_task_envelope m)) (ea_sha256 (im_task_envelope m))
           (ri_task_envelope_schema img)
      \<and> contract_verified lib (fa_path (im_one_field_framing m)) (fa_sha256 (im_one_field_framing m))
           (ri_one_field_framing img)
      \<and> contract_verified lib (ea_path (im_terminal_envelope m)) (ea_sha256 (im_terminal_envelope m))
           (ri_terminal_envelope_schema img))"

text \<open>The bytes of an image come from \<open>source\<close>, a partial map from the paths the manifest names.\<close>

definition made_of :: "(string \<Rightarrow> string option) \<Rightarrow> runtime_image \<Rightarrow> bool" where
  "made_of source img \<longleftrightarrow>
     (let m = ri_manifest img in
      (\<forall>e \<in> set (ri_payload img). source (ie_path e) = Some (ie_bytes e))
      \<and> source (ea_path (im_task_envelope m)) = Some (ri_task_envelope_schema img)
      \<and> source (fa_path (im_one_field_framing m)) = Some (ri_one_field_framing img)
      \<and> source (ea_path (im_terminal_envelope m)) = Some (ri_terminal_envelope_schema img))"

section \<open>The checks\<close>

lemma validate_relative_path_iff [result_simps]:
  "validate_relative_path lib path prefix = Inr u \<longleftrightarrow> image_relative prefix path"
proof -
  have "(\<exists>name. part = Normal name) \<longleftrightarrow> (case part of Normal _ \<Rightarrow> True | _ \<Rightarrow> False)" for part
    by (cases part) auto
  then show ?thesis
    by (auto simp: validate_relative_path_def image_relative_def list_ex_iff split: path_component.splits)
qed

lemma validate_text_bytes_iff [result_simps]: "validate_text_bytes lib path bytes = Inr u \<longleftrightarrow> plain_text bytes"
  by (auto simp: validate_text_bytes_def plain_text_def contains_str_iff)

lemma check_requirement_iff [result_simps]: "check_requirement named = Inr u \<longleftrightarrow> snd named = ''required''"
  by (simp add: check_requirement_def)

lemma validate_manifest_metadata_iff [result_simps]:
  "validate_manifest_metadata lib m = Inr u \<longleftrightarrow> supported_manifest m"
  by (cases "im_normalization m"; cases "im_minimum_transport_requirements m")
    (auto simp: validate_manifest_metadata_def supported_manifest_def result_simps split: if_splits)

lemma check_declared_iff [result_simps]:
  "check_declared lib scan d = Inr scan' \<longleftrightarrow>
     image_relative ''payload/'' (pe_path d) \<and> pe_path d \<notin> sc_seen scan
     \<and> scan' = scan\<lparr>sc_seen := insert (pe_path d) (sc_seen scan)\<rparr>"
  by (auto simp: check_declared_def result_simps)

lemma settle_entry_iff [result_simps]:
  "settle_entry lib d bytes scan = Inr scan' \<longleftrightarrow>
     length bytes = pe_byte_length d \<and> sha256_hex lib bytes = pe_sha256 d \<and> plain_text bytes
     \<and> scan' = scan\<lparr>sc_aggregate := sc_aggregate scan @ framed_entry (pe_path d) bytes,
                    sc_payload := sc_payload scan @ [\<lparr>ie_path = pe_path d, ie_bytes = bytes\<rparr>]\<rparr>"
  by (auto simp: settle_entry_def result_simps)

lemma check_external_iff [result_simps]:
  "check_external lib path expected bytes = Inr out \<longleftrightarrow> sha256_hex lib bytes = expected \<and> out = bytes"
  by (auto simp: check_external_def)

lemma check_aggregate_iff [result_simps]:
  "check_aggregate lib m scan = Inr payload \<longleftrightarrow>
     sha256_hex lib (sc_aggregate scan) = ad_sha256 (im_aggregate_sha256 m)
     \<and> payload_length (sc_payload scan) = mv_byte_length (im_model_visible_bytes m)
     \<and> sha256_hex lib (model_visible_bytes (sc_payload scan)) = mv_sha256 (im_model_visible_bytes m)
     \<and> payload = sc_payload scan"
  by (auto simp: check_aggregate_def validate_model_visible_bytes_def sha256_hex_def payload_length_def Let_def
      result_simps)


section \<open>Both ways of loading\<close>

text \<open>
  What \<open>load\<close> and \<open>from_embedded\<close> share: an entry is taken over when it is verified, is new and its
  bytes are in the source, and so is a contract.
\<close>

definition scan_after :: "image_scan \<Rightarrow> image_entry list \<Rightarrow> image_scan" where
  "scan_after scan entries =
     \<lparr>sc_aggregate = sc_aggregate scan @ framing_of entries,
      sc_total_bytes = sc_total_bytes scan + payload_length entries,
      sc_seen = sc_seen scan \<union> ie_path ` set entries,
      sc_payload = sc_payload scan @ entries\<rparr>"

lemma empty_scan_fields [simp]:
  "sc_aggregate empty_scan = []" "sc_total_bytes empty_scan = 0" "sc_seen empty_scan = {}" "sc_payload empty_scan = []"
  by (simp_all add: empty_scan_def)

lemma scan_after_Nil [simp]: "scan_after scan [] = scan"
  by (simp add: scan_after_def framing_of_def payload_length_def model_visible_bytes_def)

lemma scan_after_Cons: "scan_after (scan_after scan [e]) es = scan_after scan (e # es)"
  by (simp add: scan_after_def framing_of_def payload_length_def model_visible_bytes_def Un_commute Un_left_commute)

lemma scan_after_fields [simp]:
  "sc_aggregate (scan_after scan es) = sc_aggregate scan @ framing_of es"
  "sc_total_bytes (scan_after scan es) = sc_total_bytes scan + payload_length es"
  "sc_seen (scan_after scan es) = sc_seen scan \<union> ie_path ` set es"
  "sc_payload (scan_after scan es) = sc_payload scan @ es"
  by (simp_all add: scan_after_def)

lemma checked_add_within: "a + b \<le> max_image_bytes \<Longrightarrow> checked_add a b = Some (a + b)"
  by (simp add: max_image_bytes_def)

lemma payload_length_simps [simp]:
  "payload_length [] = 0" "payload_length (e # es) = length (ie_bytes e) + payload_length es"
  by (simp_all add: payload_length_def model_visible_bytes_def)

locale image_source =
  fixes lib :: image_lib
    and entry :: "image_scan \<Rightarrow> payload_entry \<Rightarrow> runner_error + image_scan"
    and contract :: "string \<Rightarrow> string \<Rightarrow> runner_error + string"
    and source :: "string \<Rightarrow> string option"
  assumes entry_iff:
      "entry scan d = Inr scan' \<longleftrightarrow>
         (\<exists>e. entry_verified lib d e \<and> ie_path e \<notin> sc_seen scan \<and> source (ie_path e) = Some (ie_bytes e)
            \<and> sc_total_bytes scan + length (ie_bytes e) \<le> max_image_bytes \<and> scan' = scan_after scan [e])"
    and contract_iff:
      "contract path expected = Inr bytes \<longleftrightarrow> contract_verified lib path expected bytes \<and> source path = Some bytes"
begin

lemma entries_iff:
  assumes "sc_total_bytes scan \<le> max_image_bytes"
  shows "foldE entry scan ds = Inr scan' \<longleftrightarrow>
    (\<exists>es. list_all2 (entry_verified lib) ds es \<and> distinct (map ie_path es) \<and> sc_seen scan \<inter> ie_path ` set es = {}
      \<and> (\<forall>e \<in> set es. source (ie_path e) = Some (ie_bytes e))
      \<and> sc_total_bytes scan + payload_length es \<le> max_image_bytes \<and> scan' = scan_after scan es)"
  using assms
proof (induction ds arbitrary: scan)
  case Nil
  then show ?case by auto
next
  case (Cons d ds)
  have tail: "sc_total_bytes scan + length (ie_bytes e) \<le> max_image_bytes
        \<and> foldE entry (scan_after scan [e]) ds = Inr scan' \<longleftrightarrow>
      (\<exists>es. list_all2 (entry_verified lib) ds es \<and> distinct (map ie_path es)
         \<and> insert (ie_path e) (sc_seen scan) \<inter> ie_path ` set es = {}
         \<and> (\<forall>e \<in> set es. source (ie_path e) = Some (ie_bytes e))
         \<and> sc_total_bytes scan + length (ie_bytes e) + payload_length es \<le> max_image_bytes
         \<and> scan' = scan_after scan (e # es))" for e
  proof (cases "sc_total_bytes scan + length (ie_bytes e) \<le> max_image_bytes")
    case True
    then show ?thesis using Cons.IH [of "scan_after scan [e]"] by (simp add: scan_after_Cons)
  next
    case False
    then show ?thesis by auto
  qed
  have "foldE entry scan (d # ds) = Inr scan' \<longleftrightarrow>
      (\<exists>e. entry_verified lib d e \<and> ie_path e \<notin> sc_seen scan \<and> source (ie_path e) = Some (ie_bytes e)
         \<and> sc_total_bytes scan + length (ie_bytes e) \<le> max_image_bytes
         \<and> foldE entry (scan_after scan [e]) ds = Inr scan')"
    by (auto simp: bindE_eq_Inr entry_iff)
  also have "\<dots> \<longleftrightarrow>
      (\<exists>e es. entry_verified lib d e \<and> ie_path e \<notin> sc_seen scan \<and> source (ie_path e) = Some (ie_bytes e)
         \<and> list_all2 (entry_verified lib) ds es \<and> distinct (map ie_path es)
         \<and> insert (ie_path e) (sc_seen scan) \<inter> ie_path ` set es = {}
         \<and> (\<forall>e \<in> set es. source (ie_path e) = Some (ie_bytes e))
         \<and> sc_total_bytes scan + length (ie_bytes e) + payload_length es \<le> max_image_bytes
         \<and> scan' = scan_after scan (e # es))"
    using tail by blast
  also have "\<dots> \<longleftrightarrow>
      (\<exists>es. list_all2 (entry_verified lib) (d # ds) es \<and> distinct (map ie_path es) \<and> sc_seen scan \<inter> ie_path ` set es = {}
        \<and> (\<forall>e \<in> set es. source (ie_path e) = Some (ie_bytes e))
        \<and> sc_total_bytes scan + payload_length es \<le> max_image_bytes \<and> scan' = scan_after scan es)" (is "_ \<longleftrightarrow> ?r")
    by (fastforce simp: list_all2_Cons1)
  finally show ?case .
qed

lemma image_iff:
  "bindE (foldE entry empty_scan (im_payload m)) (\<lambda>scan.
     bindE (check_aggregate lib m scan) (assemble_image contract m mb)) = Inr img
   \<and> supported_manifest m \<and> lib_manifest lib mb = Inr m
   \<longleftrightarrow> image_verified lib img \<and> made_of source img \<and> ri_manifest img = m \<and> ri_manifest_bytes img = mb"
proof -
  have start: "sc_total_bytes empty_scan \<le> max_image_bytes"
    by simp
  show ?thesis
    by (cases img)
      (auto simp: bindE_eq_Inr entries_iff [OF start] check_aggregate_iff assemble_image_def contract_iff
        image_verified_def made_of_def Let_def)
qed

end

lemma embedded_lookup_iff [result_simps]:
  "embedded_lookup lib files path = Inr bytes \<longleftrightarrow> map_of files path = Some bytes"
proof -
  have "find_map (\<lambda>(candidate, bytes). if candidate = path then Some bytes else None) files = map_of files path"
    by (induction files) auto
  then show ?thesis by (simp add: embedded_lookup_def result_simps)
qed

interpretation embedded: image_source lib "embedded_entry lib files" "embedded_external lib files" "map_of files"
proof
  show "embedded_entry lib files scan d = Inr scan' \<longleftrightarrow>
      (\<exists>e. entry_verified lib d e \<and> ie_path e \<notin> sc_seen scan \<and> map_of files (ie_path e) = Some (ie_bytes e)
        \<and> sc_total_bytes scan + length (ie_bytes e) \<le> max_image_bytes \<and> scan' = scan_after scan [e])"
    (is "?l \<longleftrightarrow> ?r") for scan d scan'
  proof
    assume ?l
    then obtain bytes where
        "image_relative ''payload/'' (pe_path d)" "pe_path d \<notin> sc_seen scan" "map_of files (pe_path d) = Some bytes"
        "length bytes \<le> max_entry_bytes" "sc_total_bytes scan + length bytes \<le> max_image_bytes"
        "length bytes = pe_byte_length d" "sha256_hex lib bytes = pe_sha256 d" "plain_text bytes"
        "scan' = scan_after scan [\<lparr>ie_path = pe_path d, ie_bytes = bytes\<rparr>]"
      by (auto simp: embedded_entry_def result_simps scan_after_def framing_of_def not_less split: if_splits option.splits)
    then show ?r
      by (intro exI [of _ "\<lparr>ie_path = pe_path d, ie_bytes = bytes\<rparr>"]) (simp add: entry_verified_def)
  next
    assume ?r
    then obtain e where "entry_verified lib d e" "ie_path e \<notin> sc_seen scan" "map_of files (ie_path e) = Some (ie_bytes e)"
        "sc_total_bytes scan + length (ie_bytes e) \<le> max_image_bytes" "scan' = scan_after scan [e]"
      by blast
    then show ?l
      by (cases e) (simp add: embedded_entry_def result_simps entry_verified_def scan_after_def framing_of_def
          checked_add_within)
  qed
  show "embedded_external lib files path expected = Inr bytes \<longleftrightarrow>
      contract_verified lib path expected bytes \<and> map_of files path = Some bytes" for path expected bytes
    by (auto simp: embedded_external_def contract_verified_def result_simps)
qed


text \<open>The bytes a bounded read of the directory yields for a path under its root.\<close>

definition served :: "file_system \<Rightarrow> string \<Rightarrow> string \<Rightarrow> string option" where
  "served fs base path =
     (case read_bounded fs base (path_join base path) max_entry_bytes of Inl _ \<Rightarrow> None | Inr bytes \<Rightarrow> Some bytes)"

lemma served_iff: "read_bounded fs base (path_join base path) max_entry_bytes = Inr bytes \<longleftrightarrow> served fs base path = Some bytes"
  by (simp add: served_def split: sum.splits)

interpretation directory: image_source lib "load_entry lib fs base" "load_external lib fs base" "served fs base"
proof
  show "load_entry lib fs base scan d = Inr scan' \<longleftrightarrow>
      (\<exists>e. entry_verified lib d e \<and> ie_path e \<notin> sc_seen scan \<and> served fs base (ie_path e) = Some (ie_bytes e)
        \<and> sc_total_bytes scan + length (ie_bytes e) \<le> max_image_bytes \<and> scan' = scan_after scan [e])"
    (is "?l \<longleftrightarrow> ?r") for scan d scan'
  proof
    assume ?l
    then obtain bytes where
        "image_relative ''payload/'' (pe_path d)" "pe_path d \<notin> sc_seen scan" "served fs base (pe_path d) = Some bytes"
        "pe_byte_length d \<le> max_entry_bytes" "sc_total_bytes scan + length bytes \<le> max_image_bytes"
        "length bytes = pe_byte_length d" "sha256_hex lib bytes = pe_sha256 d" "plain_text bytes"
        "scan' = scan_after scan [\<lparr>ie_path = pe_path d, ie_bytes = bytes\<rparr>]"
      by (auto simp: load_entry_def result_simps served_iff scan_after_def framing_of_def not_less
          split: if_splits option.splits)
    then show ?r
      by (intro exI [of _ "\<lparr>ie_path = pe_path d, ie_bytes = bytes\<rparr>"]) (simp add: entry_verified_def)
  next
    assume ?r
    then obtain e where "entry_verified lib d e" "ie_path e \<notin> sc_seen scan" "served fs base (ie_path e) = Some (ie_bytes e)"
        "sc_total_bytes scan + length (ie_bytes e) \<le> max_image_bytes" "scan' = scan_after scan [e]"
      by blast
    then show ?l
      by (cases e) (simp add: load_entry_def result_simps served_iff entry_verified_def scan_after_def framing_of_def
          checked_add_within not_less)
  qed
  show "load_external lib fs base path expected = Inr bytes \<longleftrightarrow>
      contract_verified lib path expected bytes \<and> served fs base path = Some bytes" for path expected bytes
    by (auto simp: load_external_def contract_verified_def result_simps served_iff)
qed

lemma from_embedded_iff:
  "from_embedded lib mb files = Inr img \<longleftrightarrow>
     image_verified lib img \<and> made_of (map_of files) img
     \<and> ri_manifest_bytes img = mb \<and> length mb \<le> max_manifest_bytes"
proof (cases "lib_manifest lib mb")
  case (Inl e)
  then show ?thesis by (auto simp: from_embedded_def image_verified_def Let_def)
next
  case (Inr m)
  have "from_embedded lib mb files = Inr img \<longleftrightarrow> length mb \<le> max_manifest_bytes
      \<and> image_verified lib img \<and> made_of (map_of files) img \<and> ri_manifest img = m \<and> ri_manifest_bytes img = mb"
    unfolding embedded.image_iff [symmetric] using Inr by (auto simp: from_embedded_def result_simps)
  then show ?thesis using Inr by (auto simp: image_verified_def Let_def)
qed

lemma load_image_iff:
  assumes "fs_canonicalize fs given = Inr base"
  shows "load_image lib fs given = Inr img \<longleftrightarrow>
     image_verified lib img \<and> made_of (served fs base) img
     \<and> read_bounded fs base (path_join base ''manifest.json'') max_manifest_bytes = Inr (ri_manifest_bytes img)"
proof (cases "read_bounded fs base (path_join base ''manifest.json'') max_manifest_bytes")
  case (Inl e)
  with assms show ?thesis by (simp add: load_image_def Let_def)
next
  case (Inr mb)
  note found = this
  show ?thesis
  proof (cases "lib_manifest lib mb")
    case (Inl e)
    with assms found show ?thesis by (auto simp: load_image_def image_verified_def Let_def)
  next
    case (Inr m)
    have "load_image lib fs given = Inr img \<longleftrightarrow>
        image_verified lib img \<and> made_of (served fs base) img \<and> ri_manifest img = m \<and> ri_manifest_bytes img = mb"
      unfolding directory.image_iff [symmetric] using assms found Inr by (auto simp: load_image_def Let_def result_simps)
    with found Inr show ?thesis by (auto simp: image_verified_def Let_def)
  qed
qed

lemma load_image_root: "load_image lib fs given = Inr img \<Longrightarrow> \<exists>base. fs_canonicalize fs given = Inr base"
  by (auto simp: load_image_def split: sum.splits)

definition named_paths :: "image_manifest \<Rightarrow> string list" where
  "named_paths m =
     map pe_path (im_payload m) @ [ea_path (im_task_envelope m), fa_path (im_one_field_framing m), ea_path (im_terminal_envelope m)]"

lemma verified_paths: "list_all2 (entry_verified lib) ds es \<Longrightarrow> map ie_path es = map pe_path ds"
  by (induction rule: list_all2_induct) (simp_all add: entry_verified_def)

lemma made_of_cong:
  assumes "\<And>path. path \<in> set (named_paths (ri_manifest img)) \<Longrightarrow> source path = source' path"
    and "image_verified lib img"
  shows "made_of source img \<longleftrightarrow> made_of source' img"
proof -
  have "list_all2 (entry_verified lib) (im_payload (ri_manifest img)) (ri_payload img)"
    using assms(2) by (simp add: image_verified_def Let_def)
  then have paths: "map ie_path (ri_payload img) = map pe_path (im_payload (ri_manifest img))"
    by (rule verified_paths)
  have "ie_path e \<in> set (named_paths (ri_manifest img))" if "e \<in> set (ri_payload img)" for e
    using that paths [symmetric] by (simp add: named_paths_def)
  then show ?thesis
    using assms(1) by (simp add: made_of_def Let_def named_paths_def)
qed

section \<open>The aggregate digest\<close>

lemma split_at_first: "\<lbrakk>x \<notin> set a; x \<notin> set b\<rbrakk> \<Longrightarrow> a @ x # r = b @ x # s \<longleftrightarrow> a = b \<and> r = s"
proof (induction a arbitrary: b)
  case Nil
  then show ?case by (cases b) auto
next
  case (Cons c a)
  then show ?case by (cases b) auto
qed

lemma decimal_no_nul: "NUL \<notin> set (decimal n)"
  using decimal_digits [of NUL n] by (auto simp: ascii_digit_def NUL_def)

lemma framed_entry_inject:
  assumes "NUL \<notin> set p" "NUL \<notin> set q" "framed_entry p a @ r = framed_entry q b @ s"
  shows "p = q \<and> a = b \<and> r = s"
proof -
  have "p = q" and rest: "decimal (length a) @ NUL # a @ NUL # r = decimal (length b) @ NUL # b @ NUL # s"
    using assms by (simp_all add: framed_entry_def split_at_first)
  then have "length a = length b" "a @ NUL # r = b @ NUL # s"
    by (auto simp: split_at_first decimal_no_nul decimal_inject)
  with \<open>p = q\<close> show ?thesis by simp
qed

lemma framing_of_inject:
  assumes "\<forall>e \<in> set es. NUL \<notin> set (ie_path e)" "\<forall>e \<in> set es'. NUL \<notin> set (ie_path e)"
    and "framing_of es = framing_of es'"
  shows "es = es'"
  using assms
proof (induction es arbitrary: es')
  case Nil
  then show ?case by (cases es') (auto simp: framing_of_def framed_entry_def)
next
  case (Cons e es)
  then obtain f fs where es': "es' = f # fs"
    by (cases es') (auto simp: framing_of_def framed_entry_def)
  have "ie_path e = ie_path f \<and> ie_bytes e = ie_bytes f \<and> framing_of es = framing_of fs"
    by (rule framed_entry_inject) (use Cons.prems es' in \<open>auto simp: framing_of_def\<close>)
  with Cons.IH [of fs] Cons.prems es' show ?case by simp
qed

lemma hex_digit_inject:
  assumes "d < 16" "e < 16" "char_of (hex_lower d) = (char_of (hex_lower e) :: char)"
  shows "d = e"
proof -
  have "hex_lower d mod 256 = hex_lower e mod 256"
    using arg_cong [OF assms(3), of code] by simp
  then have "hex_lower d = hex_lower e"
    using hex_lower_bounds [OF assms(1)] hex_lower_bounds [OF assms(2)] by simp
  then have "hex_value (hex_lower d) = hex_value (hex_lower e)" by simp
  then show ?thesis by (simp only: hex_value_lower assms(1,2) option.inject)
qed

lemma hex_pair_inject:
  assumes "char_of (hex_lower (code b div 16)) = (char_of (hex_lower (code c div 16)) :: char)"
    and "char_of (hex_lower (code b mod 16)) = (char_of (hex_lower (code c mod 16)) :: char)"
  shows "b = c"
proof -
  have "code b div 16 < 16" "code c div 16 < 16"
    using code_less_256 [of b] code_less_256 [of c] by linarith+
  then have "code b div 16 = code c div 16"
    using assms(1) by (rule hex_digit_inject)
  moreover have "code b mod 16 = code c mod 16"
    using assms(2) by (intro hex_digit_inject) simp_all
  ultimately have "code b = code c" by (metis div_mult_mod_eq)
  then show ?thesis by (simp add: code_inject)
qed

lemma digest_to_hex_Cons:
  "digest_to_hex (b # bs) = char_of (hex_lower (code b div 16)) # char_of (hex_lower (code b mod 16)) # digest_to_hex bs"
  by (simp add: digest_to_hex_def)

lemma digest_to_hex_inject: "digest_to_hex a = digest_to_hex b \<Longrightarrow> a = b"
proof (induction a arbitrary: b)
  case Nil
  then show ?case by (cases b) (simp_all add: digest_to_hex_def)
next
  case (Cons c a)
  then obtain d ds where b: "b = d # ds"
    by (cases b) (simp_all add: digest_to_hex_def)
  from Cons.prems [unfolded b digest_to_hex_Cons list.inject] have "c = d" and "a = ds"
    using hex_pair_inject Cons.IH by blast+
  with b show ?case by simp
qed

section \<open>What the runner relies on\<close>

definition accepted_image :: "image_lib \<Rightarrow> runtime_image \<Rightarrow> bool" where
  "accepted_image lib img \<longleftrightarrow>
     (\<exists>fs given. load_image lib fs given = Inr img) \<or> (\<exists>mb files. from_embedded lib mb files = Inr img)"

lemma accepted_is_verified: "accepted_image lib img \<Longrightarrow> image_verified lib img"
  unfolding accepted_image_def by (metis from_embedded_iff load_image_iff load_image_root)

text \<open>
  Property C31. Embedded images are accepted exactly when verified: \<open>from_embedded\<close> returns an image if
  and only if its manifest decodes to a supported one within its limit, every entry has the declared
  path, length, digest and text form, no path occurs twice, the payload is within the aggregate limit
  and has the declared aggregate and model-visible digests, the three contracts have theirs, and all
  bytes are those embedded under the named paths.
\<close>

theorem embedded_images_are_verified:
  "from_embedded lib mb files = Inr img \<longleftrightarrow>
     image_verified lib img \<and> made_of (map_of files) img
     \<and> ri_manifest_bytes img = mb \<and> length mb \<le> max_manifest_bytes"
  by (rule from_embedded_iff)

text \<open>
  Loading a directory agrees with the embedded files: when the directory serves, for
  every path the manifest names, the bytes embedded under it (or neither has them), both accept the
  same image or none.
\<close>

theorem load_agrees_with_embedded:
  assumes "fs_canonicalize fs given = Inr base"
    and "read_bounded fs base (path_join base ''manifest.json'') max_manifest_bytes = Inr mb"
    and "length mb \<le> max_manifest_bytes"
    and "lib_manifest lib mb = Inr m"
    and "list_all (\<lambda>path. served fs base path = map_of files path) (named_paths m)"
  shows "load_image lib fs given = Inr img \<longleftrightarrow> from_embedded lib mb files = Inr img"
proof -
  have same: "made_of (served fs base) img \<longleftrightarrow> made_of (map_of files) img"
    if "image_verified lib img" "ri_manifest_bytes img = mb"
  proof (rule made_of_cong [OF _ that(1)])
    fix path
    assume "path \<in> set (named_paths (ri_manifest img))"
    moreover have "ri_manifest img = m"
      using that assms(4) by (simp add: image_verified_def Let_def)
    ultimately show "served fs base path = map_of files path"
      using assms(5) by (simp add: list_all_iff)
  qed
  show ?thesis
    unfolding load_image_iff [OF assms(1)] from_embedded_iff using assms(2,3) same by auto
qed

text \<open>
  Property C32. The aggregate digest pins the payload: of two accepted images with the same aggregate
  digest and no NUL in a path, either the payloads are the same, entry for entry, path and bytes, or
  two different byte strings with the same SHA-256 digest have been found.
\<close>

theorem aggregate_digest_pins_the_payload:
  assumes "accepted_image lib img" and "accepted_image lib other"
    and "image_aggregate_sha256 img = image_aggregate_sha256 other"
    and "list_all (\<lambda>e. NUL \<notin> set (ie_path e)) (ri_payload img)"
    and "list_all (\<lambda>e. NUL \<notin> set (ie_path e)) (ri_payload other)"
  shows "ri_payload img = ri_payload other
    \<or> framing_of (ri_payload img) \<noteq> framing_of (ri_payload other)
      \<and> lib_sha256 lib (framing_of (ri_payload img)) = lib_sha256 lib (framing_of (ri_payload other))"
proof -
  have "sha256_hex lib (framing_of (ri_payload img)) = sha256_hex lib (framing_of (ri_payload other))"
    using accepted_is_verified [OF assms(1)] accepted_is_verified [OF assms(2)] assms(3)
    by (simp add: image_verified_def image_aggregate_sha256_def Let_def)
  then have "lib_sha256 lib (framing_of (ri_payload img)) = lib_sha256 lib (framing_of (ri_payload other))"
    unfolding sha256_hex_def by (rule digest_to_hex_inject)
  moreover have "ri_payload img = ri_payload other" if "framing_of (ri_payload img) = framing_of (ri_payload other)"
    by (rule framing_of_inject) (use assms(4,5) that in \<open>simp_all add: list_all_iff\<close>)
  ultimately show ?thesis by blast
qed

section \<open>A small image\<close>

definition small_manifest :: image_manifest where
  "small_manifest = \<lparr>
     im_schema = ''openprose.skill-runtime-image-manifest/1'',
     im_image_format_version = ''openprose.skill-runtime-image/1'',
     im_image_version = ''v'', im_language_version = ''1'', im_skill_version = ''1'',
     im_runtime_contract_version = ''1'', im_semantic_source_revision = ''r'', im_purpose = ''test'',
     im_release_eligible = False,
     im_normalization = \<lparr>no_encoding = ''utf-8'', no_newlines = ''lf'', no_byte_order_mark = ''forbidden'',
       no_path_separator = ''/''\<rparr>,
     im_payload = [\<lparr>pe_path = ''payload/a'', pe_media_type = ''text/plain'', pe_byte_length = 2, pe_sha256 = []\<rparr>],
     im_aggregate_sha256 = \<lparr>ad_algorithm = ''sha256-path-length-nul-v1'', ad_sha256 = []\<rparr>,
     im_model_visible_bytes = \<lparr>mv_serialization = ''ordered-raw-concatenation-v1'', mv_byte_length = 2, mv_sha256 = []\<rparr>,
     im_instruction_placements = [\<lparr>ip_id = ''p'', ip_strictness = ''s'', ip_preserves_harness_base_prompt = True\<rparr>],
     im_task_envelope = \<lparr>ea_schema_id = ''t'', ea_path = ''contracts/t'', ea_sha256 = []\<rparr>,
     im_one_field_framing = \<lparr>fa_id = ''f'', fa_path = ''contracts/f'', fa_sha256 = []\<rparr>,
     im_terminal_envelope = \<lparr>ea_schema_id = ''e'', ea_path = ''contracts/e'', ea_sha256 = []\<rparr>,
     im_minimum_transport_requirements = \<lparr>tr_non_interactive = ''required'', tr_structured_output = ''required'',
       tr_ambient_isolation = ''required'', tr_terminal_envelope = ''required'', tr_bounded_streaming = ''required''\<rparr>\<rparr>"

definition small_lib :: image_lib where
  "small_lib = \<lparr>lib_manifest = \<lambda>bytes. Inr small_manifest, lib_sha256 = \<lambda>bytes. [], lib_debug = id,
     lib_utf8_error = \<lambda>bytes. []\<rparr>"

definition small_files :: embedded_files where
  "small_files = [(''payload/a'', ''hi''), (''contracts/t'', ''T''), (''contracts/f'', ''F''), (''contracts/e'', ''E'')]"

definition small_read :: "string \<Rightarrow> string + string" where
  "small_read path =
     ok_or ''absent'' (find_map (\<lambda>(name, bytes). if path = ''/i/'' @ name then Some bytes else None)
       ((''manifest.json'', ''m'') # small_files))"

definition small_system :: file_system where
  "small_system = \<lparr>fs_canonicalize = Inr, fs_length = \<lambda>path. mapE length (small_read path), fs_read = small_read,
     fs_display = id\<rparr>"

definition small_image :: "string \<Rightarrow> runtime_image" where
  "small_image mb = \<lparr>ri_manifest = small_manifest, ri_manifest_bytes = mb,
     ri_payload = [\<lparr>ie_path = ''payload/a'', ie_bytes = ''hi''\<rparr>],
     ri_task_envelope_schema = ''T'', ri_one_field_framing = ''F'', ri_terminal_envelope_schema = ''E''\<rparr>"

lemma small_text: "plain_text ''hi''"
  by code_simp

lemma small_path: "image_relative ''payload/'' ''payload/a''"
  by (simp add: image_relative_def starts_with_def path_components_def path_pieces_def)

lemma small_contracts:
  "image_relative ''contracts/'' ''contracts/t''" "image_relative ''contracts/'' ''contracts/f''"
  "image_relative ''contracts/'' ''contracts/e''"
  by (simp_all add: image_relative_def starts_with_def path_components_def path_pieces_def)

lemma small_verified: "image_verified small_lib (small_image mb)"
  using small_text small_path small_contracts
  by (simp add: image_verified_def small_image_def small_lib_def small_manifest_def supported_manifest_def
      entry_verified_def contract_verified_def sha256_hex_def digest_to_hex_def payload_length_def
      model_visible_bytes_def max_entry_bytes_def max_image_bytes_def)

lemma small_made: "made_of (map_of small_files) (small_image mb)"
  by (simp add: made_of_def small_image_def small_manifest_def small_files_def)

lemma small_embedded: "length mb \<le> max_manifest_bytes \<Longrightarrow> from_embedded small_lib mb small_files = Inr (small_image mb)"
  using small_verified small_made by (simp add: from_embedded_iff) (simp add: small_image_def)

lemma small_limits [simp]: "0 < max_manifest_bytes" "0 < max_entry_bytes" "Suc 0 \<le> max_manifest_bytes" "Suc (Suc 0) \<le> max_entry_bytes"
  by (simp_all add: max_manifest_bytes_def max_entry_bytes_def)

lemma small_bounded:
  "read_bounded small_system ''/i'' (path_join ''/i'' ''manifest.json'') max_manifest_bytes = Inr ''m''"
  by (simp add: read_bounded_def small_system_def small_read_def small_files_def path_join_def ends_with_def
      path_starts_with_def path_components_def path_pieces_def starts_with_def not_less)

lemma small_served: "list_all (\<lambda>path. served small_system ''/i'' path = map_of small_files path) (named_paths small_manifest)"
  by (simp add: served_def read_bounded_def small_system_def small_read_def small_files_def path_join_def ends_with_def
      path_starts_with_def path_components_def path_pieces_def starts_with_def not_less named_paths_def small_manifest_def)

theorem load_agrees_with_embedded_witness:
  "(load_image small_lib small_system ''/i'' = Inr (small_image ''m'')
      \<longleftrightarrow> from_embedded small_lib ''m'' small_files = Inr (small_image ''m''))
   \<and> from_embedded small_lib ''m'' small_files = Inr (small_image ''m'')"
proof
  show "load_image small_lib small_system ''/i'' = Inr (small_image ''m'')
      \<longleftrightarrow> from_embedded small_lib ''m'' small_files = Inr (small_image ''m'')"
  proof (rule load_agrees_with_embedded)
    show "fs_canonicalize small_system ''/i'' = Inr ''/i''" by (simp add: small_system_def)
    show "lib_manifest small_lib ''m'' = Inr small_manifest" by (simp add: small_lib_def)
  qed (use small_bounded small_served in simp_all)
  show "from_embedded small_lib ''m'' small_files = Inr (small_image ''m'')"
    by (rule small_embedded) simp
qed

theorem aggregate_digest_pins_the_payload_witness:
  "ri_manifest_bytes (small_image ''m'') \<noteq> ri_manifest_bytes (small_image [])
   \<and> (ri_payload (small_image ''m'') = ri_payload (small_image [])
      \<or> framing_of (ri_payload (small_image ''m'')) \<noteq> framing_of (ri_payload (small_image []))
        \<and> lib_sha256 small_lib (framing_of (ri_payload (small_image ''m'')))
          = lib_sha256 small_lib (framing_of (ri_payload (small_image []))))"
proof
  show "ri_manifest_bytes (small_image ''m'') \<noteq> ri_manifest_bytes (small_image [])"
    by (simp add: small_image_def)
  have "accepted_image small_lib (small_image mb)" if "length mb \<le> max_manifest_bytes" for mb
    using small_embedded [OF that] by (auto simp: accepted_image_def)
  then show "ri_payload (small_image ''m'') = ri_payload (small_image [])
      \<or> framing_of (ri_payload (small_image ''m'')) \<noteq> framing_of (ri_payload (small_image []))
        \<and> lib_sha256 small_lib (framing_of (ri_payload (small_image ''m'')))
          = lib_sha256 small_lib (framing_of (ri_payload (small_image [])))"
    by (intro aggregate_digest_pins_the_payload)
      (simp_all add: small_image_def image_aggregate_sha256_def NUL_def)
qed

end
