(* ===== verification/Terminal.thy ===== *)
theory Terminal
  imports Human_Stream Image
begin

text \<open>
  The recovery of the terminal envelope (\<open>recover_terminal\<close> of \<open>installed_adapters.rs\<close>): the last nonblank
  line of the assistant's text must be one exact JSON object of the type the image declares.  JSON text
  is read and written by \<open>serde_json\<close>, whose functions are the fields of \<open>json_text\<close>: \<open>from_str\<close> and
  \<open>from_slice\<close> into a \<open>Value\<close>, the calls a visitor receives while a text is read (\<open>events\<close>), and
  \<open>to_string\<close> of a value in the order of its keys.
\<close>

section \<open>Values that keep the order of their keys\<close>

datatype ordered_json =
    ONull
  | OBool bool
  | ONumber num
  | OString string
  | OArray "ordered_json list"
  | OObject "(string \<times> ordered_json) list"

text \<open>The visitor's calls.  \<open>visit_f64\<close> gets a float that is finite (its value) or not.\<close>

datatype json_event =
    VisitUnit
  | VisitBool bool
  | VisitI64 int
  | VisitU64 nat
  | VisitF64 "rat option"
  | VisitStr string
  | VisitSeq "json_event list"
  | VisitMap "(string \<times> json_event) list"

fun visit :: "json_event \<Rightarrow> ordered_json option"
  and visit_seq :: "ordered_json list \<Rightarrow> json_event list \<Rightarrow> ordered_json list option"
  and visit_map :: "(string \<times> ordered_json) list \<Rightarrow> (string \<times> json_event) list
    \<Rightarrow> (string \<times> ordered_json) list option" where
  "visit VisitUnit = Some ONull"
| "visit (VisitBool b) = Some (OBool b)"
| "visit (VisitI64 i) = Some (ONumber (if 0 \<le> i then PosInt (nat i) else NegInt i))"
| "visit (VisitU64 n) = Some (ONumber (PosInt n))"
| "visit (VisitF64 x) = map_option (\<lambda>r. ONumber (Float r)) x"
| "visit (VisitStr s) = Some (OString s)"
| "visit (VisitSeq es) = map_option OArray (visit_seq [] es)"
| "visit (VisitMap kes) = map_option OObject (visit_map [] kes)"
| "visit_seq values [] = Some values"
| "visit_seq values (e # es) = (case visit e of None \<Rightarrow> None | Some v \<Rightarrow> visit_seq (values @ [v]) es)"
| "visit_map values [] = Some values"
| "visit_map values ((key, e) # kes) =
     (case visit e of
        None \<Rightarrow> None
      | Some v \<Rightarrow>
          if list_ex (\<lambda>(existing, _). existing = key) values then None
          else visit_map (values @ [(key, v)]) kes)"

record json_text =
  jt_from_str :: "string \<Rightarrow> json option"
  jt_from_slice :: "string \<Rightarrow> json option"
  jt_events :: "string \<Rightarrow> json_event option"
  jt_to_string :: "ordered_json \<Rightarrow> string option"

definition is_exact_minified_json :: "json_text \<Rightarrow> string \<Rightarrow> bool" where
  "is_exact_minified_json jt line =
     opt_ex (\<lambda>encoded. encoded = line)
       (Option.bind (Option.bind (jt_events jt line) visit) (jt_to_string jt))"

section \<open>Schemas\<close>

definition terminal_schema_error :: runner_error where
  "terminal_schema_error =
     with_detail (catalog ImageInvalid) ''reason''
       (JStr ''terminal schema is outside the supported structural subset'')"

definition required_property_schema :: "json \<Rightarrow> string \<Rightarrow> json option" where
  "required_property_schema schema name =
     (case Option.bind (jget schema ''required'') as_array of
        None \<Rightarrow> None
      | Some required \<Rightarrow>
          if \<not> list_ex (\<lambda>r. as_str r = Some name) required then None
          else case Option.bind (jget schema ''properties'') as_object of
                 None \<Rightarrow> None
               | Some properties \<Rightarrow> bt_get properties name)"

lemma size_bt_get: "bt_get m k = Some v \<Longrightarrow> size v < size (JObj m)"
  by (induction m) (auto split: if_split_asm)

lemma size_jget [simp]: "jget v k = Some w \<Longrightarrow> size w < size v"
  by (cases v) (auto dest: size_bt_get)

lemma size_value_member: "(k, v) \<in> set m \<Longrightarrow> size v < size (JObj m)"
  by (induction m) auto

lemma size_property:
  "\<lbrakk>Option.bind (jget schema k) as_object = Some m; bt_get m k' = Some v\<rbrakk> \<Longrightarrow> size v < size schema"
  "\<lbrakk>Option.bind (jget schema k) as_object = Some m; (k', v) \<in> set m\<rbrakk> \<Longrightarrow> size v < size schema"
  by (auto simp: bind_eq_Some_conv dest!: size_jget dest: size_bt_get size_value_member)

function validate_schema_value :: "json \<Rightarrow> json \<Rightarrow> bool" where
  "validate_schema_value v schema =
     (case jget schema ''const'' of
        Some expected \<Rightarrow> v = expected
      | None \<Rightarrow>
          (case Option.bind (jget schema ''type'') as_str of
             None \<Rightarrow> False
           | Some kind \<Rightarrow>
               if kind = ''object'' then
                 (case as_object v of
                    None \<Rightarrow> False
                  | Some m \<Rightarrow>
                      (case Option.bind (jget schema ''properties'') as_object of
                         None \<Rightarrow> False
                       | Some properties \<Rightarrow>
                           (case Option.bind (jget schema ''required'') as_array of
                              None \<Rightarrow> False
                            | Some required \<Rightarrow>
                                if Option.bind (jget schema ''additionalProperties'') as_bool \<noteq> Some False
                                   \<or> list_ex (\<lambda>key. bt_get properties key = None) (bt_keys m)
                                   \<or> list_ex (\<lambda>key. case as_str key of None \<Rightarrow> True | Some k \<Rightarrow> bt_get m k = None) required
                                then False
                                else list_all (\<lambda>(name, child).
                                       case bt_get properties name of
                                         None \<Rightarrow> False
                                       | Some property \<Rightarrow> validate_schema_value child property) m)))
               else if kind = ''array'' then
                 (case jget schema ''items'' of
                    None \<Rightarrow> False
                  | Some items \<Rightarrow>
                      (case as_array v of
                         None \<Rightarrow> False
                       | Some vs \<Rightarrow> list_all (\<lambda>item. validate_schema_value item items) vs))
               else if kind = ''string'' then as_str v \<noteq> None
               else if kind = ''boolean'' then as_bool v \<noteq> None
               else False))"
  by pat_completeness auto
termination
  by (relation "measure (\<lambda>(v, schema). size schema)") (auto dest: size_property)

function validate_supported_schema :: "json \<Rightarrow> bool" where
  "validate_supported_schema schema =
     (if jget schema ''const'' \<noteq> None then True
      else case Option.bind (jget schema ''type'') as_str of
             None \<Rightarrow> False
           | Some kind \<Rightarrow>
               if kind = ''object'' then
                 (case Option.bind (jget schema ''properties'') as_object of
                    None \<Rightarrow> False
                  | Some properties \<Rightarrow>
                      (case Option.bind (jget schema ''required'') as_array of
                         None \<Rightarrow> False
                       | Some required \<Rightarrow>
                           if Option.bind (jget schema ''additionalProperties'') as_bool \<noteq> Some False
                              \<or> list_ex (\<lambda>name. case as_str name of None \<Rightarrow> True | Some k \<Rightarrow> bt_get properties k = None) required
                           then False
                           else list_all validate_supported_schema (map snd properties)))
               else if kind = ''array'' then
                 (case jget schema ''items'' of None \<Rightarrow> False | Some items \<Rightarrow> validate_supported_schema items)
               else kind = ''string'' \<or> kind = ''boolean'')"
  by pat_completeness auto
termination
  by (relation "measure size") (auto dest: size_property)

declare validate_schema_value.simps [simp del] validate_supported_schema.simps [simp del]

section \<open>Recovery\<close>

record recovered_terminal =
  rt_envelope :: json
  rt_visible_messages :: "string list"
  rt_visible_text :: string

definition terminal_malformed :: "string \<Rightarrow> runner_error" where
  "terminal_malformed reason = with_detail (catalog error_code.ProtocolMalformed) ''reason'' (JStr reason)"

definition no_terminal :: runner_error where
  "no_terminal = terminal_malformed
     ''The harness completed without an assistant message containing the image terminal envelope.''"

definition echoes_argv :: "json \<Rightarrow> string list \<Rightarrow> bool" where
  "echoes_argv observed expected_argv \<longleftrightarrow>
     Option.bind (pointer observed [''task'', ''argv'']) as_array = Some (map JStr expected_argv)"

definition check_envelope :: "json_text \<Rightarrow> runtime_image \<Rightarrow> string list \<Rightarrow> string \<Rightarrow> runner_error + json" where
  "check_envelope jt img expected_argv terminal_line =
     (case jt_from_str jt terminal_line of
        None \<Rightarrow> Inl (terminal_malformed ''The final nonblank assistant line was not the image terminal envelope.'')
      | Some observed \<Rightarrow>
          if \<not> is_exact_minified_json jt terminal_line
          then Inl (terminal_malformed
                 ''The final assistant terminal envelope is not one exact minified JSON object.'')
          else case jt_from_slice jt (ri_terminal_envelope_schema img) of
                 None \<Rightarrow> Inl terminal_schema_error
               | Some schema \<Rightarrow>
                   if \<not> validate_supported_schema schema then Inl terminal_schema_error
                   else if \<not> validate_schema_value observed schema
                   then Inl (terminal_malformed
                 ''The final assistant terminal envelope does not match the verified image-declared schema.'')
                   else if Option.bind (jget observed ''schema'') as_str
                             \<noteq> Some (ea_schema_id (im_terminal_envelope (ri_manifest img)))
                   then Inl (terminal_malformed
                 ''The final assistant terminal identity does not match the verified image manifest.'')
                   else if opt_ex (\<lambda>task. required_property_schema task ''argv'' \<noteq> None)
                             (required_property_schema schema ''task'')
                           \<and> \<not> echoes_argv observed expected_argv
                   then Inl (terminal_malformed
                 ''The final assistant terminal does not echo the runner-owned task identity.'')
                   else Inr observed)"

definition recover_terminal ::
  "json_text \<Rightarrow> runtime_image \<Rightarrow> string list \<Rightarrow> string list \<Rightarrow> runner_error + recovered_terminal" where
  "recover_terminal jt img messages expected_argv =
     (case rposition (\<lambda>m. list_ex (\<lambda>l. \<not> blank_line l) (str_lines m)) messages of
        None \<Rightarrow> Inl no_terminal
      | Some carrier \<Rightarrow>
          let carrier_lines = split_on (\<lambda>c. c = LF) (messages ! carrier) in
          case rposition (\<lambda>l. \<not> blank_line l) carrier_lines of
            None \<Rightarrow> Inl no_terminal
          | Some terminal \<Rightarrow>
              bindE (check_envelope jt img expected_argv (carrier_lines ! terminal)) (\<lambda>observed.
                let kept = join [LF] (drop_trailing_blank (remove_nth terminal carrier_lines));
                    visible = filter (\<lambda>m. m \<noteq> []) (messages[carrier := kept]) in
                Inr \<lparr>rt_envelope = observed, rt_visible_messages = visible,
                     rt_visible_text = join [LF] visible\<rparr>))"

section \<open>Types\<close>

text \<open>What a supported schema denotes: a constant, a closed record, a list, a text or a flag.\<close>

datatype envelope_type =
    Exactly json
  | Closed "(string \<times> envelope_type) list" "string list"
  | ListOf envelope_type
  | Text
  | Flag

lemma size_map_of: "map_of m k = Some t \<Longrightarrow> size t < Suc (size_list (size_prod (\<lambda>x. 0) size) m)"
  by (induction m) (auto split: if_split_asm)

function inhabits :: "json \<Rightarrow> envelope_type \<Rightarrow> bool" where
  "inhabits v (Exactly w) \<longleftrightarrow> v = w"
| "inhabits v (Closed members required) \<longleftrightarrow>
     (case v of
        JObj m \<Rightarrow> set (bt_keys m) \<subseteq> fst ` set members \<and> set required \<subseteq> set (bt_keys m)
          \<and> list_all (\<lambda>(name, child). case map_of members name of Some t \<Rightarrow> inhabits child t | None \<Rightarrow> False) m
      | _ \<Rightarrow> False)"
| "inhabits v (ListOf t) \<longleftrightarrow> (case v of JArr vs \<Rightarrow> list_all (\<lambda>item. inhabits item t) vs | _ \<Rightarrow> False)"
| "inhabits v Text \<longleftrightarrow> is_string v"
| "inhabits v Flag \<longleftrightarrow> is_boolean v"
  by pat_completeness auto
termination
  by (relation "measure (\<lambda>(v, t). size t)") (auto dest: size_map_of simp: less_Suc_eq)

definition string_names :: "json list \<Rightarrow> string list" where
  "string_names required = map (\<lambda>r. case as_str r of Some s \<Rightarrow> s | None \<Rightarrow> []) required"

text \<open>The forms of a schema that mean something.\<close>

datatype schema_form =
    SConst json
  | SObject "(string \<times> json) list" "json list"
  | SArray json
  | SString
  | SBoolean
  | SOther

definition form_of :: "json \<Rightarrow> schema_form" where
  "form_of schema =
     (case (jget schema ''const'', Option.bind (jget schema ''type'') as_str) of
        (Some w, _) \<Rightarrow> SConst w
      | (None, Some kind) \<Rightarrow>
          if kind = ''object'' then
            (case (Option.bind (jget schema ''properties'') as_object, Option.bind (jget schema ''required'') as_array) of
               (Some properties, Some required) \<Rightarrow>
                 if jget schema ''additionalProperties'' = Some (JBool False) then SObject properties required else SOther
             | _ \<Rightarrow> SOther)
          else if kind = ''array'' then (case jget schema ''items'' of Some items \<Rightarrow> SArray items | None \<Rightarrow> SOther)
          else if kind = ''string'' then SString
          else if kind = ''boolean'' then SBoolean
          else SOther
      | _ \<Rightarrow> SOther)"

lemma form_of_size:
  "form_of schema = SArray items \<Longrightarrow> size items < size schema"
  "form_of schema = SObject properties required \<Longrightarrow> (k, p) \<in> set properties \<Longrightarrow> size p < size schema"
  by (auto simp: form_of_def split: option.splits if_split_asm dest: size_property)

function envelope_type_of :: "json \<Rightarrow> envelope_type option" where
  "envelope_type_of schema =
     (case form_of schema of
        SConst w \<Rightarrow> Some (Exactly w)
      | SObject properties required \<Rightarrow>
          if list_all is_string required \<and> set (string_names required) \<subseteq> set (bt_keys properties)
          then map_option (\<lambda>types. Closed (zip (bt_keys properties) types) (string_names required))
                 (those (map envelope_type_of (map snd properties)))
          else None
      | SArray items \<Rightarrow> map_option ListOf (envelope_type_of items)
      | SString \<Rightarrow> Some Text
      | SBoolean \<Rightarrow> Some Flag
      | SOther \<Rightarrow> None)"
  by pat_completeness auto
termination
  by (relation "measure size") (auto dest: form_of_size)

declare envelope_type_of.simps [simp del]

lemma those_map_of:
  "those (map f (map snd m)) = Some ts \<Longrightarrow>
     map_of (zip (map fst m) ts) k = (case map_of m k of None \<Rightarrow> None | Some p \<Rightarrow> f p)"
proof (induction m arbitrary: ts)
  case Nil
  then show ?case by simp
next
  case (Cons q m)
  then obtain t us where "f (snd q) = Some t" "those (map f (map snd m)) = Some us" "ts = t # us"
    by (auto split: option.splits)
  with Cons.IH [of us] show ?case by (cases q) auto
qed

lemma those_length: "those xs = Some ys \<Longrightarrow> length ys = length xs"
  by (induction xs arbitrary: ys) (auto split: option.splits)

lemma required_ok:
  "list_ex (\<lambda>name. case as_str name of None \<Rightarrow> True | Some k \<Rightarrow> bt_get m k = None) required
   \<longleftrightarrow> \<not> (list_all is_string required \<and> set (string_names required) \<subseteq> set (bt_keys m))"
  by (induction required) (auto simp: string_names_def is_string_def map_of_eq_None_iff split: option.splits)

lemma flag_off: "Option.bind x as_bool = Some False \<longleftrightarrow> x = Some (JBool False)"
  by (cases x) auto

lemma supported_form:
  "validate_supported_schema schema \<longleftrightarrow>
     (case form_of schema of
        SConst w \<Rightarrow> True
      | SObject properties required \<Rightarrow>
          list_all is_string required \<and> set (string_names required) \<subseteq> set (bt_keys properties)
          \<and> list_all (\<lambda>p. validate_supported_schema (snd p)) properties
      | SArray items \<Rightarrow> validate_supported_schema items
      | SString \<Rightarrow> True
      | SBoolean \<Rightarrow> True
      | SOther \<Rightarrow> False)"
  by (subst validate_supported_schema.simps)
    (auto simp: form_of_def required_ok flag_off list.pred_map comp_def split: option.splits)

lemma value_form:
  "validate_schema_value v schema \<longleftrightarrow>
     (case form_of schema of
        SConst w \<Rightarrow> v = w
      | SObject properties required \<Rightarrow>
          (case v of
             JObj m \<Rightarrow> set (bt_keys m) \<subseteq> set (bt_keys properties)
               \<and> list_all is_string required \<and> set (string_names required) \<subseteq> set (bt_keys m)
               \<and> list_all (\<lambda>(name, child). case bt_get properties name of
                    None \<Rightarrow> False | Some p \<Rightarrow> validate_schema_value child p) m
           | _ \<Rightarrow> False)
      | SArray items \<Rightarrow> (case v of JArr vs \<Rightarrow> list_all (\<lambda>item. validate_schema_value item items) vs | _ \<Rightarrow> False)
      | SString \<Rightarrow> is_string v
      | SBoolean \<Rightarrow> is_boolean v
      | SOther \<Rightarrow> False)"
proof -
  have known: "list_ex (\<lambda>key. bt_get properties key = None) (bt_keys m) \<longleftrightarrow> \<not> set (bt_keys m) \<subseteq> set (bt_keys properties)"
    for m properties :: fields
    by (auto simp: list_ex_iff map_of_eq_None_iff)
  note unfolded = validate_schema_value.simps [of _ schema] form_of_def required_ok flag_off known
    is_string_def is_boolean_def
  show ?thesis
  proof (cases "jget schema ''const''")
    case None
    note const = this
    show ?thesis
    proof (cases "Option.bind (jget schema ''type'') as_str")
      case None
      with const show ?thesis by (simp add: unfolded)
    next
      case (Some kind)
      consider "kind = ''object''" | "kind = ''array''" | "kind \<notin> {''object'', ''array''}" by blast
      then show ?thesis
      proof cases
        case 1
        show ?thesis
        proof (cases "Option.bind (jget schema ''properties'') as_object = None
            \<or> Option.bind (jget schema ''required'') as_array = None")
          case True
          then show ?thesis using 1 const Some by (auto simp: unfolded split: option.splits)
        next
          case False
          then obtain properties required where
              "Option.bind (jget schema ''properties'') as_object = Some properties"
              "Option.bind (jget schema ''required'') as_array = Some required"
            by auto
          then show ?thesis using 1 const Some by (cases v) (auto simp: unfolded)
        qed
      next
        case 2
        then show ?thesis using const Some
          by (cases "jget schema ''items''"; cases v) (simp_all add: unfolded)
      next
        case 3
        then show ?thesis using const Some by (simp add: unfolded)
      qed
    qed
  next
    case (Some w)
    then show ?thesis by (simp add: unfolded)
  qed
qed

lemma those_map: "those (map f xs) \<noteq> None \<longleftrightarrow> list_all (\<lambda>x. f x \<noteq> None) xs"
  by (induction xs) (auto split: option.splits)

lemma supported_iff: "validate_supported_schema schema \<longleftrightarrow> envelope_type_of schema \<noteq> None"
proof (induction schema rule: envelope_type_of.induct)
  case (1 schema)
  show ?case
  proof (cases "form_of schema")
    case (SObject properties required)
    show ?thesis
    proof (cases "list_all is_string required \<and> set (string_names required) \<subseteq> set (bt_keys properties)")
      case True
      then have "validate_supported_schema p \<longleftrightarrow> envelope_type_of p \<noteq> None" if "p \<in> snd ` set properties" for p
        using 1(1) [OF SObject] that by auto
      then have "list_all (\<lambda>p. validate_supported_schema (snd p)) properties
          \<longleftrightarrow> those (map envelope_type_of (map snd properties)) \<noteq> None"
        unfolding those_map by (force simp: list_all_iff)
      with True SObject show ?thesis
        by (simp add: supported_form [of schema] envelope_type_of.simps [of schema])
    qed (use SObject in \<open>auto simp: supported_form [of schema] envelope_type_of.simps [of schema]\<close>)
  qed (use 1(2) in \<open>auto simp: supported_form [of schema] envelope_type_of.simps [of schema]\<close>)
qed

lemma value_iff: "envelope_type_of schema = Some t \<Longrightarrow> validate_schema_value v schema \<longleftrightarrow> inhabits v t"
proof (induction schema arbitrary: v t rule: envelope_type_of.induct)
  case (1 schema)
  show ?case
  proof (cases "form_of schema")
    case (SObject properties required)
    then obtain types where ok: "list_all is_string required" "set (string_names required) \<subseteq> set (bt_keys properties)"
        and types: "those (map envelope_type_of (map snd properties)) = Some types"
        and t: "t = Closed (zip (bt_keys properties) types) (string_names required)"
      using 1(3) by (auto simp: envelope_type_of.simps [of schema] split: if_split_asm)
    have keys: "fst ` set (zip (bt_keys properties) types) = set (bt_keys properties)"
      using those_length [OF types] by (metis length_map list.set_map map_fst_zip)
    have child: "(case bt_get properties name of None \<Rightarrow> False | Some p \<Rightarrow> validate_schema_value w p)
        \<longleftrightarrow> (case map_of (zip (bt_keys properties) types) name of Some t \<Rightarrow> inhabits w t | None \<Rightarrow> False)" for name w
    proof (cases "bt_get properties name")
      case None
      then show ?thesis using those_map_of [OF types, of name] by simp
    next
      case (Some p)
      then have mem: "p \<in> set (map snd properties)" by (force dest: map_of_SomeD)
      then have "envelope_type_of p \<noteq> None"
        using types those_map [of envelope_type_of "map snd properties"] by (auto simp: list_all_iff)
      then obtain u where "envelope_type_of p = Some u" by auto
      with mem ok SObject 1(1) [OF SObject _ mem, of u w] Some those_map_of [OF types, of name] show ?thesis by simp
    qed
    show ?thesis
      using ok by (simp add: value_form [of v schema] SObject t keys child split: json.splits)
  qed (use 1(2,3) in \<open>auto simp: value_form [of v schema] envelope_type_of.simps [of schema] split: json.splits\<close>)
qed

section \<open>What is recovered\<close>

lemma rposition_Some:
  "rposition p xs = Some i \<Longrightarrow> i < length xs \<and> p (xs ! i) \<and> list_all (\<lambda>x. \<not> p x) (drop (Suc i) xs)"
proof (induction xs arbitrary: i)
  case Nil
  then show ?case by simp
next
  case (Cons x xs)
  show ?case
  proof (cases "rposition p xs")
    case (Some j)
    with Cons show ?thesis by auto
  next
    case None
    have "list_all (\<lambda>x. \<not> p x) xs"
      using None by (induction xs) (auto split: option.splits if_split_asm)
    with None Cons.prems show ?thesis by (auto split: if_split_asm)
  qed
qed

lemma check_envelope_steps:
  assumes "check_envelope jt img expected_argv line = Inr observed"
  obtains schema where "jt_from_str jt line = Some observed" "is_exact_minified_json jt line"
    "jt_from_slice jt (ri_terminal_envelope_schema img) = Some schema"
    "validate_supported_schema schema" "validate_schema_value observed schema"
    "jget observed ''schema'' = Some (JStr (ea_schema_id (im_terminal_envelope (ri_manifest img))))"
    "opt_ex (\<lambda>task. required_property_schema task ''argv'' \<noteq> None) (required_property_schema schema ''task'')
      \<longrightarrow> echoes_argv observed expected_argv"
  using assms that by (auto simp: check_envelope_def bind_eq_Some_conv split: option.splits if_split_asm)

lemma recover_terminal_steps:
  assumes "recover_terminal jt img messages expected_argv = Inr r"
  obtains i j where
    "rposition (\<lambda>m. list_ex (\<lambda>l. \<not> blank_line l) (str_lines m)) messages = Some i"
    "rposition (\<lambda>l. \<not> blank_line l) (split_on (\<lambda>c. c = LF) (messages ! i)) = Some j"
    "check_envelope jt img expected_argv (split_on (\<lambda>c. c = LF) (messages ! i) ! j) = Inr (rt_envelope r)"
    "rt_visible_messages r = filter (\<lambda>m. m \<noteq> []) (messages[i := join [LF] (drop_trailing_blank
       (remove_nth j (split_on (\<lambda>c. c = LF) (messages ! i))))])"
    "rt_visible_text r = join [LF] (rt_visible_messages r)"
  using assms that by (auto simp: recover_terminal_def Let_def result_simps split: option.splits)

fun no_duplicate_keys :: "ordered_json \<Rightarrow> bool" where
  "no_duplicate_keys (OArray vs) \<longleftrightarrow> list_all no_duplicate_keys vs"
| "no_duplicate_keys (OObject m) \<longleftrightarrow> distinct (map fst m) \<and> list_all (\<lambda>(k, v). no_duplicate_keys v) m"
| "no_duplicate_keys _ \<longleftrightarrow> True"

lemma visit_distinct:
  "visit e = Some v \<Longrightarrow> no_duplicate_keys v"
  "visit_seq acc es = Some vs \<Longrightarrow> list_all no_duplicate_keys acc \<Longrightarrow> list_all no_duplicate_keys vs"
  "visit_map members kes = Some ms \<Longrightarrow> distinct (map fst members) \<Longrightarrow> list_all (\<lambda>(k, v). no_duplicate_keys v) members
    \<Longrightarrow> distinct (map fst ms) \<and> list_all (\<lambda>(k, v). no_duplicate_keys v) ms"
proof (induction e and acc es and members kes arbitrary: v and vs and ms rule: visit_visit_seq_visit_map.induct)
  case (12 members key e kes)
  then show ?case by (force split: option.splits if_split_asm simp: list_ex_iff)
qed (auto split: option.splits)

text \<open>
  Property C33. A recovered terminal envelope has its type: the schema of the image denotes a type, the
  envelope is a value of it, it carries the schema identity of the manifest, and where the schema
  requires \<open>task.argv\<close> it echoes the argument vector of the runner.
\<close>

theorem recovered_envelope_has_its_type:
  assumes "recover_terminal jt img messages expected_argv = Inr r"
  shows "\<exists>schema t. jt_from_slice jt (ri_terminal_envelope_schema img) = Some schema
    \<and> envelope_type_of schema = Some t \<and> inhabits (rt_envelope r) t
    \<and> jget (rt_envelope r) ''schema'' = Some (JStr (ea_schema_id (im_terminal_envelope (ri_manifest img))))
    \<and> (opt_ex (\<lambda>task. required_property_schema task ''argv'' \<noteq> None) (required_property_schema schema ''task'')
        \<longrightarrow> pointer (rt_envelope r) [''task'', ''argv''] = Some (JArr (map JStr expected_argv)))"
proof -
  obtain i j where "check_envelope jt img expected_argv (split_on (\<lambda>c. c = LF) (messages ! i) ! j) = Inr (rt_envelope r)"
    using assms by (rule recover_terminal_steps)
  then obtain schema where schema: "jt_from_slice jt (ri_terminal_envelope_schema img) = Some schema"
      "validate_supported_schema schema" "validate_schema_value (rt_envelope r) schema"
      "jget (rt_envelope r) ''schema'' = Some (JStr (ea_schema_id (im_terminal_envelope (ri_manifest img))))"
      "opt_ex (\<lambda>task. required_property_schema task ''argv'' \<noteq> None) (required_property_schema schema ''task'')
        \<longrightarrow> echoes_argv (rt_envelope r) expected_argv"
    by (rule check_envelope_steps)
  obtain t where "envelope_type_of schema = Some t"
    using schema(2) by (auto simp: supported_iff)
  with schema value_iff [of schema t] show ?thesis
    by (auto simp: echoes_argv_def bind_eq_Some_conv)
qed

text \<open>
  Property C34. The terminal line is taken out of the text exactly: it is the last nonblank line of the last
  message with one, the encoding of a value without duplicate keys; the visible text is what the
  live stream projects from the same messages, so nothing after it is shown and nothing before it is lost.
\<close>

theorem terminal_line_is_taken_out:
  assumes "recover_terminal jt img messages expected_argv = Inr r"
  shows "\<exists>earlier carrier later before line after v.
    messages = earlier @ carrier # later
    \<and> list_all (\<lambda>m. list_all blank_line (str_lines m)) later
    \<and> split_on (\<lambda>c. c = LF) carrier = before @ line # after
    \<and> \<not> blank_line line \<and> list_all blank_line after
    \<and> jt_from_str jt line = Some (rt_envelope r)
    \<and> no_duplicate_keys v \<and> jt_to_string jt v = Some line
    \<and> rt_visible_messages r = filter (\<lambda>m. m \<noteq> []) (earlier @ join [LF] (drop_trailing_blank before) # later)
    \<and> rt_visible_text r = provisional_visible_text messages"
proof -
  obtain i j where i: "rposition (\<lambda>m. list_ex (\<lambda>l. \<not> blank_line l) (str_lines m)) messages = Some i"
      and j: "rposition (\<lambda>l. \<not> blank_line l) (split_on (\<lambda>c. c = LF) (messages ! i)) = Some j"
      and checked: "check_envelope jt img expected_argv (split_on (\<lambda>c. c = LF) (messages ! i) ! j) = Inr (rt_envelope r)"
      and visible: "rt_visible_messages r = filter (\<lambda>m. m \<noteq> []) (messages[i := join [LF] (drop_trailing_blank
        (remove_nth j (split_on (\<lambda>c. c = LF) (messages ! i))))])"
      and shown: "rt_visible_text r = join [LF] (rt_visible_messages r)"
    using assms by (rule recover_terminal_steps)
  let ?lines = "split_on (\<lambda>c. c = LF) (messages ! i)"
  note at_i = rposition_Some [OF i] and at_j = rposition_Some [OF j]
  have lines: "?lines = take j ?lines @ ?lines ! j # drop (Suc j) ?lines"
    using at_j by (simp add: id_take_nth_drop)
  have messages: "messages = take i messages @ messages ! i # drop (Suc i) messages"
    using at_i by (simp add: id_take_nth_drop)
  have "drop_trailing_blank (remove_nth j ?lines) = drop_trailing_blank (take j ?lines)"
    using at_j by (simp add: drop_trailing_blank_def remove_nth_def) (subst dropWhile_append2, auto simp: list_all_iff)
  then have kept: "rt_visible_messages r = filter (\<lambda>m. m \<noteq> [])
      (take i messages @ join [LF] (drop_trailing_blank (take j ?lines)) # drop (Suc i) messages)"
    using visible at_i by (simp add: upd_conv_take_nth_drop)
  have "is_exact_minified_json jt (?lines ! j)"
    using checked by (rule check_envelope_steps)
  then obtain e v where "visit e = Some v" "jt_to_string jt v = Some (?lines ! j)"
    by (auto simp: is_exact_minified_json_def bind_eq_Some_conv opt_ex_iff)
  moreover have "jt_from_str jt (?lines ! j) = Some (rt_envelope r)"
    using checked by (rule check_envelope_steps)
  moreover have "rt_visible_text r = provisional_visible_text messages"
    using i j visible shown by (simp add: provisional_visible_text_def Let_def)
  moreover have "list_all (\<lambda>m. list_all blank_line (str_lines m)) (drop (Suc i) messages)"
    using at_i by (simp add: list_all_iff list_ex_iff)
  ultimately show ?thesis
    using messages lines kept at_j visit_distinct(1) [of e v] by (metis (no_types, lifting) list_all_cong)
qed

section \<open>A small envelope\<close>

definition small_envelope :: json where
  "small_envelope = JObj [(''schema'', JStr ''e'')]"

definition small_schema :: json where
  "small_schema = JObj [(''additionalProperties'', JBool False),
     (''properties'', JObj [(''schema'', JObj [(''const'', JStr ''e'')])]),
     (''required'', JArr [JStr ''schema'']), (''type'', JStr ''object'')]"

definition small_json :: json_text where
  "small_json = \<lparr>jt_from_str = \<lambda>line. Some small_envelope, jt_from_slice = \<lambda>bytes. Some small_schema,
     jt_events = \<lambda>line. Some (VisitMap [(''schema'', VisitStr ''e'')]), jt_to_string = \<lambda>v. Some ''{}''\<rparr>"

lemma small_lines:
  "blank_line []" "\<not> blank_line ''hi''" "\<not> blank_line ''{}''"
  by code_simp+

lemma small_schema_ok: "validate_supported_schema small_schema" "validate_schema_value small_envelope small_schema"
  by (simp_all add: small_schema_def small_envelope_def validate_supported_schema.simps validate_schema_value.simps)

lemma small_check: "check_envelope small_json (small_image []) [] ''{}'' = Inr small_envelope"
  using small_schema_ok
  by (simp add: check_envelope_def small_json_def is_exact_minified_json_def small_image_def small_manifest_def)
    (simp add: small_envelope_def small_schema_def required_property_schema_def)

lemma small_recovered:
  "recover_terminal small_json (small_image []) [''hi'' @ LF # ''{}'' @ [LF], []] [] =
     Inr \<lparr>rt_envelope = small_envelope, rt_visible_messages = [''hi''], rt_visible_text = ''hi''\<rparr>"
  using small_lines small_check
  by (simp add: recover_terminal_def str_lines_def LF_def CR_def drop_cr_def remove_nth_def drop_trailing_blank_def Let_def)

theorem recovered_envelope_has_its_type_witness:
  "\<exists>schema t. jt_from_slice small_json (ri_terminal_envelope_schema (small_image [])) = Some schema
    \<and> envelope_type_of schema = Some t \<and> inhabits small_envelope t"
  using recovered_envelope_has_its_type [OF small_recovered] by auto

theorem terminal_line_is_taken_out_witness:
  "\<exists>earlier carrier later before line after v.
    [''hi'' @ LF # ''{}'' @ [LF], []] = earlier @ carrier # later
    \<and> split_on (\<lambda>c. c = LF) carrier = before @ line # after
    \<and> jt_from_str small_json line = Some small_envelope
    \<and> no_duplicate_keys v \<and> jt_to_string small_json v = Some line
    \<and> [''hi''] = filter (\<lambda>m. m \<noteq> []) (earlier @ join [LF] (drop_trailing_blank before) # later)
    \<and> ''hi'' = provisional_visible_text [''hi'' @ LF # ''{}'' @ [LF], []]"
  using terminal_line_is_taken_out [OF small_recovered, unfolded recovered_terminal.simps] by blast

end
