(* ===== verification/Canonical_Json.thy ===== *)
theory Canonical_Json
  imports Complex_Main Json Text_Safety
begin

text \<open>
  The JSON text the runner prints (\<open>canonical_json\<close> of \<open>output.rs\<close>): compact, object keys in UTF-16 order,
  numbers in ECMAScript form.  Two renderings are arguments: \<open>json_string\<close>, the string literal of
  \<open>serde_json\<close>, and \<open>lower_exp\<close>, Rust's \<open>{:e}\<close> of a float.  What is known of them is stated as
  \<open>string_writer\<close> and \<open>exponent_writer\<close>.  The reader of RFC 8259 is the specification: what is printed reads
  back.
\<close>

section \<open>Numbers\<close>

definition signed_decimal :: "int \<Rightarrow> string" where
  "signed_decimal i = (if i < 0 then CHR ''-'' # decimal (nat (- i)) else decimal (nat i))"

text \<open>\<open>str::parse::<i64>\<close>.\<close>

definition parse_i64 :: "string \<Rightarrow> int option" where
  "parse_i64 s =
     (let (neg, u) = (case s of [] \<Rightarrow> (False, []) | c # r \<Rightarrow>
            if c = CHR ''-'' then (True, r) else if c = CHR ''+'' then (False, r) else (False, s)) in
      if u = [] \<or> \<not> list_all ascii_digit u then None
      else let i = (if neg then - int (digits_value u) else int (digits_value u)) in
           if - 9223372036854775808 \<le> i \<and> i \<le> 9223372036854775807 then Some i else None)"

definition zeros :: "int \<Rightarrow> string" where
  "zeros count = replicate (nat count) (CHR ''0'')"

definition ecmascript_form :: "string \<Rightarrow> int \<Rightarrow> string" where
  "ecmascript_form digits n =
     (let k = int (length digits) in
      if k \<le> n \<and> n \<le> 21 then digits @ zeros (n - k)
      else if 0 < n \<and> n \<le> 21 then take (nat n) digits @ ''.'' @ drop (nat n) digits
      else if - 6 < n \<and> n \<le> 0 then ''0.'' @ zeros (- n) @ digits
      else
        let sign = (if n - 1 < 0 then ''-'' else ''+''); magnitude = decimal (nat \<bar>n - 1\<bar>) in
        if k = 1 then digits @ ''e'' @ sign @ magnitude
        else take 1 digits @ ''.'' @ drop 1 digits @ ''e'' @ sign @ magnitude)"

definition ecmascript_positive :: "(rat \<Rightarrow> string) \<Rightarrow> rat \<Rightarrow> string" where
  "ecmascript_positive lower_exp x =
     (case split_once (CHR ''e'') (lower_exp x) of
        None \<Rightarrow> []
      | Some (mantissa, exponent) \<Rightarrow>
          ecmascript_form (filter ascii_digit mantissa)
            ((case parse_i64 exponent of Some e \<Rightarrow> e | None \<Rightarrow> 0) + 1))"

definition ecmascript_number :: "(rat \<Rightarrow> string) \<Rightarrow> rat \<Rightarrow> string" where
  "ecmascript_number lower_exp x =
     (if x = 0 then ''0''
      else if x < 0 then CHR ''-'' # ecmascript_positive lower_exp (- x)
      else ecmascript_positive lower_exp x)"

fun number_text :: "(rat \<Rightarrow> string) \<Rightarrow> num \<Rightarrow> string" where
  "number_text lower_exp (PosInt n) = decimal n"
| "number_text lower_exp (NegInt i) = signed_decimal i"
| "number_text lower_exp (Float x) = ecmascript_number lower_exp x"

section \<open>Values\<close>

text \<open>\<open>keys.sort_by(|a, b| a.encode_utf16().cmp(b.encode_utf16()))\<close>.\<close>

definition utf16_sorted :: "string list \<Rightarrow> string list" where
  "utf16_sorted keys = sort_key (\<lambda>key. utf16_encode (chars key)) keys"

lemma set_utf16_sorted [simp]: "set (utf16_sorted keys) = set keys"
  by (simp add: utf16_sorted_def)

lemma canonical_child: "bt_get m key = Some w \<Longrightarrow> size w < Suc (size_list (size_prod (\<lambda>x. 0) size) m)"
  by (induction m) (auto split: if_split_asm)

function write_canonical :: "(ustr \<Rightarrow> ustr) \<Rightarrow> (rat \<Rightarrow> string) \<Rightarrow> json \<Rightarrow> ustr" where
  "write_canonical js fl JNull = asc ''null''"
| "write_canonical js fl (JBool b) = (if b then asc ''true'' else asc ''false'')"
| "write_canonical js fl (JNum n) = asc (number_text fl n)"
| "write_canonical js fl (JStr s) = js (chars s)"
| "write_canonical js fl (JArr vs) = asc ''['' @ join (asc '','') (map (write_canonical js fl) vs) @ asc '']''"
| "write_canonical js fl (JObj m) =
     asc ''{'' @ join (asc '','') (map (\<lambda>key.
        js (chars key) @ asc '':'' @ (case bt_get m key of Some w \<Rightarrow> write_canonical js fl w | None \<Rightarrow> []))
       (utf16_sorted (bt_keys m))) @ asc ''}''"
  by pat_completeness auto
termination
  by (relation "measure (\<lambda>(js, fl, v). size v)") (auto dest: canonical_child simp: less_Suc_eq_le intro: size_list_estimation')

definition canonical_json :: "(ustr \<Rightarrow> ustr) \<Rightarrow> (rat \<Rightarrow> string) \<Rightarrow> json \<Rightarrow> ustr" where
  "canonical_json js fl v = write_canonical js fl v"

section \<open>Reading numbers\<close>

text \<open>The number grammar of RFC 8259 with its value.\<close>

definition json_int :: "string \<Rightarrow> bool" where
  "json_int s \<longleftrightarrow> s \<noteq> [] \<and> list_all ascii_digit s \<and> (s = ''0'' \<or> hd s \<noteq> CHR ''0'')"

definition exponent_value :: "string \<Rightarrow> int option" where
  "exponent_value s =
     (let (neg, u) = (case s of [] \<Rightarrow> (False, []) | c # r \<Rightarrow>
            if c = CHR ''-'' then (True, r) else if c = CHR ''+'' then (False, r) else (False, s)) in
      if u = [] \<or> \<not> list_all ascii_digit u then None
      else Some (if neg then - int (digits_value u) else int (digits_value u)))"

definition unsigned_value :: "string \<Rightarrow> rat option" where
  "unsigned_value u =
     (let (m, e) = (case split_once (CHR ''e'') u of Some (m, e) \<Rightarrow> (m, exponent_value e) | None \<Rightarrow> (u, Some 0));
          (i, f, fraction) = (case split_once (CHR ''.'') m of Some (i, f) \<Rightarrow> (i, f, f \<noteq> []) | None \<Rightarrow> (m, [], True)) in
      case e of
        None \<Rightarrow> None
      | Some x \<Rightarrow>
          if json_int i \<and> fraction \<and> list_all ascii_digit f
          then Some (of_nat (digits_value (i @ f)) * 10 powi (x - int (length f))) else None)"

definition number_value :: "string \<Rightarrow> rat option" where
  "number_value s =
     (case s of
        [] \<Rightarrow> None
      | c # u \<Rightarrow> if c = CHR ''-'' then map_option uminus (unsigned_value u) else unsigned_value s)"

text \<open>Rust's exponential form of a positive float: one nonzero digit, a fraction, an exponent.\<close>

definition exponential_text :: "char \<Rightarrow> string \<Rightarrow> int \<Rightarrow> string" where
  "exponential_text d ds e = d # (if ds = [] then [] else CHR ''.'' # ds) @ CHR ''e'' # signed_decimal e"

definition exponent_writer :: "(rat \<Rightarrow> string) \<Rightarrow> bool" where
  "exponent_writer fl \<longleftrightarrow>
     (\<forall>x. 0 < x \<longrightarrow> (\<exists>d ds e. fl x = exponential_text d ds e \<and> ascii_digit d \<and> d \<noteq> CHR ''0''
        \<and> list_all ascii_digit ds \<and> \<bar>e\<bar> \<le> 400))"

lemma digits_value_append: "digits_value (a @ b) = digits_value a * 10 ^ length b + digits_value b"
proof (induction b rule: rev_induct)
  case Nil
  show ?case by (simp add: digits_value_def)
next
  case (snoc c b)
  have "digits_value ((a @ b) @ [c]) = 10 * digits_value (a @ b) + (code c - 48)"
    by (rule digits_value_snoc)
  with snoc digits_value_snoc [of b c] show ?case by (simp add: algebra_simps)
qed

lemma digits_value_zeros: "digits_value (replicate z (CHR ''0'')) = 0"
  by (induction z) (simp_all add: digits_value_def)

lemma digit_not_special:
  "ascii_digit c \<Longrightarrow> c \<noteq> CHR ''e''" "ascii_digit c \<Longrightarrow> c \<noteq> CHR ''.''" "ascii_digit c \<Longrightarrow> c \<noteq> CHR ''-''"
  "ascii_digit c \<Longrightarrow> c \<noteq> CHR ''+''"
  by (auto simp: ascii_digit_def)

lemma ascii_digit_zero [simp]: "ascii_digit (CHR ''0'')"
  by (simp add: ascii_digit_def)

lemma digits_plain:
  "list_all ascii_digit s \<Longrightarrow> CHR ''e'' \<notin> set s" "list_all ascii_digit s \<Longrightarrow> CHR ''.'' \<notin> set s"
  by (auto simp: list_all_iff dest: digit_not_special)

lemma decimal_all: "list_all ascii_digit (decimal n)"
  by (auto simp: list_all_iff dest: decimal_digits)

lemma decimal_not_empty: "decimal n \<noteq> []"
  by (subst decimal.simps) simp

lemma decimal_int: "json_int (decimal n)"
proof (cases "n = 0")
  case True
  with decimal_all [of 0] show ?thesis by (simp add: json_int_def decimal.simps char_of_def bit_iff_odd)
next
  case False
  with decimal_Cons [of n] decimal_all [of n] show ?thesis by (auto simp: json_int_def)
qed

lemma parse_signed_decimal: "\<bar>e\<bar> \<le> 400 \<Longrightarrow> parse_i64 (signed_decimal e) = Some e"
proof -
  assume bound: "\<bar>e\<bar> \<le> 400"
  obtain c cs where c: "decimal (nat e) = c # cs" using decimal_not_empty by (metis neq_Nil_conv)
  then have "ascii_digit c" using decimal_all [of "nat e"] by simp
  then show ?thesis
    using bound c decimal_all [of "nat e"] decimal_all [of "nat (- e)"] decimal_not_empty [of "nat (- e)"]
      digits_value_decimal [of "nat e"] digits_value_decimal [of "nat (- e)"]
    by (auto simp: parse_i64_def signed_decimal_def dest: digit_not_special)
qed

lemma exponent_value_signed: "exponent_value (signed_decimal e) = Some e"
proof -
  obtain c cs where c: "decimal (nat e) = c # cs" using decimal_not_empty by (metis neq_Nil_conv)
  then have "ascii_digit c" using decimal_all [of "nat e"] by simp
  then show ?thesis
    using c decimal_all [of "nat e"] decimal_all [of "nat (- e)"] decimal_not_empty [of "nat (- e)"]
      digits_value_decimal [of "nat e"] digits_value_decimal [of "nat (- e)"]
    by (auto simp: exponent_value_def signed_decimal_def dest: digit_not_special)
qed

lemma exponent_value_sign:
  "exponent_value (''-'' @ decimal n) = Some (- int n)" "exponent_value (''+'' @ decimal n) = Some (int n)"
  using decimal_all [of n] decimal_not_empty [of n] by (simp_all add: exponent_value_def digits_value_decimal)

lemma unsigned_integer:
  assumes "json_int i"
  shows "unsigned_value i = Some (of_nat (digits_value i))"
proof -
  have "split_once (CHR ''e'') i = None" "split_once (CHR ''.'') i = None"
    using assms digits_plain by (simp_all add: json_int_def split_once_None)
  with assms show ?thesis by (simp add: unsigned_value_def)
qed

lemma unsigned_fraction:
  assumes "json_int i" "f \<noteq> []" "list_all ascii_digit f"
  shows "unsigned_value (i @ CHR ''.'' # f) = Some (of_nat (digits_value (i @ f)) * 10 powi (- int (length f)))"
proof -
  have "CHR ''e'' \<notin> set (i @ CHR ''.'' # f)"
    using assms digits_plain by (auto simp: json_int_def)
  then have "split_once (CHR ''e'') (i @ CHR ''.'' # f) = None"
    by (simp add: split_once_None)
  moreover have "CHR ''.'' \<notin> set i"
    using assms digits_plain by (simp add: json_int_def)
  ultimately show ?thesis using assms by (simp add: unsigned_value_def)
qed

lemma unsigned_exponent:
  assumes "json_int i" "list_all ascii_digit f" "exponent_value x = Some e"
  shows "unsigned_value (i @ (if f = [] then [] else CHR ''.'' # f) @ CHR ''e'' # x)
    = Some (of_nat (digits_value (i @ f)) * 10 powi (e - int (length f)))"
proof -
  let ?m = "i @ (if f = [] then [] else CHR ''.'' # f)"
  have "CHR ''e'' \<notin> set ?m"
    using assms digits_plain by (auto simp: json_int_def)
  then have "split_once (CHR ''e'') (?m @ CHR ''e'' # x) = Some (?m, x)"
    by (rule split_once_append)
  moreover have "CHR ''.'' \<notin> set i"
    using assms digits_plain by (simp add: json_int_def)
  then have "split_once (CHR ''.'') ?m = (if f = [] then None else Some (i, f))"
    by (simp add: split_once_None)
  ultimately show ?thesis using assms by (cases "f = []") (simp_all add: unsigned_value_def)
qed

lemma powi_add: "(10::rat) powi (a + b) = 10 powi a * 10 powi b"
  by (simp add: power_int_add)

lemma ecmascript_form_value:
  assumes digits: "digits = d # ds" "ascii_digit d" "d \<noteq> CHR ''0''" "list_all ascii_digit ds"
  shows "unsigned_value (ecmascript_form digits n) = Some (of_nat (digits_value digits) * 10 powi (n - int (length digits)))"
proof -
  let ?k = "int (length digits)"
  have all: "list_all ascii_digit digits" and lead: "json_int digits"
    using digits by (simp_all add: json_int_def)
  consider "?k \<le> n \<and> n \<le> 21" | "n < ?k \<and> 0 < n \<and> n \<le> 21" | "n \<le> 0 \<and> - 6 < n" | "n \<le> - 6 \<or> 21 < n"
    by linarith
  then show ?thesis
  proof cases
    case 1
    then have "ecmascript_form digits n = digits @ zeros (n - ?k)"
      by (simp add: ecmascript_form_def)
    moreover have "json_int (digits @ zeros (n - ?k))"
      using digits by (auto simp: json_int_def zeros_def list_all_iff)
    moreover have "(10::rat) powi (n - ?k) = 10 ^ nat (n - ?k)"
      using 1 by (simp add: power_int_def)
    ultimately show ?thesis
      by (simp add: unsigned_integer digits_value_append digits_value_zeros zeros_def)
  next
    case 2
    then have form: "ecmascript_form digits n = take (nat n) digits @ CHR ''.'' # drop (nat n) digits"
      by (simp add: ecmascript_form_def)
    have "json_int (take (nat n) digits)"
      using 2 digits all by (cases "nat n") (auto simp: json_int_def list_all_iff dest: in_set_takeD)
    moreover have "drop (nat n) digits \<noteq> []" using 2 by auto
    moreover have "list_all ascii_digit (drop (nat n) digits)"
      using all by (auto simp: list_all_iff dest: in_set_dropD)
    ultimately have "unsigned_value (ecmascript_form digits n)
        = Some (of_nat (digits_value digits) * 10 powi (- int (length (drop (nat n) digits))))"
      unfolding form by (simp add: unsigned_fraction)
    moreover have "- int (length (drop (nat n) digits)) = n - ?k" using 2 by (auto simp: of_nat_diff nat_le_iff)
    ultimately show ?thesis by (simp only:)
  next
    case 3
    then have "ecmascript_form digits n = ''0'' @ CHR ''.'' # (zeros (- n) @ digits)"
      using digits by (simp add: ecmascript_form_def)
    moreover have "unsigned_value (''0'' @ CHR ''.'' # (zeros (- n) @ digits))
        = Some (of_nat (digits_value (''0'' @ zeros (- n) @ digits)) * 10 powi (- int (length (zeros (- n) @ digits))))"
      by (rule unsigned_fraction) (use all digits in \<open>auto simp: json_int_def zeros_def list_all_iff\<close>)
    moreover have "digits_value (''0'' @ zeros (- n) @ digits) = digits_value digits"
    proof -
      have "''0'' @ zeros (- n) @ digits = replicate (Suc (nat (- n))) (CHR ''0'') @ digits"
        by (simp add: zeros_def)
      then show ?thesis by (simp only: digits_value_append digits_value_zeros)
    qed
    moreover have "- int (length (zeros (- n) @ digits)) = n - ?k"
      using 3 by (simp add: zeros_def)
    ultimately show ?thesis by simp
  next
    case 4
    define x where "x = (if n - 1 < 0 then ''-'' else ''+'') @ decimal (nat \<bar>n - 1\<bar>)"
    have "ecmascript_form digits n = [d] @ (if ds = [] then [] else CHR ''.'' # ds) @ CHR ''e'' # x"
      using 4 digits(1) by (auto simp: ecmascript_form_def Let_def x_def)
    moreover have "exponent_value x = Some (n - 1)"
      using exponent_value_sign [of "nat \<bar>n - 1\<bar>"] by (auto simp: x_def)
    then have "unsigned_value ([d] @ (if ds = [] then [] else CHR ''.'' # ds) @ CHR ''e'' # x)
        = Some (of_nat (digits_value ([d] @ ds)) * 10 powi (n - 1 - int (length ds)))"
      by (intro unsigned_exponent) (use digits in \<open>simp_all add: json_int_def\<close>)
    moreover have "n - 1 - int (length ds) = n - ?k" using digits(1) by simp
    ultimately show ?thesis using digits(1) by (simp only: append.simps)
  qed
qed

lemma ecmascript_positive_value:
  assumes "exponent_writer fl" "0 < x"
  shows "unsigned_value (ecmascript_positive fl x) = unsigned_value (fl x)" "unsigned_value (fl x) \<noteq> None"
proof -
  obtain d ds e where form: "fl x = exponential_text d ds e" and digits: "ascii_digit d" "d \<noteq> CHR ''0''"
      "list_all ascii_digit ds" and e: "\<bar>e\<bar> \<le> 400"
    using assms unfolding exponent_writer_def by blast
  let ?m = "d # (if ds = [] then [] else CHR ''.'' # ds)"
  have "CHR ''e'' \<notin> set ?m"
    using digits digits_plain by (auto dest: digit_not_special)
  then have "split_once (CHR ''e'') (fl x) = Some (?m, signed_decimal e)"
    unfolding form exponential_text_def using split_once_append [of "CHR ''e''" ?m "signed_decimal e"] by simp
  moreover have "filter ascii_digit ?m = d # ds"
    using digits by (auto simp: list_all_iff filter_id_conv ascii_digit_def)
  ultimately have "ecmascript_positive fl x = ecmascript_form (d # ds) (e + 1)"
    using parse_signed_decimal [OF e] by (simp add: ecmascript_positive_def)
  then have written: "unsigned_value (ecmascript_positive fl x)
      = Some (of_nat (digits_value (d # ds)) * 10 powi (e - int (length ds)))"
    using ecmascript_form_value [OF refl digits, of "e + 1"] by simp
  have "unsigned_value (fl x) = Some (of_nat (digits_value ([d] @ ds)) * 10 powi (e - int (length ds)))"
    using unsigned_exponent [of "[d]" ds "signed_decimal e" e] digits exponent_value_signed [of e]
    by (simp add: form exponential_text_def json_int_def)
  with written show "unsigned_value (ecmascript_positive fl x) = unsigned_value (fl x)" "unsigned_value (fl x) \<noteq> None"
    by simp_all
qed

lemma number_value_negative: "unsigned_value u = Some x \<Longrightarrow> number_value (CHR ''-'' # u) = Some (- x)"
  by (simp add: number_value_def)

lemma unsigned_value_start:
  assumes "unsigned_value u \<noteq> None"
  shows "\<exists>c t. u = c # t \<and> ascii_digit c"
proof (rule ccontr)
  assume other: "\<not> (\<exists>c t. u = c # t \<and> ascii_digit c)"
  have "\<not> json_int i" if "\<exists>r. u = i @ r" for i
    using that other by (cases i) (auto simp: json_int_def)
  then show False
    using assms by (auto simp: unsigned_value_def split_once_Some split: option.splits if_split_asm prod.splits)
qed

lemma number_value_unsigned: "unsigned_value u = Some x \<Longrightarrow> number_value u = Some x"
  using unsigned_value_start [of u] by (auto simp: number_value_def dest: digit_not_special split: list.splits)

text \<open>The number a text of the runner stands for; of a float, the decimal number of its shortest form.\<close>

fun num_value :: "(rat \<Rightarrow> string) \<Rightarrow> num \<Rightarrow> rat" where
  "num_value fl (PosInt n) = of_nat n"
| "num_value fl (NegInt i) = of_int i"
| "num_value fl (Float x) =
     (if x = 0 then 0 else if x < 0 then - the (unsigned_value (fl (- x))) else the (unsigned_value (fl x)))"

lemma number_text_value:
  assumes "exponent_writer fl" "num_wf n"
  shows "number_value (number_text fl n) = Some (num_value fl n)"
proof (cases n)
  case (PosInt m)
  then show ?thesis by (simp add: number_value_unsigned unsigned_integer decimal_int digits_value_decimal)
next
  case (NegInt i)
  with assms(2) have "i < 0" by simp
  then have "unsigned_value (decimal (nat (- i))) = Some (of_int (- i))"
    by (simp add: unsigned_integer decimal_int digits_value_decimal)
  with NegInt \<open>i < 0\<close> show ?thesis by (simp add: signed_decimal_def number_value_negative)
next
  case (Float x)
  have positive: "unsigned_value (ecmascript_positive fl y) = Some (the (unsigned_value (fl y)))" if "0 < y" for y
    using ecmascript_positive_value [OF assms(1) that] by auto
  show ?thesis
    using Float positive [of x] positive [of "- x"]
    by (auto simp: ecmascript_number_def number_value_unsigned number_value_negative unsigned_integer json_int_def
        digits_value_def not_less order.order_iff_strict)
qed

section \<open>Reading values\<close>

datatype jvalue =
    VNull
  | VBool bool
  | VNumber rat
  | VString ustr
  | VArray "jvalue list"
  | VObject "(ustr \<times> jvalue) list"

text \<open>The bytes a number is made of, and the longest run of them.\<close>

definition number_byte :: "nat \<Rightarrow> bool" where
  "number_byte c \<longleftrightarrow> 48 \<le> c \<and> c \<le> 57 \<or> c \<in> {43, 45, 46, 101, 69}"

definition read_number :: "ustr \<Rightarrow> (jvalue \<times> ustr) option" where
  "read_number s =
     (case number_value (map char_of (takeWhile number_byte s)) of
        None \<Rightarrow> None
      | Some x \<Rightarrow> Some (VNumber x, dropWhile number_byte s))"

definition read_word :: "string \<Rightarrow> jvalue \<Rightarrow> ustr \<Rightarrow> (jvalue \<times> ustr) option" where
  "read_word w v s = map_option (\<lambda>r. (v, r)) (strip_prefix (asc w) s)"

text \<open>A reader of compact JSON texts (RFC 8259 without the optional whitespace), with fuel.\<close>

fun read_value :: "nat \<Rightarrow> ustr \<Rightarrow> (jvalue \<times> ustr) option"
  and read_items :: "nat \<Rightarrow> ustr \<Rightarrow> (jvalue list \<times> ustr) option"
  and read_members :: "nat \<Rightarrow> ustr \<Rightarrow> ((ustr \<times> jvalue) list \<times> ustr) option" where
  "read_value 0 s = None"
| "read_value (Suc n) s =
     (case s of
        [] \<Rightarrow> None
      | c # r \<Rightarrow>
          if c = 110 then read_word ''null'' VNull s
          else if c = 116 then read_word ''true'' (VBool True) s
          else if c = 102 then read_word ''false'' (VBool False) s
          else if c = 34 then map_option (\<lambda>(t, r). (VString t, r)) (json_literal s)
          else if c = 91 then
            (case r of
               [] \<Rightarrow> None
             | d # t \<Rightarrow> if d = 93 then Some (VArray [], t) else map_option (\<lambda>(vs, r). (VArray vs, r)) (read_items n r))
          else if c = 123 then
            (case r of
               [] \<Rightarrow> None
             | d # t \<Rightarrow> if d = 125 then Some (VObject [], t) else map_option (\<lambda>(ms, r). (VObject ms, r)) (read_members n r))
          else read_number s)"
| "read_items 0 s = None"
| "read_items (Suc n) s =
     (case read_value n s of
        None \<Rightarrow> None
      | Some (v, r) \<Rightarrow>
          (case r of
             [] \<Rightarrow> None
           | c # t \<Rightarrow>
               if c = 93 then Some ([v], t)
               else if c = 44 then map_option (\<lambda>(vs, r). (v # vs, r)) (read_items n t)
               else None))"
| "read_members 0 s = None"
| "read_members (Suc n) s =
     (case json_literal s of
        None \<Rightarrow> None
      | Some (key, r) \<Rightarrow>
          (case r of
             [] \<Rightarrow> None
           | colon # t \<Rightarrow>
               if colon \<noteq> 58 then None
               else case read_value n t of
                      None \<Rightarrow> None
                    | Some (v, r) \<Rightarrow>
                        (case r of
                           [] \<Rightarrow> None
                         | c # t \<Rightarrow>
                             if c = 125 then Some ([(key, v)], t)
                             else if c = 44 then map_option (\<lambda>(ms, r). ((key, v) # ms, r)) (read_members n t)
                             else None)))"

definition read_json :: "ustr \<Rightarrow> jvalue option" where
  "read_json s = (case read_value (Suc (length s)) s of Some (v, []) \<Rightarrow> Some v | _ \<Rightarrow> None)"

text \<open>The value a JSON value stands for, members in the order they are printed.\<close>

function denoted :: "(rat \<Rightarrow> string) \<Rightarrow> json \<Rightarrow> jvalue" where
  "denoted fl JNull = VNull"
| "denoted fl (JBool b) = VBool b"
| "denoted fl (JNum n) = VNumber (num_value fl n)"
| "denoted fl (JStr s) = VString (chars s)"
| "denoted fl (JArr vs) = VArray (map (denoted fl) vs)"
| "denoted fl (JObj m) =
     VObject (map (\<lambda>key. (chars key, case bt_get m key of Some w \<Rightarrow> denoted fl w | None \<Rightarrow> VNull))
       (utf16_sorted (bt_keys m)))"
  by pat_completeness auto
termination
  by (relation "measure (\<lambda>(fl, v). size v)") (auto dest: canonical_child simp: less_Suc_eq_le intro: size_list_estimation')

text \<open>The documented behaviour of the string writer: a literal that reads back, on one line.\<close>

definition string_writer :: "(ustr \<Rightarrow> ustr) \<Rightarrow> bool" where
  "string_writer js \<longleftrightarrow>
     (\<forall>s r. list_all scalar s \<longrightarrow> json_literal (js s @ r) = Some (s, r))
     \<and> (\<forall>s. list_all scalar s \<longrightarrow> 10 \<notin> set (js s) \<and> list_all scalar (js s))"

lemma scalar_ascii: "c < 128 \<Longrightarrow> scalar c"
  by (simp add: scalar_def)

lemma quote_char_scalar: "scalar c \<Longrightarrow> list_all scalar (quote_char c)"
proof (cases "quote_escapes c")
  case True
  have "c' < 128" if "c' \<in> set (concat (map (\<lambda>u. escaped 117 @ hex4_lower (unat u)) (utf16_char c)))" for c'
    using that by (force simp: escaped_def dest: hex4_lower_safe split: if_splits)
  with True show ?thesis
    by (auto simp: quote_char_def list_all_iff escaped_def scalar_ascii)
next
  case False
  assume "scalar c"
  with False show ?thesis by (auto simp: quote_char_def list_all_iff escaped_def scalar_ascii)
qed

lemma quote_writer: "string_writer quote"
proof -
  have "quote_escapes 10" by (simp add: quote_escapes_def)
  then have "10 \<notin> set (quote s)" for s using quote_visible by blast
  moreover have "list_all scalar (quote s)" if "list_all scalar s" for s
    using that quote_char_scalar by (auto simp: quote_def list_all_iff scalar_ascii)
  ultimately show ?thesis by (simp add: string_writer_def json_literal_quote)
qed

section \<open>What is printed reads back\<close>

lemma literal_start: "\<lbrakk>string_writer js; list_all scalar s\<rbrakk> \<Longrightarrow> \<exists>t. js s = 34 # t"
proof -
  assume "string_writer js" "list_all scalar s"
  then have "json_literal (js s @ []) = Some (s, [])" unfolding string_writer_def by blast
  then show ?thesis by (cases "js s") (auto simp: json_literal_def split: if_split_asm)
qed

text \<open>What may follow a value: the end of the text, a comma or a closing bracket.\<close>

definition delimited :: "ustr \<Rightarrow> bool" where
  "delimited r \<longleftrightarrow> r = [] \<or> hd r \<in> {44, 93, 125}"

lemma delimited_simps [simp]: "delimited []" "delimited (44 # r)" "delimited (93 # r)" "delimited (125 # r)"
  by (simp_all add: delimited_def)

lemma asc_append [simp]: "asc (a @ b) = asc a @ asc b"
  by (simp add: asc_def)

lemma map_asc [simp]: "map char_of (asc s) = s"
  by (simp add: asc_def comp_def)

definition number_bytes :: "string \<Rightarrow> bool" where
  "number_bytes s \<longleftrightarrow> list_all (\<lambda>c. number_byte (code c)) s"

lemma digit_number_byte: "list_all ascii_digit s \<Longrightarrow> number_bytes s"
  by (auto simp: number_bytes_def list_all_iff number_byte_def ascii_digit_def)

lemma number_bytes_simps [simp]:
  "number_bytes []" "number_bytes (c # s) \<longleftrightarrow> number_byte (code c) \<and> number_bytes s"
  "number_bytes (a @ b) \<longleftrightarrow> number_bytes a \<and> number_bytes b"
  by (simp_all add: number_bytes_def)

lemma number_byte_signs [simp]: "number_byte 43" "number_byte 45" "number_byte 46" "number_byte 101" "number_byte 48"
  by (simp_all add: number_byte_def)

lemma form_bytes: "list_all ascii_digit digits \<Longrightarrow> number_bytes (ecmascript_form digits n)"
proof -
  assume digits: "list_all ascii_digit digits"
  have "number_bytes (take k digits)" "number_bytes (drop k digits)" for k
    using digits by (auto simp: list_all_iff intro!: digit_number_byte) (metis in_set_takeD in_set_dropD)+
  moreover have "number_bytes (zeros z)" for z
    by (auto simp: zeros_def list_all_iff intro!: digit_number_byte)
  ultimately show ?thesis
    using digit_number_byte [OF digits] digit_number_byte [OF decimal_all]
    unfolding ecmascript_form_def Let_def by (simp split: if_split)
qed

lemma number_text_bytes: "exponent_writer fl \<Longrightarrow> number_bytes (number_text fl n)"
proof (cases n)
  case (Float x)
  have "number_bytes (ecmascript_positive fl y)" for y
    by (auto simp: ecmascript_positive_def list_all_iff intro!: form_bytes split: option.splits)
  with Float show ?thesis by (simp add: ecmascript_number_def)
qed (auto simp: signed_decimal_def intro!: digit_number_byte decimal_all)

lemma read_number_text:
  assumes "exponent_writer fl" "num_wf n" "delimited r"
  shows "read_number (asc (number_text fl n) @ r) = Some (VNumber (num_value fl n), r)"
proof -
  have all: "\<And>c. c \<in> set (asc (number_text fl n)) \<Longrightarrow> number_byte c"
    using number_text_bytes [OF assms(1), of n] by (auto simp: asc_def number_bytes_def list_all_iff)
  have stop: "takeWhile number_byte r = []" "dropWhile number_byte r = r"
    using assms(3) by (cases r; auto simp: delimited_def number_byte_def)+
  then have "takeWhile number_byte (asc (number_text fl n) @ r) = asc (number_text fl n)"
    "dropWhile number_byte (asc (number_text fl n) @ r) = r"
    using all by (simp_all add: takeWhile_append2 dropWhile_append2)
  then show ?thesis
    using number_text_value [OF assms(1,2)] by (simp add: read_number_def)
qed

lemma number_text_start:
  assumes "exponent_writer fl" "num_wf n"
  shows "\<exists>c t. asc (number_text fl n) = c # t \<and> number_byte c"
proof -
  have "number_text fl n \<noteq> []"
    using number_text_value [OF assms] by (auto simp: number_value_def)
  then show ?thesis
    using number_text_bytes [OF assms(1), of n] by (cases "number_text fl n") (auto simp: asc_def)
qed

lemma write_start:
  assumes "string_writer js" "exponent_writer fl" "json_wf v"
  shows "\<exists>c t. write_canonical js fl v = c # t \<and> c \<notin> {93, 125}"
proof (cases v)
  case (JNum n)
  with number_text_start [OF assms(2), of n] assms(3) show ?thesis by (auto simp: number_byte_def)
next
  case (JStr s)
  with literal_start [OF assms(1), of "chars s"] assms(3) show ?thesis by (auto simp: chars_scalar)
qed (simp_all add: asc_def)

lemma read_word_asc: "read_word w v (asc w @ r) = Some (v, r)"
  by (simp add: read_word_def strip_prefix_Some)

lemma read_items_written:
  assumes "vs \<noteq> []"
    and "\<And>v n r. \<lbrakk>v \<in> set vs; length (f v) < n; delimited r\<rbrakk> \<Longrightarrow> read_value n (f v @ r) = Some (g v, r)"
    and "\<And>v. v \<in> set vs \<Longrightarrow> f v \<noteq> []"
    and "length (join [44] (map f vs)) + 1 < n"
  shows "read_items n (join [44] (map f vs) @ 93 # r) = Some (map g vs, r)"
  using assms
proof (induction vs arbitrary: n)
  case Nil
  then show ?case by simp
next
  case (Cons v vs)
  then obtain k where n: "n = Suc k" by (cases n) auto
  show ?case
  proof (cases vs)
    case Nil
    with Cons.prems n show ?thesis by simp
  next
    case (Cons w ws)
    then have joined: "join [44] (map f (v # vs)) = f v @ 44 # join [44] (map f vs)" by simp
    have "f v \<noteq> []" using Cons.prems(3) by simp
    then have "length (join [44] (map f vs)) + 1 < k"
      using Cons.prems(4) n unfolding joined by (cases "f v") auto
    with Cons.IH [of k] Cons.prems(2,3) Cons have rest: "read_items k (join [44] (map f vs) @ 93 # r) = Some (map g vs, r)"
      by simp
    have "read_value k (f v @ 44 # join [44] (map f vs) @ 93 # r) = Some (g v, 44 # join [44] (map f vs) @ 93 # r)"
      by (rule Cons.prems(2)) (use Cons.prems(4) n joined in simp_all)
    with rest show ?thesis unfolding joined n by simp
  qed
qed

lemma read_members_written:
  assumes "keys \<noteq> []"
    and "\<And>k r. k \<in> set keys \<Longrightarrow> json_literal (h k @ r) = Some (l k, r)"
    and "\<And>k n r. \<lbrakk>k \<in> set keys; length (f k) < n; delimited r\<rbrakk> \<Longrightarrow> read_value n (f k @ r) = Some (g k, r)"
    and "length (join [44] (map (\<lambda>k. h k @ 58 # f k) keys)) + 1 < n"
  shows "read_members n (join [44] (map (\<lambda>k. h k @ 58 # f k) keys) @ 125 # r) = Some (map (\<lambda>k. (l k, g k)) keys, r)"
  using assms
proof (induction keys arbitrary: n)
  case Nil
  then show ?case by simp
next
  case (Cons key keys)
  let ?w = "\<lambda>k. h k @ 58 # f k"
  obtain m where n: "n = Suc m" using Cons.prems(4) by (cases n) auto
  show ?case
  proof (cases keys)
    case Nil
    with Cons.prems n show ?thesis by simp
  next
    case (Cons w ws)
    then have joined: "join [44] (map ?w (key # keys)) = h key @ 58 # f key @ 44 # join [44] (map ?w keys)" by simp
    have "length (join [44] (map ?w keys)) + 1 < m"
      using Cons.prems(4) n unfolding joined by simp
    with Cons.IH [of m] Cons.prems(2,3) Cons
    have rest: "read_members m (join [44] (map ?w keys) @ 125 # r) = Some (map (\<lambda>k. (l k, g k)) keys, r)"
      by simp
    have "read_value m (f key @ 44 # join [44] (map ?w keys) @ 125 # r)
        = Some (g key, 44 # join [44] (map ?w keys) @ 125 # r)"
      by (rule Cons.prems(3)) (use Cons.prems(4) n joined in simp_all)
    with rest Cons.prems(2) [of key] show ?thesis unfolding joined n by simp
  qed
qed

lemma asc_simps [simp]:
  "asc ''['' = [91]" "asc '']'' = [93]" "asc ''{'' = [123]" "asc ''}'' = [125]" "asc '','' = [44]" "asc '':'' = [58]"
  by (simp_all add: asc_def)

lemma read_written:
  assumes "string_writer js" "exponent_writer fl"
  shows "\<lbrakk>json_wf v; length (write_canonical js fl v) < n; delimited r\<rbrakk>
    \<Longrightarrow> read_value n (write_canonical js fl v @ r) = Some (denoted fl v, r)"
proof (induction "size v" arbitrary: v n r rule: less_induct)
  case less
  then obtain k where n: "n = Suc k" by (cases n) auto
  show ?case
  proof (cases v)
    case JNull
    then show ?thesis using n read_word_asc [of "''null''" VNull r] by (simp add: asc_def)
  next
    case (JBool b)
    then show ?thesis using n read_word_asc [of "''true''" "VBool True" r] read_word_asc [of "''false''" "VBool False" r]
      by (cases b) (simp_all add: asc_def)
  next
    case (JNum m)
    then obtain c t where "asc (number_text fl m) = c # t" "number_byte c"
      using number_text_start [OF assms(2), of m] less.prems(1) by auto
    then show ?thesis
      using JNum n read_number_text [OF assms(2) _ less.prems(3), of m] less.prems(1)
      by (auto simp: number_byte_def)
  next
    case (JStr s)
    then have "list_all scalar (chars s)" using less.prems(1) by (simp add: chars_scalar)
    then have "json_literal (js (chars s) @ r) = Some (chars s, r)" "\<exists>t. js (chars s) = 34 # t"
      using assms(1) literal_start by (auto simp: string_writer_def)
    then show ?thesis using JStr n by auto
  next
    case (JArr vs)
    show ?thesis
    proof (cases "vs = []")
      case True
      then show ?thesis using JArr n by simp
    next
      case False
      have each: "read_value n (write_canonical js fl w @ r) = Some (denoted fl w, r)"
        if "w \<in> set vs" "length (write_canonical js fl w) < n" "delimited r" for w n r
        by (rule less.hyps)
          (use that less.prems(1) JArr in \<open>auto simp: list_all_iff less_Suc_eq_le intro: size_list_estimation'\<close>)
      have starts: "\<exists>c t. write_canonical js fl w = c # t \<and> c \<notin> {93, 125}" if "w \<in> set vs" for w
        by (rule write_start [OF assms]) (use that less.prems(1) JArr in \<open>auto simp: list_all_iff\<close>)
      have "read_items k (join [44] (map (write_canonical js fl) vs) @ 93 # r) = Some (map (denoted fl) vs, r)"
        by (rule read_items_written [OF False each])
          (use starts less.prems(2) JArr n in \<open>force+\<close>)
      moreover obtain c t where "join [44] (map (write_canonical js fl) vs) = c # t" "c \<noteq> 93"
        using starts [of "hd vs"] False by (cases vs) (auto simp: join_Cons)
      ultimately show ?thesis using JArr n by simp
    qed
  next
    case (JObj m)
    let ?keys = "utf16_sorted (bt_keys m)"
    let ?f = "\<lambda>key. case bt_get m key of Some w \<Rightarrow> write_canonical js fl w | None \<Rightarrow> []"
    let ?g = "\<lambda>key. case bt_get m key of Some w \<Rightarrow> denoted fl w | None \<Rightarrow> VNull"
    show ?thesis
    proof (cases "m = []")
      case True
      then show ?thesis using JObj n by (simp add: utf16_sorted_def)
    next
      case False
      then have keys: "?keys \<noteq> []" by (metis set_utf16_sorted set_empty map_is_Nil_conv)
      have wf: "valid_utf8 key" "\<exists>w. bt_get m key = Some w \<and> json_wf w \<and> size w < size v" if key: "key \<in> set ?keys" for key
      proof -
        obtain w where w: "bt_get m key = Some w"
          using key by (cases "bt_get m key") (auto simp: map_of_eq_None_iff)
        then have "(key, w) \<in> set m" by (rule map_of_SomeD)
        then show "valid_utf8 key" "\<exists>w. bt_get m key = Some w \<and> json_wf w \<and> size w < size v"
          using w less.prems(1) JObj canonical_child [OF w] by (auto simp: list_all_iff)
      qed
      have literal: "json_literal (js (chars key) @ r) = Some (chars key, r)" if "key \<in> set ?keys" for key r
        using assms(1) wf(1) [OF that] by (auto simp: string_writer_def chars_scalar)
      have each: "read_value n (?f key @ r) = Some (?g key, r)"
        if key: "key \<in> set ?keys" and "length (?f key) < n" "delimited r" for key n r
      proof -
        obtain w where "bt_get m key = Some w" "json_wf w" "size w < size v" using wf(2) [OF key] by blast
        then show ?thesis using less.hyps [of w n r] that by simp
      qed
      have "read_members k (join [44] (map (\<lambda>key. js (chars key) @ 58 # ?f key) ?keys) @ 125 # r)
          = Some (map (\<lambda>key. (chars key, ?g key)) ?keys, r)"
        by (rule read_members_written [OF keys literal each]) (use less.prems(2) JObj n in auto)
      moreover obtain t where "join [44] (map (\<lambda>key. js (chars key) @ 58 # ?f key) ?keys) = 34 # t"
      proof -
        obtain key keys' where ks: "?keys = key # keys'" using keys by (cases ?keys) auto
        then have "list_all scalar (chars key)" using wf(1) [of key] by (simp add: chars_scalar)
        then show ?thesis using literal_start [OF assms(1), of "chars key"] that ks by (auto simp: join_Cons)
      qed
      ultimately show ?thesis using JObj n by simp
    qed
  qed
qed

lemma number_text_plain: "exponent_writer fl \<Longrightarrow> 10 \<notin> set (asc (number_text fl n)) \<and> list_all scalar (asc (number_text fl n))"
  using number_text_bytes [of fl n] by (auto simp: asc_def number_bytes_def list_all_iff number_byte_def intro: scalar_ascii)

lemma in_set_join: "c \<in> set (join sep xs) \<Longrightarrow> c \<in> set sep \<or> (\<exists>x \<in> set xs. c \<in> set x)"
  by (induction sep xs rule: join.induct) auto

lemma written_plain:
  assumes "string_writer js" "exponent_writer fl"
  shows "\<lbrakk>json_wf v; c \<in> set (write_canonical js fl v)\<rbrakk> \<Longrightarrow> c \<noteq> 10 \<and> scalar c"
proof (induction "size v" arbitrary: v rule: less_induct)
  case less
  have literal: "c \<noteq> 10 \<and> scalar c" if "c \<in> set (js (chars s))" "valid_utf8 s" for s
  proof -
    have "list_all scalar (chars s)" by simp
    then have "10 \<notin> set (js (chars s)) \<and> list_all scalar (js (chars s))"
      using assms(1) by (simp add: string_writer_def)
    with that(1) show ?thesis by (auto simp: list_all_iff)
  qed
  show ?case
  proof (cases v)
    case (JNum n)
    with less.prems(2) number_text_plain [OF assms(2), of n] show ?thesis by (auto simp: list_all_iff)
  next
    case (JStr s)
    with less.prems literal [of s] show ?thesis by simp
  next
    case (JArr vs)
    then have "c \<in> {91, 93, 44} \<or> (\<exists>w \<in> set vs. c \<in> set (write_canonical js fl w))"
      using less.prems(2) by (auto dest!: in_set_join)
    then show ?thesis
      using less.hyps less.prems(1) JArr
      by (auto simp: list_all_iff scalar_ascii less_Suc_eq_le intro: size_list_estimation')
  next
    case (JObj m)
    then have "c \<in> {123, 125, 44, 58} \<or> (\<exists>key \<in> fst ` set m. c \<in> set (js (chars key))
        \<or> (\<exists>w. bt_get m key = Some w \<and> c \<in> set (write_canonical js fl w)))"
      using less.prems(2) by (force dest!: in_set_join split: option.splits)
    then consider "c \<in> {123, 125, 44, 58}" | key w where "(key, w) \<in> set m" "c \<in> set (js (chars key))"
      | key w where "bt_get m key = Some w" "c \<in> set (write_canonical js fl w)"
      by auto
    then show ?thesis
    proof cases
      case 1
      then show ?thesis by (auto simp: scalar_ascii)
    next
      case 2
      then show ?thesis using literal [of key] less.prems(1) JObj by (auto simp: list_all_iff)
    next
      case 3
      then have "json_wf w" "size w < size v"
        using less.prems(1) JObj map_of_SomeD [of m key w] canonical_child [of m key w] by (auto simp: list_all_iff)
      then show ?thesis using less.hyps 3(2) by blast
    qed
  qed (use less.prems in \<open>auto simp: asc_def scalar_ascii split: if_split_asm\<close>)
qed

lemma canonical_json_reads: 
  assumes "string_writer js" "exponent_writer fl" "json_wf v"
  shows "read_json (canonical_json js fl v) = Some (denoted fl v)"
  using read_written [OF assms, of "Suc (length (canonical_json js fl v))" "[]"]
  by (simp add: read_json_def canonical_json_def)

text \<open>
  Property C35. The printed JSON reads back: by the grammar of RFC 8259, with its string escapes and its
  decimal numbers, the text of \<open>canonical_json\<close> is one value, the one printed; a float reads as the
  decimal number of its shortest form whichever notation \<open>ecmascript_number\<close> chose.
\<close>

theorem canonical_json_reads_back:
  assumes "string_writer js" and "exponent_writer fl" and "json_wf v"
  shows "read_json (canonical_json js fl v) = Some (denoted fl v)"
  using assms by (rule canonical_json_reads)

section \<open>A printed value\<close>

definition one_and_a_half :: "rat \<Rightarrow> string" where
  "one_and_a_half x = ''1.5e-7''"

lemma one_and_a_half_writer: "exponent_writer one_and_a_half"
proof -
  have "one_and_a_half x = exponential_text (CHR ''1'') ''5'' (- 7)" for x
    by (simp add: one_and_a_half_def exponential_text_def signed_decimal_def decimal.simps char_of_def bit_iff_odd)
  then show ?thesis by (force simp: exponent_writer_def ascii_digit_def)
qed

definition printed_example :: json where
  "printed_example = JObj [(''a'', JArr [JNull, JBool True]), (''n'', JNum (Float (3 / 20000000)))]"

lemma printed_example_wf: "json_wf printed_example"
  by (simp add: printed_example_def) code_simp

theorem canonical_json_reads_back_witness:
  "read_json (canonical_json quote one_and_a_half printed_example) = Some (denoted one_and_a_half printed_example)"
  by (rule canonical_json_reads_back [OF quote_writer one_and_a_half_writer printed_example_wf])

end
