(* ===== verification/Output.thy ===== *)
theory Output
  imports Config_Settings Canonical_Json
begin

text \<open>
  The outcome of a command and how it is written (\<open>output.rs\<close>): a person gets text, a machine one JSON
  value per line on stdout.  A write is a call of the environment that may fail; \<open>render\<close> makes the
  calls in order and stops at the first failure.  The clock and the invocation identifier are strings.
\<close>

section \<open>Outcomes\<close>

datatype payload =
    HumanPayload string string
  | JsonPayload json
  | JsonWithDiagnostic json string
  | JsonlPayload "json list"
  | JsonlWithDiagnostic "json list" string

record command_outcome =
  co_exit_code :: nat
  co_payload :: payload
  co_preamble :: string

definition outcome_of :: "payload \<Rightarrow> nat \<Rightarrow> command_outcome" where
  "outcome_of p exit = \<lparr>co_exit_code = exit, co_payload = p, co_preamble = []\<rparr>"

definition human_outcome :: "string \<Rightarrow> string \<Rightarrow> nat \<Rightarrow> command_outcome" where
  "human_outcome stdout stderr exit = outcome_of (HumanPayload stdout stderr) exit"

definition json_outcome :: "json \<Rightarrow> nat \<Rightarrow> command_outcome" where
  "json_outcome v exit = outcome_of (JsonPayload v) exit"

definition json_with_diagnostic :: "json \<Rightarrow> string \<Rightarrow> nat \<Rightarrow> command_outcome" where
  "json_with_diagnostic v stderr exit = outcome_of (JsonWithDiagnostic v stderr) exit"

definition jsonl_outcome :: "json list \<Rightarrow> nat \<Rightarrow> command_outcome" where
  "jsonl_outcome vs exit = outcome_of (JsonlPayload vs) exit"

definition jsonl_with_diagnostic :: "json list \<Rightarrow> string \<Rightarrow> nat \<Rightarrow> command_outcome" where
  "jsonl_with_diagnostic vs stderr exit = outcome_of (JsonlWithDiagnostic vs stderr) exit"

definition with_preamble :: "command_outcome \<Rightarrow> string \<Rightarrow> command_outcome" where
  "with_preamble outcome preamble = outcome\<lparr>co_preamble := preamble\<rparr>"

section \<open>Rendering\<close>

datatype stream_call = WriteOut string | WriteErr string | FlushErr

definition json_line_calls :: "(ustr \<Rightarrow> ustr) \<Rightarrow> (rat \<Rightarrow> string) \<Rightarrow> json \<Rightarrow> stream_call list" where
  "json_line_calls js fl v = [WriteOut (utf8_encode (canonical_json js fl v)), WriteOut [LF]]"

definition payload_calls :: "(ustr \<Rightarrow> ustr) \<Rightarrow> (rat \<Rightarrow> string) \<Rightarrow> payload \<Rightarrow> stream_call list" where
  "payload_calls js fl p =
     (case p of
        HumanPayload stdout stderr \<Rightarrow> [WriteOut stdout, WriteErr stderr]
      | JsonPayload v \<Rightarrow> json_line_calls js fl v
      | JsonWithDiagnostic v stderr \<Rightarrow> json_line_calls js fl v @ [WriteErr stderr]
      | JsonlPayload vs \<Rightarrow> concat (map (json_line_calls js fl) vs)
      | JsonlWithDiagnostic vs stderr \<Rightarrow> concat (map (json_line_calls js fl) vs) @ [WriteErr stderr])"

definition render_calls :: "(ustr \<Rightarrow> ustr) \<Rightarrow> (rat \<Rightarrow> string) \<Rightarrow> command_outcome \<Rightarrow> stream_call list" where
  "render_calls js fl outcome =
     (if co_preamble outcome = [] then [] else [WriteErr (co_preamble outcome), FlushErr])
     @ payload_calls js fl (co_payload outcome)"

definition render ::
  "('w \<Rightarrow> stream_call \<Rightarrow> 'e + 'w) \<Rightarrow> (ustr \<Rightarrow> ustr) \<Rightarrow> (rat \<Rightarrow> string) \<Rightarrow> 'w \<Rightarrow> command_outcome \<Rightarrow> 'e + 'w" where
  "render io js fl world outcome = foldE io world (render_calls js fl outcome)"

section \<open>Errors\<close>

text \<open>The derived \<open>Serialize\<close> of \<open>RunnerError\<close>.\<close>

definition runner_error_json :: "runner_error \<Rightarrow> json" where
  "runner_error_json e =
     jobj ([(''schema'', JStr (re_schema e)), (''code'', JStr (as_code (re_code e))),
            (''boundary'', JStr (re_boundary e)), (''message'', JStr (re_message e)),
            (''action'', JStr (re_action e)), (''exitCode'', JNum (PosInt (re_exit_code e))),
            (''retryable'', JBool (re_retryable e))]
           @ (case re_details e of None \<Rightarrow> [] | Some m \<Rightarrow> [(''details'', JObj m)]))"

definition failed_event :: "string \<Rightarrow> string \<Rightarrow> runner_error \<Rightarrow> json" where
  "failed_event now invocation_id e =
     jobj [(''schema'', JStr ''openprose.normalized-event/1''), (''sequence'', JNum (PosInt 0)),
           (''timestamp'', JStr now), (''invocationId'', JStr invocation_id), (''type'', JStr ''runner.failed''),
           (''payload'', jobj [(''kind'', JStr ''runner.failed''), (''error'', runner_error_json e)])]"

definition error_outcome ::
  "(string \<Rightarrow> bool) \<Rightarrow> string option \<Rightarrow> runner_error \<Rightarrow> output_mode \<Rightarrow> string \<Rightarrow> string \<Rightarrow> command_outcome" where
  "error_outcome uuid_ok exe e mode now invocation_id =
     (case mode of
        Human \<Rightarrow> human_outcome [] (utf8_encode (display uuid_ok exe e) @ [LF]) (re_exit_code e)
      | Json \<Rightarrow> json_outcome (runner_error_json e) (re_exit_code e)
      | Jsonl \<Rightarrow> jsonl_outcome [failed_event now invocation_id e] (re_exit_code e))"

section \<open>What a stream receives\<close>

fun on_stdout :: "stream_call list \<Rightarrow> string" where
  "on_stdout [] = []"
| "on_stdout (WriteOut bytes # calls) = bytes @ on_stdout calls"
| "on_stdout (c # calls) = on_stdout calls"

lemma on_stdout_append [simp]: "on_stdout (a @ b) = on_stdout a @ on_stdout b"
  by (induction a rule: on_stdout.induct) simp_all

fun printed_values :: "payload \<Rightarrow> json list option" where
  "printed_values (HumanPayload stdout stderr) = None"
| "printed_values (JsonPayload v) = Some [v]"
| "printed_values (JsonWithDiagnostic v stderr) = Some [v]"
| "printed_values (JsonlPayload vs) = Some vs"
| "printed_values (JsonlWithDiagnostic vs stderr) = Some vs"

lemma on_stdout_lines:
  "on_stdout (concat (map (json_line_calls js fl) vs)) = utf8_encode (concat (map (\<lambda>v. canonical_json js fl v @ [10]) vs))"
proof (induction vs)
  case Nil
  show ?case by (simp add: utf8_encode_def)
next
  case (Cons v vs)
  have "utf8_encode (10 # cs) = LF # utf8_encode cs" for cs
  proof -
    have "utf8_encode [10] = [LF]" by code_simp
    then show ?thesis using utf8_encode_append [of "[10]" cs] by simp
  qed
  with Cons show ?case by (simp add: json_line_calls_def)
qed

lemma on_stdout_render:
  "printed_values (co_payload outcome) = Some vs \<Longrightarrow>
     on_stdout (render_calls js fl outcome) = utf8_encode (concat (map (\<lambda>v. canonical_json js fl v @ [10]) vs))"
  using on_stdout_lines [of js fl vs] on_stdout_lines [of js fl "[hd vs]"]
  by (cases "co_payload outcome") (auto simp: render_calls_def payload_calls_def)

lemma split_lines:
  "(\<And>x. x \<in> set xs \<Longrightarrow> c \<notin> set x) \<Longrightarrow> split_on (\<lambda>d. d = c) (concat (map (\<lambda>x. x @ [c]) xs)) = xs @ [[]]"
proof (induction xs)
  case Nil
  show ?case by simp
next
  case (Cons x xs)
  then have "split_on (\<lambda>d. d = c) (x @ c # concat (map (\<lambda>x. x @ [c]) xs))
      = x # split_on (\<lambda>d. d = c) (concat (map (\<lambda>x. x @ [c]) xs))"
    by (intro split_on_append) auto
  with Cons show ?case by simp
qed

lemma printed_lines:
  assumes "string_writer js" "exponent_writer fl" "list_all json_wf vs"
  shows "split_on (\<lambda>c. c = 10) (concat (map (\<lambda>v. canonical_json js fl v @ [10]) vs)) = map (canonical_json js fl) vs @ [[]]"
    and "list_all scalar (concat (map (\<lambda>v. canonical_json js fl v @ [10]) vs))"
proof -
  have plain: "c \<noteq> 10 \<and> scalar c" if "v \<in> set vs" "c \<in> set (canonical_json js fl v)" for v c
    using written_plain [OF assms(1,2), of v c] that assms(3) by (simp add: canonical_json_def list_all_iff)
  have "split_on (\<lambda>c. c = 10) (concat (map (\<lambda>x. x @ [10]) (map (canonical_json js fl) vs))) = map (canonical_json js fl) vs @ [[]]"
    by (rule split_lines) (use plain in auto)
  then show "split_on (\<lambda>c. c = 10) (concat (map (\<lambda>v. canonical_json js fl v @ [10]) vs)) = map (canonical_json js fl) vs @ [[]]"
    by (simp add: comp_def)
  show "list_all scalar (concat (map (\<lambda>v. canonical_json js fl v @ [10]) vs))"
    using plain by (auto simp: list_all_iff scalar_ascii)
qed

text \<open>
  Property C36. In a machine mode stdout is JSON lines: what \<open>render\<close> writes there, whatever the diagnostics
  and the preamble on stderr, is valid UTF-8, ends with a line feed after each value, and its lines
  read back, in order, as the values of the outcome.
\<close>

theorem machine_output_is_json_lines:
  assumes "string_writer js" and "exponent_writer fl"
    and "printed_values (co_payload outcome) = Some vs" and "list_all json_wf vs"
  shows "valid_utf8 (on_stdout (render_calls js fl outcome))
    \<and> (\<exists>printed. split_on (\<lambda>c. c = 10) (chars (on_stdout (render_calls js fl outcome))) = printed @ [[]]
        \<and> map read_json printed = map (\<lambda>v. Some (denoted fl v)) vs)"
proof -
  have "map read_json (map (canonical_json js fl) vs) = map (\<lambda>v. Some (denoted fl v)) vs"
    using canonical_json_reads [OF assms(1,2)] assms(4) by (simp add: list_all_iff)
  with printed_lines [OF assms(1,2,4)] show ?thesis
    by (auto simp: on_stdout_render [OF assms(3)] chars_encode valid_utf8_encode)
qed

theorem machine_output_is_json_lines_witness:
  "\<exists>printed. split_on (\<lambda>c. c = 10) (chars (on_stdout (render_calls quote one_and_a_half
        (with_preamble (jsonl_with_diagnostic [printed_example, JNull] ''warning'' 0) ''note'')))) = printed @ [[]]
     \<and> map read_json printed = [Some (denoted one_and_a_half printed_example), Some VNull]"
  using machine_output_is_json_lines [OF quote_writer one_and_a_half_writer,
      of "with_preamble (jsonl_with_diagnostic [printed_example, JNull] ''warning'' 0) ''note''" "[printed_example, JNull]"]
    printed_example_wf
  by (simp add: with_preamble_def jsonl_with_diagnostic_def outcome_of_def)

text \<open>A failure in a machine mode is printed as its one JSON record, with nothing on stdout for a person.\<close>

lemma error_outcome_printed:
  "printed_values (co_payload (error_outcome uuid_ok exe e Human now i)) = None"
  "on_stdout (render_calls js fl (error_outcome uuid_ok exe e Human now i)) = []"
  "printed_values (co_payload (error_outcome uuid_ok exe e Json now i)) = Some [runner_error_json e]"
  "printed_values (co_payload (error_outcome uuid_ok exe e Jsonl now i)) = Some [failed_event now i e]"
  "co_exit_code (error_outcome uuid_ok exe e mode now i) = re_exit_code e"
  by (cases mode; simp add: error_outcome_def human_outcome_def json_outcome_def jsonl_outcome_def outcome_of_def
      render_calls_def payload_calls_def)+

end
