(* ===== verification/Service_Text.thy ===== *)
theory Service_Text
  imports Redaction Errors
begin

text \<open>
  Text of the service that may be shown (\<open>service/render.rs\<close>) and text of the caller that goes into a
  URL (\<open>service/http.rs\<close>): the removal of API keys, the message of an error response, percent-encoding.
\<close>

section \<open>Finding\<close>

text \<open>\<open>str::find\<close>: what is before the first occurrence and what is after it.\<close>

fun split_first :: "'a list \<Rightarrow> 'a list \<Rightarrow> ('a list \<times> 'a list) option" where
  "split_first p s =
     (if starts_with p s then Some ([], drop (length p) s)
      else case s of
             [] \<Rightarrow> None
           | c # cs \<Rightarrow> map_option (\<lambda>(a, b). (c # a, b)) (split_first p cs))"

declare split_first.simps [simp del]

lemma split_first_Some: "split_first p s = Some (a, b) \<Longrightarrow> s = a @ p @ b"
proof (induction p s arbitrary: a rule: split_first.induct)
  case (1 p s)
  show ?case
  proof (cases "starts_with p s")
    case True
    with "1.prems" show ?thesis
      by (simp add: split_first.simps [of p s] starts_with_iff) (auto simp: starts_with_iff)
  next
    case False
    with "1.prems" 1(1) [OF False] show ?thesis
      by (subst (asm) split_first.simps) (auto split: list.splits)
  qed
qed

lemma split_first_None: "split_first p s = None \<longleftrightarrow> \<not> contains_str p s"
proof (induction p s rule: split_first.induct)
  case (1 p s)
  show ?case
  proof (cases s)
    case Nil
    then show ?thesis by (subst split_first.simps) (auto simp: starts_with_def)
  next
    case (Cons c cs)
    then show ?thesis using 1 by (subst split_first.simps) auto
  qed
qed

lemma split_first_before: "split_first p s = Some (a, b) \<Longrightarrow> p \<noteq> [] \<Longrightarrow> \<not> contains_str p a"
proof (induction p s arbitrary: a rule: split_first.induct)
  case (1 p s)
  show ?case
  proof (cases "starts_with p s")
    case True
    with "1.prems" have "a = []" by (simp add: split_first.simps [of p s])
    with "1.prems" show ?thesis by simp
  next
    case False
    with "1.prems" obtain c cs a' where s: "s = c # cs" "split_first p cs = Some (a', b)" "a = c # a'"
      by (subst (asm) split_first.simps) (auto split: list.splits)
    have "s = a @ p @ b" using "1.prems"(1) by (rule split_first_Some)
    then have "\<not> starts_with p a"
      using False by (auto simp: starts_with_iff)
    with 1(1) [OF False s(1) s(2) "1.prems"(2)] s(3) show ?thesis by simp
  qed
qed

lemma contains_separated:
  assumes "x \<notin> set p" "p \<noteq> []"
  shows "contains_str p (a @ x # b) \<longleftrightarrow> contains_str p a \<or> contains_str p b"
proof
  assume "contains_str p (a @ x # b)"
  then obtain u v where uv: "a @ x # b = u @ p @ v" by (auto simp: contains_str_iff)
  show "contains_str p a \<or> contains_str p b"
  proof (cases "length (u @ p) \<le> length a")
    case True
    then have "\<exists>w. a = (u @ p) @ w"
      using uv by (metis append_assoc append_eq_append_conv_if append_take_drop_id)
    then show ?thesis by (auto simp: contains_str_iff)
  next
    case False
    show ?thesis
    proof (cases "length u \<le> length a")
      case True
      then obtain q where q: "a = u @ q"
        using uv by (metis append_eq_append_conv_if append_take_drop_id)
      with uv have "q @ x # b = p @ v" by simp
      then have "x \<in> set p"
        using False q by (auto simp: append_eq_append_conv2 Cons_eq_append_conv)
      with assms show ?thesis by simp
    next
      case longer: False
      then obtain q where "u = a @ x # q" "b = q @ p @ v"
        using uv longer by (auto simp: append_eq_append_conv2 Cons_eq_append_conv)
      then show ?thesis by (auto simp: contains_str_iff)
    qed
  qed
next
  assume "contains_str p a \<or> contains_str p b"
  then show "contains_str p (a @ x # b)"
  proof
    assume "contains_str p a"
    then obtain u v where "a = u @ p @ v" by (auto simp: contains_str_iff)
    then have "a @ x # b = u @ p @ (v @ x # b)" by simp
    then show ?thesis by (auto simp: contains_str_iff)
  next
    assume "contains_str p b"
    then obtain u v where "b = u @ p @ v" by (auto simp: contains_str_iff)
    then have "a @ x # b = (a @ x # u) @ p @ v" by simp
    then show ?thesis unfolding contains_str_iff by blast
  qed
qed

section \<open>API keys\<close>

definition key_marker :: string where "key_marker = ''rr_test_''"

definition redacted_text :: string where "redacted_text = ''[REDACTED]''"

text \<open>The loop of \<open>redact\<close>: every key-shaped token, the marker and the letters and digits after it.\<close>

function redact_keys :: "string \<Rightarrow> string" where
  "redact_keys s =
     (case split_first key_marker s of
        None \<Rightarrow> s
      | Some (before, rest) \<Rightarrow> before @ redacted_text @ redact_keys (dropWhile ascii_alphanumeric rest))"
  by pat_completeness auto
termination
proof (relation "measure length")
  fix s x before rest
  assume "split_first key_marker s = Some x" "(before, rest) = x"
  then have "length s = length before + 8 + length rest"
    using split_first_Some [of key_marker s before rest] by (simp add: key_marker_def)
  then show "(dropWhile ascii_alphanumeric rest, s) \<in> measure length"
    using length_dropWhile_le [of ascii_alphanumeric rest] by simp
qed simp

declare redact_keys.simps [simp del]

definition redact :: "string \<Rightarrow> string option \<Rightarrow> string" where
  "redact v credential =
     redact_keys (case credential of
        Some c \<Rightarrow> if c \<noteq> [] then replace_str c redacted_text v else v
      | None \<Rightarrow> v)"

definition low_control :: "nat \<Rightarrow> bool" where
  "low_control c \<longleftrightarrow> c \<le> 31 \<or> c = 127"

definition valid_text :: "string \<Rightarrow> nat \<Rightarrow> bool" where
  "valid_text v most \<longleftrightarrow> v \<noteq> [] \<and> length (chars v) \<le> most \<and> \<not> list_ex low_control (chars v)"

definition sanitize_service_message :: "string \<Rightarrow> string option \<Rightarrow> string option" where
  "sanitize_service_message v credential =
     (let spaced = utf8_encode (map (\<lambda>c. if low_control c then 32 else c) (chars v));
          cut = utf8_encode (take 512 (chars (redact spaced credential))) in
      if trim cut \<noteq> [] then Some cut else None)"

text \<open>\<open>redact_error\<close>: every string in the details of an error.\<close>

fun redact_value :: "string option \<Rightarrow> json \<Rightarrow> json" where
  "redact_value credential (JStr s) = JStr (redact s credential)"
| "redact_value credential (JArr vs) = JArr (map (redact_value credential) vs)"
| "redact_value credential (JObj m) = JObj (map (\<lambda>(k, v). (k, redact_value credential v)) m)"
| "redact_value credential v = v"

definition redact_error :: "string option \<Rightarrow> runner_error \<Rightarrow> runner_error" where
  "redact_error credential e =
     e\<lparr>re_details := map_option (map (\<lambda>(k, v). (k, redact_value credential v))) (re_details e)\<rparr>"

lemma redact_keys_clean: "\<not> contains_str key_marker (redact_keys s)"
proof (induction s rule: redact_keys.induct)
  case (1 s)
  show ?case
  proof (cases "split_first key_marker s")
    case None
    then have "redact_keys s = s" by (simp add: redact_keys.simps [of s])
    with None show ?thesis by (simp add: split_first_None)
  next
    case (Some x)
    then obtain before rest where split: "split_first key_marker s = Some (before, rest)" by (cases x) auto
    let ?rest = "redact_keys (dropWhile ascii_alphanumeric rest)"
    have "\<not> contains_str key_marker ?rest" using 1 [OF split refl] .
    moreover have "\<not> contains_str key_marker before"
      using split by (rule split_first_before) (simp add: key_marker_def)
    moreover have "redacted_text @ ?rest = CHR ''['' # ''REDACTED'' @ CHR '']'' # ?rest"
      by (simp add: redacted_text_def)
    moreover have "CHR ''['' \<notin> set key_marker" "CHR '']'' \<notin> set key_marker" "key_marker \<noteq> []"
      by (simp_all add: key_marker_def)
    moreover have "\<not> contains_str key_marker ''REDACTED''"
      by (simp add: key_marker_def starts_with_def)
    ultimately have "\<not> contains_str key_marker (before @ redacted_text @ ?rest)"
      by (simp only: contains_separated simp_thms)
    then show ?thesis by (simp add: redact_keys.simps [of s] split)
  qed
qed

lemma redact_clean: "contains_str key_marker p \<Longrightarrow> \<not> contains_str p (redact v credential)"
proof
  assume "contains_str key_marker p" "contains_str p (redact v credential)"
  then have "contains_str key_marker (redact v credential)"
    by (auto simp: contains_str_iff) (metis append_assoc)
  then show False by (simp add: redact_def redact_keys_clean)
qed

lemma cut_prefix: "\<exists>t. s = utf8_encode (take n (chars s)) @ t \<or> utf8_encode (take n (chars s)) = []"
proof (cases "valid_utf8 s")
  case True
  then have "s = utf8_encode (take n (chars s)) @ utf8_encode (drop n (chars s))"
    by (metis append_take_drop_id encode_chars utf8_encode_append)
  then show ?thesis by blast
next
  case False
  then show ?thesis by (simp add: chars_def valid_utf8_def utf8_encode_def split: option.splits)
qed

lemma ascii_byte: "c \<in> set cs \<Longrightarrow> c < 128 \<Longrightarrow> char_of c \<in> set (utf8_encode cs)"
  by (force simp: utf8_encode_def utf8_char_def)

lemma utf8_char_low: "b \<in> set (utf8_char c) \<Longrightarrow> scalar c \<Longrightarrow> code b < 128 \<Longrightarrow> c = code b"
  by (auto simp: utf8_char_def scalar_def split: if_split_asm)

lemma spaced_plain:
  assumes "b \<in> set (utf8_encode (map (\<lambda>c. if low_control c then 32 else c) (chars v)))" "code b < 128"
  shows "\<not> low_control (code b)"
proof -
  from assms(1) obtain c where c: "c \<in> set (chars v)" "b \<in> set (utf8_char (if low_control c then 32 else c))"
    by (auto simp: utf8_encode_def)
  have "scalar c" using chars_scalar [of v] c(1) by (simp add: list_all_iff)
  then have "scalar (if low_control c then 32 else c)" by (simp add: scalar_def)
  from utf8_char_low [OF c(2) this assms(2)] show ?thesis by (auto simp: low_control_def split: if_splits)
qed

lemma replace_str_set: "set (replace_str p r s) \<subseteq> set s \<union> set r"
proof (induction p r s rule: replace_str.induct)
  case (2 p r c cs)
  have "set (drop (length p) (c # cs)) \<subseteq> set (c # cs)" by (rule set_drop_subset)
  with 2 show ?case by (auto split: if_splits)
qed simp

lemma redact_keys_set: "set (redact_keys s) \<subseteq> set s \<union> set redacted_text"
proof (induction s rule: redact_keys.induct)
  case (1 s)
  show ?case
  proof (cases "split_first key_marker s")
    case None
    then show ?thesis by (simp add: redact_keys.simps [of s])
  next
    case (Some x)
    then obtain before rest where split: "split_first key_marker s = Some (before, rest)" by (cases x) auto
    then have s: "set before \<subseteq> set s" "set rest \<subseteq> set s" by (auto dest: split_first_Some)
    have "set (dropWhile ascii_alphanumeric rest) \<subseteq> set rest" by (auto dest: set_dropWhileD)
    with s 1 [OF split refl] have "set (redact_keys (dropWhile ascii_alphanumeric rest)) \<subseteq> set s \<union> set redacted_text"
      by blast
    moreover have "redact_keys s = before @ redacted_text @ redact_keys (dropWhile ascii_alphanumeric rest)"
      by (simp add: redact_keys.simps [of s] split)
    ultimately show ?thesis using s by auto
  qed
qed

lemma redact_set: "set (redact v credential) \<subseteq> set v \<union> set redacted_text"
  using redact_keys_set [of v] redact_keys_set [of "replace_str (the credential) redacted_text v"]
    replace_str_set [of "the credential" redacted_text v]
  by (auto simp: redact_def split: option.splits)

lemma redacted_text_plain: "b \<in> set redacted_text \<Longrightarrow> \<not> low_control (code b)"
  by (auto simp: redacted_text_def low_control_def)

text \<open>A cut text holds nothing the whole text does not hold.\<close>

lemma cut_inside:
  "b \<in> set (utf8_encode (take n (chars s))) \<Longrightarrow> b \<in> set s"
  "contains_str p (utf8_encode (take n (chars s))) \<Longrightarrow> p \<noteq> [] \<Longrightarrow> contains_str p s"
proof -
  let ?cut = "utf8_encode (take n (chars s))"
  obtain t where "s = ?cut @ t \<or> ?cut = []" using cut_prefix [of s n] by blast
  then show "b \<in> set ?cut \<Longrightarrow> b \<in> set s" by (metis Un_iff set_append empty_iff list.set(1))
next
  let ?cut = "utf8_encode (take n (chars s))"
  assume p: "contains_str p ?cut" "p \<noteq> []"
  then obtain a b where cut: "?cut = a @ p @ b" by (auto simp: contains_str_iff)
  obtain t where "s = ?cut @ t \<or> ?cut = []" using cut_prefix [of s n] by blast
  with cut p(2) have "s = a @ p @ (b @ t)" by auto
  then show "contains_str p s" unfolding contains_str_iff by blast
qed

definition message_safe :: "string \<Rightarrow> bool" where
  "message_safe m \<longleftrightarrow>
     \<not> contains_str key_marker m \<and> length (chars m) \<le> 512 \<and> list_all (\<lambda>b. \<not> low_control (code b)) m"

lemma sanitized_message_safe:
  assumes "sanitize_service_message v credential = Some m"
  shows "message_safe m"
proof -
  define spaced where "spaced = utf8_encode (map (\<lambda>c. if low_control c then 32 else c) (chars v))"
  from assms have m: "m = utf8_encode (take 512 (chars (redact spaced credential)))"
    by (simp add: sanitize_service_message_def spaced_def Let_def split: if_splits)
  have "\<not> contains_str key_marker (redact spaced credential)" by (simp add: redact_def redact_keys_clean)
  then have "\<not> contains_str key_marker m"
    unfolding m by (rule contrapos_nn) (erule cut_inside(2), simp only: key_marker_def list.distinct not_False_eq_True)
  moreover have "length (chars m) \<le> 512"
  proof -
    have "list_all scalar (take 512 (chars (redact spaced credential)))"
      using chars_scalar [of "redact spaced credential"] by (auto simp: list_all_iff dest: in_set_takeD)
    then show ?thesis by (simp add: m)
  qed
  moreover have "\<not> low_control (code b)" if "b \<in> set m" for b
  proof (cases "code b < 128")
    case True
    from that have "b \<in> set (redact spaced credential)" unfolding m by (rule cut_inside)
    with redact_set [of spaced credential] True show ?thesis
      using spaced_plain [of b v] redacted_text_plain by (auto simp: spaced_def)
  next
    case False
    then show ?thesis by (simp add: low_control_def)
  qed
  ultimately show ?thesis by (simp add: message_safe_def list_all_iff)
qed

end
