(* ===== verification/Service_Request.thy ===== *)
theory Service_Request
  imports Service_Text Package_Commands
begin

text \<open>
  What the service client sends and how it reads a failure (\<open>service/http.rs\<close>): the limits of a transport
  class, the request with its URL and headers, the proxy the environment names, the bound on a response and
  the classification of an error response.  The operation manifest is the argument \<open>manifest\<close>, the reader
  and the writer of JSON (\<open>serde_json\<close>) are \<open>from_slice\<close> and \<open>to_vec\<close>.
\<close>

section \<open>Transport classes\<close>

datatype transport_class = Account_Class | Control_Class | Listing_Class | Stream_Class | Download_Class

definition class_from_name :: "string \<Rightarrow> transport_class" where
  "class_from_name name =
     (if name = ''account'' then Account_Class
      else if name = ''listing'' then Listing_Class
      else if name = ''stream'' then Stream_Class
      else if name = ''download'' then Download_Class
      else Control_Class)"

fun class_name :: "transport_class \<Rightarrow> string" where
  "class_name Account_Class = ''account''"
| "class_name Control_Class = ''control''"
| "class_name Listing_Class = ''listing''"
| "class_name Stream_Class = ''stream''"
| "class_name Download_Class = ''download''"

definition class_limit :: "json \<Rightarrow> transport_class \<Rightarrow> string \<Rightarrow> nat" where
  "class_limit manifest c key =
     (case as_u64 (jidx (jidx (jidx manifest ''transportClasses'') (class_name c)) key) of Some n \<Rightarrow> n | None \<Rightarrow> 0)"

definition buffered_limit :: "json \<Rightarrow> transport_class \<Rightarrow> string \<Rightarrow> nat" where
  "buffered_limit manifest c key =
     class_limit manifest (if c = Stream_Class \<or> c = Download_Class then Control_Class else c) key"

definition max_response_bytes :: "json \<Rightarrow> transport_class \<Rightarrow> nat" where
  "max_response_bytes manifest c = buffered_limit manifest c ''maxResponseBytes''"

definition class_timeout :: "json \<Rightarrow> transport_class \<Rightarrow> nat" where
  "class_timeout manifest c = buffered_limit manifest c ''timeoutMs''"

definition connect_timeout :: "json \<Rightarrow> transport_class \<Rightarrow> nat" where
  "connect_timeout manifest c = max (class_limit manifest c ''connectTimeoutMs'') 1"

definition idle_timeout :: "json \<Rightarrow> transport_class \<Rightarrow> nat" where
  "idle_timeout manifest c = max (class_limit manifest c ''idleTimeoutMs'') 1"

text \<open>A \<open>usize\<close> has 64 bits, so the conversion of \<open>max_event_bytes\<close> never falls back.\<close>

definition max_event_bytes :: "json \<Rightarrow> nat" where
  "max_event_bytes manifest = class_limit manifest Stream_Class ''maxEventBytes''"

lemma class_from_name_name [simp]: "class_from_name (class_name c) = c"
  by (cases c) (simp_all add: class_from_name_def)

section \<open>Requests\<close>

record request =
  rq_method :: string
  rq_template :: string
  rq_path :: string
  rq_query :: "(string \<times> string) list"
  rq_headers :: "(string \<times> string) list"
  rq_body :: "string option"
  rq_bearer :: bool
  rq_class :: transport_class

definition str_or :: "string \<Rightarrow> json \<Rightarrow> string" where
  "str_or otherwise v = (case as_str v of Some s \<Rightarrow> s | None \<Rightarrow> otherwise)"

text \<open>The index expression \<open>v[i]\<close>: \<open>null\<close> when there is no such element.\<close>

definition jnth_or_null :: "json \<Rightarrow> nat \<Rightarrow> json" where
  "jnth_or_null v i = (case jnth v i of Some w \<Rightarrow> w | None \<Rightarrow> JNull)"

definition request_from_manifest :: "json \<Rightarrow> nat \<Rightarrow> string \<Rightarrow> request" where
  "request_from_manifest operation i path =
     (let template = jnth_or_null (jidx operation ''requests'') i in
      \<lparr>rq_method = str_or ''GET'' (jidx template ''method''),
       rq_template = str_or [] (jidx template ''path''),
       rq_path = path, rq_query = [], rq_headers = [], rq_body = None,
       rq_bearer = (jidx template ''auth'' = JStr ''bearer''),
       rq_class = class_from_name (str_or ''control'' (jidx operation ''transport''))\<rparr>)"

definition add_query :: "string \<Rightarrow> string \<Rightarrow> request \<Rightarrow> request" where
  "add_query name v rq = rq\<lparr>rq_query := rq_query rq @ [(name, v)]\<rparr>"

definition add_header :: "string \<Rightarrow> string \<Rightarrow> request \<Rightarrow> request" where
  "add_header name v rq = rq\<lparr>rq_headers := rq_headers rq @ [(name, v)]\<rparr>"

definition json_body :: "(json \<Rightarrow> string) \<Rightarrow> json \<Rightarrow> request \<Rightarrow> request" where
  "json_body to_vec v rq = rq\<lparr>rq_body := Some (to_vec v)\<rparr>"

definition set_class :: "transport_class \<Rightarrow> request \<Rightarrow> request" where
  "set_class c rq = rq\<lparr>rq_class := c\<rparr>"

definition has_header :: "request \<Rightarrow> string \<Rightarrow> bool" where
  "has_header rq name \<longleftrightarrow> list_ex (\<lambda>(key, _). eq_ignore_ascii_case key name) (rq_headers rq)"

definition client_headers :: "string \<Rightarrow> (string \<times> string) list" where
  "client_headers version =
     [(''X-OpenProse-Client'', ''cli/'' @ version @ ''+rust''), (''User-Agent'', ''prose-cli/'' @ version)]"

definition wire_headers :: "string \<Rightarrow> request \<Rightarrow> string option \<Rightarrow> (string \<times> string) list" where
  "wire_headers version rq token =
     client_headers version
     @ (if has_header rq ''Accept'' then [] else [(''Accept'', ''application/json'')])
     @ (case token of Some t \<Rightarrow> [(''Authorization'', ''Bearer '' @ t)] | None \<Rightarrow> [])
     @ (if rq_body rq \<noteq> None \<and> \<not> has_header rq ''Content-Type''
        then [(''Content-Type'', ''application/json'')] else [])
     @ rq_headers rq"

definition percent_encoded :: "string \<Rightarrow> string" where
  "percent_encoded v =
     concat (map (\<lambda>b. if ascii_alphanumeric b \<or> b \<in> {CHR ''-'', CHR ''.'', CHR ''_'', CHR ''~''} then [b]
        else CHR ''%'' # [char_of (hex_upper (code b div 16)), char_of (hex_upper (code b mod 16))]) v)"

text \<open>The parameters of a URL; \<open>sep\<close> is the separator of the first one.\<close>

fun query_text :: "char \<Rightarrow> (string \<times> string) list \<Rightarrow> string" where
  "query_text sep [] = []"
| "query_text sep ((name, v) # rest) =
     sep # percent_encoded name @ CHR ''='' # percent_encoded v @ query_text (CHR ''&'') rest"

definition request_url :: "string \<Rightarrow> request \<Rightarrow> string" where
  "request_url origin rq = origin @ rq_path rq @ query_text (CHR ''?'') (rq_query rq)"

section \<open>The proxy\<close>

definition ascii_whitespace :: "char \<Rightarrow> bool" where
  "ascii_whitespace c \<longleftrightarrow> code c \<in> {9, 10, 12, 13, 32}"

definition trim_ascii :: "string \<Rightarrow> string" where
  "trim_ascii s = rev (dropWhile ascii_whitespace (rev (dropWhile ascii_whitespace s)))"

text \<open>\<open>rsplit\<close> by a character, first piece: what is after its last occurrence.\<close>

definition after_last :: "char \<Rightarrow> string \<Rightarrow> string" where
  "after_last c s = rev (takeWhile (\<lambda>d. d \<noteq> c) (rev s))"

definition host_of :: "string \<Rightarrow> string" where
  "host_of rest =
     (let authority = after_last (CHR ''@'') (takeWhile (\<lambda>c. c \<notin> {SLASH, CHR ''?'', CHR ''#''}) rest) in
      map to_lower (case authority of
          CHR ''['' # bracketed \<Rightarrow> takeWhile (\<lambda>c. c \<noteq> CHR '']'') bracketed
        | _ \<Rightarrow> takeWhile (\<lambda>c. c \<noteq> CHR '':'') authority))"

definition first_set :: "(string \<Rightarrow> string option) \<Rightarrow> string list \<Rightarrow> string option" where
  "first_set lookup names =
     find_map (\<lambda>name. case lookup name of Some v \<Rightarrow> if v \<noteq> [] then Some v else None | None \<Rightarrow> None) names"

definition bypasses :: "string \<Rightarrow> string \<Rightarrow> bool" where
  "bypasses host untrimmed \<longleftrightarrow>
     (let entry = trim_ascii untrimmed;
          suffix = map to_lower (case strip_prefix ''.'' entry of Some rest \<Rightarrow> rest | None \<Rightarrow> entry) in
      entry = ''*'' \<or> suffix \<noteq> [] \<and> (host = suffix \<or> ends_with (CHR ''.'' # suffix) host))"

definition proxy_for :: "string \<Rightarrow> (string \<Rightarrow> string option) \<Rightarrow> string option" where
  "proxy_for url lookup =
     (case split_first ''://'' url of None \<Rightarrow> None
      | Some (scheme, rest) \<Rightarrow>
          (case (if map to_lower scheme = ''https'' then first_set lookup [''https_proxy'', ''HTTPS_PROXY'']
                 else if map to_lower scheme = ''http'' then first_set lookup [''http_proxy'', ''HTTP_PROXY'']
                 else None) of
             None \<Rightarrow> None
           | Some proxy \<Rightarrow>
               if proxy = [CHR 0x22, CHR 0x22] \<or> proxy = [CHR 0x27, CHR 0x27] then None
               else case first_set lookup [''no_proxy'', ''NO_PROXY''] of
                   Some listed \<Rightarrow>
                     if list_ex (bypasses (host_of rest)) (split_on (\<lambda>c. c = CHR '','') listed) then None
                     else Some proxy
                 | None \<Rightarrow> Some proxy))"

definition transport_reason :: string where
  "transport_reason = ''the connection to the service failed before a complete response arrived''"

definition unavailable :: runner_error where
  "unavailable = with_detail (catalog ServiceUnavailable) ''reason'' (JStr transport_reason)"

text \<open>\<open>agent_builder\<close>: the proxy of the agent; \<open>usable\<close> says which texts \<open>ureq::Proxy::new\<close> accepts.\<close>

definition agent_proxy ::
  "(string \<Rightarrow> bool) \<Rightarrow> string \<Rightarrow> (string \<Rightarrow> string option) \<Rightarrow> runner_error + string option" where
  "agent_proxy usable url lookup =
     (case proxy_for url lookup of
        None \<Rightarrow> Inr None
      | Some proxy \<Rightarrow>
          if (case split_first ''://'' proxy of Some (scheme, _) \<Rightarrow> map to_lower scheme \<noteq> ''http'' | None \<Rightarrow> False)
          then Inl unavailable
          else if usable proxy then Inr (Some proxy) else Inl unavailable)"


section \<open>Responses\<close>

record response =
  rs_status :: nat
  rs_headers :: "(string, string) btree"
  rs_body :: string

definition response_header :: "response \<Rightarrow> string \<Rightarrow> string option" where
  "response_header r name = bt_get (rs_headers r) (map to_lower name)"

definition response_not_object :: string where
  "response_not_object = ''the service response is not a valid JSON object''"

definition json_object :: "(string \<Rightarrow> json option) \<Rightarrow> response \<Rightarrow> runner_error + fields" where
  "json_object from_slice r =
     (case parse_body from_slice (rs_body r) of
        Some (JObj m) \<Rightarrow> Inr m
      | _ \<Rightarrow> Inl (with_detail (catalog ServiceProtocolInvalid) ''reason'' (JStr response_not_object)))"

definition successful :: "nat \<Rightarrow> bool" where
  "successful status \<longleftrightarrow> 200 \<le> status \<and> status < 300"

definition bounded_response ::
  "nat \<Rightarrow> (string, string) btree \<Rightarrow> string \<Rightarrow> nat \<Rightarrow> runner_error + response" where
  "bounded_response status headers body limit =
     (if limit < length body then
        if successful status then Inl (catalog ServiceResponseTooLarge)
        else Inr \<lparr>rs_status = status, rs_headers = headers, rs_body = []\<rparr>
      else Inr \<lparr>rs_status = status, rs_headers = headers, rs_body = body\<rparr>)"

section \<open>Classification\<close>

text \<open>The three sources of a code, in the order they are asked: the body, the route and the status.\<close>

definition error_body :: "(string \<Rightarrow> json option) \<Rightarrow> response \<Rightarrow> json" where
  "error_body from_slice r =
     (case parse_body from_slice (rs_body r) of Some (JObj m) \<Rightarrow> JObj m | _ \<Rightarrow> JNull)"

definition code_by_body :: "json \<Rightarrow> string option \<Rightarrow> string option" where
  "code_by_body table body_code =
     Option.bind body_code (\<lambda>c. as_str (jidx (jidx table ''bodyCodes'') c))"

definition route_code :: "request \<Rightarrow> nat \<Rightarrow> json \<Rightarrow> string option" where
  "route_code rq status entry =
     (if jidx entry ''code'' \<noteq> JStr ''RUN_SUBMISSION_AMBIGUOUS''
         \<and> jidx entry ''method'' = JStr (rq_method rq)
         \<and> jidx entry ''path'' = JStr (rq_template rq)
         \<and> as_u64 (jidx entry ''status'') = Some status
      then as_str (jidx entry ''code'') else None)"

definition code_by_route :: "json \<Rightarrow> request \<Rightarrow> nat \<Rightarrow> string option" where
  "code_by_route table rq status =
     Option.bind (as_array (jidx table ''routeOverrides'')) (find_map (route_code rq status))"

definition code_by_status :: "json \<Rightarrow> nat \<Rightarrow> string option" where
  "code_by_status table status =
     or_else (or_else (as_str (jidx (jidx table ''statuses'') (decimal status)))
       (if 500 \<le> status \<and> status \<le> 599 then as_str (jidx (jidx table ''statuses'') ''5xx'') else None))
     (as_str (jidx table ''otherStatus''))"

definition classified_code :: "json \<Rightarrow> request \<Rightarrow> nat \<Rightarrow> string option \<Rightarrow> error_code" where
  "classified_code table rq status body_code =
     (case Option.bind (or_else (or_else (code_by_body table body_code) (code_by_route table rq status))
             (code_by_status table status)) from_code of
        Some c \<Rightarrow> c
      | None \<Rightarrow> ServiceUnavailable)"

definition message_shown :: "json \<Rightarrow> string \<Rightarrow> nat \<Rightarrow> string option \<Rightarrow> bool" where
  "message_shown table contract status body_code \<longleftrightarrow>
     \<not> (case as_array (jidx table ''frozenContracts'') of
           Some vs \<Rightarrow> list_ex (\<lambda>v. v = JStr contract) vs | None \<Rightarrow> False)
     \<and> body_code \<noteq> Some ''feature_disabled''
     \<and> (case as_array (jidx (jidx table ''serviceMessage'') ''statuses'') of
           Some vs \<Rightarrow> list_ex (\<lambda>v. as_u64 v = Some status) vs | None \<Rightarrow> False)"

definition classify ::
  "json \<Rightarrow> (string \<Rightarrow> json option) \<Rightarrow> string \<Rightarrow> request \<Rightarrow> response \<Rightarrow> string option \<Rightarrow> runner_error" where
  "classify manifest from_slice contract rq r credential =
     (let table = jidx manifest ''errorClassification'';
          body = error_body from_slice r;
          body_code = as_str (jidx body ''code'');
          base = with_detail (catalog (classified_code table rq (rs_status r) body_code))
                   ''serviceStatus'' (JNum (PosInt (rs_status r)));
          coded = (case body_code of
              Some c \<Rightarrow> if jget (jidx table ''bodyCodes'') c \<noteq> None
                then with_detail base ''serviceCode'' (JStr c) else base
            | None \<Rightarrow> base) in
      case (if message_shown table contract (rs_status r) body_code
            then Option.bind (as_str (jidx body ''error'')) (\<lambda>t. sanitize_service_message t credential)
            else None) of
        Some m \<Rightarrow> with_detail coded ''serviceMessage'' (JStr m)
      | None \<Rightarrow> coded)"

section \<open>Properties\<close>

text \<open>The reader of a URL's parameters: pairs between ampersands, escapes undone.\<close>

definition hex_digit :: "char \<Rightarrow> nat" where
  "hex_digit c = (if ascii_digit c then code c - 48 else code c - 55)"

fun percent_decoded :: "string \<Rightarrow> string" where
  "percent_decoded [] = []"
| "percent_decoded (c # cs) =
     (if c = CHR ''%'' then (case cs of
        a # b # rest \<Rightarrow> char_of (16 * hex_digit a + hex_digit b) # percent_decoded rest
      | _ \<Rightarrow> [])
      else c # percent_decoded cs)"

definition read_pair :: "string \<Rightarrow> string \<times> string" where
  "read_pair p =
     (case split_once (CHR ''='') p of
        Some (name, v) \<Rightarrow> (percent_decoded name, percent_decoded v)
      | None \<Rightarrow> (percent_decoded p, []))"

definition read_parameters :: "string \<Rightarrow> (string \<times> string) list" where
  "read_parameters q =
     (case q of CHR ''?'' # rest \<Rightarrow> map read_pair (split_on (\<lambda>c. c = CHR ''&'') rest) | _ \<Rightarrow> [])"

definition unreserved :: "char \<Rightarrow> bool" where
  "unreserved c \<longleftrightarrow> ascii_alphanumeric c \<or> c \<in> {CHR ''-'', CHR ''.'', CHR ''_'', CHR ''~''}"

lemma hex_upper_char: "d < 16 \<Longrightarrow> ascii_alphanumeric (char_of (hex_upper d)) \<and> hex_digit (char_of (hex_upper d)) = d"
  by (auto simp: hex_upper_def hex_digit_def ascii_defs)

lemma percent_encoded_Cons:
  "percent_encoded (b # bs) =
     (if unreserved b then b # percent_encoded bs
      else CHR ''%'' # char_of (hex_upper (code b div 16)) # char_of (hex_upper (code b mod 16)) # percent_encoded bs)"
  by (simp add: percent_encoded_def unreserved_def)

lemma percent_encoded_chars: "c \<in> set (percent_encoded v) \<Longrightarrow> unreserved c \<or> c = CHR ''%''"
proof (induction v)
  case Nil
  then show ?case by (simp add: percent_encoded_def)
next
  case (Cons b bs)
  have "code b div 16 < 16" "code b mod 16 < 16" using code_less_256 [of b] by (simp_all add: less_mult_imp_div_less)
  with hex_upper_char have "unreserved (char_of (hex_upper (code b div 16)))" "unreserved (char_of (hex_upper (code b mod 16)))"
    by (simp_all add: unreserved_def)
  with Cons show ?case by (auto simp: percent_encoded_Cons split: if_splits)
qed

lemma percent_decoded_encoded [simp]: "percent_decoded (percent_encoded v) = v"
proof (induction v)
  case Nil
  show ?case by (simp add: percent_encoded_def)
next
  case (Cons b bs)
  have d: "code b div 16 < 16" "code b mod 16 < 16" using code_less_256 [of b] by (simp_all add: less_mult_imp_div_less)
  have "b = char_of (16 * (code b div 16) + code b mod 16)" by simp
  moreover have "unreserved b \<Longrightarrow> b \<noteq> CHR ''%''" by (auto simp: unreserved_def ascii_defs)
  ultimately show ?case using Cons d by (auto simp: percent_encoded_Cons hex_upper_char)
qed

lemma separators_reserved: "\<not> unreserved (CHR ''&'')" "\<not> unreserved (CHR ''='')"
  by (simp_all add: unreserved_def ascii_defs)

lemma percent_encoded_separators: "CHR ''&'' \<notin> set (percent_encoded v)" "CHR ''='' \<notin> set (percent_encoded v)"
  using percent_encoded_chars [of _ v] separators_reserved by auto

lemma read_pair_written: "read_pair (percent_encoded name @ CHR ''='' # percent_encoded v) = (name, v)"
  by (simp add: read_pair_def percent_encoded_separators)

lemma split_query_text:
  "map read_pair (split_on (\<lambda>c. c = CHR ''&'') (percent_encoded name @ CHR ''='' # percent_encoded v
     @ query_text (CHR ''&'') rest)) = (name, v) # rest"
proof (induction rest arbitrary: name v)
  case Nil
  have "split_on (\<lambda>c. c = CHR ''&'') (percent_encoded name @ CHR ''='' # percent_encoded v)
      = [percent_encoded name @ CHR ''='' # percent_encoded v]"
    by (rule split_on_no_sep) (auto simp: percent_encoded_separators)
  then show ?case by (simp add: read_pair_written)
next
  case (Cons nv rest)
  obtain name' v' where nv: "nv = (name', v')" by (cases nv)
  have "split_on (\<lambda>c. c = CHR ''&'') ((percent_encoded name @ CHR ''='' # percent_encoded v)
      @ CHR ''&'' # (percent_encoded name' @ CHR ''='' # percent_encoded v' @ query_text (CHR ''&'') rest))
      = (percent_encoded name @ CHR ''='' # percent_encoded v)
        # split_on (\<lambda>c. c = CHR ''&'') (percent_encoded name' @ CHR ''='' # percent_encoded v' @ query_text (CHR ''&'') rest)"
    by (rule split_on_append) (auto simp: percent_encoded_separators)
  with Cons.IH [of name' v'] show ?case by (simp add: nv read_pair_written)
qed

lemma read_parameters_query: "read_parameters (query_text (CHR ''?'') ps) = ps"
proof (cases ps)
  case Nil
  then show ?thesis by (simp add: read_parameters_def)
next
  case (Cons nv rest)
  then show ?thesis using split_query_text [of "fst nv" "snd nv" rest]
    by (cases nv) (simp add: read_parameters_def)
qed

definition url_char :: "char \<Rightarrow> bool" where
  "url_char c \<longleftrightarrow> unreserved c \<or> c \<in> {CHR ''%'', CHR ''?'', CHR ''&'', CHR ''=''}"

lemma query_text_chars: "sep \<in> {CHR ''?'', CHR ''&''} \<Longrightarrow> list_all url_char (query_text sep ps)"
proof (induction ps arbitrary: sep)
  case (Cons nv ps)
  obtain name v where nv: "nv = (name, v)" by (cases nv)
  have "list_all url_char (percent_encoded s)" for s
    using percent_encoded_chars [of _ s] by (auto simp: list_all_iff url_char_def)
  moreover have "url_char sep" "url_char (CHR ''='')" using Cons.prems by (auto simp: url_char_def)
  ultimately show ?case using Cons.IH [of "CHR ''&''"] by (simp add: nv)
qed simp

text \<open>
  The URL of a request is the origin and the path followed by the parameters alone, which are
  written with unreserved characters and their escapes; read back as parameters they are the names and the
  values of the request, in order, whatever bytes these hold.
\<close>

theorem request_url_reads_back:
  "map_option read_parameters (strip_prefix (origin @ rq_path rq) (request_url origin rq)) = Some (rq_query rq)
   \<and> opt_all (list_all url_char) (strip_prefix (origin @ rq_path rq) (request_url origin rq))"
proof -
  have "strip_prefix (origin @ rq_path rq) (request_url origin rq) = Some (query_text (CHR ''?'') (rq_query rq))"
    by (simp add: strip_prefix_Some request_url_def)
  then show ?thesis by (simp add: read_parameters_query query_text_chars opt_all_def)
qed

text \<open>The details of a classified error.\<close>

definition disclosed :: "json \<Rightarrow> string \<Rightarrow> nat \<Rightarrow> string option \<Rightarrow> runner_error \<Rightarrow> bool" where
  "disclosed table contract status body_code e \<longleftrightarrow>
     list_all (\<lambda>k. k \<in> {''serviceCode'', ''serviceMessage'', ''serviceStatus''})
       (case re_details e of Some d \<Rightarrow> bt_keys d | None \<Rightarrow> [])
     \<and> detail e ''serviceStatus'' = Some (JNum (PosInt status))
     \<and> (case detail e ''serviceCode'' of
          None \<Rightarrow> True
        | Some (JStr c) \<Rightarrow> body_code = Some c \<and> jget (jidx table ''bodyCodes'') c \<noteq> None
        | _ \<Rightarrow> False)
     \<and> (case detail e ''serviceMessage'' of
          None \<Rightarrow> True
        | Some (JStr m) \<Rightarrow> message_safe m \<and> message_shown table contract status body_code
        | _ \<Rightarrow> False)"

lemma catalog_no_details [simp]: "re_details (catalog c) = None"
  by (simp add: catalog_def new_error_def split: prod.splits)

lemma details_with_detail:
  "re_details (with_detail e k v) = Some (bt_insert k v (case re_details e of None \<Rightarrow> [] | Some m \<Rightarrow> m))"
  by (simp add: with_detail_def)

lemma disclosed_base:
  "disclosed table contract status body_code (with_detail (catalog c) ''serviceStatus'' (JNum (PosInt status)))"
  by (simp add: disclosed_def detail_with_detail details_with_detail)

lemma disclosed_with_detail:
  assumes "disclosed table contract status body_code e"
    and "k = ''serviceCode'' \<and> body_code = Some s \<and> jget (jidx table ''bodyCodes'') s \<noteq> None
      \<or> k = ''serviceMessage'' \<and> message_safe s \<and> message_shown table contract status body_code"
  shows "disclosed table contract status body_code (with_detail e k (JStr s))"
proof -
  have keys: "set (bt_keys (bt_insert k v m)) \<subseteq> insert k (set (bt_keys m))" for k :: string and v :: json and m
  proof (induction m)
    case (Cons kv m)
    then show ?case by (cases kv) (simp add: subset_iff, blast)
  qed simp
  show ?thesis
    unfolding disclosed_def
  proof (intro conjI)
    let ?d = "case re_details e of None \<Rightarrow> [] | Some m \<Rightarrow> m"
    have "set (bt_keys ?d) \<subseteq> {''serviceCode'', ''serviceMessage'', ''serviceStatus''}"
      using assms(1) unfolding disclosed_def list_all_iff by (cases "re_details e") auto
    moreover have "k \<in> {''serviceCode'', ''serviceMessage'', ''serviceStatus''}" using assms(2) by blast
    ultimately have "set (bt_keys (bt_insert k (JStr s) ?d)) \<subseteq> {''serviceCode'', ''serviceMessage'', ''serviceStatus''}"
      using keys [of k "JStr s" ?d] by (meson insert_subset order_trans)
    then show "list_all (\<lambda>k. k \<in> {''serviceCode'', ''serviceMessage'', ''serviceStatus''})
        (case re_details (with_detail e k (JStr s)) of Some d \<Rightarrow> bt_keys d | None \<Rightarrow> [])"
      unfolding details_with_detail list_all_iff option.case by blast
  next
    have "k \<noteq> ''serviceStatus''" using assms(2) by auto
    then show "detail (with_detail e k (JStr s)) ''serviceStatus'' = Some (JNum (PosInt status))"
      using assms(1) by (simp add: disclosed_def detail_with_detail)
  next
    show "case detail (with_detail e k (JStr s)) ''serviceCode'' of None \<Rightarrow> True
      | Some (JStr c) \<Rightarrow> body_code = Some c \<and> jget (jidx table ''bodyCodes'') c \<noteq> None | _ \<Rightarrow> False"
      using assms by (auto simp: disclosed_def detail_with_detail)
  next
    show "case detail (with_detail e k (JStr s)) ''serviceMessage'' of None \<Rightarrow> True
      | Some (JStr m) \<Rightarrow> message_safe m \<and> message_shown table contract status body_code | _ \<Rightarrow> False"
      using assms by (auto simp: disclosed_def detail_with_detail)
  qed
qed

text \<open>
  Property C38.  The details of a classified service error tell of the response only its status, a code the
  manifest lists, and, where the manifest and the contract let a message be shown and no feature is
  disabled, a message of at most 512 characters that holds no control character and no API key.
\<close>

theorem service_error_discloses_no_key:
  "disclosed (jidx manifest ''errorClassification'') contract (rs_status r)
     (as_str (jidx (error_body from_slice r) ''code'')) (classify manifest from_slice contract rq r credential)"
proof -
  let ?table = "jidx manifest ''errorClassification''" and ?code = "as_str (jidx (error_body from_slice r) ''code'')"
  define base where "base = with_detail (catalog (classified_code ?table rq (rs_status r) ?code))
    ''serviceStatus'' (JNum (PosInt (rs_status r)))"
  define coded where "coded = (case ?code of
      Some c \<Rightarrow> if jget (jidx ?table ''bodyCodes'') c \<noteq> None then with_detail base ''serviceCode'' (JStr c) else base
    | None \<Rightarrow> base)"
  have "disclosed ?table contract (rs_status r) ?code base" unfolding base_def by (rule disclosed_base)
  then have coded: "disclosed ?table contract (rs_status r) ?code coded"
    by (auto simp: coded_def split: option.splits intro!: disclosed_with_detail)
  define message where "message = (if message_shown ?table contract (rs_status r) ?code
    then Option.bind (as_str (jidx (error_body from_slice r) ''error'')) (\<lambda>t. sanitize_service_message t credential)
    else None)"
  have e: "classify manifest from_slice contract rq r credential =
      (case message of Some m \<Rightarrow> with_detail coded ''serviceMessage'' (JStr m) | None \<Rightarrow> coded)"
    unfolding classify_def Let_def base_def coded_def message_def ..
  show ?thesis
  proof (cases message)
    case None
    with e coded show ?thesis by simp
  next
    case (Some m)
    then have "message_safe m" "message_shown ?table contract (rs_status r) ?code"
      by (auto simp: message_def bind_eq_Some_conv sanitized_message_safe split: if_splits)
    with e coded Some show ?thesis by (auto intro: disclosed_with_detail)
  qed
qed

end
