(* ===== verification/Lenient_Base64.thy ===== *)
theory Lenient_Base64
  imports Base64
begin

text \<open>
  The base64 reader of the service client (\<open>service/http.rs\<close>, \<open>base64_decode\<close>): padding is optional and
  left-over bits are ignored.  It reads everything the strict reader of the process host reads.
\<close>

unbundle bit_operations_syntax

section \<open>The reader\<close>

definition lenient_value :: "char \<Rightarrow> 32 word option" where
  "lenient_value c =
     (if ascii_upper c then Some (of_nat (code c - 65))
      else if ascii_lower c then Some (of_nat (code c - 97 + 26))
      else if ascii_digit c then Some (of_nat (code c - 48 + 52))
      else if c = CHR ''+'' then Some 62
      else if c = CHR ''/'' then Some 63
      else None)"

text \<open>The loop over the digits; \<open>buffer\<close> is never cleared, its high bits fall off.\<close>

fun lenient_loop :: "32 word \<Rightarrow> nat \<Rightarrow> string \<Rightarrow> string option" where
  "lenient_loop buffer bits [] = Some []"
| "lenient_loop buffer bits (c # cs) =
     (case lenient_value c of
        None \<Rightarrow> None
      | Some v \<Rightarrow>
          let buffer = push_bit 6 buffer OR v; bits = bits + 6 in
          if bits \<ge> 8 then
            map_option (Cons (char_of (unat (drop_bit (bits - 8) buffer AND 255))))
              (lenient_loop buffer (bits - 8) cs)
          else lenient_loop buffer bits cs)"

definition base64_decode :: "string \<Rightarrow> string option" where
  "base64_decode s =
     (let trimmed = rev (dropWhile (\<lambda>c. c = CHR ''='') (rev s)) in
      if length s - length trimmed > 2 then None else lenient_loop 0 0 trimmed)"



section \<open>Agreement with the strict reader\<close>

lemma small_masks: "(3 :: u8) = mask 2" "(15 :: u8) = mask 4" "(63 :: u8) = mask 6" "(255 :: 32 word) = mask 8"
  by (simp_all add: mask_eq_exp_minus_1)

lemma byte_bit_bound: "bit (w :: u8) n \<Longrightarrow> n < 8"
  using bit_imp_le_length [of w n] by simp

lemma back_shifts: "2 \<le> n \<Longrightarrow> Suc (Suc (n - 2)) = n" "4 \<le> n \<Longrightarrow> Suc (Suc (Suc (Suc (n - 4)))) = n"
    "4 \<le> n \<Longrightarrow> 4 + (n - 4) = n" "2 \<le> n \<Longrightarrow> 2 + (n - 2) = n" "6 \<le> n \<Longrightarrow> 6 + (n - 6) = n"
  by auto

lemmas sextet_bits = bit_simps comp_def bit_or_iff bit_and_iff

text \<open>The three bytes of a group, from the digits that hold their bits.\<close>

lemma sextet_1:
  "drop_bit 4 (push_bit 6 (push_bit 6 (B :: 32 word) OR ucast (drop_bit 2 (a :: u8)))
     OR ucast (push_bit 4 (a AND 3) OR drop_bit 4 (b :: u8))) AND 255 = ucast a"
  unfolding small_masks
  apply (rule bit_word_eqI)
  subgoal for n
    by (cases "n < 2"; simp only: sextet_bits) (auto simp: not_less back_shifts dest: byte_bit_bound)
  done

lemma sextet_2:
  "drop_bit 2 (push_bit 6 (push_bit 6 (B :: 32 word) OR ucast (push_bit 4 (a AND 3) OR drop_bit 4 (b :: u8)))
     OR ucast (push_bit 2 (b AND 15) OR drop_bit 6 (c :: u8))) AND 255 = ucast b"
  unfolding small_masks
  by (rule bit_word_eqI, simp only: sextet_bits) (auto simp: not_less back_shifts dest: byte_bit_bound)

lemma sextet_3:
  "drop_bit 0 (push_bit 6 (push_bit 6 (B :: 32 word) OR ucast (push_bit 2 (b AND 15) OR drop_bit 6 (c :: u8)))
     OR ucast (c AND 63)) AND 255 = ucast c"
  unfolding small_masks
  by (rule bit_word_eqI, simp only: sextet_bits) (auto simp: not_less back_shifts dest: byte_bit_bound)


lemma lenient_value_digit:
  assumes "unat v < 64"
  shows "lenient_value (base64_digit v) = Some (ucast v)"
proof -
  define i where "i = unat v"
  have v: "ucast v = (of_nat i :: 32 word)" unfolding i_def by simp
  have c: "code (base64_digit v) =
    (if i < 26 then 65 + i else if i < 52 then 71 + i else if i < 62 then i - 4 else if i = 62 then 43 else 47)"
    unfolding base64_digit_def using base64_table_nth [of i] assms by (simp add: i_def)
  have i: "i < 64" using assms by (simp add: i_def)
  consider "i < 26" | "26 \<le> i" "i < 52" | "52 \<le> i" "i < 62" | "i = 62" | "i = 63"
    using i by linarith
  then show ?thesis
  proof cases
    case 1
    with c show ?thesis by (simp add: lenient_value_def ascii_defs v)
  next
    case 2
    then have "71 + i - 97 + 26 = i" by simp
    with 2 c show ?thesis by (simp add: lenient_value_def ascii_defs v del: of_nat_add of_nat_diff of_nat_numeral)
  next
    case 3
    then have "48 \<le> i - 4" "i - 4 \<le> 57" "\<not> 65 \<le> i - 4" "i - 4 - 48 + 52 = i" by auto
    with 3 c show ?thesis by (simp add: lenient_value_def ascii_defs v del: of_nat_add of_nat_diff of_nat_numeral)
  next
    case 4
    with c have "base64_digit v = CHR ''+''" using code_eq_iff by fastforce
    with 4 show ?thesis by (simp add: lenient_value_def ascii_defs v)
  next
    case 5
    with c have "base64_digit v = CHR ''/''" using code_eq_iff by fastforce
    with 5 show ?thesis by (simp add: lenient_value_def ascii_defs v)
  qed
qed

definition byte :: "u8 \<Rightarrow> char" where "byte v = char_of (unat v)"

lemma byte_ucast: "char_of (unat (ucast (v :: u8) :: 32 word)) = byte v"
proof -
  have "unat v < 256" using unsigned_less [of v, where 'a = nat] by simp
  then have "unat (ucast v :: 32 word) = unat v" by (simp add: unsigned_ucast_eq take_bit_nat_eq_self_iff)
  then show ?thesis by (simp add: byte_def)
qed

lemma lenient_steps:
  assumes "lenient_value c = Some v"
  shows "lenient_loop B 0 (c # cs) = lenient_loop (push_bit 6 B OR v) 6 cs"
    "lenient_loop B 6 (c # cs) = map_option (Cons (char_of (unat (drop_bit 4 (push_bit 6 B OR v) AND 255))))
       (lenient_loop (push_bit 6 B OR v) 4 cs)"
    "lenient_loop B 4 (c # cs) = map_option (Cons (char_of (unat (drop_bit 2 (push_bit 6 B OR v) AND 255))))
       (lenient_loop (push_bit 6 B OR v) 2 cs)"
    "lenient_loop B 2 (c # cs) = map_option (Cons (char_of (unat (drop_bit 0 (push_bit 6 B OR v) AND 255))))
       (lenient_loop (push_bit 6 B OR v) 0 cs)"
  by (simp_all only: lenient_loop.simps assms option.case Let_def) simp_all

lemma lenient_pair:
  "\<exists>B'. lenient_loop B 0 (base64_digit (drop_bit 2 a) # base64_digit (push_bit 4 (a AND 3) OR drop_bit 4 b) # rest)
     = map_option (Cons (byte a)) (lenient_loop (push_bit 6 B' OR ucast (push_bit 4 (a AND 3) OR drop_bit 4 b)) 4 rest)"
proof -
  note first = lenient_steps(1) [OF lenient_value_digit, OF digit_args(1)]
  note second = lenient_steps(2) [OF lenient_value_digit, OF digit_args(2)]
  show ?thesis unfolding first second sextet_1 byte_ucast by blast
qed

lemma lenient_triple:
  "\<exists>B'. lenient_loop B 0 (base64_digit (drop_bit 2 a) # base64_digit (push_bit 4 (a AND 3) OR drop_bit 4 b)
       # base64_digit (push_bit 2 (b AND 15) OR drop_bit 6 c) # rest)
     = map_option (Cons (byte a)) (map_option (Cons (byte b))
         (lenient_loop (push_bit 6 B' OR ucast (push_bit 2 (b AND 15) OR drop_bit 6 c)) 2 rest))"
proof -
  obtain B' where "lenient_loop B 0 (base64_digit (drop_bit 2 a) # base64_digit (push_bit 4 (a AND 3) OR drop_bit 4 b)
       # base64_digit (push_bit 2 (b AND 15) OR drop_bit 6 c) # rest)
     = map_option (Cons (byte a)) (lenient_loop (push_bit 6 B' OR ucast (push_bit 4 (a AND 3) OR drop_bit 4 b)) 4
         (base64_digit (push_bit 2 (b AND 15) OR drop_bit 6 c) # rest))"
    using lenient_pair by blast
  moreover note third = lenient_steps(3) [OF lenient_value_digit, OF digit_args(3)]
  ultimately show ?thesis unfolding third sextet_2 byte_ucast by metis
qed

lemma lenient_group:
  "\<exists>B'. lenient_loop B 0 (base64_digit (drop_bit 2 a) # base64_digit (push_bit 4 (a AND 3) OR drop_bit 4 b)
       # base64_digit (push_bit 2 (b AND 15) OR drop_bit 6 c) # base64_digit (c AND 63) # rest)
     = map_option (\<lambda>t. byte a # byte b # byte c # t) (lenient_loop B' 0 rest)"
proof -
  obtain B' where "lenient_loop B 0 (base64_digit (drop_bit 2 a) # base64_digit (push_bit 4 (a AND 3) OR drop_bit 4 b)
       # base64_digit (push_bit 2 (b AND 15) OR drop_bit 6 c) # base64_digit (c AND 63) # rest)
     = map_option (Cons (byte a)) (map_option (Cons (byte b))
         (lenient_loop (push_bit 6 B' OR ucast (push_bit 2 (b AND 15) OR drop_bit 6 c)) 2 (base64_digit (c AND 63) # rest)))"
    using lenient_triple by blast
  moreover note fourth = lenient_steps(4) [OF lenient_value_digit, OF digit_args(4)]
  ultimately show ?thesis unfolding fourth sextet_3 byte_ucast option.map_comp comp_def by metis
qed


definition unpadded :: "u8 list \<Rightarrow> string \<Rightarrow> nat \<Rightarrow> bool" where
  "unpadded bs digits n \<longleftrightarrow>
     encode_base64 bs = digits @ replicate n PAD \<and> n \<le> 2 \<and> (digits = [] \<or> last digits \<noteq> PAD)
     \<and> (\<forall>B. lenient_loop B 0 digits = Some (map byte bs))"

lemma unpadded_one: "\<exists>digits n. unpadded [a] digits n"
proof -
  let ?digits = "[base64_digit (drop_bit 2 a), base64_digit (push_bit 4 (a AND 3) OR drop_bit 4 0)]"
  have "lenient_loop B 0 ?digits = Some (map byte [a])" for B
    using lenient_pair [of B a 0 "[]"] by (auto simp del: push_bit_and drop_bit_of_0)
  moreover have "last ?digits \<noteq> PAD" by (simp add: base64_value_digit del: push_bit_and drop_bit_of_0)
  ultimately have "unpadded [a] ?digits 2" by (simp add: unpadded_def numeral_2_eq_2 del: push_bit_and drop_bit_of_0)
  then show ?thesis by blast
qed

lemma unpadded_two: "\<exists>digits n. unpadded [a, b] digits n"
proof -
  let ?digits = "[base64_digit (drop_bit 2 a), base64_digit (push_bit 4 (a AND 3) OR drop_bit 4 b),
    base64_digit (push_bit 2 (b AND 15) OR drop_bit 6 0)]"
  have "lenient_loop B 0 ?digits = Some (map byte [a, b])" for B
    using lenient_triple [of B a b 0 "[]"] by (auto simp del: push_bit_and drop_bit_of_0)
  moreover have "last ?digits \<noteq> PAD" by (simp add: base64_value_digit del: push_bit_and drop_bit_of_0)
  ultimately have "unpadded [a, b] ?digits 1" by (simp add: unpadded_def del: push_bit_and drop_bit_of_0)
  then show ?thesis by blast
qed

lemma unpadded_more:
  assumes "unpadded bs digits n"
  shows "unpadded (a # b # c # bs) (base64_digit (drop_bit 2 a) # base64_digit (push_bit 4 (a AND 3) OR drop_bit 4 b)
    # base64_digit (push_bit 2 (b AND 15) OR drop_bit 6 c) # base64_digit (c AND 63) # digits) n"
    (is "unpadded _ ?digits n")
proof -
  have "lenient_loop B 0 ?digits = Some (map byte (a # b # c # bs))" for B
    using lenient_group [of B a b c digits] assms by (auto simp: unpadded_def simp del: push_bit_and)
  then show ?thesis using assms by (auto simp: unpadded_def simp del: push_bit_and lenient_loop.simps)
qed

lemma unpadded_exists: "\<exists>digits n. unpadded bs digits n"
proof (induction bs rule: encode_base64.induct)
  case 1
  have "unpadded [] [] 0" by (simp add: unpadded_def)
  then show ?case by blast
qed (blast intro: unpadded_one unpadded_two unpadded_more)+

text \<open>The lenient decoder reads what the canonical encoder writes.\<close>

lemma base64_decode_encoded: "base64_decode (encode_base64 bs) = Some (map byte bs)"
proof -
  obtain digits n where d: "unpadded bs digits n" using unpadded_exists by blast
  then have "encode_base64 bs = digits @ replicate n PAD" by (simp add: unpadded_def)
  moreover have "rev (dropWhile (\<lambda>c. c = CHR ''='') (rev (digits @ replicate n PAD))) = digits"
    using d by (cases digits rule: rev_cases) (auto simp: unpadded_def PAD_def dropWhile_append)
  ultimately show ?thesis using d by (simp add: base64_decode_def unpadded_def Let_def)
qed

text \<open>
  Both decoders of base64 in the program, the strict one of the process host and the lenient one of the
  service client, give the same bytes where the strict one gives any.
\<close>

theorem lenient_decoder_extends_strict:
  "decode_base64 s = Some bs \<Longrightarrow> base64_decode s = Some (map byte bs)"
proof -
  assume "decode_base64 s = Some bs"
  then have "s = encode_base64 bs"
    using encode_decode_chunks [of s bs] by (simp add: decode_base64_def split: if_splits)
  then show ?thesis by (simp add: base64_decode_encoded)
qed

end
