(* ===== verification/Pattern.thy ===== *)
theory Pattern
  imports Text_Safety
begin

text \<open>
  The matcher of header patterns (\<open>pattern_matches\<close> of \<open>service/render.rs\<close>): a parser of a subset of
  regular expressions and a backtracking matcher in continuation-passing style.  A text is the list of
  its scalar values; the parser's \<open>index\<close> is the rest of the pattern.  The recursions of both are total
  because a continuation only ever gets a later position and a parser a shorter rest; where the
  recursion needs that, the definition asks for it, and it is shown to hold always.
\<close>

section \<open>Patterns\<close>

datatype class_item = Range nat nat | Digit | Word | Space

datatype pattern_node =
    Literal nat
  | AnyChar
  | Class "class_item list" bool
  | StartAnchor
  | EndAnchor
  | Alternation "pattern_node list list"
  | Repeat pattern_node nat nat

definition ascii_alnum :: "nat \<Rightarrow> bool" where
  "ascii_alnum c \<longleftrightarrow> 48 \<le> c \<and> c \<le> 57 \<or> 65 \<le> c \<and> c \<le> 90 \<or> 97 \<le> c \<and> c \<le> 122"

fun item_matches :: "class_item \<Rightarrow> nat \<Rightarrow> bool" where
  "item_matches (Range low high) c \<longleftrightarrow> low \<le> c \<and> c \<le> high"
| "item_matches Digit c \<longleftrightarrow> 48 \<le> c \<and> c \<le> 57"
| "item_matches Word c \<longleftrightarrow> ascii_alnum c \<or> c = 95"
| "item_matches Space c \<longleftrightarrow> is_whitespace c"

fun single :: "pattern_node \<Rightarrow> nat \<Rightarrow> bool" where
  "single (Literal expected) c \<longleftrightarrow> expected = c"
| "single AnyChar c \<longleftrightarrow> c \<noteq> 10"
| "single (Class items negated) c \<longleftrightarrow> list_ex (\<lambda>item. item_matches item c) items \<noteq> negated"
| "single _ c \<longleftrightarrow> False"

section \<open>The parser\<close>

abbreviation unbounded :: nat where "unbounded \<equiv> u64_max"

fun pattern_escape :: "ustr \<Rightarrow> (class_item \<times> ustr) option" where
  "pattern_escape [] = None"
| "pattern_escape (c # r) =
     (if c = 100 then Some (Digit, r)
      else if c = 119 then Some (Word, r)
      else if c = 115 then Some (Space, r)
      else if c = 110 then Some (Range 10 10, r)
      else if c = 116 then Some (Range 9 9, r)
      else if \<not> ascii_alnum c then Some (Range c c, r)
      else None)"

definition parse_count :: "ustr \<Rightarrow> nat option" where
  "parse_count s = parse_u64 (utf8_encode s)"

definition quantifier_bounds :: "ustr \<Rightarrow> (nat \<times> nat) option" where
  "quantifier_bounds body =
     (case split_once 44 body of
        Some (low, high) \<Rightarrow>
          if high = [] then map_option (\<lambda>n. (n, unbounded)) (parse_count low)
          else (case (parse_count low, parse_count high) of (Some m, Some n) \<Rightarrow> Some (m, n) | _ \<Rightarrow> None)
      | None \<Rightarrow> map_option (\<lambda>n. (n, n)) (parse_count body))"

text \<open>The bounds at the head of the rest with what follows them; \<open>None\<close> inside for no quantifier.\<close>

definition quantifier_at :: "ustr \<Rightarrow> ((nat \<times> nat) \<times> ustr) option option" where
  "quantifier_at rest =
     (case rest of
        [] \<Rightarrow> Some None
      | c # r \<Rightarrow>
          if c = 42 then Some (Some ((0, unbounded), r))
          else if c = 43 then Some (Some ((1, unbounded), r))
          else if c = 63 then Some (Some ((0, 1), r))
          else if c = 123 then
            (case split_once 125 r of
               None \<Rightarrow> None
             | Some (body, r') \<Rightarrow> map_option (\<lambda>bounds. Some (bounds, r')) (quantifier_bounds body))
          else Some None)"

definition quantifier :: "pattern_node \<Rightarrow> ustr \<Rightarrow> (pattern_node \<times> ustr) option" where
  "quantifier atom rest =
     (case quantifier_at rest of
        None \<Rightarrow> None
      | Some None \<Rightarrow> Some (atom, rest)
      | Some (Some ((low, high), r)) \<Rightarrow>
          if atom \<in> {StartAnchor, EndAnchor} \<or> high < low then None else Some (Repeat atom low high, r))"

lemma split_once_length: "split_once c s = Some (a, b) \<Longrightarrow> length b < length s"
  by (auto simp: split_once_Some)

lemma escape_length: "pattern_escape s = Some (item, r) \<Longrightarrow> length r < length s"
  by (cases s) (auto split: if_split_asm)

text \<open>A hyphen and one more character but a closing bracket make a range.\<close>

definition class_range :: "class_item \<Rightarrow> ustr \<Rightarrow> (class_item \<times> ustr) option" where
  "class_range item rest =
     (case item of
        Range low _ \<Rightarrow>
          (case rest of
             hyphen # high # r \<Rightarrow> if hyphen = 45 \<and> high \<noteq> 93 then Some (Range low high, r) else None
           | _ \<Rightarrow> None)
      | _ \<Rightarrow> None)"

lemma class_range_length: "class_range item s = Some (item', r) \<Longrightarrow> length r < length s"
  by (auto simp: class_range_def split: class_item.splits list.splits if_split_asm)

text \<open>The items of a class up to its closing bracket.\<close>

function class_items :: "class_item list \<Rightarrow> ustr \<Rightarrow> (class_item list \<times> ustr) option" where
  "class_items items [] = None"
| "class_items items (current # r) =
     (if current = 93 \<and> items \<noteq> [] then Some (items, r)
      else
        (case (if current = 92 then pattern_escape r else Some (Range current current, r)) of
           None \<Rightarrow> None
         | Some (item, r1) \<Rightarrow>
             (case class_range item r1 of
                Some (item', r2) \<Rightarrow> class_items (items @ [item']) r2
              | None \<Rightarrow> class_items (items @ [item]) r1)))"
  by pat_completeness auto
termination
  by (relation "measure (\<lambda>(items, s). length s)") (auto dest!: escape_length class_range_length split: if_split_asm)


lemma class_items_length: "class_items items s = Some (items', r) \<Longrightarrow> length r < length s"
proof (induction items s arbitrary: items' r rule: class_items.induct)
  case (2 items current r0)
  show ?case
  proof (cases "current = 93 \<and> items \<noteq> []")
    case True
    with "2.prems" show ?thesis by simp
  next
    case open_class: False
    then obtain item r1 where item: "(if current = 92 then pattern_escape r0 else Some (Range current current, r0)) = Some (item, r1)"
      using "2.prems" by (auto split: option.splits if_split_asm)
    then have shorter: "length r1 \<le> length r0"
      by (auto split: if_split_asm dest: escape_length)
    show ?thesis
    proof (cases "class_range item r1")
      case None
      with "2.prems" open_class item have "class_items (items @ [item]) r1 = Some (items', r)" by simp
      with "2.IH"(1) [OF open_class item refl None] shorter show ?thesis by simp
    next
      case (Some found)
      obtain item' r2 where found: "found = (item', r2)" by (cases found)
      with Some "2.prems" open_class item have "class_items (items @ [item']) r2 = Some (items', r)" by simp
      with "2.IH"(2) [OF open_class item refl Some found [symmetric]] shorter class_range_length [of item r1 item' r2] Some found
      show ?thesis by simp
    qed
  qed
qed simp

lemma quantifier_length: "quantifier atom s = Some (n, r) \<Longrightarrow> length r \<le> length s"
  by (auto simp: quantifier_def quantifier_at_def split: option.splits if_split_asm list.splits prod.splits
      dest: split_once_length)

definition group_start :: "ustr \<Rightarrow> ustr option" where
  "group_start r =
     (if starts_with [63, 58] r then Some (drop 2 r)
      else if r \<noteq> [] \<and> hd r = 63 then None
      else Some r)"

lemma group_start_length: "group_start s = Some r \<Longrightarrow> length r \<le> length s"
  by (auto simp: group_start_def split: if_split_asm)

function parse_alternation :: "ustr \<Rightarrow> (pattern_node list list \<times> ustr) option"
  and parse_sequence :: "ustr \<Rightarrow> (pattern_node list \<times> ustr) option"
  and parse_atom :: "ustr \<Rightarrow> (pattern_node \<times> ustr) option" where
  "parse_alternation rest =
     (case parse_sequence rest of
        None \<Rightarrow> None
      | Some (branch, r) \<Rightarrow>
          (case r of
             c # r' \<Rightarrow>
               if c = 124 then
                 (if length r' < length rest
                  then map_option (\<lambda>(branches, r). (branch # branches, r)) (parse_alternation r') else None)
               else Some ([branch], r)
           | [] \<Rightarrow> Some ([branch], r)))"
| "parse_sequence rest =
     (case rest of
        [] \<Rightarrow> Some ([], rest)
      | c # r0 \<Rightarrow>
          if c = 124 \<or> c = 41 then Some ([], rest)
          else (case parse_atom rest of
                  None \<Rightarrow> None
                | Some (atom, r) \<Rightarrow>
                    (case quantifier atom r of
                       None \<Rightarrow> None
                     | Some (n, r') \<Rightarrow>
                         if length r' < length rest
                         then map_option (\<lambda>(nodes, r). (n # nodes, r)) (parse_sequence r') else None)))"
| "parse_atom rest =
     (case rest of
        [] \<Rightarrow> None
      | c # r \<Rightarrow>
          if c = 94 then Some (StartAnchor, r)
          else if c = 36 then Some (EndAnchor, r)
          else if c = 46 then Some (AnyChar, r)
          else if c = 40 then
            (case group_start r of
               None \<Rightarrow> None
             | Some r1 \<Rightarrow>
                 (case parse_alternation r1 of
                    Some (branches, c' # r2) \<Rightarrow> if c' = 41 then Some (Alternation branches, r2) else None
                  | _ \<Rightarrow> None))
          else if c = 91 then
            (let negated = r \<noteq> [] \<and> hd r = 94 in
             map_option (\<lambda>(items, r). (Class items negated, r)) (class_items [] (if negated then tl r else r)))
          else if c = 92 then
            (case pattern_escape r of
               None \<Rightarrow> None
             | Some (Range low _, r') \<Rightarrow> Some (Literal low, r')
             | Some (item, r') \<Rightarrow> Some (Class [item] False, r'))
          else if c \<in> {42, 43, 63, 123, 41} then None
          else Some (Literal c, r))"
  by pat_completeness auto
termination
  by (relation "measures
      [\<lambda>x. case x of Inl s \<Rightarrow> length s | Inr (Inl s) \<Rightarrow> length s | Inr (Inr s) \<Rightarrow> length s,
       \<lambda>x. case x of Inl s \<Rightarrow> 2 | Inr (Inl s) \<Rightarrow> 1 | Inr (Inr s) \<Rightarrow> 0]")
    (auto dest: group_start_length)

declare parse_alternation.simps [simp del] parse_sequence.simps [simp del] parse_atom.simps [simp del]

lemma parse_lengths:
  "parse_alternation s = Some (branches, r) \<Longrightarrow> length r \<le> length s"
  "parse_sequence s = Some (nodes, r) \<Longrightarrow> length r \<le> length s"
  "parse_atom s = Some (atom, r) \<Longrightarrow> length r < length s"
proof (induction s and s and s arbitrary: branches r and nodes r and atom r
    rule: parse_alternation_parse_sequence_parse_atom.induct)
  case (1 rest)
  from "1.prems" show ?case
    by (subst (asm) parse_alternation.simps)
      (fastforce split: option.splits list.splits if_split_asm dest: "1.IH")
next
  case (2 rest)
  show ?case
  proof (cases "rest = [] \<or> hd rest \<in> {124, 41}")
    case True
    with "2.prems" show ?thesis
      by (cases rest) (auto simp: parse_sequence.simps [of "[]"] parse_sequence.simps [of "_ # _"])
  next
    case False
    then obtain c r0 where rest: "rest = c # r0" "\<not> (c = 124 \<or> c = 41)" by (cases rest) auto
    with "2.prems" obtain atom r1 n r2 nodes' where steps: "parse_atom rest = Some (atom, r1)"
        "quantifier atom r1 = Some (n, r2)" "length r2 < length rest" "parse_sequence r2 = Some (nodes', r)"
      by (auto simp: parse_sequence.simps [of "_ # _"] split: option.splits if_split_asm)
    have "length r \<le> length r2"
      by (rule "2.IH"(2) [OF rest steps(1) refl steps(2) refl steps(3,4)])
    with steps(3) show ?thesis by simp
  qed
next
  case (3 rest)
  then obtain c r0 where rest: "rest = c # r0"
    by (cases rest) (simp_all add: parse_atom.simps [of "[]"])
  consider "c = 40" | "c = 91" | "c = 92" | "c \<notin> {40, 91, 92}" by blast
  then show ?case
  proof cases
    case 1
    with "3.prems" rest obtain r1 branches r2 where group: "group_start r0 = Some r1"
        and inner: "parse_alternation r1 = Some (branches, 41 # r2)" and "r = r2"
      by (auto simp: parse_atom.simps [of "_ # _"] split: option.splits list.splits if_split_asm)
    have "length (41 # r2) \<le> length r1"
      by (rule "3.IH" [OF rest _ _ _ _ group inner]) (use 1 in simp_all)
    with \<open>r = r2\<close> rest group_start_length [OF group] show ?thesis by simp
  next
    case 2
    with "3.prems" rest show ?thesis
      by (auto simp: parse_atom.simps [of "_ # _"] Let_def dest!: class_items_length split: if_split_asm)
  next
    case 3
    with "3.prems" rest show ?thesis
      by (auto simp: parse_atom.simps [of "_ # _"] dest!: escape_length split: option.splits class_item.splits)
  next
    case 4
    with "3.prems" rest show ?thesis
      by (auto simp: parse_atom.simps [of "_ # _"] split: if_split_asm)
  qed
qed

text \<open>The guards of the recursion ask for nothing.\<close>

lemma alternation_guard:
  "parse_sequence rest = Some (branch, c # r') \<Longrightarrow> length r' < length rest"
  by (drule parse_lengths(2)) simp

lemma sequence_guard:
  "\<lbrakk>parse_atom rest = Some (atom, r); quantifier atom r = Some (n, r')\<rbrakk> \<Longrightarrow> length r' < length rest"
  by (drule parse_lengths(3), drule quantifier_length) simp

section \<open>The matcher\<close>

text \<open>
  \<open>sequence\<close>, \<open>one\<close> and \<open>repeat\<close> decide whether some way to match ends in a position the continuation
  \<open>next\<close> accepts.  A repetition goes on only where an iteration moved; that it moved forward, and not past
  the end, is what the recursion of \<open>match_repeat\<close> asks for.
\<close>

lemma size_in_list: "x \<in> set xs \<Longrightarrow> size x < Suc (size_list size xs)"
  by (simp add: less_Suc_eq_le size_list_estimation')

lemma size_branch: "branch \<in> set branches \<Longrightarrow> size_list size branch < size (Alternation branches)"
  by (induction branches) auto

function match_sequence :: "pattern_node list \<Rightarrow> nat \<Rightarrow> ustr \<Rightarrow> (nat \<Rightarrow> bool) \<Rightarrow> bool"
  and match_one :: "pattern_node \<Rightarrow> nat \<Rightarrow> ustr \<Rightarrow> (nat \<Rightarrow> bool) \<Rightarrow> bool"
  and match_repeat :: "pattern_node \<Rightarrow> nat \<Rightarrow> nat \<Rightarrow> nat \<Rightarrow> nat \<Rightarrow> ustr \<Rightarrow> (nat \<Rightarrow> bool) \<Rightarrow> bool" where
  "match_sequence nodes position input next =
     (case nodes of
        [] \<Rightarrow> next position
      | first # rest \<Rightarrow> match_one first position input (\<lambda>after. match_sequence rest after input next))"
| "match_one node position input next =
     (case node of
        StartAnchor \<Rightarrow> position = 0 \<and> next position
      | EndAnchor \<Rightarrow> position = length input \<and> next position
      | Alternation branches \<Rightarrow> list_ex (\<lambda>branch. match_sequence branch position input next) branches
      | Repeat inner low high \<Rightarrow> match_repeat inner low high 0 position input next
      | atom \<Rightarrow> position < length input \<and> single atom (input ! position) \<and> next (position + 1))"
| "match_repeat node low high count position input next =
     (if count < high
         \<and> match_one node position input (\<lambda>after.
              if after \<noteq> position \<and> position < after \<and> after \<le> length input
              then match_repeat node low high (count + 1) after input next else False)
      then True
      else low \<le> count \<and> next position)"
  by pat_completeness auto
termination
  by (relation "measures
      [\<lambda>x. case x of Inl (ns, _) \<Rightarrow> 2 * size_list size ns | Inr (Inl (n, _)) \<Rightarrow> 2 * size n | Inr (Inr (n, _)) \<Rightarrow> 2 * size n + 1,
       \<lambda>x. case x of Inr (Inr (n, low, high, count, position, input, _)) \<Rightarrow> Suc (length input) - position | _ \<Rightarrow> 0]")
    (auto dest: size_branch)

declare match_sequence.simps [simp del] match_one.simps [simp del] match_repeat.simps [simp del]

definition pattern_matches :: "ustr \<Rightarrow> ustr \<Rightarrow> bool option" where
  "pattern_matches pattern v =
     (case parse_alternation pattern of
        None \<Rightarrow> None
      | Some (branches, r) \<Rightarrow>
          if r \<noteq> [] then None
          else Some (list_ex (\<lambda>start. match_sequence [Alternation branches] start v (\<lambda>_. True)) [0..<Suc (length v)]))"

section \<open>What a pattern means\<close>

text \<open>
  A node relates the position it starts at to the positions it may end at; \<open>times\<close> is a number of
  iterations.  With \<open>moving\<close>, an iteration must not be empty, which is how the matcher counts; without, it
  is the meaning of a regular expression.
\<close>

inductive span :: "bool \<Rightarrow> ustr \<Rightarrow> pattern_node \<Rightarrow> nat \<Rightarrow> nat \<Rightarrow> bool"
  and spans :: "bool \<Rightarrow> ustr \<Rightarrow> pattern_node list \<Rightarrow> nat \<Rightarrow> nat \<Rightarrow> bool"
  and times :: "bool \<Rightarrow> ustr \<Rightarrow> pattern_node \<Rightarrow> nat \<Rightarrow> nat \<Rightarrow> nat \<Rightarrow> bool"
  for moving :: bool and input :: ustr where
  char: "\<lbrakk>i < length input; single n (input ! i)\<rbrakk> \<Longrightarrow> span moving input n i (Suc i)"
| start: "span moving input StartAnchor 0 0"
| stop: "span moving input EndAnchor (length input) (length input)"
| branch: "\<lbrakk>branch \<in> set branches; spans moving input branch i j\<rbrakk> \<Longrightarrow> span moving input (Alternation branches) i j"
| iterate: "\<lbrakk>times moving input n k i j; low \<le> k; k \<le> high\<rbrakk> \<Longrightarrow> span moving input (Repeat n low high) i j"
| nothing: "spans moving input [] i i"
| step: "\<lbrakk>span moving input n i j; spans moving input ns j l\<rbrakk> \<Longrightarrow> spans moving input (n # ns) i l"
| none: "times moving input n 0 i i"
| again: "\<lbrakk>span moving input n i j; moving \<longrightarrow> i \<noteq> j; times moving input n k j l\<rbrakk> \<Longrightarrow> times moving input n (Suc k) i l"

inductive_simps span_simps:
  "span moving input (Literal c) i j" "span moving input AnyChar i j" "span moving input (Class items negated) i j"
  "span moving input StartAnchor i j" "span moving input EndAnchor i j"
  "span moving input (Alternation branches) i j" "span moving input (Repeat n low high) i j"

inductive_simps spans_simps: "spans moving input [] i j" "spans moving input (n # ns) i j"

inductive_simps times_simps: "times moving input n 0 i j" "times moving input n (Suc k) i j"

lemma span_bounds:
  "span moving input n i j \<Longrightarrow> i \<le> length input \<Longrightarrow> i \<le> j \<and> j \<le> length input"
  "spans moving input ns i j \<Longrightarrow> i \<le> length input \<Longrightarrow> i \<le> j \<and> j \<le> length input"
  "times moving input n k i j \<Longrightarrow> i \<le> length input \<Longrightarrow> i \<le> j \<and> j \<le> length input"
  by (induction rule: span_spans_times.inducts) auto

lemma times_split:
  "(\<exists>k. times moving input n k i j \<and> low \<le> count + k \<and> count + k \<le> high) \<longleftrightarrow>
     (i = j \<and> low \<le> count \<and> count \<le> high)
     \<or> (\<exists>l k. span moving input n i l \<and> (moving \<longrightarrow> i \<noteq> l) \<and> times moving input n k l j
          \<and> low \<le> count + 1 + k \<and> count + 1 + k \<le> high)" (is "?l \<longleftrightarrow> ?r")
proof
  assume ?l
  then obtain k where k: "times moving input n k i j" "low \<le> count + k" "count + k \<le> high" by blast
  then show ?r by (cases k) (auto simp: times_simps)
next
  assume ?r
  then show ?l
  proof
    assume "i = j \<and> low \<le> count \<and> count \<le> high"
    then show ?l by (intro exI [of _ 0]) (simp add: times_simps)
  next
    assume "\<exists>l k. span moving input n i l \<and> (moving \<longrightarrow> i \<noteq> l) \<and> times moving input n k l j
          \<and> low \<le> count + 1 + k \<and> count + 1 + k \<le> high"
    then obtain l k where "span moving input n i l" "moving \<longrightarrow> i \<noteq> l" "times moving input n k l j"
        "low \<le> count + 1 + k" "count + 1 + k \<le> high" by blast
    then show ?l by (intro exI [of _ "Suc k"]) (auto simp: times_simps)
  qed
qed

lemma matcher_iff:
  "position \<le> length input \<Longrightarrow>
     match_sequence nodes position input next \<longleftrightarrow> (\<exists>j. spans True input nodes position j \<and> next j)"
  "position \<le> length input \<Longrightarrow>
     match_one node position input next \<longleftrightarrow> (\<exists>j. span True input node position j \<and> next j)"
  "\<lbrakk>position \<le> length input; count \<le> high\<rbrakk> \<Longrightarrow>
     match_repeat node low high count position input next \<longleftrightarrow>
       (\<exists>j k. times True input node k position j \<and> low \<le> count + k \<and> count + k \<le> high \<and> next j)"
proof (induction nodes position input "next" and node position input "next"
    and node low high count position input "next" rule: match_sequence_match_one_match_repeat.induct)
  case (1 nodes position input "next")
  show ?case
  proof (cases nodes)
    case Nil
    then show ?thesis by (subst match_sequence.simps) (simp add: spans_simps)
  next
    case (Cons first rest)
    have "match_sequence nodes position input next
        \<longleftrightarrow> (\<exists>j. span True input first position j \<and> match_sequence rest j input next)"
      using "1.IH"(2) [OF Cons] "1.prems" by (subst match_sequence.simps) (simp add: Cons)
    also have "\<dots> \<longleftrightarrow> (\<exists>j. span True input first position j \<and> (\<exists>l. spans True input rest j l \<and> next l))"
      using "1.IH"(1) [OF Cons] span_bounds(1) "1.prems" by blast
    finally show ?thesis by (auto simp: Cons spans_simps)
  qed
next
  case (2 node position input "next")
  show ?case
  proof (cases node)
    case (Alternation branches)
    have "match_one node position input next \<longleftrightarrow> list_ex (\<lambda>branch. match_sequence branch position input next) branches"
      by (subst match_one.simps) (simp add: Alternation)
    with "2.IH"(1) [OF Alternation] "2.prems" show ?thesis
      by (auto simp: Alternation span_simps list_ex_iff)
  next
    case (Repeat inner low high)
    have "match_one node position input next \<longleftrightarrow> match_repeat inner low high 0 position input next"
      by (subst match_one.simps) (simp add: Repeat)
    with "2.IH"(2) [OF Repeat] "2.prems" show ?thesis
      by (auto simp: Repeat span_simps)
  qed (auto simp: match_one.simps span_simps)
next
  case (3 node low high count position input "next")
  let ?go = "\<lambda>after. if after \<noteq> position \<and> position < after \<and> after \<le> length input
    then match_repeat node low high (count + 1) after input next else False"
  have go: "match_one node position input ?go \<longleftrightarrow>
      (\<exists>l. span True input node position l \<and> position \<noteq> l
        \<and> (\<exists>j k. times True input node k l j \<and> low \<le> count + 1 + k \<and> count + 1 + k \<le> high \<and> next j))"
    if "count < high"
  proof -
    have "match_one node position input ?go \<longleftrightarrow> (\<exists>l. span True input node position l \<and> ?go l)"
      using "3.IH" that "3.prems"(1) by blast
    moreover have "?go l \<longleftrightarrow> position \<noteq> l
        \<and> (\<exists>j k. times True input node k l j \<and> low \<le> count + 1 + k \<and> count + 1 + k \<le> high \<and> next j)"
      if "span True input node position l" for l
      using span_bounds(1) [OF that "3.prems"(1)] "3.IH"(1) [of l] \<open>count < high\<close> by auto
    ultimately show ?thesis by blast
  qed
  define moves where "moves = match_one node position input ?go"
  have or_if: "(if P then True else Q) \<longleftrightarrow> P \<or> Q" for P Q by simp
  have "match_repeat node low high count position input next \<longleftrightarrow> (count < high \<and> moves) \<or> (low \<le> count \<and> next position)"
    unfolding moves_def by (subst match_repeat.simps) (rule or_if)
  also have "\<dots> \<longleftrightarrow> (\<exists>j. (\<exists>k. times True input node k position j \<and> low \<le> count + k \<and> count + k \<le> high) \<and> next j)"
  proof (cases "count < high")
    case True
    then show ?thesis unfolding times_split using go [folded moves_def] by auto
  next
    case False
    then show ?thesis unfolding times_split using "3.prems"(2) by auto
  qed
  finally show ?case by blast
qed

text \<open>The positions of a repetition: asking an iteration to move forward and to stay inside asks for nothing.\<close>

lemma repeat_guard:
  assumes "position \<le> length input"
  shows "match_one node position input (\<lambda>after. after \<noteq> position \<and> next after) \<longleftrightarrow>
    match_one node position input (\<lambda>after. if after \<noteq> position \<and> position < after \<and> after \<le> length input
      then next after else False)"
  unfolding matcher_iff(2) [OF assms] using span_bounds(1) [OF _ assms] by force

section \<open>Regular expressions\<close>

text \<open>Where iterations that do not move could count: a repetition that must happen, of a body that may be empty.\<close>

fun consumes :: "pattern_node \<Rightarrow> bool" where
  "consumes (Literal c) \<longleftrightarrow> True"
| "consumes AnyChar \<longleftrightarrow> True"
| "consumes (Class items negated) \<longleftrightarrow> True"
| "consumes StartAnchor \<longleftrightarrow> False"
| "consumes EndAnchor \<longleftrightarrow> False"
| "consumes (Alternation branches) \<longleftrightarrow> list_all (\<lambda>branch. list_ex consumes branch) branches"
| "consumes (Repeat n low high) \<longleftrightarrow> 0 < low \<and> consumes n"

fun plain_repeats :: "pattern_node \<Rightarrow> bool" where
  "plain_repeats (Alternation branches) \<longleftrightarrow> list_all (\<lambda>branch. list_all plain_repeats branch) branches"
| "plain_repeats (Repeat n low high) \<longleftrightarrow> (low = 0 \<or> consumes n) \<and> plain_repeats n"
| "plain_repeats _ \<longleftrightarrow> True"

lemma consumes_moves:
  "span moving input n i j \<Longrightarrow> consumes n \<Longrightarrow> i \<le> length input \<Longrightarrow> i < j"
  "spans moving input ns i j \<Longrightarrow> list_ex consumes ns \<Longrightarrow> i \<le> length input \<Longrightarrow> i < j"
  "times moving input n k i j \<Longrightarrow> 0 < k \<Longrightarrow> consumes n \<Longrightarrow> i \<le> length input \<Longrightarrow> i < j"
proof (induction rule: span_spans_times.inducts)
  case (step n i j ns l)
  then have "i \<le> j" "j \<le> l" "j \<le> length input"
    using span_bounds(1) [OF step(1)] span_bounds(2) [OF step(3)] by auto
  with step show ?case by auto
next
  case (again n i j k l)
  then have "i < j" "j \<le> length input" using span_bounds(1) [OF again(1)] by auto
  with span_bounds(3) [OF again(4)] show ?case by simp
qed (auto simp: list_all_iff)

lemma moving_is_regular:
  "span True input n i j \<Longrightarrow> span False input n i j"
  "spans True input ns i j \<Longrightarrow> spans False input ns i j"
  "times True input n k i j \<Longrightarrow> times False input n k i j"
  by (induction rule: span_spans_times.inducts) (auto intro: span_spans_times.intros)

lemma regular_is_moving:
  "span False input n i j \<Longrightarrow> plain_repeats n \<Longrightarrow> i \<le> length input \<Longrightarrow> span True input n i j"
  "spans False input ns i j \<Longrightarrow> list_all plain_repeats ns \<Longrightarrow> i \<le> length input \<Longrightarrow> spans True input ns i j"
  "times False input n k i j \<Longrightarrow> plain_repeats n \<Longrightarrow> i \<le> length input \<Longrightarrow>
     \<exists>k'. times True input n k' i j \<and> k' \<le> k \<and> (consumes n \<longrightarrow> k' = k)"
proof (induction rule: span_spans_times.inducts)
  case (iterate n k i j low high)
  then obtain k' where "times True input n k' i j" "k' \<le> k" "consumes n \<longrightarrow> k' = k" by auto
  with iterate show ?case by (intro span_spans_times.iterate [of _ _ _ k']) auto
next
  case (step n i j ns l)
  then show ?case using span_bounds(1) [OF step(1)] by (auto intro: span_spans_times.intros)
next
  case (again n i j k l)
  then have j: "i \<le> j" "j \<le> length input" using span_bounds(1) [OF again(1)] by auto
  from again have "span True input n i j" by simp
  from again j obtain k' where k': "times True input n k' j l" "k' \<le> k" "consumes n \<longrightarrow> k' = k" by auto
  show ?case
  proof (cases "i = j")
    case True
    then have "\<not> consumes n" using consumes_moves(1) [OF \<open>span True input n i j\<close>] again.prems by auto
    with k' True show ?thesis by auto
  next
    case False
    with \<open>span True input n i j\<close> k' show ?thesis
      by (intro exI [of _ "Suc k'"]) (auto intro: span_spans_times.again)
  qed
qed (auto intro: span_spans_times.intros simp: list_all_iff)

text \<open>A pattern occurs in a text when some part of the text is in its meaning.\<close>

definition occurs :: "bool \<Rightarrow> pattern_node list list \<Rightarrow> ustr \<Rightarrow> bool" where
  "occurs moving branches v \<longleftrightarrow> (\<exists>i j. i \<le> length v \<and> span moving v (Alternation branches) i j)"

lemma pattern_matches_iff:
  "pattern_matches pattern v = Some b \<longleftrightarrow>
     (\<exists>branches. parse_alternation pattern = Some (branches, []) \<and> b = occurs True branches v)"
proof -
  have "list_ex (\<lambda>start. match_sequence [Alternation branches] start v (\<lambda>_. True)) [0..<Suc (length v)]
      \<longleftrightarrow> occurs True branches v" for branches
    by (auto simp: list_ex_iff occurs_def matcher_iff spans_simps less_Suc_eq_le simp del: upt_Suc)
  then show ?thesis by (auto simp: pattern_matches_def split: option.splits if_split_asm)
qed

text \<open>
  Property C37. The matcher decides regular expressions: on a pattern of the subset in which no body that
  may be empty is repeated at least once, it answers exactly whether some part of the text is in the
  meaning of the pattern; backtracking loses no match, finds none that is not there, and ends.
\<close>

theorem matcher_decides_regular_expressions:
  assumes "parse_alternation pattern = Some (branches, [])" and "plain_repeats (Alternation branches)"
  shows "pattern_matches pattern v = Some (occurs False branches v)"
proof -
  have "occurs True branches v \<longleftrightarrow> occurs False branches v"
    unfolding occurs_def using moving_is_regular(1) regular_is_moving(1) [OF _ assms(2)] by blast
  with assms(1) pattern_matches_iff [of pattern v "occurs True branches v"] show ?thesis by simp
qed

lemmas parse_simps = parse_alternation.simps [of "_ # _"] parse_alternation.simps [of "[]"] parse_sequence.simps [of "_ # _"]
  parse_sequence.simps [of "[]"] parse_atom.simps [of "_ # _"] quantifier_def quantifier_at_def group_start_def
  class_range_def starts_with_def ascii_alnum_def

definition version_pattern :: ustr where
  "version_pattern = asc (''^cli/[0-9]+('' @ CHR 0x5C # ''.[0-9]+)*$'')"

definition version_branches :: "pattern_node list list" where
  "version_branches =
     [[StartAnchor, Literal 99, Literal 108, Literal 105, Literal 47, Repeat (Class [Range 48 57] False) 1 unbounded,
       Repeat (Alternation [[Literal 46, Repeat (Class [Range 48 57] False) 1 unbounded]]) 0 unbounded, EndAnchor]]"

lemma version_parsed: "parse_alternation version_pattern = Some (version_branches, [])"
  by (simp add: version_pattern_def version_branches_def asc_def parse_simps)

theorem matcher_decides_regular_expressions_witness:
  "pattern_matches version_pattern (asc ''cli/1.20'') = Some (occurs False version_branches (asc ''cli/1.20''))"
  by (rule matcher_decides_regular_expressions [OF version_parsed]) (simp add: version_branches_def)

text \<open>
  Where a body that may be empty must be repeated, the matcher misses matches: \<open>(a*)+\<close> has the empty
  text in its meaning, but \<open>^(a*)+$\<close> is not found in it, since an iteration that does not move is not
  counted.
\<close>

definition nested_branches :: "pattern_node list list" where
  "nested_branches = [[StartAnchor, Repeat (Alternation [[Repeat (Literal 97) 0 unbounded]]) 1 unbounded, EndAnchor]]"

theorem empty_iterations_are_not_counted:
  "parse_alternation (asc ''^(a*)+$'') = Some (nested_branches, [])
   \<and> pattern_matches (asc ''^(a*)+$'') [] = Some False \<and> occurs False nested_branches []"
proof -
  let ?a = "Repeat (Literal 97) 0 unbounded"
  have parsed: "parse_alternation (asc ''^(a*)+$'') = Some (nested_branches, [])"
    by (simp add: nested_branches_def asc_def parse_simps)
  have "span False [] ?a 0 0"
    by (rule span_spans_times.iterate [of _ _ _ 0]) (simp_all add: span_spans_times.none)
  then have "span False [] (Alternation [[?a]]) 0 0"
    by (simp add: span_simps(6) spans_simps)
  then have "times False [] (Alternation [[?a]]) 1 0 0"
    by (auto simp: times_simps)
  then have "span False [] (Repeat (Alternation [[?a]]) 1 unbounded) 0 0"
    by (rule span_spans_times.iterate) simp_all
  then have meaning: "occurs False nested_branches []"
    by (auto simp: nested_branches_def occurs_def span_simps(4,5,6) spans_simps)
  have "\<not> span True [] (Repeat (Alternation [[?a]]) 1 unbounded) 0 j" for j
  proof
    assume "span True [] (Repeat (Alternation [[?a]]) 1 unbounded) 0 j"
    then obtain n where n: "times True [] (Alternation [[?a]]) n 0 j" "1 \<le> n"
      by (auto simp: span_simps(7))
    then obtain k where "times True [] (Alternation [[?a]]) (Suc k) 0 j"
      by (cases n) auto
    then obtain l where "span True [] (Alternation [[?a]]) 0 l" "l \<noteq> 0"
      by (auto simp: times_simps)
    with span_bounds(1) [of True "[]" "Alternation [[?a]]" 0 l] show False by simp
  qed
  then have "\<not> occurs True nested_branches []"
    by (auto simp: nested_branches_def occurs_def span_simps(4,5,6) spans_simps)
  with parsed meaning pattern_matches_iff [of "asc ''^(a*)+$''" "[]" False] show ?thesis by auto
qed

end
