(* ===== verification/Service_Transport.thy ===== *)
theory Service_Transport
  imports Service_Request Lenient_Base64 Sse Image Pattern
begin

text \<open>
  The transport of the service client (\<open>service/http.rs\<close>): buffered requests, event streams and downloads,
  over the network or over a fixture whose exchanges are asked for in order.  Every operation is a state
  transformer on \<open>transport\<close>; its result is a failure or a value.  What is outside is the record
  \<open>outside\<close>: the JSON reader and writer, the digest, the reading and writing of times, which texts are
  proxies, the answer of the \<open>n\<close>-th query of the cancellation token as far as signals go, and what happened on
  the \<open>n\<close>-th call of the network (\<open>ureq\<close>).  \<open>tr_sent\<close> records those calls, \<open>tr_queries\<close> counts the queries.
\<close>

section \<open>The network\<close>

datatype piece = Piece string | Read_Failed

text \<open>A reply: the status, each header name with what \<open>header\<close> returns for it, and the reads of the body.\<close>

datatype reply = Reply nat "(string \<times> string option) list" "piece list" | Transport_Failure

text \<open>
  The turns of the wait for a reply; the list ends when the helper thread is gone.  A turn says whether the
  deadline for the response headers had passed, and what \<open>recv_timeout\<close> returned.
\<close>

datatype turn = Quiet bool | Answered bool reply

record wire_call =
  wc_method :: string
  wc_url :: string
  wc_headers :: "(string \<times> string) list"
  wc_body :: "string option"
  wc_proxy :: "string option"
  wc_timeout :: "nat option"
  wc_stream :: "(nat \<times> nat) option"

record outside =
  os_version :: string
  os_manifest :: json
  os_read :: "string \<Rightarrow> json option"
  os_write :: "json \<Rightarrow> string"
  os_sha256 :: "string \<Rightarrow> string"
  os_proxy :: "string \<Rightarrow> bool"
  os_read_time :: "string \<Rightarrow> int option"
  os_write_time :: "int \<Rightarrow> string"
  os_cancelled :: "nat \<Rightarrow> bool"
  os_network :: "nat \<Rightarrow> wire_call \<Rightarrow> turn list"

section \<open>The transport\<close>

record fixture =
  fx_document :: json
  fx_next :: nat
  fx_completed :: nat
  fx_interrupt :: "nat option"
  fx_clock :: "64 word option"
  fx_step :: "64 word"
  fx_ids :: nat

record transport =
  tr_origin :: string
  tr_fixture :: "fixture option"
  tr_environment :: "(string, string) btree"
  tr_cancelled :: bool
  tr_queries :: nat
  tr_sent :: "wire_call list"

datatype failure = Failed runner_error | Panicked

type_synonym 'a transport_action = "transport \<Rightarrow> (failure + 'a) \<times> transport"

definition give :: "failure + 'a \<Rightarrow> 'a transport_action" where "give x tr = (x, tr)"

definition lift_result :: "runner_error + 'a \<Rightarrow> failure + 'a" where
  "lift_result m = (case m of Inl e \<Rightarrow> Inl (Failed e) | Inr x \<Rightarrow> Inr x)"

definition and_then :: "'a transport_action \<Rightarrow> ('a \<Rightarrow> 'b transport_action) \<Rightarrow> 'b transport_action" where
  "and_then m f tr = (case m tr of (Inl e, tr') \<Rightarrow> (Inl e, tr') | (Inr x, tr') \<Rightarrow> f x tr')"

definition check :: "outside \<Rightarrow> unit transport_action" where
  "check os tr =
     (if tr_cancelled tr \<or> os_cancelled os (tr_queries tr) then Inl (Failed (catalog Cancelled)) else Inr (),
      tr\<lparr>tr_queries := Suc (tr_queries tr)\<rparr>)"

definition fixture_error :: "string \<Rightarrow> runner_error" where
  "fixture_error reason =
     with_detail (catalog ServiceProtocolInvalid) ''reason'' (JStr (''test fixture: '' @ reason))"

definition observe_completion :: "transport \<Rightarrow> transport" where
  "observe_completion tr =
     (case tr_fixture tr of
        Some fx \<Rightarrow> if fx_interrupt fx = Some (fx_completed fx) then tr\<lparr>tr_cancelled := True\<rparr> else tr
      | None \<Rightarrow> tr)"

definition complete_exchange :: "transport \<Rightarrow> transport" where
  "complete_exchange tr =
     observe_completion (tr\<lparr>tr_fixture := map_option (\<lambda>fx. fx\<lparr>fx_completed := Suc (fx_completed fx)\<rparr>) (tr_fixture tr)\<rparr>)"

definition completed_action :: "unit transport_action" where
  "completed_action tr = (Inr (), complete_exchange tr)"

section \<open>Fixtures\<close>

text \<open>\<open>Fixture::parse\<close>; \<open>environment\<close> is the name of the service environment.\<close>

definition parse_fixture :: "outside \<Rightarrow> string \<Rightarrow> json \<Rightarrow> runner_error + fixture" where
  "parse_fixture os environment document =
     (if \<not> is_object document
         \<or> \<not> (case jget document ''exchanges'' of
               None \<Rightarrow> True
             | Some v \<Rightarrow> (case as_array v of Some vs \<Rightarrow> length vs \<le> 512 | None \<Rightarrow> False))
      then Inl (fixture_error ''must be an object with at most 512 exchanges'')
      else if (case jget document ''environment'' of None \<Rightarrow> False | Some v \<Rightarrow> v \<noteq> JStr environment)
      then Inl (fixture_error ''environment differs from the service'')
      else bindE (case as_str (jidx (jidx document ''clock'') ''start'') of
             None \<Rightarrow> Inr None
           | Some start \<Rightarrow>
               (case os_read_time os start of
                  None \<Rightarrow> Inl (fixture_error ''clock.start is not RFC 3339'')
                | Some ms \<Rightarrow> Inr (Some (of_int ms)))) (\<lambda>clock.
        Inr \<lparr>fx_document = document, fx_next = 0, fx_completed = 0,
             fx_interrupt = as_u64 (jidx document ''interruptAfterExchange''), fx_clock = clock,
             fx_step = of_int (case as_i64 (jidx (jidx document ''clock'') ''stepMs'') of Some i \<Rightarrow> i | None \<Rightarrow> 0),
             fx_ids = 0\<rparr>))"

definition fixture_limit :: nat where "fixture_limit = 32 * 1024 * 1024"

text \<open>\<open>Fixture::load\<close>; \<open>file\<close> is what opening and reading at most one byte more than the limit gives.\<close>

definition load_fixture :: "outside \<Rightarrow> string option \<Rightarrow> string \<Rightarrow> runner_error + fixture" where
  "load_fixture os file environment =
     bindE (ok_or (fixture_error ''cannot read PROSE_TEST_SERVICE_FIXTURE'')
              (map_option (take (fixture_limit + 1)) file)) (\<lambda>bytes.
     if length bytes > fixture_limit then Inl (fixture_error ''larger than 32 MiB'')
     else bindE (ok_or (fixture_error ''not JSON'') (os_read os bytes)) (parse_fixture os environment))"

text \<open>
  \<open>Transport::new\<close> in a test-seam build: the fixture variable of the environment names a file, read by
  \<open>files\<close>.
\<close>

definition new_transport ::
  "outside \<Rightarrow> (string \<Rightarrow> string option) \<Rightarrow> (string, string) btree \<Rightarrow> string \<Rightarrow> string \<Rightarrow> bool \<Rightarrow> runner_error + transport" where
  "new_transport os files environment name origin cancelled =
     (let tr = \<lparr>tr_origin = origin, tr_fixture = None, tr_environment = environment, tr_cancelled = cancelled,
                tr_queries = 0, tr_sent = []\<rparr> in
      case bt_get environment ''PROSE_TEST_SERVICE_FIXTURE'' of
        None \<Rightarrow> Inr tr
      | Some path \<Rightarrow>
          bindE (load_fixture os (files path) name) (\<lambda>fx. Inr (observe_completion (tr\<lparr>tr_fixture := Some fx\<rparr>))))"

text \<open>The sum of the clock wraps.\<close>

definition tick :: "fixture \<Rightarrow> 64 word option \<times> fixture" where
  "tick fx = (fx_clock fx, fx\<lparr>fx_clock := map_option (\<lambda>now. now + fx_step fx) (fx_clock fx)\<rparr>)"

definition tick_transport :: "transport \<Rightarrow> 64 word option \<times> transport" where
  "tick_transport tr =
     (case tr_fixture tr of
        None \<Rightarrow> (None, tr)
      | Some fx \<Rightarrow> (case tick fx of (now, fx') \<Rightarrow> (now, tr\<lparr>tr_fixture := Some fx'\<rparr>)))"

text \<open>The clock of the system, and its elapsed milliseconds, are the arguments \<open>clock\<close> and \<open>elapsed\<close>.\<close>

definition now_rfc3339 :: "outside \<Rightarrow> int \<Rightarrow> transport \<Rightarrow> string \<times> transport" where
  "now_rfc3339 os clock tr =
     (case tick_transport tr of
        (Some ms, tr') \<Rightarrow> (os_write_time os (sint ms), tr')
      | (None, tr') \<Rightarrow> (os_write_time os clock, tr'))"

definition monotonic_ms :: "nat \<Rightarrow> transport \<Rightarrow> nat \<times> transport" where
  "monotonic_ms elapsed tr =
     (case tick_transport tr of
        (Some ms, tr') \<Rightarrow> (if 0 \<le> sint ms then nat (sint ms) else 0, tr')
      | (None, tr') \<Rightarrow> (min elapsed u64_max, tr'))"

definition uuid_v4 :: "string \<Rightarrow> string transport_action" where
  "uuid_v4 random tr =
     (case tr_fixture tr of
        None \<Rightarrow> (Inr random, tr)
      | Some fx \<Rightarrow>
          (case as_str (jnth_or_null (jidx (fx_document fx) ''ids'') (fx_ids fx)) of
             None \<Rightarrow> (Inl (Failed (fixture_error ''no deterministic id left in `ids`'')), tr)
           | Some v \<Rightarrow> (Inr v, tr\<lparr>tr_fixture := Some (fx\<lparr>fx_ids := Suc (fx_ids fx)\<rparr>)\<rparr>)))"

text \<open>\<open>stored\<close> is what the credential store of the system answers.\<close>

definition stored_credential ::
  "outside \<Rightarrow> string \<Rightarrow> runner_error + string option \<Rightarrow> string option transport_action" where
  "stored_credential os environment stored =
     and_then (check os) (\<lambda>_ tr.
       case tr_fixture tr of
         None \<Rightarrow> give (lift_result stored) tr
       | Some fx \<Rightarrow>
           let document = fx_document fx in
           if jidx document ''storeAvailable'' = JBool False
           then (Inl (Failed (catalog CredentialStoreUnavailable)), tr)
           else (Inr (as_str (if jget document ''credentials'' \<noteq> None
                   then jidx (jidx document ''credentials'') environment else jidx document ''credential'')), tr))"

definition finish_transport :: "transport \<Rightarrow> runner_error + unit" where
  "finish_transport tr =
     (case tr_fixture tr of
        None \<Rightarrow> Inr ()
      | Some fx \<Rightarrow>
          let total = (case as_array (jidx (fx_document fx) ''exchanges'') of Some vs \<Rightarrow> length vs | None \<Rightarrow> 0) in
          if fx_next fx < total
          then Inl (fixture_error (decimal (total - fx_next fx) @ '' exchange(s) were not requested''))
          else Inr ())"

text \<open>\<open>write_value\<close> of the journal is the argument \<open>write\<close>.\<close>

definition prepare_journal :: "('s \<Rightarrow> json \<Rightarrow> runner_error + 's) \<Rightarrow> 's \<Rightarrow> transport \<Rightarrow> runner_error + 's" where
  "prepare_journal write journal tr =
     (case Option.bind (tr_fixture tr) (\<lambda>fx. as_array (jidx (fx_document fx) ''journal'')) of
        None \<Rightarrow> Inr journal
      | Some listed \<Rightarrow> foldE write journal listed)"


section \<open>Exchanges\<close>

text \<open>
  The comparison of one request header with its assertion.  Indexing the object by a key it does not have is
  a panic; \<open>pattern_matches\<close> works on characters.
\<close>

definition header_agrees :: "string \<Rightarrow> string \<Rightarrow> json \<Rightarrow> string option \<Rightarrow> failure + bool" where
  "header_agrees place name expected actual =
     (case expected of
        JStr t \<Rightarrow> Inr (actual = Some t)
      | JObj m \<Rightarrow>
          (case bt_get m ''present'' of
             Some present \<Rightarrow> Inr ((actual \<noteq> None) = (present = JBool True))
           | None \<Rightarrow>
               (case bt_get m ''pattern'' of
                  None \<Rightarrow> Inl Panicked
                | Some v \<Rightarrow>
                    (case (as_str v, actual) of
                       (Some pattern, Some found) \<Rightarrow>
                         (case pattern_matches (chars pattern) (chars found) of
                            Some b \<Rightarrow> Inr b
                          | None \<Rightarrow> Inl (Failed (fixture_error
                              (place @ '' header pattern for '' @ name @ '' is not supported''))))
                     | _ \<Rightarrow> Inr False)))
      | _ \<Rightarrow> Inr False)"

fun check_headers :: "string \<Rightarrow> (string \<times> string) list \<Rightarrow> fields \<Rightarrow> failure + unit" where
  "check_headers place headers [] = Inr ()"
| "check_headers place headers ((name, expected) # rest) =
     bindE (header_agrees place name expected
              (find_map (\<lambda>(key, v). if eq_ignore_ascii_case key name then Some v else None) headers)) (\<lambda>ok.
     if ok then check_headers place headers rest
     else Inl (Failed (fixture_error (place @ '' request header '' @ name @ '' differs''))))"

definition check_body :: "outside \<Rightarrow> string \<Rightarrow> json \<Rightarrow> string \<Rightarrow> runner_error + unit" where
  "check_body os place xc sent =
     bindE (case jget xc ''expectedBody'' of
              None \<Rightarrow> Inr ()
            | Some expected \<Rightarrow> require (os_read os sent = Some expected)
                (fixture_error (place @ '' request body differs''))) (\<lambda>_.
     bindE (case as_str (jidx xc ''expectedBodyText'') of
              None \<Rightarrow> Inr ()
            | Some expected \<Rightarrow> require (sent = expected)
                (fixture_error (place @ '' request body text differs''))) (\<lambda>_.
     case as_str (jidx xc ''expectedSha256'') of
       None \<Rightarrow> Inr ()
     | Some expected \<Rightarrow> require (digest_to_hex (os_sha256 os sent) = expected)
         (fixture_error (place @ '' request body digest differs''))))"

definition sent_parameters :: "request \<Rightarrow> fields" where
  "sent_parameters rq = fold (\<lambda>(name, v) m. bt_insert name (JStr v) m) (rq_query rq) []"

definition check_request ::
  "outside \<Rightarrow> string \<Rightarrow> string \<Rightarrow> json \<Rightarrow> request \<Rightarrow> string option \<Rightarrow> failure + unit" where
  "check_request os origin place xc rq token =
     bindE (lift_result (require (jidx xc ''method'' = JStr (rq_method rq) \<and> jidx xc ''path'' = JStr (rq_path rq))
       (fixture_error (place @ '' expects '' @ str_or ''?'' (jidx xc ''method'') @ '' ''
          @ str_or ''?'' (jidx xc ''path'') @ '' but the product sent '' @ rq_method rq @ '' '' @ rq_path rq)))) (\<lambda>_.
     bindE (lift_result (require (case jget xc ''origin'' of None \<Rightarrow> True | Some v \<Rightarrow> v = JStr origin)
       (fixture_error (place @ '' origin differs'')))) (\<lambda>_.
     bindE (lift_result (require
         ((case as_object (jidx xc ''query'') of Some m \<Rightarrow> m | None \<Rightarrow> []) = sent_parameters rq
          \<and> length (sent_parameters rq) = length (rq_query rq))
       (fixture_error (place @ '' query differs'')))) (\<lambda>_.
     bindE (case as_object (jidx xc ''requestHeaders'') of
              None \<Rightarrow> Inr ()
            | Some assertions \<Rightarrow> check_headers place (wire_headers (os_version os) rq token) assertions) (\<lambda>_.
     lift_result (check_body os place xc (case rq_body rq of Some b \<Rightarrow> b | None \<Rightarrow> []))))))"

text \<open>The next exchange is used up before the request is compared with it.\<close>

definition next_exchange :: "outside \<Rightarrow> request \<Rightarrow> string option \<Rightarrow> json transport_action" where
  "next_exchange os rq token tr =
     (case tr_fixture tr of
        None \<Rightarrow> (Inl Panicked, tr)
      | Some fx \<Rightarrow>
          (case jnth (jidx (fx_document fx) ''exchanges'') (fx_next fx) of
             None \<Rightarrow> (Inl (Failed (fixture_error (''unexpected request '' @ rq_method rq @ '' '' @ rq_path rq
                 @ '' (no exchange left)''))), tr)
           | Some xc \<Rightarrow>
               (bindE (check_request os (tr_origin tr) (''exchange '' @ decimal (fx_next fx)) xc rq token)
                  (\<lambda>_. Inr xc),
                tr\<lparr>tr_fixture := Some (fx\<lparr>fx_next := Suc (fx_next fx)\<rparr>)\<rparr>)))"

definition fixture_headers :: "json \<Rightarrow> (string, string) btree" where
  "fixture_headers xc =
     (let headers = (case as_object (jidx xc ''responseHeaders'') of
          None \<Rightarrow> []
        | Some m \<Rightarrow> fold (\<lambda>(name, v) headers.
            case as_str v of Some s \<Rightarrow> bt_insert (map to_lower name) s headers | None \<Rightarrow> headers) m []) in
      case as_str (jidx xc ''redirect'') of
        Some location \<Rightarrow> bt_insert ''location'' location headers
      | None \<Rightarrow> headers)"

definition fixture_body :: "outside \<Rightarrow> json \<Rightarrow> runner_error + string" where
  "fixture_body os xc =
     (case as_str (jidx xc ''bodyText'') of
        Some t \<Rightarrow> Inr t
      | None \<Rightarrow>
          (case as_str (jidx xc ''bodyBase64'') of
             Some coded \<Rightarrow> ok_or (fixture_error ''bodyBase64 is not base64'') (base64_decode coded)
           | None \<Rightarrow>
               if jget xc ''sse'' \<noteq> None
               then Inr (concat (fixture_bytes (os_write os) (jidx (jidx xc ''sse'') ''frames'')))
               else Inr (case jget xc ''body'' of Some v \<Rightarrow> os_write os v | None \<Rightarrow> [])))"

definition fixture_status :: "json \<Rightarrow> runner_error + nat" where
  "fixture_status xc =
     (case as_u64 (jidx xc ''status'') of
        Some n \<Rightarrow> if 100 \<le> n \<and> n \<le> 599 then Inr n else Inl (fixture_error ''status must be 100-599'')
      | None \<Rightarrow> Inl (fixture_error ''status must be 100-599''))"

section \<open>Calls of the network\<close>

fun await_reply :: "outside \<Rightarrow> bool \<Rightarrow> turn list \<Rightarrow> reply transport_action" where
  "await_reply os streaming [] = and_then (check os) (\<lambda>_. give (Inl (Failed unavailable)))"
| "await_reply os streaming (Quiet passed # turns) =
     and_then (check os) (\<lambda>_.
       if streaming \<and> passed then give (Inl (Failed unavailable)) else await_reply os streaming turns)"
| "await_reply os streaming (Answered passed reply # turns) =
     and_then (check os) (\<lambda>_.
       if streaming \<and> passed then give (Inl (Failed unavailable)) else give (Inr reply))"

definition place_call :: "outside \<Rightarrow> wire_call \<Rightarrow> turn list transport_action" where
  "place_call os call tr = (Inr (os_network os (length (tr_sent tr)) call), tr\<lparr>tr_sent := tr_sent tr @ [call]\<rparr>)"

definition real_call ::
  "outside \<Rightarrow> request \<Rightarrow> string option \<Rightarrow> nat option \<Rightarrow> (nat \<times> nat) option
    \<Rightarrow> (nat \<times> (string \<times> string option) list \<times> piece list) transport_action" where
  "real_call os rq token timeout streaming tr =
     (let url = request_url (tr_origin tr) rq in
      and_then (give (lift_result (agent_proxy (os_proxy os) url (bt_get (tr_environment tr))))) (\<lambda>proxy.
      and_then (place_call os \<lparr>wc_method = rq_method rq, wc_url = url,
          wc_headers = wire_headers (os_version os) rq token, wc_body = rq_body rq, wc_proxy = proxy,
          wc_timeout = timeout, wc_stream = streaming\<rparr>) (\<lambda>turns.
      and_then (await_reply os (streaming \<noteq> None) turns) (\<lambda>reply.
      and_then (check os) (\<lambda>_.
      case reply of
        Reply status headers body \<Rightarrow> give (Inr (status, headers, body))
      | Transport_Failure \<Rightarrow> give (Inl (Failed unavailable)))))) tr)"

definition response_head :: "(string \<times> string option) list \<Rightarrow> (string, string) btree" where
  "response_head headers =
     fold (\<lambda>(name, v) m. case v of Some s \<Rightarrow> bt_insert (map to_lower name) s m | None \<Rightarrow> m) headers []"

text \<open>\<open>take(n).read_to_end\<close>: at most \<open>n\<close> bytes; an empty read is the end, an error before that fails.\<close>

fun read_upto :: "nat \<Rightarrow> piece list \<Rightarrow> string option" where
  "read_upto n [] = Some []"
| "read_upto n (Read_Failed # ps) = (if n = 0 then Some [] else None)"
| "read_upto n (Piece b # ps) =
     (if n = 0 \<or> b = [] then Some []
      else if n \<le> length b then Some (take n b)
      else map_option (append b) (read_upto (n - length b) ps))"

definition read_body :: "outside \<Rightarrow> nat \<Rightarrow> piece list \<Rightarrow> string transport_action" where
  "read_body os limit body =
     and_then (check os) (\<lambda>_. give (lift_result (ok_or unavailable (read_upto (limit + 1) body))))"

section \<open>Buffered requests\<close>

definition exchange_response :: "outside \<Rightarrow> json \<Rightarrow> runner_error + (nat \<times> (string, string) btree \<times> string)" where
  "exchange_response os xc =
     (if is_string (jidx xc ''disconnect'') then Inl unavailable
      else bindE (fixture_status xc) (\<lambda>status.
           bindE (fixture_body os xc) (\<lambda>body.
           if jget xc ''sse'' \<noteq> None \<and> jidx (jidx xc ''sse'') ''end'' \<noteq> JStr ''close''
           then Inl unavailable
           else Inr (status, fixture_headers xc, body))))"

definition send_request :: "outside \<Rightarrow> request \<Rightarrow> string option \<Rightarrow> response transport_action" where
  "send_request os rq token =
     and_then (check os) (\<lambda>_ tr.
       let limit = max_response_bytes (os_manifest os) (rq_class rq) in
       if tr_fixture tr \<noteq> None then
         and_then (next_exchange os rq token) (\<lambda>xc.
         and_then completed_action (\<lambda>_.
         and_then (check os) (\<lambda>_.
         give (lift_result (bindE (exchange_response os xc) (\<lambda>(status, headers, body).
           bounded_response status headers body limit)))))) tr
       else
         and_then (real_call os rq token (Some (class_timeout (os_manifest os) (rq_class rq))) None)
           (\<lambda>(status, headers, body).
         and_then (read_body os limit body) (\<lambda>bytes.
         give (lift_result (bounded_response status (response_head headers) bytes limit)))) tr)"



section \<open>Event streams\<close>

text \<open>
  An open stream: the reader over the frames of a fixture, and whether its end cancels the token; or the reads
  of a live response, for the reader over the helper thread, with the idle timeout and the event limit.
\<close>

datatype stream_open =
    Events nat "(string, string) btree" sse_reader bool
  | Live_Events nat "(string, string) btree" "piece list" nat nat
  | Buffered response
  | Dropped

definition stream_end_of :: "json \<Rightarrow> stream_end" where
  "stream_end_of xc =
     (if is_string (jidx xc ''disconnect'') \<or> jidx (jidx xc ''sse'') ''end'' = JStr ''disconnect'' then Disconnected
      else if jidx (jidx xc ''sse'') ''end'' = JStr ''idle'' then Idle else Closed)"

definition stream_reader :: "outside \<Rightarrow> json \<Rightarrow> sse_reader" where
  "stream_reader os xc =
     new_sse_reader
       (new_fixture_source
         (if jidx xc ''disconnect'' = JStr ''after-headers'' then []
          else fixture_bytes (os_write os) (jidx (jidx xc ''sse'') ''frames''))
         (stream_end_of xc))
       (max_event_bytes (os_manifest os))"

text \<open>The end of the stream cancels the token when this exchange is the one to interrupt after.\<close>

definition start_events :: "outside \<Rightarrow> json \<Rightarrow> nat \<Rightarrow> stream_open transport_action" where
  "start_events os xc status tr =
     (case tr_fixture tr of
        None \<Rightarrow> (Inl Panicked, tr)
      | Some fx \<Rightarrow>
          (Inr (Events status (fixture_headers xc) (stream_reader os xc)
             (fx_interrupt fx = Some (fx_completed fx + 1))),
           tr\<lparr>tr_fixture := Some (fx\<lparr>fx_completed := Suc (fx_completed fx)\<rparr>)\<rparr>))"

definition open_fixture_stream :: "outside \<Rightarrow> request \<Rightarrow> string option \<Rightarrow> stream_open transport_action" where
  "open_fixture_stream os rq token =
     and_then (next_exchange os rq token) (\<lambda>xc.
     if jidx xc ''disconnect'' = JStr ''before-response'' then
       and_then completed_action (\<lambda>_. and_then (check os) (\<lambda>_. give (Inr Dropped)))
     else and_then (give (lift_result (fixture_status xc))) (\<lambda>status.
     if \<not> successful status \<or> jget xc ''sse'' = None then
       and_then (give (lift_result (fixture_body os xc))) (\<lambda>body.
       and_then completed_action (\<lambda>_.
       and_then (check os) (\<lambda>_.
       if is_string (jidx xc ''disconnect'') then give (Inl (Failed unavailable))
       else give (lift_result (mapE Buffered (bounded_response status (fixture_headers xc) body
              (max_response_bytes (os_manifest os) Stream_Class)))))))
     else start_events os xc status))"

definition open_live_stream :: "outside \<Rightarrow> request \<Rightarrow> string option \<Rightarrow> stream_open transport_action" where
  "open_live_stream os rq token tr =
     (let manifest = os_manifest os; idle = idle_timeout manifest Stream_Class in
      case real_call os rq token None (Some (connect_timeout manifest Stream_Class, idle)) tr of
        (Inl (Failed e), tr') \<Rightarrow>
          (if re_code e = ServiceUnavailable then Inr Dropped else Inl (Failed e), tr')
      | (Inl Panicked, tr') \<Rightarrow> (Inl Panicked, tr')
      | (Inr (status, headers, body), tr') \<Rightarrow>
          if \<not> successful status then
            and_then (read_body os (max_response_bytes manifest Stream_Class) body) (\<lambda>bytes.
              give (lift_result (mapE Buffered (bounded_response status (response_head headers) bytes
                (max_response_bytes manifest Stream_Class))))) tr'
          else (Inr (Live_Events status (response_head headers) body idle (max_event_bytes manifest)), tr'))"

definition open_stream :: "outside \<Rightarrow> request \<Rightarrow> string option \<Rightarrow> stream_open transport_action" where
  "open_stream os rq token =
     and_then (check os) (\<lambda>_ tr.
       if tr_fixture tr \<noteq> None then open_fixture_stream os rq token tr else open_live_stream os rq token tr)"

section \<open>Downloads\<close>

record downloaded =
  dl_status :: nat
  dl_headers :: "(string, string) btree"
  dl_bytes :: nat
  dl_sha256 :: string

text \<open>
  The buffer of the loop, in bytes.  The reads of a body in memory fill it; \<open>mid-body\<close> breaks off after
  half of the body.
\<close>

definition download_buffer :: nat where "download_buffer = 64 * 1024"

function cursor_reads :: "string \<Rightarrow> piece list" where
  "cursor_reads s =
     (if s = [] then [] else Piece (take download_buffer s) # cursor_reads (drop download_buffer s))"
  by pat_completeness auto
termination by (relation "measure length") (auto simp: download_buffer_def)

declare cursor_reads.simps [simp del]

definition fixture_reads :: "json \<Rightarrow> string \<Rightarrow> piece list" where
  "fixture_reads xc body =
     (if jidx xc ''disconnect'' = JStr ''mid-body''
      then cursor_reads (take (length body div 2) body) @ [Read_Failed] else cursor_reads body)"

definition download_head ::
  "outside \<Rightarrow> request \<Rightarrow> string option \<Rightarrow> (nat \<times> (string, string) btree \<times> piece list) transport_action" where
  "download_head os rq token tr =
     (if tr_fixture tr \<noteq> None then
        and_then (next_exchange os rq token) (\<lambda>xc.
        and_then completed_action (\<lambda>_.
        and_then (check os) (\<lambda>_.
        if jidx xc ''disconnect'' = JStr ''before-response'' \<or> jidx xc ''disconnect'' = JStr ''after-headers''
        then give (Inl (Failed unavailable))
        else give (lift_result (bindE (fixture_status xc) (\<lambda>status.
             bindE (fixture_body os xc) (\<lambda>body.
             Inr (status, fixture_headers xc, fixture_reads xc body)))))))) tr
      else
        and_then (real_call os rq token None (Some (connect_timeout (os_manifest os) Download_Class,
            idle_timeout (os_manifest os) Download_Class))) (\<lambda>(status, headers, body).
        give (Inr (status, response_head headers, body))) tr)"

text \<open>
  The loop: \<open>writable n\<close> says that the write to the sink succeeds after \<open>n\<close> writes; \<open>written\<close> are the writes
  that succeeded.  What a failed write left behind is the sink's.
\<close>

fun download_loop ::
  "outside \<Rightarrow> (nat \<Rightarrow> bool) \<Rightarrow> nat \<Rightarrow> piece list \<Rightarrow> string list \<Rightarrow> transport
    \<Rightarrow> (failure + unit) \<times> transport \<times> string list" where
  "download_loop os writable most reads written tr =
     (case check os tr of
        (Inl e, tr') \<Rightarrow> (Inl e, tr', written)
      | (Inr _, tr') \<Rightarrow>
          (case reads of
             [] \<Rightarrow> (Inr (), tr', written)
           | Read_Failed # _ \<Rightarrow> (Inl (Failed unavailable), tr', written)
           | Piece bytes # rest \<Rightarrow>
               if bytes = [] then (Inr (), tr', written)
               else if length (concat written) + length bytes > most
               then (Inl (Failed (catalog ServiceResponseTooLarge)), tr', written)
               else if \<not> writable (length written)
               then (Inl (Failed (invocation_error ''cannot write the downloaded file'')), tr', written)
               else download_loop os writable most rest (written @ [bytes]) tr'))"

declare download_loop.simps [simp del]

definition download ::
  "outside \<Rightarrow> request \<Rightarrow> string option \<Rightarrow> (nat \<Rightarrow> bool) \<Rightarrow> nat \<Rightarrow> string \<Rightarrow> transport
    \<Rightarrow> (failure + downloaded) \<times> transport \<times> string list" where
  "download os rq token writable most contract tr =
     (case and_then (check os) (\<lambda>_. download_head os rq token) tr of
        (Inl e, tr') \<Rightarrow> (Inl e, tr', [])
      | (Inr (status, headers, reads), tr') \<Rightarrow>
          if \<not> successful status then
            let control = max_response_bytes (os_manifest os) Control_Class in
            (case read_body os control reads tr' of
               (Inl e, tr'') \<Rightarrow> (Inl e, tr'', [])
             | (Inr bytes, tr'') \<Rightarrow>
                 (Inl (Failed (classify (os_manifest os) (os_read os) contract rq
                    \<lparr>rs_status = status, rs_headers = headers,
                     rs_body = (if length bytes > control then [] else bytes)\<rparr> token)), tr'', []))
          else
            (case download_loop os writable most reads [] tr' of
               (Inl e, tr'', written) \<Rightarrow> (Inl e, tr'', written)
             | (Inr _, tr'', written) \<Rightarrow>
                 (Inr \<lparr>dl_status = status, dl_headers = headers, dl_bytes = length (concat written),
                       dl_sha256 = digest_to_hex (os_sha256 os (concat written))\<rparr>, tr'', written)))"



section \<open>Downloads are bounded\<close>

lemma download_loop_bounded:
  assumes "length (concat written) \<le> most"
  shows "length (concat (snd (snd (download_loop os writable most reads written tr)))) \<le> most"
  using assms
proof (induction reads arbitrary: written tr)
  case Nil
  then show ?case by (simp add: download_loop.simps [of _ _ _ "[]"] split: prod.splits sum.splits)
next
  case (Cons p reads)
  then show ?case
    by (cases p) (simp_all add: download_loop.simps [of _ _ _ "_ # _"] split: prod.splits sum.splits)
qed

text \<open>A loop that ends well wrote the whole body, which fits.\<close>

lemma download_loop_whole:
  assumes "download_loop os writable most reads written tr = (Inr (), tr', written')"
    and "length (concat written) \<le> most"
  shows "\<exists>bytes. read_upto (Suc most - length (concat written)) reads = Some bytes
    \<and> concat written' = concat written @ bytes"
  using assms
proof (induction reads arbitrary: written tr)
  case Nil
  then show ?case by (simp add: download_loop.simps [of _ _ _ "[]"] split: prod.splits sum.splits)
next
  case (Cons p reads)
  obtain x tr1 where check: "check os tr = (x, tr1)" by (cases "check os tr")
  obtain u where x: "x = Inr u"
    using Cons.prems(1) check by (cases x) (simp_all add: download_loop.simps [of _ _ _ "_ # _"])
  obtain bytes where p: "p = Piece bytes"
    using Cons.prems(1) check x by (cases p) (simp_all add: download_loop.simps [of _ _ _ "_ # _"])
  show ?case
  proof (cases "bytes = []")
    case True
    with Cons.prems check x p show ?thesis by (simp add: download_loop.simps [of _ _ _ "_ # _"])
  next
    case False
    with Cons.prems(1) check x p
    have fits: "length (concat written) + length bytes \<le> most"
      and rest: "download_loop os writable most reads (written @ [bytes]) tr1 = (Inr (), tr', written')"
      by (simp_all add: download_loop.simps [of _ _ _ "_ # _"] split: if_splits)
    from Cons.IH [OF rest] fits obtain more' where
      "read_upto (Suc most - length (concat (written @ [bytes]))) reads = Some more'"
      "concat written' = concat (written @ [bytes]) @ more'"
      by auto
    with False p fits show ?thesis by (auto simp: diff_diff_left)
  qed
qed

definition download_ok ::
  "outside \<Rightarrow> nat \<Rightarrow> failure + (nat \<times> (string, string) btree \<times> piece list)
    \<Rightarrow> (failure + downloaded) \<times> transport \<times> string list \<Rightarrow> bool" where
  "download_ok os most head outcome =
     (case outcome of (result, _, written) \<Rightarrow>
        length (concat written) \<le> most
        \<and> (case result of
             Inl _ \<Rightarrow> True
           | Inr d \<Rightarrow> successful (dl_status d) \<and> dl_bytes d = length (concat written)
               \<and> dl_sha256 d = digest_to_hex (os_sha256 os (concat written))
               \<and> (case head of
                    Inl _ \<Rightarrow> False
                  | Inr (status, headers, reads) \<Rightarrow> status = dl_status d \<and> headers = dl_headers d
                      \<and> read_upto (Suc most) reads = Some (concat written))))"

text \<open>
  Property C39.  However a download ends, the writes the sink accepted hold at most the bytes allowed; and a
  download that succeeds had a status of success, its length and digest are those of exactly the bytes
  written, and these are the whole body of the response.
\<close>

theorem download_is_bounded:
  "download_ok os most (fst (and_then (check os) (\<lambda>_. download_head os rq token) tr))
     (download os rq token writable most contract tr)"
proof -
  obtain x tr' where head: "and_then (check os) (\<lambda>_. download_head os rq token) tr = (x, tr')"
    by (cases "and_then (check os) (\<lambda>_. download_head os rq token) tr")
  show ?thesis
  proof (cases x)
    case (Inl e)
    with head show ?thesis by (simp add: download_def download_ok_def)
  next
    case (Inr shr)
    obtain status headers reads where shr: "shr = (status, headers, reads)" by (cases shr)
    show ?thesis
    proof (cases "successful status")
      case False
      with head Inr shr show ?thesis
        by (simp add: download_def download_ok_def Let_def split: prod.splits sum.splits)
    next
      case True
      obtain y tr2 written where loop: "download_loop os writable most reads [] tr' = (y, tr2, written)"
        by (cases "download_loop os writable most reads [] tr'")
      have "length (concat written) \<le> most"
        using download_loop_bounded [of "[]" most os writable reads tr'] by (simp add: loop)
      moreover have "y = Inr () \<Longrightarrow> read_upto (Suc most) reads = Some (concat written)"
        using download_loop_whole [of os writable most reads "[]" tr' tr2 written] loop by simp
      ultimately show ?thesis using True head Inr shr loop
        by (cases y) (simp_all add: download_def download_ok_def)
    qed
  qed
qed

section \<open>Calls of the network follow the proxy variables\<close>

text \<open>
  A relation between the state before and after that composes: it holds of a chain of actions when it holds
  of each.
\<close>

locale action_relation =
  fixes rel :: "transport \<Rightarrow> transport \<Rightarrow> bool"
  assumes rel_refl: "rel tr tr"
    and rel_trans: "rel a b \<Longrightarrow> rel b c \<Longrightarrow> rel a c"
begin

definition keeps :: "'a transport_action \<Rightarrow> bool" where
  "keeps m \<longleftrightarrow> (\<forall>tr. rel tr (snd (m tr)))"

lemma keepsI: "(\<And>tr. rel tr (snd (m tr))) \<Longrightarrow> keeps m"
  by (simp add: keeps_def)

lemma keepsD: "keeps m \<Longrightarrow> rel tr (snd (m tr))"
  by (simp add: keeps_def)

lemma keeps_give: "keeps (give x)"
  by (simp add: keeps_def give_def rel_refl)

lemma keeps_and_then: "keeps m \<Longrightarrow> (\<And>x. keeps (f x)) \<Longrightarrow> keeps (and_then m f)"
proof (rule keepsI)
  fix tr
  assume m: "keeps m" and f: "\<And>x. keeps (f x)"
  obtain x tr' where x: "m tr = (x, tr')" by (cases "m tr")
  with keepsD [OF m, of tr] have "rel tr tr'" by simp
  then show "rel tr (snd (and_then m f tr))"
    using keepsD [OF f, of tr'] x by (cases x) (auto simp: and_then_def intro: rel_trans)
qed

lemma keeps_fold: "(\<And>x tr. rel tr (f x tr)) \<Longrightarrow> rel tr (fold f xs tr)"
  by (induction xs arbitrary: tr) (auto intro: rel_refl rel_trans)

end

text \<open>
  A call goes to the origin, through the proxy the environment names for its URL, which is usable and speaks
  HTTP, and directly only when it names none.
\<close>

definition http_proxy :: "outside \<Rightarrow> string \<Rightarrow> bool" where
  "http_proxy os proxy \<longleftrightarrow>
     os_proxy os proxy
     \<and> (case split_first ''://'' proxy of None \<Rightarrow> True | Some (scheme, _) \<Rightarrow> map to_lower scheme = ''http'')"

definition follows :: "outside \<Rightarrow> transport \<Rightarrow> wire_call \<Rightarrow> bool" where
  "follows os tr call \<longleftrightarrow>
     starts_with (tr_origin tr) (wc_url call)
     \<and> wc_proxy call = proxy_for (wc_url call) (bt_get (tr_environment tr))
     \<and> (case wc_proxy call of None \<Rightarrow> True | Some proxy \<Rightarrow> http_proxy os proxy)"

lemma agent_proxy_follows:
  assumes "agent_proxy (os_proxy os) url lookup = Inr proxy"
  shows "proxy = proxy_for url lookup \<and> (case proxy of None \<Rightarrow> True | Some p \<Rightarrow> http_proxy os p)"
proof (cases "proxy_for url lookup")
  case None
  with assms show ?thesis by (simp add: agent_proxy_def)
next
  case (Some p)
  from assms [unfolded agent_proxy_def Some option.case] have "proxy = Some p \<and> http_proxy os p"
    by (cases "split_first ''://'' p") (auto simp: http_proxy_def split: if_splits prod.splits)
  with Some show ?thesis by simp
qed

definition grows :: "outside \<Rightarrow> transport \<Rightarrow> transport \<Rightarrow> bool" where
  "grows os tr tr' \<longleftrightarrow>
     tr_origin tr' = tr_origin tr \<and> tr_environment tr' = tr_environment tr
     \<and> (tr_fixture tr' = None \<longleftrightarrow> tr_fixture tr = None)
     \<and> (\<exists>new. tr_sent tr' = tr_sent tr @ new \<and> list_all (follows os tr) new
          \<and> (tr_fixture tr = None \<or> new = []))"

interpretation calls: action_relation "grows os" for os
proof
  show "grows os tr tr" for tr by (simp add: grows_def)
next
  fix a b c
  assume ab: "grows os a b" and bc: "grows os b c"
  from ab obtain n where n: "tr_sent b = tr_sent a @ n" "list_all (follows os a) n" "tr_fixture a = None \<or> n = []"
    by (auto simp: grows_def)
  from bc obtain m where m: "tr_sent c = tr_sent b @ m" "list_all (follows os b) m" "tr_fixture b = None \<or> m = []"
    by (auto simp: grows_def)
  have "follows os b = follows os a" using ab by (simp add: follows_def grows_def fun_eq_iff)
  with ab bc n m show "grows os a c"
    unfolding grows_def by (intro conjI exI [of _ "n @ m"]) auto
qed

lemma grows_same:
  "\<lbrakk>tr_origin tr' = tr_origin tr; tr_environment tr' = tr_environment tr;
    tr_fixture tr' = None \<longleftrightarrow> tr_fixture tr = None; tr_sent tr' = tr_sent tr\<rbrakk> \<Longrightarrow> grows os tr tr'"
  by (simp add: grows_def)

lemma keeps_check: "calls.keeps os (check os')"
  by (rule calls.keepsI) (rule grows_same; simp add: check_def)

lemma keeps_completed: "calls.keeps os completed_action"
  by (rule calls.keepsI, rule grows_same)
    (simp_all add: completed_action_def complete_exchange_def observe_completion_def split: option.split)

lemma keeps_next_exchange: "calls.keeps os (next_exchange os' rq token)"
  by (rule calls.keepsI, rule grows_same) (simp_all add: next_exchange_def split: option.splits)

lemma keeps_await: "calls.keeps os (await_reply os' streaming turns)"
  by (induction os' streaming turns rule: await_reply.induct)
    (auto intro!: calls.keeps_and_then keeps_check calls.keeps_give)

lemma keeps_read_body: "calls.keeps os (read_body os' limit body)"
  unfolding read_body_def by (intro calls.keeps_and_then keeps_check calls.keeps_give)

lemmas keeps_intros = calls.keeps_and_then calls.keeps_give keeps_check keeps_completed keeps_next_exchange
  keeps_await keeps_read_body


lemma and_then_simps [simp]:
  "and_then (give (Inr x)) f = f x" "and_then (give (Inl e)) f = give (Inl e)"
  "and_then (place_call os call) g tr = g (os_network os (length (tr_sent tr)) call) (tr\<lparr>tr_sent := tr_sent tr @ [call]\<rparr>)"
  by (simp_all add: and_then_def give_def place_call_def fun_eq_iff)

lemma lift_result_simps [simp]: "lift_result (Inr x) = Inr x" "lift_result (Inl e) = Inl (Failed e)"
  by (simp_all add: lift_result_def)

lemma keeps_real_call_live:
  assumes "tr_fixture tr = None"
  shows "grows os tr (snd (real_call os rq token timeout streaming tr))"
proof (cases "agent_proxy (os_proxy os) (request_url (tr_origin tr) rq) (bt_get (tr_environment tr))")
  case (Inl e)
  then show ?thesis by (simp add: real_call_def give_def calls.rel_refl)
next
  case (Inr proxy)
  let ?call = "\<lparr>wc_method = rq_method rq, wc_url = request_url (tr_origin tr) rq,
    wc_headers = wire_headers (os_version os) rq token, wc_body = rq_body rq, wc_proxy = proxy,
    wc_timeout = timeout, wc_stream = streaming\<rparr>"
  let ?placed = "tr\<lparr>tr_sent := tr_sent tr @ [?call]\<rparr>"
  have "starts_with (tr_origin tr) (request_url (tr_origin tr) rq)" by (simp add: request_url_def)
  moreover note agent_proxy_follows [OF Inr]
  ultimately have "follows os tr ?call" unfolding follows_def wire_call.select_convs by blast
  then have "grows os tr ?placed" using assms by (simp add: grows_def)
  moreover have "grows os ?placed (snd (and_then (await_reply os (streaming \<noteq> None) turns) (\<lambda>reply.
      and_then (check os) (\<lambda>_. case reply of
        Reply status headers body \<Rightarrow> give (Inr (status, headers, body))
      | Transport_Failure \<Rightarrow> give (Inl (Failed unavailable)))) ?placed))" for turns
    by (rule calls.keepsD) (auto intro!: keeps_intros split: reply.split)
  moreover have "snd (real_call os rq token timeout streaming tr) =
      snd (and_then (await_reply os (streaming \<noteq> None) (os_network os (length (tr_sent tr)) ?call)) (\<lambda>reply.
        and_then (check os) (\<lambda>_. case reply of
          Reply status headers body \<Rightarrow> give (Inr (status, headers, body))
        | Transport_Failure \<Rightarrow> give (Inl (Failed unavailable)))) ?placed)"
    using Inr by (simp add: real_call_def Let_def)
  ultimately show ?thesis by (simp only:) (rule calls.rel_trans)
qed


text \<open>An operation that takes the network only without a fixture.\<close>

lemma keeps_branch:
  assumes "calls.keeps os m" and "\<And>tr. tr_fixture tr = None \<Longrightarrow> grows os tr (snd (n tr))"
  shows "calls.keeps os (\<lambda>tr. if tr_fixture tr \<noteq> None then m tr else n tr)"
  using assms by (auto simp: calls.keeps_def)

lemma grows_after_call:
  assumes "tr_fixture tr = None" "\<And>x. calls.keeps os (f x)"
  shows "grows os tr (snd (and_then (real_call os rq token timeout streaming) f tr))"
proof -
  obtain x tr' where x: "real_call os rq token timeout streaming tr = (x, tr')"
    by (cases "real_call os rq token timeout streaming tr")
  with keeps_real_call_live [OF assms(1), of os rq token timeout streaming] have "grows os tr tr'" by simp
  then show ?thesis
    using calls.keepsD [OF assms(2), where tr = tr'] x by (cases x) (auto simp: and_then_def intro: calls.rel_trans)
qed

lemma keeps_send: "calls.keeps os (send_request os rq token)"
  unfolding send_request_def Let_def
  by (intro calls.keeps_and_then keeps_check keeps_branch grows_after_call)
    (auto intro!: keeps_intros split: prod.split)

lemma keeps_download_head: "calls.keeps os (download_head os rq token)"
proof -
  have "download_head os rq token = (\<lambda>tr. if tr_fixture tr \<noteq> None then
        and_then (next_exchange os rq token) (\<lambda>xc.
        and_then completed_action (\<lambda>_.
        and_then (check os) (\<lambda>_.
        if jidx xc ''disconnect'' = JStr ''before-response'' \<or> jidx xc ''disconnect'' = JStr ''after-headers''
        then give (Inl (Failed unavailable))
        else give (lift_result (bindE (fixture_status xc) (\<lambda>status.
             bindE (fixture_body os xc) (\<lambda>body.
             Inr (status, fixture_headers xc, fixture_reads xc body)))))))) tr
      else
        and_then (real_call os rq token None (Some (connect_timeout (os_manifest os) Download_Class,
            idle_timeout (os_manifest os) Download_Class))) (\<lambda>(status, headers, body).
        give (Inr (status, response_head headers, body))) tr)"
    by (simp add: download_head_def fun_eq_iff)
  then show ?thesis
    by (simp only:) (intro keeps_branch grows_after_call; auto intro!: keeps_intros split: prod.split)
qed

lemma grows_download_loop: "grows os tr (fst (snd (download_loop os writable most reads written tr)))"
proof (induction reads arbitrary: written tr)
  case Nil
  obtain x tr' where "check os tr = (x, tr')" by (cases "check os tr")
  with calls.keepsD [OF keeps_check, of os tr os] show ?case
    by (cases x) (simp_all add: download_loop.simps [of _ _ _ "[]"])
next
  case (Cons p reads)
  obtain x tr' where x: "check os tr = (x, tr')" by (cases "check os tr")
  with calls.keepsD [OF keeps_check, of os tr os] have "grows os tr tr'" by simp
  then show ?case using Cons.IH [of tr'] x
    by (cases p) (auto simp: download_loop.simps [of _ _ _ "_ # _"] split: sum.split intro: calls.rel_trans)
qed



lemma keeps_download: "grows os tr (fst (snd (download os rq token writable most contract tr)))"
proof -
  obtain x tr' where head: "and_then (check os) (\<lambda>_. download_head os rq token) tr = (x, tr')"
    by (cases "and_then (check os) (\<lambda>_. download_head os rq token) tr")
  have "calls.keeps os (and_then (check os) (\<lambda>_. download_head os rq token))"
    by (intro calls.keeps_and_then keeps_check keeps_download_head)
  from calls.keepsD [OF this, where tr = tr] head have start: "grows os tr tr'" by simp
  show ?thesis
  proof (cases x)
    case (Inl e)
    with head start show ?thesis by (simp add: download_def)
  next
    case (Inr shr)
    obtain status headers reads where shr: "shr = (status, headers, reads)" by (cases shr)
    show ?thesis
    proof (cases "successful status")
      case False
      let ?limit = "max_response_bytes (os_manifest os) Control_Class"
      obtain y tr2 where body: "read_body os ?limit reads tr' = (y, tr2)" by (cases "read_body os ?limit reads tr'")
      with calls.keepsD [OF keeps_read_body, where tr = tr'] have "grows os tr' tr2" by (metis snd_conv)
      with start have "grows os tr tr2" by (rule calls.rel_trans)
      with False head Inr shr body show ?thesis by (cases y) (simp_all add: download_def Let_def)
    next
      case True
      obtain y tr2 written where loop: "download_loop os writable most reads [] tr' = (y, tr2, written)"
        by (cases "download_loop os writable most reads [] tr'")
      with grows_download_loop [of os tr' writable most reads "[]"] have "grows os tr' tr2" by simp
      with start have "grows os tr tr2" by (rule calls.rel_trans)
      with True head Inr shr loop show ?thesis by (cases y) (simp_all add: download_def)
    qed
  qed
qed

lemma keeps_start_events: "calls.keeps os (start_events os' xc status)"
  by (rule calls.keepsI, rule grows_same) (simp_all add: start_events_def split: option.split)

lemma keeps_open_live:
  assumes "tr_fixture tr = None"
  shows "grows os tr (snd (open_live_stream os rq token tr))"
proof -
  let ?manifest = "os_manifest os"
  let ?call = "real_call os rq token None
    (Some (connect_timeout ?manifest Stream_Class, idle_timeout ?manifest Stream_Class)) tr"
  obtain x tr' where x: "?call = (x, tr')" by (cases ?call)
  with keeps_real_call_live [OF assms, of os rq token None] have start: "grows os tr tr'" by (metis snd_conv)
  show ?thesis
  proof (cases x)
    case (Inl e)
    with x start show ?thesis by (cases e) (simp_all add: open_live_stream_def Let_def)
  next
    case (Inr shb)
    obtain status headers body where shb: "shb = (status, headers, body)" by (cases shb)
    have "calls.keeps os (and_then (read_body os (max_response_bytes ?manifest Stream_Class) body) (\<lambda>bytes.
        give (lift_result (mapE Buffered (bounded_response status (response_head headers) bytes
          (max_response_bytes ?manifest Stream_Class))))))"
      by (intro keeps_intros)
    from calls.keepsD [OF this, where tr = tr'] start Inr shb x show ?thesis
      by (auto simp: open_live_stream_def Let_def intro: calls.rel_trans)
  qed
qed

lemma keeps_open_stream: "calls.keeps os (open_stream os rq token)"
proof -
  have "calls.keeps os (open_fixture_stream os rq token)"
    unfolding open_fixture_stream_def by (auto intro!: keeps_intros keeps_start_events)
  then show ?thesis
    unfolding open_stream_def by (intro calls.keeps_and_then keeps_check keeps_branch keeps_open_live)
qed

text \<open>A use of the transport, and the state it leaves.\<close>

datatype transport_use =
    Send request "string option"
  | Open_Stream request "string option"
  | Download request "string option" "nat \<Rightarrow> bool" nat string

fun perform :: "outside \<Rightarrow> transport_use \<Rightarrow> transport \<Rightarrow> transport" where
  "perform os (Send rq token) tr = snd (send_request os rq token tr)"
| "perform os (Open_Stream rq token) tr = snd (open_stream os rq token tr)"
| "perform os (Download rq token writable most contract) tr = fst (snd (download os rq token writable most contract tr))"

definition calls_follow :: "outside \<Rightarrow> transport \<Rightarrow> bool" where
  "calls_follow os tr \<longleftrightarrow>
     list_all (follows os tr) (tr_sent tr) \<and> (tr_fixture tr = None \<or> tr_sent tr = [])"

lemma grows_perform: "grows os tr (perform os op tr)"
  by (cases op) (simp_all add: calls.keepsD [OF keeps_send] calls.keepsD [OF keeps_open_stream] keeps_download)

text \<open>
  Property C40.  Whatever requests, streams and downloads a transport has served, each call it placed on the
  network went to the service's origin, and through exactly the proxy the environment names for its URL, one that is
  usable and speaks HTTP; where the named proxy is not, nothing was sent.  A transport over a fixture placed
  no call.
\<close>

theorem calls_follow_the_proxy:
  "case new_transport os files environment name origin cancelled of
     Inl _ \<Rightarrow> True
   | Inr tr \<Rightarrow> calls_follow os (fold (perform os) operations tr)"
proof (cases "new_transport os files environment name origin cancelled")
  case (Inr tr)
  then have empty: "tr_sent tr = []"
    by (auto simp: new_transport_def observe_completion_def Let_def result_simps split: option.splits if_splits)
  have g: "grows os tr (fold (perform os) operations tr)"
    by (rule calls.keeps_fold) (rule grows_perform)
  let ?last = "fold (perform os) operations tr"
  have "follows os ?last = follows os tr" using g by (simp add: follows_def grows_def fun_eq_iff)
  moreover have "list_all (follows os tr) (tr_sent ?last)" "tr_fixture ?last = None \<or> tr_sent ?last = []"
    using g empty by (auto simp: grows_def)
  ultimately show ?thesis using Inr by (simp add: calls_follow_def)
qed simp


end
