(* ===== verification/Spec2Isabelle.thy ===== *)
theory Spec2Isabelle
  imports Sse Host_Protocol Native_Settled Supervisor_Lifecycle Human_Stream Native_Capture Launch
    Config_Checks Invocation Package_Commands Transports Terminal Output Service_Transport
begin

text \<open>
  \<^bold>\<open>The OpenProse command-line runner, verified\<close>

  The program (\<open>src/cli/rust\<close>) runs an OpenProse program through an agent harness: it starts the
  harness as a child process, talks to it over structured records, and turns what the harness sends
  into a result.  Much of its code defends a boundary: what a foreign process or service may send, in
  which order and of what size, and what is shown to a terminal or handed to an operating system
  afterwards.  This development models that code and proves what it promises.

  \<^bold>\<open>Theories\<close>

  \<^item> \<open>Prelude\<close>: results as sums (\<open>bindE\<close>, \<open>foldE\<close>), the locales of fallible and of growing
    machines, strings as bytes and their lines, decimal numbers, checked machine arithmetic.
  \<^item> \<open>Utf8\<close>, \<open>Ordered_Map\<close>, \<open>Json\<close>: the parts of the standard library and of \<open>serde_json\<close> the
    sources use: UTF-8 of a \<open>String\<close>, \<open>BTreeMap\<close> and \<open>BTreeSet\<close>, \<open>Value\<close> with its indexing.
  \<^item> \<open>Text_Safety\<close>, \<open>Errors\<close>: \<open>error.rs\<close>.  The closed taxonomy, its catalogue, and the rendering of
    an error whose dynamic text cannot be taken for a terminal control, a line of another label, or
    a second shell word.
  \<^item> \<open>Framing\<close>: \<open>framing.rs\<close>.  The line reader of the harness's output over any chunking of the
    stream, with its byte limits.
  \<^item> \<open>Sse\<close>: \<open>service/sse.rs\<close>.  The server-sent-event reader of the hosted service.
  \<^item> \<open>Base64\<close>, \<open>Host_Command\<close>, \<open>Host_Protocol\<close>: \<open>windows-process-host/src/lib.rs\<close>.  The request and
    control lines of the helper that starts Windows processes, the checks of a request, the command
    line it builds and how the Windows runtime splits it, the environment block, and the sequence
    of the events it reports.
  \<^item> \<open>Native_Records\<close>, \<open>Native_Drain\<close>, \<open>Native_Tools\<close>: \<open>installed_adapters/native_tools.rs\<close> and the
    functions of \<open>installed_adapters.rs\<close> it calls.  The loop of \<open>normalize_mode\<close> is one step over a
    record of its variables; each arm of its \<open>match\<close> is a definition.  \<open>Native_Proofs\<close> decomposes a
    step and proves what the accepted records yield; \<open>Native_Settled\<close> holds the invariants of runs.

  \<^item> \<open>Supervisor_Protocol\<close>, \<open>Supervisor_Lifecycle\<close>: \<open>supervisor.rs\<close>.  The protocol state machine of a
    supervised harness (\<open>ProtocolState::accept\<close>), the messages of the reader thread with a record
    observer, the record assembler of the Windows host; then the language of record sequences the
    machine accepts, and the agreement of the two transports, up to the limit of standard output that
    only the reader thread checks.
  \<^item> \<open>Env_Policy\<close>: \<open>environment.rs\<close>.  The closed environment of a child and its protected literals.
  \<^item> \<open>Redaction\<close>, \<open>Human_Stream\<close>, \<open>Native_Capture\<close>: \<open>runner.rs\<close> (and \<open>sanitize_diagnostic\<close> of
    \<open>supervisor.rs\<close>).  What is removed from text before it is shown or written: exact secrets within and
    across messages, the live stream of assistant text, the native log with its byte limit.
  \<^item> \<open>Adapters\<close>, \<open>Launch\<close>: \<open>installed_adapters.rs\<close>.  The admission of an installed harness (version,
    platform, authentication probe) and the launch built for it: environment, arguments, system limits.
  \<^item> \<open>Transport_Streams\<close>, \<open>Prime_Rpc\<close>, \<open>Omp_Rpc\<close>, \<open>Transports\<close>: \<open>installed_adapters.rs\<close> and
    \<open>claude_shutdown.rs\<close>.  The normalizers of the other harnesses' streams (Codex, the agents SDK, Claude,
    Prime and OMP), each a step over the variables of its loop, the choice among them, and the
    assistant messages a running stream already shows.
  \<^item> \<open>Flat_Toml\<close>, \<open>Config_Settings\<close>, \<open>Config_Layers\<close>, \<open>Config_Checks\<close>: \<open>config.rs\<close>.  The file format,
    the settings and the history each keeps, the layers (file, project file, environment, flags), and
    the checks across settings.  A layer only ever overwrites: the composition is shown to be the lookup
    of the last layer that sets a key.  A refused file is explained without the value it is refused for.
  \<^item> \<open>Suggestions\<close>, \<open>Command_Paths\<close>: \<open>service/mod.rs\<close>.  The suggestion for a misspelled word, with its
    edit distance proved to be the least cost of an alignment, and the completion of command paths.
  \<^item> \<open>Invocation\<close>: \<open>invocation.rs\<close>.  The command line: runner options, the words passed on to the
    language, the runner commands.
  \<^item> \<open>Package\<close>, \<open>Package_Commands\<close>: \<open>registry.rs\<close>.  The preparation of a package and its canonical
    artifact, receipts, the tree a package is written to; the arguments of the package commands and
    their exchanges with the registry, whose session, files and JSON text are fields of a record.

  \<^item> \<open>Image\<close>: \<open>image.rs\<close>.  The verification of a Skill Runtime Image, read from a directory or embedded;
    both ways are one locale, interpreted twice, and accept exactly the verified images.
  \<^item> \<open>Terminal\<close>: \<open>recover_terminal\<close> of \<open>installed_adapters.rs\<close>.  The schema of the image as a type, and the
    line of the assistant's text that must be a value of it.
  \<^item> \<open>Canonical_Json\<close>, \<open>Output\<close>: \<open>output.rs\<close>.  The JSON text of the runner with its number notation, read back
    by a reader of RFC 8259; the outcomes of a command and the calls that write them.
  \<^item> \<open>Pattern\<close>, \<open>Service_Text\<close>: parts of \<open>service/render.rs\<close>.  The matcher of header patterns, which decides
    regular expressions on the patterns where no possibly empty body must be repeated; the removal of API keys and the
    message of an error response.
  \<^item> \<open>Lenient_Base64\<close>, \<open>Service_Request\<close>, \<open>Service_Transport\<close>: \<open>service/http.rs\<close>.  The second reader of base64,
    which extends the strict one; requests, proxies and the classification of an error, which discloses no key; and
    the transport with its fixture: exchanges in order, buffered requests, streams and downloads.  Its operations
    are state transformers, and the locale \<open>action_relation\<close> carries a relation between the states before
    and after through any chain of them: no call of the network bypasses the proxy the environment names.

  \<^bold>\<open>How the parts meet\<close>

  The same locales carry the machines: \<open>fallible_machine\<close> is interpreted by the line reader, the host's
  environment entries and the collector of a package's files, and its extensions by the others, so an
  invariant of a step is an invariant of a run.  A launch takes its environment from \<open>Env_Policy\<close>, whose
  literals are the ones \<open>Redaction\<close> and \<open>Human_Stream\<close> remove; the configuration decides what
  \<open>Launch\<close> is given; the supervised channel reads what \<open>Framing\<close> framed.

  \<^bold>\<open>Conventions\<close>

  A Rust \<open>Result\<close> is a sum with the error on the left, an \<open>Option\<close> an option, a byte string a list
  of characters, a \<open>usize\<close> or \<open>u64\<close> a natural number with its checked or saturating operations
  written out.  A loop over an iterator is recursion over the list; no definition uses fuel.  A reader
  is the list of chunks its calls return; a channel is the list of messages sent so far.

  \<^bold>\<open>Not modelled\<close>

  Threads, processes, sockets, files and terminals are outside the model, and so are the parts of
  the program that only drive them: the spawning, deadlines and clean-up of \<open>runner.rs\<close> and
  \<open>supervisor.rs\<close>, the Win32 calls, credential stores, the HTTP library under \<open>Service_Transport\<close> and the commands of the
  service over it.  Of \<open>config.rs\<close> the discovery of files, the resolved runtime and the edits of
  the user file are left out; of \<open>installed_adapters.rs\<close> the prepared process of the single adapters,
  the compatibility probe of Codex and the resolution of executables; of \<open>service/mod.rs\<close> the parser of an operation's
  arguments, the help texts and the dispatch; of \<open>registry.rs\<close> the safe opening of files and the
  publication of the finished directory.
\<close>

end
